(* ===== verification/Rust_Prelude.thy ===== *)
theory Rust_Prelude
  imports Main "HOL-Library.Word"
begin

text \<open>
  Shared vocabulary of the development: the machine integers of a 64-bit RISC-V build of the
  crates, the outcome of a Rust computation that may panic, and the integer methods of the
  Rust core library that the sources call (\<open>checked_add\<close>, \<open>trailing_zeros\<close>,
  \<open>leading_zeros\<close>, \<open>count_ones\<close>, \<open>ilog2\<close>, \<open>next_power_of_two\<close>,
  \<open>is_multiple_of\<close>), with the bit-level lemmas every component uses.

  Arithmetic that overflows, a shift by the width or more, an out-of-range array index and a
  failed \<open>unwrap\<close>/\<open>expect\<close>/\<open>assert\<close> are the value \<open>Panic\<close>: the behaviour of a
  build with overflow checks. Where a theorem shows that an operation returns, its result is
  the one of a build without overflow checks too, because nothing overflowed.
\<close>

unbundle bit_operations_syntax

section \<open>Types\<close>

type_synonym usize = "64 word"
type_synonym u64 = "64 word"
type_synonym u32 = "32 word"
type_synonym u16 = "16 word"
type_synonym u8 = "8 word"

abbreviation usize_BITS :: nat where "usize_BITS \<equiv> 64"
abbreviation usize_MAX :: usize where "usize_MAX \<equiv> - 1"

datatype 'a outcome = Panic | Ret 'a

named_theorems outcome_simps \<open>equations of the outcome combinators\<close>
named_theorems word_simps \<open>equations of the modelled integer methods\<close>

definition obind :: "'a outcome \<Rightarrow> ('a \<Rightarrow> 'b outcome) \<Rightarrow> 'b outcome" where
  "obind m f = (case m of Panic \<Rightarrow> Panic | Ret x \<Rightarrow> f x)"

definition omap :: "('a \<Rightarrow> 'b) \<Rightarrow> 'a outcome \<Rightarrow> 'b outcome" where
  "omap f m = (case m of Panic \<Rightarrow> Panic | Ret x \<Rightarrow> Ret (f x))"

text \<open>The code that follows an \<open>expect\<close>, an \<open>assert!\<close> or an index expression.\<close>

definition expect :: "'a option \<Rightarrow> 'a outcome" where
  "expect x = (case x of None \<Rightarrow> Panic | Some y \<Rightarrow> Ret y)"

definition array_get :: "'a list \<Rightarrow> nat \<Rightarrow> 'a outcome" where
  "array_get xs i = (if i < length xs then Ret (xs ! i) else Panic)"

definition array_set :: "'a list \<Rightarrow> nat \<Rightarrow> 'a \<Rightarrow> 'a list outcome" where
  "array_set xs i v = (if i < length xs then Ret (xs[i := v]) else Panic)"

lemma obind_simps [simp, outcome_simps]:
  "obind Panic f = Panic" "obind (Ret x) f = f x"
  by (simp_all add: obind_def)

lemma omap_simps [simp, outcome_simps]:
  "omap f Panic = Panic" "omap f (Ret x) = Ret (f x)"
  by (simp_all add: omap_def)

lemma expect_simps [simp, outcome_simps]:
  "expect None = Panic" "expect (Some x) = Ret x"
  by (simp_all add: expect_def)

lemma obind_eq_Ret: "obind m f = Ret y \<longleftrightarrow> (\<exists>x. m = Ret x \<and> f x = Ret y)"
  by (cases m) auto

lemma omap_eq_Ret: "omap f m = Ret y \<longleftrightarrow> (\<exists>x. m = Ret x \<and> y = f x)"
  by (cases m) auto

lemma obind_neq_Panic: "obind m f \<noteq> Panic \<longleftrightarrow> (\<exists>x. m = Ret x \<and> f x \<noteq> Panic)"
  by (cases m) auto

lemma array_get_eq_Ret: "array_get xs i = Ret y \<longleftrightarrow> i < length xs \<and> y = xs ! i"
  by (auto simp: array_get_def)

lemma array_set_eq_Ret: "array_set xs i v = Ret ys \<longleftrightarrow> i < length xs \<and> ys = xs[i := v]"
  by (auto simp: array_set_def)

section \<open>Checked arithmetic\<close>

definition checked_add :: "'a::len word \<Rightarrow> 'a word \<Rightarrow> 'a word option" where
  "checked_add a b = (if unat a + unat b < 2 ^ LENGTH('a) then Some (a + b) else None)"

text \<open>The plain operators \<open>+\<close>, \<open>-\<close> and \<open><<\<close> of a build with overflow checks.\<close>

definition add_ovf :: "'a::len word \<Rightarrow> 'a word \<Rightarrow> 'a word outcome" where
  "add_ovf a b = (case checked_add a b of None \<Rightarrow> Panic | Some c \<Rightarrow> Ret c)"

definition sub_ovf :: "'a::len word \<Rightarrow> 'a word \<Rightarrow> 'a word outcome" where
  "sub_ovf a b = (if b \<le> a then Ret (a - b) else Panic)"

definition shl_ovf :: "'a::len word \<Rightarrow> nat \<Rightarrow> 'a word outcome" where
  "shl_ovf a n = (if n < LENGTH('a) then Ret (push_bit n a) else Panic)"

lemma checked_add_eq_Some:
  "checked_add a b = Some c \<longleftrightarrow> c = a + b \<and> unat c = unat a + unat b" for a b c :: "'a::len word"
proof -
  have "unat (a + b) = (unat a + unat b) mod 2 ^ LENGTH('a)"
    by (simp add: unat_word_ariths)
  then have "unat a + unat b < 2 ^ LENGTH('a) \<longleftrightarrow> unat (a + b) = unat a + unat b"
    by (metis mod_less unsigned_less)
  then show ?thesis
    by (auto simp: checked_add_def)
qed

lemma checked_add_unat:
  "checked_add a b = Some c \<longleftrightarrow> unat c = unat a + unat b" for a b c :: "'a::len word"
proof
  show "checked_add a b = Some c \<Longrightarrow> unat c = unat a + unat b"
    using checked_add_eq_Some [of a b c] by blast
next
  assume c: "unat c = unat a + unat b"
  then have "unat a + unat b < 2 ^ LENGTH('a)"
    by (metis unsigned_less)
  then have "unat (a + b) = unat c"
    using c by (simp add: unat_word_ariths)
  with c show "checked_add a b = Some c"
    unfolding checked_add_eq_Some by (metis unsigned_word_eqI)
qed

lemma checked_add_eq_None:
  "checked_add a b = None \<longleftrightarrow> 2 ^ LENGTH('a) \<le> unat a + unat b" for a b :: "'a::len word"
  by (auto simp: checked_add_def)

lemma unat_bound: "unat w < 2 ^ LENGTH('a)" for w :: "'a::len word"
  by (rule unsigned_less)

lemma unat_usize: "unat w < 18446744073709551616" for w :: usize
  using unat_bound [of w] by simp

lemma unat_usize_MAX: "unat usize_MAX = 18446744073709551615"
  by (simp add: unsigned_minus_1_eq_mask mask_eq_exp_minus_1)

lemma unat_eq_iff [simp]: "unat a = unat b \<longleftrightarrow> a = b" for a b :: "'a::len word"
  by (metis unsigned_word_eqI)

lemma word_of_nat_unat: "word_of_nat (unat w) = w"
  by simp

lemma unat_add_no_ovf:
  "unat a + unat b < 2 ^ LENGTH('a) \<Longrightarrow> unat (a + b) = unat a + unat b" for a b :: "'a::len word"
  by (simp add: unat_word_ariths)

lemma add_ovf_eq_Ret:
  "add_ovf a b = Ret c \<longleftrightarrow> c = a + b \<and> unat c = unat a + unat b" for a b c :: "'a::len word"
  using checked_add_eq_Some [of a b c] by (auto simp: add_ovf_def split: option.splits)

lemma add_ovf_Panic_iff:
  "add_ovf a b = Panic \<longleftrightarrow> 2 ^ LENGTH('a) \<le> unat a + unat b" for a b :: "'a::len word"
  by (simp add: add_ovf_def checked_add_def)

lemma sub_ovf_eq_Ret: "sub_ovf a b = Ret c \<longleftrightarrow> b \<le> a \<and> c = a - b"
  by (auto simp: sub_ovf_def)

lemma unat_le_sub: "b \<le> a \<Longrightarrow> unat (a - b) = unat a - unat b" for a b :: "'a::len word"
  by (rule unat_sub)

section \<open>Bits of a machine word\<close>

text \<open>The bit positions of a word from low to high; \<open>1 << n\<close> as \<open>one_bit\<close>.\<close>

definition bit_list :: "'a::len word \<Rightarrow> nat list" where
  "bit_list w = filter (bit w) [0..<LENGTH('a)]"

definition one_bit :: "nat \<Rightarrow> 'a::len word" where
  "one_bit n = push_bit n 1"

definition trailing_zeros :: "'a::len word \<Rightarrow> nat" where
  "trailing_zeros w = length (takeWhile (\<lambda>i. \<not> bit w i) [0..<LENGTH('a)])"

definition leading_zeros :: "'a::len word \<Rightarrow> nat" where
  "leading_zeros w = length (takeWhile (\<lambda>i. \<not> bit w i) (rev [0..<LENGTH('a)]))"

definition count_ones :: "'a::len word \<Rightarrow> nat" where
  "count_ones w = length (bit_list w)"

lemma set_bit_list: "set (bit_list w) = {i. bit w i}"
  by (auto simp: bit_list_def dest: bit_imp_le_length)

lemma sorted_bit_list: "sorted (bit_list w)"
  by (simp add: bit_list_def sorted_wrt_filter)

lemma distinct_bit_list: "distinct (bit_list w)"
  by (simp add: bit_list_def)

lemma bit_list_eq_Nil: "bit_list w = [] \<longleftrightarrow> w = 0"
proof -
  have "bit_list w = [] \<longleftrightarrow> (\<forall>i. \<not> bit w i)"
    using set_bit_list [of w] by auto
  then show ?thesis
    by (auto intro: bit_word_eqI)
qed

lemma bit_one_bit: "bit (one_bit n :: 'a::len word) i \<longleftrightarrow> i = n \<and> n < LENGTH('a)"
  by (auto simp: one_bit_def bit_simps)

lemma one_bit_eq_power: "one_bit n = (2 ^ n :: 'a::len word)"
  by (simp add: one_bit_def)

lemma unat_one_bit: "n < LENGTH('a) \<Longrightarrow> unat (one_bit n :: 'a::len word) = 2 ^ n"
proof -
  assume "n < LENGTH('a)"
  moreover have "(one_bit n :: 'a word) = word_of_nat (2 ^ n)"
    by (simp add: one_bit_eq_power)
  ultimately show ?thesis
    by (simp add: unat_of_nat del: of_nat_power)
qed

lemma takeWhile_upt_length:
  assumes "\<forall>j<k. P j" and "\<not> P k" and "k < n"
  shows "length (takeWhile P [0..<n]) = k"
proof -
  from assms(3) have "[0..<n] = [0..<k] @ k # [Suc k..<n]"
    by (metis add_0 le_add1 less_imp_add_positive upt_add_eq_append upt_conv_Cons)
  then show ?thesis
    using assms(1,2) by (simp add: takeWhile_append)
qed

lemma sorted_le_last: "x \<in> set xs \<Longrightarrow> sorted xs \<Longrightarrow> x \<le> last xs" for x :: nat
  by (induction xs) (auto simp: Ball_def)

lemma trailing_zeros_unique:
  fixes w :: "'a::len word"
  assumes "bit w k" and "\<forall>j<k. \<not> bit w j"
  shows "trailing_zeros w = k"
  unfolding trailing_zeros_def
  using assms by (intro takeWhile_upt_length) (auto dest: bit_imp_le_length)

lemma word_eq_0_iff_bit: "w = 0 \<longleftrightarrow> (\<forall>i. \<not> bit w i)" for w :: "'a::len word"
  by (auto intro: bit_word_eqI)

lemma word_nonzero_bit: "w \<noteq> 0 \<Longrightarrow> \<exists>i. bit w i" for w :: "'a::len word"
  by (simp add: word_eq_0_iff_bit)

lemma trailing_zeros_props:
  fixes w :: "'a::len word"
  assumes "w \<noteq> 0"
  shows "bit w (trailing_zeros w)" and "j < trailing_zeros w \<Longrightarrow> \<not> bit w j"
    and "trailing_zeros w < LENGTH('a)"
proof -
  define k where "k = (LEAST i. bit w i)"
  from word_nonzero_bit [OF assms] have k: "bit w k"
    unfolding k_def by (metis LeastI)
  have low: "\<forall>j<k. \<not> bit w j"
    unfolding k_def using not_less_Least by blast
  have eq: "trailing_zeros w = k"
    using k low by (rule trailing_zeros_unique)
  show "bit w (trailing_zeros w)"
    using k eq by simp
  show "j < trailing_zeros w \<Longrightarrow> \<not> bit w j"
    using low eq by simp
  show "trailing_zeros w < LENGTH('a)"
    using k eq by (simp add: bit_imp_le_length)
qed

lemma trailing_zeros_hd: "w \<noteq> 0 \<Longrightarrow> trailing_zeros w = hd (bit_list w)" for w :: "'a::len word"
proof -
  assume nz: "w \<noteq> 0"
  then have ne: "bit_list w \<noteq> []"
    by (simp add: bit_list_eq_Nil)
  then have "bit w (hd (bit_list w))"
    using set_bit_list [of w] hd_in_set by blast
  moreover have "\<not> bit w j" if "j < hd (bit_list w)" for j
  proof
    assume "bit w j"
    then have "j \<in> set (bit_list w)"
      by (simp add: set_bit_list)
    with ne sorted_bit_list [of w] have "hd (bit_list w) \<le> j"
      by (cases "bit_list w") auto
    with that show False by simp
  qed
  ultimately show ?thesis
    by (intro trailing_zeros_unique) auto
qed

lemma leading_zeros_last:
  fixes w :: "'a::len word"
  assumes "w \<noteq> 0"
  shows "LENGTH('a) - leading_zeros w - 1 = last (bit_list w)"
    and "leading_zeros w < LENGTH('a)"
proof -
  let ?m = "last (bit_list w)"
  from assms have ne: "bit_list w \<noteq> []"
    by (simp add: bit_list_eq_Nil)
  then have m: "bit w ?m"
    using set_bit_list [of w] last_in_set by blast
  then have len: "?m < LENGTH('a)"
    by (rule bit_imp_le_length)
  have top: "\<not> bit w j" if "?m < j" for j
  proof
    assume "bit w j"
    then have "j \<in> set (bit_list w)"
      by (simp add: set_bit_list)
    then have "j \<le> ?m"
      using sorted_bit_list [of w] by (rule sorted_le_last)
    with that show False by simp
  qed
  have split: "[0..<LENGTH('a)] = [0..<?m] @ ?m # [Suc ?m..<LENGTH('a)]"
    using len by (metis add_0 le_add1 less_imp_add_positive upt_add_eq_append upt_conv_Cons)
  have "takeWhile (\<lambda>i. \<not> bit w i) (rev [Suc ?m..<LENGTH('a)] @ ?m # rev [0..<?m])
      = rev [Suc ?m..<LENGTH('a)]"
    using m top by (subst takeWhile_append2) auto
  then have "leading_zeros w = LENGTH('a) - Suc ?m"
    unfolding leading_zeros_def by (subst split) simp
  then show "LENGTH('a) - leading_zeros w - 1 = ?m" and "leading_zeros w < LENGTH('a)"
    using len by auto
qed

text \<open>Clearing one bit, \<open>w & !(1 << n)\<close>, removes that position from the list.\<close>

definition clear_bit :: "'a::len word \<Rightarrow> nat \<Rightarrow> 'a word" where
  "clear_bit w n = w AND NOT (one_bit n)"

lemma bit_clear_bit: "bit (clear_bit w n) i \<longleftrightarrow> bit w i \<and> i \<noteq> n" for w :: "'a::len word"
  by (auto simp: clear_bit_def bit_simps bit_one_bit dest: bit_imp_le_length)

lemma bit_list_clear_bit: "bit_list (clear_bit w n) = filter (\<lambda>i. i \<noteq> n) (bit_list w)"
  for w :: "'a::len word"
  by (auto simp: bit_list_def bit_clear_bit intro!: filter_cong)

lemma bit_list_clear_low:
  "w \<noteq> 0 \<Longrightarrow> bit_list w = trailing_zeros w # bit_list (clear_bit w (trailing_zeros w))"
  for w :: "'a::len word"
proof -
  assume nz: "w \<noteq> 0"
  then obtain x xs where xs: "bit_list w = x # xs"
    by (metis bit_list_eq_Nil list.exhaust)
  with distinct_bit_list [of w] have "filter (\<lambda>i. i \<noteq> x) (x # xs) = xs"
    by (auto intro: filter_True)
  with xs nz show ?thesis
    by (simp add: bit_list_clear_bit trailing_zeros_hd)
qed

lemma bit_list_clear_high:
  "w \<noteq> 0 \<Longrightarrow> bit_list w = bit_list (clear_bit w (last (bit_list w))) @ [last (bit_list w)]"
  for w :: "'a::len word"
proof -
  assume nz: "w \<noteq> 0"
  then have ne: "bit_list w \<noteq> []"
    by (simp add: bit_list_eq_Nil)
  let ?x = "last (bit_list w)" and ?xs = "butlast (bit_list w)"
  have eq: "bit_list w = ?xs @ [?x]"
    using ne by simp
  with distinct_bit_list [of w] have "?x \<notin> set ?xs"
    by (metis distinct_append distinct.simps(2) disjoint_iff list.set_intros(1))
  then have "filter (\<lambda>i. i \<noteq> ?x) (?xs @ [?x]) = ?xs"
    by (auto intro: filter_True)
  with eq show ?thesis
    by (simp add: bit_list_clear_bit)
qed

lemma count_ones_clear_low:
  "w \<noteq> 0 \<Longrightarrow> count_ones (clear_bit w (trailing_zeros w)) < count_ones w" for w :: "'a::len word"
  using bit_list_clear_low [of w] by (simp add: count_ones_def)

lemma and_one_bit_eq_0: "w AND one_bit n = 0 \<longleftrightarrow> \<not> (bit w n \<and> n < LENGTH('a))"
  for w :: "'a::len word"
  by (auto simp: word_eq_0_iff_bit bit_and_iff bit_one_bit)

section \<open>Conversions\<close>

text \<open>\<open>u32::try_from\<close> of a register.\<close>

definition u32_try_from :: "usize \<Rightarrow> u32 option" where
  "u32_try_from x = (if unat x < 2 ^ 32 then Some (ucast x) else None)"

lemma u32_try_from_ucast [simp]: "u32_try_from (ucast (x :: u32)) = Some x"
proof -
  have small: "unat x < 2 ^ 32"
    using unsigned_less [of x] by simp
  then have "unat (ucast x :: usize) = unat x"
    by (simp add: unsigned_ucast_eq take_bit_nat_eq_self_iff)
  moreover have "ucast (ucast x :: usize) = x"
    by (rule bit_word_eqI) (simp add: bit_ucast_iff)
  ultimately show ?thesis
    using small by (simp add: u32_try_from_def)
qed

end
