(* ===== verification/Hart_Mask.thy ===== *)
theory Hart_Mask
  imports Rust_Prelude
begin

text \<open>
  The SBI masks of \<open>library/sbi-spec/src/binary\<close>: the bit tests of \<open>mask_commons.rs\<close>,
  the hart mask of \<open>hart_mask.rs\<close> with its double-ended iterator \<open>HartIds\<close>, and the
  counter and trigger masks. A mask with base \<open>usize::MAX\<close> stands for every hart; any
  other mask selects the harts \<open>base + i\<close> for the set bits \<open>i\<close> of the mask word.

  The lemmas relate the iterator to the membership test: exhausting \<open>next\<close> (or
  \<open>next_back\<close>) lists exactly the selected harts in ascending (descending) order, or
  panics exactly when \<open>base + i\<close> leaves the 64-bit range for some set bit \<open>i\<close>.
\<close>

section \<open>Bit tests shared by the masks (mask_commons.rs)\<close>

datatype MaskError = Ignored | InvalidBit

definition valid_bit :: "usize \<Rightarrow> usize \<Rightarrow> bool" where
  "valid_bit base n =
     (if n < base then False
      else if usize_BITS \<le> unat (n - base) then False
      else True)"

definition has_bit :: "usize \<Rightarrow> usize \<Rightarrow> usize \<Rightarrow> usize \<Rightarrow> bool" where
  "has_bit m base ignore n =
     (if base = ignore then True
      else if \<not> valid_bit base n then False
      else m AND one_bit (unat (n - base)) \<noteq> 0)"

section \<open>HartMask (hart_mask.rs)\<close>

record HartMask =
  hart_mask :: usize
  hart_mask_base :: usize

definition IGNORE_MASK :: usize where
  "IGNORE_MASK = NOT 0"

definition hart_mask_from_mask_base :: "usize \<Rightarrow> usize \<Rightarrow> HartMask" where
  "hart_mask_from_mask_base m b = \<lparr>hart_mask = m, hart_mask_base = b\<rparr>"

definition hart_mask_all :: HartMask where
  "hart_mask_all = \<lparr>hart_mask = 0, hart_mask_base = NOT 0\<rparr>"

definition hart_mask_into_inner :: "HartMask \<Rightarrow> usize \<times> usize" where
  "hart_mask_into_inner m = (hart_mask m, hart_mask_base m)"

definition hart_mask_has_bit :: "HartMask \<Rightarrow> usize \<Rightarrow> bool" where
  "hart_mask_has_bit m hart_id = has_bit (hart_mask m) (hart_mask_base m) IGNORE_MASK hart_id"

definition hart_mask_insert :: "HartMask \<Rightarrow> usize \<Rightarrow> MaskError + HartMask" where
  "hart_mask_insert m hart_id =
     (if hart_mask_base m = IGNORE_MASK then Inr m
      else if valid_bit (hart_mask_base m) hart_id
      then Inr (m\<lparr>hart_mask := hart_mask m OR one_bit (unat (hart_id - hart_mask_base m))\<rparr>)
      else Inl InvalidBit)"

definition hart_mask_remove :: "HartMask \<Rightarrow> usize \<Rightarrow> MaskError + HartMask" where
  "hart_mask_remove m hart_id =
     (if hart_mask_base m = IGNORE_MASK then Inl Ignored
      else if valid_bit (hart_mask_base m) hart_id
      then Inr (m\<lparr>hart_mask := clear_bit (hart_mask m) (unat (hart_id - hart_mask_base m))\<rparr>)
      else Inl InvalidBit)"

section \<open>The iterator HartIds\<close>

datatype UnvisitedMask = MaskBase usize usize | Range usize usize

definition hart_mask_iter :: "HartMask \<Rightarrow> UnvisitedMask" where
  "hart_mask_iter m =
     (if hart_mask_base m = IGNORE_MASK then Range 0 usize_MAX
      else MaskBase (hart_mask m) (hart_mask_base m))"

text \<open>
  \<open>next\<close> and \<open>next_back\<close> return the item and the iterator that is left; the addition of
  the base and the assertion \<open>start <= end\<close> may panic.
\<close>

fun hart_ids_next :: "UnvisitedMask \<Rightarrow> (usize option \<times> UnvisitedMask) outcome" where
  "hart_ids_next (MaskBase m base) =
     (if m = 0 then Ret (None, MaskBase m base)
      else let low_bit = trailing_zeros m
           in obind (add_ovf (word_of_nat low_bit) base)
                (\<lambda>hart_id. Ret (Some hart_id, MaskBase (clear_bit m low_bit) base)))"
| "hart_ids_next (Range start end) =
     (if \<not> start \<le> end then Panic
      else if start < end then Ret (Some start, Range (start + 1) end)
      else Ret (None, Range start end))"

fun hart_ids_next_back :: "UnvisitedMask \<Rightarrow> (usize option \<times> UnvisitedMask) outcome" where
  "hart_ids_next_back (MaskBase m base) =
     (if m = 0 then Ret (None, MaskBase m base)
      else let high_bit = leading_zeros m; pos = usize_BITS - high_bit - 1
           in obind (add_ovf (word_of_nat pos) base)
                (\<lambda>hart_id. Ret (Some hart_id, MaskBase (clear_bit m pos) base)))"
| "hart_ids_next_back (Range start end) =
     (if \<not> start \<le> end then Panic
      else if start < end then Ret (Some end, Range start (end - 1))
      else Ret (None, Range start end))"

fun hart_ids_size_hint :: "UnvisitedMask \<Rightarrow> (usize \<times> usize option) outcome" where
  "hart_ids_size_hint (MaskBase m base) =
     (let n = word_of_nat (count_ones m) in Ret (n, Some n))"
| "hart_ids_size_hint (Range start end) =
     (if \<not> start \<le> end then Panic else Ret (end - start, Some (end - start)))"

definition hart_ids_count :: "UnvisitedMask \<Rightarrow> usize outcome" where
  "hart_ids_count it = omap fst (hart_ids_size_hint it)"

definition hart_ids_last :: "UnvisitedMask \<Rightarrow> usize option outcome" where
  "hart_ids_last it = omap fst (hart_ids_next_back it)"

definition hart_ids_min :: "UnvisitedMask \<Rightarrow> usize option outcome" where
  "hart_ids_min it = omap fst (hart_ids_next it)"

definition hart_ids_max :: "UnvisitedMask \<Rightarrow> usize option outcome" where
  "hart_ids_max it = omap fst (hart_ids_next_back it)"

text \<open>
  What a \<open>for\<close> loop over the iterator (or over its reversal) visits: \<open>step\<close> until it
  returns \<open>None\<close>. Each item leaves fewer unvisited harts, so the loop ends.
\<close>

fun unvisited :: "UnvisitedMask \<Rightarrow> nat" where
  "unvisited (MaskBase m base) = count_ones m"
| "unvisited (Range start end) = unat end - unat start"

lemma word_less_Suc: "(a::usize) < b \<Longrightarrow> unat (a + 1) = Suc (unat a)"
  using unat_add_no_ovf [of a 1] unat_usize [of b] by (simp add: word_less_nat_alt)

lemma word_less_pred: "(a::usize) < b \<Longrightarrow> unat (b - 1) = unat b - 1"
  by (metis unat_minus_one word_not_simps(1))

lemma hart_ids_next_decreases:
  "hart_ids_next it = Ret (Some h, it') \<Longrightarrow> unvisited it' < unvisited it"
proof (cases it)
  case (MaskBase m base)
  assume "hart_ids_next it = Ret (Some h, it')"
  then show ?thesis
    using MaskBase count_ones_clear_low [of m]
    by (auto simp: Let_def obind_eq_Ret split: if_splits)
next
  case (Range s e)
  assume "hart_ids_next it = Ret (Some h, it')"
  then show ?thesis
    using Range word_less_Suc [of s e] by (auto simp: word_less_nat_alt split: if_splits)
qed

lemma count_ones_clear_high:
  "m \<noteq> 0 \<Longrightarrow> count_ones (clear_bit m (last (bit_list m))) < count_ones m" for m :: usize
  unfolding count_ones_def by (metis bit_list_clear_high length_append_singleton lessI)

lemma next_back_pos: "m \<noteq> 0 \<Longrightarrow> usize_BITS - leading_zeros m - 1 = last (bit_list m)" for m :: usize
  using leading_zeros_last(1) [of m] by simp

lemma hart_ids_next_back_decreases:
  "hart_ids_next_back it = Ret (Some h, it') \<Longrightarrow> unvisited it' < unvisited it"
proof (cases it)
  case (MaskBase m base)
  assume "hart_ids_next_back it = Ret (Some h, it')"
  then show ?thesis
    using MaskBase count_ones_clear_high [of m] next_back_pos [of m]
    by (auto simp: Let_def obind_eq_Ret split: if_splits)
next
  case (Range s e)
  assume "hart_ids_next_back it = Ret (Some h, it')"
  then show ?thesis
    using Range word_less_pred [of s e] by (auto simp: word_less_nat_alt split: if_splits)
qed

function hart_ids_collect :: "UnvisitedMask \<Rightarrow> usize list outcome" where
  "hart_ids_collect it =
     (case hart_ids_next it of
        Panic \<Rightarrow> Panic
      | Ret (None, it') \<Rightarrow> Ret []
      | Ret (Some h, it') \<Rightarrow> omap (Cons h) (hart_ids_collect it'))"
  by pat_completeness auto
termination
  by (relation "measure unvisited") (auto simp: hart_ids_next_decreases)

function hart_ids_collect_back :: "UnvisitedMask \<Rightarrow> usize list outcome" where
  "hart_ids_collect_back it =
     (case hart_ids_next_back it of
        Panic \<Rightarrow> Panic
      | Ret (None, it') \<Rightarrow> Ret []
      | Ret (Some h, it') \<Rightarrow> omap (Cons h) (hart_ids_collect_back it'))"
  by pat_completeness auto
termination
  by (relation "measure unvisited") (auto simp: hart_ids_next_back_decreases)

declare hart_ids_collect.simps [simp del] hart_ids_collect_back.simps [simp del]

section \<open>Counter and trigger masks\<close>

record CounterMask =
  counter_idx_mask :: usize
  counter_idx_base :: usize

definition counter_mask_from_mask_base :: "usize \<Rightarrow> usize \<Rightarrow> CounterMask" where
  "counter_mask_from_mask_base m b = \<lparr>counter_idx_mask = m, counter_idx_base = b\<rparr>"

definition counter_mask_into_inner :: "CounterMask \<Rightarrow> usize \<times> usize" where
  "counter_mask_into_inner m = (counter_idx_mask m, counter_idx_base m)"

definition counter_mask_has_bit :: "CounterMask \<Rightarrow> usize \<Rightarrow> bool" where
  "counter_mask_has_bit m counter =
     has_bit (counter_idx_mask m) (counter_idx_base m) IGNORE_MASK counter"

record TriggerMask =
  trig_idx_base :: usize
  trig_idx_mask :: usize

definition trigger_mask_from_mask_base :: "usize \<Rightarrow> usize \<Rightarrow> TriggerMask" where
  "trigger_mask_from_mask_base m b = \<lparr>trig_idx_base = b, trig_idx_mask = m\<rparr>"

definition trigger_mask_into_inner :: "TriggerMask \<Rightarrow> usize \<times> usize" where
  "trigger_mask_into_inner m = (trig_idx_mask m, trig_idx_base m)"

section \<open>Membership\<close>

lemma unat_diff_valid:
  "valid_bit base h \<longleftrightarrow> unat base \<le> unat h \<and> unat h < unat base + usize_BITS"
  by (auto simp: valid_bit_def word_less_nat_alt word_le_nat_alt unat_le_sub not_less)

lemma unat_diff_le: "unat base \<le> unat h \<Longrightarrow> unat (h - base) = unat h - unat base" for h :: usize
  by (simp add: unat_le_sub word_le_nat_alt)

lemma has_bit_iff:
  "has_bit m base ignore h \<longleftrightarrow>
     base = ignore \<or> (\<exists>i. bit m i \<and> unat h = unat base + i)"
proof -
  have "valid_bit base h \<and> bit m (unat (h - base)) \<longleftrightarrow> (\<exists>i. bit m i \<and> unat h = unat base + i)"
    using bit_imp_le_length [of m] by (auto simp: unat_diff_valid unat_diff_le)
  then show ?thesis
    by (auto simp: has_bit_def and_one_bit_eq_0 dest: bit_imp_le_length)
qed

lemma hart_mask_has_bit_iff:
  "hart_mask_has_bit m h \<longleftrightarrow> hart_mask_base m = IGNORE_MASK \<or>
     (\<exists>i. bit (hart_mask m) i \<and> unat h = unat (hart_mask_base m) + i)"
  by (simp add: hart_mask_has_bit_def has_bit_iff)

lemma hart_mask_has_bit_valid:
  "hart_mask_base m \<noteq> IGNORE_MASK \<Longrightarrow> valid_bit (hart_mask_base m) h \<Longrightarrow>
     hart_mask_has_bit m h \<longleftrightarrow> bit (hart_mask m) (unat h - unat (hart_mask_base m))"
  by (auto simp: hart_mask_has_bit_iff unat_diff_valid)

text \<open>
  inserting a hart into a mask adds exactly that hart and is refused, with the mask
  unchanged, exactly when the hart lies outside the 64-hart window of the mask.
\<close>

theorem hart_mask_insert_correct:
  "case hart_mask_insert m h of
     Inl e \<Rightarrow> e = InvalidBit \<and> hart_mask_base m \<noteq> IGNORE_MASK \<and>
       \<not> (unat (hart_mask_base m) \<le> unat h \<and> unat h < unat (hart_mask_base m) + 64)
   | Inr m' \<Rightarrow> (\<forall>k. hart_mask_has_bit m' k \<longleftrightarrow> hart_mask_has_bit m k \<or> k = h)"
proof (cases "hart_mask_base m = IGNORE_MASK \<or> \<not> valid_bit (hart_mask_base m) h")
  case True
  then show ?thesis
    by (auto simp: hart_mask_insert_def hart_mask_has_bit_iff unat_diff_valid)
next
  case False
  then have "unat (hart_mask_base m) \<le> unat h" "unat h < unat (hart_mask_base m) + 64"
    by (auto simp: unat_diff_valid)
  with False show ?thesis
    by (auto simp: hart_mask_insert_def hart_mask_has_bit_iff bit_or_iff bit_one_bit unat_diff_le
        intro: unsigned_word_eqI)
qed

lemma hart_mask_remove_correct:
  "case hart_mask_remove m h of
     Inl e \<Rightarrow> (hart_mask_base m = IGNORE_MASK \<and> e = Ignored) \<or>
       (hart_mask_base m \<noteq> IGNORE_MASK \<and> e = InvalidBit \<and>
        \<not> valid_bit (hart_mask_base m) h)
   | Inr m' \<Rightarrow> (\<forall>k. hart_mask_has_bit m' k \<longleftrightarrow> hart_mask_has_bit m k \<and> k \<noteq> h)"
proof (cases "hart_mask_base m = IGNORE_MASK \<or> \<not> valid_bit (hart_mask_base m) h")
  case True
  then show ?thesis
    by (auto simp: hart_mask_remove_def)
next
  case False
  then have "unat (hart_mask_base m) \<le> unat h" "unat h < unat (hart_mask_base m) + 64"
    by (auto simp: unat_diff_valid)
  with False show ?thesis
    by (auto simp: hart_mask_remove_def hart_mask_has_bit_iff bit_clear_bit unat_diff_le
        intro: unsigned_word_eqI)
qed

section \<open>Exhausting the iterator\<close>

definition mask_fits :: "usize \<Rightarrow> usize \<Rightarrow> bool" where
  "mask_fits m base = (\<forall>i\<in>set (bit_list m). unat base + i < 2 ^ usize_BITS)"

definition mask_ids :: "usize \<Rightarrow> usize \<Rightarrow> usize list" where
  "mask_ids m base = map (\<lambda>i. word_of_nat i + base) (bit_list m)"

lemma unat_bit_pos: "bit m i \<Longrightarrow> unat (word_of_nat i :: usize) = i" for m :: usize
  using bit_imp_le_length [of m i] by (simp add: unat_of_nat)

lemma add_ovf_bit_pos:
  "bit m i \<Longrightarrow> add_ovf (word_of_nat i) base =
     (if unat base + i < 2 ^ usize_BITS then Ret (word_of_nat i + base) else Panic)"
  for m base :: usize
  using unat_bit_pos [of m i] by (simp add: add_ovf_def checked_add_def add.commute [of i])

lemma mask_fits_Cons:
  "bit_list m = i # bit_list m' \<Longrightarrow>
     mask_fits m base \<longleftrightarrow> unat base + i < 2 ^ usize_BITS \<and> mask_fits m' base"
  by (simp add: mask_fits_def)

lemma mask_fits_snoc:
  "bit_list m = bit_list m' @ [i] \<Longrightarrow>
     mask_fits m base \<longleftrightarrow> unat base + i < 2 ^ usize_BITS \<and> mask_fits m' base"
  by (auto simp: mask_fits_def)

lemma hart_ids_collect_MaskBase:
  "hart_ids_collect (MaskBase m base) =
     (if mask_fits m base then Ret (mask_ids m base) else Panic)"
proof (induction "count_ones m" arbitrary: m rule: less_induct)
  case less
  show ?case
  proof (cases "m = 0")
    case True
    then have "bit_list m = []"
      by (simp add: bit_list_eq_Nil)
    with True show ?thesis
      by (simp add: hart_ids_collect.simps mask_fits_def mask_ids_def)
  next
    case False
    let ?i = "trailing_zeros m" and ?m = "clear_bit m (trailing_zeros m)"
    have eq: "bit_list m = ?i # bit_list ?m"
      using False by (rule bit_list_clear_low)
    have IH: "hart_ids_collect (MaskBase ?m base) =
        (if mask_fits ?m base then Ret (mask_ids ?m base) else Panic)"
      using less [OF count_ones_clear_low [OF False]] .
    show ?thesis
      using False IH mask_fits_Cons [OF eq, of base] trailing_zeros_props(1) [OF False]
      by (simp add: hart_ids_collect.simps [of "MaskBase m base"] add_ovf_bit_pos mask_ids_def
          eq Let_def)
  qed
qed

lemma hart_ids_collect_back_MaskBase:
  "hart_ids_collect_back (MaskBase m base) =
     (if mask_fits m base then Ret (rev (mask_ids m base)) else Panic)"
proof (induction "count_ones m" arbitrary: m rule: less_induct)
  case less
  show ?case
  proof (cases "m = 0")
    case True
    then have "bit_list m = []"
      by (simp add: bit_list_eq_Nil)
    with True show ?thesis
      by (simp add: hart_ids_collect_back.simps mask_fits_def mask_ids_def)
  next
    case False
    let ?i = "last (bit_list m)" and ?m = "clear_bit m (last (bit_list m))"
    have eq: "bit_list m = bit_list ?m @ [?i]"
      using False by (rule bit_list_clear_high)
    have bit: "bit m ?i"
      using set_bit_list [of m] eq by (metis in_set_conv_decomp mem_Collect_eq)
    have IH: "hart_ids_collect_back (MaskBase ?m base) =
        (if mask_fits ?m base then Ret (rev (mask_ids ?m base)) else Panic)"
      using less [OF count_ones_clear_high [OF False]] .
    have ids: "rev (mask_ids m base) = (word_of_nat ?i + base) # rev (mask_ids ?m base)"
      unfolding mask_ids_def by (subst eq) simp
    show ?thesis
      using False IH mask_fits_snoc [OF eq, of base] bit next_back_pos [OF False] ids
      by (simp add: hart_ids_collect_back.simps [of "MaskBase m base"] add_ovf_bit_pos Let_def)
  qed
qed

lemma unat_mask_id:
  "mask_fits m base \<Longrightarrow> bit m i \<Longrightarrow> unat (word_of_nat i + base) = unat base + i"
  using unat_add_no_ovf [of "word_of_nat i" base] unat_bit_pos [of m i]
  by (simp add: mask_fits_def set_bit_list add.commute [of i])

lemma set_mask_ids:
  assumes "mask_fits m base"
  shows "set (mask_ids m base) = {h. \<exists>i. bit m i \<and> unat h = unat base + i}"
proof -
  have "h = word_of_nat i + base \<longleftrightarrow> unat h = unat base + i" if "bit m i" for h i
    using unat_mask_id [OF assms that] by (metis unsigned_word_eqI)
  then show ?thesis
    by (auto simp: mask_ids_def set_bit_list image_iff)
qed

lemma map_unat_mask_ids:
  "mask_fits m base \<Longrightarrow> map unat (mask_ids m base) = map (\<lambda>i. unat base + i) (bit_list m)"
  by (simp add: mask_ids_def unat_mask_id set_bit_list)

lemma mask_ids_sorted_distinct:
  assumes "mask_fits m base"
  shows "sorted (mask_ids m base)" and "distinct (mask_ids m base)"
proof -
  have "sorted (map unat (mask_ids m base))"
    unfolding map_unat_mask_ids [OF assms] using sorted_bit_list [of m] by (simp add: sorted_map)
  then show "sorted (mask_ids m base)"
    by (simp add: sorted_map word_le_nat_alt [abs_def])
  have "distinct (map unat (mask_ids m base))"
    unfolding map_unat_mask_ids [OF assms] using distinct_bit_list [of m]
    by (simp add: distinct_map inj_on_def)
  then show "distinct (mask_ids m base)"
    by (simp add: distinct_map)
qed

lemma length_mask_ids: "length (mask_ids m base) = count_ones m"
  by (simp add: mask_ids_def count_ones_def)

text \<open>
  For a mask with an ordinary base, looping over \<open>iter()\<close> either panics, exactly when
  some selected hart number leaves the 64-bit range, or visits exactly the harts for which
  \<open>has_bit\<close> holds, once each and in ascending order; the reversed loop visits them in
  descending order, and \<open>count\<close> returns their number.
\<close>

theorem hart_mask_iter_correct:
  assumes "hart_mask_base m \<noteq> IGNORE_MASK"
  shows "case hart_ids_collect (hart_mask_iter m) of
      Panic \<Rightarrow> \<exists>i. bit (hart_mask m) i \<and> 2 ^ 64 \<le> unat (hart_mask_base m) + i
    | Ret xs \<Rightarrow> (\<forall>i. bit (hart_mask m) i \<longrightarrow> unat (hart_mask_base m) + i < 2 ^ 64) \<and>
        set xs = {h. hart_mask_has_bit m h} \<and> sorted xs \<and> distinct xs \<and>
        hart_ids_collect_back (hart_mask_iter m) = Ret (rev xs) \<and>
        hart_ids_count (hart_mask_iter m) = Ret (word_of_nat (length xs))"
proof -
  let ?m = "hart_mask m" and ?b = "hart_mask_base m"
  have iter: "hart_mask_iter m = MaskBase ?m ?b"
    using assms by (simp add: hart_mask_iter_def)
  show ?thesis
  proof (cases "mask_fits ?m ?b")
    case True
    then have "\<forall>i. bit ?m i \<longrightarrow> unat ?b + i < 2 ^ 64"
      by (simp add: mask_fits_def set_bit_list)
    then show ?thesis
      using True mask_ids_sorted_distinct [OF True] assms
      by (simp add: iter hart_ids_collect_MaskBase hart_ids_collect_back_MaskBase
          set_mask_ids hart_mask_has_bit_iff [abs_def] hart_ids_count_def length_mask_ids Let_def)
  next
    case False
    then show ?thesis
      by (auto simp: iter hart_ids_collect_MaskBase mask_fits_def set_bit_list not_less)
  qed
qed

theorem hart_mask_iter_correct_witness:
  "hart_ids_collect (hart_mask_iter \<lparr>hart_mask = 43, hart_mask_base = 1\<rparr>) = Ret [1, 2, 4, 6] \<and>
   {h. hart_mask_has_bit \<lparr>hart_mask = 43, hart_mask_base = 1\<rparr> h} = {1, 2, 4, 6} \<and>
   hart_ids_collect_back (hart_mask_iter \<lparr>hart_mask = 43, hart_mask_base = 1\<rparr>) = Ret [6, 4, 2, 1]"
proof -
  let ?m = "\<lparr>hart_mask = 43, hart_mask_base = 1\<rparr> :: HartMask"
  have h: "hart_mask_base ?m \<noteq> IGNORE_MASK"
    by (simp add: IGNORE_MASK_def)
  have "bit_list (43 :: usize) = [0, 1, 3, 5]"
    by code_simp
  then have c: "hart_ids_collect (hart_mask_iter ?m) = Ret [1, 2, 4, 6]"
    by (simp add: hart_mask_iter_def IGNORE_MASK_def hart_ids_collect_MaskBase mask_fits_def
        mask_ids_def)
  show ?thesis
    using hart_mask_iter_correct [OF h] unfolding c by auto
qed

section \<open>The mask of all harts\<close>

lemma usize_le_upt: "s \<le> e \<Longrightarrow> s < e \<Longrightarrow> [unat s..<unat e] = unat s # [unat (s + 1)..<unat e]"
  for s e :: usize
  using word_less_Suc [of s e] by (simp add: word_less_nat_alt upt_conv_Cons)

lemma hart_ids_collect_Range:
  "s \<le> e \<Longrightarrow> hart_ids_collect (Range s e) = Ret (map word_of_nat [unat s..<unat e])"
proof (induction "unat e - unat s" arbitrary: s)
  case 0
  then have "\<not> s < e"
    by (simp add: word_less_nat_alt word_le_nat_alt)
  with 0 show ?case
    by (simp add: hart_ids_collect.simps)
next
  case (Suc n)
  then have lt: "s < e"
    by (simp add: word_less_nat_alt)
  have u: "unat (s + 1) = Suc (unat s)"
    by (rule word_less_Suc [OF lt])
  have "s + 1 \<le> e" "n = unat e - unat (s + 1)"
    using lt u Suc.hyps(2) by (auto simp: word_less_nat_alt word_le_nat_alt)
  then have "hart_ids_collect (Range (s + 1) e) = Ret (map word_of_nat [unat (s + 1)..<unat e])"
    by (intro Suc.hyps(1))
  with lt Suc.prems show ?case
    by (simp add: hart_ids_collect.simps [of "Range s e"] usize_le_upt)
qed

lemma hart_ids_collect_back_Range:
  "s \<le> e \<Longrightarrow> hart_ids_collect_back (Range s e)
     = Ret (rev (map word_of_nat [Suc (unat s)..<Suc (unat e)]))"
proof (induction "unat e - unat s" arbitrary: e)
  case 0
  then have "\<not> s < e"
    by (simp add: word_less_nat_alt word_le_nat_alt)
  with 0 show ?case
    by (simp add: hart_ids_collect_back.simps)
next
  case (Suc n)
  then have lt: "s < e"
    by (simp add: word_less_nat_alt)
  have u: "unat e = Suc (unat (e - 1))"
    using word_less_pred [OF lt] lt by (simp add: word_less_nat_alt)
  have "s \<le> e - 1" "n = unat (e - 1) - unat s"
    using lt u Suc.hyps(2) by (auto simp: word_less_nat_alt word_le_nat_alt)
  then have "hart_ids_collect_back (Range s (e - 1))
      = Ret (rev (map word_of_nat [Suc (unat s)..<Suc (unat (e - 1))]))"
    by (intro Suc.hyps(1))
  moreover have "[Suc (unat s)..<Suc (unat e)] = [Suc (unat s)..<Suc (unat (e - 1))] @ [unat e]"
    using lt u by (simp add: word_less_nat_alt)
  ultimately show ?case
    using lt Suc.prems by (simp add: hart_ids_collect_back.simps [of "Range s e"] del: upt_Suc)
qed

lemma set_map_word_of_nat_upt:
  "n \<le> 2 ^ 64 \<Longrightarrow> set (map word_of_nat [m..<n]) = {h :: usize. m \<le> unat h \<and> unat h < n}"
proof -
  assume n: "n \<le> 2 ^ 64"
  have "unat (word_of_nat k :: usize) = k" if "k < n" for k
    using that n by (simp add: unat_of_nat)
  then show ?thesis
    by (auto simp: image_iff) (metis word_of_nat_unat atLeastLessThan_iff)
qed

text \<open>
  every hart belongs to the mask \<open>HartMask::all()\<close>, but a forward loop over its iterator
  never yields hart \<open>usize::MAX\<close> and a backward loop never yields hart 0: the two ends of
  the \<open>Range\<close> iterator disagree about which end of the range is excluded.
\<close>

theorem hart_mask_all_ends_disagree:
  "(\<forall>h. hart_mask_has_bit hart_mask_all h) \<and>
   (\<exists>xs ys. hart_ids_collect (hart_mask_iter hart_mask_all) = Ret xs \<and>
      hart_ids_collect_back (hart_mask_iter hart_mask_all) = Ret ys \<and>
      set xs = UNIV - {usize_MAX} \<and> set ys = UNIV - {0})"
proof -
  have iter: "hart_mask_iter hart_mask_all = Range 0 usize_MAX"
    by (simp add: hart_mask_iter_def hart_mask_all_def IGNORE_MASK_def)
  have M: "unat usize_MAX = 2 ^ 64 - 1"
    by (simp add: unat_usize_MAX)
  have eqM: "h = usize_MAX \<longleftrightarrow> unat h = 2 ^ 64 - 1" for h :: usize
    using M by (metis unsigned_word_eqI)
  have "{h. 0 \<le> unat h \<and> unat h < unat usize_MAX} = UNIV - {usize_MAX}"
  proof -
    have "unat h < unat usize_MAX \<longleftrightarrow> h \<noteq> usize_MAX" for h
      using M eqM [of h] unat_usize [of h] by auto
    then show ?thesis by auto
  qed
  moreover have "{h :: usize. Suc 0 \<le> unat h \<and> unat h < Suc (unat usize_MAX)} = UNIV - {0}"
    using M unat_usize by (auto simp: Suc_le_eq unat_gt_0)
  moreover have "\<forall>h. hart_mask_has_bit hart_mask_all h"
    by (simp add: hart_mask_has_bit_iff hart_mask_all_def IGNORE_MASK_def)
  ultimately show ?thesis
    using M by (simp add: iter hart_ids_collect_Range hart_ids_collect_back_Range
        set_map_word_of_nat_upt del: upt_Suc set_map)
qed

end
