(* ===== verification/Sbi_Ret.thy ===== *)
theory Sbi_Ret
  imports Rust_Prelude
begin

text \<open>
  The SBI call result of \<open>library/sbi-spec/src/binary/sbi_ret.rs\<close>: the error codes as
  machine words, the structure \<open>SbiRet\<close> with its constructors, the conversion to and from
  the \<open>Error\<close> enumeration, and the \<open>Result\<close>-like combinators. A Rust \<open>Result\<close> is a
  sum, with \<open>Inl\<close> for \<open>Err\<close>. The register width is the type parameter, as the trait
  \<open>SbiRegister\<close> has it; the lemmas are for the native 64-bit width.
\<close>

section \<open>Error codes\<close>

definition RET_SUCCESS :: "'a::len word" where
  "RET_SUCCESS = 0"

definition RET_ERR_FAILED :: "'a::len word" where
  "RET_ERR_FAILED = - 1"

definition RET_ERR_NOT_SUPPORTED :: "'a::len word" where
  "RET_ERR_NOT_SUPPORTED = - 2"

definition RET_ERR_INVALID_PARAM :: "'a::len word" where
  "RET_ERR_INVALID_PARAM = - 3"

definition RET_ERR_DENIED :: "'a::len word" where
  "RET_ERR_DENIED = - 4"

definition RET_ERR_INVALID_ADDRESS :: "'a::len word" where
  "RET_ERR_INVALID_ADDRESS = - 5"

definition RET_ERR_ALREADY_AVAILABLE :: "'a::len word" where
  "RET_ERR_ALREADY_AVAILABLE = - 6"

definition RET_ERR_ALREADY_STARTED :: "'a::len word" where
  "RET_ERR_ALREADY_STARTED = - 7"

definition RET_ERR_ALREADY_STOPPED :: "'a::len word" where
  "RET_ERR_ALREADY_STOPPED = - 8"

definition RET_ERR_NO_SHMEM :: "'a::len word" where
  "RET_ERR_NO_SHMEM = - 9"

definition RET_ERR_INVALID_STATE :: "'a::len word" where
  "RET_ERR_INVALID_STATE = - 10"

definition RET_ERR_BAD_RANGE :: "'a::len word" where
  "RET_ERR_BAD_RANGE = - 11"

definition RET_ERR_TIMEOUT :: "'a::len word" where
  "RET_ERR_TIMEOUT = - 12"

definition RET_ERR_IO :: "'a::len word" where
  "RET_ERR_IO = - 13"

definition RET_ERR_DENIED_LOCKED :: "'a::len word" where
  "RET_ERR_DENIED_LOCKED = - 14"

lemmas ret_code_defs = RET_SUCCESS_def RET_ERR_FAILED_def RET_ERR_NOT_SUPPORTED_def RET_ERR_INVALID_PARAM_def RET_ERR_DENIED_def RET_ERR_INVALID_ADDRESS_def RET_ERR_ALREADY_AVAILABLE_def RET_ERR_ALREADY_STARTED_def RET_ERR_ALREADY_STOPPED_def RET_ERR_NO_SHMEM_def RET_ERR_INVALID_STATE_def RET_ERR_BAD_RANGE_def RET_ERR_TIMEOUT_def RET_ERR_IO_def RET_ERR_DENIED_LOCKED_def

datatype 'w Error =
    Failed
  | NotSupported
  | InvalidParam
  | Denied
  | InvalidAddress
  | AlreadyAvailable
  | AlreadyStarted
  | AlreadyStopped
  | NoShmem
  | InvalidState
  | BadRange
  | Timeout
  | Io
  | DeniedLocked
  | Custom 'w

record 'w SbiRet =
  sbi_error :: 'w
  sbi_value :: 'w

type_synonym sbi_ret = "usize SbiRet"

section \<open>Constructors\<close>

definition sbi_success :: "'a::len word \<Rightarrow> 'a word SbiRet" where
  "sbi_success v = \<lparr>sbi_error = RET_SUCCESS, sbi_value = v\<rparr>"

definition sbi_failed :: "'a::len word SbiRet" where
  "sbi_failed = \<lparr>sbi_error = RET_ERR_FAILED, sbi_value = 0\<rparr>"

definition sbi_not_supported :: "'a::len word SbiRet" where
  "sbi_not_supported = \<lparr>sbi_error = RET_ERR_NOT_SUPPORTED, sbi_value = 0\<rparr>"

definition sbi_invalid_param :: "'a::len word SbiRet" where
  "sbi_invalid_param = \<lparr>sbi_error = RET_ERR_INVALID_PARAM, sbi_value = 0\<rparr>"

definition sbi_denied :: "'a::len word SbiRet" where
  "sbi_denied = \<lparr>sbi_error = RET_ERR_DENIED, sbi_value = 0\<rparr>"

definition sbi_invalid_address :: "'a::len word SbiRet" where
  "sbi_invalid_address = \<lparr>sbi_error = RET_ERR_INVALID_ADDRESS, sbi_value = 0\<rparr>"

definition sbi_already_available :: "'a::len word SbiRet" where
  "sbi_already_available = \<lparr>sbi_error = RET_ERR_ALREADY_AVAILABLE, sbi_value = 0\<rparr>"

definition sbi_already_started :: "'a::len word SbiRet" where
  "sbi_already_started = \<lparr>sbi_error = RET_ERR_ALREADY_STARTED, sbi_value = 0\<rparr>"

definition sbi_already_stopped :: "'a::len word SbiRet" where
  "sbi_already_stopped = \<lparr>sbi_error = RET_ERR_ALREADY_STOPPED, sbi_value = 0\<rparr>"

definition sbi_no_shmem :: "'a::len word SbiRet" where
  "sbi_no_shmem = \<lparr>sbi_error = RET_ERR_NO_SHMEM, sbi_value = 0\<rparr>"

definition sbi_invalid_state :: "'a::len word SbiRet" where
  "sbi_invalid_state = \<lparr>sbi_error = RET_ERR_INVALID_STATE, sbi_value = 0\<rparr>"

definition sbi_bad_range :: "'a::len word SbiRet" where
  "sbi_bad_range = \<lparr>sbi_error = RET_ERR_BAD_RANGE, sbi_value = 0\<rparr>"

definition sbi_timeout :: "'a::len word SbiRet" where
  "sbi_timeout = \<lparr>sbi_error = RET_ERR_TIMEOUT, sbi_value = 0\<rparr>"

definition sbi_io :: "'a::len word SbiRet" where
  "sbi_io = \<lparr>sbi_error = RET_ERR_IO, sbi_value = 0\<rparr>"

definition sbi_denied_locked :: "'a::len word SbiRet" where
  "sbi_denied_locked = \<lparr>sbi_error = RET_ERR_DENIED_LOCKED, sbi_value = 0\<rparr>"

lemmas sbi_ret_defs = sbi_success_def sbi_failed_def sbi_not_supported_def sbi_invalid_param_def sbi_denied_def sbi_invalid_address_def sbi_already_available_def sbi_already_started_def sbi_already_stopped_def sbi_no_shmem_def sbi_invalid_state_def sbi_bad_range_def sbi_timeout_def sbi_io_def sbi_denied_locked_def

section \<open>Conversions\<close>

definition sbi_into_result :: "'a::len word SbiRet \<Rightarrow> 'a word Error + 'a word" where
  "sbi_into_result r =
     (let e = sbi_error r in
      if e = RET_SUCCESS then Inr (sbi_value r)
      else if e = RET_ERR_FAILED then Inl Failed
      else if e = RET_ERR_NOT_SUPPORTED then Inl NotSupported
      else if e = RET_ERR_INVALID_PARAM then Inl InvalidParam
      else if e = RET_ERR_DENIED then Inl Denied
      else if e = RET_ERR_INVALID_ADDRESS then Inl InvalidAddress
      else if e = RET_ERR_ALREADY_AVAILABLE then Inl AlreadyAvailable
      else if e = RET_ERR_ALREADY_STARTED then Inl AlreadyStarted
      else if e = RET_ERR_ALREADY_STOPPED then Inl AlreadyStopped
      else if e = RET_ERR_NO_SHMEM then Inl NoShmem
      else if e = RET_ERR_INVALID_STATE then Inl InvalidState
      else if e = RET_ERR_BAD_RANGE then Inl BadRange
      else if e = RET_ERR_TIMEOUT then Inl Timeout
      else if e = RET_ERR_IO then Inl Io
      else if e = RET_ERR_DENIED_LOCKED then Inl DeniedLocked
      else Inl (Custom e))"

fun sbi_from_error :: "'a::len word Error \<Rightarrow> 'a word SbiRet" where
  "sbi_from_error Failed = sbi_failed"
| "sbi_from_error NotSupported = sbi_not_supported"
| "sbi_from_error InvalidParam = sbi_invalid_param"
| "sbi_from_error Denied = sbi_denied"
| "sbi_from_error InvalidAddress = sbi_invalid_address"
| "sbi_from_error AlreadyAvailable = sbi_already_available"
| "sbi_from_error AlreadyStarted = sbi_already_started"
| "sbi_from_error AlreadyStopped = sbi_already_stopped"
| "sbi_from_error NoShmem = sbi_no_shmem"
| "sbi_from_error InvalidState = sbi_invalid_state"
| "sbi_from_error BadRange = sbi_bad_range"
| "sbi_from_error Timeout = sbi_timeout"
| "sbi_from_error Io = sbi_io"
| "sbi_from_error DeniedLocked = sbi_denied_locked"
| "sbi_from_error (Custom e) = \<lparr>sbi_error = e, sbi_value = 0\<rparr>"

definition sbi_is_ok :: "'a::len word SbiRet \<Rightarrow> bool" where
  "sbi_is_ok r = (sbi_error r = RET_SUCCESS)"

definition sbi_is_err :: "'a::len word SbiRet \<Rightarrow> bool" where
  "sbi_is_err r = (\<not> sbi_is_ok r)"

definition sbi_is_ok_and :: "'a::len word SbiRet \<Rightarrow> ('a word \<Rightarrow> bool) \<Rightarrow> bool" where
  "sbi_is_ok_and r f = (case sbi_into_result r of Inl e \<Rightarrow> False | Inr v \<Rightarrow> f v)"

definition sbi_is_err_and :: "'a::len word SbiRet \<Rightarrow> ('a word Error \<Rightarrow> bool) \<Rightarrow> bool" where
  "sbi_is_err_and r f = (case sbi_into_result r of Inl e \<Rightarrow> f e | Inr v \<Rightarrow> False)"

definition sbi_ok :: "'a::len word SbiRet \<Rightarrow> 'a word option" where
  "sbi_ok r = (case sbi_into_result r of Inl e \<Rightarrow> None | Inr v \<Rightarrow> Some v)"

definition sbi_err :: "'a::len word SbiRet \<Rightarrow> 'a word Error option" where
  "sbi_err r = (case sbi_into_result r of Inl e \<Rightarrow> Some e | Inr v \<Rightarrow> None)"

definition sbi_map :: "('a::len word \<Rightarrow> 'u) \<Rightarrow> 'a word SbiRet \<Rightarrow> 'a word Error + 'u" where
  "sbi_map op r = (case sbi_into_result r of Inl e \<Rightarrow> Inl e | Inr v \<Rightarrow> Inr (op v))"

definition sbi_map_or :: "'u \<Rightarrow> ('a::len word \<Rightarrow> 'u) \<Rightarrow> 'a word SbiRet \<Rightarrow> 'u" where
  "sbi_map_or dflt f r = (case sbi_into_result r of Inl e \<Rightarrow> dflt | Inr v \<Rightarrow> f v)"

definition sbi_map_or_else ::
    "('a::len word Error \<Rightarrow> 'u) \<Rightarrow> ('a word \<Rightarrow> 'u) \<Rightarrow> 'a word SbiRet \<Rightarrow> 'u" where
  "sbi_map_or_else dflt f r = (case sbi_into_result r of Inl e \<Rightarrow> dflt e | Inr v \<Rightarrow> f v)"

definition sbi_map_err :: "('a::len word Error \<Rightarrow> 'f) \<Rightarrow> 'a word SbiRet \<Rightarrow> 'f + 'a word" where
  "sbi_map_err op r = (case sbi_into_result r of Inl e \<Rightarrow> Inl (op e) | Inr v \<Rightarrow> Inr v)"

definition sbi_unwrap :: "'a::len word SbiRet \<Rightarrow> 'a word outcome" where
  "sbi_unwrap r = (case sbi_into_result r of Inl e \<Rightarrow> Panic | Inr v \<Rightarrow> Ret v)"

definition sbi_unwrap_err :: "'a::len word SbiRet \<Rightarrow> 'a word Error outcome" where
  "sbi_unwrap_err r = (case sbi_into_result r of Inl e \<Rightarrow> Ret e | Inr v \<Rightarrow> Panic)"

definition sbi_and_then ::
    "('a::len word \<Rightarrow> 'a word Error + 'u) \<Rightarrow> 'a word SbiRet \<Rightarrow> 'a word Error + 'u" where
  "sbi_and_then op r = (case sbi_into_result r of Inl e \<Rightarrow> Inl e | Inr v \<Rightarrow> op v)"

definition sbi_or_else ::
    "('a::len word Error \<Rightarrow> 'f + 'a word) \<Rightarrow> 'a word SbiRet \<Rightarrow> 'f + 'a word" where
  "sbi_or_else op r = (case sbi_into_result r of Inl e \<Rightarrow> op e | Inr v \<Rightarrow> Inr v)"

definition sbi_unwrap_or :: "'a::len word \<Rightarrow> 'a word SbiRet \<Rightarrow> 'a word" where
  "sbi_unwrap_or dflt r = (case sbi_into_result r of Inl e \<Rightarrow> dflt | Inr v \<Rightarrow> v)"

definition sbi_unwrap_or_else :: "('a::len word Error \<Rightarrow> 'a word) \<Rightarrow> 'a word SbiRet \<Rightarrow> 'a word" where
  "sbi_unwrap_or_else op r = (case sbi_into_result r of Inl e \<Rightarrow> op e | Inr v \<Rightarrow> v)"

section \<open>Laws\<close>

lemma sbi_into_result_ok_iff:
  "(\<exists>v. sbi_into_result r = Inr v) \<longleftrightarrow> sbi_is_ok r"
  by (auto simp: sbi_into_result_def sbi_is_ok_def Let_def)

lemma sbi_into_result_InrD: "sbi_into_result r = Inr v \<Longrightarrow> r = sbi_success v"
  by (auto simp: sbi_into_result_def sbi_success_def Let_def split: if_splits)

lemma sbi_into_result_success [simp]: "sbi_into_result (sbi_success v) = Inr v"
  by (simp add: sbi_into_result_def sbi_success_def)

lemma sbi_error_from_error_nonzero:
  "sbi_error (sbi_from_error e :: sbi_ret) = 0 \<longleftrightarrow> e = Custom 0"
  by (cases e) (simp_all add: sbi_ret_defs ret_code_defs)

lemma sbi_into_result_InlD:
  fixes r :: sbi_ret
  assumes "sbi_into_result r = Inl e"
  shows "sbi_from_error e = r\<lparr>sbi_value := 0\<rparr>"
  using assms by (auto simp: sbi_into_result_def Let_def sbi_ret_defs split: if_splits)

lemma sbi_into_result_value:
  assumes "\<not> sbi_is_ok r"
  shows "sbi_into_result (r\<lparr>sbi_value := v\<rparr>) = sbi_into_result r"
proof -
  have "sbi_error r \<noteq> RET_SUCCESS"
    using assms by (simp add: sbi_is_ok_def)
  then show ?thesis
    unfolding sbi_into_result_def Let_def by simp
qed

text \<open>
  a call result and its \<open>Result\<close> view determine each other. A success carries its
  value unchanged; an error converts back to a structure with the same code and a zero
  value, and reading that structure again gives the same error.
\<close>

theorem sbi_ret_roundtrip:
  fixes r :: sbi_ret
  shows "case sbi_into_result r of
      Inr v \<Rightarrow> r = sbi_success v \<and> sbi_is_ok r
    | Inl e \<Rightarrow> \<not> sbi_is_ok r \<and> sbi_from_error e = r\<lparr>sbi_value := 0\<rparr> \<and>
        sbi_into_result (sbi_from_error e) = Inl e"
proof (cases "sbi_into_result r")
  case (Inl e)
  then have "\<not> sbi_is_ok r"
    using sbi_into_result_ok_iff [of r] by simp
  with Inl sbi_into_result_InlD [OF Inl] show ?thesis
    by (simp add: sbi_into_result_value)
next
  case (Inr v)
  with sbi_into_result_ok_iff [of r] show ?thesis
    by (simp add: sbi_into_result_InrD)
qed

lemma sbi_error_constructors_distinct:
  "inj_on (sbi_from_error :: usize Error \<Rightarrow> sbi_ret) {e. \<forall>c. e \<noteq> Custom c}"
proof (rule inj_onI)
  fix x y :: "usize Error"
  assume "x \<in> {e. \<forall>c. e \<noteq> Custom c}" "y \<in> {e. \<forall>c. e \<noteq> Custom c}"
    and "sbi_from_error x = (sbi_from_error y :: sbi_ret)"
  then show "x = y"
    by (cases x; cases y; simp add: sbi_ret_defs ret_code_defs)
qed

lemma sbi_from_error_not_ok: "\<forall>c. e \<noteq> Custom c \<Longrightarrow> \<not> sbi_is_ok (sbi_from_error e :: sbi_ret)"
  by (cases e) (simp_all add: sbi_ret_defs ret_code_defs sbi_is_ok_def)

end
