(* ===== verification/Firmware_Event.thy ===== *)
theory Firmware_Event
  imports Rust_Prelude
begin

text \<open>
  The firmware event numbers of \<open>library/sbi-spec/src/pmu.rs\<close>, which the prototyper's
  extensions count and its PMU extension configures.
\<close>

definition MISALIGNED_LOAD :: usize where "MISALIGNED_LOAD = 0"
definition MISALIGNED_STORE :: usize where "MISALIGNED_STORE = 1"
definition ACCESS_LOAD :: usize where "ACCESS_LOAD = 2"
definition ACCESS_STORE :: usize where "ACCESS_STORE = 3"
definition ILLEGAL_INSN :: usize where "ILLEGAL_INSN = 4"
definition SET_TIMER :: usize where "SET_TIMER = 5"
definition IPI_SENT :: usize where "IPI_SENT = 6"
definition IPI_RECEIVED :: usize where "IPI_RECEIVED = 7"
definition FENCE_I_SENT :: usize where "FENCE_I_SENT = 8"
definition FENCE_I_RECEIVED :: usize where "FENCE_I_RECEIVED = 9"
definition SFENCE_VMA_SENT :: usize where "SFENCE_VMA_SENT = 10"
definition SFENCE_VMA_RECEIVED :: usize where "SFENCE_VMA_RECEIVED = 11"
definition SFENCE_VMA_ASID_SENT :: usize where "SFENCE_VMA_ASID_SENT = 12"
definition SFENCE_VMA_ASID_RECEIVED :: usize where "SFENCE_VMA_ASID_RECEIVED = 13"
definition HFENCE_GVMA_SENT :: usize where "HFENCE_GVMA_SENT = 14"
definition HFENCE_GVMA_RECEIVED :: usize where "HFENCE_GVMA_RECEIVED = 15"
definition HFENCE_GVMA_VMID_SENT :: usize where "HFENCE_GVMA_VMID_SENT = 16"
definition HFENCE_GVMA_VMID_RECEIVED :: usize where "HFENCE_GVMA_VMID_RECEIVED = 17"
definition HFENCE_VVMA_SENT :: usize where "HFENCE_VVMA_SENT = 18"
definition HFENCE_VVMA_RECEIVED :: usize where "HFENCE_VVMA_RECEIVED = 19"
definition HFENCE_VVMA_ASID_SENT :: usize where "HFENCE_VVMA_ASID_SENT = 20"
definition HFENCE_VVMA_ASID_RECEIVED :: usize where "HFENCE_VVMA_ASID_RECEIVED = 21"
definition PLATFORM_EVENT :: usize where "PLATFORM_EVENT = 65535"

lemmas firmware_event_defs =
  MISALIGNED_LOAD_def MISALIGNED_STORE_def ACCESS_LOAD_def
  ACCESS_STORE_def ILLEGAL_INSN_def SET_TIMER_def
  IPI_SENT_def IPI_RECEIVED_def FENCE_I_SENT_def
  FENCE_I_RECEIVED_def SFENCE_VMA_SENT_def SFENCE_VMA_RECEIVED_def
  SFENCE_VMA_ASID_SENT_def SFENCE_VMA_ASID_RECEIVED_def HFENCE_GVMA_SENT_def
  HFENCE_GVMA_RECEIVED_def HFENCE_GVMA_VMID_SENT_def HFENCE_GVMA_VMID_RECEIVED_def
  HFENCE_VVMA_SENT_def HFENCE_VVMA_RECEIVED_def HFENCE_VVMA_ASID_SENT_def
  HFENCE_VVMA_ASID_RECEIVED_def PLATFORM_EVENT_def

end
