(* ===== verification/Pmp_Slots.thy ===== *)
theory Pmp_Slots
  imports Rust_Prelude
begin

text \<open>
  The PMP slot allocator of \<open>library/pmpm/src/bitmap.rs\<close>. The bitmap \<open>pmp_slots\<close> is an
  atomic word: \<open>alloc\<close> and \<open>free\<close> load it, compute a new bitmap and publish it with a
  compare-and-exchange, retrying when another hart won the race. \<open>alloc_attempt\<close> and
  \<open>free_attempt\<close> are the computation between the load and the exchange;
  \<open>slot_alloc\<close> and \<open>slot_free\<close> are the calls when no other hart interferes, and
  \<open>slot_step\<close> is the interleaved execution by any number of harts.
\<close>

section \<open>State and operations\<close>

definition MAX_PMP_ENTRY_COUNT :: u32 where
  "MAX_PMP_ENTRY_COUNT = 16"

datatype PmpError = IndexOutOfRange | NoFreeSlot

record PMPSlotAllocator =
  pmp_slots :: u64
  alloc_mask :: u64
  manage_mask :: u64

definition slot_new :: "u64 \<Rightarrow> u64 \<Rightarrow> PMPSlotAllocator" where
  "slot_new am mm = \<lparr>pmp_slots = 0, alloc_mask = am, manage_mask = mm\<rparr>"

definition alloc_attempt :: "u64 \<Rightarrow> u64 \<Rightarrow> PmpError + (nat \<times> u64)" where
  "alloc_attempt am cur_slots =
     (let aval_slots = NOT cur_slots AND am
      in if aval_slots = 0 then Inl NoFreeSlot
         else let pmp_idx = trailing_zeros aval_slots
              in Inr (pmp_idx, cur_slots OR one_bit pmp_idx))"

definition slot_pos :: "u32 \<Rightarrow> nat" where
  "slot_pos idx = unat (idx AND (MAX_PMP_ENTRY_COUNT - 1))"

definition free_attempt :: "u64 \<Rightarrow> u64 \<Rightarrow> u32 \<Rightarrow> PmpError + u64" where
  "free_attempt am cur_slots idx =
     (let free_slot = one_bit (slot_pos idx)
      in if cur_slots AND free_slot AND am = 0 then Inl IndexOutOfRange
         else Inr (cur_slots AND NOT free_slot))"

text \<open>The calls of a hart that runs alone: the exchange sees the value that was loaded.\<close>

definition slot_alloc :: "PMPSlotAllocator \<Rightarrow> (PmpError + u32) \<times> PMPSlotAllocator" where
  "slot_alloc a =
     (case alloc_attempt (alloc_mask a) (pmp_slots a) of
        Inl e \<Rightarrow> (Inl e, a)
      | Inr (pmp_idx, new_bitmap) \<Rightarrow> (Inr (word_of_nat pmp_idx), a\<lparr>pmp_slots := new_bitmap\<rparr>))"

definition slot_free :: "PMPSlotAllocator \<Rightarrow> u32 \<Rightarrow> (PmpError + unit) \<times> PMPSlotAllocator" where
  "slot_free a idx =
     (case free_attempt (alloc_mask a) (pmp_slots a) idx of
        Inl e \<Rightarrow> (Inl e, a)
      | Inr new_bitmap \<Rightarrow> (Inr (), a\<lparr>pmp_slots := new_bitmap\<rparr>))"

definition is_alloc :: "PMPSlotAllocator \<Rightarrow> u32 \<Rightarrow> PmpError + bool" where
  "is_alloc a idx =
     (let check_slot = one_bit (slot_pos idx)
      in if check_slot AND alloc_mask a = 0 then Inl IndexOutOfRange
         else Inr (pmp_slots a AND check_slot \<noteq> 0))"

definition is_managed :: "PMPSlotAllocator \<Rightarrow> u32 \<Rightarrow> bool outcome" where
  "is_managed a idx =
     obind (shl_ovf 1 (unat idx)) (\<lambda>b. Ret (manage_mask a AND b \<noteq> 0))"

section \<open>The interleaved execution\<close>

text \<open>
  A hart is outside the allocator, or between the load of \<open>alloc\<close> (\<open>free\<close>) and its
  compare-and-exchange, holding the value it loaded. \<open>owned\<close> records which slots each
  hart has received and not given back. As in the code, \<open>free\<close> may be called with any index
  and clears the bit of that index modulo 16, whoever owns the slot; \<open>slot_reachable\<close> are the
  states of the executions in which every call of \<open>free\<close> names a slot its caller owns
  (\<open>frees_own\<close>).
\<close>

datatype slot_pc = Outside | InAlloc u64 | InFree u32 u64

record slot_sys =
  bitmap :: u64
  pcs :: "nat \<Rightarrow> slot_pc"
  owned :: "nat \<Rightarrow> nat set"

definition slot_init :: slot_sys where
  "slot_init = \<lparr>bitmap = 0, pcs = (\<lambda>_. Outside), owned = (\<lambda>_. {})\<rparr>"

inductive slot_step :: "u64 \<Rightarrow> slot_sys \<Rightarrow> slot_sys \<Rightarrow> bool" for am where
  alloc_load:
    "pcs s t = Outside \<Longrightarrow>
     slot_step am s (s\<lparr>pcs := (pcs s)(t := InAlloc (bitmap s))\<rparr>)"
| alloc_fail:
    "pcs s t = InAlloc cur \<Longrightarrow> alloc_attempt am cur = Inl e \<Longrightarrow>
     slot_step am s (s\<lparr>pcs := (pcs s)(t := Outside)\<rparr>)"
| alloc_cas:
    "pcs s t = InAlloc cur \<Longrightarrow> alloc_attempt am cur = Inr (idx, new) \<Longrightarrow> bitmap s = cur \<Longrightarrow>
     slot_step am s (s\<lparr>bitmap := new, pcs := (pcs s)(t := Outside),
       owned := (owned s)(t := insert idx (owned s t))\<rparr>)"
| alloc_retry:
    "pcs s t = InAlloc cur \<Longrightarrow> alloc_attempt am cur = Inr (idx, new) \<Longrightarrow> bitmap s \<noteq> cur \<Longrightarrow>
     slot_step am s (s\<lparr>pcs := (pcs s)(t := InAlloc (bitmap s))\<rparr>)"
| free_load:
    "pcs s t = Outside \<Longrightarrow>
     slot_step am s (s\<lparr>pcs := (pcs s)(t := InFree idx (bitmap s))\<rparr>)"
| free_fail:
    "pcs s t = InFree idx cur \<Longrightarrow> free_attempt am cur idx = Inl e \<Longrightarrow>
     slot_step am s (s\<lparr>pcs := (pcs s)(t := Outside)\<rparr>)"
| free_cas:
    "pcs s t = InFree idx cur \<Longrightarrow> free_attempt am cur idx = Inr new \<Longrightarrow> bitmap s = cur \<Longrightarrow>
     slot_step am s (s\<lparr>bitmap := new, pcs := (pcs s)(t := Outside),
       owned := (owned s)(t := owned s t - {slot_pos idx})\<rparr>)"
| free_retry:
    "pcs s t = InFree idx cur \<Longrightarrow> free_attempt am cur idx = Inr new \<Longrightarrow> bitmap s \<noteq> cur \<Longrightarrow>
     slot_step am s (s\<lparr>pcs := (pcs s)(t := InFree idx (bitmap s))\<rparr>)"

definition frees_own :: "slot_sys \<Rightarrow> slot_sys \<Rightarrow> bool" where
  "frees_own s s' \<longleftrightarrow>
     (\<forall>t idx cur. pcs s t = Outside \<longrightarrow> pcs s' t = InFree idx cur \<longrightarrow> unat idx \<in> owned s t)"

inductive slot_reachable :: "u64 \<Rightarrow> slot_sys \<Rightarrow> bool" for am where
  start: "slot_reachable am slot_init"
| step: "slot_reachable am s \<Longrightarrow> slot_step am s s' \<Longrightarrow> frees_own s s' \<Longrightarrow> slot_reachable am s'"

section \<open>One attempt\<close>

lemma alloc_attempt_Inr:
  assumes "alloc_attempt am cur = Inr (idx, new)"
  shows "bit am idx" and "\<not> bit cur idx" and "idx < 64"
    and "bit new i \<longleftrightarrow> bit cur i \<or> i = idx"
    and "j < idx \<Longrightarrow> bit am j \<Longrightarrow> bit cur j"
proof -
  let ?av = "NOT cur AND am"
  from assms have nz: "?av \<noteq> 0" and idx: "idx = trailing_zeros ?av"
    and new: "new = cur OR one_bit idx"
    by (auto simp: alloc_attempt_def Let_def split: if_splits)
  have b: "bit ?av idx"
    using trailing_zeros_props(1) [OF nz] idx by simp
  then show "bit am idx" and "\<not> bit cur idx" and lt: "idx < 64"
    using bit_imp_le_length [OF b] by (auto simp: bit_and_iff bit_not_iff)
  show "bit new i \<longleftrightarrow> bit cur i \<or> i = idx"
    using lt by (auto simp: new bit_or_iff bit_one_bit)
  show "j < idx \<Longrightarrow> bit am j \<Longrightarrow> bit cur j"
    using trailing_zeros_props(2) [OF nz, of j] lt idx
    by (auto simp: bit_and_iff bit_not_iff)
qed

lemma alloc_attempt_Inl_iff:
  "(\<exists>e. alloc_attempt am cur = Inl e) \<longleftrightarrow> (\<forall>i. bit am i \<longrightarrow> bit cur i)"
proof -
  have "NOT cur AND am = 0 \<longleftrightarrow> (\<forall>i. bit am i \<longrightarrow> bit cur i)"
    unfolding word_eq_0_iff_bit using bit_imp_le_length [of am]
    by (auto simp: bit_and_iff bit_not_iff)
  then show ?thesis
    by (auto simp: alloc_attempt_def Let_def)
qed

lemma slot_pos_mod: "slot_pos idx = unat idx mod 16"
proof -
  have "idx AND 15 = take_bit 4 idx"
    by (simp add: take_bit_eq_mask mask_eq_exp_minus_1)
  then have "unat (idx AND 15) = take_bit 4 (unat idx)"
    by (simp add: unsigned_take_bit_eq)
  then show ?thesis
    by (simp add: slot_pos_def MAX_PMP_ENTRY_COUNT_def take_bit_eq_mod)
qed

lemma slot_pos_less: "slot_pos idx < 16"
  by (simp add: slot_pos_mod)

lemma slot_pos_small: "unat idx < 16 \<Longrightarrow> slot_pos idx = unat idx"
  by (simp add: slot_pos_mod)

lemma free_attempt_Inr:
  assumes "free_attempt am cur idx = Inr new"
  shows "bit cur (slot_pos idx)" and "bit am (slot_pos idx)"
    and "bit new i \<longleftrightarrow> bit cur i \<and> i \<noteq> slot_pos idx"
proof -
  let ?p = "slot_pos idx"
  from assms have nz: "cur AND one_bit ?p AND am \<noteq> 0" and new: "new = clear_bit cur ?p"
    by (auto simp: free_attempt_def Let_def clear_bit_def split: if_splits)
  then show "bit cur ?p" and "bit am ?p"
    by (auto simp: word_eq_0_iff_bit bit_and_iff bit_one_bit)
  show "bit new i \<longleftrightarrow> bit cur i \<and> i \<noteq> ?p"
    by (simp add: new bit_clear_bit)
qed

lemma free_attempt_Inl_iff:
  "(\<exists>e. free_attempt am cur idx = Inl e) \<longleftrightarrow> \<not> (bit cur (slot_pos idx) \<and> bit am (slot_pos idx))"
  using slot_pos_less [of idx]
  by (auto simp: free_attempt_def Let_def word_eq_0_iff_bit bit_and_iff bit_one_bit)

section \<open>The calls of one hart\<close>

definition slot_inv :: "PMPSlotAllocator \<Rightarrow> bool" where
  "slot_inv a = (\<forall>i. bit (pmp_slots a) i \<longrightarrow> bit (alloc_mask a) i \<and> i < 16)"

definition slots_of :: "PMPSlotAllocator \<Rightarrow> nat set" where
  "slots_of a = {i. bit (pmp_slots a) i}"

definition allocatable :: "PMPSlotAllocator \<Rightarrow> nat set" where
  "allocatable a = {i. bit (alloc_mask a) i}"

lemma slot_alloc_Ok:
  assumes "slot_alloc a = (Inr idx, a')"
  shows "unat idx \<in> allocatable a - slots_of a" and "slots_of a' = insert (unat idx) (slots_of a)"
    and "alloc_mask a' = alloc_mask a" and "manage_mask a' = manage_mask a"
    and "j < unat idx \<Longrightarrow> j \<in> allocatable a \<Longrightarrow> j \<in> slots_of a"
proof -
  obtain n new where att: "alloc_attempt (alloc_mask a) (pmp_slots a) = Inr (n, new)"
    and idx: "idx = word_of_nat n" and a': "a' = a\<lparr>pmp_slots := new\<rparr>"
    using assms by (auto simp: slot_alloc_def split: sum.splits prod.splits)
  note props = alloc_attempt_Inr [OF att]
  have u: "unat idx = n"
    using props(3) by (simp add: idx unat_of_nat)
  show "unat idx \<in> allocatable a - slots_of a" "slots_of a' = insert (unat idx) (slots_of a)"
    "alloc_mask a' = alloc_mask a" "manage_mask a' = manage_mask a"
    using props(1,2,4) by (auto simp: u allocatable_def slots_of_def a')
  show "j < unat idx \<Longrightarrow> j \<in> allocatable a \<Longrightarrow> j \<in> slots_of a"
    using props(5) by (simp add: u allocatable_def slots_of_def)
qed

lemma slot_alloc_Err:
  assumes "slot_alloc a = (Inl e, a')"
  shows "e = NoFreeSlot" and "a' = a" and "allocatable a \<subseteq> slots_of a"
proof -
  have att: "alloc_attempt (alloc_mask a) (pmp_slots a) = Inl e" and "a' = a"
    using assms by (auto simp: slot_alloc_def split: sum.splits prod.splits)
  then show "a' = a" and "e = NoFreeSlot"
    by (auto simp: alloc_attempt_def Let_def split: if_splits)
  show "allocatable a \<subseteq> slots_of a"
    using alloc_attempt_Inl_iff [of "alloc_mask a" "pmp_slots a"] att
    by (auto simp: allocatable_def slots_of_def)
qed

lemma slot_free_Ok:
  assumes "slot_free a idx = (Inr u, a')"
  shows "slot_pos idx \<in> allocatable a \<inter> slots_of a" and "slots_of a' = slots_of a - {slot_pos idx}"
    and "alloc_mask a' = alloc_mask a" and "manage_mask a' = manage_mask a"
proof -
  obtain new where att: "free_attempt (alloc_mask a) (pmp_slots a) idx = Inr new"
    and a': "a' = a\<lparr>pmp_slots := new\<rparr>"
    using assms by (auto simp: slot_free_def split: sum.splits)
  show "slot_pos idx \<in> allocatable a \<inter> slots_of a" "slots_of a' = slots_of a - {slot_pos idx}"
    "alloc_mask a' = alloc_mask a" "manage_mask a' = manage_mask a"
    using free_attempt_Inr [OF att] by (auto simp: a' allocatable_def slots_of_def)
qed

lemma slot_free_Err:
  assumes "slot_free a idx = (Inl e, a')"
  shows "e = IndexOutOfRange" and "a' = a" and "slot_pos idx \<notin> allocatable a \<inter> slots_of a"
proof -
  have att: "free_attempt (alloc_mask a) (pmp_slots a) idx = Inl e" and "a' = a"
    using assms by (auto simp: slot_free_def split: sum.splits)
  then show "a' = a" and "e = IndexOutOfRange"
    by (auto simp: free_attempt_def Let_def split: if_splits)
  show "slot_pos idx \<notin> allocatable a \<inter> slots_of a"
    using free_attempt_Inl_iff [of "alloc_mask a" "pmp_slots a" idx] att
    by (auto simp: allocatable_def slots_of_def)
qed

text \<open>
  an uncontended \<open>alloc\<close> returns the lowest slot that is allocatable and not in use and
  marks exactly that slot, or reports \<open>NoFreeSlot\<close>, leaving the bitmap as it was, exactly
  when every allocatable slot is in use.
\<close>

theorem slot_alloc_correct:
  "case slot_alloc a of
     (Inr idx, a') \<Rightarrow> unat idx = Min (allocatable a - slots_of a) \<and>
       allocatable a - slots_of a \<noteq> {} \<and> slots_of a' = insert (unat idx) (slots_of a) \<and>
       a' = a\<lparr>pmp_slots := pmp_slots a'\<rparr>
   | (Inl e, a') \<Rightarrow> e = NoFreeSlot \<and> a' = a \<and> allocatable a - slots_of a = {}"
proof (cases "slot_alloc a")
  case (Pair r a')
  show ?thesis
  proof (cases r)
    case (Inl e)
    with Pair slot_alloc_Err [of a e a'] show ?thesis
      by auto
  next
    case (Inr idx)
    note ok = slot_alloc_Ok [OF Pair [unfolded Inr]]
    have "finite (allocatable a)"
      by (simp add: allocatable_def flip: set_bit_list)
    then have "Min (allocatable a - slots_of a) = unat idx"
      using ok(1,5) by (intro Min_eqI) (auto simp: not_le [symmetric])
    with Pair Inr ok show ?thesis
      by auto
  qed
qed

lemma slot_inv_iff: "slot_inv a \<longleftrightarrow> slots_of a \<subseteq> allocatable a \<inter> {..<16}"
  by (auto simp: slot_inv_def slots_of_def allocatable_def)

lemma allocatable_cong: "alloc_mask a = alloc_mask b \<Longrightarrow> allocatable a = allocatable b"
  by (simp add: allocatable_def)

lemma slot_inv_alloc:
  assumes "slot_inv a" and "allocatable a \<subseteq> {..<16}" and "slot_alloc a = (r, a')"
  shows "slot_inv a'" and "allocatable a' = allocatable a"
  using assms slot_alloc_Err(2) [of a _ a'] slot_alloc_Ok(1,2) [of a _ a']
    allocatable_cong [OF slot_alloc_Ok(3), of a _ a']
  by (cases r; fastforce simp: slot_inv_iff)+

lemma slot_inv_free:
  assumes "slot_inv a" and "slot_free a idx = (r, a')"
  shows "slot_inv a'" and "allocatable a' = allocatable a"
  using assms slot_free_Err(2) [of a idx _ a'] slot_free_Ok(2) [of a idx _ a']
    allocatable_cong [OF slot_free_Ok(3), of a idx _ a']
  by (cases r; fastforce simp: slot_inv_iff)+

lemma slot_free_of_owned:
  assumes "slot_inv a" and "unat idx \<in> slots_of a"
  shows "\<exists>a'. slot_free a idx = (Inr (), a') \<and> slots_of a' = slots_of a - {unat idx}"
proof -
  obtain r a' where eq: "slot_free a idx = (r, a')"
    by fastforce
  have "slot_pos idx = unat idx" and "unat idx \<in> allocatable a"
    using assms by (auto simp: slot_inv_iff intro: slot_pos_small)
  with eq assms(2) slot_free_Err(3) [of a idx _ a'] slot_free_Ok(2) [of a idx _ a'] show ?thesis
    by (cases r) auto
qed

text \<open>
  \<open>free\<close> reduces its index modulo 16 before it looks at the bitmap, so an index that is
  out of range acts on the slot 16 (or a multiple of it) below: every index has the effect of
  its low four bits.
\<close>

theorem slot_free_aliases:
  "slot_free a idx = slot_free a (idx AND 15) \<and> is_alloc a idx = is_alloc a (idx AND 15)"
proof -
  have "slot_pos (idx AND 15) = slot_pos idx"
    by (simp add: slot_pos_def MAX_PMP_ENTRY_COUNT_def and.assoc)
  then show ?thesis
    by (simp add: slot_free_def free_attempt_def is_alloc_def)
qed

section \<open>Exclusive ownership under every interleaving\<close>

definition slot_sys_inv :: "u64 \<Rightarrow> slot_sys \<Rightarrow> bool" where
  "slot_sys_inv am s \<longleftrightarrow>
     (\<forall>i. bit (bitmap s) i \<longleftrightarrow> (\<exists>t. i \<in> owned s t)) \<and>
     (\<forall>i. bit (bitmap s) i \<longrightarrow> bit am i) \<and>
     (\<forall>t u i. i \<in> owned s t \<longrightarrow> i \<in> owned s u \<longrightarrow> t = u) \<and>
     (\<forall>t idx cur. pcs s t = InFree idx cur \<longrightarrow> unat idx \<in> owned s t \<and> bit cur (unat idx))"

lemma slot_sys_inv_init: "slot_sys_inv am slot_init"
  by (simp add: slot_sys_inv_def slot_init_def)

lemma ex_owner_insert:
  "(\<exists>u. i \<in> (f(t := insert x (f t))) u) \<longleftrightarrow> (\<exists>u. i \<in> f u) \<or> i = x"
  by (metis fun_upd_apply insert_iff)

lemma ex_owner_remove:
  assumes "\<forall>t u i. i \<in> f t \<longrightarrow> i \<in> f u \<longrightarrow> t = u" and "x \<in> f t"
  shows "(\<exists>u. i \<in> (f(t := f t - {x})) u) \<longleftrightarrow> (\<exists>u. i \<in> f u) \<and> i \<noteq> x"
  using assms by (metis Diff_iff fun_upd_apply singletonD singletonI)

lemma slot_sys_invI:
  assumes "\<And>i. bit (bitmap s) i \<longleftrightarrow> (\<exists>t. i \<in> owned s t)"
    and "\<And>i. bit (bitmap s) i \<Longrightarrow> bit am i"
    and "\<And>t u i. i \<in> owned s t \<Longrightarrow> i \<in> owned s u \<Longrightarrow> t = u"
    and "\<And>t idx cur. pcs s t = InFree idx cur \<Longrightarrow> unat idx \<in> owned s t \<and> bit cur (unat idx)"
  shows "slot_sys_inv am s"
  using assms unfolding slot_sys_inv_def by blast

lemma slot_sys_invD:
  assumes "slot_sys_inv am s"
  shows "bit (bitmap s) i \<longleftrightarrow> (\<exists>t. i \<in> owned s t)" and "bit (bitmap s) i \<Longrightarrow> bit am i"
    and "\<forall>t u i. i \<in> owned s t \<longrightarrow> i \<in> owned s u \<longrightarrow> t = u"
    and "pcs s t = InFree idx cur \<Longrightarrow> unat idx \<in> owned s t \<and> bit cur (unat idx)"
  using assms unfolding slot_sys_inv_def by blast+

lemma slot_sys_inv_pcs:
  assumes "slot_sys_inv am s"
    and "\<And>idx cur. v = InFree idx cur \<Longrightarrow> unat idx \<in> owned s t \<and> bit cur (unat idx)"
  shows "slot_sys_inv am (s\<lparr>pcs := (pcs s)(t := v)\<rparr>)"
  using assms by (auto simp: slot_sys_inv_def)

lemma slot_sys_inv_step:
  assumes "slot_step am s s'" and "\<forall>i. bit am i \<longrightarrow> i < 16" and "slot_sys_inv am s"
    and "frees_own s s'"
  shows "slot_sys_inv am s'"
  using assms
proof (induction rule: slot_step.induct)
  case (alloc_cas s t cur idx new)
  note att = alloc_attempt_Inr [OF alloc_cas.hyps(2)] and inv = slot_sys_invD [OF alloc_cas.prems(2)]
  have fresh: "idx \<notin> owned s u" for u
    using inv(1) [of idx] att(2) alloc_cas.hyps(3) by auto
  show ?case
  proof (rule slot_sys_invI, goal_cases)
    case (1 i)
    show ?case
      using att(4) [of i] inv(1) [of i] alloc_cas.hyps(3)
      by (simp add: ex_owner_insert del: fun_upd_apply)
  next
    case (2 i)
    then show ?case
      using att(1) att(4) [of i] inv(2) [of i] alloc_cas.hyps(3) by auto
  next
    case (3 v u i)
    then show ?case
      using inv(3) fresh by (auto split: if_splits)
  next
    case (4 u k c)
    then show ?case
      using inv(4) [of u k c] by (auto split: if_splits)
  qed
next
  case (free_cas s t idx cur new)
  note inv = slot_sys_invD [OF free_cas.prems(2)]
  have own: "unat idx \<in> owned s t"
    using inv(4) [OF free_cas.hyps(1)] by simp
  then have "bit am (unat idx)"
    using inv(1,2) by blast
  then have pos: "slot_pos idx = unat idx"
    using free_cas.prems(1) by (blast intro: slot_pos_small)
  note att = free_attempt_Inr(3) [OF free_cas.hyps(2), unfolded pos]
  show ?case
  proof (rule slot_sys_invI, goal_cases)
    case (1 i)
    show ?case
      using att [of i] inv(1) [of i] free_cas.hyps(3)
      by (simp add: pos ex_owner_remove [OF inv(3) own] del: fun_upd_apply)
  next
    case (2 i)
    then show ?case
      using att [of i] inv(2) [of i] free_cas.hyps(3) by auto
  next
    case (3 v u i)
    then show ?case
      using inv(3) by (auto split: if_splits)
  next
    case (4 u k c)
    then have "pcs s u = InFree k c" and "u \<noteq> t"
      by (auto split: if_splits)
    then show ?case
      using inv(4) [of u k c] by simp
  qed
next
  case (free_load s t idx)
  then have "unat idx \<in> owned s t"
    by (auto simp: frees_own_def)
  moreover from this have "bit (bitmap s) (unat idx)"
    using slot_sys_invD(1) [OF free_load.prems(2)] by blast
  ultimately show ?case
    using free_load.prems(2)
    by (intro slot_sys_inv_pcs) auto
next
  case (free_retry s t idx cur new)
  then have "unat idx \<in> owned s t"
    using slot_sys_invD(4) by blast
  moreover from this have "bit (bitmap s) (unat idx)"
    using slot_sys_invD(1) [OF free_retry.prems(2)] by blast
  ultimately show ?case
    using free_retry.prems(2) by (intro slot_sys_inv_pcs) auto
qed (auto intro!: slot_sys_inv_pcs)

lemma slot_reachable_inv:
  assumes "slot_reachable am s" and "\<forall>i. bit am i \<longrightarrow> i < 16"
  shows "slot_sys_inv am s"
  using assms by (induction rule: slot_reachable.induct)
    (auto intro: slot_sys_inv_init slot_sys_inv_step)

text \<open>
  C5: let every bit of the allocation mask be below 16 (\<open>free\<close> acts on its index modulo 16) and
  let every call of \<open>free\<close> name a slot its caller owns (the allocator itself frees any slot for
  anyone). Then, however the loads and compare-and-exchanges of any number of harts interleave,
  the bitmap holds exactly the slots that some hart owns, no slot is owned by two harts, and no
  \<open>free\<close> is refused.
\<close>

theorem slot_ownership_exclusive:
  assumes "slot_reachable am s" and "\<forall>i. bit am i \<longrightarrow> i < 16"
  shows "{i. bit (bitmap s) i} = (\<Union>t. owned s t) \<and>
    (\<forall>t u. t \<noteq> u \<longrightarrow> owned s t \<inter> owned s u = {}) \<and>
    (\<forall>t idx cur. pcs s t = InFree idx cur \<longrightarrow> (\<exists>new. free_attempt am cur idx = Inr new))"
proof (intro conjI allI impI)
  note inv = slot_reachable_inv [OF assms]
  show "{i. bit (bitmap s) i} = (\<Union>t. owned s t)"
    using slot_sys_invD(1) [OF inv] by auto
  show "owned s t \<inter> owned s u = {}" if "t \<noteq> u" for t u
    using slot_sys_invD(3) [OF inv] that by blast
  fix t idx cur
  assume "pcs s t = InFree idx cur"
  then have "unat idx \<in> owned s t" and cur: "bit cur (unat idx)"
    using slot_sys_invD(4) [OF inv] by auto
  then have am: "bit am (unat idx)"
    using slot_sys_invD(1,2) [OF inv] by blast
  with assms(2) have "slot_pos idx = unat idx"
    by (intro slot_pos_small) blast
  with am cur free_attempt_Inl_iff [of am cur idx] show "\<exists>new. free_attempt am cur idx = Inr new"
    by (cases "free_attempt am cur idx") auto
qed

lemma alloc_attempt_examples: "alloc_attempt 3 0 = Inr (0, 1)" "alloc_attempt 3 1 = Inr (1, 3)"
  by (simp_all add: alloc_attempt_def trailing_zeros_def one_bit_def upt_rec)

lemma slot_run_two_harts:
  "slot_reachable 3 \<lparr>bitmap = 3, pcs = (\<lambda>_. Outside), owned = (\<lambda>_. {})(0 := {0}, 1 := {1})\<rparr>"
proof -
  let ?s1 = "slot_init\<lparr>pcs := (\<lambda>_. Outside)(0 := InAlloc 0)\<rparr>"
  let ?s2 = "slot_init\<lparr>pcs := (\<lambda>_. Outside)(0 := InAlloc 0, 1 := InAlloc 0)\<rparr>"
  let ?s3 = "\<lparr>bitmap = 1, pcs = (\<lambda>_. Outside)(1 := InAlloc 0), owned = (\<lambda>_. {})(0 := {0})\<rparr>"
  let ?s4 = "\<lparr>bitmap = 1, pcs = (\<lambda>_. Outside)(1 := InAlloc 1), owned = (\<lambda>_. {})(0 := {0})\<rparr>"
  have outside: "(\<lambda>_ :: nat. Outside)(0 := Outside, Suc 0 := v) = (\<lambda>_. Outside)(Suc 0 := v)" for v
    by auto
  have idem: "(\<lambda>_ :: nat. Outside)(n := Outside) = (\<lambda>_. Outside)" for n
    by auto
  have go: "slot_reachable 3 s'" if "slot_reachable 3 s" "slot_step 3 s s'"
    "\<And>t idx cur. pcs s' t \<noteq> InFree idx cur" for s s'
    using that by (auto intro!: slot_reachable.step [of 3 s s'] simp: frees_own_def)
  have "slot_step 3 slot_init ?s1"
    using slot_step.alloc_load [of slot_init 0 3] by (simp add: slot_init_def)
  then have "slot_reachable 3 ?s1"
    by (rule go [OF slot_reachable.start]) simp
  moreover have "slot_step 3 ?s1 ?s2"
    using slot_step.alloc_load [of ?s1 1 3] by (simp add: slot_init_def)
  ultimately have "slot_reachable 3 ?s2"
    by (rule go) simp
  moreover have "slot_step 3 ?s2 ?s3"
    using slot_step.alloc_cas [of ?s2 0 0 3 0 1] alloc_attempt_examples
    by (simp add: slot_init_def fun_upd_twist outside)
  ultimately have "slot_reachable 3 ?s3"
    by (rule go) simp
  moreover have "slot_step 3 ?s3 ?s4"
    using slot_step.alloc_retry [of ?s3 1 0 3 0 1] alloc_attempt_examples by simp
  ultimately have "slot_reachable 3 ?s4"
    by (rule go) simp
  moreover have "slot_step 3 ?s4
      \<lparr>bitmap = 3, pcs = (\<lambda>_. Outside), owned = (\<lambda>_. {})(0 := {0}, 1 := {1})\<rparr>"
    using slot_step.alloc_cas [of ?s4 1 1 3 1 3] alloc_attempt_examples by (simp add: idem)
  ultimately show ?thesis
    by (rule go) simp
qed

theorem slot_ownership_exclusive_witness:
  "\<exists>s. slot_reachable 3 s \<and> owned s 0 = {0} \<and> owned s 1 = {1} \<and>
     {i. bit (bitmap s) i} = (\<Union>t. owned s t) \<and> owned s 0 \<inter> owned s 1 = {}"
proof -
  have am: "\<forall>i. bit (3 :: u64) i \<longrightarrow> i < 16"
  proof (intro allI impI)
    fix i
    assume "bit (3 :: u64) i"
    then have "i \<in> set (bit_list (3 :: u64))"
      by (simp add: set_bit_list)
    also have "bit_list (3 :: u64) = [0, 1]"
      by (simp add: bit_list_def upt_rec)
    finally show "i < 16" by auto
  qed
  note excl = slot_ownership_exclusive [OF slot_run_two_harts am]
  show ?thesis
    by (rule exI, intro conjI, rule slot_run_two_harts) (use excl in simp_all)
qed

end
