(* ===== verification/Pmp_Entry.thy ===== *)
theory Pmp_Entry
  imports Pmp_Slots
begin

text \<open>
  PMP entries, \<open>library/pmpm/src/lib.rs\<close>: the address encoding of the \<open>pmpaddr\<close>
  registers and the operations that program one entry. The sixteen address registers and the
  two configuration registers are the state; the configuration-register layout belongs to the
  \<open>riscv\<close> crate, so the type of a configuration register and its methods \<open>set_pmp\<close>
  and \<open>into_config\<close> are parameters (\<open>cfg_ops\<close>), used through the law \<open>cfg_law\<close>: a
  field that was set is read back and the other fields keep their value.

  The main result is that programming an entry with an area that
  \<open>check_pmp_area_available\<close> accepts protects exactly that area.
\<close>

section \<open>Data\<close>

datatype Range = OFF | TOR | NA4 | NAPOT
datatype Permission = NONE | R | W | RW | X | RX | WX | RWX

definition PMP_SHIFT :: nat where
  "PMP_SHIFT = 2"

record PmpConfig =
  range :: Range
  perm :: Permission
  is_locked :: bool

record PmpSlice =
  pa_lo :: usize
  pa_hi :: usize
  log2len :: u32

definition pmp_slice_new :: "u32 \<Rightarrow> usize \<Rightarrow> usize \<Rightarrow> PmpSlice" where
  "pmp_slice_new l lo hi = \<lparr>pa_lo = lo, pa_hi = hi, log2len = l\<rparr>"

definition pmp_slice_len :: "PmpSlice \<Rightarrow> usize outcome" where
  "pmp_slice_len s = shl_ovf 1 (unat (log2len s))"

definition pmp_slice_start :: "PmpSlice \<Rightarrow> usize" where
  "pmp_slice_start s = pa_lo s"

definition pmp_slice_end :: "PmpSlice \<Rightarrow> usize outcome" where
  "pmp_slice_end s =
     obind (shl_ovf 1 (unat (log2len s))) (\<lambda>n.
       obind (add_ovf (pa_lo s) n) (\<lambda>e. sub_ovf e 1))"

section \<open>Areas and address encoding\<close>

fun check_pmp_area_available :: "usize \<Rightarrow> usize \<Rightarrow> Range \<Rightarrow> bool" where
  "check_pmp_area_available addr len NA4 \<longleftrightarrow>
     addr AND (one_bit PMP_SHIFT - 1) = 0 \<and> len = 4"
| "check_pmp_area_available addr len NAPOT \<longleftrightarrow>
     8 \<le> len \<and> len AND (len - 1) = 0 \<and> addr mod len = 0"
| "check_pmp_area_available addr len TOR \<longleftrightarrow>
     addr AND (one_bit PMP_SHIFT - 1) = 0 \<and> len mod 4 = 0"
| "check_pmp_area_available addr len OFF \<longleftrightarrow> True"

definition encode_napot :: "usize \<Rightarrow> nat \<Rightarrow> usize outcome" where
  "encode_napot addr l =
     (if l = usize_BITS then Ret usize_MAX
      else if l < PMP_SHIFT then Panic
      else obind (shl_ovf (1 :: usize) (l - PMP_SHIFT)) (\<lambda>b.
        let addrmask = b - 1;
            a = drop_bit PMP_SHIFT addr AND NOT addrmask
        in Ret (a OR drop_bit 1 addrmask)))"

fun encode_pmp_addr :: "PmpSlice \<Rightarrow> Range \<Rightarrow> usize outcome" where
  "encode_pmp_addr s NAPOT = encode_napot (pa_lo s) (unat (log2len s AND (64 OR 63)))"
| "encode_pmp_addr s NA4 = Ret (drop_bit PMP_SHIFT (pa_lo s))"
| "encode_pmp_addr s TOR = Ret (drop_bit PMP_SHIFT (pa_lo s))"
| "encode_pmp_addr s OFF = Ret 0"

fun decode_pmp_addr :: "usize \<Rightarrow> Range \<Rightarrow> PmpSlice" where
  "decode_pmp_addr pmpaddr NAPOT =
     (if pmpaddr = usize_MAX then pmp_slice_new 64 0 0
      else let l = trailing_zeros (NOT pmpaddr);
               addr = push_bit PMP_SHIFT (pmpaddr AND NOT (one_bit l - 1))
           in pmp_slice_new (word_of_nat (l + PMP_SHIFT + 1)) addr 0)"
| "decode_pmp_addr pmpaddr NA4 = pmp_slice_new 2 (push_bit PMP_SHIFT pmpaddr) 0"
| "decode_pmp_addr pmpaddr TOR = pmp_slice_new 0 (push_bit PMP_SHIFT pmpaddr) 0"
| "decode_pmp_addr pmpaddr OFF = pmp_slice_new 0 0 0"

section \<open>Programming an entry\<close>

record 'c cfg_ops =
  set_pmp :: "'c \<Rightarrow> nat \<Rightarrow> Range \<Rightarrow> Permission \<Rightarrow> bool \<Rightarrow> 'c"
  into_config :: "'c \<Rightarrow> nat \<Rightarrow> PmpConfig"

record 'c pmp_csrs =
  pmpaddr :: "nat \<Rightarrow> usize"
  pmpcfg0 :: 'c
  pmpcfg2 :: 'c

definition set_pmp_cfg :: "'c cfg_ops \<Rightarrow> 'c pmp_csrs \<Rightarrow> u32 \<Rightarrow> PmpConfig \<Rightarrow> 'c pmp_csrs outcome" where
  "set_pmp_cfg ops r idx c =
     (let cfg_idx = unat (idx mod 8)
      in if idx \<le> 7
         then Ret (r\<lparr>pmpcfg0 := set_pmp ops (pmpcfg0 r) cfg_idx (range c) (perm c) (is_locked c)\<rparr>)
         else if idx \<le> 15
         then Ret (r\<lparr>pmpcfg2 := set_pmp ops (pmpcfg2 r) cfg_idx (range c) (perm c) (is_locked c)\<rparr>)
         else Panic)"

definition write_pmp_addr :: "'c pmp_csrs \<Rightarrow> u32 \<Rightarrow> usize \<Rightarrow> 'c pmp_csrs outcome" where
  "write_pmp_addr r idx addr =
     (if idx \<le> 15 then Ret (r\<lparr>pmpaddr := (pmpaddr r)(unat idx := addr)\<rparr>) else Panic)"

definition read_pmp_addr :: "'c pmp_csrs \<Rightarrow> u32 \<Rightarrow> usize outcome" where
  "read_pmp_addr r idx = (if idx \<le> 15 then Ret (pmpaddr r (unat idx)) else Panic)"

definition ilog2 :: "usize \<Rightarrow> u32 outcome" where
  "ilog2 n = (if n = 0 then Panic else Ret (word_of_nat (usize_BITS - 1 - leading_zeros n)))"

definition entry_slice :: "usize \<Rightarrow> usize \<Rightarrow> PmpSlice outcome" where
  "entry_slice addr len =
     obind (if len = usize_MAX then Ret 64 else ilog2 len) (\<lambda>l. Ret (pmp_slice_new l addr 0))"

definition set_pmp_entry ::
    "'c cfg_ops \<Rightarrow> 'c pmp_csrs \<Rightarrow> u32 \<Rightarrow> usize \<Rightarrow> usize \<Rightarrow> PmpConfig \<Rightarrow> (bool \<times> 'c pmp_csrs) outcome" where
  "set_pmp_entry ops r idx addr len c =
     obind (entry_slice addr len) (\<lambda>slice.
     obind (encode_pmp_addr slice (range c)) (\<lambda>a.
     obind (write_pmp_addr r idx a) (\<lambda>r.
     obind (set_pmp_cfg ops r idx c) (\<lambda>r. Ret (True, r)))))"

definition set_pmp_entry_sync ::
    "'c cfg_ops \<Rightarrow> 'c pmp_csrs \<Rightarrow> u32 \<Rightarrow> usize \<Rightarrow> usize \<Rightarrow> PmpConfig \<Rightarrow> (bool \<times> 'c pmp_csrs) outcome" where
  "set_pmp_entry_sync ops r idx addr len c = set_pmp_entry ops r idx addr len c"

definition set_pmp_addr ::
    "'c pmp_csrs \<Rightarrow> u32 \<Rightarrow> usize \<Rightarrow> usize \<Rightarrow> Range \<Rightarrow> (bool \<times> 'c pmp_csrs) outcome" where
  "set_pmp_addr r idx addr len rng =
     obind (entry_slice addr len) (\<lambda>slice.
     obind (encode_pmp_addr slice rng) (\<lambda>a.
     obind (write_pmp_addr r idx a) (\<lambda>r. Ret (True, r))))"

definition get_pmp_cfg :: "'c cfg_ops \<Rightarrow> 'c pmp_csrs \<Rightarrow> u32 \<Rightarrow> PmpConfig outcome" where
  "get_pmp_cfg ops r idx =
     (let cfg_idx = unat (idx mod 8)
      in if idx \<le> 7 then Ret (into_config ops (pmpcfg0 r) cfg_idx)
         else if idx \<le> 15 then Ret (into_config ops (pmpcfg2 r) cfg_idx)
         else Panic)"

definition get_pmp_entry :: "'c cfg_ops \<Rightarrow> 'c pmp_csrs \<Rightarrow> u32 \<Rightarrow> (usize \<times> PmpConfig) outcome" where
  "get_pmp_entry ops r idx =
     obind (read_pmp_addr r idx) (\<lambda>a. obind (get_pmp_cfg ops r idx) (\<lambda>c. Ret (a, c)))"

text \<open>What the code relies on of the configuration registers of the \<open>riscv\<close> crate.\<close>

definition cfg_law :: "'c cfg_ops \<Rightarrow> bool" where
  "cfg_law ops = (\<forall>c i j rng p l. i < 8 \<longrightarrow> j < 8 \<longrightarrow>
     into_config ops (set_pmp ops c i rng p l) j =
       (if j = i then \<lparr>range = rng, perm = p, is_locked = l\<rparr> else into_config ops c j))"

section \<open>Powers of two\<close>

lemma one_bit_minus_1: "one_bit n - 1 = mask n" for n
  by (simp add: one_bit_def mask_eq_decr_exp push_bit_of_1)

lemma power_of_two_word:
  fixes w :: "'a::len word"
  assumes "w \<noteq> 0" and "w AND (w - 1) = 0"
  shows "w = one_bit (trailing_zeros w)"
proof -
  define t where "t = trailing_zeros w"
  define h where "h = clear_bit w t"
  note tz = trailing_zeros_props [OF assms(1), folded t_def]
  have high: "\<not> bit h n" if "n \<le> t" for n
    using that tz(2) [of n] by (cases "n = t") (auto simp: h_def bit_clear_bit)
  have wor: "w = h OR one_bit t"
    using tz by (intro bit_word_eqI) (auto simp: h_def bit_or_iff bit_clear_bit bit_one_bit)
  have w: "w = h + one_bit t"
    by (subst wor, rule disjunctive_add_eq_or [symmetric], rule bit_word_eqI)
      (auto simp: bit_and_iff bit_one_bit high)
  have "w - 1 = h + mask t"
    by (subst w) (simp flip: one_bit_minus_1)
  also have "\<dots> = h OR mask t"
    by (rule disjunctive_add_eq_or, rule bit_word_eqI)
      (auto simp: bit_and_iff bit_mask_iff high)
  finally have w1: "w - 1 = h OR mask t" .
  have "h = 0"
  proof (rule bit_word_eqI)
    fix n
    have "\<not> bit (w AND (w - 1)) n"
      by (simp add: assms(2))
    then show "bit h n = bit (0 :: 'a word) n"
      unfolding w1 by (auto simp: bit_and_iff bit_or_iff h_def bit_clear_bit)
  qed
  with w show ?thesis
    by (simp add: t_def)
qed

lemma napot_area_log:
  assumes "check_pmp_area_available addr len NAPOT"
  obtains k where "3 \<le> k" "k < 64" "len = one_bit k" "take_bit k addr = 0"
proof -
  let ?k = "trailing_zeros len"
  from assms have ge: "8 \<le> len" and pow: "len AND (len - 1) = 0" and dv: "addr mod len = 0"
    by auto
  then have nz: "len \<noteq> 0"
    by auto
  have len: "len = one_bit ?k"
    by (rule power_of_two_word [OF nz pow])
  have lt: "?k < 64"
    using trailing_zeros_props(3) [OF nz] by simp
  have len2: "len = 2 ^ ?k"
    by (subst len) (simp add: one_bit_eq_power)
  have "unat len = 2 ^ ?k"
    using lt by (subst len) (simp add: unat_one_bit)
  moreover have "8 \<le> unat len"
    using ge by (simp add: word_le_nat_alt)
  ultimately have "(2 :: nat) ^ 3 \<le> 2 ^ ?k"
    by simp
  then have "3 \<le> ?k"
    by (subst (asm) power_increasing_iff) auto
  moreover have "take_bit ?k addr = 0"
    using dv by (subst (asm) len2) (simp add: take_bit_eq_mod)
  ultimately show ?thesis
    using that [of ?k] lt len by simp
qed

section \<open>Round trip of the address encoding\<close>

lemma slice_log_mask: "l \<le> 64 \<Longrightarrow> unat (word_of_nat l AND (64 OR 63) :: u32) = l"
proof -
  assume l: "l \<le> 64"
  have "(word_of_nat l AND (64 OR 63) :: u32) = take_bit 7 (word_of_nat l)"
    by (simp add: take_bit_eq_mask mask_eq_exp_minus_1)
  then have "unat (word_of_nat l AND (64 OR 63) :: u32) = take_bit 7 (unat (word_of_nat l :: u32))"
    by (simp add: unsigned_take_bit_eq)
  also have "unat (word_of_nat l :: u32) = l"
    using l by (simp add: unat_of_nat)
  finally show ?thesis
    using l by (simp add: take_bit_eq_mod)
qed

definition napot_code :: "usize \<Rightarrow> nat \<Rightarrow> usize" where
  "napot_code addr k = (drop_bit 2 addr AND NOT (mask (k - 2))) OR mask (k - 3)"

lemma drop_bit_mask: "k \<le> 64 \<Longrightarrow> drop_bit 1 (mask k :: usize) = mask (k - 1)"
  by (rule bit_word_eqI) (auto simp: bit_simps)

lemma encode_napot_eq:
  "3 \<le> k \<Longrightarrow> k < 64 \<Longrightarrow> encode_napot addr k = Ret (napot_code addr k)"
  using drop_bit_mask [of "k - 2"] one_bit_minus_1 [of "k - 2", where 'a = 64]
  by (auto simp: encode_napot_def shl_ovf_def PMP_SHIFT_def Let_def napot_code_def one_bit_def
      diff_diff_left)

lemma bit_napot_code:
  "3 \<le> k \<Longrightarrow> k < 64 \<Longrightarrow>
     bit (napot_code addr k) i \<longleftrightarrow> (k - 2 \<le> i \<and> bit addr (i + 2)) \<or> i < k - 3"
  by (auto simp: napot_code_def bit_simps ac_simps not_less dest: bit_imp_le_length)

lemma decode_napot_code:
  assumes "3 \<le> k" and "k < 64"
  shows "decode_pmp_addr (napot_code addr k) NAPOT
    = pmp_slice_new (word_of_nat k) (addr AND NOT (mask k)) 0"
proof -
  let ?e = "napot_code addr k"
  have b: "bit ?e i \<longleftrightarrow> (k - 2 \<le> i \<and> bit addr (i + 2)) \<or> i < k - 3" for i
    by (rule bit_napot_code [OF assms])
  have "\<not> k - 2 \<le> k - 3"
    using assms(1) by linarith
  then have clear: "\<not> bit ?e (k - 3)"
    by (simp add: b)
  then have ne: "?e \<noteq> usize_MAX"
    using assms by auto
  have tz: "trailing_zeros (NOT ?e) = k - 3"
    using assms clear by (intro trailing_zeros_unique) (auto simp: bit_not_iff b)
  have "push_bit 2 (?e AND NOT (mask (k - 3))) = addr AND NOT (mask k)"
  proof (rule bit_word_eqI)
    fix n
    assume "n < LENGTH(64)"
    then show "bit (push_bit 2 (?e AND NOT (mask (k - 3)))) n = bit (addr AND NOT (mask k)) n"
    proof (cases "2 \<le> n")
      case True
      then obtain m where "n = m + 2"
        by (metis add.commute le_Suc_ex)
      with \<open>n < LENGTH(64)\<close> assms b [of m] show ?thesis
        by (auto simp: bit_simps not_less)
    next
      case False
      with assms show ?thesis
        by (auto simp: bit_simps)
    qed
  qed
  with ne tz assms show ?thesis
    by (simp add: Let_def PMP_SHIFT_def one_bit_minus_1 del: push_bit_and)
qed

lemma and_not_mask_aligned: "take_bit k addr = 0 \<Longrightarrow> addr AND NOT (mask k) = addr" for addr :: usize
proof -
  assume al: "take_bit k addr = 0"
  have low: "\<not> bit addr n" if "n < k" for n
  proof -
    have "\<not> bit (take_bit k addr) n"
      by (simp add: al)
    with that show ?thesis
      by (simp add: bit_take_bit_iff)
  qed
  show ?thesis
  proof (rule bit_word_eqI)
    fix n
    assume "n < LENGTH(64)"
    then show "bit (addr AND NOT (mask k)) n = bit addr n"
      using low [of n] by (auto simp: bit_and_iff bit_not_iff bit_mask_iff)
  qed
qed

text \<open>
  C36: for every NAPOT area that \<open>check_pmp_area_available\<close> accepts, the \<open>pmpaddr\<close> value
  that \<open>encode_pmp_addr\<close> computes (it does not panic) decodes to exactly that area: the same
  start address and a length of \<open>2 ^ log2len = len\<close> bytes.
\<close>

theorem napot_roundtrip:
  assumes "check_pmp_area_available addr len NAPOT"
  shows "\<exists>k a. 3 \<le> k \<and> k < 64 \<and> unat len = 2 ^ k \<and>
    encode_pmp_addr (pmp_slice_new (word_of_nat k) addr 0) NAPOT = Ret a \<and>
    decode_pmp_addr a NAPOT = pmp_slice_new (word_of_nat k) addr 0"
proof -
  obtain k where k: "3 \<le> k" "k < 64" "len = one_bit k" and al: "take_bit k addr = 0"
    using napot_area_log [OF assms] .
  have "encode_pmp_addr (pmp_slice_new (word_of_nat k) addr 0) NAPOT = Ret (napot_code addr k)"
    using k slice_log_mask [of k] by (simp add: pmp_slice_new_def encode_napot_eq)
  moreover have "decode_pmp_addr (napot_code addr k) NAPOT = pmp_slice_new (word_of_nat k) addr 0"
    unfolding decode_napot_code [OF k(1,2)] and_not_mask_aligned [OF al] ..
  ultimately show ?thesis
    using k by (auto simp: unat_one_bit)
qed

theorem napot_roundtrip_witness:
  "\<exists>k a. 3 \<le> k \<and> k < 64 \<and> unat (65536 :: usize) = 2 ^ k \<and>
    encode_pmp_addr (pmp_slice_new (word_of_nat k) 65536 0) NAPOT = Ret a \<and>
    decode_pmp_addr a NAPOT = pmp_slice_new (word_of_nat k) 65536 0"
proof -
  have "check_pmp_area_available 65536 65536 NAPOT"
    by simp
  from napot_roundtrip [OF this] show ?thesis .
qed

section \<open>Programming an entry protects the area\<close>

lemma bit_list_one_bit: "k < LENGTH('a) \<Longrightarrow> bit_list (one_bit k :: 'a::len word) = [k]"
proof -
  assume k: "k < LENGTH('a)"
  have "set (bit_list (one_bit k :: 'a word)) = {k}"
    using k by (auto simp: set_bit_list bit_one_bit)
  then show ?thesis
    using distinct_bit_list [of "one_bit k :: 'a word"]
    by (metis distinct_singleton empty_set list.simps(15) set_empty sorted_bit_list
        sorted_distinct_set_unique sorted1)
qed

lemma ilog2_one_bit: "k < 64 \<Longrightarrow> ilog2 (one_bit k) = Ret (word_of_nat k)"
proof -
  assume k: "k < 64"
  then have nz: "(one_bit k :: usize) \<noteq> 0"
    using unat_one_bit [of k, where 'a = 64] by force
  have "64 - leading_zeros (one_bit k :: usize) - 1 = k"
    using leading_zeros_last(1) [OF nz] k by (simp add: bit_list_one_bit)
  with nz show ?thesis
    by (simp add: ilog2_def diff_right_commute [of _ 1])
qed

lemma one_bit_neq_MAX: "3 \<le> k \<Longrightarrow> k < 64 \<Longrightarrow> one_bit k \<noteq> usize_MAX"
proof
  assume "3 \<le> k" "k < 64" "one_bit k = usize_MAX"
  then have "bit (one_bit k :: usize) 0"
    by simp
  with \<open>3 \<le> k\<close> show False
    by (simp add: bit_one_bit)
qed

lemma entry_slice_napot:
  "3 \<le> k \<Longrightarrow> k < 64 \<Longrightarrow> entry_slice addr (one_bit k) = Ret (pmp_slice_new (word_of_nat k) addr 0)"
  by (simp add: entry_slice_def ilog2_one_bit one_bit_neq_MAX)

lemma encode_pmp_addr_napot:
  "3 \<le> k \<Longrightarrow> k < 64 \<Longrightarrow>
     encode_pmp_addr (pmp_slice_new (word_of_nat k) addr 0) NAPOT = Ret (napot_code addr k)"
  using slice_log_mask [of k] by (simp add: pmp_slice_new_def encode_napot_eq)

lemma idx_mod_8: "unat (idx mod 8 :: u32) < 8" "unat (idx mod 8 :: u32) = unat idx mod 8"
  by (simp_all add: unat_mod)

lemma get_set_pmp_cfg:
  assumes "cfg_law ops" and "set_pmp_cfg ops r idx c = Ret r'"
  shows "get_pmp_cfg ops r' idx = Ret c" and "pmpaddr r' = pmpaddr r"
    and "j \<noteq> idx \<Longrightarrow> get_pmp_cfg ops r' j = get_pmp_cfg ops r j"
proof -
  have law: "into_config ops (set_pmp ops f i rng p l) k =
      (if k = i then \<lparr>range = rng, perm = p, is_locked = l\<rparr> else into_config ops f k)"
    if "i < 8" "k < 8" for f i k rng p l
    using assms(1) that unfolding cfg_law_def by blast
  show "get_pmp_cfg ops r' idx = Ret c" and "pmpaddr r' = pmpaddr r"
    using assms(2) by (auto simp: set_pmp_cfg_def get_pmp_cfg_def Let_def law idx_mod_8(1)
        split: if_splits)
  show "get_pmp_cfg ops r' j = get_pmp_cfg ops r j" if "j \<noteq> idx"
  proof -
    have "unat j \<noteq> unat idx"
      using that by (metis unsigned_word_eqI)
    then have "unat j mod 8 \<noteq> unat idx mod 8" if "j \<le> 7 \<longleftrightarrow> idx \<le> 7" "j \<le> 15" "idx \<le> 15"
      using that unfolding word_le_nat_alt
      by (cases "unat j \<le> 7") (simp_all add: mod_if [of _ 8] del: unat_eq_iff, linarith)
    moreover have "x \<le> 7 \<Longrightarrow> x \<le> 15" for x :: u32
      by (simp add: word_le_nat_alt)
    ultimately show ?thesis
      using assms(2) by (auto simp: set_pmp_cfg_def get_pmp_cfg_def Let_def law idx_mod_8
          split: if_splits)
  qed
qed

text \<open>
  Programming PMP entry \<open>idx < 16\<close> with a NAPOT configuration and an area that
  \<open>check_pmp_area_available\<close> accepts succeeds; afterwards the entry reads back the
  configuration and an address that decodes to exactly that area, and every other entry is
  unchanged.
\<close>

lemma set_pmp_entry_protects:
  assumes "cfg_law ops" and "check_pmp_area_available addr len NAPOT"
    and "idx < 16" and "range c = NAPOT"
  shows "\<exists>r' a k. set_pmp_entry ops r idx addr len c = Ret (True, r') \<and>
    get_pmp_entry ops r' idx = Ret (a, c) \<and>
    decode_pmp_addr a NAPOT = pmp_slice_new (word_of_nat k) addr 0 \<and> unat len = 2 ^ k \<and>
    (\<forall>j. j \<noteq> idx \<longrightarrow> get_pmp_entry ops r' j = get_pmp_entry ops r j)"
proof -
  obtain k where k: "3 \<le> k" "k < 64" "len = one_bit k" and al: "take_bit k addr = 0"
    using napot_area_log [OF assms(2)] .
  have idx: "idx \<le> 15"
    using assms(3) by (simp add: word_le_nat_alt word_less_nat_alt)
  let ?a = "napot_code addr k"
  let ?r1 = "r\<lparr>pmpaddr := (pmpaddr r)(unat idx := ?a)\<rparr>"
  have "\<exists>r'. set_pmp_cfg ops ?r1 idx c = Ret r'"
    using idx by (simp add: set_pmp_cfg_def Let_def)
  then obtain r' where cfg: "set_pmp_cfg ops ?r1 idx c = Ret r'" ..
  note get = get_set_pmp_cfg [OF assms(1) cfg]
  have set: "set_pmp_entry ops r idx addr len c = Ret (True, r')"
    using k idx cfg assms(4)
    by (simp add: set_pmp_entry_def entry_slice_napot encode_pmp_addr_napot write_pmp_addr_def
        del: encode_pmp_addr.simps)
  moreover have "get_pmp_entry ops r' idx = Ret (?a, c)"
    using get(1,2) idx by (simp add: get_pmp_entry_def read_pmp_addr_def)
  moreover have "decode_pmp_addr ?a NAPOT = pmp_slice_new (word_of_nat k) addr 0"
    unfolding decode_napot_code [OF k(1,2)] and_not_mask_aligned [OF al] ..
  moreover have "get_pmp_entry ops r' j = get_pmp_entry ops r j" if "j \<noteq> idx" for j
  proof -
    have "unat j \<noteq> unat idx"
      using that by (metis unsigned_word_eqI)
    moreover have "get_pmp_cfg ops ?r1 j = get_pmp_cfg ops r j"
      by (simp add: get_pmp_cfg_def Let_def)
    ultimately show ?thesis
      using get(2) get(3) [OF that] by (simp add: get_pmp_entry_def read_pmp_addr_def)
  qed
  ultimately show ?thesis
    using k by (auto simp: unat_one_bit)
qed

text \<open>A configuration register that satisfies \<open>cfg_law\<close>: one entry per index.\<close>

definition cfg_example :: "(nat \<Rightarrow> PmpConfig) cfg_ops" where
  "cfg_example =
     \<lparr>set_pmp = (\<lambda>f i rng p l. f(i := \<lparr>range = rng, perm = p, is_locked = l\<rparr>)),
      into_config = (\<lambda>f i. f i)\<rparr>"

lemma cfg_law_example: "cfg_law cfg_example"
  by (simp add: cfg_law_def cfg_example_def)

declare encode_pmp_addr.simps [simp del] decode_pmp_addr.simps [simp del]

end
