(* ===== verification/Sec_Mem_Protector.thy ===== *)
theory Sec_Mem_Protector
  imports Pmp_Slots Pmp_Entry
begin

text \<open>
  The hardware protectors of \<open>library/smm/src/protector.rs\<close>: \<open>TestSecMemProtector\<close>, which
  the secure memory manager is built on, and \<open>SecMemProtectorByPMP\<close>, which programs PMP
  entries. What the manager relies on of the slot bookkeeping is the locale \<open>slot_pool\<close>;
  both protectors are interpretations of it.
\<close>

section \<open>The protectors\<close>

record TestSecMemProtector =
  hw_manager :: PMPSlotAllocator

definition test_protector_new :: "u64 \<Rightarrow> u64 \<Rightarrow> TestSecMemProtector" where
  "test_protector_new am mm = \<lparr>hw_manager = slot_new am mm\<rparr>"

definition test_is_protectable :: "TestSecMemProtector \<Rightarrow> usize \<Rightarrow> usize \<Rightarrow> bool" where
  "test_is_protectable p addr len = check_pmp_area_available addr len NAPOT"

definition test_alloc :: "TestSecMemProtector \<Rightarrow> u32 option \<times> TestSecMemProtector" where
  "test_alloc p =
     (case slot_alloc (hw_manager p) of
        (Inr slot, m) \<Rightarrow> (Some slot, p\<lparr>hw_manager := m\<rparr>)
      | (Inl _, m) \<Rightarrow> (None, p\<lparr>hw_manager := m\<rparr>))"

definition test_free :: "TestSecMemProtector \<Rightarrow> u32 \<Rightarrow> bool \<times> TestSecMemProtector" where
  "test_free p hwid =
     (case slot_free (hw_manager p) hwid of
        (Inr _, m) \<Rightarrow> (True, p\<lparr>hw_manager := m\<rparr>)
      | (Inl _, m) \<Rightarrow> (False, p\<lparr>hw_manager := m\<rparr>))"

definition test_disable :: "TestSecMemProtector \<Rightarrow> u32 \<Rightarrow> bool" where
  "test_disable p hwid = True"

definition test_enable :: "TestSecMemProtector \<Rightarrow> u32 \<Rightarrow> bool" where
  "test_enable p hwid = True"

definition test_grant_access :: "TestSecMemProtector \<Rightarrow> usize \<Rightarrow> usize \<Rightarrow> u32 \<Rightarrow> bool" where
  "test_grant_access p addr len hwid = True"

definition test_grant_access_all :: "TestSecMemProtector \<Rightarrow> usize \<Rightarrow> usize \<Rightarrow> u32 \<Rightarrow> bool" where
  "test_grant_access_all p addr len hwid = True"

definition test_retrive_access :: "TestSecMemProtector \<Rightarrow> usize \<Rightarrow> usize \<Rightarrow> u32 \<Rightarrow> bool" where
  "test_retrive_access p addr len hwid = True"

definition test_retrive_access_all :: "TestSecMemProtector \<Rightarrow> usize \<Rightarrow> usize \<Rightarrow> u32 \<Rightarrow> bool" where
  "test_retrive_access_all p addr len hwid = True"

lemmas test_protector_defs =
  test_is_protectable_def test_disable_def test_enable_def test_grant_access_def
  test_grant_access_all_def test_retrive_access_def test_retrive_access_all_def

text \<open>
  \<open>SecMemProtectorByPMP\<close> is the slot allocator itself; its access operations write the PMP
  registers of the hart.
\<close>

definition pmp_is_protectable :: "PMPSlotAllocator \<Rightarrow> usize \<Rightarrow> usize \<Rightarrow> bool" where
  "pmp_is_protectable p addr len = check_pmp_area_available addr len NAPOT"

definition pmp_alloc :: "PMPSlotAllocator \<Rightarrow> u32 option \<times> PMPSlotAllocator" where
  "pmp_alloc p =
     (case slot_alloc p of (Inr slot, p) \<Rightarrow> (Some slot, p) | (Inl _, p) \<Rightarrow> (None, p))"

definition pmp_free :: "PMPSlotAllocator \<Rightarrow> u32 \<Rightarrow> bool \<times> PMPSlotAllocator" where
  "pmp_free p hwid =
     (case slot_free p hwid of (Inr _, p) \<Rightarrow> (True, p) | (Inl _, p) \<Rightarrow> (False, p))"

definition managed_entry ::
    "'c cfg_ops \<Rightarrow> PMPSlotAllocator \<Rightarrow> 'c pmp_csrs \<Rightarrow> u32 \<Rightarrow> usize \<Rightarrow> usize \<Rightarrow> PmpConfig \<Rightarrow>
     (bool \<times> 'c pmp_csrs) outcome" where
  "managed_entry ops p r hwid addr len c =
     obind (is_managed p hwid) (\<lambda>m.
       if m then set_pmp_entry ops r hwid addr len c else Ret (False, r))"

definition managed_entry_sync ::
    "'c cfg_ops \<Rightarrow> PMPSlotAllocator \<Rightarrow> 'c pmp_csrs \<Rightarrow> u32 \<Rightarrow> usize \<Rightarrow> usize \<Rightarrow> PmpConfig \<Rightarrow>
     (bool \<times> 'c pmp_csrs) outcome" where
  "managed_entry_sync ops p r hwid addr len c =
     obind (is_managed p hwid) (\<lambda>m.
       if m then set_pmp_entry_sync ops r hwid addr len c else Ret (False, r))"

definition pmp_disable ::
    "'c cfg_ops \<Rightarrow> PMPSlotAllocator \<Rightarrow> 'c pmp_csrs \<Rightarrow> u32 \<Rightarrow> (bool \<times> 'c pmp_csrs) outcome" where
  "pmp_disable ops p r hwid =
     managed_entry_sync ops p r hwid 0 0 \<lparr>range = OFF, perm = NONE, is_locked = False\<rparr>"

definition pmp_enable ::
    "'c cfg_ops \<Rightarrow> PMPSlotAllocator \<Rightarrow> 'c pmp_csrs \<Rightarrow> u32 \<Rightarrow> (bool \<times> 'c pmp_csrs) outcome" where
  "pmp_enable ops p r hwid =
     managed_entry_sync ops p r hwid 0 0 \<lparr>range = NAPOT, perm = RWX, is_locked = False\<rparr>"

definition pmp_grant_access ::
    "'c cfg_ops \<Rightarrow> PMPSlotAllocator \<Rightarrow> 'c pmp_csrs \<Rightarrow> usize \<Rightarrow> usize \<Rightarrow> u32 \<Rightarrow>
     (bool \<times> 'c pmp_csrs) outcome" where
  "pmp_grant_access ops p r addr len hwid =
     managed_entry ops p r hwid addr len \<lparr>range = NAPOT, perm = RWX, is_locked = False\<rparr>"

definition pmp_retrive_access ::
    "'c cfg_ops \<Rightarrow> PMPSlotAllocator \<Rightarrow> 'c pmp_csrs \<Rightarrow> usize \<Rightarrow> usize \<Rightarrow> u32 \<Rightarrow>
     (bool \<times> 'c pmp_csrs) outcome" where
  "pmp_retrive_access ops p r addr len hwid =
     managed_entry ops p r hwid addr len \<lparr>range = NAPOT, perm = NONE, is_locked = False\<rparr>"

definition pmp_grant_access_all ::
    "'c cfg_ops \<Rightarrow> PMPSlotAllocator \<Rightarrow> 'c pmp_csrs \<Rightarrow> usize \<Rightarrow> usize \<Rightarrow> u32 \<Rightarrow>
     (bool \<times> 'c pmp_csrs) outcome" where
  "pmp_grant_access_all ops p r addr len hwid =
     managed_entry_sync ops p r hwid addr len \<lparr>range = NAPOT, perm = RWX, is_locked = False\<rparr>"

definition pmp_retrive_access_all ::
    "'c cfg_ops \<Rightarrow> PMPSlotAllocator \<Rightarrow> 'c pmp_csrs \<Rightarrow> usize \<Rightarrow> usize \<Rightarrow> u32 \<Rightarrow>
     (bool \<times> 'c pmp_csrs) outcome" where
  "pmp_retrive_access_all ops p r addr len hwid =
     managed_entry_sync ops p r hwid addr len \<lparr>range = NAPOT, perm = NONE, is_locked = False\<rparr>"

section \<open>Slot pools\<close>

text \<open>The slots \<open>hs\<close> are held by distinct holders, and they are exactly the set \<open>H\<close>.\<close>

definition slots_held :: "nat set \<Rightarrow> u32 list \<Rightarrow> bool" where
  "slots_held H hs \<longleftrightarrow> distinct hs \<and> unat ` set hs = H"

lemma unat_image_remove:
  "distinct (h # hs) \<Longrightarrow> unat ` set hs = unat ` set (h # hs) - {unat h}" for h :: "'a::len word"
  by auto

locale slot_pool =
  fixes ok :: "'p \<Rightarrow> bool" and held :: "'p \<Rightarrow> nat set" and pool :: "'p \<Rightarrow> nat set"
    and p_alloc :: "'p \<Rightarrow> u32 option \<times> 'p" and p_free :: "'p \<Rightarrow> u32 \<Rightarrow> bool \<times> 'p"
  assumes held_pool: "ok p \<Longrightarrow> held p \<subseteq> pool p"
    and alloc_Some: "ok p \<Longrightarrow> p_alloc p = (Some h, p') \<Longrightarrow>
      ok p' \<and> unat h \<in> pool p - held p \<and> held p' = insert (unat h) (held p) \<and> pool p' = pool p"
    and alloc_None: "ok p \<Longrightarrow> p_alloc p = (None, p') \<Longrightarrow> p' = p \<and> held p = pool p"
    and free_held: "ok p \<Longrightarrow> unat h \<in> held p \<Longrightarrow>
      \<exists>p'. p_free p h = (True, p') \<and> ok p' \<and> held p' = held p - {unat h} \<and> pool p' = pool p"
begin

lemma alloc_keeps_held:
  assumes "ok p" and "slots_held (held p) hs" and "p_alloc p = (Some h, p')"
  shows "ok p'" and "slots_held (held p') (hs @ [h])" and "pool p' = pool p" and "unat h \<in> pool p"
  using alloc_Some [OF assms(1,3)] assms(2) by (auto simp: slots_held_def)

lemma free_keeps_held:
  assumes "ok p" and "slots_held (held p) gs" and "distinct hs" and "set gs = insert h (set hs)"
    and "h \<notin> set hs"
  obtains p' where "p_free p h = (True, p')" and "ok p'" and "slots_held (held p') hs"
    and "pool p' = pool p"
proof -
  have "unat h \<in> held p"
    using assms(2,4) by (auto simp: slots_held_def)
  from free_held [OF assms(1) this] obtain p' where p': "p_free p h = (True, p')" "ok p'"
    "held p' = held p - {unat h}" "pool p' = pool p"
    by blast
  moreover have "unat ` set hs = held p - {unat h}"
    using unat_image_remove [of h hs] assms(2-5) by (auto simp: slots_held_def)
  ultimately show ?thesis
    using that [of p'] assms(3) by (simp add: slots_held_def)
qed

lemma holders_bound:
  assumes "ok p" and "finite (pool p)" and "slots_held (held p) hs"
  shows "length hs \<le> card (pool p)"
proof -
  have "inj_on unat (set hs)"
    by (auto intro!: inj_onI unsigned_word_eqI)
  then have "length hs = card (held p)"
    using assms(3) by (metis card_image distinct_card slots_held_def)
  with card_mono [OF assms(2) held_pool [OF assms(1)]] show ?thesis
    by simp
qed

end

definition pool_ok :: "PMPSlotAllocator \<Rightarrow> bool" where
  "pool_ok a \<longleftrightarrow> slot_inv a \<and> allocatable a \<subseteq> {..<16}"

interpretation pmp_pool: slot_pool pool_ok slots_of allocatable pmp_alloc pmp_free
proof
  fix p p' :: PMPSlotAllocator and h :: u32
  assume ok: "pool_ok p"
  then have inv: "slot_inv p" and small: "allocatable p \<subseteq> {..<16}"
    by (simp_all add: pool_ok_def)
  show "slots_of p \<subseteq> allocatable p"
    using inv by (simp add: slot_inv_iff)
  show "pool_ok p' \<and> unat h \<in> allocatable p - slots_of p \<and>
      slots_of p' = insert (unat h) (slots_of p) \<and> allocatable p' = allocatable p"
    if "pmp_alloc p = (Some h, p')"
  proof -
    have a: "slot_alloc p = (Inr h, p')"
      using that by (auto simp: pmp_alloc_def split: prod.splits sum.splits)
    show ?thesis
      using slot_alloc_Ok(1,2) [OF a] slot_inv_alloc [OF inv small a] small
      by (simp add: pool_ok_def)
  qed
  show "p' = p \<and> slots_of p = allocatable p" if "pmp_alloc p = (None, p')"
  proof -
    have "\<exists>e. slot_alloc p = (Inl e, p')"
      using that by (auto simp: pmp_alloc_def split: prod.splits sum.splits)
    then obtain e where a: "slot_alloc p = (Inl e, p')" ..
    show ?thesis
      using slot_alloc_Err(2,3) [OF a] inv by (auto simp: slot_inv_iff)
  qed
  show "\<exists>p'. pmp_free p h = (True, p') \<and> pool_ok p' \<and> slots_of p' = slots_of p - {unat h} \<and>
      allocatable p' = allocatable p" if "unat h \<in> slots_of p"
  proof -
    from slot_free_of_owned [OF inv that] obtain a' where
      a': "slot_free p h = (Inr (), a')" "slots_of a' = slots_of p - {unat h}"
      by blast
    with slot_inv_free [OF inv a'(1)] small show ?thesis
      by (simp add: pmp_free_def pool_ok_def)
  qed
qed

lemma test_alloc_pmp:
  "test_alloc p = (case pmp_alloc (hw_manager p) of (r, m) \<Rightarrow> (r, p\<lparr>hw_manager := m\<rparr>))"
  by (auto simp: test_alloc_def pmp_alloc_def split: prod.splits sum.splits)

lemma test_free_pmp:
  "test_free p h = (case pmp_free (hw_manager p) h of (r, m) \<Rightarrow> (r, p\<lparr>hw_manager := m\<rparr>))"
  by (auto simp: test_free_def pmp_free_def split: prod.splits sum.splits)

interpretation test_pool: slot_pool "\<lambda>p. pool_ok (hw_manager p)" "\<lambda>p. slots_of (hw_manager p)"
  "\<lambda>p. allocatable (hw_manager p)" test_alloc test_free
proof
  fix p p' :: TestSecMemProtector and h :: u32
  assume ok: "pool_ok (hw_manager p)"
  show "slots_of (hw_manager p) \<subseteq> allocatable (hw_manager p)"
    by (rule pmp_pool.held_pool [OF ok])
  show "pool_ok (hw_manager p') \<and>
      unat h \<in> allocatable (hw_manager p) - slots_of (hw_manager p) \<and>
      slots_of (hw_manager p') = insert (unat h) (slots_of (hw_manager p)) \<and>
      allocatable (hw_manager p') = allocatable (hw_manager p)"
    if "test_alloc p = (Some h, p')"
    using that pmp_pool.alloc_Some [OF ok, of h]
    by (auto simp: test_alloc_pmp split: prod.splits)
  show "p' = p \<and> slots_of (hw_manager p) = allocatable (hw_manager p)"
    if "test_alloc p = (None, p')"
    using that pmp_pool.alloc_None [OF ok]
    by (auto simp: test_alloc_pmp split: prod.splits)
  show "\<exists>p'. test_free p h = (True, p') \<and> pool_ok (hw_manager p') \<and>
      slots_of (hw_manager p') = slots_of (hw_manager p) - {unat h} \<and>
      allocatable (hw_manager p') = allocatable (hw_manager p)"
    if "unat h \<in> slots_of (hw_manager p)"
    using pmp_pool.free_held [OF ok that] by (auto simp: test_free_pmp)
qed

section \<open>Access operations of the PMP protector\<close>

lemma managed_entry_Ret:
  "is_managed p hwid = Ret True \<Longrightarrow>
     managed_entry ops p r hwid addr len c = set_pmp_entry ops r hwid addr len c"
  "is_managed p hwid = Ret True \<Longrightarrow>
     managed_entry_sync ops p r hwid addr len c = set_pmp_entry ops r hwid addr len c"
  by (simp_all add: managed_entry_def managed_entry_sync_def set_pmp_entry_sync_def)

text \<open>
  The entry \<open>hwid\<close> of \<open>r\<close> holds configuration \<open>c\<close> on the area of \<open>len\<close> bytes at
  \<open>addr\<close>, and every other entry is the one of \<open>r0\<close>.
\<close>

definition entry_covers ::
    "'c cfg_ops \<Rightarrow> 'c pmp_csrs \<Rightarrow> 'c pmp_csrs \<Rightarrow> u32 \<Rightarrow> usize \<Rightarrow> usize \<Rightarrow> PmpConfig \<Rightarrow> bool" where
  "entry_covers ops r0 r hwid addr len c \<longleftrightarrow>
     (\<exists>a k. get_pmp_entry ops r hwid = Ret (a, c) \<and> unat len = 2 ^ k \<and>
        decode_pmp_addr a NAPOT = pmp_slice_new (word_of_nat k) addr 0) \<and>
     (\<forall>j. j \<noteq> hwid \<longrightarrow> get_pmp_entry ops r j = get_pmp_entry ops r0 j)"

lemma managed_entry_covers:
  assumes "cfg_law ops" and "is_managed p hwid = Ret True" and "hwid < 16"
    and "pmp_is_protectable p addr len" and "range c = NAPOT"
  shows "\<exists>r'. managed_entry ops p r hwid addr len c = Ret (True, r') \<and>
      managed_entry_sync ops p r hwid addr len c = Ret (True, r') \<and>
      entry_covers ops r r' hwid addr len c"
  using set_pmp_entry_protects [OF assms(1) assms(4) [unfolded pmp_is_protectable_def] assms(3,5), of r]
  by (auto simp: managed_entry_Ret [OF assms(2)] entry_covers_def)

text \<open>
  For a managed slot and a protectable area, granting access (on this hart or on all) and
  then retrieving it both succeed; the slot's PMP entry first opens exactly the area with RWX
  and then closes exactly the area, and no other entry is touched by either call.
\<close>

theorem pmp_access_correct:
  assumes "cfg_law ops" and "is_managed p hwid = Ret True" and "hwid < 16"
    and "pmp_is_protectable p addr len"
  shows "\<exists>r1 r2.
      pmp_grant_access ops p r addr len hwid = Ret (True, r1) \<and>
      pmp_grant_access_all ops p r addr len hwid = Ret (True, r1) \<and>
      entry_covers ops r r1 hwid addr len \<lparr>range = NAPOT, perm = RWX, is_locked = False\<rparr> \<and>
      pmp_retrive_access ops p r1 addr len hwid = Ret (True, r2) \<and>
      pmp_retrive_access_all ops p r1 addr len hwid = Ret (True, r2) \<and>
      entry_covers ops r r2 hwid addr len \<lparr>range = NAPOT, perm = NONE, is_locked = False\<rparr>"
proof -
  let ?g = "\<lparr>range = NAPOT, perm = RWX, is_locked = False\<rparr>"
  let ?n = "\<lparr>range = NAPOT, perm = NONE, is_locked = False\<rparr>"
  obtain r1 where r1: "managed_entry ops p r hwid addr len ?g = Ret (True, r1)"
      "managed_entry_sync ops p r hwid addr len ?g = Ret (True, r1)"
      "entry_covers ops r r1 hwid addr len ?g"
    using managed_entry_covers [OF assms, of ?g r] by auto
  obtain r2 where r2: "managed_entry ops p r1 hwid addr len ?n = Ret (True, r2)"
      "managed_entry_sync ops p r1 hwid addr len ?n = Ret (True, r2)"
      "entry_covers ops r1 r2 hwid addr len ?n"
    using managed_entry_covers [OF assms, of ?n r1] by auto
  have "entry_covers ops r r2 hwid addr len ?n"
    using r1(3) r2(3) by (auto simp: entry_covers_def)
  with r1 r2(1,2) show ?thesis
    by (auto simp: pmp_grant_access_def pmp_grant_access_all_def pmp_retrive_access_def
        pmp_retrive_access_all_def)
qed

definition csrs_example :: "(nat \<Rightarrow> PmpConfig) pmp_csrs" where
  "csrs_example =
     \<lparr>pmpaddr = (\<lambda>_. 0), pmpcfg0 = (\<lambda>_. \<lparr>range = OFF, perm = NONE, is_locked = False\<rparr>),
      pmpcfg2 = (\<lambda>_. \<lparr>range = OFF, perm = NONE, is_locked = False\<rparr>)\<rparr>"

lemma is_managed_example: "is_managed (slot_new 512 512) 9 = Ret True"
  by (simp add: is_managed_def slot_new_def shl_ovf_def)

theorem pmp_access_correct_witness:
  "\<exists>r1 r2.
      pmp_grant_access cfg_example (slot_new 512 512) csrs_example 65536 65536 9 = Ret (True, r1) \<and>
      pmp_retrive_access cfg_example (slot_new 512 512) r1 65536 65536 9 = Ret (True, r2)"
  using pmp_access_correct [OF cfg_law_example is_managed_example, of 65536 65536 csrs_example]
  by (auto simp: pmp_is_protectable_def)

text \<open>
  \<open>disable\<close> and \<open>enable\<close> of \<open>SecMemProtectorByPMP\<close> never return for a slot the
  protector manages: they program an area of length 0, whose \<open>ilog2\<close> panics.
\<close>

theorem pmp_disable_enable_panic:
  assumes "is_managed p hwid = Ret True"
  shows "pmp_disable ops p r hwid = Panic \<and> pmp_enable ops p r hwid = Panic"
  using assms by (simp add: pmp_disable_def pmp_enable_def managed_entry_Ret
      set_pmp_entry_def entry_slice_def ilog2_def)

theorem pmp_disable_enable_panic_witness:
  "pmp_disable cfg_example (slot_new 512 512) csrs_example 9 = Panic"
  using pmp_disable_enable_panic [OF is_managed_example] by blast

end
