(* ===== verification/Sec_Mem_Alloc.thy ===== *)
theory Sec_Mem_Alloc
  imports Pmp_Entry
begin

text \<open>
  The enclave memory allocators of \<open>library/smm/src/allocators.rs\<close> behind the trait
  \<open>SecMemAllocator\<close> of \<open>library/smm/src/lib.rs\<close>. The trait is a record of its methods;
  \<open>NoneAlloc\<close> takes the trait's default methods, \<open>RTAlloc\<close> hands out its whole region at
  once, and \<open>AppAlloc\<close> forwards to the heap of the \<open>buddy_system_allocator\<close> crate, which is
  the parameter \<open>heap_ops\<close>.

  The contract of an allocator that is asked for everything it has is the locale
  \<open>exclusive_allocator\<close>; one that can be asked for parts of its region is a
  \<open>shared_allocator\<close>, which is the stronger contract.
\<close>

section \<open>Layouts and rounding\<close>

record layout =
  lay_size :: usize
  lay_align :: usize

text \<open>\<open>Layout::from_size_align\<close>: the padded size must not exceed \<open>isize::MAX\<close>.\<close>

definition from_size_align :: "usize \<Rightarrow> usize \<Rightarrow> layout option" where
  "from_size_align sz align =
     (if align \<noteq> 0 \<and> align AND (align - 1) = 0 \<and> sz \<le> one_bit 63 - align
      then Some \<lparr>lay_size = sz, lay_align = align\<rparr> else None)"

definition next_power_of_two :: "usize \<Rightarrow> usize outcome" where
  "next_power_of_two n =
     (if n \<le> 1 then Ret 1
      else shl_ovf 1 (usize_BITS - leading_zeros (n - 1)))"

section \<open>The trait and its implementations\<close>

record 's sec_mem_allocator =
  a_new :: 's
  a_init :: "'s \<Rightarrow> usize \<Rightarrow> usize \<Rightarrow> 's outcome"
  a_alloc :: "'s \<Rightarrow> layout \<Rightarrow> usize option \<times> 's"
  a_free :: "'s \<Rightarrow> usize \<Rightarrow> layout \<Rightarrow> 's outcome"
  a_available :: "'s \<Rightarrow> usize outcome"
  a_total :: "'s \<Rightarrow> usize"

definition none_alloc :: "unit sec_mem_allocator" where
  "none_alloc =
     \<lparr>a_new = (), a_init = (\<lambda>s addr len. Ret s), a_alloc = (\<lambda>s l. (None, s)),
      a_free = (\<lambda>s ptr l. Ret s), a_available = (\<lambda>s. Ret 0), a_total = (\<lambda>s. 0)\<rparr>"

record RTAlloc =
  rt_addr :: usize
  rt_len :: usize
  rt_total :: usize

definition rt_new :: RTAlloc where
  "rt_new = \<lparr>rt_addr = 0, rt_len = 0, rt_total = 0\<rparr>"

definition rt_init :: "RTAlloc \<Rightarrow> usize \<Rightarrow> usize \<Rightarrow> RTAlloc" where
  "rt_init s addr len = s\<lparr>rt_addr := addr, rt_len := len, rt_total := len\<rparr>"

definition rt_alloc :: "RTAlloc \<Rightarrow> layout \<Rightarrow> usize option \<times> RTAlloc" where
  "rt_alloc s l =
     (if rt_len s < lay_size l then (None, s)
      else (if rt_addr s = 0 then None else Some (rt_addr s), s\<lparr>rt_len := 0\<rparr>))"

definition rt_free :: "RTAlloc \<Rightarrow> usize \<Rightarrow> layout \<Rightarrow> RTAlloc outcome" where
  "rt_free s ptr l = (if ptr \<noteq> rt_addr s then Panic else Ret (s\<lparr>rt_len := lay_size l\<rparr>))"

definition rt_ops :: "RTAlloc sec_mem_allocator" where
  "rt_ops =
     \<lparr>a_new = rt_new, a_init = (\<lambda>s addr len. Ret (rt_init s addr len)), a_alloc = rt_alloc, a_free = rt_free,
      a_available = (\<lambda>s. Ret (rt_len s)), a_total = rt_total\<rparr>"

record 'h heap_ops =
  heap_new :: 'h
  heap_init :: "'h \<Rightarrow> usize \<Rightarrow> usize \<Rightarrow> 'h outcome"
  heap_alloc :: "'h \<Rightarrow> layout \<Rightarrow> usize option \<times> 'h"
  heap_dealloc :: "'h \<Rightarrow> usize \<Rightarrow> layout \<Rightarrow> 'h"
  stats_total_bytes :: "'h \<Rightarrow> usize"
  stats_alloc_actual :: "'h \<Rightarrow> usize"

definition app_available :: "'h heap_ops \<Rightarrow> 'h \<Rightarrow> usize outcome" where
  "app_available H s = sub_ovf (stats_total_bytes H s) (stats_alloc_actual H s)"

definition app_ops :: "'h heap_ops \<Rightarrow> 'h sec_mem_allocator" where
  "app_ops H =
     \<lparr>a_new = heap_new H, a_init = heap_init H, a_alloc = heap_alloc H,
      a_free = (\<lambda>s ptr l. Ret (heap_dealloc H s ptr l)),
      a_available = app_available H, a_total = stats_total_bytes H\<rparr>"

section \<open>Blocks\<close>

text \<open>A block or an area is a start address and a length; it may end at the top of memory.\<close>

type_synonym block = "usize \<times> usize"

definition span :: "block \<Rightarrow> nat set" where
  "span b = {unat (fst b) ..< unat (fst b) + unat (snd b)}"

definition fits :: "block \<Rightarrow> bool" where
  "fits b \<longleftrightarrow> unat (fst b) + unat (snd b) \<le> 2 ^ usize_BITS"

text \<open>
  An area that a heap can be made of: whole words, not at address 0, and not up to the very top, where
  the end of the area is not an address.
\<close>

definition heap_area :: "block \<Rightarrow> bool" where
  "heap_area b \<longleftrightarrow> fst b \<noteq> 0 \<and> snd b \<noteq> 0 \<and> 8 dvd unat (fst b) \<and> 8 dvd unat (snd b) \<and>
     unat (fst b) + unat (snd b) < 2 ^ usize_BITS"

definition blocks_ok :: "block \<Rightarrow> block set \<Rightarrow> bool" where
  "blocks_ok ar bs \<longleftrightarrow>
     (\<forall>b\<in>bs. fst b \<noteq> 0 \<and> snd b \<noteq> 0 \<and> span b \<subseteq> span ar) \<and>
     (\<forall>b\<in>bs. \<forall>c\<in>bs. b \<noteq> c \<longrightarrow> span b \<inter> span c = {})"

lemma blocks_ok_empty [simp]: "blocks_ok ar {}"
  by (simp add: blocks_ok_def)

lemma blocks_okD:
  assumes "blocks_ok ar bs" and "b \<in> bs"
  shows "fst b \<noteq> 0" and "snd b \<noteq> 0" and "span b \<subseteq> span ar"
    and "c \<in> bs \<Longrightarrow> b \<noteq> c \<Longrightarrow> span b \<inter> span c = {}"
  using assms by (auto simp: blocks_ok_def)

lemma span_nonempty: "snd b \<noteq> 0 \<Longrightarrow> unat (fst b) \<in> span b"
  by (simp add: span_def unat_gt_0)

lemma span_subset_iff:
  "snd b \<noteq> 0 \<Longrightarrow> span b \<subseteq> span c \<longleftrightarrow>
     unat (fst c) \<le> unat (fst b) \<and> unat (fst b) + unat (snd b) \<le> unat (fst c) + unat (snd c)"
  by (simp add: span_def unsigned_eq_0_iff)

section \<open>The contracts\<close>

text \<open>
  \<open>serves ar s\<close>: the allocator state \<open>s\<close> serves the area \<open>ar\<close>; \<open>blocks s\<close> are the blocks
  it has handed out, each with the size of the layout it was requested with.
\<close>

locale exclusive_allocator =
  fixes ops :: "'s sec_mem_allocator"
    and serves :: "block \<Rightarrow> 's \<Rightarrow> bool" and blocks :: "'s \<Rightarrow> block set"
  assumes init_inv: "len \<noteq> 0 \<Longrightarrow> fits (addr, len) \<Longrightarrow> a_init ops (a_new ops) addr len = Ret s \<Longrightarrow>
      serves (addr, len) s \<and> blocks s = {}"
    and init_Ret: "heap_area (addr, len) \<Longrightarrow> \<exists>s. a_init ops (a_new ops) addr len = Ret s"
    and inv_blocks: "serves ar s \<Longrightarrow> blocks_ok ar (blocks s)"
    and available_Ret: "serves ar s \<Longrightarrow> \<exists>n. a_available ops s = Ret n"
    and full_empty: "serves ar s \<Longrightarrow> a_available ops s = Ret (a_total ops s) \<Longrightarrow> blocks s = {}"
    and alloc_whole: "serves ar s \<Longrightarrow> a_available ops s = Ret n \<Longrightarrow> n \<noteq> 0 \<Longrightarrow>
      a_alloc ops s \<lparr>lay_size = n, lay_align = n\<rparr> = (Some p, s') \<Longrightarrow>
      serves ar s' \<and> (p, n) \<notin> blocks s \<and> blocks s' = insert (p, n) (blocks s)"
    and alloc_None: "serves ar s \<Longrightarrow> a_available ops s = Ret n \<Longrightarrow> m \<le> n \<Longrightarrow>
      a_alloc ops s \<lparr>lay_size = m, lay_align = m\<rparr> = (None, s') \<Longrightarrow> serves ar s' \<and> blocks s' = blocks s"
    and free_block: "serves ar s \<Longrightarrow> (p, n) \<in> blocks s \<Longrightarrow>
      \<exists>s'. a_free ops s p \<lparr>lay_size = n, lay_align = n\<rparr> = Ret s' \<and> serves ar s' \<and>
        blocks s' = blocks s - {(p, n)} \<and>
        (blocks s' = {} \<longrightarrow> a_available ops s' = Ret (a_total ops s'))"

locale shared_allocator = exclusive_allocator +
  assumes alloc_part: "serves ar s \<Longrightarrow> a_available ops s = Ret n \<Longrightarrow> m \<noteq> 0 \<Longrightarrow> m \<le> n \<Longrightarrow>
      a_alloc ops s \<lparr>lay_size = m, lay_align = m\<rparr> = (Some p, s') \<Longrightarrow>
      serves ar s' \<and> (p, m) \<notin> blocks s \<and> blocks s' = insert (p, m) (blocks s)"

section \<open>The implementations meet them\<close>

definition rt_inv :: "block \<Rightarrow> RTAlloc \<Rightarrow> bool" where
  "rt_inv ar s \<longleftrightarrow> ar = (rt_addr s, rt_total s) \<and> rt_total s \<noteq> 0 \<and>
     (rt_len s = 0 \<or> rt_len s = rt_total s)"

definition rt_blocks :: "RTAlloc \<Rightarrow> block set" where
  "rt_blocks s =
     (if rt_len s = 0 \<and> rt_addr s \<noteq> 0 \<and> rt_total s \<noteq> 0 then {(rt_addr s, rt_total s)} else {})"

lemmas rt_defs = rt_ops_def rt_new_def rt_init_def rt_alloc_def rt_free_def rt_inv_def rt_blocks_def

interpretation rt: exclusive_allocator rt_ops rt_inv rt_blocks
  by unfold_locales (auto simp: rt_defs blocks_ok_def split: if_splits)

text \<open>\<open>NoneAlloc\<close> never hands out a block.\<close>

interpretation none: shared_allocator none_alloc "\<lambda>_ _. True" "\<lambda>_. {}"
  by unfold_locales (auto simp: none_alloc_def)

text \<open>
  What \<open>AppAlloc\<close> relies on of the buddy heap: it can be made of every area of whole words that
  neither starts at 0 nor ends at the top of the address space, and serves the area it was made
  of (elsewhere making it may panic); a heap that serves an area counts no more
  bytes as allocated than it has, counts none exactly when no block is out, hands out blocks
  inside the area that are disjoint from the ones in use, and takes back a block that is
  returned with the layout it was requested with.
\<close>

definition heap_law :: "'h heap_ops \<Rightarrow> (block \<Rightarrow> 'h \<Rightarrow> bool) \<Rightarrow> ('h \<Rightarrow> block set) \<Rightarrow> bool" where
  "heap_law H serves blocks \<longleftrightarrow>
     (\<forall>addr len. heap_area (addr, len) \<longrightarrow> (\<exists>h. heap_init H (heap_new H) addr len = Ret h)) \<and>
     (\<forall>addr len h. len \<noteq> 0 \<longrightarrow> fits (addr, len) \<longrightarrow> heap_init H (heap_new H) addr len = Ret h \<longrightarrow>
        serves (addr, len) h \<and> blocks h = {}) \<and>
     (\<forall>ar h. serves ar h \<longrightarrow> blocks_ok ar (blocks h) \<and>
        stats_alloc_actual H h \<le> stats_total_bytes H h \<and>
        (stats_alloc_actual H h = 0 \<longleftrightarrow> blocks h = {})) \<and>
     (\<forall>ar h m p h'. serves ar h \<longrightarrow> m \<noteq> 0 \<longrightarrow>
        heap_alloc H h \<lparr>lay_size = m, lay_align = m\<rparr> = (Some p, h') \<longrightarrow>
        serves ar h' \<and> (p, m) \<notin> blocks h \<and> blocks h' = insert (p, m) (blocks h)) \<and>
     (\<forall>ar h l h'. serves ar h \<longrightarrow> heap_alloc H h l = (None, h') \<longrightarrow> h' = h) \<and>
     (\<forall>ar h p m. serves ar h \<longrightarrow> (p, m) \<in> blocks h \<longrightarrow>
        serves ar (heap_dealloc H h p \<lparr>lay_size = m, lay_align = m\<rparr>) \<and>
        blocks (heap_dealloc H h p \<lparr>lay_size = m, lay_align = m\<rparr>) = blocks h - {(p, m)})"

lemma app_available_Ret:
  "stats_alloc_actual H h \<le> stats_total_bytes H h \<Longrightarrow>
     app_available H h = Ret (stats_total_bytes H h - stats_alloc_actual H h)"
  by (simp add: app_available_def sub_ovf_def)

lemma heap_lawD:
  assumes "heap_law H serves blocks"
  shows "len \<noteq> 0 \<Longrightarrow> fits (addr, len) \<Longrightarrow> heap_init H (heap_new H) addr len = Ret h \<Longrightarrow>
      serves (addr, len) h \<and> blocks h = {}"
    and "serves ar h \<Longrightarrow> blocks_ok ar (blocks h) \<and>
      stats_alloc_actual H h \<le> stats_total_bytes H h \<and>
      (stats_alloc_actual H h = 0 \<longleftrightarrow> blocks h = {})"
    and "serves ar h \<Longrightarrow> m \<noteq> 0 \<Longrightarrow>
      heap_alloc H h \<lparr>lay_size = m, lay_align = m\<rparr> = (Some p, h') \<Longrightarrow>
      serves ar h' \<and> (p, m) \<notin> blocks h \<and> blocks h' = insert (p, m) (blocks h)"
    and "serves ar h \<Longrightarrow> heap_alloc H h l = (None, h') \<Longrightarrow> h' = h"
    and "serves ar h \<Longrightarrow> (p, m) \<in> blocks h \<Longrightarrow>
      serves ar (heap_dealloc H h p \<lparr>lay_size = m, lay_align = m\<rparr>) \<and>
      blocks (heap_dealloc H h p \<lparr>lay_size = m, lay_align = m\<rparr>) = blocks h - {(p, m)}"
    and "heap_area (addr, len) \<Longrightarrow> \<exists>h. heap_init H (heap_new H) addr len = Ret h"
proof -
  note made = assms [unfolded heap_law_def, THEN conjunct1]
  note law = assms [unfolded heap_law_def, THEN conjunct2]
  note law2 = law [THEN conjunct2] and law3 = law [THEN conjunct2, THEN conjunct2]
  note law4 = law3 [THEN conjunct2] and law5 = law3 [THEN conjunct2, THEN conjunct2]
  show "heap_area (addr, len) \<Longrightarrow> \<exists>h. heap_init H (heap_new H) addr len = Ret h"
    using made by blast
  show "len \<noteq> 0 \<Longrightarrow> fits (addr, len) \<Longrightarrow> heap_init H (heap_new H) addr len = Ret h \<Longrightarrow>
      serves (addr, len) h \<and> blocks h = {}"
    using law [THEN conjunct1] by blast
  show "serves ar h \<Longrightarrow> blocks_ok ar (blocks h) \<and>
      stats_alloc_actual H h \<le> stats_total_bytes H h \<and>
      (stats_alloc_actual H h = 0 \<longleftrightarrow> blocks h = {})"
    using law2 [THEN conjunct1] by blast
  show "serves ar h \<Longrightarrow> m \<noteq> 0 \<Longrightarrow>
      heap_alloc H h \<lparr>lay_size = m, lay_align = m\<rparr> = (Some p, h') \<Longrightarrow>
      serves ar h' \<and> (p, m) \<notin> blocks h \<and> blocks h' = insert (p, m) (blocks h)"
    using law3 [THEN conjunct1] by blast
  show "serves ar h \<Longrightarrow> heap_alloc H h l = (None, h') \<Longrightarrow> h' = h"
    using law4 [THEN conjunct1] by blast
  show "serves ar h \<Longrightarrow> (p, m) \<in> blocks h \<Longrightarrow>
      serves ar (heap_dealloc H h p \<lparr>lay_size = m, lay_align = m\<rparr>) \<and>
      blocks (heap_dealloc H h p \<lparr>lay_size = m, lay_align = m\<rparr>) = blocks h - {(p, m)}"
    using law5 by blast
qed

lemma app_alloc_shared:
  assumes "heap_law H serves blocks"
  shows "shared_allocator (app_ops H) serves blocks"
proof -
  note law = heap_lawD [OF assms]
  have avail: "app_available H h = Ret (stats_total_bytes H h - stats_alloc_actual H h)"
    if "serves ar h" for ar h
    using law(2) [OF that] by (simp add: app_available_Ret)
  show ?thesis
  proof (unfold_locales, goal_cases)
    case (5 ar s)
    then show ?case
      using avail [OF 5(1)] law(2) [OF 5(1)] by (simp add: app_ops_def)
  next
    case (7 ar s n m s')
    then show ?case
      using law(4) [OF 7(1)] by (auto simp: app_ops_def)
  next
    case (8 ar s p n)
    let ?h = "heap_dealloc H s p \<lparr>lay_size = n, lay_align = n\<rparr>"
    have h: "serves ar ?h" "blocks ?h = blocks s - {(p, n)}"
      using law(5) [OF 8] by auto
    then have "blocks ?h = {} \<Longrightarrow> app_available H ?h = Ret (stats_total_bytes H ?h)"
      using avail [OF h(1)] law(2) [OF h(1)] by simp
    with h show ?case
      by (simp add: app_ops_def)
  qed (use avail law(1-3,6) in \<open>auto simp: app_ops_def\<close>)
qed

text \<open>A heap that serves one request at a time satisfies the law.\<close>

definition one_block_heap :: "(block \<times> usize) heap_ops" where
  "one_block_heap =
     \<lparr>heap_new = ((0, 0), 0), heap_init = (\<lambda>h addr len. if heap_area (addr, len) then Ret ((addr, len), 0) else Panic),
      heap_alloc = (\<lambda>h l. if snd h = 0 \<and> fst (fst h) \<noteq> 0 \<and> lay_size l \<le> snd (fst h)
        then (Some (fst (fst h)), (fst h, lay_size l)) else (None, h)),
      heap_dealloc = (\<lambda>h ptr l. (fst h, 0)),
      stats_total_bytes = (\<lambda>h. snd (fst h)), stats_alloc_actual = snd\<rparr>"

definition one_block_inv :: "block \<Rightarrow> block \<times> usize \<Rightarrow> bool" where
  "one_block_inv ar h \<longleftrightarrow> fst h = ar \<and> snd h \<le> snd ar \<and> (snd h \<noteq> 0 \<longrightarrow> fst ar \<noteq> 0)"

definition one_block_blocks :: "block \<times> usize \<Rightarrow> block set" where
  "one_block_blocks h = (if snd h = 0 then {} else {(fst (fst h), snd h)})"

lemma one_block_heap_law: "heap_law one_block_heap one_block_inv one_block_blocks"
  by (auto simp: heap_law_def one_block_heap_def one_block_inv_def one_block_blocks_def
      blocks_ok_def span_def word_le_nat_alt split: if_splits)

section \<open>Rounding to a power of two\<close>

lemma from_size_align_eq_Some:
  "from_size_align n n = Some l \<Longrightarrow> \<exists>k<63. n = one_bit k \<and> l = \<lparr>lay_size = n, lay_align = n\<rparr>"
proof -
  assume a: "from_size_align n n = Some l"
  then have nz: "n \<noteq> 0" and pow: "n AND (n - 1) = 0" and le: "n \<le> one_bit 63 - n"
    and l: "l = \<lparr>lay_size = n, lay_align = n\<rparr>"
    by (auto simp: from_size_align_def split: if_splits)
  have n: "n = one_bit (trailing_zeros n)" and lt: "trailing_zeros n < 64"
    using power_of_two_word [OF nz pow] trailing_zeros_props(3) [OF nz] by auto
  have "trailing_zeros n \<noteq> 63"
    using le nz n by auto
  with n l lt show ?thesis
    by (metis less_antisym numeral_eq_Suc pred_numeral_simps(2) semiring_norm(26,27))
qed

lemma bit_list_mask: "k \<le> 64 \<Longrightarrow> bit_list (mask k :: usize) = [0..<k]"
proof -
  assume k: "k \<le> 64"
  have eq: "[0..<64] = [0..<k] @ [k..<64]"
    using k by (metis le0 le_add_diff_inverse add_0 upt_add_eq_append)
  have "filter (\<lambda>i. i < k) [0..<k] = [0..<k]" and "filter (\<lambda>i. i < k) [k..<64] = []"
    by (auto intro: filter_True simp: filter_empty_conv)
  moreover have "filter (bit (mask k :: usize)) [0..<64] = filter (\<lambda>i. i < k) [0..<64]"
    using k by (intro filter_cong) (auto simp: bit_mask_iff)
  ultimately show ?thesis
    unfolding bit_list_def by (simp add: eq)
qed

lemma shl_ovf_1: "k < LENGTH('a) \<Longrightarrow> shl_ovf (1 :: 'a::len word) k = Ret (one_bit k)"
  by (simp add: shl_ovf_def one_bit_def)

lemma next_power_of_two_one_bit: "k < 64 \<Longrightarrow> next_power_of_two (one_bit k) = Ret (one_bit k)"
proof (cases "k = 0")
  assume k: "k < 64" and "k \<noteq> 0"
  then have "mask k \<noteq> (0 :: usize)"
    by (simp add: mask_eq_0_iff)
  from leading_zeros_last [OF this] k \<open>k \<noteq> 0\<close> have lz: "64 - leading_zeros (mask k :: usize) = k"
    by (simp add: bit_list_mask)
  have "\<not> one_bit k \<le> (1 :: usize)"
    using k \<open>k \<noteq> 0\<close> unat_one_bit [of k, where 'a = 64] one_less_power [of "2 :: nat" k]
    by (simp add: word_le_nat_alt)
  with lz k show ?thesis
    by (simp add: next_power_of_two_def one_bit_minus_1 shl_ovf_1)
qed (simp add: next_power_of_two_def one_bit_def)

lemma less_power_last:
  fixes w :: usize
  assumes "w \<noteq> 0"
  shows "unat w < 2 ^ (64 - leading_zeros w)" and "64 - leading_zeros w \<le> 64"
proof -
  have "take_bit (64 - leading_zeros w) w = w"
  proof (rule bit_word_eqI)
    fix n
    have "bit w n \<Longrightarrow> n \<le> last (bit_list w)"
      by (simp add: set_bit_list sorted_bit_list sorted_le_last)
    then show "bit (take_bit (64 - leading_zeros w) w) n = bit w n"
      using leading_zeros_last [OF assms] by (auto simp: bit_take_bit_iff)
  qed
  then have "unat w = take_bit (64 - leading_zeros w) (unat w)"
    by (metis unsigned_take_bit_eq)
  also have "\<dots> < 2 ^ (64 - leading_zeros w)"
    by simp
  finally show "unat w < 2 ^ (64 - leading_zeros w)" .
qed simp

lemma next_power_of_two_props:
  assumes "next_power_of_two n = Ret m"
  shows "n \<le> m" and "\<exists>k<64. m = one_bit k" and "m \<noteq> 0"
proof -
  have "n \<le> m \<and> (\<exists>k<64. m = one_bit k)"
  proof (cases "n \<le> 1")
    case True
    with assms show ?thesis
      by (auto simp: next_power_of_two_def one_bit_def intro: exI [of _ 0])
  next
    case False
    let ?k = "64 - leading_zeros (n - 1)"
    from False assms have k: "?k < 64" and m: "m = one_bit ?k"
      by (auto simp: next_power_of_two_def shl_ovf_def one_bit_def split: if_splits)
    from False have "n - 1 \<noteq> 0" and ge: "1 \<le> n"
      by (auto simp: word_le_nat_alt)
    with less_power_last(1) [of "n - 1"] have "unat n - 1 < 2 ^ ?k"
      by (simp add: unat_sub)
    then have "unat n \<le> unat m"
      using k ge by (simp add: m unat_one_bit word_le_nat_alt)
    with k m show ?thesis
      by (auto simp: word_le_nat_alt)
  qed
  then show "n \<le> m" and ex: "\<exists>k<64. m = one_bit k"
    by auto
  from ex show "m \<noteq> 0"
    using unat_one_bit [where 'a = 64] by fastforce
qed

lemma next_power_of_two_Ret: "unat n \<le> 2 ^ 63 \<Longrightarrow> \<exists>m. next_power_of_two n = Ret m"
proof (cases "n \<le> 1")
  assume le: "unat n \<le> 2 ^ 63" and gt: "\<not> n \<le> 1"
  then have nz: "n - 1 \<noteq> 0" and u: "unat (n - 1) = unat n - 1"
    by (auto simp: word_le_nat_alt unat_sub)
  have "\<not> bit (n - 1) 63"
  proof
    assume "bit (n - 1) 63"
    then have "bit (unat (n - 1)) 63"
      by (simp add: bit_unsigned_iff)
    then have "2 ^ 63 \<le> unat (n - 1)"
      by (metis bit_nat_def div_less even_zero not_le_imp_less)
    with le u gt show False
      by (simp add: word_le_nat_alt)
  qed
  then have "last (bit_list (n - 1)) \<noteq> 63"
    using nz bit_list_eq_Nil [of "n - 1"] last_in_set [of "bit_list (n - 1)"]
    by (auto simp: set_bit_list)
  with leading_zeros_last [OF nz] gt show ?thesis
    by (auto simp: next_power_of_two_def shl_ovf_def)
qed (simp add: next_power_of_two_def)

lemma from_size_align_one_bit:
  "k < 63 \<Longrightarrow> from_size_align (one_bit k) (one_bit k)
     = Some \<lparr>lay_size = one_bit k, lay_align = one_bit k\<rparr>"
proof -
  assume k: "k < 63"
  have u: "unat (one_bit k :: usize) = 2 ^ k" "unat (one_bit 63 :: usize) = 2 ^ 63"
    using k by (simp_all add: unat_one_bit)
  have dbl: "(2 :: nat) ^ k + 2 ^ k \<le> 2 ^ 63"
    using k power_increasing [of "Suc k" 63 "2 :: nat"] by simp
  then have "one_bit k \<le> (one_bit 63 :: usize)"
    using u by (simp add: word_le_nat_alt)
  then have "one_bit k \<le> one_bit 63 - (one_bit k :: usize)"
    using u dbl by (simp add: word_le_nat_alt unat_sub)
  moreover have "one_bit k AND (one_bit k - 1) = (0 :: usize)"
    unfolding one_bit_minus_1
    by (rule bit_word_eqI) (simp add: bit_and_iff bit_one_bit bit_mask_iff)
  moreover have "one_bit k \<noteq> (0 :: usize)"
    using u(1) by force
  ultimately show ?thesis
    by (simp add: from_size_align_def)
qed

end
