(* ===== verification/Sec_Mem_Manager.thy ===== *)
theory Sec_Mem_Manager
  imports Sec_Mem_Protector Sec_Mem_Alloc "HOL-Library.Multiset"
begin

text \<open>
  The unified secure memory manager of \<open>library/smm/src/manager.rs\<close>, with the regions of
  \<open>library/smm/src/lib.rs\<close>. The manager owns a list of memory regions, each guarded by one
  PMP slot of its protector, and serves enclaves from them: a region starts \<open>General\<close> and is
  given to a runtime or an application allocator on first use. The allocator types are the
  type parameters \<open>AR\<close> and \<open>AA\<close> of the source, here two records of trait methods.

  \<open>cap\<close> is the capacity of the vector \<open>alloc_regions\<close>. It is fixed when the manager is
  created, because \<open>extend\<close> pushes only below the capacity. \<open>mem\<close> is the memory that the
  manager itself writes, to clear enclave data; what the allocators store in free memory is
  not part of it. Log output is left out.
\<close>

section \<open>Regions\<close>

datatype ('r, 'a) SecMemAllocatorWrapper = WNone | General | Runtime 'r | Application 'a

datatype SecMemType = TNone | TGeneral | TRuntime | TApplication

record ('r, 'a) SecMemRegion =
  rg_addr :: usize
  rg_len :: usize
  rg_id :: usize
  rg_slot :: u32
  rg_used :: bool
  rg_allocator :: "('r, 'a) SecMemAllocatorWrapper"

definition region_new :: "usize \<Rightarrow> usize \<Rightarrow> usize \<Rightarrow> u32 \<Rightarrow> ('r, 'a) SecMemRegion" where
  "region_new addr len i pmp_slot =
     \<lparr>rg_addr = addr, rg_len = len, rg_id = i, rg_slot = pmp_slot, rg_used = False,
      rg_allocator = General\<rparr>"

definition is_mem_overlap :: "('r, 'a) SecMemRegion \<Rightarrow> usize \<Rightarrow> usize \<Rightarrow> bool outcome" where
  "is_mem_overlap rg addr len =
     obind (add_ovf (rg_addr rg) (rg_len rg)) (\<lambda>self_end.
       case checked_add addr len of
         Some target_end \<Rightarrow> Ret (addr < self_end \<and> rg_addr rg < target_end)
       | None \<Rightarrow> Ret True)"

definition is_mem_contained :: "('r, 'a) SecMemRegion \<Rightarrow> usize \<Rightarrow> usize \<Rightarrow> bool outcome" where
  "is_mem_contained rg addr len =
     obind (add_ovf (rg_addr rg) (rg_len rg)) (\<lambda>self_end.
       case checked_add addr len of
         Some target_end \<Rightarrow> Ret (rg_addr rg \<le> addr \<and> target_end \<le> self_end)
       | None \<Rightarrow> Ret False)"

section \<open>The manager\<close>

definition UNI_SECMEM_SM_SLOT :: u32 where "UNI_SECMEM_SM_SLOT = push_bit 0 1"
definition UNI_SECMEM_TEMP_SLOT :: u32 where "UNI_SECMEM_TEMP_SLOT = push_bit 1 1"
definition UNI_SECMEM_DEFAULT_SLOT :: u32 where
  "UNI_SECMEM_DEFAULT_SLOT = push_bit (unat (MAX_PMP_ENTRY_COUNT - 1)) 1"

definition UNI_SECMEM_PMP_ALLOCMASK :: u64 where
  "UNI_SECMEM_PMP_ALLOCMASK =
     (push_bit (unat MAX_PMP_ENTRY_COUNT) 1 - 1)
     AND NOT (ucast (UNI_SECMEM_SM_SLOT OR UNI_SECMEM_TEMP_SLOT OR UNI_SECMEM_TEMP_SLOT))"

definition UNI_SECMEM_PMP_MANAGEMASK :: u64 where
  "UNI_SECMEM_PMP_MANAGEMASK =
     UNI_SECMEM_PMP_ALLOCMASK
     AND ucast (UNI_SECMEM_SM_SLOT OR UNI_SECMEM_DEFAULT_SLOT OR UNI_SECMEM_TEMP_SLOT)"

record ('r, 'a) UniSecMemManager =
  cur_idx :: usize
  protector :: TestSecMemProtector
  reserved_regions :: "(unit, unit) SecMemRegion list"
  alloc_regions :: "('r, 'a) SecMemRegion list"

definition mgr_new :: "('r, 'a) UniSecMemManager" where
  "mgr_new =
     \<lparr>cur_idx = 0,
      protector = test_protector_new UNI_SECMEM_PMP_ALLOCMASK UNI_SECMEM_PMP_MANAGEMASK,
      reserved_regions = [], alloc_regions = []\<rparr>"

definition mgr_init ::
    "('r, 'a) UniSecMemManager \<Rightarrow> usize \<Rightarrow> usize \<Rightarrow> (bool \<times> ('r, 'a) UniSecMemManager) outcome" where
  "mgr_init m sm_addr sm_len =
     (if \<not> test_disable (protector m) UNI_SECMEM_TEMP_SLOT
         \<or> \<not> test_grant_access_all (protector m) 0 usize_MAX UNI_SECMEM_DEFAULT_SLOT
      then Ret (False, m)
      else if test_is_protectable (protector m) sm_addr sm_len
              \<and> test_retrive_access_all (protector m) sm_addr sm_len UNI_SECMEM_SM_SLOT
      then let m = m\<lparr>reserved_regions := reserved_regions m
                 @ [region_new sm_addr sm_len (cur_idx m) UNI_SECMEM_SM_SLOT]\<rparr>
           in obind (add_ovf (cur_idx m) 1) (\<lambda>i. Ret (True, m\<lparr>cur_idx := i\<rparr>))
      else Ret (False, m))"

text \<open>\<open>core::ptr::write_bytes(addr, 0, len)\<close>.\<close>

definition clear_bytes :: "(usize \<Rightarrow> u8) \<Rightarrow> usize \<Rightarrow> usize \<Rightarrow> usize \<Rightarrow> u8" where
  "clear_bytes mem addr len =
     (\<lambda>a. if unat addr \<le> unat a \<and> unat a < unat addr + unat len then 0 else mem a)"

text \<open>The loop of \<open>deinit\<close>: clears each region and writes it to the caller's array.\<close>

fun deinit_loop ::
    "('r, 'a) SecMemRegion list \<Rightarrow> nat \<Rightarrow> block list \<Rightarrow> (usize \<Rightarrow> u8) \<Rightarrow>
     (nat \<times> block list \<times> (usize \<Rightarrow> u8)) outcome" where
  "deinit_loop [] n cur_regions mem = Ret (n, cur_regions, mem)"
| "deinit_loop (rg # rgs) n cur_regions mem =
     obind (array_set cur_regions n (rg_addr rg, rg_len rg)) (\<lambda>cur_regions.
       deinit_loop rgs (n + 1) cur_regions (clear_bytes mem (rg_addr rg) (rg_len rg)))"

definition mgr_deinit ::
    "('r, 'a) UniSecMemManager \<Rightarrow> block list \<Rightarrow> (usize \<Rightarrow> u8) \<Rightarrow>
     (u32 \<times> block list \<times> (usize \<Rightarrow> u8)) outcome" where
  "mgr_deinit m cur_regions mem =
     omap (\<lambda>(n, rgs, mem). (word_of_nat n, rgs, mem))
       (deinit_loop (alloc_regions m) 0 cur_regions mem)"

fun any_overlap :: "('r, 'a) SecMemRegion list \<Rightarrow> usize \<Rightarrow> usize \<Rightarrow> bool outcome" where
  "any_overlap [] addr len = Ret False"
| "any_overlap (rg # rgs) addr len =
     obind (is_mem_overlap rg addr len) (\<lambda>b. if b then Ret True else any_overlap rgs addr len)"

definition mgr_extend ::
    "nat \<Rightarrow> ('r, 'a) UniSecMemManager \<Rightarrow> usize \<Rightarrow> usize \<Rightarrow> (bool \<times> ('r, 'a) UniSecMemManager) outcome" where
  "mgr_extend cap m addr len =
     (if \<not> test_is_protectable (protector m) addr len \<or> cap \<le> length (alloc_regions m)
      then Ret (False, m)
      else obind (any_overlap (alloc_regions m) addr len) (\<lambda>overlap.
        if overlap then Ret (False, m)
        else case test_alloc (protector m) of
          (Some hwid, p) \<Rightarrow>
            if \<not> test_retrive_access_all p addr len hwid
            then Ret (False, m\<lparr>protector := snd (test_free p hwid)\<rparr>)
            else obind (add_ovf (cur_idx m) 1) (\<lambda>i.
              Ret (True, m\<lparr>protector := p, cur_idx := i,
                alloc_regions := alloc_regions m @ [region_new addr len i hwid]\<rparr>))
        | (None, p) \<Rightarrow> Ret (True, m\<lparr>protector := p\<rparr>)))"

text \<open>\<open>Iterator::position\<close> and \<open>Vec::swap_remove\<close>.\<close>

fun position :: "('x \<Rightarrow> bool) \<Rightarrow> 'x list \<Rightarrow> nat option" where
  "position P [] = None"
| "position P (x # xs) = (if P x then Some 0 else map_option Suc (position P xs))"

definition swap_remove :: "'x list \<Rightarrow> nat \<Rightarrow> 'x list" where
  "swap_remove xs i = take (length xs - 1) (xs[i := last xs])"

definition mgr_reclaim ::
    "('r, 'a) UniSecMemManager \<Rightarrow> block option \<times> ('r, 'a) UniSecMemManager" where
  "mgr_reclaim m =
     (case position (\<lambda>rg. \<not> rg_used rg) (alloc_regions m) of
        None \<Rightarrow> (None, m)
      | Some i \<Rightarrow>
          let rg = alloc_regions m ! i;
              m = m\<lparr>alloc_regions := swap_remove (alloc_regions m) i\<rparr>
          in if \<not> test_disable (protector m) (rg_slot rg) then (None, m)
             else case test_free (protector m) (rg_slot rg) of
               (freed, p) \<Rightarrow>
                 (if freed then Some (rg_addr rg, rg_len rg) else None, m\<lparr>protector := p\<rparr>))"

section \<open>Enclave memory\<close>

definition assign_allocator ::
    "'r sec_mem_allocator \<Rightarrow> 'a sec_mem_allocator \<Rightarrow> SecMemType \<Rightarrow>
     ('r, 'a) SecMemRegion \<Rightarrow> ('r, 'a) SecMemRegion outcome" where
  "assign_allocator AR AA em_type rg =
     (case rg_allocator rg of
        General \<Rightarrow>
          (case em_type of
             TRuntime \<Rightarrow>
               omap (\<lambda>al. rg\<lparr>rg_allocator := Runtime al\<rparr>) (a_init AR (a_new AR) (rg_addr rg) (rg_len rg))
           | TApplication \<Rightarrow>
               omap (\<lambda>al. rg\<lparr>rg_allocator := Application al\<rparr>) (a_init AA (a_new AA) (rg_addr rg) (rg_len rg))
           | _ \<Rightarrow> Ret rg)
      | _ \<Rightarrow> Ret rg)"

text \<open>
  One allocation attempt: \<open>EmReturn\<close> is the \<open>?\<close> on a layout that does not exist, which
  leaves the whole function. The third component is \<open>expect_len\<close>, which a runtime
  attempt raises to what the region has.
\<close>

datatype em_attempt = EmReturn | EmErr | EmOk usize

definition em_result :: "usize option \<Rightarrow> em_attempt" where
  "em_result r = (case r of None \<Rightarrow> EmErr | Some p \<Rightarrow> EmOk p)"

definition alloc_in_region ::
    "'r sec_mem_allocator \<Rightarrow> 'a sec_mem_allocator \<Rightarrow> SecMemType \<Rightarrow> usize \<Rightarrow>
     ('r, 'a) SecMemRegion \<Rightarrow> (em_attempt \<times> ('r, 'a) SecMemRegion \<times> usize) outcome" where
  "alloc_in_region AR AA em_type expect_len rg =
     (case rg_allocator rg of
        Runtime al \<Rightarrow>
          if em_type = TRuntime
          then obind (a_available AR al) (\<lambda>av.
            if expect_len \<le> av
            then case from_size_align av av of
                None \<Rightarrow> Ret (EmReturn, rg, av)
              | Some l \<Rightarrow> (case a_alloc AR al l of (r, al) \<Rightarrow>
                  Ret (em_result r, rg\<lparr>rg_allocator := Runtime al\<rparr>, av))
            else Ret (EmErr, rg, expect_len))
          else Ret (EmErr, rg, expect_len)
      | Application al \<Rightarrow>
          if em_type = TApplication
          then obind (a_available AA al) (\<lambda>av.
            if expect_len \<le> av
            then case from_size_align expect_len expect_len of
                None \<Rightarrow> Ret (EmReturn, rg, expect_len)
              | Some l \<Rightarrow> (case a_alloc AA al l of (r, al) \<Rightarrow>
                  Ret (em_result r, rg\<lparr>rg_allocator := Application al\<rparr>, expect_len))
            else Ret (EmErr, rg, expect_len))
          else Ret (EmErr, rg, expect_len)
      | _ \<Rightarrow> Ret (EmErr, rg, expect_len))"

type_synonym em_block = "usize \<times> usize \<times> usize"

fun alloc_em_loop ::
    "'r sec_mem_allocator \<Rightarrow> 'a sec_mem_allocator \<Rightarrow> usize \<Rightarrow> SecMemType \<Rightarrow> usize \<Rightarrow>
     ('r, 'a) SecMemRegion list \<Rightarrow> (em_block option \<times> ('r, 'a) SecMemRegion list) outcome" where
  "alloc_em_loop AR AA len em_type expect_len [] = Ret (None, [])"
| "alloc_em_loop AR AA len em_type expect_len (rg # rgs) =
     (if rg_len rg < len
      then omap (map_prod id ((#) rg)) (alloc_em_loop AR AA len em_type expect_len rgs)
      else obind (assign_allocator AR AA em_type rg) (\<lambda>rg.
        obind (alloc_in_region AR AA em_type expect_len rg) (\<lambda>(att, rg, expect_len). case att of
           EmOk p \<Rightarrow> Ret (Some (p, expect_len, rg_id rg), rg\<lparr>rg_used := True\<rparr> # rgs)
         | EmReturn \<Rightarrow> Ret (None, rg # rgs)
         | EmErr \<Rightarrow> omap (map_prod id ((#) rg)) (alloc_em_loop AR AA len em_type expect_len rgs))))"

definition mgr_alloc_em ::
    "'r sec_mem_allocator \<Rightarrow> 'a sec_mem_allocator \<Rightarrow> ('r, 'a) UniSecMemManager \<Rightarrow> usize \<Rightarrow>
     SecMemType \<Rightarrow> (em_block option \<times> ('r, 'a) UniSecMemManager) outcome" where
  "mgr_alloc_em AR AA m len em_type =
     obind (next_power_of_two len) (\<lambda>expect_len.
       omap (map_prod id (\<lambda>rgs. m\<lparr>alloc_regions := rgs\<rparr>))
         (alloc_em_loop AR AA len em_type expect_len (alloc_regions m)))"

fun find_region ::
    "(('r, 'a) SecMemRegion \<Rightarrow> bool outcome) \<Rightarrow> ('r, 'a) SecMemRegion list \<Rightarrow> nat option outcome" where
  "find_region P [] = Ret None"
| "find_region P (rg # rgs) =
     obind (P rg) (\<lambda>b. if b then Ret (Some 0) else omap (map_option Suc) (find_region P rgs))"

definition after_free ::
    "'s sec_mem_allocator \<Rightarrow> ('s \<Rightarrow> ('r, 'a) SecMemAllocatorWrapper) \<Rightarrow> ('r, 'a) SecMemRegion \<Rightarrow> 's \<Rightarrow>
     ('r, 'a) SecMemRegion outcome" where
  "after_free ops wrap rg al =
     obind (a_available ops al) (\<lambda>av.
       Ret (if av = a_total ops al then rg\<lparr>rg_used := False, rg_allocator := General\<rparr>
            else rg\<lparr>rg_allocator := wrap al\<rparr>))"

definition free_in_region ::
    "'r sec_mem_allocator \<Rightarrow> 'a sec_mem_allocator \<Rightarrow> usize \<Rightarrow> layout \<Rightarrow> ('r, 'a) SecMemRegion \<Rightarrow>
     (usize option \<times> ('r, 'a) SecMemRegion) outcome" where
  "free_in_region AR AA ptr l rg =
     (case rg_allocator rg of
        Application al \<Rightarrow>
          obind (a_free AA al ptr l) (\<lambda>al.
            omap (Pair (Some (rg_id rg))) (after_free AA Application rg al))
      | Runtime al \<Rightarrow>
          obind (a_free AR al ptr l) (\<lambda>al.
            omap (Pair (Some (rg_id rg))) (after_free AR Runtime rg al))
      | _ \<Rightarrow> Ret (None, rg))"

definition mgr_free_em ::
    "'r sec_mem_allocator \<Rightarrow> 'a sec_mem_allocator \<Rightarrow> ('r, 'a) UniSecMemManager \<Rightarrow> (usize \<Rightarrow> u8) \<Rightarrow>
     usize \<Rightarrow> usize \<Rightarrow> (usize option \<times> ('r, 'a) UniSecMemManager \<times> (usize \<Rightarrow> u8)) outcome" where
  "mgr_free_em AR AA m mem addr len =
     obind (next_power_of_two len) (\<lambda>expect_len.
       case from_size_align expect_len expect_len of
         None \<Rightarrow> Ret (None, m, mem)
       | Some free_layout \<Rightarrow>
           if addr = 0 then Ret (None, m, mem)
           else obind (find_region (\<lambda>rg. is_mem_contained rg addr len) (alloc_regions m)) (\<lambda>found.
             case found of
               None \<Rightarrow> Ret (None, m, mem)
             | Some i \<Rightarrow>
                 omap (\<lambda>(r, rg). (r, m\<lparr>alloc_regions := (alloc_regions m)[i := rg]\<rparr>,
                     clear_bytes mem addr len))
                   (free_in_region AR AA addr free_layout (alloc_regions m ! i))))"

definition region_matches :: "usize \<Rightarrow> usize \<Rightarrow> usize \<Rightarrow> ('r, 'a) SecMemRegion \<Rightarrow> bool outcome" where
  "region_matches region_id addr len rg =
     (if rg_id rg = region_id then is_mem_contained rg addr len else Ret False)"

definition mgr_grant_access ::
    "('r, 'a) UniSecMemManager \<Rightarrow> usize \<Rightarrow> usize \<Rightarrow> usize \<Rightarrow> bool outcome" where
  "mgr_grant_access m addr len region_id =
     omap (\<lambda>found. case found of None \<Rightarrow> False
         | Some i \<Rightarrow> let rg = alloc_regions m ! i
             in test_grant_access (protector m) (rg_addr rg) (rg_len rg) (rg_slot rg))
       (find_region (region_matches region_id addr len) (alloc_regions m))"

definition mgr_retrive_access ::
    "('r, 'a) UniSecMemManager \<Rightarrow> usize \<Rightarrow> usize \<Rightarrow> usize \<Rightarrow> bool outcome" where
  "mgr_retrive_access m addr len region_id =
     omap (\<lambda>found. case found of None \<Rightarrow> False
         | Some i \<Rightarrow> let rg = alloc_regions m ! i
             in test_retrive_access (protector m) (rg_addr rg) (rg_len rg) (rg_slot rg))
       (find_region (region_matches region_id addr len) (alloc_regions m))"

end
