(* ===== verification/Sec_Mem_Isolation.thy ===== *)
theory Sec_Mem_Isolation
  imports Sec_Mem_Manager
begin

text \<open>
  What the secure memory manager guarantees: its regions are pairwise disjoint and each has
  a PMP slot of its own, the enclave blocks it has handed out are pairwise disjoint and lie in
  regions that are marked in use, and memory goes back only when it holds no enclave.

  \<open>region_key\<close> is the part of a region that does not change while the manager owns it. The
  lemmas about the operations are proved in the locale \<open>sec_mem_clients\<close>, for every pair of
  allocators that meets the contracts of \<open>Sec_Mem_Alloc\<close>; the properties instantiate it with
  the runtime allocator and the application allocator of the source.
\<close>

section \<open>The invariant\<close>

type_synonym region_key = "block \<times> usize \<times> u32"

definition region_key :: "('r, 'a) SecMemRegion \<Rightarrow> region_key" where
  "region_key rg = ((rg_addr rg, rg_len rg), rg_id rg, rg_slot rg)"

definition key_area :: "region_key \<Rightarrow> block" where "key_area k = fst k"
definition key_id :: "region_key \<Rightarrow> usize" where "key_id k = fst (snd k)"
definition key_slot :: "region_key \<Rightarrow> u32" where "key_slot k = snd (snd k)"

lemma region_key_sel [simp]:
  "key_area (region_key rg) = (rg_addr rg, rg_len rg)" "key_id (region_key rg) = rg_id rg"
  "key_slot (region_key rg) = rg_slot rg"
  by (simp_all add: region_key_def key_area_def key_id_def key_slot_def)

lemma key_sel [simp]:
  "key_area (ar, i, h) = ar" "key_id (ar, i, h) = i" "key_slot (ar, i, h) = h"
  by (simp_all add: key_area_def key_id_def key_slot_def)

lemma region_key_eq:
  "region_key rg' = region_key rg \<Longrightarrow>
     rg_addr rg' = rg_addr rg \<and> rg_len rg' = rg_len rg \<and> rg_id rg' = rg_id rg \<and> rg_slot rg' = rg_slot rg"
  by (simp add: region_key_def)

lemma region_key_upd [simp]:
  "region_key (rg\<lparr>rg_used := u\<rparr>) = region_key rg"
  "region_key (rg\<lparr>rg_allocator := w\<rparr>) = region_key rg"
  by (simp_all add: region_key_def)

definition keys_ok :: "usize \<Rightarrow> PMPSlotAllocator \<Rightarrow> region_key list \<Rightarrow> bool" where
  "keys_ok cur hw ks \<longleftrightarrow>
     distinct (map key_id ks) \<and> (\<forall>k\<in>set ks. key_id k \<le> cur) \<and>
     pairwise (\<lambda>k k'. span (key_area k) \<inter> span (key_area k') = {}) (set ks) \<and>
     slots_held (slots_of hw) (map key_slot ks) \<and> pool_ok hw \<and> allocatable hw = {2..15}"

definition wrapper_blocks ::
    "('r \<Rightarrow> block set) \<Rightarrow> ('a \<Rightarrow> block set) \<Rightarrow> ('r, 'a) SecMemAllocatorWrapper \<Rightarrow> block set" where
  "wrapper_blocks bR bA w =
     (case w of Runtime s \<Rightarrow> bR s | Application s \<Rightarrow> bA s | _ \<Rightarrow> {})"

definition wrapper_serves ::
    "(block \<Rightarrow> 'r \<Rightarrow> bool) \<Rightarrow> (block \<Rightarrow> 'a \<Rightarrow> bool) \<Rightarrow> block \<Rightarrow> ('r, 'a) SecMemAllocatorWrapper \<Rightarrow> bool" where
  "wrapper_serves sR sA ar w =
     (case w of Runtime s \<Rightarrow> sR ar s | Application s \<Rightarrow> sA ar s | _ \<Rightarrow> True)"

fun wrapper_type :: "('r, 'a) SecMemAllocatorWrapper \<Rightarrow> SecMemType" where
  "wrapper_type WNone = TNone"
| "wrapper_type General = TGeneral"
| "wrapper_type (Runtime _) = TRuntime"
| "wrapper_type (Application _) = TApplication"

definition region_ok ::
    "(block \<Rightarrow> 'r \<Rightarrow> bool) \<Rightarrow> ('r \<Rightarrow> block set) \<Rightarrow> (block \<Rightarrow> 'a \<Rightarrow> bool) \<Rightarrow> ('a \<Rightarrow> block set) \<Rightarrow>
     ('r, 'a) SecMemRegion \<Rightarrow> bool" where
  "region_ok sR bR sA bA rg \<longleftrightarrow>
     check_pmp_area_available (rg_addr rg) (rg_len rg) NAPOT \<and>
     wrapper_serves sR sA (rg_addr rg, rg_len rg) (rg_allocator rg) \<and>
     (\<not> rg_used rg \<longrightarrow> wrapper_blocks bR bA (rg_allocator rg) = {}) \<and>
     (\<forall>b\<in>wrapper_blocks bR bA (rg_allocator rg). \<exists>k<63. snd b = one_bit k)"

definition mgr_inv ::
    "(block \<Rightarrow> 'r \<Rightarrow> bool) \<Rightarrow> ('r \<Rightarrow> block set) \<Rightarrow> (block \<Rightarrow> 'a \<Rightarrow> bool) \<Rightarrow> ('a \<Rightarrow> block set) \<Rightarrow>
     ('r, 'a) UniSecMemManager \<Rightarrow> bool" where
  "mgr_inv sR bR sA bA m \<longleftrightarrow>
     keys_ok (cur_idx m) (hw_manager (protector m)) (map region_key (alloc_regions m)) \<and>
     (\<forall>rg\<in>set (alloc_regions m). region_ok sR bR sA bA rg)"

text \<open>The enclave blocks that are out.\<close>

definition live_blocks ::
    "('r \<Rightarrow> block set) \<Rightarrow> ('a \<Rightarrow> block set) \<Rightarrow> ('r, 'a) SecMemRegion list \<Rightarrow> block set" where
  "live_blocks bR bA rgs = (\<Union>rg\<in>set rgs. wrapper_blocks bR bA (rg_allocator rg))"

lemma napot_fits:
  assumes "check_pmp_area_available addr len NAPOT"
  shows "len \<noteq> 0" and "fits (addr, len)"
proof -
  from assms have dv: "addr mod len = 0" and ge: "8 \<le> len"
    by auto
  then show nz: "len \<noteq> 0"
    by auto
  obtain k where k: "k < 64" "len = one_bit k"
    using napot_area_log [OF assms] by blast
  then have len: "unat len = 2 ^ k"
    by (simp add: unat_one_bit)
  have "unat addr mod unat len = 0"
    using dv by (metis unat_mod unsigned_0)
  then obtain q where q: "unat addr = 2 ^ k * q"
    unfolding len by (auto elim: dvdE simp: mod_eq_0_iff_dvd)
  have pow: "(2 :: nat) ^ 64 = 2 ^ k * 2 ^ (64 - k)"
    using k(1) by (simp flip: power_add)
  have "unat addr < 2 ^ 64"
    by (rule order_less_le_trans [OF unat_bound]) simp
  then have "2 ^ k * q < (2 :: nat) ^ k * 2 ^ (64 - k)"
    by (simp only: q pow)
  then have "q < 2 ^ (64 - k)"
    by simp
  then have "2 ^ k * (q + 1) \<le> (2 :: nat) ^ k * 2 ^ (64 - k)"
    by (intro mult_le_mono) auto
  then show "fits (addr, len)"
    unfolding fits_def pow by (simp add: q len algebra_simps)
qed

lemma napot_heap_area:
  assumes "check_pmp_area_available addr len NAPOT" and "addr \<noteq> 0" and "unat addr + unat len < 2 ^ 64"
  shows "heap_area (addr, len)"
proof -
  obtain k where k: "k < 64" "len = one_bit k"
    using napot_area_log [OF assms(1)] by blast
  then have len: "unat len = 2 ^ k"
    by (simp add: unat_one_bit)
  have "8 \<le> len" and dv: "addr mod len = 0"
    using assms(1) by auto
  then have "(2 :: nat) ^ 3 \<le> 2 ^ k"
    using len by (simp add: word_le_nat_alt)
  then have "8 dvd unat len"
    unfolding len using power_increasing_iff [of "2 :: nat" 3 k] le_imp_power_dvd [of 3 k "2 :: nat"] by simp
  moreover have "unat len dvd unat addr"
    using dv by (metis mod_eq_0_iff_dvd unat_mod unsigned_0)
  ultimately show ?thesis
    using assms napot_fits(1) [OF assms(1)] by (auto simp: heap_area_def)
qed

section \<open>List operations of the manager\<close>

lemma position_Some: "position P xs = Some i \<Longrightarrow> i < length xs \<and> P (xs ! i)"
  by (induction xs arbitrary: i) (auto split: if_splits)

lemma position_None: "position P xs = None \<longleftrightarrow> (\<forall>x\<in>set xs. \<not> P x)"
  by (induction xs) auto

lemma find_region_Ret:
  "find_region P rgs = Ret r \<Longrightarrow>
     (case r of None \<Rightarrow> \<forall>rg\<in>set rgs. P rg = Ret False | Some i \<Rightarrow> i < length rgs \<and> P (rgs ! i) = Ret True)"
proof (induction rgs arbitrary: r)
  case (Cons rg rgs)
  from Cons.prems obtain b where b: "P rg = Ret b"
    by (auto simp: obind_eq_Ret)
  show ?case
  proof (cases b)
    case False
    with Cons.prems b obtain r' where "find_region P rgs = Ret r'" "r = map_option Suc r'"
      by (cases "find_region P rgs") auto
    with Cons.IH [of r'] b False show ?thesis
      by (auto split: option.splits)
  qed (use Cons.prems b in auto)
qed auto

lemma find_region_defined:
  "(\<And>rg. rg \<in> set rgs \<Longrightarrow> \<exists>b. P rg = Ret b) \<Longrightarrow> \<exists>r. find_region P rgs = Ret r"
proof (induction rgs)
  case (Cons rg rgs)
  then obtain b r where "P rg = Ret b" "find_region P rgs = Ret r"
    by (meson list.set_intros)
  then show ?case
    by (cases b) auto
qed simp

lemma mset_swap_remove:
  assumes "i < length xs"
  shows "mset (xs ! i # swap_remove xs i) = mset xs"
proof -
  let ?ys = "xs[i := last xs]"
  from assms have ne: "xs \<noteq> []" and "?ys \<noteq> []"
    by auto
  then have "?ys = butlast ?ys @ [last ?ys]"
    by simp
  moreover have "last ?ys = last xs"
    using ne assms by (auto simp: last_conv_nth nth_list_update)
  ultimately have "mset ?ys = add_mset (last xs) (mset (swap_remove xs i))"
    by (metis butlast_conv_take length_list_update mset_append mset_single_iff_right
        swap_remove_def union_mset_add_mset_right add.right_neutral mset.simps)
  then have "mset (swap_remove xs i) = mset xs - {#xs ! i#}"
    using assms by (simp add: mset_update)
  with assms show ?thesis
    by simp
qed

lemma Union_update_insert:
  "j < length xs \<Longrightarrow> \<Union> (set (xs[j := insert b (xs ! j)])) = insert b (\<Union> (set xs))"
  by (induction xs arbitrary: j) (auto split: nat.splits)

lemma Union_set_nth: "\<Union> (set xs) = (\<Union>i<length xs. xs ! i)"
  by (auto simp: in_set_conv_nth) (meson nth_mem)

lemma Union_update_remove:
  assumes "j < length xs" and "\<And>i. i < length xs \<Longrightarrow> b \<in> xs ! i \<Longrightarrow> i = j"
  shows "\<Union> (set (xs[j := xs ! j - {b}])) = \<Union> (set xs) - {b}"
  using assms by (auto simp: Union_set_nth nth_list_update split: if_splits)

lemma is_mem_overlap_False:
  "is_mem_overlap rg addr len = Ret False \<Longrightarrow> span (addr, len) \<inter> span (rg_addr rg, rg_len rg) = {}"
  by (auto simp: is_mem_overlap_def obind_eq_Ret add_ovf_eq_Ret checked_add_eq_Some span_def
      word_less_nat_alt split: option.splits)

lemma any_overlap_False:
  "any_overlap rgs addr len = Ret False \<Longrightarrow> rg \<in> set rgs \<Longrightarrow>
     span (addr, len) \<inter> span (rg_addr rg, rg_len rg) = {}"
proof (induction rgs)
  case (Cons r rgs)
  then have "is_mem_overlap r addr len = Ret False" and "any_overlap rgs addr len = Ret False"
    by (auto simp: obind_eq_Ret split: if_splits)
  with Cons.IH Cons.prems(2) is_mem_overlap_False [of r addr len] show ?case
    by auto
qed simp

lemma is_mem_contained_Ret:
  assumes "is_mem_contained rg addr len = Ret b" and "len \<noteq> 0"
  shows "b \<longleftrightarrow> span (addr, len) \<subseteq> span (rg_addr rg, rg_len rg)"
proof -
  obtain e where e: "unat e = unat (rg_addr rg) + unat (rg_len rg)" and
    b: "Ret b = (case checked_add addr len of Some t \<Rightarrow> Ret (rg_addr rg \<le> addr \<and> t \<le> e) | None \<Rightarrow> Ret False)"
    using assms(1) by (auto simp: is_mem_contained_def obind_eq_Ret add_ovf_eq_Ret)
  show ?thesis
  proof (cases "checked_add addr len")
    case None
    then have "2 ^ 64 \<le> unat addr + unat len"
      by (simp add: checked_add_eq_None)
    with None b e assms(2) unat_usize [of e] show ?thesis
      by (auto simp: span_subset_iff)
  next
    case (Some t)
    then have "unat t = unat addr + unat len"
      using checked_add_eq_Some [of addr len t] by blast
    with Some b e assms(2) show ?thesis
      by (auto simp: span_subset_iff word_le_nat_alt)
  qed
qed

lemma is_mem_contained_defined:
  "unat (rg_addr rg) + unat (rg_len rg) < 2 ^ 64 \<Longrightarrow> \<exists>b. is_mem_contained rg addr len = Ret b"
  using add_ovf_Panic_iff [of "rg_addr rg" "rg_len rg"]
  by (cases "add_ovf (rg_addr rg) (rg_len rg)")
    (auto simp: is_mem_contained_def split: option.splits)

section \<open>Keys\<close>

lemma keys_ok_new:
  "keys_ok 0 (slot_new UNI_SECMEM_PMP_ALLOCMASK UNI_SECMEM_PMP_MANAGEMASK) []"
proof -
  have "bit_list UNI_SECMEM_PMP_ALLOCMASK = [2..<16]"
    by code_simp
  then have "set (bit_list UNI_SECMEM_PMP_ALLOCMASK) = {2..<16}"
    by (simp only: set_upt)
  then have "{i. bit UNI_SECMEM_PMP_ALLOCMASK i} = {2..15}"
    by (simp add: set_bit_list atLeastLessThanSuc_atLeastAtMost [symmetric])
  then show ?thesis
    by (auto simp: keys_ok_def slots_held_def slots_of_def pool_ok_def slot_inv_iff allocatable_def
        slot_new_def)
qed

lemma keys_ok_append:
  assumes "keys_ok cur (hw_manager p) ks" and "test_alloc p = (Some hwid, p')"
    and "add_ovf cur 1 = Ret i"
    and "\<forall>k\<in>set ks. span ar \<inter> span (key_area k) = {}"
  shows "keys_ok i (hw_manager p') (ks @ [(ar, i, hwid)])"
proof -
  note ok = assms(1) [unfolded keys_ok_def]
  note al = test_pool.alloc_keeps_held [OF _ _ assms(2), of "map key_slot ks"]
  have i: "unat i = unat cur + 1"
    using assms(3) [unfolded add_ovf_eq_Ret, THEN conjunct2] by simp
  then have "k \<in> set ks \<Longrightarrow> key_id k < i" for k
    using ok by (force simp: word_less_nat_alt word_le_nat_alt)
  then have "i \<notin> key_id ` set ks" and "\<forall>k\<in>set ks. key_id k \<le> i"
    by (auto intro: order.strict_implies_order)
  with al assms(4) ok show ?thesis
    by (simp add: keys_ok_def pairwise_insert Int_commute)
qed

lemma keys_ok_remove:
  assumes "keys_ok cur (hw_manager p) gs" and "mset gs = mset (k # ks)"
  obtains p' where "test_free p (key_slot k) = (True, p')" and "keys_ok cur (hw_manager p') ks"
proof -
  note ok = assms(1) [unfolded keys_ok_def]
  have set: "set gs = insert k (set ks)"
    using assms(2) by (metis list.simps(15) set_mset_mset)
  have "distinct (map f (k # ks)) = distinct (map f gs)" for f :: "region_key \<Rightarrow> 'b"
    using assms(2) by (metis mset_eq_imp_distinct_iff mset_map)
  then have ids: "distinct (map key_id (k # ks))" and slots: "distinct (map key_slot (k # ks))"
    using ok by (auto simp: slots_held_def simp del: list.map)
  obtain p' where "test_free p (key_slot k) = (True, p')" "pool_ok (hw_manager p')"
    "slots_held (slots_of (hw_manager p')) (map key_slot ks)"
    "allocatable (hw_manager p') = allocatable (hw_manager p)"
    using test_pool.free_keeps_held [of p "map key_slot gs" "map key_slot ks" "key_slot k"] ok slots set
    by auto
  moreover from this ids ok set have "keys_ok cur (hw_manager p') ks"
    by (auto simp: keys_ok_def pairwise_insert)
  ultimately show ?thesis
    using that by blast
qed

lemma keys_ok_nth:
  assumes "keys_ok cur hw ks" and "i < length ks" and "j < length ks" and "i \<noteq> j"
  shows "span (key_area (ks ! i)) \<inter> span (key_area (ks ! j)) = {}"
    and "key_slot (ks ! i) \<noteq> key_slot (ks ! j)" and "key_id (ks ! i) \<noteq> key_id (ks ! j)"
proof -
  note ok = assms(1) [unfolded keys_ok_def slots_held_def]
  show id: "key_id (ks ! i) \<noteq> key_id (ks ! j)"
    using ok assms(2-4) nth_eq_iff_index_eq [of "map key_id ks" i j] by simp
  show "key_slot (ks ! i) \<noteq> key_slot (ks ! j)"
    using ok assms(2-4) nth_eq_iff_index_eq [of "map key_slot ks" i j] by simp
  have "ks ! i \<noteq> ks ! j"
    using id by auto
  then show "span (key_area (ks ! i)) \<inter> span (key_area (ks ! j)) = {}"
    using ok assms(2,3) by (simp add: pairwise_def)
qed

lemma keys_ok_slot: "keys_ok cur hw ks \<Longrightarrow> k \<in> set ks \<Longrightarrow> unat (key_slot k) \<in> {2..15}"
proof -
  assume ok: "keys_ok cur hw ks" and "k \<in> set ks"
  then have "unat (key_slot k) \<in> slots_of hw"
    by (auto simp: keys_ok_def slots_held_def)
  with pmp_pool.held_pool [of hw] ok show ?thesis
    by (auto simp: keys_ok_def)
qed

section \<open>The regions of the manager\<close>

abbreviation keys_inv :: "('r, 'a) UniSecMemManager \<Rightarrow> bool" where
  "keys_inv m \<equiv> keys_ok (cur_idx m) (hw_manager (protector m)) (map region_key (alloc_regions m))"

lemma mgr_extend_cases:
  assumes "keys_inv m" and "mgr_extend cap m addr len = Ret (b, m')"
  obtains (rejected) "\<not> b" "m' = m"
  | (no_slot) "b" "m' = m" "slots_of (hw_manager (protector m)) = {2..15}"
  | (added) hwid i p where "b" "check_pmp_area_available addr len NAPOT"
      "length (alloc_regions m) < cap" "any_overlap (alloc_regions m) addr len = Ret False"
      "test_alloc (protector m) = (Some hwid, p)" "add_ovf (cur_idx m) 1 = Ret i"
      "m' = m\<lparr>protector := p, cur_idx := i,
         alloc_regions := alloc_regions m @ [region_new addr len i hwid]\<rparr>"
proof (cases "test_is_protectable (protector m) addr len \<and> \<not> cap \<le> length (alloc_regions m) \<and>
    any_overlap (alloc_regions m) addr len = Ret False")
  case True
  then have area: "check_pmp_area_available addr len NAPOT" "length (alloc_regions m) < cap"
    "any_overlap (alloc_regions m) addr len = Ret False"
    by (simp_all add: test_is_protectable_def)
  have pool: "pool_ok (hw_manager (protector m))" "allocatable (hw_manager (protector m)) = {2..15}"
    using assms(1) by (auto simp: keys_ok_def)
  obtain r p where al: "test_alloc (protector m) = (r, p)"
    by fastforce
  show ?thesis
  proof (cases r)
    case None
    then have "p = protector m" and "slots_of (hw_manager (protector m)) = {2..15}"
      using test_pool.alloc_None [OF pool(1), of p] al pool(2) by auto
    with assms(2) True al None no_slot show ?thesis
      by (auto simp: mgr_extend_def)
  next
    case (Some hwid)
    with assms(2) True al obtain i where "add_ovf (cur_idx m) 1 = Ret i" "b"
      "m' = m\<lparr>protector := p, cur_idx := i,
         alloc_regions := alloc_regions m @ [region_new addr len i hwid]\<rparr>"
      by (auto simp: mgr_extend_def test_retrive_access_all_def obind_eq_Ret)
    with added area al Some show ?thesis
      by blast
  qed
next
  case False
  then show ?thesis
    using assms(2) rejected by (auto simp: mgr_extend_def obind_eq_Ret split: if_splits)
qed

lemma regions_disjoint:
  assumes "keys_inv m" and "i < length (alloc_regions m)" and "j < length (alloc_regions m)" and "i \<noteq> j"
  shows "span (rg_addr (alloc_regions m ! i), rg_len (alloc_regions m ! i)) \<inter>
      span (rg_addr (alloc_regions m ! j), rg_len (alloc_regions m ! j)) = {}"
    and "rg_slot (alloc_regions m ! i) \<noteq> rg_slot (alloc_regions m ! j)"
    and "rg_id (alloc_regions m ! i) \<noteq> rg_id (alloc_regions m ! j)"
  using keys_ok_nth [OF assms(1), of i j] assms(2-4)
  by simp_all

lemma mgr_reclaim_cases:
  assumes "keys_inv m"
  obtains (none) "mgr_reclaim m = (None, m)" "\<forall>rg\<in>set (alloc_regions m). rg_used rg"
  | (some) i rg p where "i < length (alloc_regions m)" "rg = alloc_regions m ! i" "\<not> rg_used rg"
      "test_free (protector m) (rg_slot rg) = (True, p)"
      "keys_ok (cur_idx m) (hw_manager p) (map region_key (swap_remove (alloc_regions m) i))"
      "mgr_reclaim m = (Some (rg_addr rg, rg_len rg),
         m\<lparr>alloc_regions := swap_remove (alloc_regions m) i, protector := p\<rparr>)"
proof (cases "position (\<lambda>rg. \<not> rg_used rg) (alloc_regions m)")
  case None
  then have "mgr_reclaim m = (None, m)"
    by (simp add: mgr_reclaim_def)
  with none None show ?thesis
    by (simp add: position_None)
next
  case (Some i)
  let ?rg = "alloc_regions m ! i"
  note i = position_Some [OF Some]
  from mset_swap_remove [of i "alloc_regions m"] i
  have "mset (map region_key (alloc_regions m))
      = mset (region_key ?rg # map region_key (swap_remove (alloc_regions m) i))"
    by (metis list.simps(9) mset_map)
  from keys_ok_remove [OF _ this] assms obtain p where
    "test_free (protector m) (rg_slot ?rg) = (True, p)"
    "keys_ok (cur_idx m) (hw_manager p) (map region_key (swap_remove (alloc_regions m) i))"
    by auto
  with some [of i ?rg p] i Some show ?thesis
    by (simp add: mgr_reclaim_def Let_def test_disable_def)
qed

lemma keys_init:
  assumes "keys_inv m" and "mgr_init m a l = Ret (b, m')"
  shows "keys_inv m'" and "alloc_regions m' = alloc_regions m"
proof -
  have m': "m' = m \<or> (\<exists>i rs. m' = m\<lparr>reserved_regions := rs, cur_idx := i\<rparr> \<and> add_ovf (cur_idx m) 1 = Ret i)"
    using assms(2) by (auto simp: mgr_init_def test_protector_defs obind_eq_Ret split: if_splits)
  then show "alloc_regions m' = alloc_regions m"
    by auto
  have "keys_ok i hw ks" if "keys_ok (cur_idx m) hw ks" and "add_ovf (cur_idx m) 1 = Ret i" for i hw ks
  proof -
    have "cur_idx m \<le> i"
      using that(2) [unfolded add_ovf_eq_Ret, THEN conjunct2] by (simp add: word_le_nat_alt)
    with that(1) show ?thesis
      by (auto simp: keys_ok_def intro: order.trans)
  qed
  with m' assms(1) show "keys_inv m'"
    by auto
qed

lemma keys_extend:
  assumes "keys_inv m" and "mgr_extend cap m addr len = Ret (b, m')"
  shows "keys_inv m'"
  using assms
proof (cases rule: mgr_extend_cases)
  case (added hwid i p)
  have "\<forall>k\<in>set (map region_key (alloc_regions m)). span (addr, len) \<inter> span (key_area k) = {}"
    using any_overlap_False [OF added(4)] by auto
  then have "keys_ok i (hw_manager p) (map region_key (alloc_regions m) @ [((addr, len), i, hwid)])"
    using keys_ok_append added(5,6) assms(1) by blast
  then show ?thesis
    by (simp add: added(7) region_key_def region_new_def)
qed (use assms(1) in auto)

lemma keys_reclaim:
  assumes "keys_inv m" and "mgr_reclaim m = (r, m')"
  shows "keys_inv m'"
  using assms(1)
proof (cases rule: mgr_reclaim_cases)
  case (some i rg p)
  then show ?thesis
    using assms(2) by auto
qed (use assms in auto)

text \<open>Allocating and freeing leave every region its area, identifier and slot, whatever the allocators do.\<close>

lemma assign_allocator_key: "assign_allocator AR AA em rg = Ret rg' \<Longrightarrow> region_key rg' = region_key rg"
  by (auto simp: assign_allocator_def omap_eq_Ret split: SecMemAllocatorWrapper.splits SecMemType.splits)

lemma alloc_in_region_key: "alloc_in_region AR AA em el rg = Ret (att, rg', el') \<Longrightarrow> region_key rg' = region_key rg"
  by (auto simp: alloc_in_region_def obind_eq_Ret
      split: SecMemAllocatorWrapper.splits if_splits option.splits prod.splits)

lemma alloc_em_loop_keys:
  "alloc_em_loop AR AA len em el rgs = Ret (res, rgs') \<Longrightarrow> map region_key rgs' = map region_key rgs"
proof (induction rgs arbitrary: el res rgs')
  case (Cons rg rgs)
  show ?case
  proof (cases "rg_len rg < len")
    case True
    with Cons show ?thesis
      by (auto simp: omap_eq_Ret)
  next
    case False
    with Cons.prems obtain rg0 att rg1 el1 where run: "assign_allocator AR AA em rg = Ret rg0"
      "alloc_in_region AR AA em el rg0 = Ret (att, rg1, el1)"
      by (auto simp: obind_eq_Ret)
    then have "region_key rg1 = region_key rg"
      using assign_allocator_key alloc_in_region_key by metis
    with Cons False run show ?thesis
      by (cases att) (auto simp: omap_eq_Ret)
  qed
qed simp

lemma alloc_em_keys: "mgr_alloc_em AR AA m len em = Ret (res, m') \<Longrightarrow> keys_inv m' = keys_inv m"
  by (auto simp: mgr_alloc_em_def obind_eq_Ret omap_eq_Ret dest: alloc_em_loop_keys)

lemma free_in_region_key: "free_in_region AR AA p l rg = Ret (r, rg') \<Longrightarrow> region_key rg' = region_key rg"
  by (auto simp: free_in_region_def after_free_def obind_eq_Ret omap_eq_Ret
      split: SecMemAllocatorWrapper.splits if_splits)

lemma map_key_update:
  "region_key rg = region_key (rgs ! i) \<Longrightarrow> map region_key (rgs[i := rg]) = map region_key rgs"
  by (cases "i < length rgs") (simp_all add: map_update list_update_same_conv list_update_beyond)

lemma free_em_keys:
  assumes "mgr_free_em AR AA m mem p n = Ret (r, m', mem')"
  shows "keys_inv m' = keys_inv m"
proof -
  obtain el where el: "next_power_of_two n = Ret el"
    using assms by (auto simp: mgr_free_em_def obind_eq_Ret)
  show ?thesis
  proof (cases "p = 0 \<or> from_size_align el el = None")
    case True
    with assms el show ?thesis
      by (auto simp: mgr_free_em_def split: option.splits)
  next
    case False
    then obtain l where l: "from_size_align el el = Some l"
      by blast
    with assms el False obtain f where f: "find_region (\<lambda>rg. is_mem_contained rg p n) (alloc_regions m) = Ret f"
      by (auto simp: mgr_free_em_def obind_eq_Ret)
    show ?thesis
      using assms el l False f
      by (cases f) (auto simp: mgr_free_em_def omap_eq_Ret dest!: free_in_region_key map_key_update)
  qed
qed

section \<open>Allocating and freeing inside one region\<close>

locale sec_mem_clients =
  r: exclusive_allocator AR sR bR + a: shared_allocator AA sA bA
  for AR :: "'r sec_mem_allocator" and sR bR and AA :: "'a sec_mem_allocator" and sA bA
begin

abbreviation "good \<equiv> region_ok sR bR sA bA"
abbreviation "blks rg \<equiv> wrapper_blocks bR bA (rg_allocator rg)"

lemma good_blocks:
  "good rg \<Longrightarrow> blocks_ok (rg_addr rg, rg_len rg) (blks rg)"
  by (cases "rg_allocator rg")
    (auto simp: region_ok_def wrapper_serves_def wrapper_blocks_def r.inv_blocks a.inv_blocks)

lemma assign_allocator_ok:
  assumes "good rg" and "assign_allocator AR AA em rg = Ret rg'"
  shows "good rg'" and "blks rg' = blks rg" and "region_key rg' = region_key rg"
  using assms napot_fits [of "rg_addr rg" "rg_len rg"]
    r.init_inv [of "rg_len rg" "rg_addr rg"] a.init_inv [of "rg_len rg" "rg_addr rg"]
  by (auto simp: assign_allocator_def region_ok_def wrapper_serves_def wrapper_blocks_def omap_eq_Ret
      simp del: check_pmp_area_available.simps
      split: SecMemAllocatorWrapper.splits SecMemType.splits)

lemma assign_allocator_Ret:
  "heap_area (rg_addr rg, rg_len rg) \<Longrightarrow> \<exists>rg'. assign_allocator AR AA em rg = Ret rg'"
  using r.init_Ret [of "rg_addr rg" "rg_len rg"] a.init_Ret [of "rg_addr rg" "rg_len rg"]
  by (auto simp: assign_allocator_def split: SecMemAllocatorWrapper.splits SecMemType.splits)

text \<open>What an attempt in one region may do.\<close>

definition attempt_ok where
  "attempt_ok em el rg att rg' el' \<longleftrightarrow>
     region_key rg' = region_key rg \<and> el \<le> el' \<and>
     (case att of
        EmOk p \<Rightarrow> good (rg'\<lparr>rg_used := True\<rparr>) \<and> (p, el') \<notin> blks rg \<and>
          blks rg' = insert (p, el') (blks rg) \<and> wrapper_type (rg_allocator rg') = em \<and>
          (\<exists>k<63. el' = one_bit k)
      | _ \<Rightarrow> good rg' \<and> blks rg' = blks rg)"

lemma alloc_in_region_ok:
  assumes "good rg" and "el \<noteq> 0"
  shows "\<exists>att rg' el'. alloc_in_region AR AA em el rg = Ret (att, rg', el') \<and>
    attempt_ok em el rg att rg' el'"
proof (cases "rg_allocator rg")
  case (Runtime s)
  have s: "sR (rg_addr rg, rg_len rg) s"
    using assms(1) Runtime by (simp add: region_ok_def wrapper_serves_def)
  obtain av where av: "a_available AR s = Ret av"
    using r.available_Ret [OF s] by blast
  show ?thesis
  proof (cases "em = TRuntime \<and> el \<le> av \<and> from_size_align av av \<noteq> None")
    case True
    then obtain l k where l: "from_size_align av av = Some l" and k: "k < 63" "av = one_bit k"
      and lay: "l = \<lparr>lay_size = av, lay_align = av\<rparr>"
      using from_size_align_eq_Some [of av] by fastforce
    have nz: "av \<noteq> 0"
      using True assms(2) by auto
    obtain res s' where al: "a_alloc AR s l = (res, s')"
      by fastforce
    show ?thesis
    proof (cases res)
      case None
      with r.alloc_None [OF s av order.refl, of s'] al lay show ?thesis
        using True assms(1) Runtime av l
        by (auto simp: alloc_in_region_def em_result_def attempt_ok_def region_ok_def
            wrapper_serves_def wrapper_blocks_def)
    next
      case (Some p)
      with r.alloc_whole [OF s av nz, of p s'] al lay show ?thesis
        using True assms(1) Runtime av l k
        by (auto simp: alloc_in_region_def em_result_def attempt_ok_def region_ok_def
            wrapper_serves_def wrapper_blocks_def)
    qed
  qed (use assms(1) Runtime av in \<open>auto simp: alloc_in_region_def attempt_ok_def\<close>)
next
  case (Application s)
  have s: "sA (rg_addr rg, rg_len rg) s"
    using assms(1) Application by (simp add: region_ok_def wrapper_serves_def)
  obtain av where av: "a_available AA s = Ret av"
    using a.available_Ret [OF s] by blast
  show ?thesis
  proof (cases "em = TApplication \<and> el \<le> av \<and> from_size_align el el \<noteq> None")
    case True
    then obtain l k where l: "from_size_align el el = Some l" and k: "k < 63" "el = one_bit k"
      and lay: "l = \<lparr>lay_size = el, lay_align = el\<rparr>"
      using from_size_align_eq_Some [of el] by fastforce
    obtain res s' where al: "a_alloc AA s l = (res, s')"
      by fastforce
    show ?thesis
    proof (cases res)
      case None
      with a.alloc_None [OF s av, of el s'] al lay show ?thesis
        using True assms(1) Application av l
        by (auto simp: alloc_in_region_def em_result_def attempt_ok_def region_ok_def
            wrapper_serves_def wrapper_blocks_def)
    next
      case (Some p)
      with a.alloc_part [OF s av assms(2), of p s'] al lay show ?thesis
        using True assms(1) Application av l k
        by (auto simp: alloc_in_region_def em_result_def attempt_ok_def region_ok_def
            wrapper_serves_def wrapper_blocks_def)
    qed
  qed (use assms(1) Application av in \<open>auto simp: alloc_in_region_def attempt_ok_def\<close>)
qed (use assms(1) in \<open>auto simp: alloc_in_region_def attempt_ok_def\<close>)

text \<open>What the loop over the regions may do.\<close>

definition loop_ok where
  "loop_ok em el rgs res rgs' \<longleftrightarrow>
     map region_key rgs' = map region_key rgs \<and> (\<forall>rg\<in>set rgs'. good rg) \<and>
     (case res of
        None \<Rightarrow> map blks rgs' = map blks rgs
      | Some (p, n, i) \<Rightarrow> el \<le> n \<and> (\<exists>k<63. n = one_bit k) \<and>
          (\<exists>j<length rgs. rg_id (rgs ! j) = i \<and> wrapper_type (rg_allocator (rgs' ! j)) = em \<and>
             (p, n) \<notin> blks (rgs ! j) \<and> rg_used (rgs' ! j) \<and>
             map blks rgs' = (map blks rgs)[j := insert (p, n) (blks (rgs ! j))]))"

lemma loop_ok_Cons:
  assumes "loop_ok em el' rgs res rgs'" and "el \<le> el'" and "region_key rg' = region_key rg"
    and "good rg'" and "blks rg' = blks rg"
  shows "loop_ok em el (rg # rgs) res (rg' # rgs')"
proof (cases res)
  case None
  with assms show ?thesis
    by (auto simp: loop_ok_def)
next
  case (Some x)
  obtain p n i where x: "x = (p, n, i)"
    by (cases x)
  with assms(1) Some obtain j where j: "el' \<le> n" "\<exists>k<63. n = one_bit k" "j < length rgs"
    "rg_id (rgs ! j) = i" "wrapper_type (rg_allocator (rgs' ! j)) = em" "(p, n) \<notin> blks (rgs ! j)"
    "rg_used (rgs' ! j)" "map blks rgs' = (map blks rgs)[j := insert (p, n) (blks (rgs ! j))]"
    by (auto simp: loop_ok_def)
  have "el \<le> n"
    using assms(2) j(1) by (rule order.trans)
  with assms Some x j show ?thesis
    by (auto simp: loop_ok_def intro!: exI [of _ "Suc j"])
qed

text \<open>The loop returns unless an allocator cannot be made of the area of a region.\<close>

lemma alloc_em_loop_ok:
  assumes "\<forall>rg\<in>set rgs. good rg" and "el \<noteq> 0"
  shows "case alloc_em_loop AR AA len em el rgs of
      Panic \<Rightarrow> \<exists>rg\<in>set rgs. assign_allocator AR AA em rg = Panic
    | Ret (res, rgs') \<Rightarrow> loop_ok em el rgs res rgs'"
  using assms
proof (induction rgs arbitrary: el)
  case Nil
  then show ?case
    by (simp add: loop_ok_def)
next
  case (Cons rg rgs)
  then have rg: "good rg" and rgs: "\<forall>rg\<in>set rgs. good rg"
    by auto
  show ?case
  proof (cases "rg_len rg < len")
    case True
    with Cons.IH [OF rgs Cons.prems(2)] rg show ?thesis
      by (cases "alloc_em_loop AR AA len em el rgs") (auto intro!: loop_ok_Cons [of em el])
  next
    case False
    show ?thesis
    proof (cases "assign_allocator AR AA em rg")
      case Panic
      with False show ?thesis
        by simp
    next
      case (Ret rg0)
      note as = assign_allocator_ok [OF rg Ret]
      obtain att rg' el' where att: "alloc_in_region AR AA em el rg0 = Ret (att, rg', el')"
        and ok: "attempt_ok em el rg0 att rg' el'"
        using alloc_in_region_ok [OF as(1) Cons.prems(2), of em] by blast
      have el': "el \<le> el'" "el' \<noteq> 0" and key: "region_key rg' = region_key rg"
        using ok as(3) Cons.prems(2) by (auto simp: attempt_ok_def)
      show ?thesis
      proof (cases att)
        case EmReturn
        with False Ret att ok key as(2) rgs show ?thesis
          by (auto simp: attempt_ok_def loop_ok_def)
      next
        case EmErr
        with ok as(2) have "good rg'" "blks rg' = blks rg"
          by (auto simp: attempt_ok_def)
        with Cons.IH [OF rgs el'(2)] False Ret att EmErr el' key show ?thesis
          by (cases "alloc_em_loop AR AA len em el' rgs") (auto intro!: loop_ok_Cons [of em el'])
      next
        case (EmOk p)
        with False Ret att ok key as(2) rgs el' region_key_eq [OF key] show ?thesis
          by (auto simp: attempt_ok_def loop_ok_def intro!: exI [of _ 0])
      qed
    qed
  qed
qed

lemma after_free_ok:
  assumes "good rg" and "rg_used rg" and "a_available ops s = Ret av"
    and "av = a_total ops s \<longleftrightarrow> wrapper_blocks bR bA (wrap s) = {}"
    and "wrapper_serves sR sA (rg_addr rg, rg_len rg) (wrap s)"
    and "wrapper_blocks bR bA (wrap s) = blks rg - {b}"
  shows "\<exists>rg'. after_free ops wrap rg s = Ret rg' \<and> region_key rg' = region_key rg \<and> good rg' \<and>
    blks rg' = blks rg - {b} \<and> (blks rg = {b} \<longrightarrow> \<not> rg_used rg' \<and> rg_allocator rg' = General)"
proof (cases "wrapper_blocks bR bA (wrap s) = {}")
  case True
  have "good (rg\<lparr>rg_used := False, rg_allocator := General\<rparr>)"
    using assms(1) by (simp add: region_ok_def wrapper_serves_def wrapper_blocks_def)
  moreover have "wrapper_blocks bR bA (General :: ('r, 'a) SecMemAllocatorWrapper) = {}"
    by (simp add: wrapper_blocks_def)
  ultimately show ?thesis
    using True assms(3,4,6) by (simp add: after_free_def)
next
  case False
  have "good (rg\<lparr>rg_allocator := wrap s\<rparr>)"
    using assms(1,2,5,6) by (simp add: region_ok_def)
  moreover have "blks rg \<noteq> {b}"
    using False assms(6) by auto
  ultimately show ?thesis
    using False assms(3,4,6) by (simp add: after_free_def)
qed

lemma free_in_region_ok:
  assumes "good rg" and "(p, n) \<in> blks rg"
  shows "\<exists>rg'. free_in_region AR AA p \<lparr>lay_size = n, lay_align = n\<rparr> rg = Ret (Some (rg_id rg), rg') \<and>
    region_key rg' = region_key rg \<and> good rg' \<and> blks rg' = blks rg - {(p, n)} \<and>
    (blks rg = {(p, n)} \<longrightarrow> \<not> rg_used rg' \<and> rg_allocator rg' = General)"
proof (cases "rg_allocator rg")
  case (Runtime s)
  have s: "sR (rg_addr rg, rg_len rg) s" and b: "(p, n) \<in> bR s" and used: "rg_used rg"
    using assms Runtime by (auto simp: region_ok_def wrapper_serves_def wrapper_blocks_def)
  obtain s' where s': "a_free AR s p \<lparr>lay_size = n, lay_align = n\<rparr> = Ret s'"
    "sR (rg_addr rg, rg_len rg) s'" "bR s' = bR s - {(p, n)}"
    "bR s' = {} \<longrightarrow> a_available AR s' = Ret (a_total AR s')"
    using r.free_block [OF s b] by blast
  obtain av where av: "a_available AR s' = Ret av"
    using r.available_Ret [OF s'(2)] by blast
  have "av = a_total AR s' \<longleftrightarrow> bR s' = {}"
    using s'(4) av r.full_empty [OF s'(2)] by auto
  then have "\<exists>rg'. after_free AR Runtime rg s' = Ret rg' \<and> region_key rg' = region_key rg \<and> good rg' \<and>
      blks rg' = blks rg - {(p, n)} \<and> (blks rg = {(p, n)} \<longrightarrow> \<not> rg_used rg' \<and> rg_allocator rg' = General)"
    using s' Runtime by (intro after_free_ok [OF assms(1) used av])
      (simp_all add: wrapper_blocks_def wrapper_serves_def)
  with s'(1) Runtime show ?thesis
    by (auto simp: free_in_region_def)
next
  case (Application s)
  have s: "sA (rg_addr rg, rg_len rg) s" and b: "(p, n) \<in> bA s" and used: "rg_used rg"
    using assms Application by (auto simp: region_ok_def wrapper_serves_def wrapper_blocks_def)
  obtain s' where s': "a_free AA s p \<lparr>lay_size = n, lay_align = n\<rparr> = Ret s'"
    "sA (rg_addr rg, rg_len rg) s'" "bA s' = bA s - {(p, n)}"
    "bA s' = {} \<longrightarrow> a_available AA s' = Ret (a_total AA s')"
    using a.free_block [OF s b] by blast
  obtain av where av: "a_available AA s' = Ret av"
    using a.available_Ret [OF s'(2)] by blast
  have "av = a_total AA s' \<longleftrightarrow> bA s' = {}"
    using s'(4) av a.full_empty [OF s'(2)] by auto
  then have "\<exists>rg'. after_free AA Application rg s' = Ret rg' \<and> region_key rg' = region_key rg \<and> good rg' \<and>
      blks rg' = blks rg - {(p, n)} \<and> (blks rg = {(p, n)} \<longrightarrow> \<not> rg_used rg' \<and> rg_allocator rg' = General)"
    using s' Application by (intro after_free_ok [OF assms(1) used av])
      (simp_all add: wrapper_blocks_def wrapper_serves_def)
  with s'(1) Application show ?thesis
    by (auto simp: free_in_region_def)
qed (use assms in \<open>auto simp: wrapper_blocks_def\<close>)

end

section \<open>The operations of the manager\<close>

context sec_mem_clients
begin

abbreviation "minv \<equiv> mgr_inv sR bR sA bA"
abbreviation "live m \<equiv> live_blocks bR bA (alloc_regions m)"

lemma live_eq: "live_blocks bR bA rgs = \<Union> (set (map blks rgs))"
  by (simp add: live_blocks_def)

lemma minv_new: "minv mgr_new"
  using keys_ok_new by (simp add: mgr_inv_def mgr_new_def test_protector_new_def)

lemma minv_keys: "minv m \<Longrightarrow> keys_inv m"
  by (simp add: mgr_inv_def)

lemma minv_init: "minv m \<Longrightarrow> mgr_init m a l = Ret (b, m') \<Longrightarrow> minv m'"
  using keys_init [of m a l b m'] by (auto simp: mgr_inv_def)

lemma good_new:
  "check_pmp_area_available addr len NAPOT \<Longrightarrow> good (region_new addr len i h)"
  by (simp add: region_ok_def region_new_def wrapper_serves_def wrapper_blocks_def)

lemma minv_extend:
  assumes "minv m" and "mgr_extend cap m addr len = Ret (b, m')"
  shows "minv m'" and "live m' = live m"
proof -
  have keys: "keys_inv m'"
    using keys_extend minv_keys assms by blast
  have "minv m' \<and> live m' = live m"
    using minv_keys [OF assms(1)] assms(2)
  proof (cases rule: mgr_extend_cases)
    case (added hwid i p)
    have "blks (region_new addr len i hwid) = {}"
      by (simp add: region_new_def wrapper_blocks_def)
    then show ?thesis
      using keys added(2,7) assms(1) good_new [of addr len i hwid]
      by (auto simp: mgr_inv_def live_blocks_def)
  qed (use assms(1) in auto)
  then show "minv m'" and "live m' = live m"
    by auto
qed

lemma live_in_region:
  assumes "minv m" and "b \<in> live m"
  obtains j where "j < length (alloc_regions m)" "b \<in> blks (alloc_regions m ! j)"
    "rg_used (alloc_regions m ! j)" "fst b \<noteq> 0" "snd b \<noteq> 0"
    "span b \<subseteq> span (rg_addr (alloc_regions m ! j), rg_len (alloc_regions m ! j))"
proof -
  from assms(2) obtain j where j: "j < length (alloc_regions m)" "b \<in> blks (alloc_regions m ! j)"
    by (auto simp: live_blocks_def in_set_conv_nth)
  then have "good (alloc_regions m ! j)"
    using assms(1) by (simp add: mgr_inv_def)
  with that j blocks_okD [OF good_blocks j(2)] show ?thesis
    by (auto simp: region_ok_def)
qed

lemma minv_reclaim:
  assumes "minv m" and "mgr_reclaim m = (r, m')"
  shows "minv m'" and "live m' = live m"
    and "r = Some ar \<Longrightarrow> b \<in> live m \<Longrightarrow> span b \<inter> span ar = {}"
proof -
  have *: "minv m' \<and> live m' = live m \<and>
      (r = Some ar \<longrightarrow> b \<in> live m \<longrightarrow> span b \<inter> span ar = {})"
    using minv_keys [OF assms(1)]
  proof (cases rule: mgr_reclaim_cases)
    case (some i rg p)
    let ?rgs = "alloc_regions m"
    have r: "r = Some (rg_addr rg, rg_len rg)"
      and m': "m' = m\<lparr>alloc_regions := swap_remove ?rgs i, protector := p\<rparr>"
      using assms(2) some(6) by auto
    have set: "set ?rgs = insert rg (set (swap_remove ?rgs i))"
      using mset_swap_remove [OF some(1)] some(2) by (metis list.simps(15) set_mset_mset)
    have empty: "blks rg = {}"
      using some(1-3) assms(1) nth_mem [of i ?rgs] by (auto simp: mgr_inv_def region_ok_def)
    have "span b \<inter> span (rg_addr rg, rg_len rg) = {}" if "b \<in> live m"
      using assms(1) that
    proof (rule live_in_region)
      fix j
      assume j: "j < length ?rgs" "b \<in> blks (?rgs ! j)"
        "span b \<subseteq> span (rg_addr (?rgs ! j), rg_len (?rgs ! j))"
      with empty some(2) have "i \<noteq> j"
        by auto
      with regions_disjoint(1) [OF minv_keys [OF assms(1)] some(1) j(1)] j(3) some(2) show ?thesis
        by blast
    qed
    with set empty some(5) assms(1) show ?thesis
      by (auto simp: mgr_inv_def live_blocks_def m' r)
  qed (use assms in auto)
  then show "minv m'" "live m' = live m"
    "r = Some ar \<Longrightarrow> b \<in> live m \<Longrightarrow> span b \<inter> span ar = {}"
    by auto
qed

lemma live_disjoint:
  assumes "minv m" and "b \<in> live m" and "c \<in> live m" and "b \<noteq> c"
  shows "span b \<inter> span c = {}"
proof -
  let ?rgs = "alloc_regions m"
  obtain i where i: "i < length ?rgs" "b \<in> blks (?rgs ! i)"
    "span b \<subseteq> span (rg_addr (?rgs ! i), rg_len (?rgs ! i))"
    using live_in_region [OF assms(1,2)] by metis
  obtain j where j: "j < length ?rgs" "c \<in> blks (?rgs ! j)"
    "span c \<subseteq> span (rg_addr (?rgs ! j), rg_len (?rgs ! j))"
    using live_in_region [OF assms(1,3)] by metis
  show ?thesis
  proof (cases "i = j")
    case True
    have "good (?rgs ! i)"
      using assms(1) i(1) by (simp add: mgr_inv_def)
    from blocks_okD(4) [OF good_blocks [OF this] i(2)] True j(2) assms(4) show ?thesis
      by simp
  next
    case False
    with regions_disjoint(1) [OF minv_keys [OF assms(1)] i(1) j(1)] i(3) j(3) show ?thesis
      by blast
  qed
qed

lemma live_owner:
  assumes "minv m" and "b \<in> blks (alloc_regions m ! i)" and "i < length (alloc_regions m)"
    and "j < length (alloc_regions m)" and "b \<in> blks (alloc_regions m ! j)"
  shows "i = j"
proof (rule ccontr)
  assume "i \<noteq> j"
  let ?rg = "\<lambda>k. alloc_regions m ! k"
  have "span b \<subseteq> span (rg_addr (?rg k), rg_len (?rg k)) \<and> snd b \<noteq> 0"
    if "k < length (alloc_regions m)" "b \<in> blks (?rg k)" for k
    using blocks_okD(2,3) [OF good_blocks that(2)] assms(1) that(1) by (auto simp: mgr_inv_def)
  with assms(2-5) regions_disjoint(1) [OF minv_keys [OF assms(1)] assms(3,4) \<open>i \<noteq> j\<close>] span_nonempty [of b] show False
    by blast
qed

lemma alloc_em_ok:
  assumes "minv m" and "mgr_alloc_em AR AA m len em = Ret (res, m')"
  obtains el rgs where "next_power_of_two len = Ret el" "m' = m\<lparr>alloc_regions := rgs\<rparr>"
    "loop_ok em el (alloc_regions m) res rgs" "minv m'"
proof -
  obtain el rgs where el: "next_power_of_two len = Ret el"
    and run: "alloc_em_loop AR AA len em el (alloc_regions m) = Ret (res, rgs)"
    and m': "m' = m\<lparr>alloc_regions := rgs\<rparr>"
    using assms(2) by (auto simp: mgr_alloc_em_def obind_eq_Ret omap_eq_Ret)
  then have loop: "loop_ok em el (alloc_regions m) res rgs"
    using alloc_em_loop_ok [of "alloc_regions m" el em len] next_power_of_two_props(3) [OF el] assms(1)
    by (simp add: mgr_inv_def)
  then have "minv m'"
    using assms(1) by (simp add: mgr_inv_def loop_ok_def m')
  with that el m' loop show ?thesis
    by blast
qed

lemma alloc_em_Ret:
  assumes "minv m" and "unat len \<le> 2 ^ 63"
    and "\<forall>rg\<in>set (alloc_regions m). heap_area (rg_addr rg, rg_len rg)"
  obtains res m' where "mgr_alloc_em AR AA m len em = Ret (res, m')"
proof -
  obtain el where el: "next_power_of_two len = Ret el"
    using next_power_of_two_Ret [OF assms(2)] by blast
  have "\<nexists>rg. rg \<in> set (alloc_regions m) \<and> assign_allocator AR AA em rg = Panic"
    using assign_allocator_Ret assms(3) by (metis outcome.distinct(1))
  then have "alloc_em_loop AR AA len em el (alloc_regions m) \<noteq> Panic"
    using alloc_em_loop_ok [of "alloc_regions m" el em len] next_power_of_two_props(3) [OF el] assms(1)
    by (auto simp: mgr_inv_def)
  then show ?thesis
    using that el by (cases "alloc_em_loop AR AA len em el (alloc_regions m)") (auto simp: mgr_alloc_em_def)
qed

lemma alloc_em_live:
  assumes "minv m" and "mgr_alloc_em AR AA m len em = Ret (res, m')"
  shows "minv m'" and "res = None \<Longrightarrow> live m' = live m"
    and "res = Some (p, n, i) \<Longrightarrow> len \<le> n \<and> (\<exists>k<63. n = one_bit k) \<and> (p, n) \<notin> live m \<and>
      live m' = insert (p, n) (live m) \<and>
      (\<exists>rg\<in>set (alloc_regions m'). rg_id rg = i \<and> rg_used rg \<and> (p, n) \<in> blks rg \<and>
         wrapper_type (rg_allocator rg) = em)"
proof -
  obtain el rgs where el: "next_power_of_two len = Ret el" and m': "m' = m\<lparr>alloc_regions := rgs\<rparr>"
    and loop: "loop_ok em el (alloc_regions m) res rgs" and inv: "minv m'"
    using alloc_em_ok [OF assms] by blast
  show "minv m'"
    by (rule inv)
  show "res = None \<Longrightarrow> live m' = live m"
    using loop by (simp add: loop_ok_def live_eq m')
  assume res: "res = Some (p, n, i)"
  let ?rgs = "alloc_regions m"
  from loop res obtain j where j: "el \<le> n" "\<exists>k<63. n = one_bit k" "j < length ?rgs"
    "rg_id (?rgs ! j) = i" "wrapper_type (rg_allocator (rgs ! j)) = em" "(p, n) \<notin> blks (?rgs ! j)"
    "rg_used (rgs ! j)" "map blks rgs = (map blks ?rgs)[j := insert (p, n) (blks (?rgs ! j))]"
    "map region_key rgs = map region_key ?rgs"
    by (auto simp: loop_ok_def)
  have len: "length rgs = length ?rgs"
    using j(9) by (metis length_map)
  have nth: "blks (rgs ! k) = (if k = j then insert (p, n) (blks (?rgs ! j)) else blks (?rgs ! k))"
    if "k < length ?rgs" for k
  proof -
    have "map blks rgs ! k = (map blks ?rgs)[j := insert (p, n) (blks (?rgs ! j))] ! k"
      by (simp only: j(8))
    with that j(3) len show ?thesis
      by (simp add: nth_list_update)
  qed
  have "map region_key rgs ! j = map region_key ?rgs ! j"
    by (simp only: j(9))
  then have "rg_id (rgs ! j) = i"
    using j(3,4) len region_key_eq [of "rgs ! j" "?rgs ! j"] by simp
  then have rg: "\<exists>rg\<in>set (alloc_regions m'). rg_id rg = i \<and> rg_used rg \<and> (p, n) \<in> blks rg \<and>
      wrapper_type (rg_allocator rg) = em"
    using j(3,5,7) nth [OF j(3)] len by (auto simp: m' intro!: bexI [of _ "rgs ! j"])
  have "(p, n) \<notin> live m"
  proof
    assume "(p, n) \<in> live m"
    then obtain k where k: "k < length ?rgs" "(p, n) \<in> blks (?rgs ! k)"
      by (auto simp: live_blocks_def in_set_conv_nth)
    then have "k = j"
      using live_owner [OF inv, of "(p, n)" k j] nth j(3) len by (simp add: m')
    with k j(6) show False
      by simp
  qed
  moreover have "live m' = insert (p, n) (live m)"
    using Union_update_insert [of j "map blks ?rgs" "(p, n)"] j(3,8) by (simp add: live_eq m')
  moreover have "len \<le> n"
    using next_power_of_two_props(1) [OF el] j(1) by (rule order.trans)
  ultimately show "len \<le> n \<and> (\<exists>k<63. n = one_bit k) \<and> (p, n) \<notin> live m \<and>
      live m' = insert (p, n) (live m) \<and>
      (\<exists>rg\<in>set (alloc_regions m'). rg_id rg = i \<and> rg_used rg \<and> (p, n) \<in> blks rg \<and>
         wrapper_type (rg_allocator rg) = em)"
    using j(2) rg by blast
qed

lemma find_owner:
  assumes "minv m" and "j < length (alloc_regions m)" and "(p, n) \<in> blks (alloc_regions m ! j)"
    and "find_region (\<lambda>rg. is_mem_contained rg p n) (alloc_regions m) = Ret r"
  shows "r = Some j"
proof -
  let ?rgs = "alloc_regions m"
  have "good (?rgs ! j)"
    using assms(1,2) by (simp add: mgr_inv_def)
  note b = blocks_okD [OF good_blocks [OF this] assms(3)]
  have nz: "n \<noteq> 0"
    using b(2) by simp
  note found = find_region_Ret [OF assms(4)]
  show ?thesis
  proof (cases r)
    case None
    with found assms(2) have "is_mem_contained (?rgs ! j) p n = Ret False"
      by simp
    from is_mem_contained_Ret [OF this nz] b(3) show ?thesis
      by simp
  next
    case (Some k)
    with found have k: "k < length ?rgs" "is_mem_contained (?rgs ! k) p n = Ret True"
      by auto
    from is_mem_contained_Ret [OF k(2) nz] regions_disjoint(1) [OF minv_keys [OF assms(1)] k(1) assms(2)] b(3)
      span_nonempty [of "(p, n)"] nz Some show ?thesis
      by (cases "k = j") auto
  qed
qed

lemma free_em_live:
  assumes "minv m" and "find_region (\<lambda>rg. is_mem_contained rg p n) (alloc_regions m) = Ret r"
    and "(p, n) \<in> live m"
  shows "\<exists>rg\<in>set (alloc_regions m). \<exists>m'.
    mgr_free_em AR AA m mem p n = Ret (Some (rg_id rg), m', clear_bytes mem p n) \<and> minv m' \<and>
    (p, n) \<in> blks rg \<and> live m' = live m - {(p, n)} \<and>
    map region_key (alloc_regions m') = map region_key (alloc_regions m) \<and>
    (blks rg = {(p, n)} \<longrightarrow>
      (\<exists>rg'\<in>set (alloc_regions m'). rg_id rg' = rg_id rg \<and> \<not> rg_used rg' \<and> rg_allocator rg' = General))"
proof -
  let ?rgs = "alloc_regions m"
  obtain j where j: "j < length ?rgs" "(p, n) \<in> blks (?rgs ! j)" "p \<noteq> 0"
    using live_in_region [OF assms(1,3)] by (metis fst_conv)
  have good: "good (?rgs ! j)"
    using assms(1) j(1) by (simp add: mgr_inv_def)
  then obtain k where k: "k < 63" "n = one_bit k"
    using j(2) by (fastforce simp: region_ok_def)
  obtain rg' where rg': "free_in_region AR AA p \<lparr>lay_size = n, lay_align = n\<rparr> (?rgs ! j)
      = Ret (Some (rg_id (?rgs ! j)), rg')"
    "region_key rg' = region_key (?rgs ! j)" "good rg'" "blks rg' = blks (?rgs ! j) - {(p, n)}"
    "blks (?rgs ! j) = {(p, n)} \<Longrightarrow> \<not> rg_used rg' \<and> rg_allocator rg' = General"
    using free_in_region_ok [OF good j(2)] by blast
  let ?m = "m\<lparr>alloc_regions := ?rgs[j := rg']\<rparr>"
  have run: "mgr_free_em AR AA m mem p n = Ret (Some (rg_id (?rgs ! j)), ?m, clear_bytes mem p n)"
    using rg'(1) j(3) k find_owner [OF assms(1) j(1,2) assms(2)] assms(2)
    by (simp add: mgr_free_em_def next_power_of_two_one_bit from_size_align_one_bit)
  have keys: "map region_key (?rgs[j := rg']) = map region_key ?rgs"
    using rg'(2) by (simp add: map_update list_update_same_conv j(1))
  have inv: "minv ?m"
    using assms(1) keys rg'(3) set_update_subset_insert [of ?rgs j rg']
    by (auto simp: mgr_inv_def)
  have gone: "live ?m = live m - {(p, n)}"
  proof -
    have uniq: "i = j" if "i < length (map blks ?rgs)" "(p, n) \<in> map blks ?rgs ! i" for i
      using that by (intro live_owner [OF assms(1) _ _ j(1,2)]) simp_all
    have upd: "map blks (?rgs[j := rg']) = (map blks ?rgs)[j := map blks ?rgs ! j - {(p, n)}]"
      using j(1) by (simp add: map_update rg'(4))
    have "live ?m = \<Union> (set (map blks (?rgs[j := rg'])))"
      by (simp add: live_blocks_def)
    also have "\<dots> = \<Union> (set (map blks ?rgs)) - {(p, n)}"
      unfolding upd using j(1) uniq by (intro Union_update_remove) simp_all
    finally show ?thesis
      by (simp only: live_eq)
  qed
  have "rg' \<in> set (?rgs[j := rg'])" and "rg_id rg' = rg_id (?rgs ! j)"
    using j(1) region_key_eq [OF rg'(2)] by (simp_all add: set_update_memI)
  then have reset: "blks (?rgs ! j) = {(p, n)} \<longrightarrow> (\<exists>rg'\<in>set (alloc_regions ?m).
      rg_id rg' = rg_id (?rgs ! j) \<and> \<not> rg_used rg' \<and> rg_allocator rg' = General)"
    using rg'(5) by (intro impI bexI [of _ rg']) simp_all
  have keys': "map region_key (alloc_regions ?m) = map region_key ?rgs"
    using keys by simp
  show ?thesis
    by (rule bexI [where x = "?rgs ! j"], rule exI [where x = ?m])
      (intro conjI run inv j(2) gone keys' reset nth_mem [OF j(1)])+
qed

lemma minv_free_em:
  assumes "minv m" and "(p, n) \<in> live m" and "mgr_free_em AR AA m mem p n = Ret (r, m', mem')"
  shows "minv m'"
proof -
  obtain j where j: "j < length (alloc_regions m)" "(p, n) \<in> blks (alloc_regions m ! j)" "p \<noteq> 0"
    using live_in_region [OF assms(1,2)] by (metis fst_conv)
  then obtain k where k: "k < 63" "n = one_bit k"
    using assms(1) nth_mem [of j "alloc_regions m"] by (fastforce simp: mgr_inv_def region_ok_def)
  obtain f where "find_region (\<lambda>rg. is_mem_contained rg p n) (alloc_regions m) = Ret f"
    using assms(3) j(3) k
    by (cases "find_region (\<lambda>rg. is_mem_contained rg p n) (alloc_regions m)")
      (auto simp: mgr_free_em_def next_power_of_two_one_bit from_size_align_one_bit)
  from free_em_live [OF assms(1) this assms(2), of mem] assms(3) show ?thesis
    by auto
qed

end

interpretation rt_none: sec_mem_clients rt_ops rt_inv rt_blocks none_alloc "\<lambda>_ _. True" "\<lambda>_. {}" ..

lemma rt_app_clients:
  "heap_law H sA bA \<Longrightarrow> sec_mem_clients rt_ops rt_inv rt_blocks (app_ops H) sA bA"
  by (intro sec_mem_clients.intro rt.exclusive_allocator_axioms app_alloc_shared)

section \<open>Every run of the manager\<close>

text \<open>The states a manager gets into by any sequence of calls that return, with any arguments.\<close>

inductive mgr_called ::
    "'r sec_mem_allocator \<Rightarrow> 'a sec_mem_allocator \<Rightarrow> nat \<Rightarrow> ('r, 'a) UniSecMemManager \<Rightarrow> bool" for AR AA cap where
  called_new: "mgr_called AR AA cap mgr_new"
| called_init: "mgr_called AR AA cap m \<Longrightarrow> mgr_init m addr len = Ret (b, m') \<Longrightarrow> mgr_called AR AA cap m'"
| called_extend: "mgr_called AR AA cap m \<Longrightarrow> mgr_extend cap m addr len = Ret (b, m') \<Longrightarrow> mgr_called AR AA cap m'"
| called_reclaim: "mgr_called AR AA cap m \<Longrightarrow> mgr_reclaim m = (r, m') \<Longrightarrow> mgr_called AR AA cap m'"
| called_alloc_em: "mgr_called AR AA cap m \<Longrightarrow> mgr_alloc_em AR AA m len em_type = Ret (res, m') \<Longrightarrow>
    mgr_called AR AA cap m'"
| called_free_em: "mgr_called AR AA cap m \<Longrightarrow> mgr_free_em AR AA m mem addr len = Ret (r, m', mem') \<Longrightarrow>
    mgr_called AR AA cap m'"

lemma called_keys: "mgr_called AR AA cap m \<Longrightarrow> keys_inv m"
proof (induction rule: mgr_called.induct)
  case called_new
  then show ?case
    using keys_ok_new by (simp add: mgr_new_def test_protector_new_def)
qed (blast intro: keys_init(1) keys_extend keys_reclaim dest: alloc_em_keys free_em_keys)+

text \<open>
  The states of those runs in which the caller frees only blocks that are out, with the length that
  \<open>alloc_em\<close> returned, as the buddy heap and the runtime allocator demand.
\<close>

inductive mgr_reachable ::
    "'r sec_mem_allocator \<Rightarrow> 'a sec_mem_allocator \<Rightarrow> ('r \<Rightarrow> block set) \<Rightarrow> ('a \<Rightarrow> block set) \<Rightarrow> nat \<Rightarrow>
     ('r, 'a) UniSecMemManager \<Rightarrow> bool" for AR AA bR bA cap where
  fresh: "mgr_reachable AR AA bR bA cap mgr_new"
| after_init: "mgr_reachable AR AA bR bA cap m \<Longrightarrow> mgr_init m addr len = Ret (b, m') \<Longrightarrow>
    mgr_reachable AR AA bR bA cap m'"
| after_extend: "mgr_reachable AR AA bR bA cap m \<Longrightarrow> mgr_extend cap m addr len = Ret (b, m') \<Longrightarrow>
    mgr_reachable AR AA bR bA cap m'"
| after_reclaim: "mgr_reachable AR AA bR bA cap m \<Longrightarrow> mgr_reclaim m = (r, m') \<Longrightarrow>
    mgr_reachable AR AA bR bA cap m'"
| after_alloc_em: "mgr_reachable AR AA bR bA cap m \<Longrightarrow>
    mgr_alloc_em AR AA m len em_type = Ret (res, m') \<Longrightarrow> mgr_reachable AR AA bR bA cap m'"
| after_free_em: "mgr_reachable AR AA bR bA cap m \<Longrightarrow>
    (addr, len) \<in> live_blocks bR bA (alloc_regions m) \<Longrightarrow>
    mgr_free_em AR AA m mem addr len = Ret (r, m', mem') \<Longrightarrow>
    mgr_reachable AR AA bR bA cap m'"

context sec_mem_clients
begin

lemma reachable_minv: "mgr_reachable AR AA bR bA cap m \<Longrightarrow> minv m"
  by (induction rule: mgr_reachable.induct)
    (blast intro: minv_new minv_init minv_extend(1) minv_reclaim(1) alloc_em_live(1) minv_free_em)+

end

section \<open>A concrete run\<close>

lemmas manager_eval =
  mgr_extend_def mgr_new_def test_protector_new_def test_alloc_def slot_new_def slot_alloc_def
  alloc_attempt_def UNI_SECMEM_PMP_ALLOCMASK_def UNI_SECMEM_PMP_MANAGEMASK_def
  UNI_SECMEM_SM_SLOT_def UNI_SECMEM_TEMP_SLOT_def UNI_SECMEM_DEFAULT_SLOT_def
  MAX_PMP_ENTRY_COUNT_def test_retrive_access_all_def add_ovf_def checked_add_def
  trailing_zeros_def upt_rec one_bit_def Let_def

text \<open>One region of 64 KiB at address 65536, then all of it given to a runtime enclave.\<close>

definition run_rg :: "bool \<Rightarrow> (RTAlloc, block \<times> usize) SecMemAllocatorWrapper \<Rightarrow>
    (RTAlloc, block \<times> usize) SecMemRegion" where
  "run_rg used w = \<lparr>rg_addr = 65536, rg_len = 65536, rg_id = 1, rg_slot = 2, rg_used = used,
     rg_allocator = w\<rparr>"

definition run_mgr :: "(RTAlloc, block \<times> usize) SecMemRegion \<Rightarrow>
    (RTAlloc, block \<times> usize) UniSecMemManager" where
  "run_mgr rg = \<lparr>cur_idx = 1,
     protector = \<lparr>hw_manager = \<lparr>pmp_slots = 4, alloc_mask = 65532, manage_mask = 32768\<rparr>\<rparr>,
     reserved_regions = [], alloc_regions = [rg]\<rparr>"

abbreviation "run_one \<equiv> run_mgr (run_rg False General)"
abbreviation "run_two \<equiv>
  run_mgr (run_rg True (Runtime \<lparr>rt_addr = 65536, rt_len = 0, rt_total = 65536\<rparr>))"

lemma run_extend: "mgr_extend 13 mgr_new 65536 65536 = Ret (True, run_one)"
  by (simp add: manager_eval test_is_protectable_def run_mgr_def run_rg_def region_new_def)

lemma run_alloc:
  "mgr_alloc_em rt_ops (app_ops one_block_heap) run_one 4096 TRuntime
     = Ret (Some (65536, 65536, 1), run_two)"
proof -
  have "next_power_of_two 4096 = Ret 4096"
    using next_power_of_two_one_bit [of 12] by (simp add: one_bit_def)
  moreover have "from_size_align 65536 65536 = Some \<lparr>lay_size = 65536, lay_align = 65536\<rparr>"
    using from_size_align_one_bit [of 16] by (simp add: one_bit_def)
  ultimately show ?thesis
    by (simp add: mgr_alloc_em_def run_mgr_def run_rg_def assign_allocator_def alloc_in_region_def
        rt_defs em_result_def)
qed

abbreviation "run_reachable \<equiv>
  mgr_reachable rt_ops (app_ops one_block_heap) rt_blocks one_block_blocks 13"

lemma run_one_reachable: "run_reachable run_one"
  by (rule after_extend [OF fresh run_extend])

lemma run_two_reachable: "run_reachable run_two"
  by (rule after_alloc_em [OF run_one_reachable run_alloc])

lemma run_two_called: "mgr_called rt_ops (app_ops one_block_heap) 13 run_two"
  by (rule called_alloc_em [OF called_extend [OF called_new run_extend] run_alloc])

lemma run_two_live: "live_blocks rt_blocks one_block_blocks (alloc_regions run_two) = {(65536, 65536)}"
  by (simp add: live_blocks_def run_mgr_def run_rg_def wrapper_blocks_def rt_blocks_def)

section \<open>Properties\<close>

text \<open>
  C1: whatever calls are made on a secure memory manager with the runtime and the application
  allocator, with whatever arguments, its regions never overlap and never share a PMP slot or an
  identifier, and their slots are among 2 to 15 (the allocation mask also admits the last slot, which
  the comments of the source reserve). If moreover \<open>free_em\<close> is only called for blocks that are out,
  with the length that \<open>alloc_em\<close> returned, the enclave blocks that are out are pairwise disjoint and
  each lie in a region that is marked in use.
\<close>

theorem sec_mem_isolation:
  assumes "heap_law H sA bA" and "mgr_called rt_ops (app_ops H) cap m"
  shows "(\<forall>i<length (alloc_regions m). \<forall>j<length (alloc_regions m). i \<noteq> j \<longrightarrow>
      span (rg_addr (alloc_regions m ! i), rg_len (alloc_regions m ! i)) \<inter>
        span (rg_addr (alloc_regions m ! j), rg_len (alloc_regions m ! j)) = {} \<and>
      rg_slot (alloc_regions m ! i) \<noteq> rg_slot (alloc_regions m ! j) \<and>
      rg_id (alloc_regions m ! i) \<noteq> rg_id (alloc_regions m ! j)) \<and>
    (\<forall>rg\<in>set (alloc_regions m). unat (rg_slot rg) \<in> {2..15}) \<and>
    (mgr_reachable rt_ops (app_ops H) rt_blocks bA cap m \<longrightarrow>
      (\<forall>b\<in>live_blocks rt_blocks bA (alloc_regions m). \<forall>c\<in>live_blocks rt_blocks bA (alloc_regions m).
        b \<noteq> c \<longrightarrow> span b \<inter> span c = {}) \<and>
      (\<forall>b\<in>live_blocks rt_blocks bA (alloc_regions m). \<exists>rg\<in>set (alloc_regions m).
        rg_used rg \<and> span b \<subseteq> span (rg_addr rg, rg_len rg)))"
proof -
  note cl = rt_app_clients [OF assms(1)]
  note inv = sec_mem_clients.reachable_minv [OF cl] and keys = called_keys [OF assms(2)]
  show ?thesis
  proof (intro conjI ballI allI impI, goal_cases)
    case (4 rg)
    have "region_key rg \<in> set (map region_key (alloc_regions m))"
      using 4 by simp
    from keys_ok_slot [OF keys this] show ?case
      by simp
  next
    case (5 b c)
    then show ?case
      using sec_mem_clients.live_disjoint [OF cl inv] by blast
  next
    case (6 b)
    from sec_mem_clients.live_in_region [OF cl inv [OF 6(1)] 6(2)] show ?case
      by (metis nth_mem)
  qed (use regions_disjoint [OF keys] in blast)+
qed

theorem sec_mem_isolation_witness:
  "run_reachable run_two \<and> (\<lambda>rg. unat (rg_slot rg)) ` set (alloc_regions run_two) \<subseteq> {2..15} \<and>
    (\<exists>rg\<in>set (alloc_regions run_two). rg_used rg \<and>
      span (65536, 65536) \<subseteq> span (rg_addr rg, rg_len rg))"
  using sec_mem_isolation [OF one_block_heap_law run_two_called] run_two_reachable
  unfolding run_two_live by blast

text \<open>
  C21: \<open>alloc_em\<close> on a request of at most \<open>2 ^ 63\<close> bytes returns, while no region starts at address 0
  or ends at the top of the address space, where the buddy heap cannot be made of it. A block it hands
  out is at least as long as requested, a power of two, was not out before, is disjoint from
  every block that is, and lies in a region of the requested kind that is now marked in use;
  when it hands out nothing, the set of blocks that are out does not change.
\<close>

theorem alloc_em_correct:
  assumes "heap_law H sA bA" and "mgr_reachable rt_ops (app_ops H) rt_blocks bA cap m"
    and "unat len \<le> 2 ^ 63"
    and "\<forall>rg\<in>set (alloc_regions m). rg_addr rg \<noteq> 0 \<and> unat (rg_addr rg) + unat (rg_len rg) < 2 ^ 64"
  shows "\<exists>res m'. mgr_alloc_em rt_ops (app_ops H) m len em_type = Ret (res, m') \<and>
    (case res of
       None \<Rightarrow> live_blocks rt_blocks bA (alloc_regions m') = live_blocks rt_blocks bA (alloc_regions m)
     | Some (p, n, i) \<Rightarrow>
         unat len \<le> unat n \<and> (\<exists>k<63. unat n = 2 ^ k) \<and>
         (\<forall>b\<in>live_blocks rt_blocks bA (alloc_regions m). span (p, n) \<inter> span b = {}) \<and>
         live_blocks rt_blocks bA (alloc_regions m')
           = insert (p, n) (live_blocks rt_blocks bA (alloc_regions m)) \<and>
         (\<exists>rg\<in>set (alloc_regions m'). rg_id rg = i \<and> rg_used rg \<and>
            wrapper_type (rg_allocator rg) = em_type \<and>
            (p, n) \<in> wrapper_blocks rt_blocks bA (rg_allocator rg) \<and>
            span (p, n) \<subseteq> span (rg_addr rg, rg_len rg)))"
proof -
  note cl = rt_app_clients [OF assms(1)]
  note inv = sec_mem_clients.reachable_minv [OF cl assms(2)]
  have "\<forall>rg\<in>set (alloc_regions m). heap_area (rg_addr rg, rg_len rg)"
    using inv assms(4) napot_heap_area by (fastforce simp: mgr_inv_def region_ok_def)
  from sec_mem_clients.alloc_em_Ret [OF cl inv assms(3) this] obtain res m'
    where run: "mgr_alloc_em rt_ops (app_ops H) m len em_type = Ret (res, m')"
    by blast
  note live = sec_mem_clients.alloc_em_live [OF cl inv run]
  show ?thesis
  proof (cases res)
    case None
    with run live(2) show ?thesis
      by simp
  next
    case (Some x)
    obtain p n i where x: "x = (p, n, i)"
      by (cases x)
    with live(3) Some obtain k rg where *: "len \<le> n" "k < 63" "n = one_bit k"
      "(p, n) \<notin> live_blocks rt_blocks bA (alloc_regions m)"
      "live_blocks rt_blocks bA (alloc_regions m')
        = insert (p, n) (live_blocks rt_blocks bA (alloc_regions m))"
      "rg \<in> set (alloc_regions m')" "rg_id rg = i" "rg_used rg"
      "(p, n) \<in> wrapper_blocks rt_blocks bA (rg_allocator rg)"
      "wrapper_type (rg_allocator rg) = em_type"
      by blast
    have "region_ok rt_inv rt_blocks sA bA rg"
      using live(1) *(6) by (simp add: mgr_inv_def)
    from blocks_okD(3) [OF sec_mem_clients.good_blocks [OF cl this] *(9)]
    have span: "span (p, n) \<subseteq> span (rg_addr rg, rg_len rg)" .
    have "\<forall>b\<in>live_blocks rt_blocks bA (alloc_regions m). span (p, n) \<inter> span b = {}"
      using sec_mem_clients.live_disjoint [OF cl live(1), of "(p, n)"] *(4,5) by auto
    moreover have "unat n = 2 ^ k"
      using *(2,3) by (simp add: unat_one_bit)
    ultimately show ?thesis
      using run Some x * span by (auto simp: word_le_nat_alt)
  qed
qed

theorem alloc_em_correct_witness:
  "\<exists>res m'. mgr_alloc_em rt_ops (app_ops one_block_heap) run_two 4096 TApplication = Ret (res, m') \<and>
    (\<forall>p n i. res = Some (p, n, i) \<longrightarrow> span (p, n) \<inter> span (65536, 65536) = {})"
proof -
  have "unat (4096 :: usize) \<le> 2 ^ 63"
    by simp
  moreover have "\<forall>rg\<in>set (alloc_regions run_two). rg_addr rg \<noteq> 0 \<and> unat (rg_addr rg) + unat (rg_len rg) < 2 ^ 64"
    by (simp add: run_mgr_def run_rg_def)
  ultimately show ?thesis
    using alloc_em_correct [OF one_block_heap_law run_two_reachable, of 4096 TApplication]
    unfolding run_two_live by (fastforce split: option.splits)
qed

text \<open>
  C22: freeing a block that is out, while no region ends at the very top of the address space,
  always succeeds: it reports the region that holds the block, clears exactly the bytes of the
  block, and the block, and only it, is no longer out. A region whose last block it was is
  unused and general again, and no region changes its area, identifier or slot.
\<close>

theorem free_em_correct:
  assumes "heap_law H sA bA" and "mgr_reachable rt_ops (app_ops H) rt_blocks bA cap m"
    and "(p, n) \<in> live_blocks rt_blocks bA (alloc_regions m)"
    and "\<forall>rg\<in>set (alloc_regions m). unat (rg_addr rg) + unat (rg_len rg) < 2 ^ 64"
  shows "\<exists>rg\<in>set (alloc_regions m). \<exists>m' mem'.
    mgr_free_em rt_ops (app_ops H) m mem p n = Ret (Some (rg_id rg), m', mem') \<and>
    (\<forall>a. mem' a = (if unat a \<in> span (p, n) then 0 else mem a)) \<and>
    (p, n) \<in> wrapper_blocks rt_blocks bA (rg_allocator rg) \<and>
    live_blocks rt_blocks bA (alloc_regions m')
      = live_blocks rt_blocks bA (alloc_regions m) - {(p, n)} \<and>
    map region_key (alloc_regions m') = map region_key (alloc_regions m) \<and>
    (wrapper_blocks rt_blocks bA (rg_allocator rg) = {(p, n)} \<longrightarrow>
      (\<exists>rg'\<in>set (alloc_regions m'). rg_id rg' = rg_id rg \<and> \<not> rg_used rg' \<and> rg_allocator rg' = General))"
proof -
  note cl = rt_app_clients [OF assms(1)]
  note inv = sec_mem_clients.reachable_minv [OF cl assms(2)]
  have "\<exists>r. find_region (\<lambda>rg. is_mem_contained rg p n) (alloc_regions m) = Ret r"
    using assms(4) by (intro find_region_defined is_mem_contained_defined) blast
  then obtain r where "find_region (\<lambda>rg. is_mem_contained rg p n) (alloc_regions m) = Ret r" ..
  moreover have "clear_bytes mem p n a = (if unat a \<in> span (p, n) then 0 else mem a)" for a
    by (simp add: clear_bytes_def span_def)
  ultimately show ?thesis
    using sec_mem_clients.free_em_live [OF cl inv _ assms(3), of r mem] by blast
qed

theorem free_em_correct_witness:
  "\<exists>r m' mem'. mgr_free_em rt_ops (app_ops one_block_heap) run_two (\<lambda>_. 255) 65536 65536 = Ret (r, m', mem') \<and>
    (\<forall>a. mem' a = (if unat a \<in> span (65536, 65536) then 0 else 255)) \<and>
    live_blocks rt_blocks one_block_blocks (alloc_regions m') = {}"
proof -
  have live: "(65536, 65536) \<in> live_blocks rt_blocks one_block_blocks (alloc_regions run_two)"
    by (simp add: run_two_live)
  have top: "\<forall>rg\<in>set (alloc_regions run_two). unat (rg_addr rg) + unat (rg_len rg) < 2 ^ 64"
    by (simp add: run_mgr_def run_rg_def)
  from free_em_correct [OF one_block_heap_law run_two_reachable live top, of "\<lambda>_. 255"] show ?thesis
    unfolding run_two_live by auto
qed

text \<open>
  C23: \<open>reclaim\<close> never gives back memory that holds an enclave. It returns an area exactly when
  some region is not in use; that region leaves the manager, its slot is free again, all other
  regions stay, and no block that is out touches the area.
\<close>

theorem reclaim_correct:
  assumes "heap_law H sA bA" and "mgr_reachable rt_ops (app_ops H) rt_blocks bA cap m"
    and "mgr_reclaim m = (r, m')"
  shows "case r of
      None \<Rightarrow> m' = m \<and> (\<forall>rg\<in>set (alloc_regions m). rg_used rg)
    | Some ar \<Rightarrow> (\<exists>rg\<in>set (alloc_regions m). ar = (rg_addr rg, rg_len rg) \<and> \<not> rg_used rg \<and>
          mset (alloc_regions m') = mset (alloc_regions m) - {#rg#} \<and>
          unat (rg_slot rg) \<notin> slots_of (hw_manager (protector m'))) \<and>
        live_blocks rt_blocks bA (alloc_regions m') = live_blocks rt_blocks bA (alloc_regions m) \<and>
        (\<forall>b\<in>live_blocks rt_blocks bA (alloc_regions m). span b \<inter> span ar = {})"
proof -
  note cl = rt_app_clients [OF assms(1)]
  note inv = sec_mem_clients.reachable_minv [OF cl assms(2)]
  note keys = inv [unfolded mgr_inv_def, THEN conjunct1]
  note rec = sec_mem_clients.minv_reclaim [OF cl inv assms(3)]
  show ?thesis
  proof (rule mgr_reclaim_cases [OF keys], goal_cases none some)
    case (some i rg p)
    then have r: "r = Some (rg_addr rg, rg_len rg)"
      and m': "alloc_regions m' = swap_remove (alloc_regions m) i" "protector m' = p"
      using assms(3) by auto
    have ms: "mset (alloc_regions m') = mset (alloc_regions m) - {#rg#}"
      using mset_swap_remove [OF some(1)] some(2) m'(1) by (metis add_mset_remove_trivial mset.simps(2))
    have "pool_ok (hw_manager (protector m))" "unat (rg_slot rg) \<in> slots_of (hw_manager (protector m))"
      using inv some(1,2) nth_mem [of i "alloc_regions m"]
      by (auto simp: mgr_inv_def keys_ok_def slots_held_def)
    from test_pool.free_held [OF this] some(4) have "unat (rg_slot rg) \<notin> slots_of (hw_manager p)"
      by auto
    moreover have "rg \<in> set (alloc_regions m)"
      using some(1,2) by simp
    ultimately show ?thesis
      using r m'(2) ms some(3) rec(2) rec(3) [OF r] by auto
  qed (use assms(3) in auto)
qed

theorem reclaim_correct_witness:
  "\<exists>m'. mgr_reclaim run_one = (Some (65536, 65536), m') \<and>
    unat (2 :: u32) \<notin> slots_of (hw_manager (protector m'))"
proof -
  obtain m' where rec: "mgr_reclaim run_one = (Some (65536, 65536), m')"
    by (simp add: mgr_reclaim_def run_mgr_def run_rg_def test_disable_def test_free_def slot_free_def
        free_attempt_def slot_pos_def MAX_PMP_ENTRY_COUNT_def one_bit_def Let_def)
  from reclaim_correct [OF one_block_heap_law run_one_reachable rec] have
    "unat (rg_slot (run_rg False General)) \<notin> slots_of (hw_manager (protector m'))"
    by (auto simp: run_mgr_def)
  with rec show ?thesis
    by (auto simp: run_rg_def)
qed

text \<open>
  C24: what \<open>extend\<close> does when it returns: it refuses and changes nothing, or it adds exactly the
  requested area as a new unused region with a slot that was free, or every slot is in use, in
  which case it also answers \<open>true\<close> although the area was not taken over.
\<close>

theorem extend_correct:
  assumes "heap_law H sA bA" and "mgr_reachable rt_ops (app_ops H) rt_blocks bA cap m"
    and "mgr_extend cap m addr len = Ret (b, m')"
  shows "(\<not> b \<and> m' = m) \<or>
    (b \<and> m' = m \<and> slots_of (hw_manager (protector m)) = {2..15}) \<or>
    (b \<and> length (alloc_regions m) < cap \<and> check_pmp_area_available addr len NAPOT \<and>
      (\<exists>i hwid. unat hwid \<in> {2..15} - slots_of (hw_manager (protector m)) \<and>
         slots_of (hw_manager (protector m')) = insert (unat hwid) (slots_of (hw_manager (protector m))) \<and>
         alloc_regions m' = alloc_regions m @ [region_new addr len i hwid] \<and>
         (\<forall>rg\<in>set (alloc_regions m). rg_id rg \<noteq> i \<and>
            span (addr, len) \<inter> span (rg_addr rg, rg_len rg) = {})))"
proof -
  note cl = rt_app_clients [OF assms(1)]
  note inv = sec_mem_clients.reachable_minv [OF cl assms(2)]
  note keys = inv [unfolded mgr_inv_def, THEN conjunct1]
  show ?thesis
  proof (rule mgr_extend_cases [OF keys assms(3)], goal_cases rejected no_slot added)
    case (added hwid i p)
    have pool: "pool_ok (hw_manager (protector m))" "allocatable (hw_manager (protector m)) = {2..15}"
      using inv by (auto simp: mgr_inv_def keys_ok_def)
    have "distinct (map key_id (map region_key (alloc_regions m')))"
      using sec_mem_clients.minv_extend(1) [OF cl inv assms(3)] by (simp add: mgr_inv_def keys_ok_def)
    then have "\<forall>rg\<in>set (alloc_regions m). rg_id rg \<noteq> i"
      using added(7) by (auto simp: region_new_def)
    with added pool test_pool.alloc_Some [OF pool(1) added(5)] any_overlap_False [OF added(4)]
    show ?thesis
      by auto
  qed auto
qed

theorem extend_correct_witness:
  "\<exists>i hwid. alloc_regions run_one = [region_new 65536 65536 i hwid] \<and> unat hwid \<in> {2..15}"
  using extend_correct [OF one_block_heap_law fresh run_extend]
  by (auto simp: mgr_new_def run_mgr_def)

text \<open>
  a region that ends at the top of the address space is accepted by a manager that has no
  region yet, and from then on \<open>extend\<close> panics on every protectable area.
\<close>

theorem extend_top_region_panics:
  assumes "2 \<le> cap" and "check_pmp_area_available addr len NAPOT"
  shows "\<exists>m'. mgr_extend cap (mgr_new :: ('r, 'a) UniSecMemManager) 0x8000000000000000 0x8000000000000000
      = Ret (True, m') \<and> mgr_extend cap m' addr len = Panic"
  using assms
  by (simp add: manager_eval is_mem_overlap_def region_new_def test_is_protectable_def)

theorem extend_top_region_panics_witness:
  "\<exists>m'. mgr_extend 13 (mgr_new :: (RTAlloc, block \<times> usize) UniSecMemManager)
      0x8000000000000000 0x8000000000000000 = Ret (True, m') \<and> mgr_extend 13 m' 65536 65536 = Panic"
  by (rule extend_top_region_panics) simp_all

end
