(* ===== verification/Phys_Memory.thy ===== *)
theory Phys_Memory
  imports Rust_Prelude
begin

text \<open>
  The physical memory model of the firmware runtime: ranges
  (\<open>firmware/runtime/src/memory/region.rs\<close>, \<open>address.rs\<close>), the registry that normalizes RAM
  and reserved ranges and hands out device windows (\<open>registry.rs\<close>), the supervisor memory
  the firmware may access on behalf of the kernel (\<open>supervisor.rs\<close>), and device windows
  (\<open>mmio.rs\<close>). The firmware image bounds come from the linker and are an argument.

  \<open>sort_unstable_by_key\<close> is \<open>sort_key\<close>. Where two ranges have the same start the order of the
  source is not determined; such ranges overlap, so the RAM path rejects them in either order,
  and the other paths join them or step over both.
\<close>

section \<open>Ranges\<close>

datatype Error = InvalidArgs | AccessDenied | NotEnoughResources | Overflow

type_synonym 'a result = "Error + 'a"

definition is_aligned_to :: "usize \<Rightarrow> usize \<Rightarrow> bool" where
  "is_aligned_to a alignment \<longleftrightarrow> alignment \<noteq> 0 \<and> a mod alignment = 0"

record PhysAddrRange =
  r_start :: usize
  r_end :: usize

definition range_new :: "usize \<Rightarrow> usize \<Rightarrow> PhysAddrRange result" where
  "range_new s e = (if e \<le> s then Inl InvalidArgs else Inr \<lparr>r_start = s, r_end = e\<rparr>)"

definition from_start_len :: "usize \<Rightarrow> usize \<Rightarrow> PhysAddrRange result" where
  "from_start_len s len =
     (if len = 0 then Inl InvalidArgs
      else case checked_add s len of None \<Rightarrow> Inl Overflow | Some e \<Rightarrow> range_new s e)"

definition range_size :: "PhysAddrRange \<Rightarrow> usize outcome" where
  "range_size r = sub_ovf (r_end r) (r_start r)"

definition has_aligned_bounds :: "PhysAddrRange \<Rightarrow> usize \<Rightarrow> bool" where
  "has_aligned_bounds r alignment \<longleftrightarrow>
     is_aligned_to (r_start r) alignment \<and> is_aligned_to (r_end r) alignment"

definition contains :: "PhysAddrRange \<Rightarrow> PhysAddrRange \<Rightarrow> bool" where
  "contains r other \<longleftrightarrow> r_start r \<le> r_start other \<and> r_end other \<le> r_end r"

definition overlaps :: "PhysAddrRange \<Rightarrow> PhysAddrRange \<Rightarrow> bool" where
  "overlaps r other \<longleftrightarrow> r_start r < r_end other \<and> r_start other < r_end r"

definition clip :: "PhysAddrRange \<Rightarrow> PhysAddrRange \<Rightarrow> PhysAddrRange option" where
  "clip r x =
     (let s = max (r_start r) (r_start x); e = min (r_end r) (r_end x)
      in if s < e then Some \<lparr>r_start = s, r_end = e\<rparr> else None)"

text \<open>The loop of \<open>excluding\<close> over the sorted pieces, with the \<open>cursor\<close>, and its last push.\<close>

fun excluding_loop :: "usize \<Rightarrow> usize \<Rightarrow> PhysAddrRange list \<Rightarrow> PhysAddrRange list" where
  "excluding_loop cursor e [] =
     (if cursor < e then [\<lparr>r_start = cursor, r_end = e\<rparr>] else [])"
| "excluding_loop cursor e (x # xs) =
     (if cursor < r_start x then [\<lparr>r_start = cursor, r_end = r_start x\<rparr>] else [])
     @ excluding_loop (max cursor (r_end x)) e xs"

definition excluding :: "PhysAddrRange \<Rightarrow> PhysAddrRange list \<Rightarrow> PhysAddrRange list" where
  "excluding r excluded =
     (let subtracted = sort_key r_start (List.map_filter (clip r) excluded)
      in excluding_loop (r_start r) (r_end r) subtracted)"

definition adjacent :: "PhysAddrRange \<Rightarrow> PhysAddrRange \<Rightarrow> bool" where
  "adjacent r other \<longleftrightarrow> r_end r = r_start other \<or> r_end other = r_start r"

definition join :: "PhysAddrRange \<Rightarrow> PhysAddrRange \<Rightarrow> PhysAddrRange" where
  "join r other =
     \<lparr>r_start = (if r_start r < r_start other then r_start r else r_start other),
      r_end = (if r_end other < r_end r then r_end r else r_end other)\<rparr>"

definition subrange :: "PhysAddrRange \<Rightarrow> usize \<Rightarrow> usize \<Rightarrow> PhysAddrRange result" where
  "subrange r offset len =
     (if len = 0 then Inl InvalidArgs
      else case checked_add (r_start r) offset of
        None \<Rightarrow> Inl Overflow
      | Some s \<Rightarrow> (case checked_add s len of
          None \<Rightarrow> Inl Overflow
        | Some e \<Rightarrow> if r_end r < e then Inl InvalidArgs else Inr \<lparr>r_start = s, r_end = e\<rparr>))"

section \<open>The registry\<close>

record MemoryRegistry =
  firmware_image_range :: PhysAddrRange
  ram_ranges :: "PhysAddrRange list"
  reserved_ranges :: "PhysAddrRange list"
  acquired_mmio :: "PhysAddrRange list"

fun normalize_ram_loop :: "PhysAddrRange list \<Rightarrow> PhysAddrRange list \<Rightarrow> PhysAddrRange list result" where
  "normalize_ram_loop normalized [] = Inr normalized"
| "normalize_ram_loop normalized (r # rs) =
     (if normalized = [] then normalize_ram_loop [r] rs
      else let previous = last normalized
           in if overlaps previous r then Inl InvalidArgs
              else if adjacent previous r
              then normalize_ram_loop (butlast normalized @ [join previous r]) rs
              else normalize_ram_loop (normalized @ [r]) rs)"

definition normalize_ram_ranges :: "PhysAddrRange list \<Rightarrow> PhysAddrRange list result" where
  "normalize_ram_ranges rs = normalize_ram_loop [] (sort_key r_start rs)"

fun normalize_reserved_loop :: "PhysAddrRange list \<Rightarrow> PhysAddrRange list \<Rightarrow> PhysAddrRange list" where
  "normalize_reserved_loop normalized [] = normalized"
| "normalize_reserved_loop normalized (r # rs) =
     (if normalized \<noteq> [] \<and> (overlaps (last normalized) r \<or> adjacent (last normalized) r)
      then normalize_reserved_loop (butlast normalized @ [join (last normalized) r]) rs
      else normalize_reserved_loop (normalized @ [r]) rs)"

definition normalize_reserved_ranges :: "PhysAddrRange list \<Rightarrow> PhysAddrRange list" where
  "normalize_reserved_ranges rs = normalize_reserved_loop [] (sort_key r_start rs)"

definition validate_memory_ranges :: "PhysAddrRange list \<Rightarrow> PhysAddrRange list \<Rightarrow> unit result" where
  "validate_memory_ranges ram reserved =
     (if \<exists>x\<in>set reserved. \<exists>m\<in>set ram. overlaps m x \<and> \<not> contains m x
      then Inl InvalidArgs else Inr ())"

record SupervisorMemory =
  regions :: "PhysAddrRange list"

definition derive_supervisor_memory :: "MemoryRegistry \<Rightarrow> SupervisorMemory result" where
  "derive_supervisor_memory reg =
     (if \<not> (\<exists>m\<in>set (ram_ranges reg). contains m (firmware_image_range reg)) then Inl InvalidArgs
      else let excluded = reserved_ranges reg @ [firmware_image_range reg];
               accessible = concat (map (\<lambda>m. excluding m excluded) (ram_ranges reg))
           in if accessible = [] then Inl NotEnoughResources else Inr \<lparr>regions = accessible\<rparr>)"

definition from_ranges_with_firmware ::
    "PhysAddrRange \<Rightarrow> PhysAddrRange list \<Rightarrow> PhysAddrRange list \<Rightarrow>
     (SupervisorMemory \<times> MemoryRegistry) result" where
  "from_ranges_with_firmware fw ram reserved =
     (case normalize_ram_ranges ram of
        Inl e \<Rightarrow> Inl e
      | Inr ram_ns \<Rightarrow>
          let reserved_ns = normalize_reserved_ranges reserved
          in case validate_memory_ranges ram_ns reserved_ns of
               Inl e \<Rightarrow> Inl e
             | Inr _ \<Rightarrow>
                 let registry = \<lparr>firmware_image_range = fw, ram_ranges = ram_ns,
                       reserved_ranges = reserved_ns, acquired_mmio = []\<rparr>
                 in (case derive_supervisor_memory registry of
                       Inl e \<Rightarrow> Inl e
                     | Inr supervisor \<Rightarrow> Inr (supervisor, registry)))"

text \<open>\<open>locate_firmware_image\<close>, on the bounds \<open>sbi_start\<close> and \<open>sbi_end\<close> of the linker script.\<close>

definition from_ranges ::
    "usize \<Rightarrow> usize \<Rightarrow> PhysAddrRange list \<Rightarrow> PhysAddrRange list \<Rightarrow>
     (SupervisorMemory \<times> MemoryRegistry) result" where
  "from_ranges sbi_start sbi_end ram reserved =
     (case range_new sbi_start sbi_end of
        Inl e \<Rightarrow> Inl e
      | Inr fw \<Rightarrow> from_ranges_with_firmware fw ram reserved)"

definition firmware_is_reserved :: "MemoryRegistry \<Rightarrow> bool" where
  "firmware_is_reserved reg \<longleftrightarrow>
     (\<exists>x\<in>set (reserved_ranges reg). contains x (firmware_image_range reg))"

definition acquire_mmio ::
    "MemoryRegistry \<Rightarrow> PhysAddrRange \<Rightarrow> PhysAddrRange result \<times> MemoryRegistry" where
  "acquire_mmio reg r =
     (if (\<exists>u\<in>set (ram_ranges reg @ reserved_ranges reg). overlaps u r)
         \<or> (\<exists>a\<in>set (acquired_mmio reg). overlaps a r)
      then (Inl AccessDenied, reg)
      else (Inr r, reg\<lparr>acquired_mmio := acquired_mmio reg @ [r]\<rparr>))"

section \<open>Supervisor memory\<close>

definition check_range :: "SupervisorMemory \<Rightarrow> PhysAddrRange \<Rightarrow> unit result" where
  "check_range sm r =
     (if \<exists>a\<in>set (regions sm). contains a r then Inr () else Inl InvalidArgs)"

definition check_access :: "SupervisorMemory \<Rightarrow> usize \<Rightarrow> usize \<Rightarrow> unit result" where
  "check_access sm s len =
     (if len = 0 then Inr ()
      else case from_start_len s len of Inl e \<Rightarrow> Inl e | Inr r \<Rightarrow> check_range sm r)"

type_synonym memory = "usize \<Rightarrow> u8"

fun store_bytes :: "memory \<Rightarrow> usize \<Rightarrow> u8 list \<Rightarrow> memory" where
  "store_bytes mem a [] = mem"
| "store_bytes mem a (b # bs) = store_bytes (mem(a := b)) (a + 1) bs"

text \<open>\<open>read\<close> fills an output slice of the given length and returns it.\<close>

definition mem_read :: "SupervisorMemory \<Rightarrow> memory \<Rightarrow> usize \<Rightarrow> nat \<Rightarrow> u8 list result" where
  "mem_read sm mem s n =
     (case check_access sm s (word_of_nat n) of
        Inl e \<Rightarrow> Inl e
      | Inr _ \<Rightarrow> Inr (map (\<lambda>offset. mem (s + word_of_nat offset)) [0..<n]))"

definition mem_write :: "SupervisorMemory \<Rightarrow> memory \<Rightarrow> usize \<Rightarrow> u8 list \<Rightarrow> memory result" where
  "mem_write sm mem s input =
     (case check_access sm s (word_of_nat (length input)) of
        Inl e \<Rightarrow> Inl e
      | Inr _ \<Rightarrow> Inr (store_bytes mem s input))"

definition fill_zeros :: "SupervisorMemory \<Rightarrow> memory \<Rightarrow> usize \<Rightarrow> usize \<Rightarrow> memory result" where
  "fill_zeros sm mem s len =
     (case check_access sm s len of
        Inl e \<Rightarrow> Inl e
      | Inr _ \<Rightarrow> if len = 0 then Inr mem
               else Inr (store_bytes mem s (replicate (unat len) 0)))"

section \<open>Device windows\<close>

text \<open>
  \<open>checked_address::<T>\<close> for a value of \<open>width\<close> bytes; on the targets of the firmware the
  alignment of an integer type is its size.
\<close>

definition checked_address :: "PhysAddrRange \<Rightarrow> usize \<Rightarrow> usize \<Rightarrow> usize result" where
  "checked_address window width offset =
     (case subrange window offset width of
        Inl e \<Rightarrow> Inl e
      | Inr access \<Rightarrow>
          if r_start access mod width \<noteq> 0 then Inl InvalidArgs else Inr (r_start access))"

text \<open>The device behind the window is a state machine that is read and written by address.\<close>

definition mmio_read ::
    "('d \<Rightarrow> usize \<Rightarrow> usize \<Rightarrow> 'v \<times> 'd) \<Rightarrow> PhysAddrRange \<Rightarrow> 'd \<Rightarrow> usize \<Rightarrow> usize \<Rightarrow> 'v result \<times> 'd" where
  "mmio_read read_volatile window d width offset =
     (case checked_address window width offset of
        Inl e \<Rightarrow> (Inl e, d)
      | Inr address \<Rightarrow> (case read_volatile d address width of (v, d) \<Rightarrow> (Inr v, d)))"

definition mmio_write ::
    "('d \<Rightarrow> usize \<Rightarrow> usize \<Rightarrow> 'v \<Rightarrow> 'd) \<Rightarrow> PhysAddrRange \<Rightarrow> 'd \<Rightarrow> usize \<Rightarrow> usize \<Rightarrow> 'v \<Rightarrow> unit result \<times> 'd" where
  "mmio_write write_volatile window d width offset v =
     (case checked_address window width offset of
        Inl e \<Rightarrow> (Inl e, d)
      | Inr address \<Rightarrow> (Inr (), write_volatile d address width v))"

section \<open>Ranges as sets of addresses\<close>

definition range_ok :: "PhysAddrRange \<Rightarrow> bool" where
  "range_ok r \<longleftrightarrow> r_start r < r_end r"

definition bytes :: "PhysAddrRange \<Rightarrow> usize set" where
  "bytes r = {r_start r ..< r_end r}"

definition all_bytes :: "PhysAddrRange list \<Rightarrow> usize set" where
  "all_bytes rs = (\<Union>r\<in>set rs. bytes r)"

text \<open>Sorted, and with a gap between neighbours.\<close>

definition separated :: "PhysAddrRange list \<Rightarrow> bool" where
  "separated rs \<longleftrightarrow> sorted_wrt (\<lambda>a b. r_end a < r_start b) rs \<and> (\<forall>r\<in>set rs. range_ok r)"

lemma all_bytes_simps [simp]:
  "all_bytes [] = {}" "all_bytes (r # rs) = bytes r \<union> all_bytes rs"
  "all_bytes (rs @ ss) = all_bytes rs \<union> all_bytes ss"
  by (auto simp: all_bytes_def)

lemma range_new_Inr: "range_new s e = Inr r \<longleftrightarrow> s < e \<and> r = \<lparr>r_start = s, r_end = e\<rparr>"
  by (auto simp: range_new_def)

lemma overlaps_iff: "range_ok r \<Longrightarrow> range_ok x \<Longrightarrow> overlaps r x \<longleftrightarrow> bytes r \<inter> bytes x \<noteq> {}"
  by (auto simp: overlaps_def bytes_def range_ok_def)

lemma contains_iff: "range_ok x \<Longrightarrow> contains r x \<longleftrightarrow> bytes x \<subseteq> bytes r"
  by (auto simp: contains_def bytes_def range_ok_def)

lemma join_ok:
  assumes "range_ok r" and "range_ok x" and "overlaps r x \<or> adjacent r x"
  shows "range_ok (join r x)" and "bytes (join r x) = bytes r \<union> bytes x"
    and "r_start (join r x) = min (r_start r) (r_start x)"
    and "r_end (join r x) = max (r_end r) (r_end x)"
  using assms by (auto simp: join_def range_ok_def bytes_def overlaps_def adjacent_def min_def max_def)

lemma separated_Nil [simp]: "separated []"
  by (simp add: separated_def)

lemma separated_append:
  "separated (xs @ ys) \<longleftrightarrow> separated xs \<and> separated ys \<and>
     (\<forall>x\<in>set xs. \<forall>y\<in>set ys. r_end x < r_start y)"
  by (auto simp: separated_def sorted_wrt_append)

lemma separated_Cons:
  "separated (x # xs) \<longleftrightarrow> range_ok x \<and> separated xs \<and> (\<forall>y\<in>set xs. r_end x < r_start y)"
  by (auto simp: separated_def)

lemma separated_snocI:
  assumes "separated ns" and "range_ok r" and "ns \<noteq> [] \<Longrightarrow> r_end (last ns) < r_start r"
  shows "separated (ns @ [r])"
proof (cases "ns = []")
  case False
  then have ns: "butlast ns @ [last ns] = ns"
    by simp
  have "r_end x < r_start r" if "x \<in> set ns" for x
  proof -
    have "separated (butlast ns @ [last ns])" and "x \<in> set (butlast ns @ [last ns])"
      using assms(1) that ns by simp_all
    then have "x = last ns \<or> r_end x < r_start (last ns)" and "range_ok (last ns)"
      by (auto simp: separated_append separated_Cons)
    with assms(3) [OF False] show ?thesis
      by (auto simp: range_ok_def)
  qed
  with assms show ?thesis
    by (simp add: separated_append separated_Cons)
qed (simp add: separated_Cons assms)

lemma separated_replace_last:
  assumes "separated ns" and "ns \<noteq> []" and "range_ok r" and "r_start r = r_start (last ns)"
  shows "separated (butlast ns @ [r])"
proof -
  have "separated (butlast ns @ [last ns])"
    using assms(1,2) by simp
  with assms(3,4) show ?thesis
    by (simp add: separated_append separated_Cons)
qed

lemma separated_contains:
  assumes "separated rs" and "range_ok r" and "bytes r \<subseteq> all_bytes rs"
  shows "\<exists>a\<in>set rs. contains a r"
proof -
  have "r_start r \<in> bytes r"
    using assms(2) by (simp add: range_ok_def bytes_def)
  with assms(3) obtain a where a: "a \<in> set rs" "r_start a \<le> r_start r" "r_start r < r_end a"
    by (fastforce simp: all_bytes_def bytes_def)
  have "r_end r \<le> r_end a"
  proof (rule ccontr)
    assume "\<not> r_end r \<le> r_end a"
    with a have "r_end a \<in> bytes r"
      by (auto simp: bytes_def)
    with assms(3) obtain b where b: "b \<in> set rs" "r_start b \<le> r_end a" "r_end a < r_end b"
      by (fastforce simp: all_bytes_def bytes_def)
    then have "a \<noteq> b"
      by auto
    with a(1) b(1) assms(1) have "r_end a < r_start b \<or> r_end b < r_start a"
      by (induction rs) (auto simp: separated_Cons)
    with a b show False
      by auto
  qed
  with a show ?thesis
    by (auto simp: contains_def)
qed

section \<open>Normalization\<close>

lemma gap_or_touch:
  assumes "range_ok p" and "range_ok r" and "r_start p \<le> r_start r"
  shows "r_end p < r_start r \<or> overlaps p r \<or> adjacent p r"
  using assms by (auto simp: overlaps_def adjacent_def range_ok_def)

definition loop_start :: "PhysAddrRange list \<Rightarrow> PhysAddrRange list \<Rightarrow> bool" where
  "loop_start ns rs \<longleftrightarrow> separated ns \<and> sorted (map r_start rs) \<and> (\<forall>r\<in>set rs. range_ok r) \<and>
     (\<forall>r\<in>set rs. ns \<noteq> [] \<longrightarrow> r_start (last ns) \<le> r_start r)"

lemma last_ok: "separated ns \<Longrightarrow> ns \<noteq> [] \<Longrightarrow> range_ok (last ns)"
  by (simp add: separated_def)

lemma loop_start_join:
  assumes "loop_start ns (r # rs)" and "ns \<noteq> []" and "overlaps (last ns) r \<or> adjacent (last ns) r"
  shows "loop_start (butlast ns @ [join (last ns) r]) rs"
    and "all_bytes (butlast ns @ [join (last ns) r]) = all_bytes ns \<union> bytes r"
proof -
  note st = assms(1) [unfolded loop_start_def]
  have ok: "range_ok (last ns)" "range_ok r" "r_start (last ns) \<le> r_start r"
    using st assms(2) last_ok by auto
  note j = join_ok [OF ok(1,2) assms(3)]
  show "loop_start (butlast ns @ [join (last ns) r]) rs"
    using st ok j assms(2) by (auto simp: loop_start_def min_def intro: separated_replace_last)
  have "all_bytes (butlast ns @ [last ns]) = all_bytes ns"
    using assms(2) by simp
  then show "all_bytes (butlast ns @ [join (last ns) r]) = all_bytes ns \<union> bytes r"
    using j(2) by auto
qed

lemma loop_start_push:
  assumes "loop_start ns (r # rs)" and "ns = [] \<or> \<not> (overlaps (last ns) r \<or> adjacent (last ns) r)"
  shows "loop_start (ns @ [r]) rs"
proof -
  note st = assms(1) [unfolded loop_start_def]
  have "r_end (last ns) < r_start r" if "ns \<noteq> []"
    using gap_or_touch [of "last ns" r] st assms(2) that last_ok by auto
  with st show ?thesis
    by (auto simp: loop_start_def intro: separated_snocI)
qed

lemma loop_start_init: "\<forall>r\<in>set rs. range_ok r \<Longrightarrow> loop_start [] (sort_key r_start rs)"
  by (simp add: loop_start_def)

lemma normalize_reserved_loop_correct:
  "loop_start ns rs \<Longrightarrow> separated (normalize_reserved_loop ns rs) \<and>
     all_bytes (normalize_reserved_loop ns rs) = all_bytes ns \<union> all_bytes rs"
proof (induction ns rs rule: normalize_reserved_loop.induct)
  case (2 ns r rs)
  show ?case
  proof (cases "ns \<noteq> [] \<and> (overlaps (last ns) r \<or> adjacent (last ns) r)")
    case True
    with 2 loop_start_join [of ns r rs] show ?thesis
      by auto
  next
    case False
    then have "loop_start (ns @ [r]) rs"
      using loop_start_push 2(3) by blast
    with 2 False show ?thesis
      by auto
  qed
qed (simp add: loop_start_def)

lemma normalize_reserved_correct:
  assumes "\<forall>r\<in>set rs. range_ok r"
  shows "separated (normalize_reserved_ranges rs)"
    and "all_bytes (normalize_reserved_ranges rs) = all_bytes rs"
  using normalize_reserved_loop_correct [OF loop_start_init [OF assms]]
  by (auto simp: normalize_reserved_ranges_def all_bytes_def)

definition ranges_disjoint :: "PhysAddrRange list \<Rightarrow> bool" where
  "ranges_disjoint rs \<longleftrightarrow> distinct rs \<and>
     (\<forall>r\<in>set rs. \<forall>x\<in>set rs. r \<noteq> x \<longrightarrow> bytes r \<inter> bytes x = {})"

lemma ranges_disjoint_Cons:
  "range_ok r \<Longrightarrow> ranges_disjoint (r # rs) \<longleftrightarrow> bytes r \<inter> all_bytes rs = {} \<and> ranges_disjoint rs"
proof -
  assume "range_ok r"
  then have "bytes r \<noteq> {}"
    by (simp add: range_ok_def bytes_def)
  moreover have "bytes r \<inter> all_bytes rs = {} \<longleftrightarrow> (\<forall>x\<in>set rs. bytes r \<inter> bytes x = {})"
    by (auto simp: all_bytes_def)
  moreover have "bytes r \<inter> bytes x = {} \<longleftrightarrow> bytes x \<inter> bytes r = {}" for x
    by blast
  ultimately show ?thesis
    unfolding ranges_disjoint_def by (metis distinct.simps(2) inf.idem set_ConsD list.set_intros)
qed

lemma below_next:
  assumes "loop_start ns (r # rs)" and "ns \<noteq> []" and "\<not> overlaps (last ns) r"
  shows "all_bytes ns \<inter> bytes r = {}"
proof -
  note st = assms(1) [unfolded loop_start_def]
  have ok: "range_ok (last ns)" "range_ok r" "r_start (last ns) \<le> r_start r"
    using st assms(2) last_ok by auto
  then have "r_end (last ns) \<le> r_start r"
    using gap_or_touch [OF ok] assms(3) by (auto simp: adjacent_def range_ok_def)
  moreover have "r_end x \<le> r_end (last ns)" if "x \<in> set ns" for x
  proof -
    have "separated (butlast ns @ [last ns])" and "x \<in> set (butlast ns @ [last ns])"
      using st assms(2) that by simp_all
    with ok(1) show ?thesis
      by (fastforce simp: separated_append range_ok_def)
  qed
  ultimately show ?thesis
    by (fastforce simp: all_bytes_def bytes_def)
qed

lemma normalize_ram_loop_correct:
  "loop_start ns rs \<Longrightarrow>
     (if ranges_disjoint rs \<and> all_bytes ns \<inter> all_bytes rs = {}
      then \<exists>ns'. normalize_ram_loop ns rs = Inr ns' \<and> separated ns' \<and>
        all_bytes ns' = all_bytes ns \<union> all_bytes rs
      else normalize_ram_loop ns rs = Inl InvalidArgs)"
proof (induction ns rs rule: normalize_ram_loop.induct)
  case (1 ns)
  then show ?case
    by (simp add: loop_start_def ranges_disjoint_def)
next
  case (2 ns r rs)
  have ok: "range_ok r"
    using 2(4) by (simp add: loop_start_def)
  note cons = ranges_disjoint_Cons [OF ok, of rs]
  consider "ns = []" | "ns \<noteq> []" "overlaps (last ns) r"
    | "ns \<noteq> []" "\<not> overlaps (last ns) r" "adjacent (last ns) r"
    | "ns \<noteq> []" "\<not> overlaps (last ns) r" "\<not> adjacent (last ns) r"
    by blast
  then show ?case
  proof cases
    case 1
    then have "loop_start [r] rs"
      using loop_start_push [OF 2(4)] by simp
    with 2(1) [OF 1] 1 cons show ?thesis
      by (auto split: if_splits)
  next
    case 2
    have "range_ok (last ns)" and "last ns \<in> set ns"
      using \<open>loop_start ns (r # rs)\<close> 2(1) last_ok by (auto simp: loop_start_def)
    with overlaps_iff ok 2(2) have "all_bytes ns \<inter> bytes r \<noteq> {}"
      by (fastforce simp: all_bytes_def)
    with 2 show ?thesis
      by auto
  next
    case 3
    have "loop_start (butlast ns @ [join (last ns) r]) rs"
      using loop_start_join(1) [OF 2(4) 3(1)] 3(3) by blast
    note ih = 2(2) [OF 3(1) refl 3(2,3) this]
    have "all_bytes (butlast ns @ [join (last ns) r]) = all_bytes ns \<union> bytes r"
      using loop_start_join(2) [OF 2(4) 3(1)] 3(3) by blast
    moreover have "(all_bytes ns \<union> bytes r) \<inter> all_bytes rs = {} \<and> ranges_disjoint rs \<longleftrightarrow>
        ranges_disjoint (r # rs) \<and> all_bytes ns \<inter> all_bytes (r # rs) = {}"
      using cons below_next [OF 2(4) 3(1,2)] by auto
    ultimately show ?thesis
      using ih 3 by (auto simp: Un_assoc simp del: all_bytes_simps(3) split: if_splits)
  next
    case 4
    have "loop_start (ns @ [r]) rs"
      using loop_start_push [OF 2(4)] 4 by blast
    note ih = 2(3) [OF 4(1) refl 4(2,3) this]
    moreover have "(all_bytes ns \<union> bytes r) \<inter> all_bytes rs = {} \<and> ranges_disjoint rs \<longleftrightarrow>
        ranges_disjoint (r # rs) \<and> all_bytes ns \<inter> all_bytes (r # rs) = {}"
      using cons below_next [OF 2(4) 4(1,2)] by auto
    ultimately show ?thesis
      using 4 by (auto simp: Un_assoc split: if_splits)
  qed
qed

lemma all_bytes_sort: "all_bytes (sort_key f rs) = all_bytes rs"
  by (simp add: all_bytes_def)

lemma ranges_disjoint_sort: "ranges_disjoint (sort_key f rs) = ranges_disjoint rs"
  by (simp add: ranges_disjoint_def)

lemma normalize_ram_correct:
  assumes "\<forall>r\<in>set rs. range_ok r"
  shows "if ranges_disjoint rs
    then \<exists>ns. normalize_ram_ranges rs = Inr ns \<and> separated ns \<and> all_bytes ns = all_bytes rs
    else normalize_ram_ranges rs = Inl InvalidArgs"
  using normalize_ram_loop_correct [OF loop_start_init [OF assms]]
  by (auto simp: normalize_ram_ranges_def ranges_disjoint_sort all_bytes_sort split: if_splits)

section \<open>Subtraction\<close>

lemma clip_Some:
  "clip r x = Some y \<Longrightarrow> range_ok y \<and> bytes y = bytes r \<inter> bytes x \<and>
     r_start r \<le> r_start y \<and> r_end y \<le> r_end r"
  by (auto simp: clip_def Let_def range_ok_def bytes_def split: if_splits)

lemma clip_None: "clip r x = None \<Longrightarrow> bytes r \<inter> bytes x = {}"
  by (auto simp: clip_def Let_def bytes_def split: if_splits)

lemma bytes_map_filter_clip: "all_bytes (List.map_filter (clip r) xs) = bytes r \<inter> all_bytes xs"
  by (induction xs) (auto simp: List.map_filter_simps dest: clip_Some clip_None split: option.splits)

lemma excluding_loop_correct:
  assumes "sorted (map r_start xs)" and "\<forall>x\<in>set xs. range_ok x \<and> r_end x \<le> e" and "c \<le> e"
  shows "all_bytes (excluding_loop c e xs) = {c..<e} - all_bytes xs \<and>
    separated (excluding_loop c e xs) \<and>
    (\<forall>p\<in>set (excluding_loop c e xs). c \<le> r_start p \<and> r_end p \<le> e)"
  using assms
proof (induction xs arbitrary: c)
  case Nil
  then show ?case
    by (simp add: separated_Cons range_ok_def bytes_def)
next
  case (Cons x xs)
  let ?c = "max c (r_end x)" and ?tl = "excluding_loop (max c (r_end x)) e xs"
  have x: "r_start x < r_end x" "r_end x \<le> e"
    using Cons.prems(2) by (auto simp: range_ok_def)
  have ih: "all_bytes ?tl = {?c..<e} - all_bytes xs" "separated ?tl"
    "\<forall>p\<in>set ?tl. ?c \<le> r_start p \<and> r_end p \<le> e"
    using Cons.IH [of ?c] Cons.prems x by auto
  have later: "r_start x \<le> a" if "a \<in> all_bytes xs" for a
    using Cons.prems(1) that by (fastforce simp: all_bytes_def bytes_def)
  show ?case
  proof (cases "c < r_start x")
    case True
    let ?p = "\<lparr>r_start = c, r_end = r_start x\<rparr>"
    have "{c..<e} - all_bytes (x # xs) = {c..<r_start x} \<union> ({?c..<e} - all_bytes xs)"
      using True x by (auto simp: bytes_def dest!: later)
    moreover have "separated (?p # ?tl)"
      using ih(2,3) True x by (fastforce simp: separated_Cons range_ok_def)
    ultimately show ?thesis
      using True x ih(1,3) by (auto simp: bytes_def)
  next
    case False
    then have "{c..<e} - all_bytes (x # xs) = {?c..<e} - all_bytes xs"
      by (auto simp: bytes_def)
    with False ih show ?thesis
      by auto
  qed
qed

lemma excluding_correct:
  assumes "range_ok r"
  shows "all_bytes (excluding r xs) = bytes r - all_bytes xs" and "separated (excluding r xs)"
    and "p \<in> set (excluding r xs) \<Longrightarrow> r_start r \<le> r_start p \<and> r_end p \<le> r_end r"
proof -
  let ?ys = "sort_key r_start (List.map_filter (clip r) xs)"
  have "\<forall>y\<in>set ?ys. range_ok y \<and> r_end y \<le> r_end r"
    using clip_Some by (auto simp: List.map_filter_def split: option.splits)
  moreover have "r_start r \<le> r_end r"
    using assms by (simp add: range_ok_def)
  ultimately have *: "all_bytes (excluding r xs) = {r_start r..<r_end r} - all_bytes ?ys \<and>
    separated (excluding r xs) \<and>
    (\<forall>p\<in>set (excluding r xs). r_start r \<le> r_start p \<and> r_end p \<le> r_end r)"
    using excluding_loop_correct [of ?ys "r_end r" "r_start r"] by (simp add: excluding_def)
  have "all_bytes ?ys = all_bytes (List.map_filter (clip r) xs)"
    by (simp add: all_bytes_def)
  with * show "all_bytes (excluding r xs) = bytes r - all_bytes xs"
    by (auto simp: bytes_map_filter_clip bytes_def)
  from * show "separated (excluding r xs)" and
    "p \<in> set (excluding r xs) \<Longrightarrow> r_start r \<le> r_start p \<and> r_end p \<le> r_end r"
    by auto
qed

lemma separated_concat:
  assumes "separated ms"
    and "\<And>m. m \<in> set ms \<Longrightarrow> separated (f m)"
    and "\<And>m p. m \<in> set ms \<Longrightarrow> p \<in> set (f m) \<Longrightarrow> r_start m \<le> r_start p \<and> r_end p \<le> r_end m"
  shows "separated (concat (map f ms))"
  using assms
proof (induction ms)
  case (Cons m ms)
  have "r_end x < r_start y" if "x \<in> set (f m)" "k \<in> set ms" "y \<in> set (f k)" for x k y
    using Cons.prems(1) Cons.prems(3) [of m x] Cons.prems(3) [of k y] that
    by (fastforce simp: separated_Cons)
  with Cons show ?case
    by (auto simp: separated_append separated_Cons)
qed simp

section \<open>Properties of the registry\<close>

text \<open>
  C32: normalizing RAM succeeds exactly when no two of the given ranges overlap; the result then
  covers the same addresses with sorted ranges that do not even touch. Normalizing reserved
  ranges always succeeds, with the same guarantee.
\<close>

theorem normalize_ranges_correct:
  assumes "\<forall>r\<in>set rs. range_ok r"
  shows "(if ranges_disjoint rs
      then \<exists>ns. normalize_ram_ranges rs = Inr ns \<and> separated ns \<and> all_bytes ns = all_bytes rs
      else normalize_ram_ranges rs = Inl InvalidArgs) \<and>
    separated (normalize_reserved_ranges rs) \<and> all_bytes (normalize_reserved_ranges rs) = all_bytes rs"
  using normalize_ram_correct [OF assms] normalize_reserved_correct [OF assms] by blast

theorem normalize_ranges_correct_witness:
  "let rs = [\<lparr>r_start = 8192, r_end = 12288\<rparr>, \<lparr>r_start = 4096, r_end = 8192\<rparr>]
   in all_bytes (normalize_reserved_ranges rs) = all_bytes rs \<and>
     normalize_ram_ranges rs = Inr [\<lparr>r_start = 4096, r_end = 12288\<rparr>]"
proof -
  let ?rs = "[\<lparr>r_start = 8192, r_end = 12288\<rparr>, \<lparr>r_start = 4096, r_end = 8192\<rparr>]"
  have "\<forall>r\<in>set ?rs. range_ok r"
    by (simp add: range_ok_def)
  from normalize_ranges_correct [OF this] show ?thesis
    by (simp add: normalize_ram_ranges_def overlaps_def adjacent_def join_def Let_def)
qed

lemma supervisor_regions:
  assumes "\<forall>r\<in>set ram. range_ok r" and "\<forall>r\<in>set reserved. range_ok r" and "range_ok fw"
    and "from_ranges_with_firmware fw ram reserved = Inr (sm, reg)"
  shows "separated (regions sm)"
    and "all_bytes (regions sm) = all_bytes ram - all_bytes reserved - bytes fw"
    and "bytes fw \<subseteq> all_bytes ram" and "firmware_image_range reg = fw" and "acquired_mmio reg = []"
    and "separated (ram_ranges reg)" and "all_bytes (ram_ranges reg) = all_bytes ram"
    and "separated (reserved_ranges reg)" and "all_bytes (reserved_ranges reg) = all_bytes reserved"
proof -
  obtain ns where ns: "normalize_ram_ranges ram = Inr ns"
    using assms(4) by (auto simp: from_ranges_with_firmware_def split: sum.splits)
  then have ram: "separated ns" "all_bytes ns = all_bytes ram"
    using normalize_ram_correct [OF assms(1)] by (auto split: if_splits)
  let ?xs = "normalize_reserved_ranges reserved"
  note res = normalize_reserved_correct [OF assms(2)]
  let ?f = "\<lambda>m. excluding m (?xs @ [fw])"
  from assms(4) ns have reg: "reg = \<lparr>firmware_image_range = fw, ram_ranges = ns, reserved_ranges = ?xs,
      acquired_mmio = []\<rparr>"
    and sm: "regions sm = concat (map ?f ns)" and in_ram: "\<exists>m\<in>set ns. contains m fw"
    by (auto simp: from_ranges_with_firmware_def derive_supervisor_memory_def Let_def
        split: sum.splits if_splits)
  have ok: "range_ok m" if "m \<in> set ns" for m
    using ram(1) that by (simp add: separated_def)
  show "separated (regions sm)"
    unfolding sm using excluding_correct(2,3) ok by (intro separated_concat [OF ram(1)]) blast+
  have "all_bytes (concat (map ?f ns)) = (\<Union>m\<in>set ns. all_bytes (?f m))"
    by (auto simp: all_bytes_def)
  also have "\<dots> = (\<Union>m\<in>set ns. bytes m) - all_bytes (?xs @ [fw])"
    using excluding_correct(1) [OF ok] by blast
  finally show "all_bytes (regions sm) = all_bytes ram - all_bytes reserved - bytes fw"
    using ram(2) res(2) by (auto simp: sm all_bytes_def [of ns])
  show "bytes fw \<subseteq> all_bytes ram"
  proof -
    from in_ram obtain m where "m \<in> set ns" and "bytes fw \<subseteq> bytes m"
      using contains_iff [OF assms(3)] by blast
    then have "bytes fw \<subseteq> all_bytes ns"
      by (auto simp: all_bytes_def)
    then show ?thesis
      by (simp add: ram(2))
  qed
  show "firmware_image_range reg = fw" "acquired_mmio reg = []" "separated (ram_ranges reg)"
    "all_bytes (ram_ranges reg) = all_bytes ram" "separated (reserved_ranges reg)"
    "all_bytes (reserved_ranges reg) = all_bytes reserved"
    using ram res by (simp_all add: reg)
qed

text \<open>
  C33: once the memory ranges are registered, \<open>check_range\<close> accepts a range exactly when all of it
  is RAM that is neither reserved nor part of the firmware image, and the firmware image lies
  in RAM.
\<close>

theorem check_range_exact:
  assumes "\<forall>r\<in>set ram. range_ok r" and "\<forall>r\<in>set reserved. range_ok r" and "range_ok fw"
    and "from_ranges_with_firmware fw ram reserved = Inr (sm, reg)" and "range_ok r"
  shows "(check_range sm r = Inr () \<longleftrightarrow> bytes r \<subseteq> all_bytes ram - all_bytes reserved - bytes fw) \<and>
    bytes fw \<subseteq> all_bytes ram"
proof -
  note sup = supervisor_regions [OF assms(1-4)]
  have "check_range sm r = Inr () \<longleftrightarrow> (\<exists>a\<in>set (regions sm). contains a r)"
    by (simp add: check_range_def)
  also have "\<dots> \<longleftrightarrow> bytes r \<subseteq> all_bytes (regions sm)"
    using separated_contains [OF sup(1) assms(5)] contains_iff [OF assms(5)]
    by (auto simp: all_bytes_def)
  finally show ?thesis
    using sup(2,3) by simp
qed

definition ram_example :: "PhysAddrRange list" where
  "ram_example = [\<lparr>r_start = 6144, r_end = 8192\<rparr>, \<lparr>r_start = 4096, r_end = 6144\<rparr>]"

definition reserved_example :: "PhysAddrRange list" where
  "reserved_example = [\<lparr>r_start = 6016, r_end = 6272\<rparr>]"

definition firmware_example :: PhysAddrRange where
  "firmware_example = \<lparr>r_start = 4608, r_end = 5120\<rparr>"

definition supervisor_example :: SupervisorMemory where
  "supervisor_example = \<lparr>regions = [\<lparr>r_start = 4096, r_end = 4608\<rparr>, \<lparr>r_start = 5120, r_end = 6016\<rparr>,
     \<lparr>r_start = 6272, r_end = 8192\<rparr>]\<rparr>"

definition registry_example :: MemoryRegistry where
  "registry_example = \<lparr>firmware_image_range = firmware_example,
     ram_ranges = [\<lparr>r_start = 4096, r_end = 8192\<rparr>], reserved_ranges = reserved_example,
     acquired_mmio = []\<rparr>"

lemma example_ok:
  "\<forall>r\<in>set ram_example. range_ok r" "\<forall>r\<in>set reserved_example. range_ok r"
  "range_ok firmware_example"
  "from_ranges_with_firmware firmware_example ram_example reserved_example
     = Inr (supervisor_example, registry_example)"
  by (simp_all add: ram_example_def reserved_example_def firmware_example_def supervisor_example_def
      registry_example_def range_ok_def from_ranges_with_firmware_def normalize_ram_ranges_def
      normalize_reserved_ranges_def validate_memory_ranges_def derive_supervisor_memory_def
      overlaps_def adjacent_def join_def contains_def excluding_def clip_def List.map_filter_simps Let_def)

theorem check_range_exact_witness:
  "check_range supervisor_example \<lparr>r_start = 5120, r_end = 6016\<rparr> = Inr () \<longleftrightarrow>
     bytes \<lparr>r_start = 5120, r_end = 6016\<rparr>
       \<subseteq> all_bytes ram_example - all_bytes reserved_example - bytes firmware_example"
proof -
  have "range_ok \<lparr>r_start = 5120, r_end = 6016\<rparr>"
    by (simp add: range_ok_def)
  from check_range_exact [OF example_ok this] show ?thesis
    by blast
qed

section \<open>Accesses on behalf of the supervisor\<close>

lemma store_bytes_apply:
  "unat s + length bs \<le> 2 ^ 64 \<Longrightarrow>
     store_bytes mem s bs a =
       (if unat s \<le> unat a \<and> unat a < unat s + length bs then bs ! (unat a - unat s) else mem a)"
proof (induction bs arbitrary: mem s)
  case (Cons b bs)
  show ?case
  proof (cases "bs = []")
    case True
    then show ?thesis
      by auto (metis le_antisym less_Suc_eq_le unat_eq_iff)
  next
    case False
    then have "unat s + 1 < 2 ^ 64"
      using Cons.prems by (cases bs) auto
    then have u: "unat (s + 1) = unat s + 1"
      using unat_add_no_ovf [of s 1] by simp
    have ih: "store_bytes (mem(s := b)) (s + 1) bs a = (if unat s + 1 \<le> unat a \<and>
        unat a < unat s + 1 + length bs then bs ! (unat a - (unat s + 1)) else (mem(s := b)) a)"
      unfolding u [symmetric] by (rule Cons.IH) (use Cons.prems u in simp)
    show ?thesis
    proof (cases "a = s")
      case False
      then have "unat a \<noteq> unat s"
        by simp
      with False ih show ?thesis
        by (auto simp: nth_Cons' simp del: unat_eq_iff)
    qed (use ih in simp)
  qed
qed auto

lemma check_access_Inr:
  assumes "check_access sm s len = Inr u" and "len \<noteq> 0"
  shows "\<exists>a\<in>set (regions sm). unat s + unat len < 2 ^ 64 \<and> unat (r_start a) \<le> unat s \<and>
    unat s + unat len \<le> unat (r_end a)"
proof -
  obtain e where e: "checked_add s len = Some e"
    and in_region: "\<exists>a\<in>set (regions sm). r_start a \<le> s \<and> e \<le> r_end a"
    using assms by (auto simp: check_access_def from_start_len_def range_new_def check_range_def
        contains_def split: option.splits if_splits sum.splits)
  have "unat e = unat s + unat len"
    using checked_add_eq_Some [of s len e] e by blast
  with in_region unat_usize [of e] show ?thesis
    by (auto simp: word_le_nat_alt)
qed

lemma access_bytes:
  assumes "check_access sm s len = Inr u" and "unat s \<le> unat a" and "unat a < unat s + unat len"
  shows "a \<in> all_bytes (regions sm)"
proof -
  have "len \<noteq> 0"
    using assms(2,3) by auto
  from check_access_Inr [OF assms(1) this] obtain r where "r \<in> set (regions sm)"
    "unat (r_start r) \<le> unat s" "unat s + unat len \<le> unat (r_end r)"
    by blast
  moreover from this assms(2,3) have "a \<in> bytes r"
    by (simp add: bytes_def word_le_nat_alt word_less_nat_alt)
  ultimately show ?thesis
    by (auto simp: all_bytes_def)
qed

lemma access_fits: "check_access sm s len = Inr u \<Longrightarrow> unat s + unat len \<le> 2 ^ 64"
  using check_access_Inr [of sm s len u] unat_usize [of s] by (cases "len = 0") auto

text \<open>
  C4: a write on behalf of the supervisor that succeeds changes only bytes of RAM outside the
  reserved ranges and the firmware image; reading the same place returns what was written, and
  filling with zeros succeeds on the same places and leaves zeros there.
\<close>

theorem supervisor_write_confined:
  assumes "\<forall>r\<in>set ram. range_ok r" and "\<forall>r\<in>set reserved. range_ok r" and "range_ok fw"
    and "from_ranges_with_firmware fw ram reserved = Inr (sm, reg)"
    and "length input < 2 ^ 64" and "mem_write sm mem s input = Inr mem'"
  shows "{a. mem' a \<noteq> mem a} \<subseteq> all_bytes ram - all_bytes reserved - bytes fw \<and>
    mem_read sm mem' s (length input) = Inr input \<and>
    (\<exists>mem0. fill_zeros sm mem' s (word_of_nat (length input)) = Inr mem0 \<and>
      mem_read sm mem0 s (length input) = Inr (replicate (length input) 0) \<and>
      {a. mem0 a \<noteq> mem' a} \<subseteq> all_bytes ram - all_bytes reserved - bytes fw)"
proof -
  let ?n = "length input" and ?len = "word_of_nat (length input) :: usize"
  have n: "unat ?len = ?n"
    using assms(5) by (simp add: unat_of_nat)
  obtain u where chk: "check_access sm s ?len = Inr u" and mem': "mem' = store_bytes mem s input"
    using assms(6) by (auto simp: mem_write_def split: sum.splits)
  have fits: "unat s + ?n \<le> 2 ^ 64"
    using access_fits [OF chk] n by simp
  have only_region: "{a. store_bytes m s bs a \<noteq> m a} \<subseteq> all_bytes (regions sm)" if "length bs = ?n" for m bs
    using access_bytes [OF chk] fits that by (auto simp: store_bytes_apply n split: if_splits)
  have reread: "mem_read sm (store_bytes m s bs) s ?n = Inr bs" if "length bs = ?n" for m bs
  proof -
    have "store_bytes m s bs (s + word_of_nat i) = bs ! i" if "i < ?n" for i
    proof -
      have "unat (word_of_nat i :: usize) = i"
        using that assms(5) by (simp add: unat_of_nat)
      then have "unat (s + word_of_nat i) = unat s + i"
        using fits that by (subst unat_add_no_ovf) auto
      with fits that \<open>length bs = ?n\<close> show ?thesis
        by (simp add: store_bytes_apply)
    qed
    then show ?thesis
      using chk that by (auto simp: mem_read_def intro: nth_equalityI)
  qed
  have "fill_zeros sm mem' s ?len = Inr (store_bytes mem' s (replicate ?n 0))"
    using chk n by (auto simp: fill_zeros_def)
  then show ?thesis
    using only_region [of input mem] reread [of input mem] only_region [of "replicate ?n 0" mem']
      reread [of "replicate ?n 0" mem'] supervisor_regions(2) [OF assms(1-4)]
    by (simp add: mem')
qed

theorem supervisor_write_confined_witness:
  "\<exists>mem'. mem_write supervisor_example (\<lambda>_. 0) 5120 [1, 2, 3] = Inr mem' \<and>
    {a. mem' a \<noteq> 0} \<subseteq> all_bytes ram_example - all_bytes reserved_example - bytes firmware_example \<and>
    mem_read supervisor_example mem' 5120 3 = Inr [1, 2, 3]"
proof -
  have "\<exists>mem'. mem_write supervisor_example (\<lambda>_. 0) 5120 [1, 2, 3] = Inr mem'"
    by (simp add: mem_write_def check_access_def from_start_len_def checked_add_def range_new_def
        check_range_def contains_def supervisor_example_def)
  then obtain mem' where w: "mem_write supervisor_example (\<lambda>_. 0) 5120 [1, 2, 3] = Inr mem'" ..
  from supervisor_write_confined [OF example_ok _ w] w show ?thesis
    by (auto simp: numeral_3_eq_3)
qed

section \<open>Device windows\<close>

text \<open>Any sequence of requests for device windows.\<close>

fun acquire_all :: "MemoryRegistry \<Rightarrow> PhysAddrRange list \<Rightarrow> MemoryRegistry" where
  "acquire_all reg [] = reg"
| "acquire_all reg (r # rs) = acquire_all (snd (acquire_mmio reg r)) rs"

definition mmio_inv :: "MemoryRegistry \<Rightarrow> bool" where
  "mmio_inv reg \<longleftrightarrow> ranges_disjoint (acquired_mmio reg) \<and> (\<forall>r\<in>set (acquired_mmio reg). range_ok r) \<and>
     (\<forall>r\<in>set (ram_ranges reg @ reserved_ranges reg). range_ok r) \<and>
     all_bytes (acquired_mmio reg) \<inter> all_bytes (ram_ranges reg @ reserved_ranges reg) = {}"

lemma no_overlap: 
  "\<forall>r\<in>set rs. range_ok r \<Longrightarrow> range_ok x \<Longrightarrow> \<not> (\<exists>u\<in>set rs. overlaps u x) \<longleftrightarrow> all_bytes rs \<inter> bytes x = {}"
  by (auto simp: overlaps_iff all_bytes_def)

lemma ranges_disjoint_snoc:
  "range_ok r \<Longrightarrow> ranges_disjoint (rs @ [r]) \<longleftrightarrow> bytes r \<inter> all_bytes rs = {} \<and> ranges_disjoint rs"
proof -
  have "set (rs @ [r]) = set (r # rs)" and "distinct (rs @ [r]) = distinct (r # rs)"
    by auto
  then have "ranges_disjoint (rs @ [r]) = ranges_disjoint (r # rs)"
    unfolding ranges_disjoint_def by (simp only:)
  then show "range_ok r \<Longrightarrow> ?thesis"
    using ranges_disjoint_Cons by simp
qed

lemma acquire_mmio_inv:
  assumes "mmio_inv reg" and "range_ok r"
  shows "mmio_inv (snd (acquire_mmio reg r))"
    and "ram_ranges (snd (acquire_mmio reg r)) = ram_ranges reg"
    and "reserved_ranges (snd (acquire_mmio reg r)) = reserved_ranges reg"
    and "fst (acquire_mmio reg r) = Inr r \<longleftrightarrow>
      bytes r \<inter> (all_bytes (ram_ranges reg @ reserved_ranges reg) \<union> all_bytes (acquired_mmio reg)) = {}"
proof -
  note inv = assms(1) [unfolded mmio_inv_def]
  note no = no_overlap [of "ram_ranges reg @ reserved_ranges reg" r]
    no_overlap [of "acquired_mmio reg" r]
  show "ram_ranges (snd (acquire_mmio reg r)) = ram_ranges reg"
    "reserved_ranges (snd (acquire_mmio reg r)) = reserved_ranges reg"
    by (simp_all add: acquire_mmio_def)
  show "fst (acquire_mmio reg r) = Inr r \<longleftrightarrow>
      bytes r \<inter> (all_bytes (ram_ranges reg @ reserved_ranges reg) \<union> all_bytes (acquired_mmio reg)) = {}"
    using no inv assms(2) by (auto simp: acquire_mmio_def Int_Un_distrib Int_commute)
  show "mmio_inv (snd (acquire_mmio reg r))"
  proof (cases "all_bytes (ram_ranges reg @ reserved_ranges reg) \<inter> bytes r = {} \<and>
      all_bytes (acquired_mmio reg) \<inter> bytes r = {}")
    case True
    then have "snd (acquire_mmio reg r) = reg\<lparr>acquired_mmio := acquired_mmio reg @ [r]\<rparr>"
      using no inv assms(2) by (auto simp: acquire_mmio_def)
    with True inv assms(2) ranges_disjoint_snoc [OF assms(2)] show ?thesis
      by (auto simp: mmio_inv_def)
  next
    case False
    then have "snd (acquire_mmio reg r) = reg"
      using no inv assms(2) by (auto simp: acquire_mmio_def)
    with assms(1) show ?thesis
      by simp
  qed
qed

lemma acquire_all_inv:
  "mmio_inv reg \<Longrightarrow> \<forall>r\<in>set rs. range_ok r \<Longrightarrow> mmio_inv (acquire_all reg rs) \<and>
     ram_ranges (acquire_all reg rs) = ram_ranges reg \<and>
     reserved_ranges (acquire_all reg rs) = reserved_ranges reg"
  using acquire_mmio_inv by (induction reg rs rule: acquire_all.induct) auto

text \<open>
  C34: after any sequence of window requests the windows that were granted are pairwise disjoint
  and disjoint from RAM and reserved memory, and the next request is granted exactly when it
  keeps it so.
\<close>

theorem mmio_windows_disjoint:
  assumes "\<forall>r\<in>set ram. range_ok r" and "\<forall>r\<in>set reserved. range_ok r" and "range_ok fw"
    and "from_ranges_with_firmware fw ram reserved = Inr (sm, reg0)"
    and "\<forall>r\<in>set rs. range_ok r" and "range_ok r" and "reg = acquire_all reg0 rs"
  shows "ranges_disjoint (acquired_mmio reg) \<and>
    all_bytes (acquired_mmio reg) \<inter> (all_bytes ram \<union> all_bytes reserved) = {} \<and>
    (fst (acquire_mmio reg r) = Inr r \<longleftrightarrow>
      bytes r \<inter> (all_bytes ram \<union> all_bytes reserved \<union> all_bytes (acquired_mmio reg)) = {})"
proof -
  note sup = supervisor_regions [OF assms(1-4)]
  have "mmio_inv reg0"
    using sup(5,6,8) by (auto simp: mmio_inv_def ranges_disjoint_def separated_def)
  from acquire_all_inv [OF this assms(5)] have inv: "mmio_inv reg"
    "ram_ranges reg = ram_ranges reg0" "reserved_ranges reg = reserved_ranges reg0"
    using assms(7) by auto
  show ?thesis
    using inv(1) acquire_mmio_inv(4) [OF inv(1) assms(6)] sup(7,9)
    by (simp add: mmio_inv_def inv(2,3) Un_assoc)
qed

theorem mmio_windows_disjoint_witness:
  "let reg = acquire_all registry_example [\<lparr>r_start = 12288, r_end = 12352\<rparr>];
       r = \<lparr>r_start = 12336, r_end = 12368\<rparr>
   in fst (acquire_mmio reg r) = Inr r \<longleftrightarrow>
     bytes r \<inter> (all_bytes ram_example \<union> all_bytes reserved_example \<union> all_bytes (acquired_mmio reg)) = {}"
proof -
  have rs: "\<forall>r\<in>set [\<lparr>r_start = 12288, r_end = 12352\<rparr>]. range_ok r"
    and r: "range_ok \<lparr>r_start = 12336, r_end = 12368\<rparr>"
    by (simp_all add: range_ok_def)
  from mmio_windows_disjoint [OF example_ok rs r refl] show ?thesis
    unfolding Let_def by blast
qed

text \<open>
  C35: a register access that passes the check lies completely inside its window and is aligned
  to its width; an access inside the window and aligned is never refused.
\<close>

theorem checked_address_exact:
  assumes "width \<noteq> 0"
  shows "checked_address window width offset = Inr a \<longleftrightarrow>
    unat a = unat (r_start window) + unat offset \<and> unat a + unat width \<le> unat (r_end window) \<and>
    a mod width = 0"
proof -
  have sub: "subrange window offset width = Inr x \<longleftrightarrow>
      checked_add (r_start window) offset = Some (r_start x) \<and>
      checked_add (r_start x) width = Some (r_end x) \<and> r_end x \<le> r_end window" for x
    using assms by (auto simp: subrange_def not_less split: option.splits if_splits)
  have "checked_address window width offset = Inr a \<longleftrightarrow>
      (\<exists>x. subrange window offset width = Inr x \<and> r_start x = a \<and> a mod width = 0)"
  proof (cases "subrange window offset width")
    case (Inr x)
    then have "checked_address window width offset = Inr a \<longleftrightarrow> r_start x mod width = 0 \<and> r_start x = a"
      by (simp add: checked_address_def)
    with Inr show ?thesis
      by (metis sum.inject(2))
  qed (simp add: checked_address_def)
  also have "\<dots> \<longleftrightarrow> checked_add (r_start window) offset = Some a \<and> a mod width = 0 \<and>
      (\<exists>e. checked_add a width = Some e \<and> e \<le> r_end window)"
    unfolding sub by (metis PhysAddrRange.select_convs)
  also have "(\<exists>e. checked_add a width = Some e \<and> e \<le> r_end window) \<longleftrightarrow>
      unat a + unat width \<le> unat (r_end window)"
  proof
    assume le: "unat a + unat width \<le> unat (r_end window)"
    then have "unat a + unat width < 2 ^ 64"
      using unat_usize [of "r_end window"] by simp
    then have "unat (a + width) = unat a + unat width"
      using unat_add_no_ovf [of a width] by simp
    with le show "\<exists>e. checked_add a width = Some e \<and> e \<le> r_end window"
      by (intro exI [of _ "a + width"]) (simp add: checked_add_unat word_le_nat_alt)
  qed (auto simp: checked_add_unat word_le_nat_alt)
  finally show ?thesis
    unfolding checked_add_unat by (simp only: conj_ac)
qed

theorem checked_address_exact_witness:
  "checked_address \<lparr>r_start = 4096, r_end = 4112\<rparr> 4 8 = Inr 4104"
  using checked_address_exact [of 4 "\<lparr>r_start = 4096, r_end = 4112\<rparr>" 8 4104] by simp

end
