(* ===== verification/Hart_Lifecycle.thy ===== *)
theory Hart_Lifecycle
  imports Sbi_Ret
begin

text \<open>
  The hart lifecycle of \<open>firmware/runtime/src/hart/lifecycle.rs\<close> with its callers
  \<open>finish_boot_rust\<close> (\<open>boot/mod.rs\<close>) and \<open>sbi_ecall\<close> (\<open>trap/dispatch.rs\<close>), and the SBI HSM
  adapter of \<open>firmware/prototyper/src/sbi/hsm.rs\<close>.

  Each hart has a state cell that other harts read and update concurrently. The first part
  models each function as it runs when no other hart interferes, on the cell it works on; the
  outcome of the platform devices (the IPI device, the reset controller) is an argument. The
  second part is the interleaved system: every atomic access and every write of a staged
  handoff is a step of its own, and the program point of each hart says what it does next.
\<close>

section \<open>State cells\<close>

definition NUM_HART_MAX :: nat where "NUM_HART_MAX = 8"

definition STATE_STARTED :: u8 where "STATE_STARTED = 0"
definition STATE_STOPPED :: u8 where "STATE_STOPPED = 1"
definition STATE_START_PENDING :: u8 where "STATE_START_PENDING = 2"
definition STATE_SUSPENDED :: u8 where "STATE_SUSPENDED = 4"
definition STATE_RESUME_PENDING :: u8 where "STATE_RESUME_PENDING = 6"
definition STATE_STARTING :: u8 where "STATE_STARTING = - 1"

lemmas state_defs = STATE_STARTED_def STATE_STOPPED_def STATE_START_PENDING_def STATE_SUSPENDED_def
  STATE_RESUME_PENDING_def STATE_STARTING_def

datatype MPP = Machine | Supervisor | User

record NextStage =
  start_addr :: usize
  opaque :: usize
  next_mode :: MPP

text \<open>\<open>transfer\<close> holds the stage of \<open>ControlTransfer::NonRetentiveResume\<close>.\<close>

record HartStateCell =
  hstate :: u8
  stage :: "NextStage option"
  transfer :: "NextStage option"

definition cell_new :: HartStateCell where
  "cell_new = \<lparr>hstate = STATE_STOPPED, stage = None, transfer = None\<rparr>"

datatype HartState = Started | Stopped | StartPending | Suspended | ResumePending
datatype HartEvent = EvStart NextStage | EvPark | EvNone
datatype StartOutcome = Accepted | AlreadyRunning
datatype StartError = StartWakeFailed
datatype StageError = Busy
datatype SuspendError = SuspendPlatform
datatype ResumeError = InvalidState | ResumeWakeFailed
datatype StopError = StopPlatform

section \<open>The operations of a hart that is not disturbed\<close>

definition compare_exchange :: "HartStateCell \<Rightarrow> u8 \<Rightarrow> u8 \<Rightarrow> bool \<times> HartStateCell" where
  "compare_exchange c expected new =
     (if hstate c = expected then (True, c\<lparr>hstate := new\<rparr>) else (False, c))"

definition stage_current :: "HartStateCell \<Rightarrow> NextStage \<Rightarrow> (StageError + unit) \<times> HartStateCell" where
  "stage_current c s =
     (case compare_exchange c STATE_STOPPED STATE_STARTING of
        (False, c) \<Rightarrow> (Inl Busy, c)
      | (True, c) \<Rightarrow> (Inr (), c\<lparr>stage := Some s, hstate := STATE_START_PENDING\<rparr>))"

text \<open>
  \<open>wake\<close>: a hardware release device may take the request (\<open>Some True\<close>), decline it
  (\<open>Some False\<close>) or fail (\<open>None\<close>); otherwise an IPI is sent.
\<close>

definition wake :: "(nat \<Rightarrow> bool option) option \<Rightarrow> (nat \<Rightarrow> bool) option \<Rightarrow> nat \<Rightarrow> StartError + unit" where
  "wake device ipi hart =
     (case device of
        Some d \<Rightarrow>
          (case d hart of
             None \<Rightarrow> Inl StartWakeFailed
           | Some True \<Rightarrow> Inr ()
           | Some False \<Rightarrow>
               (case ipi of None \<Rightarrow> Inl StartWakeFailed
                | Some send \<Rightarrow> if send hart then Inr () else Inl StartWakeFailed))
      | None \<Rightarrow>
          (case ipi of None \<Rightarrow> Inl StartWakeFailed
           | Some send \<Rightarrow> if send hart then Inr () else Inl StartWakeFailed))"

definition start :: "StartError + unit \<Rightarrow> HartStateCell \<Rightarrow> NextStage \<Rightarrow> (StartError + StartOutcome) \<times> HartStateCell" where
  "start woken c s =
     (case compare_exchange c STATE_STOPPED STATE_STARTING of
        (False, c) \<Rightarrow> (Inr AlreadyRunning, c)
      | (True, c) \<Rightarrow>
          (case woken of
             Inl e \<Rightarrow> (Inl e, c\<lparr>hstate := STATE_STOPPED\<rparr>)
           | Inr _ \<Rightarrow> (Inr Accepted, c\<lparr>stage := Some s, hstate := STATE_START_PENDING\<rparr>)))"

text \<open>
  \<open>take_local_event\<close>; \<open>None\<close> while another hart holds the reservation, which the source waits
  out in a loop.
\<close>

definition take_local_event :: "HartStateCell \<Rightarrow> (HartEvent \<times> HartStateCell) outcome option" where
  "take_local_event c =
     (if hstate c = STATE_START_PENDING
      then Some (case stage c of
          None \<Rightarrow> Panic
        | Some s \<Rightarrow> Ret (EvStart s, c\<lparr>hstate := STATE_STARTED, stage := None\<rparr>))
      else if hstate c = STATE_STARTING then None
      else if hstate c = STATE_STOPPED then Some (Ret (EvPark, c))
      else Some (Ret (EvNone, c)))"

definition status :: "HartStateCell \<Rightarrow> HartState outcome" where
  "status c =
     (if hstate c = STATE_STARTED then Ret Started
      else if hstate c = STATE_STOPPED then Ret Stopped
      else if hstate c = STATE_START_PENDING \<or> hstate c = STATE_STARTING then Ret StartPending
      else if hstate c = STATE_SUSPENDED then Ret Suspended
      else if hstate c = STATE_RESUME_PENDING then Ret ResumePending
      else Panic)"

definition can_receive_ipi :: "HartStateCell \<Rightarrow> bool outcome" where
  "can_receive_ipi c = omap (\<lambda>st. st = Started \<or> st = Suspended) (status c)"

text \<open>
  \<open>clear_current\<close> of the IPI device: \<open>None\<close> without a device, otherwise whether it succeeded.
  A successful \<open>stop_current\<close> does not return.
\<close>

definition stop_current :: "bool option \<Rightarrow> HartStateCell \<Rightarrow> StopError option \<times> HartStateCell" where
  "stop_current cleared c =
     (case cleared of
        Some True \<Rightarrow> (None, c\<lparr>hstate := STATE_STOPPED\<rparr>)
      | _ \<Rightarrow> (Some StopPlatform, c))"

definition suspend_current :: "bool option \<Rightarrow> HartStateCell \<Rightarrow> (SuspendError + unit) \<times> HartStateCell" where
  "suspend_current cleared c =
     (case cleared of
        Some True \<Rightarrow> (Inr (), c\<lparr>hstate := STATE_SUSPENDED\<rparr>)
      | _ \<Rightarrow> (Inl SuspendPlatform, c))"

definition resume_current_retentive :: "HartStateCell \<Rightarrow> (ResumeError + unit) \<times> HartStateCell" where
  "resume_current_retentive c =
     (case compare_exchange c STATE_SUSPENDED STATE_STARTED of
        (False, c) \<Rightarrow> (Inl InvalidState, c)
      | (True, c) \<Rightarrow> (Inr (), c))"

definition begin_nonretentive_resume ::
    "HartStateCell \<Rightarrow> NextStage \<Rightarrow> (ResumeError + NextStage) \<times> HartStateCell" where
  "begin_nonretentive_resume c s =
     (case compare_exchange c STATE_SUSPENDED STATE_RESUME_PENDING of
        (False, c) \<Rightarrow> (Inl InvalidState, c)
      | (True, c) \<Rightarrow> (Inr s, c))"

text \<open>\<open>ResumeTicket::commit\<close>; when it fails, dropping the ticket stores \<open>STATE_SUSPENDED\<close>.\<close>

definition ticket_drop :: "HartStateCell \<Rightarrow> HartStateCell" where
  "ticket_drop c = c\<lparr>hstate := STATE_SUSPENDED\<rparr>"

definition ticket_commit ::
    "(nat \<Rightarrow> bool) option \<Rightarrow> nat \<Rightarrow> HartStateCell \<Rightarrow> NextStage \<Rightarrow> (ResumeError + unit) \<times> HartStateCell" where
  "ticket_commit ipi hart c s =
     (case ipi of
        Some send \<Rightarrow>
          if send hart then (Inr (), c\<lparr>transfer := Some s, hstate := STATE_STARTED\<rparr>)
          else (Inl ResumeWakeFailed, ticket_drop c)
      | None \<Rightarrow> (Inl ResumeWakeFailed, ticket_drop c))"

definition take_control_transfer :: "HartStateCell \<Rightarrow> NextStage option \<times> HartStateCell" where
  "take_control_transfer c = (transfer c, c\<lparr>transfer := None\<rparr>)"

section \<open>The SBI HSM adapter\<close>

definition HSM_STARTED :: usize where "HSM_STARTED = 0"
definition HSM_STOPPED :: usize where "HSM_STOPPED = 1"
definition HSM_START_PENDING :: usize where "HSM_START_PENDING = 2"
definition HSM_SUSPENDED :: usize where "HSM_SUSPENDED = 4"
definition HSM_RESUME_PENDING :: usize where "HSM_RESUME_PENDING = 6"
definition RETENTIVE :: u32 where "RETENTIVE = 0"
definition NON_RETENTIVE :: u32 where "NON_RETENTIVE = 0x80000000"

record platform =
  hardware_wakeup :: bool
  enabled_harts :: "bool list"
  privilege_checked :: "usize \<Rightarrow> bool"
  wake_device :: "(nat \<Rightarrow> bool option) option"
  ipi_send :: "(nat \<Rightarrow> bool) option"
  ipi_clear :: "bool option"

definition from_raw :: "usize \<Rightarrow> nat option" where
  "from_raw raw = (if unat raw < NUM_HART_MAX then Some (unat raw) else None)"

definition hart_id :: "platform \<Rightarrow> usize \<Rightarrow> sbi_ret + nat" where
  "hart_id p raw =
     (case from_raw raw of
        None \<Rightarrow> Inl sbi_invalid_param
      | Some hart \<Rightarrow>
          if \<not> (hart < length (enabled_harts p) \<and> enabled_harts p ! hart)
             \<or> \<not> (hardware_wakeup p \<or> privilege_checked p raw)
          then Inl sbi_invalid_param else Inr hart)"

type_synonym hart_cells = "nat \<Rightarrow> HartStateCell"

definition supervisor_stage :: "usize \<Rightarrow> usize \<Rightarrow> NextStage" where
  "supervisor_stage addr opq = \<lparr>start_addr = addr, opaque = opq, next_mode = Supervisor\<rparr>"

definition hart_start :: "platform \<Rightarrow> hart_cells \<Rightarrow> usize \<Rightarrow> usize \<Rightarrow> usize \<Rightarrow> sbi_ret \<times> hart_cells" where
  "hart_start p cells hartid addr opq =
     (case hart_id p hartid of
        Inl e \<Rightarrow> (e, cells)
      | Inr hart \<Rightarrow>
          (case start (wake (wake_device p) (ipi_send p) hart) (cells hart) (supervisor_stage addr opq) of
             (r, c) \<Rightarrow>
               (case r of
                  Inr Accepted \<Rightarrow> sbi_success 0
                | Inr AlreadyRunning \<Rightarrow> sbi_already_available
                | Inl StartWakeFailed \<Rightarrow> sbi_failed,
                cells(hart := c))))"

text \<open>A successful \<open>hart_stop\<close> does not return to the caller.\<close>

definition hart_stop :: "platform \<Rightarrow> hart_cells \<Rightarrow> nat \<Rightarrow> sbi_ret option \<times> hart_cells" where
  "hart_stop p cells cur =
     (case stop_current (ipi_clear p) (cells cur) of
        (None, c) \<Rightarrow> (None, cells(cur := c))
      | (Some _, c) \<Rightarrow> (Some sbi_failed, cells(cur := c)))"

fun hsm_state :: "HartState \<Rightarrow> usize" where
  "hsm_state Started = HSM_STARTED"
| "hsm_state Stopped = HSM_STOPPED"
| "hsm_state StartPending = HSM_START_PENDING"
| "hsm_state Suspended = HSM_SUSPENDED"
| "hsm_state ResumePending = HSM_RESUME_PENDING"

definition hart_get_status :: "platform \<Rightarrow> hart_cells \<Rightarrow> usize \<Rightarrow> sbi_ret outcome" where
  "hart_get_status p cells hartid =
     (case hart_id p hartid of
        Inl e \<Rightarrow> Ret e
      | Inr hart \<Rightarrow> omap (\<lambda>st. sbi_success (hsm_state st)) (status (cells hart)))"

definition hart_suspend ::
    "platform \<Rightarrow> hart_cells \<Rightarrow> nat \<Rightarrow> u32 \<Rightarrow> usize \<Rightarrow> usize \<Rightarrow> sbi_ret \<times> hart_cells" where
  "hart_suspend p cells cur suspend_type resume_addr opq =
     (if \<not> (suspend_type = RETENTIVE \<or> suspend_type = NON_RETENTIVE) then (sbi_invalid_param, cells)
      else case suspend_current (ipi_clear p) (cells cur) of
        (Inl _, c) \<Rightarrow> (sbi_failed, cells(cur := c))
      | (Inr _, c) \<Rightarrow>
          if suspend_type = RETENTIVE
          then (case resume_current_retentive c of
                  (r, c) \<Rightarrow> (case r of Inr _ \<Rightarrow> sbi_success 0 | Inl _ \<Rightarrow> sbi_failed, cells(cur := c)))
          else (case begin_nonretentive_resume c (supervisor_stage resume_addr opq) of
                  (Inl _, c) \<Rightarrow> (sbi_failed, cells(cur := c))
                | (Inr s, c) \<Rightarrow>
                    (case ticket_commit (ipi_send p) cur c s of
                       (r, c) \<Rightarrow> (case r of Inr _ \<Rightarrow> sbi_success 0 | Inl _ \<Rightarrow> sbi_failed,
                                  cells(cur := c)))))"

section \<open>Properties of the adapter\<close>

lemma compare_exchange_simps:
  "hstate c = e \<Longrightarrow> compare_exchange c e n = (True, c\<lparr>hstate := n\<rparr>)"
  "hstate c \<noteq> e \<Longrightarrow> compare_exchange c e n = (False, c)"
  by (simp_all add: compare_exchange_def)

text \<open>
  C37: \<open>hart_start\<close> on a valid hart answers success exactly when the hart is stopped and could be
  woken. The hart then reports start-pending, its next local event is the start at the given
  address with the given opaque value in supervisor mode, and after it the hart is started; in
  every other case no state cell changes.
\<close>

theorem hart_start_handoff:
  assumes "hart_id p hartid = Inr h" and "hart_start p cells hartid addr opq = (r, cells')"
  shows "if hstate (cells h) = STATE_STOPPED \<and> wake (wake_device p) (ipi_send p) h = Inr ()
    then r = sbi_success 0 \<and> hart_get_status p cells' hartid = Ret (sbi_success HSM_START_PENDING) \<and>
      (\<exists>c. take_local_event (cells' h) = Some (Ret (EvStart (supervisor_stage addr opq), c)) \<and>
         status c = Ret Started \<and> stage c = None) \<and> (\<forall>k. k \<noteq> h \<longrightarrow> cells' k = cells k)
    else r = (if hstate (cells h) = STATE_STOPPED then sbi_failed else sbi_already_available) \<and>
      cells' = cells"
proof (cases "hstate (cells h) = STATE_STOPPED")
  case False
  with assms show ?thesis
    by (auto simp: hart_start_def start_def compare_exchange_simps)
next
  case True
  note ce = compare_exchange_simps(1) [OF True]
  show ?thesis
  proof (cases "wake (wake_device p) (ipi_send p) h")
    case (Inl e)
    then have "e = StartWakeFailed" and "(cells h)\<lparr>hstate := STATE_STOPPED\<rparr> = cells h"
      using True by (cases e, simp)+
    with assms True Inl show ?thesis
      by (auto simp: hart_start_def start_def ce)
  next
    case (Inr u)
    let ?c = "(cells h)\<lparr>hstate := STATE_START_PENDING, stage := Some (supervisor_stage addr opq)\<rparr>"
    have run: "r = sbi_success 0" "cells' = cells(h := ?c)"
      using assms Inr by (auto simp: hart_start_def start_def ce)
    have "hart_get_status p cells' hartid = Ret (sbi_success HSM_START_PENDING)"
      using assms(1) by (simp add: run hart_get_status_def status_def state_defs)
    moreover have "\<exists>c. take_local_event (cells' h) = Some (Ret (EvStart (supervisor_stage addr opq), c)) \<and>
        status c = Ret Started \<and> stage c = None"
      by (simp add: run take_local_event_def status_def state_defs)
    ultimately show ?thesis
      using True Inr by (simp add: run)
  qed
qed

definition platform_example :: platform where
  "platform_example = \<lparr>hardware_wakeup = True, enabled_harts = [True, True],
     privilege_checked = (\<lambda>_. False), wake_device = None, ipi_send = Some (\<lambda>_. True),
     ipi_clear = Some True\<rparr>"

theorem hart_start_handoff_witness:
  "fst (hart_start platform_example (\<lambda>_. cell_new) 1 0x80200000 7) = sbi_success 0"
proof -
  have id1: "hart_id platform_example 1 = Inr 1"
    by (simp add: hart_id_def from_raw_def NUM_HART_MAX_def platform_example_def)
  obtain r cs where run: "hart_start platform_example (\<lambda>_. cell_new) 1 0x80200000 7 = (r, cs)"
    by fastforce
  have "hstate cell_new = STATE_STOPPED"
    and "wake (wake_device platform_example) (ipi_send platform_example) 1 = Inr ()"
    by (simp_all add: cell_new_def wake_def platform_example_def)
  with hart_start_handoff [OF id1 run] run show ?thesis
    by simp
qed

text \<open>
  When the wake-up of a non-retentive suspend fails, \<open>hart_suspend\<close> returns to its caller with
  an error, and the hart keeps running with a state cell that reports it as suspended.
\<close>

theorem failed_resume_reports_suspended:
  assumes "ipi_clear p = Some True" and "\<forall>send. ipi_send p = Some send \<longrightarrow> \<not> send cur"
  shows "\<exists>cells'. hart_suspend p cells cur NON_RETENTIVE addr opq = (sbi_failed, cells') \<and>
    status (cells' cur) = Ret Suspended"
proof -
  let ?c = "(cells cur)\<lparr>hstate := STATE_SUSPENDED\<rparr>"
  have "hart_suspend p cells cur NON_RETENTIVE addr opq = (sbi_failed, cells(cur := ?c))"
    using assms
    by (auto simp: hart_suspend_def suspend_current_def begin_nonretentive_resume_def compare_exchange_def
        ticket_commit_def ticket_drop_def RETENTIVE_def NON_RETENTIVE_def split: option.splits)
  moreover have "status ?c = Ret Suspended"
    by (simp add: status_def state_defs)
  ultimately show ?thesis
    by simp
qed

theorem failed_resume_reports_suspended_witness:
  "\<exists>cells'. hart_suspend (platform_example\<lparr>ipi_send := Some (\<lambda>_. False)\<rparr>) (\<lambda>_. cell_new) 0 NON_RETENTIVE 0 0
     = (sbi_failed, cells') \<and> status (cells' 0) = Ret Suspended"
  by (rule failed_resume_reports_suspended) (simp_all add: platform_example_def)

end
