(* ===== verification/Hart_Interleaving.thy ===== *)
theory Hart_Interleaving
  imports Hart_Lifecycle
begin

text \<open>
  The hart lifecycle under every interleaving. A step is one atomic access to a state cell,
  one write of a staged handoff or one take of it, by one hart; the program point of the hart
  is where it is in \<open>stage_current\<close>, \<open>start\<close>, \<open>take_local_event\<close>, \<open>finish_boot_rust\<close>,
  \<open>stop_current\<close>, \<open>suspend_current\<close>, the resume functions or the return path of
  \<open>sbi_ecall\<close>. A compare-and-exchange that fails in \<open>start\<close>, and the turns of the waiting
  loops, change nothing and are not steps.

  \<open>Bug\<close> and \<open>Fault\<close> are the program points after one of the panics the source marks as bugs.
  \<open>Bug\<close>: those about the protocol, the \<open>expect\<close>s of \<open>take_local_event\<close> and of the boot
  path (\<open>stage_current\<close> refused) and the \<open>unreachable!\<close> of \<open>finish_boot_rust\<close>. \<open>Fault\<close>: those
  about the platform, the \<open>expect\<close>s of \<open>suspend_current\<close> (no handler), of
  \<open>finish_boot_rust\<close> (the wake interrupt could not be cleared) and of \<open>machine_soft\<close> (no
  device, not cleared, no handler); \<open>ipi_platform\<close> says what the platform published and
  whether its device may fail. The firmware work that \<open>deliver_current\<close> runs does not touch the
  lifecycle cells and is not a step. \<open>accepted\<close> and \<open>entered\<close> record, per hart, the handoffs that were
  published for it and those it entered; \<open>resumes\<close> and \<open>resumed\<close> the same for
  non-retentive resumes.
\<close>

section \<open>The system\<close>

text \<open>
  What \<open>crate::ipi\<close> holds once the platform services are published: an IPI device, or none;
  whether \<open>clear_current\<close> of the device may fail; and the handler of the firmware work, or
  none. \<open>ipi_faulty\<close>: a machine software interrupt cannot be acknowledged and delivered.
\<close>

record ipi_platform =
  device_present :: bool
  clear_may_fail :: bool
  handler_published :: bool

definition ipi_faulty :: "ipi_platform \<Rightarrow> bool" where
  "ipi_faulty P \<longleftrightarrow> \<not> device_present P \<or> clear_may_fail P \<or> \<not> handler_published P"

datatype hart_pc =
    Boot | Parked | Smode
  | StageWrite NextStage | StagePublish NextStage
  | StartWake nat NextStage | StartStage nat NextStage | StartPublish nat NextStage
  | TakeCas bool | TakeStage
  | Wfi | Ticket NextStage | TicketPublish NextStage | EcallReturn
  | Bug | Fault

record hart_sys =
  cells :: hart_cells
  pcs :: "nat \<Rightarrow> hart_pc"
  accepted :: "nat \<Rightarrow> NextStage list"
  entered :: "nat \<Rightarrow> NextStage list"
  resumes :: "nat \<Rightarrow> NextStage list"
  resumed :: "nat \<Rightarrow> NextStage list"

definition hart_init :: hart_sys where
  "hart_init = \<lparr>cells = (\<lambda>_. cell_new), pcs = (\<lambda>_. Boot), accepted = (\<lambda>_. []), entered = (\<lambda>_. []),
     resumes = (\<lambda>_. []), resumed = (\<lambda>_. [])\<rparr>"

definition set_pc :: "nat \<Rightarrow> hart_pc \<Rightarrow> hart_sys \<Rightarrow> hart_sys" where
  "set_pc h pc s = s\<lparr>pcs := (pcs s)(h := pc)\<rparr>"

definition set_state :: "nat \<Rightarrow> u8 \<Rightarrow> hart_sys \<Rightarrow> hart_sys" where
  "set_state h v s = s\<lparr>cells := (cells s)(h := cells s h\<lparr>hstate := v\<rparr>)\<rparr>"

definition set_stage :: "nat \<Rightarrow> NextStage option \<Rightarrow> hart_sys \<Rightarrow> hart_sys" where
  "set_stage h v s = s\<lparr>cells := (cells s)(h := cells s h\<lparr>stage := v\<rparr>)\<rparr>"

definition set_transfer :: "nat \<Rightarrow> NextStage option \<Rightarrow> hart_sys \<Rightarrow> hart_sys" where
  "set_transfer h v s = s\<lparr>cells := (cells s)(h := cells s h\<lparr>transfer := v\<rparr>)\<rparr>"

abbreviation state_of :: "hart_sys \<Rightarrow> nat \<Rightarrow> u8" where
  "state_of s h \<equiv> hstate (cells s h)"

text \<open>
  \<open>b\<close> is the boot hart. Without an IPI device \<open>stop_current\<close>, \<open>suspend_current\<close> and
  \<open>commit\<close> return an error and change nothing; \<open>start\<close> can still wake its target through the
  hardware wakeup device.
\<close>

inductive hart_step :: "ipi_platform \<Rightarrow> nat \<Rightarrow> hart_sys \<Rightarrow> hart_sys \<Rightarrow> bool" for P b where
  boot_reserve:
    "pcs s b = Boot \<Longrightarrow> state_of s b = STATE_STOPPED \<Longrightarrow>
     hart_step P b s (set_pc b (StageWrite x) (set_state b STATE_STARTING s))"
| boot_busy:
    "pcs s b = Boot \<Longrightarrow> state_of s b \<noteq> STATE_STOPPED \<Longrightarrow> hart_step P b s (set_pc b Bug s)"
| boot_write:
    "pcs s h = StageWrite x \<Longrightarrow>
     hart_step P b s (set_pc h (StagePublish x) (set_stage h (Some x) s))"
| boot_publish:
    "pcs s h = StagePublish x \<Longrightarrow>
     hart_step P b s (set_pc h Parked (set_state h STATE_START_PENDING
       (s\<lparr>accepted := (accepted s)(h := accepted s h @ [x])\<rparr>)))"
| secondary_boot:
    "pcs s h = Boot \<Longrightarrow> h \<noteq> b \<Longrightarrow> hart_step P b s (set_pc h Parked s)"
| start_reserve:
    "pcs s t = Smode \<Longrightarrow> state_of s h = STATE_STOPPED \<Longrightarrow>
     hart_step P b s (set_pc t (StartWake h x) (set_state h STATE_STARTING s))"
| start_wake_failed:
    "pcs s t = StartWake h x \<Longrightarrow>
     hart_step P b s (set_pc t Smode (set_state h STATE_STOPPED s))"
| start_woken:
    "pcs s t = StartWake h x \<Longrightarrow> hart_step P b s (set_pc t (StartStage h x) s)"
| start_write:
    "pcs s t = StartStage h x \<Longrightarrow>
     hart_step P b s (set_pc t (StartPublish h x) (set_stage h (Some x) s))"
| start_publish:
    "pcs s t = StartPublish h x \<Longrightarrow>
     hart_step P b s (set_pc t Smode (set_state h STATE_START_PENDING
       (s\<lparr>accepted := (accepted s)(h := accepted s h @ [x])\<rparr>)))"
| take_pending:
    "pcs s h = (if parked then Parked else Smode) \<Longrightarrow> state_of s h = STATE_START_PENDING \<Longrightarrow>
     hart_step P b s (set_pc h (TakeCas parked) s)"
| take_cas:
    "pcs s h = TakeCas parked \<Longrightarrow> state_of s h = STATE_START_PENDING \<Longrightarrow>
     hart_step P b s (set_pc h TakeStage (set_state h STATE_STARTED s))"
| take_cas_failed:
    "pcs s h = TakeCas parked \<Longrightarrow> state_of s h \<noteq> STATE_START_PENDING \<Longrightarrow>
     hart_step P b s (set_pc h (if parked then Parked else Smode) s)"
| take_stage:
    "pcs s h = TakeStage \<Longrightarrow> stage (cells s h) = Some x \<Longrightarrow>
     hart_step P b s (set_pc h Smode (set_stage h None
       (s\<lparr>entered := (entered s)(h := entered s h @ [x])\<rparr>)))"
| take_nothing:
    "pcs s h = TakeStage \<Longrightarrow> stage (cells s h) = None \<Longrightarrow> hart_step P b s (set_pc h Bug s)"
| parked_none:
    "pcs s h = Parked \<Longrightarrow>
     state_of s h \<notin> {STATE_START_PENDING, STATE_STARTING, STATE_STOPPED} \<Longrightarrow>
     hart_step P b s (set_pc h Bug s)"
| parked_clear_failed:
    "pcs s h = Parked \<Longrightarrow> device_present P \<Longrightarrow> clear_may_fail P \<Longrightarrow>
     hart_step P b s (set_pc h Fault s)"
| soft_failed:
    "pcs s h = Smode \<Longrightarrow> \<not> device_present P \<or> clear_may_fail P \<or> \<not> handler_published P \<Longrightarrow>
     hart_step P b s (set_pc h Fault s)"
| stop:
    "pcs s h = Smode \<Longrightarrow> device_present P \<Longrightarrow>
     hart_step P b s (set_pc h Parked (set_state h STATE_STOPPED s))"
| suspend:
    "pcs s h = Smode \<Longrightarrow> device_present P \<Longrightarrow> handler_published P \<Longrightarrow>
     hart_step P b s (set_pc h Wfi (set_state h STATE_SUSPENDED s))"
| suspend_no_handler:
    "pcs s h = Smode \<Longrightarrow> device_present P \<Longrightarrow> \<not> handler_published P \<Longrightarrow>
     hart_step P b s (set_pc h Fault s)"
| resume_retentive:
    "pcs s h = Wfi \<Longrightarrow> state_of s h = STATE_SUSPENDED \<Longrightarrow>
     hart_step P b s (set_pc h Smode (set_state h STATE_STARTED s))"
| resume_begin:
    "pcs s h = Wfi \<Longrightarrow> state_of s h = STATE_SUSPENDED \<Longrightarrow>
     hart_step P b s (set_pc h (Ticket x) (set_state h STATE_RESUME_PENDING s))"
| resume_invalid:
    "pcs s h = Wfi \<Longrightarrow> state_of s h \<noteq> STATE_SUSPENDED \<Longrightarrow> hart_step P b s (set_pc h Smode s)"
| commit_failed:
    "pcs s h = Ticket x \<Longrightarrow> hart_step P b s (set_pc h Smode (set_state h STATE_SUSPENDED s))"
| commit_write:
    "pcs s h = Ticket x \<Longrightarrow> device_present P \<Longrightarrow>
     hart_step P b s (set_pc h (TicketPublish x) (set_transfer h (Some x) s))"
| commit_publish:
    "pcs s h = TicketPublish x \<Longrightarrow>
     hart_step P b s (set_pc h EcallReturn (set_state h STATE_STARTED
       (s\<lparr>resumes := (resumes s)(h := resumes s h @ [x])\<rparr>)))"
| ecall_transfer:
    "pcs s h = EcallReturn \<Longrightarrow> transfer (cells s h) = Some x \<Longrightarrow>
     hart_step P b s (set_pc h Smode (set_transfer h None
       (s\<lparr>resumed := (resumed s)(h := resumed s h @ [x])\<rparr>)))"
| ecall_plain:
    "pcs s h = EcallReturn \<Longrightarrow> transfer (cells s h) = None \<Longrightarrow> hart_step P b s (set_pc h Smode s)"

inductive hart_reachable :: "ipi_platform \<Rightarrow> nat \<Rightarrow> hart_sys \<Rightarrow> bool" for P b where
  init: "hart_reachable P b hart_init"
| step: "hart_reachable P b s \<Longrightarrow> hart_step P b s s' \<Longrightarrow> hart_reachable P b s'"

section \<open>The invariant\<close>

text \<open>The hart whose cell a program point has reserved with \<open>STATE_STARTING\<close>.\<close>

fun reserves :: "nat \<Rightarrow> hart_pc \<Rightarrow> nat option" where
  "reserves t (StageWrite x) = Some t"
| "reserves t (StagePublish x) = Some t"
| "reserves t (StartWake h x) = Some h"
| "reserves t (StartStage h x) = Some h"
| "reserves t (StartPublish h x) = Some h"
| "reserves t _ = None"

text \<open>What the program point of a hart says about its own cell.\<close>

fun own_cell_ok :: "hart_pc \<Rightarrow> HartStateCell \<Rightarrow> bool" where
  "own_cell_ok Boot c \<longleftrightarrow> hstate c \<in> {STATE_STOPPED, STATE_STARTING, STATE_START_PENDING}"
| "own_cell_ok Parked c \<longleftrightarrow> hstate c \<in> {STATE_STOPPED, STATE_STARTING, STATE_START_PENDING}"
| "own_cell_ok (StageWrite x) c \<longleftrightarrow> hstate c = STATE_STARTING"
| "own_cell_ok (StagePublish x) c \<longleftrightarrow> hstate c = STATE_STARTING"
| "own_cell_ok (TakeCas p) c \<longleftrightarrow> p \<and> hstate c = STATE_START_PENDING"
| "own_cell_ok TakeStage c \<longleftrightarrow> hstate c = STATE_STARTED"
| "own_cell_ok Wfi c \<longleftrightarrow> hstate c = STATE_SUSPENDED"
| "own_cell_ok (Ticket x) c \<longleftrightarrow> hstate c = STATE_RESUME_PENDING"
| "own_cell_ok (TicketPublish x) c \<longleftrightarrow> hstate c = STATE_RESUME_PENDING"
| "own_cell_ok EcallReturn c \<longleftrightarrow> hstate c = STATE_STARTED"
| "own_cell_ok Bug c \<longleftrightarrow> False"
| "own_cell_ok Fault c \<longleftrightarrow> hstate c \<in> {STATE_STOPPED, STATE_STARTING, STATE_START_PENDING,
     STATE_STARTED, STATE_SUSPENDED}"
| "own_cell_ok pc c \<longleftrightarrow> hstate c \<in> {STATE_STARTED, STATE_SUSPENDED}"

fun written_at :: "nat \<Rightarrow> hart_pc \<Rightarrow> (nat \<Rightarrow> NextStage option) \<Rightarrow> bool" where
  "written_at t (StagePublish x) st \<longleftrightarrow> st t = Some x"
| "written_at t (StartPublish h x) st \<longleftrightarrow> st h = Some x"
| "written_at t _ st \<longleftrightarrow> True"

definition stage_written :: "hart_sys \<Rightarrow> nat \<Rightarrow> bool" where
  "stage_written s t \<longleftrightarrow> written_at t (pcs s t) (\<lambda>h. stage (cells s h))"

definition handoffs_ok :: "hart_sys \<Rightarrow> nat \<Rightarrow> bool" where
  "handoffs_ok s h \<longleftrightarrow>
     (if state_of s h = STATE_START_PENDING \<or> pcs s h = TakeStage
      then \<exists>x. stage (cells s h) = Some x \<and> accepted s h = entered s h @ [x]
      else accepted s h = entered s h)"

fun transfer_at :: "hart_pc \<Rightarrow> NextStage option \<Rightarrow> NextStage list \<Rightarrow> NextStage list \<Rightarrow> bool" where
  "transfer_at (TicketPublish x) tr rs rd \<longleftrightarrow> tr = Some x \<and> rs = rd"
| "transfer_at EcallReturn tr rs rd \<longleftrightarrow> (\<exists>x. tr = Some x \<and> rs = rd @ [x])"
| "transfer_at _ tr rs rd \<longleftrightarrow> tr = None \<and> rs = rd"

definition transfers_ok :: "hart_sys \<Rightarrow> nat \<Rightarrow> bool" where
  "transfers_ok s h \<longleftrightarrow> transfer_at (pcs s h) (transfer (cells s h)) (resumes s h) (resumed s h)"

definition before_boot :: "nat \<Rightarrow> hart_sys \<Rightarrow> bool" where
  "before_boot b s \<longleftrightarrow> (pcs s b = Boot \<longrightarrow>
     (\<forall>h. state_of s h = STATE_STOPPED \<and> pcs s h \<in> {Boot, Parked, Fault}))"

definition hart_inv :: "ipi_platform \<Rightarrow> nat \<Rightarrow> hart_sys \<Rightarrow> bool" where
  "hart_inv P b s \<longleftrightarrow>
     (\<forall>h. own_cell_ok (pcs s h) (cells s h)) \<and>
     (\<forall>h. state_of s h = STATE_STARTING \<longleftrightarrow> (\<exists>t. reserves t (pcs s t) = Some h)) \<and>
     (\<forall>t u h. reserves t (pcs s t) = Some h \<longrightarrow> reserves u (pcs s u) = Some h \<longrightarrow> t = u) \<and>
     (\<forall>t. stage_written s t) \<and> (\<forall>h. handoffs_ok s h) \<and> (\<forall>h. transfers_ok s h) \<and> before_boot b s \<and>
     (\<forall>h. pcs s h = Fault \<longrightarrow> ipi_faulty P)"

lemmas sys_defs = set_pc_def set_state_def set_stage_def set_transfer_def

lemma hart_inv_init: "hart_inv P b hart_init"
  by (simp add: hart_inv_def hart_init_def cell_new_def state_defs stage_written_def handoffs_ok_def
      transfers_ok_def before_boot_def)

lemma hart_invD:
  assumes "hart_inv P b s"
  shows "own_cell_ok (pcs s h) (cells s h)"
    and "state_of s h = STATE_STARTING \<longleftrightarrow> (\<exists>t. reserves t (pcs s t) = Some h)"
    and "reserves t (pcs s t) = Some h \<Longrightarrow> reserves u (pcs s u) = Some h \<Longrightarrow> t = u"
    and "stage_written s t" and "handoffs_ok s h" and "transfers_ok s h" and "before_boot b s"
    and "pcs s h = Fault \<Longrightarrow> ipi_faulty P"
  using assms unfolding hart_inv_def by blast+

text \<open>A reserved or stopped hart is parked, has not left the boot path, or has panicked.\<close>

lemma stopped_parked:
  "hart_inv P b s \<Longrightarrow> state_of s h = STATE_STOPPED \<Longrightarrow> pcs s h \<in> {Boot, Parked, Fault}"
  using hart_invD(1) [of P b s h] by (cases "pcs s h") (auto simp: state_defs)

lemma active_state:
  assumes "hart_inv P b s" and "pcs s h \<in> {Smode, Wfi, Ticket x, TicketPublish x}"
  shows "state_of s h \<noteq> STATE_STARTING" and "state_of s h \<noteq> STATE_START_PENDING"
  using hart_invD(1) [OF assms(1), of h] assms(2) by (auto simp: state_defs)

lemma starting_parked:
  assumes "hart_inv P b s" and "reserves t (pcs s t) = Some h" and "h \<noteq> t"
  shows "state_of s h = STATE_STARTING" and "pcs s h \<in> {Boot, Parked, Fault}"
proof -
  show st: "state_of s h = STATE_STARTING"
    using hart_invD(2) [OF assms(1), of h] assms(2) by blast
  have "reserves h (pcs s h) \<noteq> Some h"
    using hart_invD(3) [OF assms(1,2), of h] assms(3) by blast
  then show "pcs s h \<in> {Boot, Parked, Fault}"
    using hart_invD(1) [OF assms(1), of h] st by (cases "pcs s h") (auto simp: state_defs)
qed

lemma start_target:
  assumes "hart_inv P b s" and "pcs s t \<in> {StartWake h x, StartStage h x, StartPublish h x}"
  shows "h \<noteq> t" and "state_of s h = STATE_STARTING" and "pcs s h \<in> {Boot, Parked, Fault}"
    and "state_of s t \<in> {STATE_STARTED, STATE_SUSPENDED}"
proof -
  show t: "state_of s t \<in> {STATE_STARTED, STATE_SUSPENDED}"
    using hart_invD(1) [OF assms(1), of t] assms(2) by auto
  have res: "reserves t (pcs s t) = Some h"
    using assms(2) by auto
  then have "state_of s h = STATE_STARTING"
    using hart_invD(2) [OF assms(1), of h] by blast
  with t show "h \<noteq> t"
    by (auto simp: state_defs)
  from starting_parked [OF assms(1) res this] show "state_of s h = STATE_STARTING"
    "pcs s h \<in> {Boot, Parked, Fault}"
    by auto
qed

lemma inv_own_step:
  assumes "hart_step P b s s'" and "hart_inv P b s"
  shows "own_cell_ok (pcs s' k) (cells s' k)"
  using assms
proof (induction rule: hart_step.induct)
  case (boot_busy s)
  then show ?case
    using hart_invD(7) [OF boot_busy.prems] by (simp add: before_boot_def)
next
  case (start_reserve s t h x)
  then show ?case
    using hart_invD(1) [OF start_reserve.prems, of k] hart_invD(1) [OF start_reserve.prems, of t]
      stopped_parked [OF start_reserve.prems start_reserve.hyps(2)]
    by (auto simp: sys_defs state_defs)
next
  case (start_wake_failed s t h x)
  then show ?case
    using hart_invD(1) [OF start_wake_failed.prems, of k] start_target [OF start_wake_failed.prems, of t h x]
    by (auto simp: sys_defs)
next
  case (start_publish s t h x)
  then show ?case
    using hart_invD(1) [OF start_publish.prems, of k] start_target [OF start_publish.prems, of t h x]
    by (auto simp: sys_defs)
next
  case (start_write s t h x)
  then show ?case
    using hart_invD(1) [OF start_write.prems, of k] start_target [OF start_write.prems, of t h x]
    by (auto simp: sys_defs)
next
  case (take_pending s h parked)
  then show ?case
    using hart_invD(1) [OF take_pending.prems, of k] hart_invD(1) [OF take_pending.prems, of h]
    by (auto simp: sys_defs state_defs split: if_splits)
next
  case (take_cas_failed s h parked)
  then show ?case
    using hart_invD(1) [OF take_cas_failed.prems, of k] hart_invD(1) [OF take_cas_failed.prems, of h]
    by (auto simp: sys_defs)
next
  case (take_nothing s h)
  then show ?case
    using hart_invD(5) [OF take_nothing.prems, of h] by (simp add: handoffs_ok_def)
next
  case (parked_none s h)
  then show ?case
    using hart_invD(1) [OF parked_none.prems, of h] by auto
next
  case (resume_invalid s h)
  then show ?case
    using hart_invD(1) [OF resume_invalid.prems, of h] by auto
qed (auto simp: sys_defs split: if_splits dest!: hart_invD(1) [where h = k])

definition reserved_ok :: "(nat \<Rightarrow> u8) \<Rightarrow> (nat \<Rightarrow> hart_pc) \<Rightarrow> bool" where
  "reserved_ok st pc \<longleftrightarrow>
     (\<forall>h. st h = STATE_STARTING \<longleftrightarrow> (\<exists>t. reserves t (pc t) = Some h)) \<and>
     (\<forall>t u h. reserves t (pc t) = Some h \<longrightarrow> reserves u (pc u) = Some h \<longrightarrow> t = u)"

lemma reserved_ok_keep:
  assumes "reserved_ok st pc" and "reserves t v = reserves t (pc t)"
    and "\<And>h. st' h = STATE_STARTING \<longleftrightarrow> st h = STATE_STARTING"
  shows "reserved_ok st' (pc(t := v))"
proof -
  have "reserves u ((pc(t := v)) u) = reserves u (pc u)" for u
    using assms(2) by simp
  with assms(1,3) show ?thesis
    unfolding reserved_ok_def by simp
qed

lemma reserved_ok_reserve:
  assumes "reserved_ok st pc" and "reserves t (pc t) = None" and "st h \<noteq> STATE_STARTING"
    and "reserves t v = Some h"
  shows "reserved_ok (st(h := STATE_STARTING)) (pc(t := v))"
proof -
  have free: "reserves u (pc u) \<noteq> Some h" for u
    using assms(1,3) by (auto simp: reserved_ok_def)
  have upd: "reserves u ((pc(t := v)) u) = (if u = t then Some h else reserves u (pc u))" for u
    using assms(4) by simp
  show ?thesis
    unfolding reserved_ok_def upd
  proof (intro conjI allI impI)
    fix k
    show "(st(h := STATE_STARTING)) k = STATE_STARTING \<longleftrightarrow>
        (\<exists>u. (if u = t then Some h else reserves u (pc u)) = Some k)"
      using assms(1,2) free unfolding reserved_ok_def by (metis fun_upd_apply option.distinct(1) option.inject)
  next
    fix u w k
    assume "(if u = t then Some h else reserves u (pc u)) = Some k"
      "(if w = t then Some h else reserves w (pc w)) = Some k"
    then show "u = w"
      using assms(1) free unfolding reserved_ok_def by (metis option.inject)
  qed
qed

lemma reserved_ok_release:
  assumes "reserved_ok st pc" and "reserves t (pc t) = Some h" and "reserves t v = None"
    and "w \<noteq> STATE_STARTING"
  shows "reserved_ok (st(h := w)) (pc(t := v))"
proof -
  have only: "reserves u (pc u) = Some h \<Longrightarrow> u = t" for u
    using assms(1,2) unfolding reserved_ok_def by blast
  have upd: "reserves u ((pc(t := v)) u) = (if u = t then None else reserves u (pc u))" for u
    using assms(3) by simp
  show ?thesis
    unfolding reserved_ok_def upd
  proof (intro conjI allI impI)
    fix k
    show "(st(h := w)) k = STATE_STARTING \<longleftrightarrow> (\<exists>u. (if u = t then None else reserves u (pc u)) = Some k)"
      using assms(1,2,4) only unfolding reserved_ok_def by (metis fun_upd_apply option.distinct(1) option.inject)
  next
    fix u x k
    assume "(if u = t then None else reserves u (pc u)) = Some k"
      "(if x = t then None else reserves x (pc x)) = Some k"
    then show "u = x"
      using assms(1) unfolding reserved_ok_def by (metis option.distinct(1))
  qed
qed

lemma reserved_ok_local:
  assumes "reserved_ok st pc" and "reserves t (pc t) = None" and "reserves t v = None"
    and "st t \<noteq> STATE_STARTING" and "w \<noteq> STATE_STARTING"
  shows "reserved_ok (st(t := w)) (pc(t := v))"
  using assms(2-5) by (intro reserved_ok_keep [OF assms(1)]) auto

lemma hart_inv_reserved: "hart_inv P b s \<Longrightarrow> reserved_ok (state_of s) (pcs s)"
  unfolding hart_inv_def reserved_ok_def by blast

lemma sys_sel [simp]:
  "pcs (set_pc h pc s) = (pcs s)(h := pc)" "cells (set_pc h pc s) = cells s"
  "pcs (set_state h v s) = pcs s" "pcs (set_stage h x s) = pcs s" "pcs (set_transfer h x s) = pcs s"
  "state_of (set_stage h x s) k = state_of s k" "state_of (set_transfer h x s) k = state_of s k"
  "state_of (set_state h v s) k = (if k = h then v else state_of s k)"
  "stage (cells (set_state h v s) k) = stage (cells s k)"
  "stage (cells (set_transfer h x s) k) = stage (cells s k)"
  by (auto simp: sys_defs)

lemma inv_reserved_step:
  assumes "hart_step P b s s'" and "hart_inv P b s"
  shows "reserved_ok (state_of s') (pcs s')"
  using assms
proof (induction rule: hart_step.induct)
  case (boot_reserve s x)
  then show ?case
    using reserved_ok_reserve [OF hart_inv_reserved [OF boot_reserve.prems], of b b "StageWrite x"]
    by (simp add: fun_upd_def state_defs cong: if_cong)
next
  case (start_reserve s t h x)
  then show ?case
    using reserved_ok_reserve [OF hart_inv_reserved [OF start_reserve.prems], of t h "StartWake h x"]
    by (simp add: fun_upd_def state_defs cong: if_cong)
next
  case (boot_publish s h x)
  then show ?case
    using reserved_ok_release [OF hart_inv_reserved [OF boot_publish.prems], of h h Parked STATE_START_PENDING]
    by (simp add: fun_upd_def state_defs cong: if_cong)
next
  case (start_wake_failed s t h x)
  then show ?case
    using reserved_ok_release [OF hart_inv_reserved [OF start_wake_failed.prems], of t h Smode STATE_STOPPED]
    by (simp add: fun_upd_def state_defs cong: if_cong)
next
  case (start_publish s t h x)
  then show ?case
    using reserved_ok_release [OF hart_inv_reserved [OF start_publish.prems], of t h Smode STATE_START_PENDING]
    by (simp add: fun_upd_def state_defs cong: if_cong)
next
  case (stop s h)
  then show ?case
    using active_state(1) [OF stop.prems, of h]
      reserved_ok_local [OF hart_inv_reserved [OF stop.prems], of h Parked STATE_STOPPED]
    by (auto simp: fun_upd_def state_defs cong: if_cong)
next
  case (suspend s h)
  then show ?case
    using active_state(1) [OF suspend.prems, of h]
      reserved_ok_local [OF hart_inv_reserved [OF suspend.prems], of h Wfi STATE_SUSPENDED]
    by (auto simp: fun_upd_def state_defs cong: if_cong)
next
  case (commit_failed s h x)
  then show ?case
    using active_state(1) [OF commit_failed.prems, of h]
      reserved_ok_local [OF hart_inv_reserved [OF commit_failed.prems], of h Smode STATE_SUSPENDED]
    by (auto simp: fun_upd_def state_defs cong: if_cong)
next
  case (commit_publish s h x)
  then show ?case
    using active_state(1) [OF commit_publish.prems, of h]
      reserved_ok_local [OF hart_inv_reserved [OF commit_publish.prems], of h EcallReturn STATE_STARTED]
    by (auto simp: fun_upd_def state_defs cong: if_cong)
qed (auto intro!: reserved_ok_keep [OF hart_inv_reserved] simp: state_defs split: if_splits)

lemma inv_stage_written_step:
  assumes "hart_step P b s s'" and "hart_inv P b s"
  shows "stage_written s' k"
  using assms
proof (induction rule: hart_step.induct)
  case (boot_write s h x)
  have "pcs s k \<noteq> StartPublish h y" for y
    using hart_invD(3) [OF boot_write.prems, of h h k] boot_write.hyps by auto
  with hart_invD(4) [OF boot_write.prems, of k] show ?case
    by (cases "pcs s k") (auto simp: stage_written_def sys_defs)
next
  case (start_write s t h x)
  note tgt = start_target [OF start_write.prems, of t h x]
  have "pcs s k \<noteq> StartPublish h y" for y
    using hart_invD(3) [OF start_write.prems, of t h k] start_write.hyps by auto
  with hart_invD(4) [OF start_write.prems, of k] tgt start_write.hyps show ?case
    by (cases "pcs s k") (auto simp: stage_written_def sys_defs)
next
  case (take_stage s h x)
  have "pcs s k \<noteq> StartPublish h y" for y
    using start_target(3) [OF take_stage.prems, of k h y] take_stage.hyps by auto
  with hart_invD(4) [OF take_stage.prems, of k] show ?case
    by (cases "pcs s k") (auto simp: stage_written_def sys_defs)
qed (auto simp: stage_written_def split: if_splits dest!: hart_invD(4) [where t = k])

lemma inv_transfers_step:
  assumes "hart_step P b s s'" and "hart_inv P b s"
  shows "transfers_ok s' k"
  using assms
proof (induction rule: hart_step.induct)
qed (auto simp: transfers_ok_def sys_defs split: if_splits dest!: hart_invD(6) [where h = k])

lemma inv_before_boot_step:
  assumes "hart_step P b s s'" and "hart_inv P b s"
  shows "before_boot b s'"
proof (cases "pcs s b = Boot")
  case True
  then have "\<forall>h. state_of s h = STATE_STOPPED \<and> pcs s h \<in> {Boot, Parked, Fault}"
    using hart_invD(7) [OF assms(2)] by (simp add: before_boot_def)
  with assms(1) show ?thesis
    by (cases rule: hart_step.cases)
      (auto simp: before_boot_def sys_defs state_defs split: if_splits; metis hart_pc.distinct)+
next
  case False
  with assms(1) have "pcs s' b \<noteq> Boot"
    by (cases rule: hart_step.cases) (auto simp: sys_defs split: if_splits)
  then show ?thesis
    by (simp add: before_boot_def)
qed

lemma inv_handoffs_step:
  assumes "hart_step P b s s'" and "hart_inv P b s"
  shows "handoffs_ok s' k"
  using assms
proof (induction rule: hart_step.induct)
  case (boot_reserve s x)
  then show ?case
    using hart_invD(5) [OF boot_reserve.prems, of k] by (auto simp: handoffs_ok_def sys_defs state_defs)
next
  case (boot_write s h x)
  then show ?case
    using hart_invD(5) [OF boot_write.prems, of k] hart_invD(1) [OF boot_write.prems, of h]
    by (auto simp: handoffs_ok_def sys_defs state_defs)
next
  case (boot_publish s h x)
  then show ?case
    using hart_invD(5) [OF boot_publish.prems, of k] hart_invD(1) [OF boot_publish.prems, of h]
      hart_invD(4) [OF boot_publish.prems, of h]
    by (auto simp: handoffs_ok_def stage_written_def sys_defs state_defs)
next
  case (start_reserve s t h x)
  then show ?case
    using hart_invD(5) [OF start_reserve.prems, of k] stopped_parked [OF start_reserve.prems, of h]
    by (auto simp: handoffs_ok_def sys_defs state_defs)
next
  case (start_wake_failed s t h x)
  then show ?case
    using hart_invD(5) [OF start_wake_failed.prems, of k] start_target [OF start_wake_failed.prems, of t h x]
    by (auto simp: handoffs_ok_def sys_defs state_defs)
next
  case (start_write s t h x)
  then show ?case
    using hart_invD(5) [OF start_write.prems, of k] start_target [OF start_write.prems, of t h x]
    by (auto simp: handoffs_ok_def sys_defs state_defs)
next
  case (start_publish s t h x)
  then show ?case
    using hart_invD(5) [OF start_publish.prems, of k] start_target [OF start_publish.prems, of t h x]
      hart_invD(4) [OF start_publish.prems, of t]
    by (auto simp: handoffs_ok_def stage_written_def sys_defs state_defs)
next
  case (take_stage s h x)
  then show ?case
    using hart_invD(5) [OF take_stage.prems, of k] hart_invD(1) [OF take_stage.prems, of h]
    by (auto simp: handoffs_ok_def sys_defs state_defs)
next
  case (stop s h)
  then show ?case
    using active_state(2) [OF stop.prems, of h] hart_invD(5) [OF stop.prems, of k]
    by (auto simp: handoffs_ok_def sys_defs state_defs split: if_splits)
next
  case (suspend s h)
  then show ?case
    using active_state(2) [OF suspend.prems, of h] hart_invD(5) [OF suspend.prems, of k]
    by (auto simp: handoffs_ok_def sys_defs state_defs split: if_splits)
next
  case (commit_failed s h x)
  then show ?case
    using active_state(2) [OF commit_failed.prems, of h] hart_invD(5) [OF commit_failed.prems, of k]
    by (auto simp: handoffs_ok_def sys_defs state_defs split: if_splits)
next
  case (commit_publish s h x)
  then show ?case
    using active_state(2) [OF commit_publish.prems, of h] hart_invD(5) [OF commit_publish.prems, of k]
    by (auto simp: handoffs_ok_def sys_defs state_defs split: if_splits)
qed (auto simp: handoffs_ok_def sys_defs state_defs split: if_splits
  dest!: hart_invD(5) [where h = k])

lemma inv_fault_step:
  assumes "hart_step P b s s'" and "hart_inv P b s" and "pcs s' k = Fault"
  shows "ipi_faulty P"
  using assms by (induction rule: hart_step.induct) (auto simp: ipi_faulty_def split: if_splits dest: hart_invD(8) [where h = k])

lemma hart_inv_step:
  assumes "hart_step P b s s'" and "hart_inv P b s"
  shows "hart_inv P b s'"
  using inv_own_step [OF assms] inv_reserved_step [OF assms, unfolded reserved_ok_def]
    inv_stage_written_step [OF assms] inv_handoffs_step [OF assms] inv_transfers_step [OF assms]
    inv_before_boot_step [OF assms] inv_fault_step [OF assms]
  unfolding hart_inv_def by blast

lemma hart_reachable_inv: "hart_reachable P b s \<Longrightarrow> hart_inv P b s"
  by (induction rule: hart_reachable.induct) (auto intro: hart_inv_init hart_inv_step)

section \<open>Properties\<close>

lemma own_cell_status: "own_cell_ok pc c \<Longrightarrow> \<exists>st. status c = Ret st"
  by (cases pc) (auto simp: status_def)

text \<open>
  C2: in every reachable state, whatever the interleaving of harts within the Runtime's capacity,
  no hart has run into one of the panics the lifecycle code marks as protocol bugs (a start
  without a staged handoff, a parked hart neither stopped nor pending, a boot hart that cannot
  stage its handoff), and none into those about the platform (IPI not cleared, handler not
  published, software interrupt without a device) unless the platform published no IPI device or
  handler or its device can fail to clear an interrupt. The state of every hart has a defined status, and
  the handoffs a hart has entered are exactly those published for it, in order and each once,
  except for at most one that is still staged in its cell; the same for non-retentive resumes.
\<close>

theorem hart_lifecycle_safe:
  assumes "hart_reachable P b s"
  shows "pcs s h \<noteq> Bug \<and> (pcs s h = Fault \<longrightarrow> \<not> device_present P \<or> clear_may_fail P \<or> \<not> handler_published P) \<and>
    (\<exists>st. status (cells s h) = Ret st) \<and>
    (accepted s h = entered s h \<or>
      (\<exists>x. stage (cells s h) = Some x \<and> accepted s h = entered s h @ [x])) \<and>
    (resumes s h = resumed s h \<or>
      (\<exists>x. transfer (cells s h) = Some x \<and> resumes s h = resumed s h @ [x]))"
proof -
  note inv = hart_reachable_inv [OF assms]
  have "pcs s h \<noteq> Bug"
    using hart_invD(1) [OF inv, of h] by auto
  moreover have "pcs s h = Fault \<longrightarrow> \<not> device_present P \<or> clear_may_fail P \<or> \<not> handler_published P"
    using hart_invD(8) [OF inv, of h] by (simp add: ipi_faulty_def)
  moreover have "\<exists>st. status (cells s h) = Ret st"
    using hart_invD(1) [OF inv] by (rule own_cell_status)
  moreover have "accepted s h = entered s h \<or>
      (\<exists>x. stage (cells s h) = Some x \<and> accepted s h = entered s h @ [x])"
    using hart_invD(5) [OF inv, of h] by (auto simp: handoffs_ok_def split: if_splits)
  moreover have "resumes s h = resumed s h \<or>
      (\<exists>x. transfer (cells s h) = Some x \<and> resumes s h = resumed s h @ [x])"
    using hart_invD(6) [OF inv, of h] by (cases "pcs s h") (auto simp: transfers_ok_def)
  ultimately show ?thesis
    by blast
qed

text \<open>
  C25: at any time at most one hart prepares a handoff for a given hart, and while it does, the
  target is outside supervisor mode (in the boot path or parked; on a platform whose IPI services
  are incomplete or fail, it may have panicked there) and its cell says so to everyone else.
\<close>

theorem start_reservation_exclusive:
  assumes "hart_reachable P b s" and "reserves t (pcs s t) = Some h"
  shows "state_of s h = STATE_STARTING \<and> (\<forall>u. reserves u (pcs s u) = Some h \<longrightarrow> u = t) \<and>
    (h \<noteq> t \<longrightarrow> pcs s h = Boot \<or> pcs s h = Parked \<or> (pcs s h = Fault \<and> ipi_faulty P))"
proof -
  note inv = hart_reachable_inv [OF assms(1)]
  have "state_of s h = STATE_STARTING"
    using hart_invD(2) [OF inv, of h] assms(2) by blast
  then show ?thesis
    using hart_invD(3) [OF inv assms(2)] starting_parked(2) [OF inv assms(2)] hart_invD(8) [OF inv, of h]
    by blast
qed

text \<open>The steps hart \<open>h\<close> takes: every step changes the program point of the hart that takes it.\<close>

definition own_step :: "ipi_platform \<Rightarrow> nat \<Rightarrow> nat \<Rightarrow> hart_sys \<Rightarrow> hart_sys \<Rightarrow> bool" where
  "own_step P b h s s' \<longleftrightarrow> hart_step P b s s' \<and> pcs s' h \<noteq> pcs s h \<and> (\<forall>t. t \<noteq> h \<longrightarrow> pcs s' t = pcs s t)"

lemma own_stepI:
  assumes "hart_step P b s s'" and "pcs s' h \<noteq> pcs s h" and "\<And>t. t \<noteq> h \<Longrightarrow> pcs s' t = pcs s t"
  shows "own_step P b h s s'"
  using assms by (simp add: own_step_def)

lemma enter_from_cas:
  assumes "pcs s h = TakeCas p" and "state_of s h = STATE_START_PENDING" and "stage (cells s h) = Some x"
  shows "\<exists>s'. (own_step P b h)\<^sup>*\<^sup>* s s' \<and> pcs s' h = Smode \<and> entered s' h = entered s h @ [x] \<and>
    accepted s' h = accepted s h"
proof -
  let ?s1 = "set_pc h TakeStage (set_state h STATE_STARTED s)"
  let ?s2 = "set_pc h Smode (set_stage h None (?s1\<lparr>entered := (entered ?s1)(h := entered ?s1 h @ [x])\<rparr>))"
  have "own_step P b h s ?s1"
    by (rule own_stepI [OF hart_step.take_cas [OF assms(1,2)]]) (simp_all add: assms(1))
  moreover have "own_step P b h ?s1 ?s2"
    by (rule own_stepI [OF hart_step.take_stage]) (simp_all add: assms(3))
  ultimately have "(own_step P b h)\<^sup>*\<^sup>* s ?s2"
    by (meson converse_rtranclp_into_rtranclp rtranclp.rtrancl_refl)
  moreover have "pcs ?s2 h = Smode" "entered ?s2 h = entered s h @ [x]" "accepted ?s2 h = accepted s h"
    by (simp_all add: sys_defs)
  ultimately show ?thesis
    by blast
qed

lemma enter_from_parked:
  assumes "pcs s h = Parked" and "state_of s h = STATE_START_PENDING" and "stage (cells s h) = Some x"
  shows "\<exists>s'. (own_step P b h)\<^sup>*\<^sup>* s s' \<and> pcs s' h = Smode \<and> entered s' h = entered s h @ [x]"
proof -
  let ?r = "set_pc h (TakeCas True) s"
  have "own_step P b h s ?r"
    by (rule own_stepI [OF hart_step.take_pending]) (simp_all add: assms)
  moreover obtain s' where "(own_step P b h)\<^sup>*\<^sup>* ?r s'" "pcs s' h = Smode" "entered s' h = entered s h @ [x]"
    using enter_from_cas [of ?r h True x P b] assms by (auto simp: set_pc_def)
  ultimately show ?thesis
    by (meson converse_rtranclp_into_rtranclp)
qed


section \<open>A concrete run\<close>

definition sound_ipi :: ipi_platform where
  "sound_ipi = \<lparr>device_present = True, clear_may_fail = False, handler_published = True\<rparr>"

definition example_stage :: NextStage where
  "example_stage = \<lparr>start_addr = 0x80200000, opaque = 0x82000000, next_mode = Supervisor\<rparr>"

definition run_reserved :: hart_sys where
  "run_reserved = set_pc 0 (StageWrite example_stage) (set_state 0 STATE_STARTING hart_init)"

definition run_pending :: hart_sys where
  "run_pending =
     (let s = set_pc 0 (StagePublish example_stage) (set_stage 0 (Some example_stage) run_reserved)
      in set_pc 0 Parked (set_state 0 STATE_START_PENDING
           (s\<lparr>accepted := (accepted s)(0 := accepted s 0 @ [example_stage])\<rparr>)))"

lemma run_reserved_reachable: "hart_reachable sound_ipi 0 run_reserved"
  unfolding run_reserved_def
  by (rule hart_reachable.step [OF hart_reachable.init], rule hart_step.boot_reserve)
    (simp_all add: hart_init_def cell_new_def)

lemma run_pending_reachable: "hart_reachable sound_ipi 0 run_pending"
proof -
  let ?s = "set_pc 0 (StagePublish example_stage) (set_stage 0 (Some example_stage) run_reserved)"
  have "hart_step sound_ipi 0 run_reserved ?s"
    by (rule hart_step.boot_write) (simp add: run_reserved_def)
  then have "hart_reachable sound_ipi 0 ?s"
    by (rule hart_reachable.step [OF run_reserved_reachable])
  moreover have "hart_step sound_ipi 0 ?s run_pending"
    unfolding run_pending_def Let_def by (rule hart_step.boot_publish) simp
  ultimately show ?thesis
    by (rule hart_reachable.step)
qed

theorem hart_lifecycle_safe_witness:
  "hart_reachable sound_ipi 0 run_pending \<and> pcs run_pending 0 \<notin> {Bug, Fault} \<and> (\<exists>st. status (cells run_pending 0) = Ret st)"
  using hart_lifecycle_safe [OF run_pending_reachable, of 0] run_pending_reachable
  by (simp add: sound_ipi_def)

theorem start_reservation_exclusive_witness:
  "state_of run_reserved 0 = STATE_STARTING \<and> {u. reserves u (pcs run_reserved u) = Some 0} = {0}"
proof -
  have "reserves 0 (pcs run_reserved 0) = Some 0"
    by (simp add: run_reserved_def)
  with start_reservation_exclusive [OF run_reserved_reachable this] show ?thesis
    by blast
qed


end
