(* ===== verification/Pmu_Event.thy ===== *)
theory Pmu_Event
  imports Firmware_Event Sbi_Ret
begin

text \<open>
  The event encoding and the event maps of the prototyper's PMU extension
  (\<open>firmware/prototyper/src/sbi/pmu.rs\<close>) and the constants of \<open>library/sbi-spec/src/pmu.rs\<close>:
  event indices, the counter information word, the maps from events to counters and their
  construction from the device tree.
\<close>

section \<open>Constants\<close>

definition HARDWARE_GENERAL :: usize where "HARDWARE_GENERAL = 0"
definition HARDWARE_CACHE :: usize where "HARDWARE_CACHE = 1"
definition HARDWARE_RAW :: usize where "HARDWARE_RAW = 2"
definition HARDWARE_RAW_V2 :: usize where "HARDWARE_RAW_V2 = 3"
definition FIRMWARE :: usize where "FIRMWARE = 15"

definition CPU_CYCLES :: usize where "CPU_CYCLES = 1"
definition INSTRUCTIONS :: usize where "INSTRUCTIONS = 2"
definition REF_CPU_CYCLES :: usize where "REF_CPU_CYCLES = 10"
definition NODE :: usize where "NODE = 6"
definition PREFETCH :: usize where "PREFETCH = 2"
definition MISS :: usize where "MISS = 1"

definition SKIP_MATCH :: usize where "SKIP_MATCH = 1"
definition CLEAR_VALUE :: usize where "CLEAR_VALUE = 2"
definition AUTO_START :: usize where "AUTO_START = 4"
definition CONFIG_FLAGS_ALL :: usize where "CONFIG_FLAGS_ALL = 0xff"
definition INIT_VALUE :: usize where "INIT_VALUE = 1"
definition INIT_SNAPSHOT :: usize where "INIT_SNAPSHOT = 2"
definition START_FLAGS_ALL :: usize where "START_FLAGS_ALL = 3"
definition STOP_RESET :: usize where "STOP_RESET = 1"
definition TAKE_SNAPSHOT :: usize where "TAKE_SNAPSHOT = 2"
definition STOP_FLAGS_ALL :: usize where "STOP_FLAGS_ALL = 3"

lemmas event_type_defs = HARDWARE_GENERAL_def HARDWARE_CACHE_def HARDWARE_RAW_def HARDWARE_RAW_V2_def
  FIRMWARE_def

text \<open>\<open>from_bits\<close> and \<open>contains\<close> of the flag types.\<close>

definition flags_from_bits :: "usize \<Rightarrow> usize \<Rightarrow> usize option" where
  "flags_from_bits all bits = (if bits AND NOT all = 0 then Some bits else None)"

definition has_flag :: "usize \<Rightarrow> usize \<Rightarrow> bool" where
  "has_flag flags f \<longleftrightarrow> flags AND f = f"

section \<open>Event indices\<close>

type_synonym EventIdx = usize

definition from_firmware_event :: "usize \<Rightarrow> EventIdx" where
  "from_firmware_event e = push_bit 16 0xf OR e"

definition event_type :: "EventIdx \<Rightarrow> usize" where
  "event_type e = drop_bit 16 e AND 0xF"

definition event_code :: "EventIdx \<Rightarrow> usize" where
  "event_code e = e AND 0xFFFF"

definition cache_id :: "EventIdx \<Rightarrow> usize" where
  "cache_id e = drop_bit 3 e AND 0x1FFF"

definition cache_op_id :: "EventIdx \<Rightarrow> usize" where
  "cache_op_id e = drop_bit 1 e AND 0x3"

definition cache_result_id :: "EventIdx \<Rightarrow> usize" where
  "cache_result_id e = e AND 0x1"

definition is_raw_event :: "EventIdx \<Rightarrow> bool" where
  "is_raw_event e \<longleftrightarrow> event_type e = HARDWARE_RAW \<or> event_type e = HARDWARE_RAW_V2"

definition is_firmware_event :: "EventIdx \<Rightarrow> bool" where
  "is_firmware_event e \<longleftrightarrow> event_type e = FIRMWARE"

definition check_event_type :: "EventIdx \<Rightarrow> bool" where
  "check_event_type e =
     (if event_type e = HARDWARE_GENERAL then event_code e \<le> REF_CPU_CYCLES
      else if event_type e = HARDWARE_CACHE
      then cache_id e \<le> NODE \<and> cache_op_id e \<le> PREFETCH \<and> cache_result_id e \<le> MISS
      else if event_type e = HARDWARE_RAW \<or> event_type e = HARDWARE_RAW_V2 then event_code e = 0
      else event_type e = FIRMWARE)"

definition firmware_event_valid :: "EventIdx \<Rightarrow> bool" where
  "firmware_event_valid e =
     (if event_type e \<noteq> FIRMWARE then False
      else \<not> ((HFENCE_VVMA_ASID_RECEIVED < event_code e \<and> event_code e < PLATFORM_EVENT)
               \<or> PLATFORM_EVENT \<le> event_code e))"

section \<open>Counter information\<close>

definition CSR_MASK :: usize where "CSR_MASK = 0xFFF"
definition WIDTH_MASK :: usize where "WIDTH_MASK = push_bit 12 0x3F"
definition FIRMWARE_FLAG :: usize where "FIRMWARE_FLAG = push_bit 63 1"

definition set_csr :: "usize \<Rightarrow> u16 \<Rightarrow> usize" where
  "set_csr inner csr_num = (inner AND NOT CSR_MASK) OR (ucast csr_num AND CSR_MASK)"

definition set_width :: "usize \<Rightarrow> u8 \<Rightarrow> usize" where
  "set_width inner width = (inner AND NOT WIDTH_MASK) OR push_bit 12 (ucast width AND 0x3F)"

definition with_hardware_info :: "u16 \<Rightarrow> u8 \<Rightarrow> usize" where
  "with_hardware_info csr_num width = (ucast csr_num AND CSR_MASK) OR push_bit 12 (ucast width AND 0x3F)"

definition with_firmware_info :: usize where
  "with_firmware_info = FIRMWARE_FLAG"

section \<open>Event maps\<close>

record EventToCounterMap =
  ev_counters_mask :: u32
  event_start_idx :: u32
  event_end_idx :: u32

definition ev_have_event :: "EventToCounterMap \<Rightarrow> u32 \<Rightarrow> bool" where
  "ev_have_event m e \<longleftrightarrow> event_start_idx m \<le> e \<and> e \<le> event_end_idx m"

definition ev_is_overlap :: "EventToCounterMap \<Rightarrow> EventToCounterMap \<Rightarrow> bool" where
  "ev_is_overlap m other \<longleftrightarrow>
     \<not> ((event_end_idx m < event_start_idx other \<and> event_end_idx m < event_end_idx other) \<or>
        (event_start_idx other < event_start_idx m \<and> event_end_idx other < event_start_idx m))"

record RawEventToCounterMap =
  raw_counters_mask :: u32
  raw_event_select :: u64
  select_mask :: u64

definition raw_have_event :: "RawEventToCounterMap \<Rightarrow> u64 \<Rightarrow> bool" where
  "raw_have_event m e \<longleftrightarrow> raw_event_select m = e AND select_mask m"

definition raw_is_overlap :: "RawEventToCounterMap \<Rightarrow> RawEventToCounterMap \<Rightarrow> bool" where
  "raw_is_overlap m other \<longleftrightarrow>
     select_mask m = select_mask other \<and> raw_event_select m = raw_event_select other"

record SbiPmu =
  event_to_mhpmevent :: "(u32 \<rightharpoonup> u64) option"
  event_to_mhpmcounter :: "EventToCounterMap list option"
  raw_event_to_mhpmcounter :: "RawEventToCounterMap list option"

definition pmu_default :: SbiPmu where
  "pmu_default = \<lparr>event_to_mhpmevent = None, event_to_mhpmcounter = None, raw_event_to_mhpmcounter = None\<rparr>"

text \<open>\<open>get_or_insert_default\<close>, then an insertion that keeps the first mapping.\<close>

definition insert_event_to_mhpmevent :: "SbiPmu \<Rightarrow> u32 \<Rightarrow> u64 \<Rightarrow> SbiPmu" where
  "insert_event_to_mhpmevent p event mhpmevent =
     (let m = (case event_to_mhpmevent p of None \<Rightarrow> Map.empty | Some m \<Rightarrow> m)
      in p\<lparr>event_to_mhpmevent := Some (case m event of Some _ \<Rightarrow> m | None \<Rightarrow> m(event \<mapsto> mhpmevent))\<rparr>)"

definition insert_event_to_mhpmcounter :: "SbiPmu \<Rightarrow> EventToCounterMap \<Rightarrow> SbiPmu" where
  "insert_event_to_mhpmcounter p e =
     (let ms = (case event_to_mhpmcounter p of None \<Rightarrow> [] | Some ms \<Rightarrow> ms)
      in p\<lparr>event_to_mhpmcounter := Some (if \<exists>m\<in>set ms. ev_is_overlap m e then ms else ms @ [e])\<rparr>)"

definition insert_raw_event_to_mhpmcounter :: "SbiPmu \<Rightarrow> RawEventToCounterMap \<Rightarrow> SbiPmu" where
  "insert_raw_event_to_mhpmcounter p e =
     (let ms = (case raw_event_to_mhpmcounter p of None \<Rightarrow> [] | Some ms \<Rightarrow> ms)
      in p\<lparr>raw_event_to_mhpmcounter := Some (if \<exists>m\<in>set ms. raw_is_overlap m e then ms else ms @ [e])\<rparr>)"

section \<open>Reading the device tree node\<close>

definition u32_from_be_bytes :: "u8 list \<Rightarrow> u32" where
  "u32_from_be_bytes bs = foldl (\<lambda>acc b. push_bit 8 acc OR ucast b) 0 bs"

text \<open>\<open>chunks_exact\<close> for a positive size: the full chunks; what is left over is the remainder.\<close>

function chunks_exact :: "nat \<Rightarrow> 'a list \<Rightarrow> 'a list list" where
  "chunks_exact n xs = (if n = 0 \<or> length xs < n then [] else take n xs # chunks_exact n (drop n xs))"
  by pat_completeness auto
termination
  by (relation "measure (\<lambda>(n, xs). length xs)") auto

declare chunks_exact.simps [simp del]

definition property_rows :: "nat \<Rightarrow> u8 list \<Rightarrow> u32 list list option" where
  "property_rows columns bs =
     (if length bs mod (columns * 4) = 0
      then Some (map (\<lambda>row. map u32_from_be_bytes (chunks_exact 4 row)) (chunks_exact (columns * 4) bs))
      else None)"

definition u64_of_cells :: "u32 \<Rightarrow> u32 \<Rightarrow> u64" where
  "u64_of_cells hi lo = push_bit 32 (ucast hi) OR ucast lo"

text \<open>The three properties of the node, if present, as bytes.\<close>

definition from_node :: "u8 list option \<Rightarrow> u8 list option \<Rightarrow> u8 list option \<Rightarrow> SbiPmu option" where
  "from_node mhpmevent mhpmcounters raw =
     Option.bind (case mhpmevent of
         None \<Rightarrow> Some pmu_default
       | Some bs \<Rightarrow> map_option
           (foldl (\<lambda>p row. insert_event_to_mhpmevent p (row ! 0) (u64_of_cells (row ! 1) (row ! 2))) pmu_default)
           (property_rows 3 bs)) (\<lambda>p.
     Option.bind (case mhpmcounters of
         None \<Rightarrow> Some p
       | Some bs \<Rightarrow> map_option
           (foldl (\<lambda>p row. insert_event_to_mhpmcounter p
              \<lparr>ev_counters_mask = row ! 2, event_start_idx = row ! 0, event_end_idx = row ! 1\<rparr>) p)
           (property_rows 3 bs)) (\<lambda>p.
     case raw of
         None \<Rightarrow> Some p
       | Some bs \<Rightarrow> map_option
           (foldl (\<lambda>p row. insert_raw_event_to_mhpmcounter p
              \<lparr>raw_counters_mask = row ! 4, raw_event_select = u64_of_cells (row ! 0) (row ! 1),
               select_mask = u64_of_cells (row ! 2) (row ! 3)\<rparr>) p)
           (property_rows 5 bs)))"

end
