(* ===== verification/Pmu.thy ===== *)
theory Pmu
  imports Pmu_Event Hart_Mask
begin

text \<open>
  The SBI PMU extension, \<open>firmware/prototyper/src/sbi/pmu.rs\<close>, on one hart.

  \<open>PmuState\<close> is the per-hart bookkeeping. The hardware counters are the registers of \<open>hpm_csrs\<close>
  (\<open>mcountinhibit\<close>, and the counter and event selector of each offset from \<open>mcycle\<close>), written by
  \<open>write_mhpmcounter\<close> and \<open>write_mhpmevent\<close> of \<open>firmware/prototyper/src/riscv/csr.rs\<close>. They
  are plain storage here: the counting of the hardware itself is not modelled. The detected
  features of the hart are \<open>pmu_hart\<close>: the mask of implemented counters and whether the
  privileged version is at least 1.11.
\<close>

section \<open>State\<close>

definition PMU_HARDWARE_COUNTER_MAX :: nat where "PMU_HARDWARE_COUNTER_MAX = 32"
definition PMU_FIRMWARE_COUNTER_MAX :: nat where "PMU_FIRMWARE_COUNTER_MAX = 16"
definition PMU_EVENT_IDX_INVALID :: usize where "PMU_EVENT_IDX_INVALID = usize_MAX"

record PmuState =
  active_event :: "usize list"
  fw_counter_state :: usize
  fw_counter :: "u64 list"
  hw_counters_num :: usize
  total_counters_num :: usize

record hpm_csrs =
  mcountinhibit :: usize
  mhpmcounter :: "nat \<Rightarrow> u64"
  mhpmevent :: "nat \<Rightarrow> u64"

record pmu_hart =
  hart_mhpm_mask :: u32
  has_mcountinhibit :: bool

definition pmu_state_new :: "u32 \<Rightarrow> PmuState" where
  "pmu_state_new mhpm_mask =
     \<lparr>active_event = (replicate (PMU_HARDWARE_COUNTER_MAX + PMU_FIRMWARE_COUNTER_MAX) PMU_EVENT_IDX_INVALID)
        [0 := CPU_CYCLES, 2 := INSTRUCTIONS],
      fw_counter_state = 0,
      fw_counter = replicate PMU_FIRMWARE_COUNTER_MAX 0,
      hw_counters_num = word_of_nat (count_ones mhpm_mask),
      total_counters_num = word_of_nat (count_ones mhpm_mask) + word_of_nat PMU_FIRMWARE_COUNTER_MAX\<rparr>"

definition get_event_idx :: "PmuState \<Rightarrow> usize \<Rightarrow> bool \<Rightarrow> EventIdx option outcome" where
  "get_event_idx st i firmware_event =
     (if total_counters_num st \<le> i then Ret None
      else if firmware_event \<and> i < hw_counters_num st then Ret None
      else omap Some (array_get (active_event st) (unat i)))"

definition get_fw_counter :: "PmuState \<Rightarrow> usize \<Rightarrow> u64 option outcome" where
  "get_fw_counter st i =
     (if i < hw_counters_num st \<or> total_counters_num st \<le> i then Ret None
      else omap Some (array_get (fw_counter st) (unat (i - hw_counters_num st))))"

datatype StartCounterErr = StartOffsetInvalid | AlreadyStart
datatype StopCounterErr = StopOffsetInvalid | AlreadyStop

definition start_fw_counter ::
    "PmuState \<Rightarrow> usize \<Rightarrow> u64 \<Rightarrow> bool \<Rightarrow> (StartCounterErr option \<times> PmuState) outcome" where
  "start_fw_counter st i initial_value is_update_value =
     (if i < hw_counters_num st \<or> total_counters_num st \<le> i then Ret (Some StartOffsetInvalid, st)
      else let fw_idx = unat (i - hw_counters_num st)
           in if fw_counter_state st AND one_bit fw_idx \<noteq> 0 then Ret (Some AlreadyStart, st)
              else omap (\<lambda>cs. (None, st\<lparr>fw_counter := cs, fw_counter_state := fw_counter_state st OR one_bit fw_idx\<rparr>))
                (if is_update_value then array_set (fw_counter st) fw_idx initial_value
                 else Ret (fw_counter st)))"

definition stop_fw_counter :: "PmuState \<Rightarrow> usize \<Rightarrow> bool \<Rightarrow> (StopCounterErr option \<times> PmuState) outcome" where
  "stop_fw_counter st i is_reset =
     (if i < hw_counters_num st \<or> total_counters_num st \<le> i then Ret (Some StopOffsetInvalid, st)
      else let fw_idx = unat (i - hw_counters_num st)
           in if fw_counter_state st AND one_bit fw_idx = 0 then Ret (Some AlreadyStop, st)
              else omap (\<lambda>as. (None, st\<lparr>active_event := as,
                    fw_counter_state := fw_counter_state st AND NOT (one_bit fw_idx)\<rparr>))
                (if is_reset then array_set (active_event st) (unat i) PMU_EVENT_IDX_INVALID
                 else Ret (active_event st)))"

definition is_firmware_event_start :: "PmuState \<Rightarrow> usize \<Rightarrow> bool" where
  "is_firmware_event_start st i =
     (if i < hw_counters_num st \<or> total_counters_num st \<le> i then False
      else fw_counter_state st AND one_bit (unat (i - hw_counters_num st)) \<noteq> 0)"

section \<open>Hardware counters\<close>

fun offset_loop :: "u32 \<Rightarrow> usize \<Rightarrow> usize \<Rightarrow> nat list \<Rightarrow> nat option" where
  "offset_loop m counter_idx count [] = None"
| "offset_loop m counter_idx count (offset # os) =
     (if drop_bit offset m AND 1 = 1
      then if count = counter_idx then Some offset else offset_loop m counter_idx (count + 1) os
      else offset_loop m counter_idx count os)"

definition get_mhpm_csr_offset :: "pmu_hart \<Rightarrow> usize \<Rightarrow> nat option" where
  "get_mhpm_csr_offset h counter_idx = offset_loop (hart_mhpm_mask h) counter_idx 0 [0..<32]"

datatype HardwareCounter = Cycle | Instret | Hpm nat

definition try_from_offset :: "nat \<Rightarrow> HardwareCounter option" where
  "try_from_offset offset =
     (if offset = 0 then Some Cycle else if offset = 2 then Some Instret
      else if 3 \<le> offset \<and> offset \<le> 31 then Some (Hpm offset) else None)"

fun inhibit_bit :: "HardwareCounter \<Rightarrow> nat" where
  "inhibit_bit Cycle = 0"
| "inhibit_bit Instret = 2"
| "inhibit_bit (Hpm offset) = offset"

definition inhibit_mask :: "HardwareCounter \<Rightarrow> usize" where
  "inhibit_mask c = one_bit (inhibit_bit c)"

definition hw_start :: "HardwareCounter \<Rightarrow> hpm_csrs \<Rightarrow> hpm_csrs" where
  "hw_start c r = r\<lparr>mcountinhibit := clear_bit (mcountinhibit r) (inhibit_bit c)\<rparr>"

definition hw_stop :: "HardwareCounter \<Rightarrow> hpm_csrs \<Rightarrow> hpm_csrs" where
  "hw_stop c r = r\<lparr>mcountinhibit := mcountinhibit r OR one_bit (inhibit_bit c)\<rparr>"

definition write_mhpmevent :: "nat \<Rightarrow> u64 \<Rightarrow> hpm_csrs \<Rightarrow> hpm_csrs" where
  "write_mhpmevent offset v r =
     (if 3 \<le> offset \<and> offset \<le> 31 then r\<lparr>mhpmevent := (mhpmevent r)(offset := v)\<rparr> else r)"

definition write_mhpmcounter :: "nat \<Rightarrow> u64 \<Rightarrow> hpm_csrs \<Rightarrow> hpm_csrs" where
  "write_mhpmcounter offset v r =
     (if offset = 0 \<or> offset = 2 \<or> 3 \<le> offset \<and> offset \<le> 31
      then r\<lparr>mhpmcounter := (mhpmcounter r)(offset := v)\<rparr> else r)"

definition start_hardware_counter ::
    "pmu_hart \<Rightarrow> hpm_csrs \<Rightarrow> nat \<Rightarrow> u64 \<Rightarrow> bool \<Rightarrow> StartCounterErr option \<times> hpm_csrs" where
  "start_hardware_counter h r offset new_value is_update_value =
     (case try_from_offset offset of
        None \<Rightarrow> (Some StartOffsetInvalid, r)
      | Some c \<Rightarrow>
          let r' = (if is_update_value then write_mhpmcounter offset new_value r else r)
          in if \<not> has_mcountinhibit h then (None, r')
             else if mcountinhibit r AND inhibit_mask c = 0 then (Some AlreadyStart, r)
             else (None, hw_start c r'))"

definition stop_hardware_counter :: "pmu_hart \<Rightarrow> hpm_csrs \<Rightarrow> nat \<Rightarrow> bool \<Rightarrow> StopCounterErr option \<times> hpm_csrs" where
  "stop_hardware_counter h r offset is_reset =
     (case try_from_offset offset of
        None \<Rightarrow> (Some StopOffsetInvalid, r)
      | Some c \<Rightarrow>
          let r = (if is_reset \<and> 3 \<le> offset \<and> offset \<le> 31 then write_mhpmevent offset 0 r else r)
          in if \<not> has_mcountinhibit h then (None, r)
             else if mcountinhibit r AND inhibit_mask c \<noteq> 0 then (Some AlreadyStop, r)
             else (None, hw_stop c r))"

section \<open>Selected counters\<close>

text \<open>\<open>CounterMask::next\<close>, and the items a \<open>for\<close> loop over the mask sees.\<close>

definition counter_next :: "usize \<Rightarrow> usize \<Rightarrow> (usize option \<times> usize) outcome" where
  "counter_next base m =
     (if m = 0 then Ret (None, m)
      else let low_bit = trailing_zeros m
           in obind (add_ovf (word_of_nat low_bit) base) (\<lambda>i. Ret (Some i, clear_bit m low_bit)))"

lemma counter_next_decreases:
  "counter_next base m = Ret (Some i, m') \<Longrightarrow> count_ones m' < count_ones m"
  using count_ones_clear_low [of m]
  by (auto simp: counter_next_def Let_def obind_eq_Ret split: if_splits)

function counter_list :: "usize \<Rightarrow> usize \<Rightarrow> usize list outcome" where
  "counter_list base m =
     (case counter_next base m of
        Panic \<Rightarrow> Panic
      | Ret (None, m') \<Rightarrow> Ret []
      | Ret (Some i, m') \<Rightarrow> omap (Cons i) (counter_list base m'))"
  by pat_completeness auto
termination
  by (relation "measure (\<lambda>(base, m). count_ones m)") (auto simp: counter_next_decreases)

declare counter_list.simps [simp del]

text \<open>The test on base and mask that the calls share.\<close>

definition bad_counters :: "PmuState \<Rightarrow> usize \<Rightarrow> usize \<Rightarrow> bool" where
  "bad_counters st base m \<longleftrightarrow> total_counters_num st \<le> base \<or> m = 0 \<or>
     (let n = unat (ucast (total_counters_num st - base) :: u32)
      in (if n < usize_BITS then drop_bit n m else 0) \<noteq> 0)"

section \<open>Calls\<close>

definition CSR_CYCLE :: u16 where "CSR_CYCLE = 0xc00"

definition num_counters :: "PmuState \<Rightarrow> usize" where
  "num_counters st = total_counters_num st"

lemma and_pred_clear_low: "m \<noteq> 0 \<Longrightarrow> m AND (m - 1) = clear_bit m (trailing_zeros m)" for m :: u32
proof -
  assume m: "m \<noteq> 0"
  define t where "t = trailing_zeros m"
  have t: "bit m t" "\<And>i. i < t \<Longrightarrow> \<not> bit m i"
    using trailing_zeros_props [OF m] by (simp_all add: t_def)
  define k where "k = Suc t"
  let ?hi = "push_bit k (drop_bit k m)"
  have "bit ?hi n \<longleftrightarrow> k \<le> n \<and> bit m n" for n
    by (auto simp: bit_push_bit_iff bit_drop_bit_eq dest: bit_imp_le_length)
  then have hi: "bit ?hi n \<longleftrightarrow> Suc t \<le> n \<and> bit m n" for n
    by (simp add: k_def)
  have "?hi + one_bit t = ?hi OR one_bit t"
    by (rule disjunctive_add) (auto simp: hi bit_one_bit)
  also have "\<dots> = m"
    by (rule bit_word_eqI)
      (use t in \<open>auto simp: bit_or_iff hi bit_one_bit Suc_le_eq intro: linorder_neqE_nat\<close>)
  finally have m_eq: "m = ?hi + one_bit t" ..
  have "m - 1 = ?hi + mask t"
    by (subst m_eq) (simp add: one_bit_eq_power mask_eq_exp_minus_1)
  also have "\<dots> = ?hi OR mask t"
    by (rule disjunctive_add) (auto simp: hi bit_mask_iff)
  finally have pred: "m - 1 = ?hi OR mask t" .
  show ?thesis
    unfolding t_def [symmetric] pred
    by (rule bit_word_eqI)
      (use t in \<open>auto simp: bit_and_iff bit_or_iff hi bit_mask_iff bit_clear_bit Suc_le_eq le_less\<close>)
qed

text \<open>The loop of \<open>counter_get_info\<close> over the remaining mask: the offset it finds.\<close>

function info_loop :: "u32 \<Rightarrow> usize \<Rightarrow> usize \<Rightarrow> nat option" where
  "info_loop remaining counter_idx count =
     (if remaining = 0 then None
      else if count = counter_idx then Some (trailing_zeros remaining)
      else info_loop (remaining AND (remaining - 1)) counter_idx (count + 1))"
  by pat_completeness auto
termination
  by (relation "measure (\<lambda>(m, i, c). count_ones m)") (auto simp: and_pred_clear_low count_ones_clear_low)

declare info_loop.simps [simp del]

definition counter_get_info :: "pmu_hart \<Rightarrow> PmuState \<Rightarrow> usize \<Rightarrow> sbi_ret" where
  "counter_get_info h st counter_idx =
     (if num_counters st \<le> counter_idx then sbi_invalid_param
      else if counter_idx < hw_counters_num st
      then (case info_loop (hart_mhpm_mask h) counter_idx 0 of
              None \<Rightarrow> sbi_invalid_param
            | Some offset \<Rightarrow>
                if offset = 1 then sbi_invalid_param
                else sbi_success (with_hardware_info (CSR_CYCLE + word_of_nat offset) 63))
      else sbi_success with_firmware_info)"

type_synonym pmu = "PmuState \<times> hpm_csrs"

fun find_firmware_loop :: "PmuState \<Rightarrow> usize list \<Rightarrow> (sbi_ret + usize) outcome" where
  "find_firmware_loop st [] = Ret (Inl sbi_not_supported)"
| "find_firmware_loop st (i # is) =
     (if i < hw_counters_num st \<or> total_counters_num st \<le> i then find_firmware_loop st is
      else obind (array_get (active_event st) (unat i)) (\<lambda>e.
        if e \<noteq> PMU_EVENT_IDX_INVALID then find_firmware_loop st is else Ret (Inr i)))"

definition find_firmware_counter :: "PmuState \<Rightarrow> usize \<Rightarrow> usize \<Rightarrow> EventIdx \<Rightarrow> (sbi_ret + usize) outcome" where
  "find_firmware_counter st base m event =
     (if \<not> firmware_event_valid event then Ret (Inl sbi_not_supported)
      else obind (counter_list base m) (find_firmware_loop st))"

definition update_hardware_mhpmevent :: "SbiPmu \<Rightarrow> hpm_csrs \<Rightarrow> nat \<Rightarrow> EventIdx \<Rightarrow> u64 \<Rightarrow> sbi_ret + hpm_csrs" where
  "update_hardware_mhpmevent p r offset event event_data =
     (if (offset = 0 \<and> event = 1) \<or> (offset = 2 \<and> event = 2) then Inr r
      else if offset = 1 \<or> 31 < offset then Inl sbi_not_supported
      else if is_raw_event event then Inr (write_mhpmevent offset event_data r)
      else case event_to_mhpmevent p of
          Some m \<Rightarrow> (case m (ucast event) of None \<Rightarrow> Inl sbi_not_supported | Some v \<Rightarrow> Inr (write_mhpmevent offset v r))
        | None \<Rightarrow> if event_to_mhpmcounter p \<noteq> None then Inr (write_mhpmevent offset event r)
                   else Inl sbi_not_supported)"

definition is_fixed_counter :: "pmu_hart \<Rightarrow> EventIdx \<Rightarrow> usize \<Rightarrow> bool" where
  "is_fixed_counter h event i \<longleftrightarrow>
     event = CPU_CYCLES \<and> get_mhpm_csr_offset h i = Some 0 \<or>
     event = INSTRUCTIONS \<and> get_mhpm_csr_offset h i = Some 2"

text \<open>The counters an event may use by the maps; \<open>Inl\<close> where the source returns at once.\<close>

definition event_counters :: "SbiPmu \<Rightarrow> EventIdx \<Rightarrow> u64 \<Rightarrow> (sbi_ret + usize) \<Rightarrow> (sbi_ret + usize) + u32" where
  "event_counters p event event_data fixed =
     (if is_raw_event event
      then (case raw_event_to_mhpmcounter p of
              None \<Rightarrow> Inl (Inl sbi_not_supported)
            | Some ms \<Rightarrow> Inr (case find (\<lambda>m. raw_have_event m event_data) ms of
                None \<Rightarrow> 0 | Some m \<Rightarrow> raw_counters_mask m))
      else (case event_to_mhpmcounter p of
              None \<Rightarrow> Inl fixed
            | Some ms \<Rightarrow> Inr (case find (\<lambda>m. ev_have_event m (ucast event)) ms of
                None \<Rightarrow> 0 | Some m \<Rightarrow> ev_counters_mask m)))"

text \<open>The search for a free programmable counter; \<open>None\<close> when there is none.\<close>

fun find_hardware_loop ::
    "SbiPmu \<Rightarrow> pmu_hart \<Rightarrow> PmuState \<Rightarrow> hpm_csrs \<Rightarrow> u32 \<Rightarrow> EventIdx \<Rightarrow> u64 \<Rightarrow> usize list
      \<Rightarrow> ((sbi_ret + usize) option \<times> hpm_csrs) outcome" where
  "find_hardware_loop p h st r usable event event_data [] = Ret (None, r)"
| "find_hardware_loop p h st r usable event event_data (i # is) =
     (if hw_counters_num st \<le> i then find_hardware_loop p h st r usable event event_data is
      else obind (expect (get_mhpm_csr_offset h i)) (\<lambda>offset.
        obind (array_get (active_event st) (unat i)) (\<lambda>active.
        if drop_bit offset usable AND 1 = 0 \<or> active \<noteq> PMU_EVENT_IDX_INVALID
          \<or> (offset = 0 \<and> event \<noteq> 1) \<or> (offset = 2 \<and> event \<noteq> 2)
          \<or> has_mcountinhibit h \<and> mcountinhibit r AND one_bit offset = 0
        then find_hardware_loop p h st r usable event event_data is
        else Ret (case update_hardware_mhpmevent p r offset event event_data of
            Inl e \<Rightarrow> (Some (Inl e), r)
          | Inr r \<Rightarrow> (Some (Inr i), r)))))"

definition find_hardware_counter ::
    "SbiPmu \<Rightarrow> pmu_hart \<Rightarrow> PmuState \<Rightarrow> hpm_csrs \<Rightarrow> usize \<Rightarrow> usize \<Rightarrow> EventIdx \<Rightarrow> u64
      \<Rightarrow> ((sbi_ret + usize) \<times> hpm_csrs) outcome" where
  "find_hardware_counter p h st r base m event event_data =
     obind (counter_list base m) (\<lambda>is.
       let fixed = (case find (is_fixed_counter h event) is of
                      None \<Rightarrow> Inl sbi_not_supported | Some i \<Rightarrow> Inr i)
       in case event_counters p event event_data fixed of
            Inl res \<Rightarrow> Ret (res, r)
          | Inr hw_counters_mask \<Rightarrow>
              omap (\<lambda>(res, r). (case res of None \<Rightarrow> fixed | Some x \<Rightarrow> x, r))
                (find_hardware_loop p h st r (hw_counters_mask AND hart_mhpm_mask h) event event_data is))"

definition configure_counter ::
    "pmu_hart \<Rightarrow> pmu \<Rightarrow> usize \<Rightarrow> EventIdx \<Rightarrow> usize \<Rightarrow> (sbi_ret option \<times> pmu) outcome" where
  "configure_counter h s i event flags =
     (case s of (st, r) \<Rightarrow>
        if is_firmware_event event
        then obind (sub_ovf i (hw_counters_num st)) (\<lambda>fw_idx.
          if word_of_nat PMU_FIRMWARE_COUNTER_MAX \<le> fw_idx then Ret (Some sbi_invalid_param, st, r)
          else omap (\<lambda>cs. (None,
              st\<lparr>fw_counter := cs,
                 fw_counter_state := (if has_flag flags AUTO_START
                   then fw_counter_state st OR one_bit (unat fw_idx) else fw_counter_state st)\<rparr>, r))
            (if has_flag flags CLEAR_VALUE then array_set (fw_counter st) (unat fw_idx) 0
             else Ret (fw_counter st)))
        else obind (expect (get_mhpm_csr_offset h i)) (\<lambda>offset.
          let r = (if has_flag flags CLEAR_VALUE then write_mhpmcounter offset 0 r else r)
          in if has_flag flags AUTO_START
             then (case start_hardware_counter h r offset 0 False of
                     (None, r) \<Rightarrow> Ret (None, st, r)
                   | (Some _, r) \<Rightarrow> Ret (Some sbi_not_supported, st, r))
             else Ret (None, st, r)))"

definition counter_config_matching ::
    "SbiPmu \<Rightarrow> pmu_hart \<Rightarrow> pmu \<Rightarrow> usize \<Rightarrow> usize \<Rightarrow> usize \<Rightarrow> EventIdx \<Rightarrow> u64 \<Rightarrow> (sbi_ret \<times> pmu) outcome" where
  "counter_config_matching p h s base m config_flags event event_data =
     (case s of (st, r) \<Rightarrow>
      case flags_from_bits CONFIG_FLAGS_ALL config_flags of
        None \<Rightarrow> Ret (sbi_invalid_param, s)
      | Some flags \<Rightarrow>
          if bad_counters st base m \<or> \<not> check_event_type event
             \<or> is_firmware_event event \<and> \<not> firmware_event_valid event
          then Ret (sbi_invalid_param, s)
          else
            let finish = (\<lambda>i s. omap (\<lambda>(e, s). (case e of None \<Rightarrow> sbi_success i | Some e \<Rightarrow> e, s))
                  (configure_counter h s i event flags));
                configure = (\<lambda>i r. obind (array_set (active_event st) (unat i) event) (\<lambda>as.
                  finish i (st\<lparr>active_event := as\<rparr>, r)))
            in if has_flag flags SKIP_MATCH
               then obind (counter_next base m) (\<lambda>(first, _). case first of
                   None \<Rightarrow> Ret (sbi_invalid_param, s)
                 | Some i \<Rightarrow> obind (array_get (active_event st) (unat i)) (\<lambda>active.
                     if active = PMU_EVENT_IDX_INVALID then Ret (sbi_invalid_param, s) else finish i s))
               else if is_firmware_event event
               then obind (find_firmware_counter st base m event) (\<lambda>res. case res of
                   Inl e \<Rightarrow> Ret (e, s) | Inr i \<Rightarrow> configure i r)
               else obind (find_hardware_counter p h st r base m event event_data) (\<lambda>(res, r). case res of
                   Inl e \<Rightarrow> Ret (e, st, r) | Inr i \<Rightarrow> configure i r))"

fun start_loop :: "pmu_hart \<Rightarrow> pmu \<Rightarrow> u64 \<Rightarrow> bool \<Rightarrow> usize list \<Rightarrow> (sbi_ret \<times> pmu) outcome" where
  "start_loop h s initial_value is_update_value [] = Ret (sbi_success 0, s)"
| "start_loop h (st, r) initial_value is_update_value (i # is) =
     (if total_counters_num st \<le> i then Ret (sbi_invalid_param, st, r)
      else obind
        (if hw_counters_num st \<le> i
         then omap (\<lambda>(e, st). (e, st, r)) (start_fw_counter st i initial_value is_update_value)
         else obind (expect (get_mhpm_csr_offset h i)) (\<lambda>offset.
           case start_hardware_counter h r offset initial_value is_update_value of (e, r) \<Rightarrow> Ret (e, st, r)))
        (\<lambda>(e, s). case e of
            None \<Rightarrow> start_loop h s initial_value is_update_value is
          | Some AlreadyStart \<Rightarrow> Ret (sbi_already_started, s)
          | Some StartOffsetInvalid \<Rightarrow> Ret (sbi_invalid_param, s)))"

definition counter_start :: "pmu_hart \<Rightarrow> pmu \<Rightarrow> usize \<Rightarrow> usize \<Rightarrow> usize \<Rightarrow> u64 \<Rightarrow> (sbi_ret \<times> pmu) outcome" where
  "counter_start h s base m start_flags initial_value =
     (case flags_from_bits START_FLAGS_ALL start_flags of
        None \<Rightarrow> Ret (sbi_invalid_param, s)
      | Some flags \<Rightarrow>
          if bad_counters (fst s) base m then Ret (sbi_invalid_param, s)
          else if has_flag flags INIT_SNAPSHOT then Ret (sbi_no_shmem, s)
          else obind (counter_list base m) (start_loop h s initial_value (has_flag flags INIT_VALUE)))"

text \<open>\<open>result\<close> is the answer the loop gives when it runs through.\<close>

fun stop_loop :: "pmu_hart \<Rightarrow> pmu \<Rightarrow> bool \<Rightarrow> sbi_ret \<Rightarrow> usize list \<Rightarrow> (sbi_ret \<times> pmu) outcome" where
  "stop_loop h s is_reset result [] = Ret (result, s)"
| "stop_loop h (st, r) is_reset result (i # is) =
     (if total_counters_num st \<le> i then Ret (sbi_invalid_param, st, r)
      else if hw_counters_num st \<le> i
      then obind (stop_fw_counter st i is_reset) (\<lambda>(e, st). case e of
            None \<Rightarrow> stop_loop h (st, r) is_reset (sbi_success 0) is
          | Some StopOffsetInvalid \<Rightarrow> Ret (sbi_invalid_param, st, r)
          | Some AlreadyStop \<Rightarrow> Ret (sbi_already_stopped, st, r))
      else obind (expect (get_mhpm_csr_offset h i)) (\<lambda>offset.
        if offset = 1 then stop_loop h (st, r) is_reset result is
        else obind (if is_reset then array_set (active_event st) (unat i) PMU_EVENT_IDX_INVALID
                    else Ret (active_event st)) (\<lambda>as.
          let st = st\<lparr>active_event := as\<rparr>
          in case stop_hardware_counter h r offset is_reset of
               (None, r) \<Rightarrow> stop_loop h (st, r) is_reset (sbi_success 0) is
             | (Some StopOffsetInvalid, r) \<Rightarrow> Ret (sbi_invalid_param, st, r)
             | (Some AlreadyStop, r) \<Rightarrow> Ret (sbi_already_stopped, st, r))))"

definition counter_stop :: "pmu_hart \<Rightarrow> pmu \<Rightarrow> usize \<Rightarrow> usize \<Rightarrow> usize \<Rightarrow> (sbi_ret \<times> pmu) outcome" where
  "counter_stop h s base m stop_flags =
     (case flags_from_bits STOP_FLAGS_ALL stop_flags of
        None \<Rightarrow> Ret (sbi_invalid_param, s)
      | Some flags \<Rightarrow>
          if bad_counters (fst s) base m then Ret (sbi_invalid_param, s)
          else if has_flag flags TAKE_SNAPSHOT then Ret (sbi_no_shmem, s)
          else obind (counter_list base m) (stop_loop h s (has_flag flags STOP_RESET) sbi_invalid_param))"

definition counter_fw_read :: "PmuState \<Rightarrow> usize \<Rightarrow> sbi_ret outcome" where
  "counter_fw_read st i =
     obind (get_event_idx st i True) (\<lambda>event. case event of
         None \<Rightarrow> Ret sbi_invalid_param
       | Some e \<Rightarrow>
           if \<not> firmware_event_valid e then Ret sbi_invalid_param
           else if event_code e = PLATFORM_EVENT then Ret sbi_invalid_param
           else omap (\<lambda>v. case v of None \<Rightarrow> sbi_invalid_param | Some v \<Rightarrow> sbi_success v)
             (get_fw_counter st i))"

definition counter_fw_read_hi :: "usize \<Rightarrow> sbi_ret" where
  "counter_fw_read_hi i = sbi_success 0"

definition snapshot_set_shmem :: sbi_ret where
  "snapshot_set_shmem = sbi_not_supported"

section \<open>Counting firmware events\<close>

fun increment_loop :: "PmuState \<Rightarrow> usize \<Rightarrow> nat list \<Rightarrow> PmuState outcome" where
  "increment_loop st event [] = Ret st"
| "increment_loop st event (fw_idx # is) =
     (let i = hw_counters_num st + word_of_nat fw_idx
      in obind (array_get (active_event st) (unat i)) (\<lambda>active.
        if active = from_firmware_event event \<and> is_firmware_event_start st i
        then obind (array_get (fw_counter st) fw_idx) (\<lambda>v. obind (add_ovf v 1) (\<lambda>v.
          obind (array_set (fw_counter st) fw_idx v) (\<lambda>cs.
            increment_loop (st\<lparr>fw_counter := cs\<rparr>) event is)))
        else increment_loop st event is))"

definition pmu_firmware_counter_increment :: "bool \<Rightarrow> PmuState \<Rightarrow> usize \<Rightarrow> PmuState outcome" where
  "pmu_firmware_counter_increment has_pmu st event =
     (if \<not> has_pmu then Ret st
      else if fw_counter_state st = 0 then Ret st
      else increment_loop st event [0..<PMU_FIRMWARE_COUNTER_MAX])"

end
