(* ===== verification/Ipi_Targets.thy ===== *)
theory Ipi_Targets
  imports Hart_Lifecycle Pmu
begin

text \<open>
  The SBI IPI extension, \<open>firmware/prototyper/src/sbi/ipi.rs\<close>, and the target windows of
  \<open>firmware/prototyper/src/driver/ipi/mod.rs\<close>: which harts a hart mask of the supervisor
  selects, the pending IPI types of the harts, and \<open>send_ipi\<close>.

  The board's list of enabled harts and the privilege checks are the fields of \<open>platform\<close>,
  the hart states are the cells of \<open>Hart_Lifecycle\<close>. The backend of the IPI device is the
  parameter \<open>device\<close>: whether the request was signalled. The pending types are a map from hart
  numbers to bytes; a hart number the source looks up has passed the checks, so its slot exists.
  \<open>has_pmu\<close> and \<open>st\<close> are the published PMU and the PMU state of the calling hart, on which
  \<open>send_ipi\<close> counts its firmware event.
\<close>

section \<open>Windows\<close>

record IpiRequest =
  req_mask :: usize
  req_base :: usize

definition req_harts :: "IpiRequest \<Rightarrow> usize list outcome" where
  "req_harts r = hart_ids_collect (hart_mask_iter (hart_mask_from_mask_base (req_mask r) (req_base r)))"

definition IPI_TYPE_SSOFT :: u8 where "IPI_TYPE_SSOFT = 1"
definition IPI_TYPE_FENCE :: u8 where "IPI_TYPE_FENCE = 2"

type_synonym ipi_types = "nat \<Rightarrow> u8"

definition set_ipi_type :: "ipi_types \<Rightarrow> nat \<Rightarrow> u8 \<Rightarrow> ipi_types" where
  "set_ipi_type ipi hart event = ipi(hart := ipi hart OR event)"

definition get_and_reset_ipi_type :: "ipi_types \<Rightarrow> nat \<Rightarrow> u8 \<times> ipi_types" where
  "get_and_reset_ipi_type ipi hart = (ipi hart, ipi(hart := 0))"

section \<open>Targets\<close>

definition assigned :: "platform \<Rightarrow> usize \<Rightarrow> bool" where
  "assigned p hartid \<longleftrightarrow> from_raw hartid \<noteq> None \<and>
     unat hartid < length (enabled_harts p) \<and> enabled_harts p ! unat hartid"

definition available :: "platform \<Rightarrow> hart_cells \<Rightarrow> usize \<Rightarrow> bool outcome" where
  "available p cells hartid =
     (case from_raw hartid of
        None \<Rightarrow> Ret False
      | Some hart \<Rightarrow>
          if assigned p hartid \<and> privilege_checked p hartid then can_receive_ipi (cells hart)
          else Ret False)"

text \<open>The fold over one chunk of the enabled list, for the mask that selects all harts.\<close>

fun fold_available :: "platform \<Rightarrow> hart_cells \<Rightarrow> usize \<Rightarrow> usize \<Rightarrow> nat list \<Rightarrow> usize outcome" where
  "fold_available p cells base m [] = Ret m"
| "fold_available p cells base m (i # is) =
     obind (add_ovf base (word_of_nat i)) (\<lambda>hartid.
       obind (available p cells hartid) (\<lambda>a.
         fold_available p cells base (m OR (if a then one_bit i else 0)) is))"

fun windows :: "platform \<Rightarrow> hart_cells \<Rightarrow> (nat \<times> bool list) list \<Rightarrow> IpiRequest list outcome" where
  "windows p cells [] = Ret []"
| "windows p cells ((window, harts) # rest) =
     obind (fold_available p cells (word_of_nat (window * usize_BITS)) 0 [0..<length harts]) (\<lambda>m.
       omap (\<lambda>rs. (if m \<noteq> 0 then [\<lparr>req_mask = m, req_base = word_of_nat (window * usize_BITS)\<rparr>] else []) @ rs)
         (windows p cells rest))"

text \<open>\<open>slice::chunks\<close>.\<close>

function chunks :: "nat \<Rightarrow> 'a list \<Rightarrow> 'a list list" where
  "chunks n xs = (if xs = [] \<or> n = 0 then [] else take n xs # chunks n (drop n xs))"
  by pat_completeness auto
termination
  by (relation "measure (\<lambda>(n, xs). length xs)") auto

declare chunks.simps [simp del]

text \<open>The loop over an ordinary mask.\<close>

fun active_loop :: "platform \<Rightarrow> hart_cells \<Rightarrow> usize \<Rightarrow> usize \<Rightarrow> usize list \<Rightarrow> (sbi_ret + usize) outcome" where
  "active_loop p cells base active [] = Ret (Inr active)"
| "active_loop p cells base active (i # is) =
     (case checked_add base i of
        None \<Rightarrow> Ret (Inl sbi_invalid_param)
      | Some hartid \<Rightarrow>
          if \<not> assigned p hartid then Ret (Inl sbi_invalid_param)
          else obind (available p cells hartid) (\<lambda>a.
            active_loop p cells base (if a then active OR one_bit (unat i) else active) is))"

definition target_requests :: "platform \<Rightarrow> hart_cells \<Rightarrow> HartMask \<Rightarrow> (sbi_ret + IpiRequest list) outcome" where
  "target_requests p cells m =
     (case hart_mask_into_inner m of (harts, base) \<Rightarrow>
        if base = usize_MAX
        then omap Inr (windows p cells (enumerate 0 (chunks usize_BITS (enabled_harts p))))
        else if harts \<noteq> 0
        then obind (hart_ids_collect (hart_mask_iter (hart_mask_from_mask_base harts 0))) (\<lambda>bits.
          omap (\<lambda>r. case r of
              Inl e \<Rightarrow> Inl e
            | Inr active \<Rightarrow> Inr (if active \<noteq> 0 then [\<lparr>req_mask = active, req_base = base\<rparr>] else []))
            (active_loop p cells base 0 bits))
        else Ret (Inr []))"

text \<open>\<open>requests.flat_map(IpiRequest::harts)\<close>.\<close>

fun flat_harts :: "IpiRequest list \<Rightarrow> usize list outcome" where
  "flat_harts [] = Ret []"
| "flat_harts (r # rs) = obind (req_harts r) (\<lambda>hs. omap (\<lambda>t. hs @ t) (flat_harts rs))"

section \<open>Sending\<close>

fun send_loop :: "(IpiRequest \<Rightarrow> bool) \<Rightarrow> ipi_types \<Rightarrow> IpiRequest list \<Rightarrow> (sbi_ret \<times> ipi_types) outcome" where
  "send_loop device ipi [] = Ret (sbi_success 0, ipi)"
| "send_loop device ipi (r # rs) =
     obind (req_harts r) (\<lambda>hs.
       let ipi = fold (\<lambda>h ipi. set_ipi_type ipi (unat h) IPI_TYPE_SSOFT) hs ipi
       in if device r then send_loop device ipi rs else Ret (sbi_failed, ipi))"

text \<open>The PMU state of the calling hart, the result and the pending types.\<close>

definition send_ipi ::
    "bool \<Rightarrow> PmuState \<Rightarrow> platform \<Rightarrow> hart_cells \<Rightarrow> (IpiRequest \<Rightarrow> bool) \<Rightarrow> ipi_types \<Rightarrow> HartMask \<Rightarrow>
     (PmuState \<times> sbi_ret \<times> ipi_types) outcome" where
  "send_ipi has_pmu st p cells device ipi m =
     obind (pmu_firmware_counter_increment has_pmu st IPI_SENT) (\<lambda>st.
       obind (target_requests p cells m) (\<lambda>r. case r of
           Inl e \<Rightarrow> Ret (st, e, ipi)
         | Inr requests \<Rightarrow> omap (Pair st) (send_loop device ipi requests)))"

section \<open>Which harts are selected\<close>

lemma available_no_panic:
  assumes "\<forall>h. \<exists>st. status (cells h) = Ret st"
  shows "\<exists>b. available p cells h = Ret b"
proof -
  obtain st where "status (cells (unat h)) = Ret st"
    using assms by blast
  then show ?thesis
    by (auto simp: available_def can_receive_ipi_def from_raw_def)
qed

lemma available_True:
  "available p cells h = Ret True \<Longrightarrow> assigned p h \<and> unat h < NUM_HART_MAX"
  by (auto simp: available_def assigned_def from_raw_def split: option.splits if_splits)

lemma fold_available_bits:
  assumes "\<forall>h. \<exists>st. status (cells h) = Ret st" and "\<forall>i\<in>set is. i < 64"
    and "unat base + 64 < 2 ^ 64"
  shows "\<exists>m'. fold_available p cells base m is = Ret m' \<and>
    (\<forall>i. bit m' i \<longleftrightarrow> bit m i \<or> i \<in> set is \<and> available p cells (base + word_of_nat i) = Ret True)"
  using assms(2)
proof (induction "is" arbitrary: m)
  case (Cons j js)
  then have j: "j < 64" "unat (word_of_nat j :: usize) = j"
    by (simp_all add: unat_of_nat take_bit_nat_eq_self)
  then have add: "add_ovf base (word_of_nat j) = Ret (base + word_of_nat j)"
    using assms(3) by (simp add: add_ovf_def checked_add_def)
  obtain b where b: "available p cells (base + word_of_nat j) = Ret b"
    using available_no_panic [OF assms(1)] by blast
  obtain m' where m': "fold_available p cells base (m OR (if b then one_bit j else 0)) js = Ret m'"
    "\<forall>i. bit m' i \<longleftrightarrow> bit (m OR (if b then one_bit j else 0)) i \<or>
      i \<in> set js \<and> available p cells (base + word_of_nat i) = Ret True"
    using Cons by (metis list.set_intros(2))
  have "bit m' i \<longleftrightarrow> bit m i \<or> i \<in> set (j # js) \<and> available p cells (base + word_of_nat i) = Ret True" for i
    using m'(2) b j(1) by (auto simp: bit_or_iff bit_one_bit)
  with m'(1) show ?case
    by (simp add: add b)
qed simp

lemma active_loop_bits:
  assumes "\<forall>h. \<exists>st. status (cells h) = Ret st" and "\<forall>i\<in>set is. unat i < 64"
  shows "case active_loop p cells base m is of
      Panic \<Rightarrow> False
    | Ret (Inl e) \<Rightarrow> e = sbi_invalid_param \<and>
        (\<exists>i\<in>set is. 2 ^ 64 \<le> unat base + unat i \<or> \<not> assigned p (base + i))
    | Ret (Inr m') \<Rightarrow> (\<forall>i\<in>set is. unat base + unat i < 2 ^ 64 \<and> assigned p (base + i)) \<and>
        (\<forall>n. bit m' n \<longleftrightarrow> bit m n \<or>
          (\<exists>i\<in>set is. n = unat i \<and> available p cells (base + i) = Ret True))"
  using assms(2)
proof (induction "is" arbitrary: m)
  case (Cons j js)
  show ?case
  proof (cases "unat base + unat j < 2 ^ 64 \<and> assigned p (base + j)")
    case False
    then show ?thesis
      by (auto simp: checked_add_def not_less)
  next
    case True
    obtain b where b: "available p cells (base + j) = Ret b"
      using available_no_panic [OF assms(1)] by blast
    have j: "unat j < 64"
      using Cons.prems by simp
    let ?m = "if b then m OR one_bit (unat j) else m"
    have step: "active_loop p cells base m (j # js) = active_loop p cells base ?m js"
      using True by (simp add: checked_add_def b)
    have bits: "bit ?m n \<longleftrightarrow> bit m n \<or> n = unat j \<and> available p cells (base + j) = Ret True" for n
      using j by (auto simp: bit_or_iff bit_one_bit b)
    show ?thesis
      unfolding step using Cons.IH [of ?m] Cons.prems True
      by (cases "active_loop p cells base ?m js") (auto simp: bits simp del: if_split split: sum.splits)
  qed
qed simp

lemma chunks_one: "xs \<noteq> [] \<Longrightarrow> length xs \<le> n \<Longrightarrow> chunks n xs = [xs]"
  by (subst chunks.simps, subst chunks.simps) (auto simp: Suc_le_eq intro: Nat.gr0I)

lemma req_harts_window:
  assumes "base \<noteq> usize_MAX" and "\<forall>i. bit m i \<longrightarrow> unat base + i < 2 ^ 64"
  shows "\<exists>hs. req_harts \<lparr>req_mask = m, req_base = base\<rparr> = Ret hs \<and> sorted hs \<and> distinct hs \<and>
    set hs = {h. \<exists>i. bit m i \<and> unat h = unat base + i}"
proof -
  have "mask_fits m base"
    using assms(2) by (simp add: mask_fits_def set_bit_list)
  then show ?thesis
    using assms(1)
    by (simp add: req_harts_def hart_mask_iter_def hart_mask_from_mask_base_def IGNORE_MASK_def
        hart_ids_collect_MaskBase mask_ids_sorted_distinct set_mask_ids)
qed

lemma flat_harts_window:
  assumes "base \<noteq> usize_MAX" and "\<forall>i. bit m i \<longrightarrow> unat base + i < 2 ^ 64"
  shows "\<exists>hs. flat_harts (if m \<noteq> 0 then [\<lparr>req_mask = m, req_base = base\<rparr>] else []) = Ret hs \<and>
    sorted hs \<and> distinct hs \<and> set hs = {h. \<exists>i. bit m i \<and> unat h = unat base + i}"
proof (cases "m = 0")
  case False
  with req_harts_window [OF assms] show ?thesis
    by auto
qed simp

lemma unat_bit_index: "bit (m :: usize) i \<Longrightarrow> i < 64"
  using bit_imp_le_length [of m i] by simp

lemma mask_bits: 
  "hart_ids_collect (hart_mask_iter (hart_mask_from_mask_base m 0)) = Ret (map word_of_nat (bit_list m))"
proof -
  have "mask_fits m 0"
    by (auto simp: mask_fits_def set_bit_list dest: unat_bit_index)
  then show ?thesis
    by (simp add: hart_mask_iter_def hart_mask_from_mask_base_def IGNORE_MASK_def
        hart_ids_collect_MaskBase mask_ids_def)
qed

definition target_set :: "platform \<Rightarrow> hart_cells \<Rightarrow> HartMask \<Rightarrow> usize set" where
  "target_set p cells m = {h. hart_mask_has_bit m h \<and> available p cells h = Ret True}"

lemma target_requests_all:
  assumes "\<forall>h. \<exists>st. status (cells h) = Ret st" and "length (enabled_harts p) = NUM_HART_MAX"
    and "hart_mask_base m = IGNORE_MASK"
  shows "\<exists>rs hs. target_requests p cells m = Ret (Inr rs) \<and> flat_harts rs = Ret hs \<and>
    sorted hs \<and> distinct hs \<and> set hs = target_set p cells m"
proof -
  have ch: "chunks usize_BITS (enabled_harts p) = [enabled_harts p]"
    using assms(2) by (intro chunks_one) (auto simp: NUM_HART_MAX_def)
  obtain m' where m': "fold_available p cells 0 0 [0..<NUM_HART_MAX] = Ret m'"
    "\<forall>i. bit m' i \<longleftrightarrow> i < NUM_HART_MAX \<and> available p cells (word_of_nat i) = Ret True"
    using fold_available_bits [OF assms(1), of "[0..<NUM_HART_MAX]" 0 p 0] by (auto simp: NUM_HART_MAX_def)
  then have fit: "\<forall>i. bit m' i \<longrightarrow> unat (0 :: usize) + i < 2 ^ 64"
    by (auto simp: NUM_HART_MAX_def)
  let ?rs = "if m' \<noteq> 0 then [\<lparr>req_mask = m', req_base = 0\<rparr>] else []"
  have run: "target_requests p cells m = Ret (Inr ?rs)"
    using assms(2,3) m'(1)
    by (simp add: target_requests_def hart_mask_into_inner_def IGNORE_MASK_def ch enumerate_eq_zip)
  obtain hs where hs: "flat_harts ?rs = Ret hs" "sorted hs" "distinct hs"
    "set hs = {h. \<exists>i. bit m' i \<and> unat h = unat (0 :: usize) + i}"
    using flat_harts_window [OF _ fit] by auto
  have "(\<exists>i. bit m' i \<and> unat h = i) \<longleftrightarrow> available p cells h = Ret True" for h
    using m'(2) available_True [of p cells h] by auto
  then have "set hs = target_set p cells m"
    using hs(4) assms(3) by (simp add: target_set_def hart_mask_has_bit_iff)
  with run hs show ?thesis
    by blast
qed

lemma target_requests_mask:
  assumes "\<forall>h. \<exists>st. status (cells h) = Ret st" and "hart_mask_base m \<noteq> IGNORE_MASK"
  shows "case target_requests p cells m of
      Panic \<Rightarrow> False
    | Ret (Inl e) \<Rightarrow> e = sbi_invalid_param \<and>
        (\<exists>i. bit (hart_mask m) i \<and> (2 ^ 64 \<le> unat (hart_mask_base m) + i \<or>
          \<not> assigned p (hart_mask_base m + word_of_nat i)))
    | Ret (Inr rs) \<Rightarrow> (\<forall>i. bit (hart_mask m) i \<longrightarrow> unat (hart_mask_base m) + i < 2 ^ 64 \<and>
          assigned p (hart_mask_base m + word_of_nat i)) \<and>
        (\<exists>hs. flat_harts rs = Ret hs \<and> sorted hs \<and> distinct hs \<and> set hs = target_set p cells m)"
proof -
  let ?m = "hart_mask m" and ?b = "hart_mask_base m"
  let ?is = "map word_of_nat (bit_list ?m) :: usize list"
  have un: "unat (word_of_nat i :: usize) = i" if "bit ?m i" for i
    using unat_bit_pos [OF that] .
  have b: "?b \<noteq> usize_MAX"
    using assms(2) by (simp add: IGNORE_MASK_def)
  have has: "hart_mask_has_bit m h \<longleftrightarrow> (\<exists>i. bit ?m i \<and> unat h = unat ?b + i)" for h
    using assms(2) by (simp add: hart_mask_has_bit_iff)
  show ?thesis
  proof (cases "?m = 0")
    case True
    then show ?thesis
      using b has by (simp add: target_requests_def hart_mask_into_inner_def target_set_def)
  next
    case False
    let ?r = "active_loop p cells ?b 0 ?is"
    have run: "target_requests p cells m = omap (\<lambda>r. case r of Inl e \<Rightarrow> Inl e
        | Inr active \<Rightarrow> Inr (if active \<noteq> 0 then [\<lparr>req_mask = active, req_base = ?b\<rparr>] else [])) ?r"
      using False b by (simp add: target_requests_def hart_mask_into_inner_def mask_bits)
    note loop = active_loop_bits [OF assms(1), of ?is]
    have small: "\<forall>i\<in>set ?is. unat i < 64"
      by (auto simp: set_bit_list un dest: unat_bit_index)
    show ?thesis
    proof (cases ?r)
      case Panic
      then show ?thesis
        using loop [OF small, where p = p and base = ?b and m = 0] by simp
    next
      case (Ret r)
      show ?thesis
      proof (cases r)
        case (Inl e)
        then show ?thesis
          using loop [OF small, where p = p and base = ?b and m = 0] by (auto simp: run Ret set_bit_list un)
      next
        case (Inr a)
        then have ok: "unat ?b + i < 2 ^ 64 \<and> assigned p (?b + word_of_nat i)" if "bit ?m i" for i
          using loop [OF small, where p = p and base = ?b and m = 0] that by (auto simp: Ret set_bit_list un)
        have bits: "bit a n \<longleftrightarrow> bit ?m n \<and> available p cells (?b + word_of_nat n) = Ret True" for n
          using loop [OF small, where p = p and base = ?b and m = 0] Inr by (auto simp: Ret set_bit_list un)
        have at: "h = ?b + word_of_nat i" if "bit ?m i" "unat h = unat ?b + i" for h i
        proof -
          have "unat (?b + word_of_nat i) = unat ?b + i"
            using ok [OF that(1)] un [OF that(1)] unat_add_no_ovf [of ?b "word_of_nat i"] by simp
          with that(2) have "unat h = unat (?b + word_of_nat i)"
            by (simp only:)
          then show ?thesis
            by (rule unat_eq_iff [THEN iffD1])
        qed
        obtain hs where hs: "flat_harts (if a \<noteq> 0 then [\<lparr>req_mask = a, req_base = ?b\<rparr>] else []) = Ret hs"
          "sorted hs" "distinct hs" "set hs = {h. \<exists>i. bit a i \<and> unat h = unat ?b + i}"
          using flat_harts_window [OF b, of a] ok bits by blast
        have "set hs = target_set p cells m"
          unfolding hs(4) target_set_def using bits at has by blast
        then show ?thesis
          using hs(1-3) ok by (auto simp: run Ret Inr)
      qed
    qed
  qed
qed

section \<open>The extension\<close>

definition mark_soft :: "usize list \<Rightarrow> ipi_types \<Rightarrow> ipi_types" where
  "mark_soft hs ipi = (\<lambda>h. if h \<in> unat ` set hs then ipi h OR IPI_TYPE_SSOFT else ipi h)"

lemma fold_set_ipi_type:
  "fold (\<lambda>h ipi. set_ipi_type ipi (unat h) IPI_TYPE_SSOFT) hs ipi = mark_soft hs ipi"
proof (induction hs arbitrary: ipi)
  case (Cons a hs)
  then show ?case
    by (auto simp: mark_soft_def set_ipi_type_def fun_eq_iff or.assoc)
qed (simp add: mark_soft_def)

lemma mark_soft_append: "mark_soft (hs @ ks) ipi = mark_soft ks (mark_soft hs ipi)"
  by (auto simp: mark_soft_def fun_eq_iff or.assoc)

lemma mark_soft_at: "mark_soft hs ipi h = ipi h \<or> h \<in> unat ` set hs \<and> mark_soft hs ipi h = ipi h OR IPI_TYPE_SSOFT"
  by (simp add: mark_soft_def)

lemma send_loop_marks:
  assumes "flat_harts rs = Ret hs"
  shows "\<exists>r ks js. send_loop device ipi rs = Ret (r, mark_soft ks ipi) \<and> hs = ks @ js \<and>
    (if \<forall>r\<in>set rs. device r then r = sbi_success 0 \<and> js = [] else r = sbi_failed)"
  using assms
proof (induction rs arbitrary: hs ipi)
  case Nil
  then show ?case
    by (simp add: mark_soft_def)
next
  case (Cons q rs)
  then obtain xs ys where xs: "req_harts q = Ret xs" and ys: "flat_harts rs = Ret ys" "hs = xs @ ys"
    by (cases "flat_harts rs") (auto simp: obind_eq_Ret)
  show ?case
  proof (cases "device q")
    case True
    obtain r ks js where r: "send_loop device (mark_soft xs ipi) rs = Ret (r, mark_soft ks (mark_soft xs ipi))"
      "ys = ks @ js" "if \<forall>r\<in>set rs. device r then r = sbi_success 0 \<and> js = [] else r = sbi_failed"
      using Cons.IH [OF ys(1), of "mark_soft xs ipi"] by blast
    then have "send_loop device ipi (q # rs) = Ret (r, mark_soft (xs @ ks) ipi)"
      by (simp add: xs True fold_set_ipi_type mark_soft_append)
    with r(2,3) ys(2) True show ?thesis
      by (intro exI [of _ r] exI [of _ "xs @ ks"] exI [of _ js]) simp
  next
    case False
    then show ?thesis
      using ys(2) by (auto simp: xs fold_set_ipi_type)
  qed
qed



end
