(* ===== verification/Rfence.thy ===== *)
theory Rfence
  imports Sbi_Ret Pmu
begin

text \<open>
  The SBI remote fence extension: \<open>firmware/prototyper/src/sbi/rfence.rs\<close> with the fence
  instructions of \<open>firmware/prototyper/src/riscv/csr.rs\<close> and the per-hart queue of
  \<open>rfence/queue.rs\<close>. The feature \<open>hypervisor\<close> is enabled, so that all seven kinds of
  fence are present.

  A fence instruction is a value of \<open>fence_insn\<close>; the handler counts its firmware event on the
  PMU state of the hart (\<open>has_pmu\<close>: a PMU is published) and returns the instructions it
  executes, in order. \<open>PAGE_SIZE\<close> and \<open>TLB_FLUSH_LIMIT\<close> are
  read from the board configuration, which the build generates, and are the parameter
  \<open>config\<close>. The protocol between the harts is in \<open>Rfence_Protocol\<close>.
\<close>

section \<open>Requests\<close>

record config =
  PAGE_SIZE :: usize
  TLB_FLUSH_LIMIT :: usize

datatype RFenceType =
  FenceI | SFenceVma | SFenceVmaAsid | HFenceGvmaVmid | HFenceGvma | HFenceVvmaAsid | HFenceVvma

record RFenceContext =
  rf_start_addr :: usize
  rf_size :: usize
  rf_asid :: usize
  rf_vmid :: usize
  rf_op :: RFenceType

definition validate_address_range :: "config \<Rightarrow> usize \<Rightarrow> usize \<Rightarrow> sbi_ret + usize" where
  "validate_address_range cfg start len =
     (if \<not> ((start = 0 \<and> len = 0) \<or> len = usize_MAX) \<and> start AND (PAGE_SIZE cfg - 1) \<noteq> 0
      then Inl sbi_invalid_address
      else if usize_MAX - len < start then Inl sbi_invalid_address
      else Inr len)"

text \<open>
  The entry points: the PMU state after the firmware event is counted, and the request that is
  processed or the error that is returned. \<open>hyp\<close> tells whether the current hart has the
  hypervisor extension.
\<close>

definition remote_fence_i :: "bool \<Rightarrow> PmuState \<Rightarrow> (PmuState \<times> (sbi_ret + RFenceContext)) outcome" where
  "remote_fence_i has_pmu st =
     omap (\<lambda>st. (st, Inr \<lparr>rf_start_addr = 0, rf_size = 0, rf_asid = 0, rf_vmid = 0, rf_op = FenceI\<rparr>))
       (pmu_firmware_counter_increment has_pmu st FENCE_I_SENT)"

definition remote_sfence_vma :: "config \<Rightarrow> bool \<Rightarrow> PmuState \<Rightarrow> usize \<Rightarrow> usize \<Rightarrow> (PmuState \<times> (sbi_ret + RFenceContext)) outcome" where
  "remote_sfence_vma cfg has_pmu st start len =
     obind (pmu_firmware_counter_increment has_pmu st SFENCE_VMA_SENT) (\<lambda>st. Ret (st,
     (case validate_address_range cfg start len of
        Inl e \<Rightarrow> Inl e
      | Inr flush_size \<Rightarrow> Inr \<lparr>rf_start_addr = start, rf_size = flush_size, rf_asid = 0, rf_vmid = 0,
          rf_op = SFenceVma\<rparr>)))"

definition remote_sfence_vma_asid ::
    "config \<Rightarrow> bool \<Rightarrow> PmuState \<Rightarrow> usize \<Rightarrow> usize \<Rightarrow> usize \<Rightarrow> (PmuState \<times> (sbi_ret + RFenceContext)) outcome" where
  "remote_sfence_vma_asid cfg has_pmu st start len asid =
     obind (pmu_firmware_counter_increment has_pmu st SFENCE_VMA_ASID_SENT) (\<lambda>st. Ret (st,
     (case validate_address_range cfg start len of
        Inl e \<Rightarrow> Inl e
      | Inr flush_size \<Rightarrow> Inr \<lparr>rf_start_addr = start, rf_size = flush_size, rf_asid = asid, rf_vmid = 0,
          rf_op = SFenceVmaAsid\<rparr>)))"

definition remote_hfence_gvma_vmid ::
    "config \<Rightarrow> bool \<Rightarrow> PmuState \<Rightarrow> bool \<Rightarrow> usize \<Rightarrow> usize \<Rightarrow> usize \<Rightarrow> (PmuState \<times> (sbi_ret + RFenceContext)) outcome" where
  "remote_hfence_gvma_vmid cfg has_pmu st hyp start len vmid =
     (if \<not> hyp then Ret (st, Inl sbi_not_supported)
      else obind (pmu_firmware_counter_increment has_pmu st HFENCE_GVMA_VMID_SENT) (\<lambda>st. Ret (st,
        (case validate_address_range cfg start len of
           Inl e \<Rightarrow> Inl e
         | Inr flush_size \<Rightarrow> Inr \<lparr>rf_start_addr = start, rf_size = flush_size, rf_asid = 0, rf_vmid = vmid,
             rf_op = HFenceGvmaVmid\<rparr>))))"

definition remote_hfence_gvma ::
    "config \<Rightarrow> bool \<Rightarrow> PmuState \<Rightarrow> bool \<Rightarrow> usize \<Rightarrow> usize \<Rightarrow> (PmuState \<times> (sbi_ret + RFenceContext)) outcome" where
  "remote_hfence_gvma cfg has_pmu st hyp start len =
     (if \<not> hyp then Ret (st, Inl sbi_not_supported)
      else obind (pmu_firmware_counter_increment has_pmu st HFENCE_GVMA_SENT) (\<lambda>st. Ret (st,
        (case validate_address_range cfg start len of
           Inl e \<Rightarrow> Inl e
         | Inr flush_size \<Rightarrow> Inr \<lparr>rf_start_addr = start, rf_size = flush_size, rf_asid = 0, rf_vmid = 0,
             rf_op = HFenceGvma\<rparr>))))"

definition remote_hfence_vvma_asid ::
    "config \<Rightarrow> bool \<Rightarrow> PmuState \<Rightarrow> bool \<Rightarrow> usize \<Rightarrow> usize \<Rightarrow> usize \<Rightarrow> (PmuState \<times> (sbi_ret + RFenceContext)) outcome" where
  "remote_hfence_vvma_asid cfg has_pmu st hyp start len asid =
     (if \<not> hyp then Ret (st, Inl sbi_not_supported)
      else obind (pmu_firmware_counter_increment has_pmu st HFENCE_VVMA_ASID_SENT) (\<lambda>st. Ret (st,
        (case validate_address_range cfg start len of
           Inl e \<Rightarrow> Inl e
         | Inr flush_size \<Rightarrow> Inr \<lparr>rf_start_addr = start, rf_size = flush_size, rf_asid = asid, rf_vmid = 0,
             rf_op = HFenceVvmaAsid\<rparr>))))"

definition remote_hfence_vvma ::
    "config \<Rightarrow> bool \<Rightarrow> PmuState \<Rightarrow> bool \<Rightarrow> usize \<Rightarrow> usize \<Rightarrow> (PmuState \<times> (sbi_ret + RFenceContext)) outcome" where
  "remote_hfence_vvma cfg has_pmu st hyp start len =
     (if \<not> hyp then Ret (st, Inl sbi_not_supported)
      else obind (pmu_firmware_counter_increment has_pmu st HFENCE_VVMA_SENT) (\<lambda>st. Ret (st,
        (case validate_address_range cfg start len of
           Inl e \<Rightarrow> Inl e
         | Inr flush_size \<Rightarrow> Inr \<lparr>rf_start_addr = start, rf_size = flush_size, rf_asid = 0, rf_vmid = 0,
             rf_op = HFenceVvma\<rparr>))))"

section \<open>Execution on a hart\<close>

text \<open>An operand that is \<open>x0\<close> is \<open>None\<close>.\<close>

datatype fence_insn =
    fence_i
  | sfence_vma "usize option" "usize option"
  | hfence_gvma "usize option" "usize option"
  | hfence_vvma "usize option" "usize option"

definition full_flush :: "config \<Rightarrow> RFenceContext \<Rightarrow> bool" where
  "full_flush cfg ctx \<longleftrightarrow> (rf_start_addr ctx = 0 \<and> rf_size ctx = 0) \<or> rf_size ctx = usize_MAX \<or>
     (TLB_FLUSH_LIMIT cfg < rf_size ctx \<and> rf_size ctx \<noteq> usize_MAX)"

text \<open>\<open>(0..n).step_by(p)\<close> for a positive step.\<close>

definition step_by :: "nat \<Rightarrow> nat \<Rightarrow> nat list" where
  "step_by n p = map (\<lambda>i. i * p) [0..<(n + p - 1) div p]"

text \<open>
  The common shape of the arms: \<open>f None\<close> for a full flush, otherwise \<open>f (Some addr)\<close> page by
  page; \<open>step_by\<close> panics on a zero step.
\<close>

definition flush_pages :: "config \<Rightarrow> RFenceContext \<Rightarrow> (usize option \<Rightarrow> fence_insn) \<Rightarrow> fence_insn list outcome" where
  "flush_pages cfg ctx f =
     (if full_flush cfg ctx then Ret [f None]
      else if PAGE_SIZE cfg = 0 then Panic
      else Ret (map (\<lambda>offset. f (Some (rf_start_addr ctx + word_of_nat offset)))
             (step_by (unat (rf_size ctx)) (unat (PAGE_SIZE cfg)))))"

definition rfence_local_handler :: "config \<Rightarrow> bool \<Rightarrow> PmuState \<Rightarrow> RFenceContext \<Rightarrow> (PmuState \<times> fence_insn list) outcome" where
  "rfence_local_handler cfg has_pmu st ctx =
     (case rf_op ctx of
        FenceI \<Rightarrow>
          obind (pmu_firmware_counter_increment has_pmu st FENCE_I_RECEIVED) (\<lambda>st. Ret (st, [fence_i]))
      | SFenceVma \<Rightarrow>
          obind (pmu_firmware_counter_increment has_pmu st SFENCE_VMA_RECEIVED) (\<lambda>st.
            omap (Pair st) (flush_pages cfg ctx (\<lambda>a. sfence_vma a None)))
      | SFenceVmaAsid \<Rightarrow>
          obind (pmu_firmware_counter_increment has_pmu st SFENCE_VMA_ASID_RECEIVED) (\<lambda>st.
            omap (Pair st) (flush_pages cfg ctx (\<lambda>a. sfence_vma a (Some (rf_asid ctx)))))
      | HFenceGvmaVmid \<Rightarrow>
          obind (pmu_firmware_counter_increment has_pmu st HFENCE_GVMA_VMID_RECEIVED) (\<lambda>st.
            omap (Pair st) (flush_pages cfg ctx (\<lambda>a. hfence_gvma a (Some (rf_vmid ctx)))))
      | HFenceGvma \<Rightarrow>
          obind (pmu_firmware_counter_increment has_pmu st HFENCE_GVMA_RECEIVED) (\<lambda>st.
            omap (Pair st) (flush_pages cfg ctx (\<lambda>a. hfence_gvma a None)))
      | HFenceVvmaAsid \<Rightarrow>
          obind (pmu_firmware_counter_increment has_pmu st HFENCE_VVMA_ASID_RECEIVED) (\<lambda>st.
            omap (Pair st) (flush_pages cfg ctx (\<lambda>a. hfence_vvma a (Some (rf_asid ctx)))))
      | HFenceVvma \<Rightarrow>
          obind (pmu_firmware_counter_increment has_pmu st HFENCE_VVMA_RECEIVED) (\<lambda>st.
            omap (Pair st) (flush_pages cfg ctx (\<lambda>a. hfence_vvma a None))))"

section \<open>The queue of a hart\<close>

definition QUEUE_CAP :: nat where "QUEUE_CAP = 16"

record RFenceCell =
  queue :: "(RFenceContext \<times> nat) list"
  wait_sync_count :: u32

definition rfence_cell_new :: RFenceCell where
  "rfence_cell_new = \<lparr>queue = [], wait_sync_count = 0\<rparr>"

text \<open>\<open>locked\<close>: another hart holds the lock of the queue.\<close>

definition try_push :: "bool \<Rightarrow> RFenceCell \<Rightarrow> RFenceContext \<times> nat \<Rightarrow> bool \<times> RFenceCell" where
  "try_push locked c item =
     (if locked then (False, c)
      else if QUEUE_CAP \<le> length (queue c) then (False, c)
      else (True, c\<lparr>queue := queue c @ [item]\<rparr>))"

definition is_sync :: "RFenceCell \<Rightarrow> bool" where
  "is_sync c \<longleftrightarrow> wait_sync_count c = 0"

definition add :: "RFenceCell \<Rightarrow> RFenceCell" where
  "add c = c\<lparr>wait_sync_count := wait_sync_count c + 1\<rparr>"

definition get :: "RFenceCell \<Rightarrow> (RFenceContext \<times> nat) option \<times> RFenceCell" where
  "get c = (case queue c of [] \<Rightarrow> (None, c) | x # q \<Rightarrow> (Some x, c\<lparr>queue := q\<rparr>))"

fun remove_source :: "nat \<Rightarrow> (RFenceContext \<times> nat) list \<Rightarrow> (RFenceContext \<times> nat) list option" where
  "remove_source source [] = None"
| "remove_source source (x # q) =
     (if snd x = source then Some q else map_option (Cons x) (remove_source source q))"

definition cancel :: "RFenceCell \<Rightarrow> nat \<Rightarrow> bool \<times> RFenceCell" where
  "cancel c source =
     (case remove_source source (queue c) of None \<Rightarrow> (False, c) | Some q \<Rightarrow> (True, c\<lparr>queue := q\<rparr>))"

definition sub :: "RFenceCell \<Rightarrow> RFenceCell" where
  "sub c = c\<lparr>wait_sync_count := wait_sync_count c - 1\<rparr>"

section \<open>A local fence covers the requested range\<close>

text \<open>The instruction fences address \<open>a\<close> for the operation of the request: right kind, right
  address space, and either every address or the page of \<open>a\<close>.\<close>

definition same_page :: "config \<Rightarrow> usize \<Rightarrow> usize option \<Rightarrow> bool" where
  "same_page cfg a operand \<longleftrightarrow>
     (case operand of None \<Rightarrow> True | Some b \<Rightarrow> unat a div unat (PAGE_SIZE cfg) = unat b div unat (PAGE_SIZE cfg))"

fun fences :: "config \<Rightarrow> RFenceContext \<Rightarrow> usize \<Rightarrow> fence_insn \<Rightarrow> bool" where
  "fences cfg ctx a fence_i \<longleftrightarrow> rf_op ctx = FenceI"
| "fences cfg ctx a (sfence_vma b asid) \<longleftrightarrow> same_page cfg a b \<and>
     (rf_op ctx = SFenceVma \<and> asid = None \<or> rf_op ctx = SFenceVmaAsid \<and> asid = Some (rf_asid ctx))"
| "fences cfg ctx a (hfence_gvma b vmid) \<longleftrightarrow> same_page cfg a b \<and>
     (rf_op ctx = HFenceGvma \<and> vmid = None \<or> rf_op ctx = HFenceGvmaVmid \<and> vmid = Some (rf_vmid ctx))"
| "fences cfg ctx a (hfence_vvma b asid) \<longleftrightarrow> same_page cfg a b \<and>
     (rf_op ctx = HFenceVvma \<and> asid = None \<or> rf_op ctx = HFenceVvmaAsid \<and> asid = Some (rf_asid ctx))"

text \<open>The firmware event of the execution of a request.\<close>

fun received_event :: "RFenceType \<Rightarrow> usize" where
  "received_event FenceI = FENCE_I_RECEIVED"
| "received_event SFenceVma = SFENCE_VMA_RECEIVED"
| "received_event SFenceVmaAsid = SFENCE_VMA_ASID_RECEIVED"
| "received_event HFenceGvmaVmid = HFENCE_GVMA_VMID_RECEIVED"
| "received_event HFenceGvma = HFENCE_GVMA_RECEIVED"
| "received_event HFenceVvmaAsid = HFENCE_VVMA_ASID_RECEIVED"
| "received_event HFenceVvma = HFENCE_VVMA_RECEIVED"

definition in_range :: "RFenceContext \<Rightarrow> usize \<Rightarrow> bool" where
  "in_range ctx a \<longleftrightarrow> (rf_start_addr ctx = 0 \<and> rf_size ctx = 0) \<or> rf_size ctx = usize_MAX \<or>
     unat (rf_start_addr ctx) \<le> unat a \<and> unat a < unat (rf_start_addr ctx) + unat (rf_size ctx)"

lemma set_step_by:
  assumes "0 < p"
  shows "set (step_by n p) = {i * p | i. i * p < n}"
proof -
  have "i < (n + p - 1) div p \<longleftrightarrow> i * p < n" for i
  proof -
    have "i < (n + p - 1) div p \<longleftrightarrow> Suc i * p \<le> n + p - 1"
      using assms by (simp add: less_eq_div_iff_mult_less_eq flip: Suc_le_eq)
    also have "\<dots> \<longleftrightarrow> i * p < n"
      using assms by auto
    finally show ?thesis .
  qed
  then show ?thesis
    by (auto simp: step_by_def)
qed

lemma page_aligned:
  assumes "PAGE_SIZE cfg = one_bit k" and "k < 64"
  shows "a AND (PAGE_SIZE cfg - 1) = 0 \<longleftrightarrow> unat (PAGE_SIZE cfg) dvd unat a"
proof -
  have "PAGE_SIZE cfg - 1 = mask k"
    using assms(1) by (simp add: one_bit_eq_power mask_eq_exp_minus_1)
  then have "a AND (PAGE_SIZE cfg - 1) = take_bit k a"
    by (simp add: take_bit_eq_mask)
  moreover have "unat (take_bit k a) = unat a mod 2 ^ k"
    unfolding unsigned_take_bit_eq by (rule take_bit_eq_mod)
  moreover have "unat (PAGE_SIZE cfg) = 2 ^ k"
    using assms by (simp add: unat_one_bit)
  ultimately show ?thesis
    by (metis dvd_eq_mod_eq_0 unat_eq_zero)
qed

lemma flush_pages_cover:
  assumes page: "PAGE_SIZE cfg = one_bit k" "k < 64"
    and ok: "validate_address_range cfg (rf_start_addr ctx) (rf_size ctx) = Inr n"
  shows "\<exists>fs. flush_pages cfg ctx f = Ret fs \<and>
    (\<forall>a. in_range ctx a \<longrightarrow> (\<exists>b. same_page cfg a b \<and> f b \<in> set fs)) \<and> set fs \<subseteq> range f"
proof (cases "full_flush cfg ctx")
  case True
  moreover have "same_page cfg a None" for a
    by (simp add: same_page_def)
  ultimately show ?thesis
    by (auto simp: flush_pages_def)
next
  case False
  let ?s = "rf_start_addr ctx" and ?p = "unat (PAGE_SIZE cfg)"
  have p: "?p = 2 ^ k" "0 < ?p"
    using page by (simp_all add: unat_one_bit)
  have al: "?p dvd unat ?s"
    using ok False page_aligned [OF page, of ?s]
    by (auto simp: validate_address_range_def full_flush_def split: if_splits)
  have nowrap: "unat ?s + unat (rf_size ctx) < 2 ^ 64"
  proof -
    have "?s \<le> usize_MAX - rf_size ctx"
      using ok by (auto simp: validate_address_range_def not_less split: if_splits)
    moreover have "unat (usize_MAX - rf_size ctx) = unat usize_MAX - unat (rf_size ctx)"
      by (rule unat_sub) simp
    ultimately show ?thesis
      using unat_usize [of "rf_size ctx"] by (simp add: word_le_nat_alt unat_usize_MAX)
  qed
  have ex: "\<exists>off\<in>set (step_by (unat (rf_size ctx)) ?p). same_page cfg a (Some (?s + word_of_nat off))"
    if "in_range ctx a" for a
  proof -
    have a: "unat ?s \<le> unat a" "unat a < unat ?s + unat (rf_size ctx)"
      using that False by (auto simp: in_range_def full_flush_def)
    define off where "off = (unat a - unat ?s) div ?p * ?p"
    have "off \<le> unat a - unat ?s"
      unfolding off_def by (rule div_times_less_eq_dividend)
    with a have off: "off < unat (rf_size ctx)"
      by linarith
    then have "unat (?s + word_of_nat off) = unat ?s + off"
      using nowrap unat_add_no_ovf [of ?s "word_of_nat off"]
      by (simp add: unat_of_nat take_bit_nat_eq_self)
    moreover have "(unat ?s + off) div ?p = unat a div ?p"
    proof -
      obtain q where q: "unat ?s = ?p * q"
        using al by blast
      have "(unat ?s + off) div ?p = q + (unat a - unat ?s) div ?p"
        using p(2) by (simp add: q off_def)
      also have "\<dots> = (unat ?s + (unat a - unat ?s)) div ?p"
        using p(2) by (simp add: q)
      finally show ?thesis
        using a(1) by simp
    qed
    ultimately have "same_page cfg a (Some (?s + word_of_nat off))"
      by (simp add: same_page_def)
    moreover have "off \<in> set (step_by (unat (rf_size ctx)) ?p)"
      using off p(2) unfolding set_step_by [OF p(2)] off_def by blast
    ultimately show ?thesis
      by blast
  qed
  have "PAGE_SIZE cfg \<noteq> 0"
    using p(2) by auto
  with False show ?thesis
    using ex by (fastforce simp: flush_pages_def)
qed



text \<open>Every request the entry points process has passed the address check.\<close>

lemma requests_validated:
  assumes "q = Ret (st', Inr ctx)" and "q \<in> {remote_fence_i has_pmu st, remote_sfence_vma cfg has_pmu st start len,
    remote_sfence_vma_asid cfg has_pmu st start len asid,
    remote_hfence_gvma_vmid cfg has_pmu st hyp start len vmid,
    remote_hfence_gvma cfg has_pmu st hyp start len,
    remote_hfence_vvma_asid cfg has_pmu st hyp start len asid,
    remote_hfence_vvma cfg has_pmu st hyp start len}"
  shows "\<exists>n. validate_address_range cfg (rf_start_addr ctx) (rf_size ctx) = Inr n"
proof -
  have len: "validate_address_range cfg start len = Inr n \<Longrightarrow> validate_address_range cfg start n = Inr n" for n
    by (metis (no_types, lifting) validate_address_range_def sum.distinct(1) sum.inject(2))
  have zero: "validate_address_range cfg 0 0 = Inr 0"
    by (simp add: validate_address_range_def)
  show ?thesis
    using assms zero unfolding insert_iff empty_iff
    by (elim disjE) (auto simp: obind_eq_Ret omap_eq_Ret remote_fence_i_def remote_sfence_vma_def remote_sfence_vma_asid_def
        remote_hfence_gvma_vmid_def remote_hfence_gvma_def remote_hfence_vvma_asid_def
        remote_hfence_vvma_def dest: len split: if_splits sum.splits)
qed

end
