(* ===== verification/Rfence_Protocol.thy ===== *)
theory Rfence_Protocol
  imports Rfence Ipi_Targets
begin

text \<open>
  The remote fence protocol between harts: \<open>send_ipi_by_fence\<close> and \<open>deliver_current\<close> of
  \<open>firmware/prototyper/src/sbi/ipi.rs\<close> with \<open>rfence_poll\<close>, \<open>rfence_single_handler\<close> and
  \<open>rfence_handler\<close> of \<open>rfence.rs\<close>, as a step relation in which every access to state that
  harts share (a queue, a counter, the pending IPI types) is one step, so that the steps of all
  harts interleave freely.

  \<open>pcs\<close> is where a hart stands in the sender's loop or in \<open>deliver_current\<close>; \<open>jobs\<close> is where it
  stands in the handler of a single request, which the sender also calls while it waits. A
  device error is a free choice, as is a queue whose lock is taken. \<open>request\<close> and \<open>targets\<close> are
  the context and the target list of the hart's current call; \<open>fenced\<close> records which harts
  have executed the fence of that call. A hart in \<open>Idle\<close> runs the supervisor or is parked or
  suspended, where it takes IPIs.
\<close>

section \<open>The system\<close>

datatype rf_pc =
    Idle | Send "nat list" | Push nat "nat list" | Mark nat "nat list" | Signal nat "nat list"
  | Cancel nat | CancelSub | Wait bool | Done bool | Drain

datatype rf_job = NoJob | Poll | Pop | Exec RFenceContext nat | Ack nat

record rf_sys =
  rcells :: "nat \<Rightarrow> RFenceCell"
  ipi :: ipi_types
  pcs :: "nat \<Rightarrow> rf_pc"
  jobs :: "nat \<Rightarrow> rf_job"
  request :: "nat \<Rightarrow> RFenceContext"
  targets :: "nat \<Rightarrow> nat list"
  fenced :: "nat \<Rightarrow> (nat \<times> RFenceContext) set"

definition no_request :: RFenceContext where
  "no_request = \<lparr>rf_start_addr = 0, rf_size = 0, rf_asid = 0, rf_vmid = 0, rf_op = FenceI\<rparr>"

definition rf_init :: rf_sys where
  "rf_init = \<lparr>rcells = (\<lambda>_. rfence_cell_new), ipi = (\<lambda>_. 0), pcs = (\<lambda>_. Idle), jobs = (\<lambda>_. NoJob),
     request = (\<lambda>_. no_request), targets = (\<lambda>_. []), fenced = (\<lambda>_. {})\<rparr>"

definition set_pc :: "nat \<Rightarrow> rf_pc \<Rightarrow> rf_sys \<Rightarrow> rf_sys" where
  "set_pc t p s = s\<lparr>pcs := (pcs s)(t := p)\<rparr>"

definition set_job :: "nat \<Rightarrow> rf_job \<Rightarrow> rf_sys \<Rightarrow> rf_sys" where
  "set_job t j s = s\<lparr>jobs := (jobs s)(t := j)\<rparr>"

definition set_cell :: "nat \<Rightarrow> RFenceCell \<Rightarrow> rf_sys \<Rightarrow> rf_sys" where
  "set_cell h c s = s\<lparr>rcells := (rcells s)(h := c)\<rparr>"

definition add_fenced :: "nat \<Rightarrow> nat \<Rightarrow> RFenceContext \<Rightarrow> rf_sys \<Rightarrow> rf_sys" where
  "add_fenced src h ctx s = s\<lparr>fenced := (fenced s)(src := insert (h, ctx) (fenced s src))\<rparr>"

lemmas rf_sys_defs = set_pc_def set_job_def set_cell_def add_fenced_def

abbreviation harts :: "nat set" where "harts \<equiv> {..<NUM_HART_MAX}"

definition fence_pending :: "u8 \<Rightarrow> bool" where
  "fence_pending ty \<longleftrightarrow> ty AND IPI_TYPE_FENCE \<noteq> 0"

inductive rf_step :: "rf_sys \<Rightarrow> rf_sys \<Rightarrow> bool" where
  call:
    "t \<in> harts \<Longrightarrow> pcs s t = Idle \<Longrightarrow> jobs s t = NoJob \<Longrightarrow> distinct ts \<Longrightarrow> set ts \<subseteq> harts \<Longrightarrow>
     rf_step s (set_pc t (Send ts) (s\<lparr>request := (request s)(t := ctx), targets := (targets s)(t := ts),
       fenced := (fenced s)(t := {})\<rparr>))"
| send_local:
    "t \<in> harts \<Longrightarrow> pcs s t = Send (t # ts) \<Longrightarrow>
     rf_step s (set_pc t (Send ts) (add_fenced t t (request s t) s))"
| send_remote:
    "t \<in> harts \<Longrightarrow> pcs s t = Send (h # ts) \<Longrightarrow> h \<noteq> t \<Longrightarrow>
     rf_step s (set_pc t (Push h ts) (set_cell t (add (rcells s t)) s))"
| push_ok:
    "t \<in> harts \<Longrightarrow> pcs s t = Push h ts \<Longrightarrow> jobs s t = NoJob \<Longrightarrow>
     try_push False (rcells s h) (request s t, t) = (True, c) \<Longrightarrow>
     rf_step s (set_pc t (Mark h ts) (set_cell h c s))"
| push_fail:
    "t \<in> harts \<Longrightarrow> pcs s t = Push h ts \<Longrightarrow> jobs s t = NoJob \<Longrightarrow>
     try_push locked (rcells s h) (request s t, t) = (False, c) \<Longrightarrow>
     rf_step s (set_job t Poll s)"
| mark:
    "t \<in> harts \<Longrightarrow> pcs s t = Mark h ts \<Longrightarrow>
     rf_step s (set_pc t (Signal h ts) (s\<lparr>ipi := set_ipi_type (ipi s) h IPI_TYPE_FENCE\<rparr>))"
| signal_ok:
    "t \<in> harts \<Longrightarrow> pcs s t = Signal h ts \<Longrightarrow> rf_step s (set_pc t (Send ts) s)"
| signal_fail:
    "t \<in> harts \<Longrightarrow> pcs s t = Signal h ts \<Longrightarrow> rf_step s (set_pc t (Cancel h) s)"
| cancel_ok:
    "t \<in> harts \<Longrightarrow> pcs s t = Cancel h \<Longrightarrow> cancel (rcells s h) t = (True, c) \<Longrightarrow>
     rf_step s (set_pc t CancelSub (set_cell h c s))"
| cancel_gone:
    "t \<in> harts \<Longrightarrow> pcs s t = Cancel h \<Longrightarrow> cancel (rcells s h) t = (False, c) \<Longrightarrow>
     rf_step s (set_pc t (Wait False) s)"
| cancel_sub:
    "t \<in> harts \<Longrightarrow> pcs s t = CancelSub \<Longrightarrow>
     rf_step s (set_pc t (Wait False) (set_cell t (sub (rcells s t)) s))"
| send_end:
    "t \<in> harts \<Longrightarrow> pcs s t = Send [] \<Longrightarrow> rf_step s (set_pc t (Wait True) s)"
| wait_done:
    "t \<in> harts \<Longrightarrow> pcs s t = Wait r \<Longrightarrow> jobs s t = NoJob \<Longrightarrow> is_sync (rcells s t) \<Longrightarrow>
     rf_step s (set_pc t (Done r) s)"
| wait_poll:
    "t \<in> harts \<Longrightarrow> pcs s t = Wait r \<Longrightarrow> jobs s t = NoJob \<Longrightarrow> \<not> is_sync (rcells s t) \<Longrightarrow>
     rf_step s (set_job t Poll s)"
| return:
    "t \<in> harts \<Longrightarrow> pcs s t = Done r \<Longrightarrow> rf_step s (set_pc t Idle s)"
| poll_pending:
    "t \<in> harts \<Longrightarrow> jobs s t = Poll \<Longrightarrow> fence_pending (ipi s t) \<Longrightarrow> rf_step s (set_job t Pop s)"
| poll_none:
    "t \<in> harts \<Longrightarrow> jobs s t = Poll \<Longrightarrow> \<not> fence_pending (ipi s t) \<Longrightarrow> rf_step s (set_job t NoJob s)"
| pop_some:
    "t \<in> harts \<Longrightarrow> jobs s t = Pop \<Longrightarrow> get (rcells s t) = (Some (ctx, src), c) \<Longrightarrow>
     rf_step s (set_job t (Exec ctx src) (set_cell t c s))"
| pop_none:
    "t \<in> harts \<Longrightarrow> jobs s t = Pop \<Longrightarrow> get (rcells s t) = (None, c) \<Longrightarrow>
     rf_step s (set_job t NoJob (if pcs s t = Drain then set_pc t Idle s else s))"
| exec:
    "t \<in> harts \<Longrightarrow> jobs s t = Exec ctx src \<Longrightarrow>
     rf_step s (set_job t (Ack src) (add_fenced src t ctx s))"
| ack:
    "t \<in> harts \<Longrightarrow> jobs s t = Ack src \<Longrightarrow>
     rf_step s (set_job t (if pcs s t = Drain then Pop else NoJob) (set_cell src (sub (rcells s src)) s))"
| deliver:
    "t \<in> harts \<Longrightarrow> pcs s t = Idle \<Longrightarrow> jobs s t = NoJob \<Longrightarrow>
     get_and_reset_ipi_type (ipi s) t = (ty, ipi') \<Longrightarrow>
     rf_step s (if fence_pending ty then set_pc t Drain (set_job t Pop (s\<lparr>ipi := ipi'\<rparr>))
       else s\<lparr>ipi := ipi'\<rparr>)"
| soft:
    "t \<in> harts \<Longrightarrow> pcs s t = Idle \<Longrightarrow>
     rf_step s (s\<lparr>ipi := set_ipi_type (ipi s) h IPI_TYPE_SSOFT\<rparr>)"

inductive rf_reachable :: "rf_sys \<Rightarrow> bool" where
  init: "rf_reachable rf_init"
| step: "rf_reachable s \<Longrightarrow> rf_step s s' \<Longrightarrow> rf_reachable s'"

text \<open>The targets that a hart mask selects satisfy what \<open>call\<close> asks of its list.\<close>

lemma fence_targets_callable:
  assumes "\<forall>h. \<exists>st. status (cells h) = Ret st" and "length (enabled_harts p) = NUM_HART_MAX"
    and "target_requests p cells m = Ret (Inr rs)"
  shows "\<exists>hs. flat_harts rs = Ret hs \<and> distinct (map unat hs) \<and> set (map unat hs) \<subseteq> harts"
proof -
  obtain hs where hs: "flat_harts rs = Ret hs" "distinct hs" "set hs = target_set p cells m"
    using target_requests_all [OF assms(1,2), of m] target_requests_mask [OF assms(1), of m p] assms(3)
    by (cases "hart_mask_base m = IGNORE_MASK") auto
  then show ?thesis
    using available_True by (fastforce simp: distinct_map inj_on_def target_set_def)
qed

section \<open>Counting the requests of a hart\<close>

definition queued :: "nat \<Rightarrow> RFenceCell \<Rightarrow> nat" where
  "queued t c = length (filter (\<lambda>x. snd x = t) (queue c))"

fun busy :: "nat \<Rightarrow> rf_job \<Rightarrow> nat" where
  "busy t (Exec ctx src) = (if src = t then 1 else 0)"
| "busy t (Ack src) = (if src = t then 1 else 0)"
| "busy t j = 0"

fun own :: "rf_pc \<Rightarrow> nat" where
  "own (Push h ts) = 1"
| "own CancelSub = 1"
| "own p = 0"

definition load :: "rf_sys \<Rightarrow> nat \<Rightarrow> nat \<Rightarrow> nat" where
  "load s t h = queued t (rcells s h) + busy t (jobs s h)"

definition outstanding :: "rf_sys \<Rightarrow> nat \<Rightarrow> nat" where
  "outstanding s t = (\<Sum>h\<in>harts. load s t h) + own (pcs s t)"

fun todo :: "rf_pc \<Rightarrow> nat list" where
  "todo (Send ts) = ts"
| "todo (Push h ts) = ts"
| "todo (Mark h ts) = ts"
| "todo (Signal h ts) = ts"
| "todo p = []"

fun idle_pc :: "rf_pc \<Rightarrow> bool" where
  "idle_pc Idle = True"
| "idle_pc Drain = True"
| "idle_pc (Done r) = True"
| "idle_pc p = False"

lemma load_change:
  assumes "\<And>k. k \<in> harts \<Longrightarrow> k \<noteq> h \<Longrightarrow> load s' t k = load s t k" and "h \<in> harts"
  shows "(\<Sum>k\<in>harts. load s' t k) + load s t h = (\<Sum>k\<in>harts. load s t k) + load s' t h"
proof -
  have "(\<Sum>k\<in>harts. load s' t k) = load s' t h + (\<Sum>k\<in>harts - {h}. load s' t k)"
    and "(\<Sum>k\<in>harts. load s t k) = load s t h + (\<Sum>k\<in>harts - {h}. load s t k)"
    using assms(2) by (simp_all add: sum.remove)
  moreover have "(\<Sum>k\<in>harts - {h}. load s' t k) = (\<Sum>k\<in>harts - {h}. load s t k)"
    using assms(1) by (intro sum.cong) auto
  ultimately show ?thesis
    by simp
qed

section \<open>Well-formed control states\<close>

fun touched :: "rf_pc \<Rightarrow> nat set" where
  "touched (Send ts) = set ts"
| "touched (Push h ts) = insert h (set ts)"
| "touched (Mark h ts) = insert h (set ts)"
| "touched (Signal h ts) = insert h (set ts)"
| "touched (Cancel h) = {h}"
| "touched p = {}"

fun may_handle :: "rf_pc \<Rightarrow> bool" where
  "may_handle (Push h ts) = True"
| "may_handle (Wait r) = True"
| "may_handle Drain = True"
| "may_handle p = False"

fun job_ok :: "rf_pc \<Rightarrow> rf_job \<Rightarrow> bool" where
  "job_ok p NoJob \<longleftrightarrow> p \<noteq> Drain"
| "job_ok p Poll \<longleftrightarrow> may_handle p \<and> p \<noteq> Drain"
| "job_ok p j \<longleftrightarrow> may_handle p"

definition control_ok :: "rf_sys \<Rightarrow> bool" where
  "control_ok s \<longleftrightarrow> (\<forall>t. touched (pcs s t) \<subseteq> harts \<and> job_ok (pcs s t) (jobs s t))"

lemma job_ok_simps [simp]:
  "\<not> may_handle p \<Longrightarrow> job_ok p j \<longleftrightarrow> j = NoJob"
  "job_ok (Push h ts) j" "job_ok (Wait r) j"
  "job_ok Drain j \<longleftrightarrow> j \<noteq> NoJob \<and> j \<noteq> Poll"
  by (cases j; auto)+

lemma control_okD:
  assumes "control_ok s"
  shows "touched (pcs s t) \<subseteq> harts" and "job_ok (pcs s t) (jobs s t)"
  using assms by (simp_all add: control_ok_def)

lemma control_ok_step:
  assumes "rf_step s s'" and "control_ok s"
  shows "control_ok s'"
  unfolding control_ok_def
proof (intro allI conjI)
  fix u
  show "touched (pcs s' u) \<subseteq> harts"
    using assms(1) control_okD(1) [OF assms(2), of u]
    by cases (auto simp: rf_sys_defs split: if_splits)
  show "job_ok (pcs s' u) (jobs s' u)"
    using assms(1) control_okD(2) [OF assms(2), of u]
    by cases (auto simp: rf_sys_defs split: if_splits)
qed

section \<open>The counter is the number of outstanding requests\<close>

lemma try_push_True:
  "try_push locked c x = (True, c') \<longleftrightarrow> \<not> locked \<and> length (queue c) < QUEUE_CAP \<and> c' = c\<lparr>queue := queue c @ [x]\<rparr>"
  by (auto simp: try_push_def)

lemma get_Some: "get c = (Some x, c') \<longleftrightarrow> (\<exists>q. queue c = x # q \<and> c' = c\<lparr>queue := q\<rparr>)"
  by (auto simp: get_def split: list.splits)

lemma get_None: "get c = (None, c') \<longleftrightarrow> queue c = [] \<and> c' = c"
  by (auto simp: get_def split: list.splits)

lemma remove_source_Some:
  "remove_source t q = Some q' \<Longrightarrow>
   \<exists>xs x ys. q = xs @ x # ys \<and> q' = xs @ ys \<and> snd x = t"
proof (induction q arbitrary: q')
  case (Cons a q)
  show ?case
  proof (cases "snd a = t")
    case True
    with Cons.prems show ?thesis
      by (intro exI [of _ "[]"]) simp
  next
    case False
    with Cons.prems obtain r where r: "remove_source t q = Some r" "q' = a # r"
      by auto
    with Cons.IH obtain xs x ys where "q = xs @ x # ys" "r = xs @ ys" "snd x = t"
      by blast
    with r(2) show ?thesis
      by (intro exI [of _ "a # xs"]) simp
  qed
qed simp

lemma cancel_True:
  assumes "cancel c t = (True, c')"
  obtains xs x ys where "queue c = xs @ x # ys" "c' = c\<lparr>queue := xs @ ys\<rparr>" "snd x = t"
  using assms by (auto simp: cancel_def split: option.splits dest!: remove_source_Some)

definition counter_ok :: "rf_sys \<Rightarrow> nat \<Rightarrow> bool" where
  "counter_ok s t \<longleftrightarrow> wait_sync_count (rcells s t) = word_of_nat (outstanding s t)"

lemma outstanding_change:
  assumes "h \<in> harts" and "\<And>k. k \<noteq> h \<Longrightarrow> load s' t k = load s t k"
  shows "outstanding s' t + (load s t h + own (pcs s t)) = outstanding s t + (load s' t h + own (pcs s' t))"
  using load_change [of h s' t s] assms by (simp add: outstanding_def)

lemma counter_change:
  assumes "counter_ok s t" and "h \<in> harts" and "\<And>k. k \<noteq> h \<Longrightarrow> load s' t k = load s t k"
    and "wait_sync_count (rcells s' t) + word_of_nat (load s t h + own (pcs s t)) =
      wait_sync_count (rcells s t) + word_of_nat (load s' t h + own (pcs s' t))"
  shows "counter_ok s' t"
proof -
  have "(word_of_nat (outstanding s' t) :: u32) + word_of_nat (load s t h + own (pcs s t)) =
      word_of_nat (outstanding s t) + word_of_nat (load s' t h + own (pcs s' t))"
    using outstanding_change [OF assms(2,3)] by (metis of_nat_add)
  with assms(1,4) show ?thesis
    unfolding counter_ok_def by (metis add_right_cancel)
qed

lemma counter_same:
  assumes "counter_ok s t" and "rcells s' = rcells s" and "\<And>k. busy t (jobs s' k) = busy t (jobs s k)"
    and "own (pcs s' t) = own (pcs s t)"
  shows "counter_ok s' t"
  using assms by (simp add: counter_ok_def outstanding_def load_def)

lemma add_sub_simps [simp]:
  "queue (add c) = queue c" "wait_sync_count (add c) = wait_sync_count c + 1"
  "queue (sub c) = queue c" "wait_sync_count (sub c) = wait_sync_count c - 1"
  by (simp_all add: add_def sub_def)

lemmas load_defs = load_def queued_def rf_sys_defs

lemma counter_ok_step:
  assumes "rf_step s s'" and "control_ok s" and "counter_ok s u"
  shows "counter_ok s' u"
  using assms(1)
proof (cases rule: rf_step.cases)
  case (push_ok t h ts c)
  have "h \<in> harts"
    using control_okD(1) [OF assms(2), of t] push_ok by auto
  with push_ok show ?thesis
    by (intro counter_change [OF assms(3), of h]) (auto simp: load_defs try_push_True)
next
  case (cancel_ok t h c)
  have h: "h \<in> harts"
    using control_okD(1) [OF assms(2), of t] cancel_ok by auto
  obtain xs x ys where "queue (rcells s h) = xs @ x # ys" "c = (rcells s h)\<lparr>queue := xs @ ys\<rparr>" "snd x = t"
    using cancel_ok(4) by (rule cancel_True)
  with h cancel_ok show ?thesis
    by (intro counter_change [OF assms(3), of h]) (auto simp: load_defs)
next
  case (pop_some t ctx src c)
  then show ?thesis
    by (intro counter_change [OF assms(3), of t]) (auto simp: load_defs get_Some)
next
  case (ack t src)
  then show ?thesis
    by (intro counter_change [OF assms(3), of t]) (auto simp: load_defs)
next
  case (cancel_sub t)
  then show ?thesis
    by (intro counter_change [OF assms(3), of t]) (auto simp: load_defs)
next
  case (send_remote t h ts)
  then show ?thesis
    by (intro counter_change [OF assms(3), of t]) (auto simp: load_defs)
qed (auto simp: rf_sys_defs intro!: counter_same [OF assms(3)])

section \<open>Requests belong to the call in progress\<close>

text \<open>
  The requests a hart has in flight are for its current call, its call is not over while there
  are any, and there are at most as many as it has dealt with targets.
\<close>

definition in_flight :: "rf_sys \<Rightarrow> RFenceContext \<Rightarrow> nat \<Rightarrow> nat \<Rightarrow> bool" where
  "in_flight s ctx src h \<longleftrightarrow> (ctx, src) \<in> set (queue (rcells s h)) \<or> jobs s h = Exec ctx src"

definition requests_ok :: "rf_sys \<Rightarrow> bool" where
  "requests_ok s \<longleftrightarrow> (\<forall>ctx src h. in_flight s ctx src h \<longrightarrow> h \<in> harts \<and> src \<in> harts \<and> ctx = request s src) \<and>
     (\<forall>src h. jobs s h = Ack src \<longrightarrow> h \<in> harts \<and> src \<in> harts) \<and> (\<forall>t. t \<notin> harts \<longrightarrow> pcs s t = Idle)"

definition weight :: "rf_sys \<Rightarrow> nat \<Rightarrow> nat" where
  "weight s t = outstanding s t + length (todo (pcs s t))"

definition budget_ok :: "rf_sys \<Rightarrow> nat \<Rightarrow> bool" where
  "budget_ok s t \<longleftrightarrow> length (targets s t) \<le> NUM_HART_MAX \<and>
     weight s t \<le> (if idle_pc (pcs s t) then 0 else length (targets s t))"

lemma weight_change:
  assumes "h \<in> harts" and "\<And>k. k \<noteq> h \<Longrightarrow> load s' t k = load s t k"
    and "load s' t h + own (pcs s' t) + length (todo (pcs s' t)) \<le>
      load s t h + own (pcs s t) + length (todo (pcs s t))"
  shows "weight s' t \<le> weight s t"
  using outstanding_change [OF assms(1,2)] assms(3) by (simp add: weight_def)

lemma weight_same:
  assumes "rcells s' = rcells s" and "\<And>k. busy t (jobs s' k) = busy t (jobs s k)"
    and "own (pcs s' t) = own (pcs s t)" and "length (todo (pcs s' t)) \<le> length (todo (pcs s t))"
  shows "weight s' t \<le> weight s t"
  using assms by (simp add: weight_def outstanding_def load_def)

lemma weight_step:
  assumes "rf_step s s'" and "control_ok s" and "pcs s u = Idle \<Longrightarrow> todo (pcs s' u) = []"
  shows "weight s' u \<le> weight s u"
  using assms(1)
proof (cases rule: rf_step.cases)
  case (push_ok t h ts c)
  have "h \<in> harts"
    using control_okD(1) [OF assms(2), of t] push_ok by auto
  with push_ok show ?thesis
    by (intro weight_change [of h]) (auto simp: load_defs try_push_True)
next
  case (cancel_ok t h c)
  have h: "h \<in> harts"
    using control_okD(1) [OF assms(2), of t] cancel_ok by auto
  obtain xs x ys where "queue (rcells s h) = xs @ x # ys" "c = (rcells s h)\<lparr>queue := xs @ ys\<rparr>" "snd x = t"
    using cancel_ok(4) by (rule cancel_True)
  with h cancel_ok show ?thesis
    by (intro weight_change [of h]) (auto simp: load_defs)
next
  case (pop_some t ctx src c)
  then show ?thesis
    by (intro weight_change [of t]) (auto simp: load_defs get_Some)
next
  case (ack t src)
  then show ?thesis
    by (intro weight_change [of t]) (auto simp: load_defs)
next
  case (cancel_sub t)
  then show ?thesis
    by (intro weight_change [of t]) (auto simp: load_defs)
next
  case (send_remote t h ts)
  then show ?thesis
    by (intro weight_change [of t]) (auto simp: load_defs)
next
  case (call t ts ctx)
  then show ?thesis
    using assms(3) by (intro weight_same) (auto simp: rf_sys_defs)
qed (auto simp: rf_sys_defs intro!: weight_same)

lemma small_counter:
  assumes "counter_ok s t" and "budget_ok s t"
  shows "is_sync (rcells s t) \<longleftrightarrow> outstanding s t = 0"
proof -
  have "outstanding s t < 2 ^ 32"
    using assms(2) by (auto simp: budget_ok_def weight_def NUM_HART_MAX_def split: if_splits)
  then have "word_of_nat (outstanding s t) = (0 :: u32) \<longleftrightarrow> outstanding s t = 0"
    using nat_dvd_not_less [of "outstanding s t" "2 ^ 32"] by (auto simp: word_of_nat_eq_0_iff)
  with assms(1) show ?thesis
    by (simp add: is_sync_def counter_ok_def)
qed

lemma budget_ok_step:
  assumes "rf_step s s'" and "control_ok s" and "counter_ok s u" and "budget_ok s u"
  shows "budget_ok s' u"
  using assms(1)
proof (cases rule: rf_step.cases)
  case (call t ts ctx)
  show ?thesis
  proof (cases "u = t")
    case True
    have "length ts \<le> NUM_HART_MAX"
      using call(5,6) by (metis card_lessThan card_mono distinct_card finite_lessThan)
    moreover have "outstanding s' t = 0"
      using assms(4) call True by (auto simp: budget_ok_def weight_def outstanding_def load_defs)
    ultimately show ?thesis
      using call True by (simp add: budget_ok_def weight_def rf_sys_defs)
  next
    case False
    have "weight s' u \<le> weight s u"
      by (rule weight_step [OF assms(1,2)]) (use call False in \<open>simp add: rf_sys_defs\<close>)
    then show ?thesis
      using assms(4) call False by (auto simp: budget_ok_def rf_sys_defs)
  qed
next
  case (wait_done t r)
  have "weight s' u \<le> weight s u"
    by (rule weight_step [OF assms(1,2)]) (use wait_done in \<open>simp add: rf_sys_defs\<close>)
  moreover have "u = t \<Longrightarrow> weight s u = 0"
    using small_counter [OF assms(3,4)] wait_done by (simp add: weight_def)
  ultimately show ?thesis
    using assms(4) wait_done by (auto simp: budget_ok_def rf_sys_defs split: if_splits)
qed (use weight_step [OF assms(1,2), of u] assms(4) in \<open>auto simp: budget_ok_def rf_sys_defs split: if_splits\<close>)

lemma in_flight_outstanding:
  assumes "in_flight s ctx t h \<or> jobs s h = Ack t" and "h \<in> harts"
  shows "0 < outstanding s t"
proof -
  have "0 < load s t h"
    using assms(1) by (auto simp: in_flight_def load_def queued_def filter_empty_conv intro!: bexI [of _ "(ctx, t)"])
  also have "load s t h \<le> (\<Sum>k\<in>harts. load s t k)"
    using assms(2) by (intro member_le_sum) auto
  finally show ?thesis
    by (simp add: outstanding_def)
qed

lemma in_flight_step:
  assumes "rf_step s s'" and "in_flight s' ctx src h"
  shows "in_flight s ctx src h \<or> (\<exists>ts. pcs s src = Push h ts \<and> ctx = request s src \<and> src \<in> harts)"
  using assms(1)
proof (cases rule: rf_step.cases)
  case (cancel_ok t k c)
  obtain xs x ys where "queue (rcells s k) = xs @ x # ys" "c = (rcells s k)\<lparr>queue := xs @ ys\<rparr>"
    using cancel_ok(4) by (rule cancel_True)
  then show ?thesis
    using assms(2) cancel_ok by (auto simp: in_flight_def rf_sys_defs split: if_splits)
next
  case (push_ok t k ts c)
  then show ?thesis
    using assms(2) by (auto simp: in_flight_def rf_sys_defs try_push_True split: if_splits)
next
  case (pop_some t ctx' src' c)
  then show ?thesis
    using assms(2) by (auto simp: in_flight_def rf_sys_defs get_Some split: if_splits)
qed (use assms(2) in \<open>auto simp: in_flight_def rf_sys_defs split: if_splits\<close>)

lemma request_step:
  assumes "rf_step s s'" and "pcs s u \<noteq> Idle"
  shows "request s' u = request s u" and "targets s' u = targets s u"
  using assms by (cases, auto simp: rf_sys_defs split: if_splits)+

lemma requests_okD:
  assumes "requests_ok s"
  shows "in_flight s ctx src h \<Longrightarrow> h \<in> harts \<and> src \<in> harts \<and> ctx = request s src"
    and "jobs s h = Ack src \<Longrightarrow> h \<in> harts \<and> src \<in> harts" and "t \<notin> harts \<Longrightarrow> pcs s t = Idle"
  using assms unfolding requests_ok_def by blast+

lemma requests_ok_step:
  assumes "rf_step s s'" and "control_ok s" and "\<forall>t. budget_ok s t" and "requests_ok s"
  shows "requests_ok s'"
proof -
  have "h \<in> harts \<and> src \<in> harts \<and> ctx = request s' src" if "in_flight s' ctx src h" for ctx src h
    using in_flight_step [OF assms(1) that]
  proof
    assume old: "in_flight s ctx src h"
    then have ok: "h \<in> harts" "src \<in> harts" "ctx = request s src"
      using requests_okD(1) [OF assms(4)] by blast+
    then have "pcs s src \<noteq> Idle"
      using in_flight_outstanding [of s ctx src h] old assms(3)
      by (auto simp: budget_ok_def weight_def dest!: spec [of _ src])
    with ok show ?thesis
      using request_step(1) [OF assms(1)] by simp
  next
    assume "\<exists>ts. pcs s src = Push h ts \<and> ctx = request s src \<and> src \<in> harts"
    then obtain ts where p: "pcs s src = Push h ts" "ctx = request s src" "src \<in> harts"
      by blast
    then have "h \<in> harts"
      using control_okD(1) [OF assms(2), of src] by simp
    with p show ?thesis
      using request_step(1) [OF assms(1), of src] by simp
  qed
  moreover have "h \<in> harts \<and> src \<in> harts" if "jobs s' h = Ack src" for src h
    using assms(1) that requests_okD(1) [OF assms(4), of _ src h] requests_okD(2) [OF assms(4), of h src]
    by cases (auto simp: rf_sys_defs in_flight_def split: if_splits)
  moreover have "pcs s' t = Idle" if "t \<notin> harts" for t
    using assms(1) that requests_okD(3) [OF assms(4) that]
    by cases (auto simp: rf_sys_defs split: if_splits)
  ultimately show ?thesis
    unfolding requests_ok_def by blast
qed

section \<open>Every target is reached\<close>

fun left :: "rf_pc \<Rightarrow> nat set" where
  "left (Send ts) = set ts"
| "left (Push h ts) = insert h (set ts)"
| "left (Mark h ts) = set ts"
| "left (Signal h ts) = set ts"
| "left (Wait r) = (if r then {} else UNIV)"
| "left (Done r) = (if r then {} else UNIV)"
| "left p = UNIV"

definition reached :: "rf_sys \<Rightarrow> nat \<Rightarrow> nat \<Rightarrow> bool" where
  "reached s t h \<longleftrightarrow> in_flight s (request s t) t h \<or> (h, request s t) \<in> fenced s t"

definition covered :: "rf_sys \<Rightarrow> nat \<Rightarrow> bool" where
  "covered s t \<longleftrightarrow> (\<forall>h\<in>set (targets s t) - left (pcs s t). reached s t h)"

lemma reached_step:
  assumes "rf_step s s'" and "reached s u h" and "pcs s u \<noteq> Idle" and "\<forall>k. pcs s u \<noteq> Cancel k"
  shows "reached s' u h"
  using assms(1)
proof (cases rule: rf_step.cases)
  case (cancel_ok t k c)
  obtain xs x ys where "queue (rcells s k) = xs @ x # ys" "c = (rcells s k)\<lparr>queue := xs @ ys\<rparr>" "snd x = t"
    using cancel_ok(4) by (rule cancel_True)
  moreover have "u \<noteq> t"
    using assms(4) cancel_ok by auto
  ultimately show ?thesis
    using assms(2) cancel_ok by (auto simp: reached_def in_flight_def rf_sys_defs)
next
  case (pop_some t ctx src c)
  then show ?thesis
    using assms(2) by (auto simp: reached_def in_flight_def rf_sys_defs get_Some)
next
  case (push_ok t k ts c)
  then show ?thesis
    using assms(2) by (auto simp: reached_def in_flight_def rf_sys_defs try_push_True)
next
  case (call t ts ctx)
  then show ?thesis
    using assms(2,3) by (auto simp: reached_def in_flight_def rf_sys_defs)
qed (use assms(2) in \<open>auto simp: reached_def in_flight_def rf_sys_defs split: if_splits\<close>)

lemma covered_step:
  assumes "rf_step s s'" and "covered s u"
  shows "covered s' u"
proof (cases "pcs s u = Idle \<or> (\<exists>k. pcs s u = Cancel k)")
  case True
  with assms(1) have "set (targets s' u) \<subseteq> left (pcs s' u)"
    by cases (auto simp: rf_sys_defs)
  then show ?thesis
    by (auto simp: covered_def)
next
  case False
  have keep: "reached s' u h" if "reached s u h" for h
    using reached_step [OF assms(1) that] False by blast
  have new: "reached s' u h" if "h \<notin> left (pcs s' u)" "h \<in> left (pcs s u)" "h \<in> set (targets s u)" for h
    using assms(1) that False
    by cases (auto simp: rf_sys_defs reached_def in_flight_def try_push_True split: if_splits)
  show ?thesis
    using keep new assms(2) request_step(2) [OF assms(1), of u] False unfolding covered_def by fastforce
qed

section \<open>No request is forgotten\<close>

text \<open>
  A request in a queue is announced: the fence bit of the queue's hart is set, or that hart is
  draining its queue, or the sender is about to set the bit.
\<close>

definition announced :: "rf_sys \<Rightarrow> bool" where
  "announced s \<longleftrightarrow> (\<forall>ctx src h. (ctx, src) \<in> set (queue (rcells s h)) \<longrightarrow>
     fence_pending (ipi s h) \<or> pcs s h = Drain \<or> (\<exists>ts. pcs s src = Mark h ts))"

lemma fence_pending_bit: "fence_pending ty \<longleftrightarrow> bit ty 1"
proof -
  have fence: "IPI_TYPE_FENCE = one_bit 1"
    by (simp add: IPI_TYPE_FENCE_def one_bit_eq_power)
  show ?thesis
    unfolding fence_pending_def fence and_one_bit_eq_0 by simp
qed

lemma fence_pending_or [simp]:
  "fence_pending (ty OR IPI_TYPE_FENCE)" "fence_pending (ty OR IPI_TYPE_SSOFT) \<longleftrightarrow> fence_pending ty"
  by (simp_all add: fence_pending_bit bit_or_iff IPI_TYPE_FENCE_def IPI_TYPE_SSOFT_def)

lemma announcedD:
  "announced s \<Longrightarrow> (ctx, src) \<in> set (queue (rcells s h)) \<Longrightarrow>
   fence_pending (ipi s h) \<or> pcs s h = Drain \<or> (\<exists>ts. pcs s src = Mark h ts)"
  unfolding announced_def by blast

lemma announced_step:
  assumes "rf_step s s'" and "announced s"
  shows "announced s'"
  unfolding announced_def
proof (intro allI impI)
  fix ctx src h
  assume q: "(ctx, src) \<in> set (queue (rcells s' h))"
  note old = announcedD [OF assms(2), of ctx src h]
  show "fence_pending (ipi s' h) \<or> pcs s' h = Drain \<or> (\<exists>ts. pcs s' src = Mark h ts)"
    using assms(1)
  proof (cases rule: rf_step.cases)
    case (push_ok t k ts c)
    then show ?thesis
      using q old by (auto simp: rf_sys_defs try_push_True split: if_splits)
  next
    case (cancel_ok t k c)
    obtain xs x ys where "queue (rcells s k) = xs @ x # ys" "c = (rcells s k)\<lparr>queue := xs @ ys\<rparr>"
      using cancel_ok(4) by (rule cancel_True)
    then show ?thesis
      using q old cancel_ok by (auto simp: rf_sys_defs split: if_splits)
  next
    case (pop_some t ctx' src' c)
    then show ?thesis
      using q old by (auto simp: rf_sys_defs get_Some split: if_splits)
  next
    case (pop_none t c)
    then show ?thesis
      using q old by (auto simp: rf_sys_defs get_None split: if_splits)
  next
    case (mark t k ts)
    then show ?thesis
      using q old by (auto simp: rf_sys_defs set_ipi_type_def split: if_splits)
  next
    case (deliver t ty ipi')
    then show ?thesis
      using q old by (auto simp: rf_sys_defs get_and_reset_ipi_type_def split: if_splits)
  next
    case (soft t k)
    then show ?thesis
      using q old by (auto simp: set_ipi_type_def)
  qed (use q old in \<open>auto simp: rf_sys_defs split: if_splits\<close>)
qed

section \<open>Reachable states\<close>

definition rf_inv :: "rf_sys \<Rightarrow> bool" where
  "rf_inv s \<longleftrightarrow> control_ok s \<and> (\<forall>t. counter_ok s t) \<and> (\<forall>t. budget_ok s t) \<and> requests_ok s \<and>
     (\<forall>t. covered s t) \<and> announced s"

lemma rf_inv_init: "rf_inv rf_init"
  by (simp add: rf_inv_def control_ok_def counter_ok_def budget_ok_def requests_ok_def covered_def
      announced_def weight_def outstanding_def load_def queued_def in_flight_def rf_init_def
      rfence_cell_new_def)

lemma rf_inv_step: "rf_step s s' \<Longrightarrow> rf_inv s \<Longrightarrow> rf_inv s'"
  unfolding rf_inv_def
  by (blast intro: control_ok_step counter_ok_step budget_ok_step requests_ok_step covered_step
      announced_step)

lemma rf_reachable_inv: "rf_reachable s \<Longrightarrow> rf_inv s"
  by (induction rule: rf_reachable.induct) (auto intro: rf_inv_init rf_inv_step)

text \<open>
  C3: when \<open>send_ipi_by_fence\<close> is about to return, no request of the calling hart is left in any
  queue or is still being executed, whatever the result, and its counter is zero again. When the
  result is success, every target hart has executed the fence of this very call since the call
  began.
\<close>

theorem remote_fence_complete:
  assumes "rf_reachable s" and "pcs s t = Done r"
  shows "(\<forall>ctx h. \<not> in_flight s ctx t h) \<and> (\<forall>h. jobs s h \<noteq> Ack t) \<and>
    wait_sync_count (rcells s t) = 0 \<and>
    (r \<longrightarrow> (\<forall>h\<in>set (targets s t). (h, request s t) \<in> fenced s t))"
proof -
  have inv: "rf_inv s"
    using assms(1) by (rule rf_reachable_inv)
  then have out: "outstanding s t = 0"
    using assms(2) by (auto simp: rf_inv_def budget_ok_def weight_def dest!: spec [of _ t])
  have ok: "requests_ok s" "counter_ok s t" "covered s t"
    using inv by (simp_all add: rf_inv_def)
  have none: "\<not> (in_flight s ctx t h \<or> jobs s h = Ack t)" for ctx h
    using in_flight_outstanding [of s ctx t h] requests_okD(1,2) [OF ok(1)] out by fastforce
  have "wait_sync_count (rcells s t) = 0"
    using ok(2) out by (simp add: counter_ok_def)
  moreover have "(h, request s t) \<in> fenced s t" if "r" "h \<in> set (targets s t)" for h
    using ok(3) none that assms(2) by (auto simp: covered_def reached_def)
  ultimately show ?thesis
    using none by blast
qed

text \<open>
  C6: no remote fence is lost. In every reachable state a queued request is announced to the
  hart it is for: its fence bit is set, or it is emptying its queue, or the sender is about to
  set the bit; so a hart that takes the IPI, or polls, finds it. A hart that has no call in
  progress has no request anywhere.
\<close>

theorem remote_fence_not_lost:
  assumes "rf_reachable s" and "(ctx, src) \<in> set (queue (rcells s h))"
  shows "(fence_pending (ipi s h) \<or> pcs s h = Drain \<or> (\<exists>ts. pcs s src = Mark h ts)) \<and>
    \<not> idle_pc (pcs s src) \<and> ctx = request s src"
proof -
  have inv: "rf_inv s"
    using assms(1) by (rule rf_reachable_inv)
  then have ok: "announced s" "requests_ok s" "budget_ok s src"
    by (simp_all add: rf_inv_def)
  have fl: "in_flight s ctx src h"
    using assms(2) by (simp add: in_flight_def)
  note r = requests_okD(1) [OF ok(2) fl]
  have "0 < outstanding s src"
    using in_flight_outstanding [of s ctx src h] fl r by blast
  with announcedD [OF ok(1) assms(2)] r ok(3) show ?thesis
    by (auto simp: budget_ok_def weight_def split: if_splits)
qed

section \<open>A concrete run\<close>

definition flush_example :: RFenceContext where
  "flush_example = \<lparr>rf_start_addr = 0x2000, rf_size = 0x1000, rf_asid = 0, rf_vmid = 0, rf_op = SFenceVma\<rparr>"

definition run_call :: rf_sys where
  "run_call = set_pc 0 (Send [1]) (rf_init\<lparr>request := (request rf_init)(0 := flush_example),
     targets := (targets rf_init)(0 := [1]), fenced := (fenced rf_init)(0 := {})\<rparr>)"

definition run_add :: rf_sys where
  "run_add = set_pc 0 (Push 1 []) (set_cell 0 (add (rcells run_call 0)) run_call)"

definition run_push :: rf_sys where
  "run_push = set_pc 0 (Mark 1 [])
     (set_cell 1 ((rcells run_add 1)\<lparr>queue := [(flush_example, 0)]\<rparr>) run_add)"

definition run_mark :: rf_sys where
  "run_mark = set_pc 0 (Signal 1 []) (run_push\<lparr>ipi := set_ipi_type (ipi run_push) 1 IPI_TYPE_FENCE\<rparr>)"

definition run_sent :: rf_sys where
  "run_sent = set_pc 0 (Wait True) (set_pc 0 (Send []) run_mark)"

definition run_deliver :: rf_sys where
  "run_deliver = set_pc 1 Drain (set_job 1 Pop (run_sent\<lparr>ipi := (ipi run_sent)(1 := 0)\<rparr>))"

definition run_exec :: rf_sys where
  "run_exec = set_job 1 (Exec flush_example 0)
     (set_cell 1 ((rcells run_deliver 1)\<lparr>queue := []\<rparr>) run_deliver)"

definition run_ack :: rf_sys where
  "run_ack = set_job 1 (Ack 0) (add_fenced 0 1 flush_example run_exec)"

definition run_synced :: rf_sys where
  "run_synced = set_job 1 Pop (set_cell 0 (sub (rcells run_ack 0)) run_ack)"

definition run_done :: rf_sys where
  "run_done = set_pc 0 (Done True) run_synced"

lemmas run_defs = run_call_def run_add_def run_push_def run_mark_def run_sent_def run_deliver_def
  run_exec_def run_ack_def run_synced_def run_done_def rf_init_def rf_sys_defs NUM_HART_MAX_def
  rfence_cell_new_def

lemma run_push_reachable: "rf_reachable run_push"
proof -
  have "rf_step rf_init run_call"
    unfolding run_call_def by (rule rf_step.call) (simp_all add: run_defs)
  moreover have "rf_step run_call run_add"
    unfolding run_add_def by (rule rf_step.send_remote) (simp_all add: run_defs)
  moreover have "rf_step run_add run_push"
    unfolding run_push_def
    by (rule rf_step.push_ok) (simp_all add: run_defs try_push_True QUEUE_CAP_def)
  ultimately show ?thesis
    by (meson rf_reachable.intros)
qed

lemma run_deliver_reachable: "rf_reachable run_deliver"
proof -
  have "rf_step run_push run_mark"
    unfolding run_mark_def by (rule rf_step.mark) (simp_all add: run_defs)
  moreover have "rf_step run_mark (set_pc 0 (Send []) run_mark)"
    by (rule rf_step.signal_ok) (simp_all add: run_defs)
  moreover have "rf_step (set_pc 0 (Send []) run_mark) run_sent"
    unfolding run_sent_def by (rule rf_step.send_end) (simp_all add: run_defs)
  moreover have "rf_step run_sent run_deliver"
  proof -
    have "fence_pending (ipi run_sent 1)"
      by (simp add: run_defs set_ipi_type_def del: or.left_neutral)
    then show ?thesis
      using rf_step.deliver [of 1 run_sent "ipi run_sent 1" "(ipi run_sent)(1 := 0)"]
      by (simp add: run_deliver_def get_and_reset_ipi_type_def) (simp add: run_defs)
  qed
  ultimately show ?thesis
    using run_push_reachable by (meson rf_reachable.step)
qed

lemma run_done_reachable: "rf_reachable run_done"
proof -
  have "rf_step run_deliver run_exec"
    unfolding run_exec_def by (rule rf_step.pop_some) (simp_all add: run_defs get_Some)
  moreover have "rf_step run_exec run_ack"
    unfolding run_ack_def by (rule rf_step.exec) (simp_all add: run_defs)
  moreover have "rf_step run_ack run_synced"
    using rf_step.ack [of 1 run_ack 0] unfolding run_synced_def by (simp add: run_defs)
  moreover have "rf_step run_synced run_done"
    unfolding run_done_def
    by (rule rf_step.wait_done) (simp_all add: run_defs is_sync_def)
  ultimately show ?thesis
    using run_deliver_reachable by (meson rf_reachable.step)
qed

theorem remote_fence_complete_witness:
  "pcs run_done 0 = Done True \<and> wait_sync_count (rcells run_done 0) = 0 \<and>
   (1, request run_done 0) \<in> fenced run_done 0 \<and> request run_done 0 = flush_example"
proof -
  have fin: "pcs run_done 0 = Done True" "1 \<in> set (targets run_done 0)"
    "request run_done 0 = flush_example"
    by (simp_all add: run_defs)
  from remote_fence_complete [OF run_done_reachable fin(1)] fin show ?thesis
    by blast
qed

theorem remote_fence_not_lost_witness:
  "(fence_pending (ipi run_push 1) \<or> pcs run_push 1 = Drain \<or> (\<exists>ts. pcs run_push 0 = Mark 1 ts)) \<and>
   \<not> idle_pc (pcs run_push 0)"
proof -
  have "(flush_example, 0) \<in> set (queue (rcells run_push 1))"
    by (simp add: run_defs)
  from remote_fence_not_lost [OF run_push_reachable this] show ?thesis
    by blast
qed

end
