(* ===== verification/Pmu_Correct.thy ===== *)
theory Pmu_Correct
  imports Pmu
begin

text \<open>
  Properties of the PMU extension: its state stays well-formed and its calls return, counters are
  described and assigned as requested, and firmware events are counted exactly.
\<close>

section \<open>Well-formed states\<close>

definition pmu_inv :: "pmu_hart \<Rightarrow> PmuState \<Rightarrow> bool" where
  "pmu_inv h st \<longleftrightarrow> length (active_event st) = 48 \<and> length (fw_counter st) = 16 \<and>
     hw_counters_num st = word_of_nat (count_ones (hart_mhpm_mask h)) \<and>
     total_counters_num st = hw_counters_num st + 16 \<and> (\<forall>i. bit (fw_counter_state st) i \<longrightarrow> i < 16)"

lemma count_ones_u32: "count_ones m \<le> 32" for m :: u32
proof -
  have "set (bit_list m) \<subseteq> {..<32}"
    by (auto simp: set_bit_list dest: bit_imp_le_length)
  then have "card (set (bit_list m)) \<le> 32"
    using card_mono [of "{..<32::nat}"] by fastforce
  then show ?thesis
    by (simp add: count_ones_def distinct_card distinct_bit_list)
qed

lemma pmu_inv_nums:
  assumes "pmu_inv h st"
  shows "unat (hw_counters_num st) = count_ones (hart_mhpm_mask h)"
    and "unat (total_counters_num st) = count_ones (hart_mhpm_mask h) + 16"
proof -
  let ?n = "count_ones (hart_mhpm_mask h)"
  show n: "unat (hw_counters_num st) = ?n"
    using assms count_ones_u32 [of "hart_mhpm_mask h"]
    by (simp add: pmu_inv_def unat_of_nat take_bit_nat_eq_self)
  have "unat (hw_counters_num st + 16) = unat (hw_counters_num st) + unat (16 :: usize)"
    using n count_ones_u32 [of "hart_mhpm_mask h"] by (intro unat_add_no_ovf) simp
  then show "unat (total_counters_num st) = ?n + 16"
    using assms n by (simp add: pmu_inv_def)
qed

lemma pmu_inv_new: "pmu_inv h (pmu_state_new (hart_mhpm_mask h))"
  by (simp add: pmu_inv_def pmu_state_new_def PMU_HARDWARE_COUNTER_MAX_def PMU_FIRMWARE_COUNTER_MAX_def)

section \<open>Offsets of the hardware counters\<close>

lemma drop_bit_and_1: "drop_bit n m AND 1 = 1 \<longleftrightarrow> bit m n" "drop_bit n m AND 1 = 0 \<longleftrightarrow> \<not> bit m n" for m :: "'a::len word"
  by (simp_all add: and_one_eq bit_iff_odd_drop_bit mod_2_eq_odd)

lemma unat_count_Suc: "unat count + 1 < 2 ^ 64 \<Longrightarrow> unat (count + 1) = Suc (unat count)" for count :: usize
  using unat_add_no_ovf [of count 1] by simp

lemma offset_loop_nth:
  assumes "unat count \<le> unat i" and "unat count + length os < 2 ^ 64"
  shows "offset_loop m i count os =
    (let xs = filter (bit m) os; n = unat i - unat count in if n < length xs then Some (xs ! n) else None)"
  using assms
proof (induction os arbitrary: count)
  case (Cons o' os)
  show ?case
  proof (cases "bit m o' \<and> count \<noteq> i")
    case True
    have S: "unat (count + 1) = Suc (unat count)"
      using Cons.prems by (intro unat_count_Suc) simp
    have "unat count \<noteq> unat i"
      using True by simp
    then have lt: "unat count < unat i"
      using Cons.prems(1) by linarith
    then have "unat i - unat count = Suc (unat i - unat (count + 1))"
      using S by linarith
    with Cons.IH [of "count + 1"] Cons.prems lt S True show ?thesis
      by (simp add: drop_bit_and_1 Let_def)
  next
    case False
    with Cons show ?thesis
      by (auto simp: drop_bit_and_1 Let_def)
  qed
qed simp

lemma csr_offset_nth:
  "get_mhpm_csr_offset h i =
     (if unat i < count_ones (hart_mhpm_mask h) then Some (bit_list (hart_mhpm_mask h) ! unat i) else None)"
  by (simp add: get_mhpm_csr_offset_def offset_loop_nth Let_def count_ones_def bit_list_def)

lemma info_loop_nth:
  assumes "unat count \<le> unat i" and "unat count + count_ones m < 2 ^ 64"
  shows "info_loop m i count =
    (let n = unat i - unat count in if n < count_ones m then Some (bit_list m ! n) else None)"
  using assms
proof (induction "count_ones m" arbitrary: m count rule: less_induct)
  case less
  show ?case
  proof (cases "m = 0")
    case True
    then show ?thesis
      by (subst info_loop.simps) (simp add: count_ones_def bit_list_eq_Nil [THEN iffD2])
  next
    case m: False
    let ?m = "clear_bit m (trailing_zeros m)"
    have cons: "bit_list m = trailing_zeros m # bit_list ?m"
      using bit_list_clear_low [OF m] .
    then have n: "count_ones m = Suc (count_ones ?m)"
      by (simp add: count_ones_def)
    show ?thesis
    proof (cases "count = i")
      case True
      then show ?thesis
        using m n cons by (subst info_loop.simps) (simp add: Let_def)
    next
      case False
      have S: "unat (count + 1) = Suc (unat count)"
        using less.prems n by (intro unat_count_Suc) simp
      have "unat count \<noteq> unat i"
        using False by simp
      then have lt: "unat count < unat i"
        using less.prems(1) by linarith
      then have diff: "unat i - unat count = Suc (unat i - unat (count + 1))"
        using S by linarith
      have "info_loop m i count = info_loop ?m i (count + 1)"
        using m False by (subst info_loop.simps) (simp add: and_pred_clear_low)
      also have "\<dots> = (let k = unat i - unat (count + 1) in if k < count_ones ?m then Some (bit_list ?m ! k) else None)"
        using less.prems lt n S by (intro less.hyps) simp_all
      finally show ?thesis
        unfolding diff cons n by (simp add: Let_def)
    qed
  qed
qed

text \<open>
  The description of a counter. \<open>counter_get_info\<close>, which steps through the counter mask by
  clearing its lowest bit, finds the same offset as \<open>get_mhpm_csr_offset\<close>, which tests every
  offset in turn: the position of the mask bit with the number of the counter. It describes
  that register with 64 bits, reports the remaining sixteen counters as firmware counters, and
  refuses the \<open>time\<close> register and every larger number.
\<close>

theorem counter_get_info_correct:
  assumes "pmu_inv h st"
  shows "(i < hw_counters_num st \<longrightarrow> info_loop (hart_mhpm_mask h) i 0 = get_mhpm_csr_offset h i) \<and>
    counter_get_info h st i =
      (let n = count_ones (hart_mhpm_mask h); offset = bit_list (hart_mhpm_mask h) ! unat i
       in if n + 16 \<le> unat i then sbi_invalid_param
          else if n \<le> unat i then sbi_success with_firmware_info
          else if offset = 1 then sbi_invalid_param
          else sbi_success (with_hardware_info (CSR_CYCLE + word_of_nat offset) 63))"
proof -
  have loop: "info_loop (hart_mhpm_mask h) i 0 = get_mhpm_csr_offset h i"
    using count_ones_u32 [of "hart_mhpm_mask h"] by (simp add: info_loop_nth csr_offset_nth Let_def)
  then show ?thesis
    using pmu_inv_nums [OF assms]
    by (simp add: counter_get_info_def num_counters_def csr_offset_nth Let_def word_le_nat_alt
        word_less_nat_alt)
qed

section \<open>Selected counters\<close>

lemma counter_list_hart_ids: "counter_list base m = hart_ids_collect (MaskBase m base)"
proof (induction base m rule: counter_list.induct)
  case (1 base m)
  then show ?case
    by (subst counter_list.simps, subst hart_ids_collect.simps)
      (auto simp: counter_next_def Let_def obind_def split: outcome.splits)
qed

lemma window_size:
  assumes "pmu_inv h st" and "base \<le> total_counters_num st"
  shows "unat (ucast (total_counters_num st - base) :: u32) = unat (total_counters_num st) - unat base"
    and "unat (total_counters_num st) - unat base \<le> 48"
proof -
  show n: "unat (total_counters_num st) - unat base \<le> 48"
    using pmu_inv_nums(2) [OF assms(1)] count_ones_u32 [of "hart_mhpm_mask h"] by simp
  with unat_le_sub [OF assms(2)]
  show "unat (ucast (total_counters_num st - base) :: u32) = unat (total_counters_num st) - unat base"
    by (simp add: unsigned_ucast_eq take_bit_nat_eq_self)
qed

lemma unselected:
  assumes "pmu_inv h st" and "\<not> bad_counters st base m"
  shows "m \<noteq> 0" and "bit m i \<Longrightarrow> unat base + i < count_ones (hart_mhpm_mask h) + 16"
proof -
  let ?t = "total_counters_num st"
  have le: "base \<le> ?t" "unat base < unat ?t"
    using assms(2) by (simp_all add: bad_counters_def not_le less_imp_le flip: word_less_nat_alt)
  define n where "n = unat ?t - unat base"
  have "unat (ucast (?t - base) :: u32) = n" "n \<le> 48"
    using window_size [OF assms(1) le(1)] by (simp_all add: n_def)
  then have z: "m \<noteq> 0" "drop_bit n m = 0"
    using assms(2) by (auto simp: bad_counters_def Let_def)
  then show "m \<noteq> 0"
    by simp
  assume "bit m i"
  have "i < n"
  proof (rule ccontr)
    assume "\<not> i < n"
    then have "bit (drop_bit n m) (i - n)"
      using \<open>bit m i\<close> by (simp add: bit_drop_bit_eq)
    with z(2) show False
      by simp
  qed
  then show "unat base + i < count_ones (hart_mhpm_mask h) + 16"
    using le(2) pmu_inv_nums(2) [OF assms(1)] by (simp add: n_def)
qed

lemma selected_counters:
  assumes "pmu_inv h st" and "\<not> bad_counters st base m"
  shows "counter_list base m = Ret (mask_ids m base)"
    and "i \<in> set (mask_ids m base) \<longleftrightarrow> (\<exists>k. bit m k \<and> unat i = unat base + k)"
    and "i \<in> set (mask_ids m base) \<Longrightarrow> unat i < count_ones (hart_mhpm_mask h) + 16"
proof -
  have "mask_fits m base"
    using unselected(2) [OF assms] count_ones_u32 [of "hart_mhpm_mask h"]
    by (fastforce simp: mask_fits_def set_bit_list)
  then show "counter_list base m = Ret (mask_ids m base)"
    and mem: "i \<in> set (mask_ids m base) \<longleftrightarrow> (\<exists>k. bit m k \<and> unat i = unat base + k)"
    by (simp_all add: counter_list_hart_ids hart_ids_collect_MaskBase set_mask_ids)
  show "i \<in> set (mask_ids m base) \<Longrightarrow> unat i < count_ones (hart_mhpm_mask h) + 16"
    unfolding mem using unselected(2) [OF assms] by fastforce
qed

section \<open>The calls return and keep the state well-formed\<close>

lemma fw_index:
  assumes "pmu_inv h st" and "\<not> (i < hw_counters_num st \<or> total_counters_num st \<le> i)"
  shows "unat (i - hw_counters_num st) = unat i - count_ones (hart_mhpm_mask h)"
    and "unat (i - hw_counters_num st) < 16" and "unat i < 48"
    and "count_ones (hart_mhpm_mask h) \<le> unat i"
proof -
  note n = pmu_inv_nums [OF assms(1)]
  have i: "count_ones (hart_mhpm_mask h) \<le> unat i" "unat i < count_ones (hart_mhpm_mask h) + 16"
    using assms(2) n by (simp_all add: word_less_nat_alt word_le_nat_alt not_less not_le)
  show "unat (i - hw_counters_num st) = unat i - count_ones (hart_mhpm_mask h)"
    using unat_le_sub [of "hw_counters_num st" i] assms(2) n by (simp add: not_less)
  then show "unat (i - hw_counters_num st) < 16"
    using i by simp
  show "unat i < 48" "count_ones (hart_mhpm_mask h) \<le> unat i"
    using i count_ones_u32 [of "hart_mhpm_mask h"] by simp_all
qed

lemma start_fw_counter_ok:
  assumes "pmu_inv h st"
  shows "\<exists>e st'. start_fw_counter st i v u = Ret (e, st') \<and> pmu_inv h st'"
proof (cases "i < hw_counters_num st \<or> total_counters_num st \<le> i")
  case False
  with assms fw_index [OF assms False] show ?thesis
    by (auto simp: start_fw_counter_def Let_def array_set_def pmu_inv_def bit_or_iff bit_one_bit)
qed (use assms in \<open>simp add: start_fw_counter_def\<close>)

lemma stop_fw_counter_ok:
  assumes "pmu_inv h st"
  shows "\<exists>e st'. stop_fw_counter st i u = Ret (e, st') \<and> pmu_inv h st'"
proof (cases "i < hw_counters_num st \<or> total_counters_num st \<le> i")
  case False
  with assms fw_index [OF assms False] show ?thesis
    by (auto simp: stop_fw_counter_def Let_def array_set_def pmu_inv_def bit_and_iff)
qed (use assms in \<open>simp add: stop_fw_counter_def\<close>)

lemma hw_offset:
  assumes "pmu_inv h st" and "\<not> hw_counters_num st \<le> i"
  obtains offset where "get_mhpm_csr_offset h i = Some offset" "unat i < 48"
  using assms pmu_inv_nums(1) [OF assms(1)] count_ones_u32 [of "hart_mhpm_mask h"]
  by (simp add: csr_offset_nth word_le_nat_alt not_le)

lemma start_loop_ok:
  "pmu_inv h (fst s) \<Longrightarrow> \<exists>res s'. start_loop h s v u is = Ret (res, s') \<and> pmu_inv h (fst s')"
proof (induction "is" arbitrary: s)
  case (Cons i "is")
  obtain st r where s: "s = (st, r)"
    by (cases s)
  then have inv: "pmu_inv h st"
    using Cons.prems by simp
  show ?case
  proof (cases "total_counters_num st \<le> i")
    case False
    let ?step = "if hw_counters_num st \<le> i then omap (\<lambda>(e, st). (e, st, r)) (start_fw_counter st i v u)
         else obind (expect (get_mhpm_csr_offset h i)) (\<lambda>offset.
           case start_hardware_counter h r offset v u of (e, r) \<Rightarrow> Ret (e, st, r))"
    obtain e s' where s': "?step = Ret (e, s')" "pmu_inv h (fst s')"
    proof (cases "hw_counters_num st \<le> i")
      case True
      with start_fw_counter_ok [OF inv, of i v u] that show ?thesis
        by auto
    next
      case False
      note fin = that
      from False inv obtain offset where "get_mhpm_csr_offset h i = Some offset"
        by (auto elim: hw_offset)
      moreover obtain e r' where "start_hardware_counter h r offset v u = (e, r')"
        by fastforce
      ultimately show ?thesis
        using False inv fin [of e "(st, r')"] by simp
    qed
    with Cons.IH [of s'] False show ?thesis
      by (cases s') (auto simp: s split: option.splits StartCounterErr.splits)
  qed (use inv in \<open>simp add: s\<close>)
qed simp

lemma stop_loop_ok:
  "pmu_inv h (fst s) \<Longrightarrow> \<exists>res' s'. stop_loop h s u res is = Ret (res', s') \<and> pmu_inv h (fst s')"
proof (induction "is" arbitrary: s res)
  case (Cons i "is")
  obtain st r where s: "s = (st, r)"
    by (cases s)
  then have inv: "pmu_inv h st"
    using Cons.prems by simp
  show ?case
  proof (cases "total_counters_num st \<le> i \<or> hw_counters_num st \<le> i")
    case True
    obtain e st' where "stop_fw_counter st i u = Ret (e, st')" "pmu_inv h st'"
      using stop_fw_counter_ok [OF inv] by blast
    with True Cons.IH [of "(st', r)"] inv show ?thesis
      by (auto simp: s split: option.splits StopCounterErr.splits)
  next
    case False
    with inv obtain offset where o: "get_mhpm_csr_offset h i = Some offset" "unat i < 48"
      by (auto elim: hw_offset)
    obtain as where as: "(if u then array_set (active_event st) (unat i) PMU_EVENT_IDX_INVALID
        else Ret (active_event st)) = Ret as" "pmu_inv h (st\<lparr>active_event := as\<rparr>)"
      using inv o(2) by (cases u) (auto simp: array_set_def pmu_inv_def)
    obtain e r' where hw: "stop_hardware_counter h r offset u = (e, r')"
      by fastforce
    show ?thesis
      using False o(1) as hw inv Cons.IH [of "(st, r)"] Cons.IH [of "(st\<lparr>active_event := as\<rparr>, r')"]
      by (auto simp: s Let_def split: option.splits StopCounterErr.splits)
  qed
qed simp

lemma counter_start_ok:
  assumes "pmu_inv h (fst s)"
  shows "\<exists>res s'. counter_start h s base m flags v = Ret (res, s') \<and> pmu_inv h (fst s')"
  using assms start_loop_ok [OF assms] selected_counters(1) [OF assms]
  by (cases s) (auto simp: counter_start_def split: option.splits)

lemma counter_stop_ok:
  assumes "pmu_inv h (fst s)"
  shows "\<exists>res s'. counter_stop h s base m flags = Ret (res, s') \<and> pmu_inv h (fst s')"
  using assms stop_loop_ok [OF assms] selected_counters(1) [OF assms]
  by (cases s) (auto simp: counter_stop_def split: option.splits)

lemma counter_fw_read_ok:
  assumes "pmu_inv h st"
  shows "counter_fw_read st i \<noteq> Panic"
proof (cases "i < hw_counters_num st \<or> total_counters_num st \<le> i")
  case True
  then show ?thesis
    by (auto simp: counter_fw_read_def get_event_idx_def)
next
  case False
  with fw_index [OF assms False] assms show ?thesis
    by (simp add: counter_fw_read_def get_event_idx_def get_fw_counter_def array_get_def pmu_inv_def)
qed

definition fw_free :: "PmuState \<Rightarrow> usize \<Rightarrow> bool" where
  "fw_free st i \<longleftrightarrow> hw_counters_num st \<le> i \<and> active_event st ! unat i = PMU_EVENT_IDX_INVALID"

lemma find_firmware_loop_find:
  assumes "pmu_inv h st" and "\<forall>i\<in>set is. unat i < count_ones (hart_mhpm_mask h) + 16"
  shows "find_firmware_loop st is =
    Ret (case find (fw_free st) is of None \<Rightarrow> Inl sbi_not_supported | Some i \<Rightarrow> Inr i)"
  using assms(2)
proof (induction "is")
  case (Cons i "is")
  have i: "\<not> total_counters_num st \<le> i" "unat i < length (active_event st)"
    using Cons.prems pmu_inv_nums(2) [OF assms(1)] assms(1) count_ones_u32 [of "hart_mhpm_mask h"]
    by (simp_all add: word_le_nat_alt pmu_inv_def)
  with Cons show ?case
    by (auto simp: fw_free_def array_get_def not_le)
qed simp

lemma configure_firmware:
  assumes "pmu_inv h st" and "is_firmware_event event"
    and "hw_counters_num st \<le> i" and "unat i < count_ones (hart_mhpm_mask h) + 16"
  shows "configure_counter h (st, r) i event flags =
    (let k = unat (i - hw_counters_num st)
     in Ret (None, st\<lparr>fw_counter := (if has_flag flags CLEAR_VALUE then (fw_counter st)[k := 0] else fw_counter st),
          fw_counter_state := (if has_flag flags AUTO_START then fw_counter_state st OR one_bit k
            else fw_counter_state st)\<rparr>, r))"
proof -
  have ok: "\<not> (i < hw_counters_num st \<or> total_counters_num st \<le> i)"
    using assms(3,4) pmu_inv_nums(2) [OF assms(1)] by (simp add: not_less word_le_nat_alt)
  have "unat (i - hw_counters_num st) < 16"
    using fw_index(2) [OF assms(1) ok] .
  moreover from this have "\<not> 16 \<le> i - hw_counters_num st"
    by (simp add: word_le_nat_alt)
  moreover have "length (fw_counter st) = 16"
    using assms(1) by (simp add: pmu_inv_def)
  ultimately show ?thesis
    using assms(2,3)
    by (simp add: configure_counter_def sub_ovf_def PMU_FIRMWARE_COUNTER_MAX_def array_set_def Let_def)
qed

lemma configure_hardware:
  assumes "pmu_inv h st" and "\<not> is_firmware_event event" and "\<not> hw_counters_num st \<le> i"
  shows "\<exists>e r'. configure_counter h (st, r) i event flags = Ret (e, st, r')"
proof -
  obtain offset where "get_mhpm_csr_offset h i = Some offset"
    using hw_offset [OF assms(1,3)] .
  with assms(2) show ?thesis
    by (auto simp: configure_counter_def Let_def split: prod.splits option.splits)
qed

lemma is_fixed_counter_hw:
  "pmu_inv h st \<Longrightarrow> is_fixed_counter h event i \<Longrightarrow> \<not> hw_counters_num st \<le> i"
  using pmu_inv_nums(1) [of h st]
  by (auto simp: is_fixed_counter_def csr_offset_nth word_le_nat_alt split: if_splits)

lemma find_hardware_loop_ok:
  assumes "pmu_inv h st"
  shows "\<exists>res r'. find_hardware_loop p h st r usable event data is = Ret (res, r') \<and>
    (\<forall>i. res = Some (Inr i) \<longrightarrow> \<not> hw_counters_num st \<le> i)"
proof (induction "is")
  case (Cons i "is")
  show ?case
  proof (cases "hw_counters_num st \<le> i")
    case False
    then obtain offset where "get_mhpm_csr_offset h i = Some offset" "unat i < 48"
      using hw_offset [OF assms] by blast
    moreover have "length (active_event st) = 48"
      using assms by (simp add: pmu_inv_def)
    ultimately show ?thesis
      using Cons False by (auto simp: array_get_def split: sum.splits)
  qed (use Cons in simp)
qed simp

lemma find_hardware_counter_ok:
  assumes "pmu_inv h st" and "\<not> bad_counters st base m"
  shows "\<exists>res r'. find_hardware_counter p h st r base m event data = Ret (res, r') \<and>
    (\<forall>i. res = Inr i \<longrightarrow> \<not> hw_counters_num st \<le> i)"
proof -
  let ?is = "mask_ids m base"
  let ?fixed = "case find (is_fixed_counter h event) ?is of None \<Rightarrow> Inl sbi_not_supported | Some i \<Rightarrow> Inr i"
  have fixed: "?fixed = Inr i \<Longrightarrow> \<not> hw_counters_num st \<le> i" for i
    using is_fixed_counter_hw [OF assms(1)] by (auto simp: find_Some_iff split: option.splits)
  show ?thesis
  proof (cases "event_counters p event data ?fixed")
    case (Inl res)
    then have "res = ?fixed \<or> res = Inl sbi_not_supported"
      by (auto simp: event_counters_def split: if_splits option.splits)
    then have "\<forall>i. res = Inr i \<longrightarrow> \<not> hw_counters_num st \<le> i"
      using fixed by (metis sum.distinct(1))
    with Inl show ?thesis
      by (simp add: find_hardware_counter_def selected_counters(1) [OF assms] Let_def)
  next
    case (Inr mask)
    obtain res r' where "find_hardware_loop p h st r (mask AND hart_mhpm_mask h) event data ?is = Ret (res, r')"
      "\<forall>i. res = Some (Inr i) \<longrightarrow> \<not> hw_counters_num st \<le> i"
      using find_hardware_loop_ok [OF assms(1)] by blast
    with Inr fixed show ?thesis
      by (auto simp: find_hardware_counter_def selected_counters(1) [OF assms] Let_def split: option.splits)
  qed
qed

lemma active_event_set:
  assumes "pmu_inv h st" and "unat i < count_ones (hart_mhpm_mask h) + 16"
  shows "array_set (active_event st) (unat i) event = Ret ((active_event st)[unat i := event])"
    and "pmu_inv h (st\<lparr>active_event := (active_event st)[unat i := event]\<rparr>)"
  using assms count_ones_u32 [of "hart_mhpm_mask h"] by (simp_all add: array_set_def pmu_inv_def)

definition config_accepts :: "PmuState \<Rightarrow> usize \<Rightarrow> usize \<Rightarrow> usize \<Rightarrow> EventIdx \<Rightarrow> bool" where
  "config_accepts st base m flags event \<longleftrightarrow> flags_from_bits CONFIG_FLAGS_ALL flags = Some flags \<and>
     \<not> bad_counters st base m \<and> check_event_type event \<and>
     (is_firmware_event event \<longrightarrow> firmware_event_valid event)"

lemma config_refused:
  "\<not> config_accepts st base m flags event \<Longrightarrow>
   counter_config_matching p h (st, r) base m flags event data = Ret (sbi_invalid_param, st, r)"
  by (auto simp: config_accepts_def counter_config_matching_def flags_from_bits_def)

definition configured :: "PmuState \<Rightarrow> usize \<Rightarrow> EventIdx \<Rightarrow> usize \<Rightarrow> PmuState" where
  "configured st i event flags =
     (let k = unat (i - hw_counters_num st)
      in st\<lparr>active_event := (active_event st)[unat i := event],
          fw_counter := (if has_flag flags CLEAR_VALUE then (fw_counter st)[k := 0] else fw_counter st),
          fw_counter_state := (if has_flag flags AUTO_START then fw_counter_state st OR one_bit k
            else fw_counter_state st)\<rparr>)"

lemma config_firmware_run:
  assumes "pmu_inv h st" and "config_accepts st base m flags event"
    and "is_firmware_event event" and "\<not> has_flag flags SKIP_MATCH"
  shows "counter_config_matching p h (st, r) base m flags event data =
    Ret (case find (fw_free st) (mask_ids m base) of
        None \<Rightarrow> (sbi_not_supported, st, r)
      | Some i \<Rightarrow> (sbi_success i, configured st i event flags, r))"
proof -
  have bad: "\<not> bad_counters st base m"
    using assms(2) by (simp add: config_accepts_def)
  note sel = selected_counters [OF assms(1) bad]
  have find: "find_firmware_counter st base m event =
      Ret (case find (fw_free st) (mask_ids m base) of None \<Rightarrow> Inl sbi_not_supported | Some i \<Rightarrow> Inr i)"
    using assms(2,3) sel(1,3) find_firmware_loop_find [OF assms(1)]
    by (simp add: find_firmware_counter_def config_accepts_def)
  show ?thesis
  proof (cases "find (fw_free st) (mask_ids m base)")
    case None
    then show ?thesis
      using assms find by (simp add: counter_config_matching_def config_accepts_def)
  next
    case (Some i)
    then have i: "unat i < count_ones (hart_mhpm_mask h) + 16" "hw_counters_num st \<le> i"
      using sel(3) by (auto simp: find_Some_iff fw_free_def)
    let ?st = "st\<lparr>active_event := (active_event st)[unat i := event]\<rparr>"
    have "configure_counter h (?st, r) i event flags = Ret (None, configured st i event flags, r)"
      using configure_firmware [OF active_event_set(2) [OF assms(1) i(1)] assms(3), where i = i and r = r and flags = flags] i
      by (simp add: configured_def Let_def)
    then show ?thesis
      using assms find Some active_event_set(1) [OF assms(1) i(1)]
      by (simp add: counter_config_matching_def config_accepts_def)
  qed
qed

lemma configured_inv:
  assumes "pmu_inv h st" and "unat i < count_ones (hart_mhpm_mask h) + 16" and "hw_counters_num st \<le> i"
  shows "pmu_inv h (configured st i event flags)"
proof -
  have "unat (i - hw_counters_num st) < 16"
    using fw_index(2) [OF assms(1), of i] assms(2,3) pmu_inv_nums(2) [OF assms(1)]
    by (simp add: word_le_nat_alt not_less)
  with assms(1) show ?thesis
    by (auto simp: configured_def Let_def pmu_inv_def bit_or_iff bit_one_bit)
qed

lemma config_hardware_ok:
  assumes "pmu_inv h st" and "config_accepts st base m flags event"
    and "\<not> is_firmware_event event" and "\<not> has_flag flags SKIP_MATCH"
  shows "\<exists>res st' r'. counter_config_matching p h (st, r) base m flags event data = Ret (res, st', r') \<and>
    pmu_inv h st'"
proof -
  have bad: "\<not> bad_counters st base m"
    using assms(2) by (simp add: config_accepts_def)
  obtain res r' where res: "find_hardware_counter p h st r base m event data = Ret (res, r')"
    "\<And>i. res = Inr i \<Longrightarrow> \<not> hw_counters_num st \<le> i"
    using find_hardware_counter_ok [OF assms(1) bad] by blast
  show ?thesis
  proof (cases res)
    case (Inl e)
    then show ?thesis
      using assms res(1) by (simp add: counter_config_matching_def config_accepts_def)
  next
    case (Inr i)
    then have i: "\<not> hw_counters_num st \<le> i" "unat i < count_ones (hart_mhpm_mask h) + 16"
      using res(2) pmu_inv_nums(1) [OF assms(1)] by (auto simp: word_le_nat_alt)
    let ?st = "st\<lparr>active_event := (active_event st)[unat i := event]\<rparr>"
    note upd = active_event_set [OF assms(1) i(2), of event]
    obtain e r'' where "configure_counter h (?st, r') i event flags = Ret (e, ?st, r'')"
      using configure_hardware [OF upd(2) assms(3), where i = i and r = r' and flags = flags] i(1) by auto
    then show ?thesis
      using assms res(1) Inr upd by (auto simp: counter_config_matching_def config_accepts_def)
  qed
qed

lemma config_ok:
  assumes "pmu_inv h st" and "\<not> has_flag flags SKIP_MATCH"
  shows "\<exists>res st' r'. counter_config_matching p h (st, r) base m flags event data = Ret (res, st', r') \<and>
    pmu_inv h st'"
proof (cases "config_accepts st base m flags event")
  case acc: True
  then have bad: "\<not> bad_counters st base m"
    by (simp add: config_accepts_def)
  show ?thesis
  proof (cases "is_firmware_event event")
    case True
    have "pmu_inv h (configured st i event flags)" if "find (fw_free st) (mask_ids m base) = Some i" for i
      using that selected_counters(3) [OF assms(1) bad]
      by (intro configured_inv [OF assms(1)]) (auto simp: find_Some_iff fw_free_def)
    then show ?thesis
      using config_firmware_run [OF assms(1) acc True assms(2)] assms(1)
      by (auto split: option.splits)
  qed (rule config_hardware_ok [OF assms(1) acc _ assms(2)])
qed (use assms(1) in \<open>simp add: config_refused\<close>)

lemma config_firmware_accepted:
  assumes "pmu_inv h st" and "config_accepts st base m flags event"
    and "is_firmware_event event" and "\<not> has_flag flags SKIP_MATCH"
  shows "case counter_config_matching p h (st, r) base m flags event data of
      Panic \<Rightarrow> False
    | Ret (res, st', r') \<Rightarrow> r' = r \<and>
      ((\<exists>i k. res = sbi_success i \<and> bit m k \<and> unat i = unat base + k \<and> fw_free st i \<and>
         (\<forall>j l. bit m l \<and> unat j = unat base + l \<and> fw_free st j \<longrightarrow> i \<le> j) \<and>
         st' = configured st i event flags \<and> pmu_inv h st')
       \<or> res = sbi_not_supported \<and> st' = st \<and>
         (\<forall>i k. bit m k \<and> unat i = unat base + k \<longrightarrow> \<not> fw_free st i))"
proof -
  have bad: "\<not> bad_counters st base m"
    using assms(2) by (simp add: config_accepts_def)
  note sel = selected_counters [OF assms(1) bad]
  show ?thesis
  proof (cases "find (fw_free st) (mask_ids m base)")
    case None
    then have "\<not> fw_free st i" if "i \<in> set (mask_ids m base)" for i
      using that by (simp add: find_None_iff)
    then show ?thesis
      using config_firmware_run [OF assms] None sel(2) by auto
  next
    case (Some i)
    then obtain n where n: "n < length (mask_ids m base)" "fw_free st (mask_ids m base ! n)"
      "i = mask_ids m base ! n" "\<And>j. j < n \<Longrightarrow> \<not> fw_free st (mask_ids m base ! j)"
      by (auto simp: find_Some_iff)
    have fits: "mask_fits m base"
      using unselected(2) [OF assms(1) bad] count_ones_u32 [of "hart_mhpm_mask h"]
      by (fastforce simp: mask_fits_def set_bit_list)
    have least: "i \<le> j" if "j \<in> set (mask_ids m base)" "fw_free st j" for j
    proof -
      obtain l where l: "l < length (mask_ids m base)" "j = mask_ids m base ! l"
        using \<open>j \<in> set (mask_ids m base)\<close> by (auto simp: in_set_conv_nth)
      then have "n \<le> l"
        using n(4) that(2) not_less by blast
      then show ?thesis
        using mask_ids_sorted_distinct(1) [OF fits] l n(3) by (simp add: sorted_nth_mono)
    qed
    have mem: "i \<in> set (mask_ids m base)" and free: "fw_free st i"
      using n by simp_all
    have "pmu_inv h (configured st i event flags)"
      using mem free sel(3) by (intro configured_inv [OF assms(1)]) (auto simp: fw_free_def)
    moreover obtain k where "bit m k" "unat i = unat base + k"
      using mem sel(2) by blast
    moreover have "\<forall>j l. bit m l \<and> unat j = unat base + l \<and> fw_free st j \<longrightarrow> i \<le> j"
      using least sel(2) by blast
    moreover have "counter_config_matching p h (st, r) base m flags event data =
        Ret (sbi_success i, configured st i event flags, r)"
      using config_firmware_run [OF assms] Some by simp
    ultimately show ?thesis
      using free by (simp del: unat_eq_iff) blast
  qed
qed

text \<open>
  C29: configuring a firmware event without \<open>SKIP_MATCH\<close>, from any consistent state. When a reserved
  flag bit is set, a selected counter does not exist, none is selected or the event is not valid,
  the call answers invalid-parameter and changes nothing. Otherwise it returns the
  lowest selected firmware counter that has no event, assigns the event to it, clears its value
  and starts it as the flags ask, and touches no other counter; when no selected firmware counter is
  free it answers not-supported and changes nothing.
\<close>

theorem config_firmware_correct:
  assumes "pmu_inv h st" and "is_firmware_event event" and "\<not> has_flag flags SKIP_MATCH"
  shows "case counter_config_matching p h (st, r) base m flags event data of
      Panic \<Rightarrow> False
    | Ret (res, st', r') \<Rightarrow> r' = r \<and>
      (if config_accepts st base m flags event then
        (\<exists>i k. res = sbi_success i \<and> bit m k \<and> unat i = unat base + k \<and> fw_free st i \<and>
         (\<forall>j l. bit m l \<and> unat j = unat base + l \<and> fw_free st j \<longrightarrow> i \<le> j) \<and>
         st' = configured st i event flags \<and> pmu_inv h st')
       \<or> res = sbi_not_supported \<and> st' = st \<and>
         (\<forall>i k. bit m k \<and> unat i = unat base + k \<longrightarrow> \<not> fw_free st i)
      else res = sbi_invalid_param \<and> st' = st)"
proof (cases "config_accepts st base m flags event")
  case True
  show ?thesis
    using config_firmware_accepted [OF assms(1) True assms(2,3), where p = p and r = r and data = data] unfolding if_P [OF True] .
qed (simp add: config_refused)

section \<open>Counting\<close>

definition counts :: "pmu_hart \<Rightarrow> PmuState \<Rightarrow> usize \<Rightarrow> nat \<Rightarrow> bool" where
  "counts h st event k \<longleftrightarrow> bit (fw_counter_state st) k \<and>
     active_event st ! (count_ones (hart_mhpm_mask h) + k) = from_firmware_event event"

lemma fw_number:
  assumes "pmu_inv h st" and "k < 16"
  shows "unat (hw_counters_num st + word_of_nat k) = count_ones (hart_mhpm_mask h) + k"
    and "count_ones (hart_mhpm_mask h) + k < length (active_event st)"
    and "is_firmware_event_start st (hw_counters_num st + word_of_nat k) \<longleftrightarrow> bit (fw_counter_state st) k"
proof -
  let ?i = "hw_counters_num st + word_of_nat k"
  note n = pmu_inv_nums [OF assms(1)] count_ones_u32 [of "hart_mhpm_mask h"]
  have k: "unat (word_of_nat k :: usize) = k"
    using assms(2) by (simp add: unat_of_nat take_bit_nat_eq_self)
  show i: "unat ?i = count_ones (hart_mhpm_mask h) + k"
    using unat_add_no_ovf [of "hw_counters_num st" "word_of_nat k"] n k assms(2) by simp
  then have "\<not> (?i < hw_counters_num st \<or> total_counters_num st \<le> ?i)"
    using n assms(2) by (simp add: word_less_nat_alt word_le_nat_alt)
  then show "is_firmware_event_start st ?i \<longleftrightarrow> bit (fw_counter_state st) k"
    using k assms(2) by (simp add: is_firmware_event_start_def and_one_bit_eq_0)
  show "count_ones (hart_mhpm_mask h) + k < length (active_event st)"
    using assms n by (simp add: pmu_inv_def)
qed

lemma increment_step:
  assumes "pmu_inv h st" and "k < 16"
  shows "increment_loop st event (k # ks) =
    (if counts h st event k
     then if fw_counter st ! k = usize_MAX then Panic
       else increment_loop (st\<lparr>fw_counter := (fw_counter st)[k := fw_counter st ! k + 1]\<rparr>) event ks
     else increment_loop st event ks)"
proof -
  have len: "k < length (fw_counter st)"
    using assms by (simp add: pmu_inv_def)
  have add: "add_ovf v 1 = (if v = usize_MAX then Panic else Ret (v + 1))" for v :: u64
  proof (cases "v = usize_MAX")
    case False
    then have "unat v \<noteq> unat usize_MAX"
      by simp
    then have "unat v + unat (1 :: u64) < 2 ^ 64"
      using unat_usize [of v] by (simp add: unat_usize_MAX)
    with False show ?thesis
      by (simp add: add_ovf_def checked_add_def)
  qed (simp add: add_ovf_def checked_add_def unat_usize_MAX)
  show ?thesis
    using fw_number [OF assms] len by (simp add: counts_def add array_get_def array_set_def Let_def)
qed

lemma increment_loop_counts:
  assumes "pmu_inv h st" and "distinct ks" and "set ks \<subseteq> {..<16}"
  shows "case increment_loop st event ks of
      Panic \<Rightarrow> \<exists>k\<in>set ks. counts h st event k \<and> fw_counter st ! k = usize_MAX
    | Ret st' \<Rightarrow> (\<forall>k\<in>set ks. \<not> (counts h st event k \<and> fw_counter st ! k = usize_MAX)) \<and>
        (\<exists>cs. st' = st\<lparr>fw_counter := cs\<rparr> \<and> length cs = 16 \<and>
          (\<forall>k<16. cs ! k = fw_counter st ! k + (if k \<in> set ks \<and> counts h st event k then 1 else 0)))"
  using assms
proof (induction ks arbitrary: st)
  case Nil
  then show ?case
    by (auto simp: pmu_inv_def intro!: exI [of _ "fw_counter st"])
next
  case (Cons k ks)
  have k: "k < 16" "k \<notin> set ks" "k < length (fw_counter st)"
    using Cons.prems by (auto simp: pmu_inv_def)
  show ?case
  proof (cases "counts h st event k \<and> fw_counter st ! k \<noteq> usize_MAX")
    case True
    let ?st = "st\<lparr>fw_counter := (fw_counter st)[k := fw_counter st ! k + 1]\<rparr>"
    have "pmu_inv h ?st"
      using Cons.prems(1) by (simp add: pmu_inv_def)
    note IH = Cons.IH [OF this]
    have same: "counts h ?st event j = counts h st event j" for j
      by (simp add: counts_def)
    have at: "fw_counter ?st ! j = (if j = k then fw_counter st ! k + 1 else fw_counter st ! j)" for j
      using k by simp
    show ?thesis
      using IH Cons.prems True k
      unfolding increment_step [OF Cons.prems(1) k(1)] same at
      by (cases "increment_loop ?st event ks") (auto split: if_splits)
  next
    case False
    then show ?thesis
      using Cons.IH [OF Cons.prems(1)] Cons.prems k
      unfolding increment_step [OF Cons.prems(1) k(1)]
      by (cases "increment_loop st event ks") (auto split: if_splits)
  qed
qed

lemma firmware_event_counts:
  assumes "pmu_inv h st"
  shows "case pmu_firmware_counter_increment True st event of
      Panic \<Rightarrow> True
    | Ret st' \<Rightarrow> (\<exists>cs. st' = st\<lparr>fw_counter := cs\<rparr> \<and> length cs = 16)"
proof -
  have "distinct [0..<16]" "set [0..<16::nat] \<subseteq> {..<16}"
    by auto
  note loop = increment_loop_counts [OF assms this, of event]
  show ?thesis
  proof (cases "fw_counter_state st = 0")
    case True
    then show ?thesis
      using assms
      by (auto simp: pmu_firmware_counter_increment_def pmu_inv_def intro!: exI [of _ "fw_counter st"])
  next
    case False
    then show ?thesis
      using loop by (auto simp: pmu_firmware_counter_increment_def PMU_FIRMWARE_COUNTER_MAX_def split: outcome.splits)
  qed
qed

text \<open>
  C28: a firmware event adds one to exactly the running firmware counters that are configured for it
  and changes nothing else. With overflow checks it panics exactly when one of those counters
  holds the largest 64-bit value, which the supervisor may have written as its initial value.
\<close>

theorem firmware_event_counted:
  assumes "pmu_inv h st"
  shows "case pmu_firmware_counter_increment True st event of
      Panic \<Rightarrow> \<exists>k<16. counts h st event k \<and> fw_counter st ! k = usize_MAX
    | Ret st' \<Rightarrow> (\<forall>k<16. counts h st event k \<longrightarrow> fw_counter st ! k \<noteq> usize_MAX) \<and>
        (\<exists>cs. st' = st\<lparr>fw_counter := cs\<rparr> \<and> length cs = 16 \<and>
          (\<forall>k<16. cs ! k = fw_counter st ! k + (if counts h st event k then 1 else 0)))"
proof (cases "fw_counter_state st = 0")
  case True
  then have "\<not> counts h st event k" for k
    by (simp add: counts_def)
  then show ?thesis
    using assms True
    by (auto simp: pmu_firmware_counter_increment_def pmu_inv_def intro!: exI [of _ "fw_counter st"])
next
  case False
  then have run: "pmu_firmware_counter_increment True st event = increment_loop st event [0..<16]"
    by (simp add: pmu_firmware_counter_increment_def PMU_FIRMWARE_COUNTER_MAX_def)
  have "distinct [0..<16]" "set [0..<16::nat] \<subseteq> {..<16}"
    by auto
  from increment_loop_counts [OF assms this, of event] show ?thesis
    unfolding run by (cases "increment_loop st event [0..<16]") auto
qed

section \<open>Reachable states\<close>

lemma configure_inv:
  assumes "configure_counter h (st, r) i event flags = Ret (e, st', r')" and "pmu_inv h st"
  shows "pmu_inv h st'"
proof (cases "is_firmware_event event")
  case True
  with assms show ?thesis
    by (auto simp: configure_counter_def obind_eq_Ret sub_ovf_def PMU_FIRMWARE_COUNTER_MAX_def
        pmu_inv_def array_set_def bit_or_iff bit_one_bit word_le_nat_alt omap_def
        split: if_splits outcome.splits)
next
  case False
  with assms show ?thesis
    by (auto simp: configure_counter_def obind_eq_Ret Let_def split: if_splits prod.splits option.splits)
qed

lemma skip_match_run:
  assumes "config_accepts st base m flags event" and "has_flag flags SKIP_MATCH"
  shows "counter_config_matching p h (st, r) base m flags event data =
    obind (counter_next base m) (\<lambda>(first, _). case first of
        None \<Rightarrow> Ret (sbi_invalid_param, st, r)
      | Some i \<Rightarrow> obind (array_get (active_event st) (unat i)) (\<lambda>active.
          if active = PMU_EVENT_IDX_INVALID then Ret (sbi_invalid_param, st, r)
          else omap (\<lambda>(e, s). (case e of None \<Rightarrow> sbi_success i | Some e \<Rightarrow> e, s))
            (configure_counter h (st, r) i event flags)))"
  using assms by (auto simp: counter_config_matching_def config_accepts_def)

lemma config_inv:
  assumes "counter_config_matching p h (st, r) base m flags event data = Ret (res, st', r')"
    and "pmu_inv h st"
  shows "pmu_inv h st'"
proof (cases "config_accepts st base m flags event \<and> has_flag flags SKIP_MATCH")
  case True
  then obtain first m' where nx: "counter_next base m = Ret (first, m')"
    using assms(1) by (auto simp: skip_match_run obind_eq_Ret)
  show ?thesis
  proof (cases first)
    case None
    then show ?thesis
      using assms True nx by (simp add: skip_match_run)
  next
    case (Some i)
    show ?thesis
      using assms True nx Some
      by (cases "configure_counter h (st, r) i event flags")
        (auto simp: skip_match_run obind_eq_Ret dest: configure_inv split: if_splits)
  qed
next
  case False
  then consider "\<not> config_accepts st base m flags event" | "\<not> has_flag flags SKIP_MATCH"
    by blast
  then show ?thesis
  proof cases
    case 1
    then show ?thesis
      using assms config_refused [OF 1, of p h r data] by simp
  next
    case 2
    then show ?thesis
      using assms(1) config_ok [OF assms(2) 2, of p r base m event data] by auto
  qed
qed

inductive pmu_reachable :: "SbiPmu \<Rightarrow> pmu_hart \<Rightarrow> pmu \<Rightarrow> bool" for p h where
  fresh: "pmu_reachable p h (pmu_state_new (hart_mhpm_mask h), r)"
| config: "pmu_reachable p h s \<Longrightarrow> counter_config_matching p h s base m flags event data = Ret (res, s') \<Longrightarrow>
    pmu_reachable p h s'"
| start: "pmu_reachable p h s \<Longrightarrow> counter_start h s base m flags v = Ret (res, s') \<Longrightarrow> pmu_reachable p h s'"
| stop: "pmu_reachable p h s \<Longrightarrow> counter_stop h s base m flags = Ret (res, s') \<Longrightarrow> pmu_reachable p h s'"
| count: "pmu_reachable p h (st, r) \<Longrightarrow> pmu_firmware_counter_increment has_pmu st event = Ret st' \<Longrightarrow>
    pmu_reachable p h (st', r)"

lemma increment_inv:
  assumes "pmu_firmware_counter_increment b st event = Ret st'" and "pmu_inv h st"
  shows "pmu_inv h st'"
proof (cases b)
  case True
  with firmware_event_counts [OF assms(2), of event] assms show ?thesis
    by (auto simp: pmu_inv_def)
qed (use assms in \<open>simp add: pmu_firmware_counter_increment_def\<close>)

lemma pmu_reachable_inv: "pmu_reachable p h s \<Longrightarrow> pmu_inv h (fst s)"
proof (induction rule: pmu_reachable.induct)
  case (config s base m flags event data res s')
  then show ?case
    using config_inv [of p h "fst s" "snd s" base m flags event data res "fst s'" "snd s'"] by simp
next
  case (start s base m flags v res s')
  then show ?case
    using counter_start_ok [of h s base m flags v] by auto
next
  case (stop s base m flags res s')
  then show ?case
    using counter_stop_ok [of h s base m flags] by auto
qed (auto simp: pmu_inv_new intro: increment_inv)

text \<open>
  C27: in every state the PMU extension can reach its bookkeeping is well-formed, and starting,
  stopping and reading counters always return, whatever the arguments; so does configuring
  without \<open>SKIP_MATCH\<close>. No array index, subtraction or \<open>unwrap\<close> of these calls can panic.
\<close>

theorem pmu_calls_return:
  assumes "pmu_reachable p h (st, r)"
  shows "pmu_inv h st \<and> counter_start h (st, r) base m flags v \<noteq> Panic \<and>
    counter_stop h (st, r) base m flags \<noteq> Panic \<and> counter_fw_read st i \<noteq> Panic \<and>
    (\<not> has_flag flags SKIP_MATCH \<longrightarrow>
      counter_config_matching p h (st, r) base m flags event data \<noteq> Panic)"
proof -
  have inv: "pmu_inv h st"
    using pmu_reachable_inv [OF assms] by simp
  have "counter_start h (st, r) base m flags v \<noteq> Panic" "counter_stop h (st, r) base m flags \<noteq> Panic"
    using counter_start_ok [of h "(st, r)" base m flags v] counter_stop_ok [of h "(st, r)" base m flags] inv
    by auto
  moreover have "counter_config_matching p h (st, r) base m flags event data \<noteq> Panic"
    if "\<not> has_flag flags SKIP_MATCH"
    using config_ok [OF inv that, of p r base m event data] by auto
  ultimately show ?thesis
    using inv counter_fw_read_ok [OF inv] by blast
qed

text \<open>
  Configuring with \<open>SKIP_MATCH\<close> takes the first selected counter as it is. When that counter is
  in use and is a firmware counter while the event is a hardware event, or a hardware counter
  while the event is a firmware event, the call panics: the supervisor can stop the firmware.
\<close>

theorem skip_match_panics:
  assumes "pmu_inv h st" and "i < total_counters_num st"
    and "active_event st ! unat i \<noteq> PMU_EVENT_IDX_INVALID" and "check_event_type event"
    and "if hw_counters_num st \<le> i then \<not> is_firmware_event event else firmware_event_valid event"
  shows "counter_config_matching p h (st, r) i 1 SKIP_MATCH event data = Panic"
proof -
  note n = pmu_inv_nums [OF assms(1)] count_ones_u32 [of "hart_mhpm_mask h"]
  have len: "unat i < length (active_event st)"
    using assms(1,2) n by (simp add: pmu_inv_def word_less_nat_alt)
  have tz: "trailing_zeros (1 :: usize) = 0"
    using trailing_zeros_props [of "1 :: usize"] by (simp add: bit_1_iff)
  have first: "counter_next i 1 = Ret (Some i, clear_bit 1 0)"
    using unat_usize [of i] by (simp add: counter_next_def tz add_ovf_def checked_add_def)
  have lt: "unat i < unat (total_counters_num st)"
    using assms(2) by (simp add: word_less_nat_alt)
  then have sel: "\<not> bad_counters st i 1"
    using window_size [OF assms(1), of i] assms(2)
    by (simp add: bad_counters_def Let_def drop_bit_of_1 not_le less_imp_le)
  have fw: "firmware_event_valid event \<Longrightarrow> is_firmware_event event"
    by (simp add: firmware_event_valid_def is_firmware_event_def split: if_splits)
  have acc: "config_accepts st i 1 SKIP_MATCH event" "has_flag SKIP_MATCH SKIP_MATCH"
    using sel assms(4,5) fw
    by (auto simp: config_accepts_def flags_from_bits_def CONFIG_FLAGS_ALL_def SKIP_MATCH_def has_flag_def
        split: if_splits)
  have "configure_counter h (st, r) i event SKIP_MATCH = Panic"
  proof (cases "hw_counters_num st \<le> i")
    case True
    then have "get_mhpm_csr_offset h i = None"
      using n(1) by (simp add: csr_offset_nth word_le_nat_alt)
    with True assms(5) show ?thesis
      by (simp add: configure_counter_def)
  next
    case False
    with assms(5) fw show ?thesis
      by (simp add: configure_counter_def sub_ovf_def)
  qed
  with len assms(3) show ?thesis
    by (simp add: skip_match_run [OF acc] first array_get_def)
qed

section \<open>A concrete hart\<close>

text \<open>A hart with \<open>cycle\<close>, \<open>time\<close>, \<open>instret\<close> and two programmable counters.\<close>

definition hart_example :: pmu_hart where
  "hart_example = \<lparr>hart_mhpm_mask = 31, has_mcountinhibit = True\<rparr>"

definition csrs_example :: hpm_csrs where
  "csrs_example = \<lparr>mcountinhibit = 0x18, mhpmcounter = (\<lambda>_. 0), mhpmevent = (\<lambda>_. 0)\<rparr>"

definition ipi_event :: EventIdx where
  "ipi_event = from_firmware_event IPI_SENT"

definition pmu_example :: PmuState where
  "pmu_example = configured (pmu_state_new 31) 5 ipi_event AUTO_START"

lemma hart_example_mask: "hart_mhpm_mask hart_example = 31" "bit_list (31 :: u32) = [0, 1, 2, 3, 4]"
  "count_ones (31 :: u32) = 5"
proof -
  show "bit_list (31 :: u32) = [0, 1, 2, 3, 4]"
    by code_simp
  then show "count_ones (31 :: u32) = 5"
    by (simp add: count_ones_def)
qed (simp add: hart_example_def)

lemma pmu_example_nums:
  "hw_counters_num (pmu_state_new 31) = 5" "total_counters_num (pmu_state_new 31) = 21"
  "active_event (pmu_state_new 31) ! 5 = PMU_EVENT_IDX_INVALID"
  by (simp_all add: pmu_state_new_def hart_example_mask PMU_FIRMWARE_COUNTER_MAX_def
      PMU_HARDWARE_COUNTER_MAX_def)

lemma pmu_example_fresh: "pmu_inv hart_example (pmu_state_new 31)"
  using pmu_inv_new [of hart_example] by (simp add: hart_example_mask)

lemma pmu_example_inv: "pmu_inv hart_example pmu_example"
  unfolding pmu_example_def
  by (rule configured_inv [OF pmu_example_fresh]) (simp_all add: hart_example_mask pmu_example_nums)

lemma ipi_event_valid:
  "is_firmware_event ipi_event" "firmware_event_valid ipi_event" "check_event_type ipi_event"
  by (simp_all add: is_firmware_event_def firmware_event_valid_def check_event_type_def ipi_event_def
      from_firmware_event_def event_type_def event_code_def event_type_defs firmware_event_defs)

lemma example_accepts: "config_accepts (pmu_state_new 31) 5 1 AUTO_START ipi_event"
proof -
  have "\<not> bad_counters (pmu_state_new 31) 5 1"
    by (simp add: bad_counters_def pmu_example_nums Let_def)
  then show ?thesis
    by (simp add: config_accepts_def ipi_event_valid flags_from_bits_def CONFIG_FLAGS_ALL_def AUTO_START_def)
qed

theorem counter_get_info_correct_witness:
  "counter_get_info hart_example (pmu_state_new 31) 3 = sbi_success (with_hardware_info (CSR_CYCLE + 3) 63)"
  using counter_get_info_correct [OF pmu_example_fresh, of 3] by (simp add: hart_example_mask)

theorem config_firmware_correct_witness:
  "\<exists>i. counter_config_matching pmu_default hart_example (pmu_state_new 31, csrs_example) 5 1 AUTO_START ipi_event 0
     = Ret (sbi_success i, configured (pmu_state_new 31) i ipi_event AUTO_START, csrs_example) \<and> unat i = 5"
proof -
  have skip: "\<not> has_flag AUTO_START SKIP_MATCH"
    by (simp add: has_flag_def AUTO_START_def SKIP_MATCH_def)
  have free: "fw_free (pmu_state_new 31) 5"
    by (simp add: fw_free_def pmu_example_nums)
  have one: "bit (1 :: usize) k \<longleftrightarrow> k = 0" for k
    by (simp add: bit_1_iff)
  show ?thesis
    using config_firmware_correct [OF pmu_example_fresh ipi_event_valid(1) skip,
        where p = pmu_default and r = csrs_example and data = 0 and base = 5 and m = 1]
      example_accepts free
    by (auto simp: one split: outcome.splits)
qed

theorem firmware_event_counted_witness:
  "case pmu_firmware_counter_increment True pmu_example IPI_SENT of
     Panic \<Rightarrow> False | Ret st' \<Rightarrow> fw_counter st' ! 0 = 1"
proof -
  have c: "counts hart_example pmu_example IPI_SENT 0" "fw_counter pmu_example = replicate 16 0"
    by (simp_all add: counts_def pmu_example_def configured_def pmu_example_nums hart_example_mask
        Let_def has_flag_def AUTO_START_def CLEAR_VALUE_def ipi_event_def bit_or_iff bit_one_bit
        pmu_state_new_def PMU_HARDWARE_COUNTER_MAX_def PMU_FIRMWARE_COUNTER_MAX_def)
  then show ?thesis
    using firmware_event_counted [OF pmu_example_inv, of IPI_SENT]
    by (auto split: outcome.splits)
qed

theorem pmu_calls_return_witness:
  "pmu_reachable pmu_default hart_example (pmu_state_new 31, csrs_example) \<and>
   counter_start hart_example (pmu_state_new 31, csrs_example) 0 4 INIT_VALUE 9 \<noteq> Panic"
proof -
  have "pmu_reachable pmu_default hart_example (pmu_state_new 31, csrs_example)"
    using pmu_reachable.fresh [of pmu_default hart_example] by (simp add: hart_example_mask)
  with pmu_calls_return [OF this, of 0 4 INIT_VALUE 9] show ?thesis
    by blast
qed

theorem skip_match_panics_witness:
  "counter_config_matching pmu_default hart_example (pmu_example, csrs_example) 5 1 SKIP_MATCH CPU_CYCLES 0 = Panic"
proof -
  have "5 < total_counters_num pmu_example" "hw_counters_num pmu_example = 5"
    "active_event pmu_example ! unat (5 :: usize) \<noteq> PMU_EVENT_IDX_INVALID"
    by (simp_all add: pmu_example_def configured_def Let_def pmu_example_nums ipi_event_def
        from_firmware_event_def firmware_event_defs PMU_EVENT_IDX_INVALID_def pmu_state_new_def hart_example_mask
        PMU_HARDWARE_COUNTER_MAX_def PMU_FIRMWARE_COUNTER_MAX_def)
  moreover have "check_event_type CPU_CYCLES" "\<not> is_firmware_event CPU_CYCLES"
    by (simp_all add: check_event_type_def is_firmware_event_def event_type_def event_code_def
        CPU_CYCLES_def REF_CPU_CYCLES_def event_type_defs)
  ultimately show ?thesis
    by (intro skip_match_panics [OF pmu_example_inv]) simp_all
qed

end
