(* ===== verification/Fdt_Format.thy ===== *)
theory Fdt_Format
  imports Phys_Memory
begin

text \<open>
  Checked access to the binary device tree (\<open>firmware/runtime/src/device_tree/patch/format.rs\<close>):
  the readers of the structure and string blocks and the header parser.

  A byte slice is a list of bytes and an offset (\<open>usize\<close>) a natural number; every sum of offsets in
  the source is a \<open>checked_add\<close>, which fails at \<open>2 ^ 64\<close>. A computation of type \<open>'a fdt\<close> panics or
  returns a \<open>Result\<close>; \<open>rbind\<close> is the question-mark operator. A \<open>&mut\<close> offset is an argument and a
  component of the result. A \<open>&str\<close> is its list of UTF-8 bytes. A loop is a body that returns the
  state of the next iteration or the value of the function, and the recursion over it.
\<close>

section \<open>Results that may panic\<close>

type_synonym bytes = "u8 list"
type_synonym 'a fdt = "'a result outcome"

abbreviation ok :: "'a \<Rightarrow> 'a fdt" where "ok x \<equiv> Ret (Inr x)"
abbreviation err :: "Error \<Rightarrow> 'a fdt" where "err e \<equiv> Ret (Inl e)"

definition rbind :: "'a fdt \<Rightarrow> ('a \<Rightarrow> 'b fdt) \<Rightarrow> 'b fdt" where
  "rbind m f = (case m of Panic \<Rightarrow> Panic | Ret (Inl e) \<Rightarrow> err e | Ret (Inr x) \<Rightarrow> f x)"

definition ok_or :: "'a option \<Rightarrow> Error \<Rightarrow> 'a fdt" where
  "ok_or x e = (case x of None \<Rightarrow> err e | Some y \<Rightarrow> ok y)"

definition or_panic :: "'a option \<Rightarrow> 'a fdt" where
  "or_panic x = (case x of None \<Rightarrow> Panic | Some y \<Rightarrow> ok y)"

datatype ('s, 'r) flow = Continue 's | Return 'r

lemma fdt_bind_simps [simp]:
  "rbind Panic f = Panic" "rbind (err e) f = err e" "rbind (ok x) f = f x"
  by (simp_all add: rbind_def)

lemma ok_or_simps [simp]: "ok_or None e = err e" "ok_or (Some x) e = ok x"
  by (simp_all add: ok_or_def)

lemma or_panic_simps [simp]: "or_panic None = Panic" "or_panic (Some x) = ok x"
  by (simp_all add: or_panic_def)

lemma rbind_cong [fundef_cong]:
  "m = m' \<Longrightarrow> (\<And>x. m' = ok x \<Longrightarrow> f x = g x) \<Longrightarrow> rbind m f = rbind m' g"
  by (auto simp: rbind_def split: outcome.split sum.split)

lemma rbind_ok_iff: "rbind m f = ok y \<longleftrightarrow> (\<exists>x. m = ok x \<and> f x = ok y)"
  by (auto simp: rbind_def split: outcome.split sum.split)

lemma rbind_Panic_iff: "rbind m f = Panic \<longleftrightarrow> m = Panic \<or> (\<exists>x. m = ok x \<and> f x = Panic)"
  by (auto simp: rbind_def split: outcome.split sum.split)

lemma rbind_assoc: "rbind (rbind m f) g = rbind m (\<lambda>x. rbind (f x) g)"
  by (auto simp: rbind_def split: outcome.split sum.split)

lemma ok_or_ok_iff [simp]: "ok_or x e = ok y \<longleftrightarrow> x = Some y"
  by (cases x) auto

lemma ok_or_no_Panic [simp]: "ok_or x e \<noteq> Panic"
  by (cases x) auto

lemma or_panic_ok_iff [simp]: "or_panic x = ok y \<longleftrightarrow> x = Some y"
  by (cases x) auto

lemma or_panic_Panic_iff [simp]: "or_panic x = Panic \<longleftrightarrow> x = None"
  by (cases x) auto

lemma rbind_no_Panic:
  "m \<noteq> Panic \<Longrightarrow> (\<And>x. m = ok x \<Longrightarrow> f x \<noteq> Panic) \<Longrightarrow> rbind m f \<noteq> Panic"
  by (auto simp: rbind_Panic_iff)

section \<open>Slices and byte order\<close>

text \<open>\<open>bytes.get(a..b)\<close>, \<open>bytes.get(a..)\<close> and the panicking \<open>&bytes[a..b]\<close>.\<close>

definition get_range :: "'a list \<Rightarrow> nat \<Rightarrow> nat \<Rightarrow> 'a list option" where
  "get_range xs a b = (if a \<le> b \<and> b \<le> length xs then Some (take (b - a) (drop a xs)) else None)"

definition get_from :: "'a list \<Rightarrow> nat \<Rightarrow> 'a list option" where
  "get_from xs a = (if a \<le> length xs then Some (drop a xs) else None)"

definition slice :: "'a list \<Rightarrow> nat \<Rightarrow> nat \<Rightarrow> 'a list fdt" where
  "slice xs a b = or_panic (get_range xs a b)"

text \<open>\<open>usize::checked_add\<close> and \<open>.iter().position(|byte| *byte == 0)\<close>.\<close>

definition us_add :: "nat \<Rightarrow> nat \<Rightarrow> nat fdt" where
  "us_add a b = (if a + b < 2 ^ 64 then ok (a + b) else err Overflow)"

fun position_zero :: "bytes \<Rightarrow> nat option" where
  "position_zero [] = None"
| "position_zero (b # bs) = (if b = 0 then Some 0 else map_option Suc (position_zero bs))"

definition to_be_bytes :: "u32 \<Rightarrow> bytes" where
  "to_be_bytes w = [ucast (drop_bit 24 w), ucast (drop_bit 16 w), ucast (drop_bit 8 w), ucast w]"

fun from_be_bytes :: "bytes \<Rightarrow> u32" where
  "from_be_bytes [a, b, c, d] =
     push_bit 24 (ucast a) OR push_bit 16 (ucast b) OR push_bit 8 (ucast c) OR ucast d"
| "from_be_bytes _ = 0"

text \<open>\<open>core::str::from_utf8\<close>: the well-formed byte sequences of UTF-8.\<close>

definition is_cont :: "u8 \<Rightarrow> bool" where
  "is_cont b \<longleftrightarrow> 0x80 \<le> b \<and> b \<le> 0xBF"

fun utf8_valid :: "bytes \<Rightarrow> bool" where
  "utf8_valid [] \<longleftrightarrow> True"
| "utf8_valid (a # bs) \<longleftrightarrow>
     (if a < 0x80 then utf8_valid bs
      else if 0xC2 \<le> a \<and> a \<le> 0xDF then
        (case bs of b # r \<Rightarrow> is_cont b \<and> utf8_valid r | _ \<Rightarrow> False)
      else if 0xE0 \<le> a \<and> a \<le> 0xEF then
        (case bs of b # c # r \<Rightarrow>
           (if a = 0xE0 then 0xA0 \<le> b \<and> b \<le> 0xBF else if a = 0xED then 0x80 \<le> b \<and> b \<le> 0x9F
            else is_cont b) \<and> is_cont c \<and> utf8_valid r | _ \<Rightarrow> False)
      else if 0xF0 \<le> a \<and> a \<le> 0xF4 then
        (case bs of b # c # d # r \<Rightarrow>
           (if a = 0xF0 then 0x90 \<le> b \<and> b \<le> 0xBF else if a = 0xF4 then 0x80 \<le> b \<and> b \<le> 0x8F
            else is_cont b) \<and> is_cont c \<and> is_cont d \<and> utf8_valid r | _ \<Rightarrow> False)
      else False)"

definition from_utf8 :: "bytes \<Rightarrow> bytes fdt" where
  "from_utf8 bs = (if utf8_valid bs then ok bs else err InvalidArgs)"

section \<open>Constants\<close>

definition MAGIC :: u32 where "MAGIC = 0xd00dfeed"
definition HEADER_SIZE :: nat where "HEADER_SIZE = 10 * 4"
definition RESERVATION_ENTRY_SIZE :: nat where "RESERVATION_ENTRY_SIZE = 2 * 8"
definition MAGIC_OFFSET :: nat where "MAGIC_OFFSET = 0"
definition TOTAL_SIZE_OFFSET :: nat where "TOTAL_SIZE_OFFSET = 4"
definition STRUCTURE_OFFSET_OFFSET :: nat where "STRUCTURE_OFFSET_OFFSET = 8"
definition STRINGS_OFFSET_OFFSET :: nat where "STRINGS_OFFSET_OFFSET = 12"
definition RESERVATIONS_OFFSET_OFFSET :: nat where "RESERVATIONS_OFFSET_OFFSET = 16"
definition VERSION_OFFSET :: nat where "VERSION_OFFSET = 20"
definition LAST_COMPATIBLE_VERSION_OFFSET :: nat where "LAST_COMPATIBLE_VERSION_OFFSET = 24"
definition STRINGS_SIZE_OFFSET :: nat where "STRINGS_SIZE_OFFSET = 32"
definition STRUCTURE_SIZE_OFFSET :: nat where "STRUCTURE_SIZE_OFFSET = 36"
definition SUPPORTED_VERSION :: u32 where "SUPPORTED_VERSION = 17"
definition BEGIN_NODE :: u32 where "BEGIN_NODE = 1"
definition END_NODE :: u32 where "END_NODE = 2"
definition PROPERTY :: u32 where "PROPERTY = 3"
definition NOP :: u32 where "NOP = 4"
definition END :: u32 where "END = 9"
definition DEFAULT_ADDRESS_CELLS :: u32 where "DEFAULT_ADDRESS_CELLS = 2"
definition DEFAULT_SIZE_CELLS :: u32 where "DEFAULT_SIZE_CELLS = 1"

lemmas header_consts = MAGIC_def HEADER_SIZE_def RESERVATION_ENTRY_SIZE_def MAGIC_OFFSET_def
  TOTAL_SIZE_OFFSET_def STRUCTURE_OFFSET_OFFSET_def STRINGS_OFFSET_OFFSET_def
  RESERVATIONS_OFFSET_OFFSET_def VERSION_OFFSET_def LAST_COMPATIBLE_VERSION_OFFSET_def
  STRINGS_SIZE_OFFSET_def STRUCTURE_SIZE_OFFSET_def SUPPORTED_VERSION_def

lemmas token_consts = BEGIN_NODE_def END_NODE_def PROPERTY_def NOP_def END_def

section \<open>Readers\<close>

definition align_up :: "nat \<Rightarrow> nat \<Rightarrow> nat fdt" where
  "align_up v a = rbind (us_add v (a - 1)) (\<lambda>x.
     ok (unat (word_of_nat x AND NOT (word_of_nat (a - 1)) :: usize)))"

definition read_u32 :: "bytes \<Rightarrow> nat \<Rightarrow> u32 fdt" where
  "read_u32 bs offset = rbind (us_add offset 4) (\<lambda>e.
     rbind (ok_or (get_range bs offset e) InvalidArgs) (\<lambda>encoded.
     if length encoded = 4 then ok (from_be_bytes encoded) else err InvalidArgs))"

definition read_usize :: "bytes \<Rightarrow> nat \<Rightarrow> nat fdt" where
  "read_usize bs offset = rbind (read_u32 bs offset) (\<lambda>v. ok (unat v))"

definition take_u32 :: "bytes \<Rightarrow> nat \<Rightarrow> (u32 \<times> nat) fdt" where
  "take_u32 bs offset = rbind (read_u32 bs offset) (\<lambda>v.
     rbind (us_add offset 4) (\<lambda>offset. ok (v, offset)))"

definition take_c_string :: "bytes \<Rightarrow> nat \<Rightarrow> (bytes \<times> nat) fdt" where
  "take_c_string bs offset = rbind (ok_or (get_from bs offset) InvalidArgs) (\<lambda>tail.
     rbind (ok_or (position_zero tail) InvalidArgs) (\<lambda>len.
     rbind (slice tail 0 len) (\<lambda>raw.
     rbind (from_utf8 raw) (\<lambda>name.
     rbind (us_add len 1) (\<lambda>encoded_length.
     rbind (align_up encoded_length 4) (\<lambda>padded.
     rbind (us_add offset padded) (\<lambda>offset.
     if length bs < offset then err InvalidArgs else ok (name, offset))))))))"

definition take_aligned :: "bytes \<Rightarrow> nat \<Rightarrow> nat \<Rightarrow> (bytes \<times> nat) fdt" where
  "take_aligned bs offset len = rbind (us_add offset len) (\<lambda>e.
     rbind (ok_or (get_range bs offset e) InvalidArgs) (\<lambda>v.
     rbind (align_up len 4) (\<lambda>padded.
     rbind (us_add offset padded) (\<lambda>offset.
     if length bs < offset then err InvalidArgs else ok (v, offset)))))"

definition string_at :: "bytes \<Rightarrow> nat \<Rightarrow> bytes fdt" where
  "string_at strings offset = rbind (ok_or (get_from strings offset) InvalidArgs) (\<lambda>tail.
     rbind (ok_or (position_zero tail) InvalidArgs) (\<lambda>len.
     rbind (slice tail 0 len) from_utf8))"

definition checked_slice :: "bytes \<Rightarrow> nat \<Rightarrow> nat \<Rightarrow> nat \<Rightarrow> bytes fdt" where
  "checked_slice source offset len total_size = rbind (us_add offset len) (\<lambda>e.
     if total_size < e then err InvalidArgs else ok_or (get_range source offset e) InvalidArgs)"

text \<open>One iteration of the loop of \<open>reservation_map_end\<close>, and the loop.\<close>

definition reservation_body :: "bytes \<Rightarrow> nat \<Rightarrow> nat \<Rightarrow> (nat, nat) flow fdt" where
  "reservation_body source total_size offset =
     rbind (checked_slice source offset RESERVATION_ENTRY_SIZE total_size) (\<lambda>entry.
     rbind (us_add offset RESERVATION_ENTRY_SIZE) (\<lambda>offset.
     ok (if list_all (\<lambda>b. b = 0) entry then Return offset else Continue offset)))"

lemma reservation_body_Continue:
  "reservation_body source total_size offset = ok (Continue offset') \<Longrightarrow>
   offset' = offset + 16 \<and> offset' \<le> length source"
  by (auto simp: reservation_body_def checked_slice_def us_add_def get_range_def rbind_ok_iff
      RESERVATION_ENTRY_SIZE_def split: if_splits)

function reservation_loop :: "bytes \<Rightarrow> nat \<Rightarrow> nat \<Rightarrow> nat fdt" where
  "reservation_loop source total_size offset =
     rbind (reservation_body source total_size offset) (\<lambda>f.
       case f of Continue offset' \<Rightarrow> reservation_loop source total_size offset' | Return r \<Rightarrow> ok r)"
  by pat_completeness auto
termination
  by (relation "measure (\<lambda>(source, total_size, offset). length source - offset)")
    (auto dest!: reservation_body_Continue)

declare reservation_loop.simps [simp del]

definition reservation_map_end :: "bytes \<Rightarrow> nat \<Rightarrow> nat \<Rightarrow> nat fdt" where
  "reservation_map_end source start total_size =
     (if start < HEADER_SIZE \<or> \<not> 8 dvd start then err InvalidArgs
      else reservation_loop source total_size start)"

record Layout =
  l_source :: bytes
  total_size :: nat
  reservations :: bytes
  structure_offset :: nat
  structure_block :: bytes
  strings_block :: bytes

definition layout_parse :: "bytes \<Rightarrow> Layout fdt" where
  "layout_parse source =
     rbind (if length source < HEADER_SIZE then err InvalidArgs else read_u32 source MAGIC_OFFSET) (\<lambda>magic.
     if magic \<noteq> MAGIC then err InvalidArgs else
     rbind (read_usize source TOTAL_SIZE_OFFSET) (\<lambda>total.
     if \<not> (HEADER_SIZE \<le> total \<and> total \<le> length source) then err InvalidArgs else
     rbind (read_u32 source VERSION_OFFSET) (\<lambda>version.
     rbind (read_u32 source LAST_COMPATIBLE_VERSION_OFFSET) (\<lambda>last_compatible_version.
     if version \<noteq> SUPPORTED_VERSION \<or> version < last_compatible_version then err InvalidArgs else
     rbind (read_usize source STRUCTURE_OFFSET_OFFSET) (\<lambda>structure_off.
     rbind (read_usize source STRINGS_OFFSET_OFFSET) (\<lambda>strings_off.
     rbind (read_usize source RESERVATIONS_OFFSET_OFFSET) (\<lambda>reservations_off.
     rbind (read_usize source STRUCTURE_SIZE_OFFSET) (\<lambda>structure_size.
     rbind (read_usize source STRINGS_SIZE_OFFSET) (\<lambda>strings_size.
     if \<not> 4 dvd structure_off \<or> \<not> 4 dvd strings_off \<or> \<not> 8 dvd reservations_off then err InvalidArgs else
     rbind (checked_slice source structure_off structure_size total) (\<lambda>struct.
     rbind (checked_slice source strings_off strings_size total) (\<lambda>strs.
     rbind (reservation_map_end source reservations_off total) (\<lambda>reservations_end.
     rbind (us_add structure_off structure_size) (\<lambda>structure_end.
     rbind (us_add strings_off strings_size) (\<lambda>strings_end.
     if reservations_off < HEADER_SIZE \<or> structure_off < reservations_end
        \<or> strings_off < structure_end \<or> total < strings_end then err InvalidArgs else
     rbind (slice source reservations_off reservations_end) (\<lambda>res.
     ok \<lparr>l_source = source, total_size = total, reservations = res,
         structure_offset = structure_off, structure_block = struct, strings_block = strs\<rparr>)))))))))))))))"

end
