(* ===== verification/Fdt_Plan.thy ===== *)
theory Fdt_Plan
  imports Fdt_Format
begin

text \<open>
  Validation of the structure block and planning of the edits
  (\<open>firmware/runtime/src/device_tree/patch/plan.rs\<close>). The stack of open nodes is a list with the
  innermost node first; a \<open>Range\<close> is the pair of its bounds. The two token loops are a body per
  iteration and the recursion over it, whose termination proof is that every iteration reads at
  least one token.
\<close>

section \<open>Data\<close>

text \<open>A string literal of the source, \<open>array[i]\<close> and \<open>array[i] = v\<close>.\<close>

definition str :: "string \<Rightarrow> bytes" where
  "str s = map of_char s"

definition index :: "'a list \<Rightarrow> nat \<Rightarrow> 'a fdt" where
  "index xs i = omap Inr (array_get xs i)"

definition index_set :: "'a list \<Rightarrow> nat \<Rightarrow> 'a \<Rightarrow> 'a list fdt" where
  "index_set xs i v = omap Inr (array_set xs i v)"

record CellCounts =
  address_cells :: u32
  size_cells :: u32

definition MAX_FDT_DEPTH :: nat where "MAX_FDT_DEPTH = 63"

record ValidationNode =
  v_address_cells :: "u32 option"
  v_size_cells :: "u32 option"
  v_has_child :: bool

definition vnode_new :: ValidationNode where
  "vnode_new = \<lparr>v_address_cells = None, v_size_cells = None, v_has_child = False\<rparr>"

definition unwrap_or :: "'a option \<Rightarrow> 'a \<Rightarrow> 'a" where
  "unwrap_or x d = (case x of None \<Rightarrow> d | Some y \<Rightarrow> y)"

definition default_cells :: CellCounts where
  "default_cells = \<lparr>address_cells = DEFAULT_ADDRESS_CELLS, size_cells = DEFAULT_SIZE_CELLS\<rparr>"

definition vnode_cells :: "ValidationNode \<Rightarrow> CellCounts" where
  "vnode_cells n = \<lparr>address_cells = unwrap_or (v_address_cells n) DEFAULT_ADDRESS_CELLS,
                    size_cells = unwrap_or (v_size_cells n) DEFAULT_SIZE_CELLS\<rparr>"

record ReservedMemory =
  rm_end :: nat
  rm_cells :: CellCounts
  accepts_firmware_child :: bool

record EditPlan =
  root_end :: nat
  root_cells :: CellCounts
  reserved_memory :: "ReservedMemory option"
  reservation_exists :: bool
  hidden_nodes :: "(nat \<times> nat) list"

record OpenNode =
  n_start :: nat
  previous_path_length :: nat
  n_hide :: bool
  is_root :: bool
  is_reserved_memory :: bool
  is_reservation :: bool
  n_address_cells :: "u32 option"
  n_size_cells :: "u32 option"
  n_enabled :: bool
  empty_ranges :: bool

record EditPlanner =
  stack :: "OpenNode list"
  path :: bytes
  p_root_end :: "nat option"
  p_root_cells :: "CellCounts option"
  p_reserved_memory :: "ReservedMemory option"
  p_reservation_exists :: bool
  p_hidden_nodes :: "(nat \<times> nat) list"

section \<open>Operations of the planner\<close>

definition single_cell :: "bytes \<Rightarrow> u32 fdt" where
  "single_cell v = (if length v \<noteq> 4 then err InvalidArgs else read_u32 v 0)"

definition strip_nul :: "bytes \<Rightarrow> bytes" where
  "strip_nul v = (if v \<noteq> [] \<and> last v = 0 then butlast v else v)"

definition node_record_property :: "OpenNode \<Rightarrow> bytes \<Rightarrow> bytes \<Rightarrow> OpenNode fdt" where
  "node_record_property n name v =
     (if name = str ''#address-cells'' then
        rbind (single_cell v) (\<lambda>c. ok (n\<lparr>n_address_cells := Some c\<rparr>))
      else if name = str ''#size-cells'' then
        rbind (single_cell v) (\<lambda>c. ok (n\<lparr>n_size_cells := Some c\<rparr>))
      else if name = str ''ranges'' \<and> is_reserved_memory n then ok (n\<lparr>empty_ranges := (v = [])\<rparr>)
      else if name = str ''status'' \<and> is_reserved_memory n then
        ok (n\<lparr>n_enabled := strip_nul v \<in> {str ''ok'', str ''okay''}\<rparr>)
      else ok n)"

definition node_cells :: "OpenNode \<Rightarrow> CellCounts" where
  "node_cells n = \<lparr>address_cells = unwrap_or (n_address_cells n) DEFAULT_ADDRESS_CELLS,
                   size_cells = unwrap_or (n_size_cells n) DEFAULT_SIZE_CELLS\<rparr>"

definition planner_new :: EditPlanner where
  "planner_new = \<lparr>stack = [], path = [], p_root_end = None, p_root_cells = None,
     p_reserved_memory = None, p_reservation_exists = False, p_hidden_nodes = []\<rparr>"

definition base_name :: "bytes \<Rightarrow> bytes" where
  "base_name name = takeWhile (\<lambda>b. b \<noteq> of_char (CHR ''@'')) name"

definition push_path :: "bool \<Rightarrow> bytes \<Rightarrow> bytes \<Rightarrow> bytes" where
  "push_path root p name =
     (if root then p @ str ''/'' else (if 1 < length p then p @ str ''/'' else p) @ name)"

definition begin_node ::
  "EditPlanner \<Rightarrow> nat \<Rightarrow> bytes \<Rightarrow> bytes list \<Rightarrow> bytes option \<Rightarrow> EditPlanner fdt" where
  "begin_node pl start name hidden_node_paths reservation_name =
     (if p_root_end pl \<noteq> None then err InvalidArgs
      else let root = (stack pl = []) in
      if root \<and> name \<noteq> [] then err InvalidArgs
      else let p = push_path root (path pl) name;
        node = \<lparr>n_start = start, previous_path_length = length (path pl),
          n_hide = p \<in> set hidden_node_paths, is_root = root,
          is_reserved_memory = (length (stack pl) = 1 \<and> base_name name = str ''reserved-memory''),
          is_reservation = (stack pl \<noteq> [] \<and> is_reserved_memory (hd (stack pl))
            \<and> reservation_name = Some name),
          n_address_cells = None, n_size_cells = None, n_enabled = True, empty_ranges = False\<rparr>
      in ok (pl\<lparr>stack := node # stack pl, path := p\<rparr>))"

definition planner_record_property :: "EditPlanner \<Rightarrow> bytes \<Rightarrow> bytes \<Rightarrow> EditPlanner fdt" where
  "planner_record_property pl name v =
     (case stack pl of [] \<Rightarrow> err InvalidArgs
      | n # ns \<Rightarrow> rbind (node_record_property n name v) (\<lambda>n. ok (pl\<lparr>stack := n # ns\<rparr>)))"

text \<open>\<open>String::truncate\<close> panics unless the new length is a character boundary.\<close>

definition is_char_boundary :: "bytes \<Rightarrow> nat \<Rightarrow> bool" where
  "is_char_boundary p n \<longleftrightarrow> n = 0 \<or> n = length p \<or> (n < length p \<and> \<not> is_cont (p ! n))"

definition path_truncate :: "bytes \<Rightarrow> nat \<Rightarrow> bytes fdt" where
  "path_truncate p n =
     (if n \<le> length p then if is_char_boundary p n then ok (take n p) else Panic else ok p)"

definition end_node :: "EditPlanner \<Rightarrow> nat \<Rightarrow> nat \<Rightarrow> EditPlanner fdt" where
  "end_node pl token_offset e =
     (case stack pl of [] \<Rightarrow> err InvalidArgs
      | n # ns \<Rightarrow>
        let cells = node_cells n;
          rm = \<lparr>rm_end = token_offset, rm_cells = cells,
            accepts_firmware_child = (n_enabled n \<and> n_address_cells n \<noteq> None
              \<and> n_size_cells n \<noteq> None \<and> empty_ranges n)\<rparr>
        in if is_reserved_memory n \<and> p_reserved_memory pl \<noteq> None then err InvalidArgs
        else rbind (path_truncate (path pl) (previous_path_length n)) (\<lambda>p.
          let pl = pl\<lparr>stack := ns, path := p,
            p_reserved_memory := (if is_reserved_memory n then Some rm else p_reserved_memory pl),
            p_reservation_exists := (p_reservation_exists pl \<or> is_reservation n),
            p_hidden_nodes := p_hidden_nodes pl @ (if n_hide n then [(n_start n, e)] else [])\<rparr>
          in if is_root n then
               if ns \<noteq> [] then err InvalidArgs
               else ok (pl\<lparr>p_root_end := Some token_offset, p_root_cells := Some cells\<rparr>)
             else ok pl))"

definition planner_finish :: "EditPlanner \<Rightarrow> EditPlan fdt" where
  "planner_finish pl =
     (if stack pl \<noteq> [] then err InvalidArgs
      else rbind (ok_or (p_root_end pl) InvalidArgs) (\<lambda>re.
        rbind (ok_or (p_root_cells pl) InvalidArgs) (\<lambda>rc.
        ok \<lparr>root_end = re, root_cells = rc, reserved_memory = p_reserved_memory pl,
            reservation_exists = p_reservation_exists pl, hidden_nodes = p_hidden_nodes pl\<rparr>)))"

section \<open>Validation\<close>

text \<open>\<open>chunks_exact(4)\<close> and its remainder, and the check of the words after the end token.\<close>

fun chunks_exact :: "'a list \<Rightarrow> 'a list list" where
  "chunks_exact (a # b # c # d # r) = [a, b, c, d] # chunks_exact r"
| "chunks_exact _ = []"

fun remainder :: "'a list \<Rightarrow> 'a list" where
  "remainder (a # b # c # d # r) = remainder r"
| "remainder xs = xs"

definition trailing_bad :: "bytes \<Rightarrow> bool" where
  "trailing_bad tail \<longleftrightarrow>
     list_ex (\<lambda>w. w \<noteq> to_be_bytes NOP) (chunks_exact tail) \<or> remainder tail \<noteq> []"

definition us_mul :: "nat \<Rightarrow> nat \<Rightarrow> nat fdt" where
  "us_mul a b = (if a * b < 2 ^ 64 then ok (a * b) else err Overflow)"

definition validate_reg_length :: "bytes \<Rightarrow> CellCounts \<Rightarrow> unit fdt" where
  "validate_reg_length v cells =
     rbind (ok_or (checked_add (address_cells cells) (size_cells cells)) Overflow) (\<lambda>tuple_cells.
     rbind (us_mul (unat tuple_cells) 4) (\<lambda>tuple_bytes.
     if tuple_bytes = 0 \<or> \<not> tuple_bytes dvd length v then err InvalidArgs else ok ()))"

record validation =
  v_offset :: nat
  v_depth :: nat
  root_seen :: bool
  v_nodes :: "ValidationNode list"

text \<open>The arms of the \<open>match\<close>, after the reads from the structure block.\<close>

definition validate_begin :: "validation \<Rightarrow> bytes \<Rightarrow> validation fdt" where
  "validate_begin s name =
     rbind (if v_depth s = 0 then
              if root_seen s \<or> name \<noteq> [] then err InvalidArgs else ok (s\<lparr>root_seen := True\<rparr>)
            else rbind (index (v_nodes s) (v_depth s - 1)) (\<lambda>n.
              rbind (index_set (v_nodes s) (v_depth s - 1) (n\<lparr>v_has_child := True\<rparr>)) (\<lambda>ns.
              ok (s\<lparr>v_nodes := ns\<rparr>)))) (\<lambda>s.
     if MAX_FDT_DEPTH \<le> v_depth s then err InvalidArgs
     else rbind (index_set (v_nodes s) (v_depth s) vnode_new) (\<lambda>ns.
       ok (s\<lparr>v_nodes := ns, v_depth := v_depth s + 1\<rparr>)))"

definition validate_property :: "validation \<Rightarrow> bytes \<Rightarrow> bytes \<Rightarrow> validation fdt" where
  "validate_property s name v =
     rbind (if v_depth s = 1 then ok default_cells
            else rbind (index (v_nodes s) (v_depth s - 2)) (\<lambda>n. ok (vnode_cells n))) (\<lambda>parent_cells.
     rbind (index (v_nodes s) (v_depth s - 1)) (\<lambda>node.
     rbind (if name = str ''#address-cells'' then
              rbind (single_cell v) (\<lambda>c.
              if v_address_cells node \<noteq> None then err InvalidArgs
              else ok (node\<lparr>v_address_cells := Some c\<rparr>))
            else if name = str ''#size-cells'' then
              rbind (single_cell v) (\<lambda>c.
              if v_size_cells node \<noteq> None then err InvalidArgs
              else ok (node\<lparr>v_size_cells := Some c\<rparr>))
            else if name = str ''reg'' then
              rbind (validate_reg_length v parent_cells) (\<lambda>_. ok node)
            else ok node) (\<lambda>node.
     rbind (index_set (v_nodes s) (v_depth s - 1) node) (\<lambda>ns. ok (s\<lparr>v_nodes := ns\<rparr>)))))"

definition validate_body :: "bytes \<Rightarrow> bytes \<Rightarrow> validation \<Rightarrow> (validation, unit) flow fdt" where
  "validate_body struct strs s =
     (if \<not> v_offset s < length struct then err InvalidArgs
      else rbind (take_u32 struct (v_offset s)) (\<lambda>(token, offset).
        if token = BEGIN_NODE then
          rbind (take_c_string struct offset) (\<lambda>(name, offset).
          rbind (validate_begin s name) (\<lambda>s. ok (Continue (s\<lparr>v_offset := offset\<rparr>))))
        else if token = PROPERTY then
          if v_depth s = 0 then err InvalidArgs
          else rbind (index (v_nodes s) (v_depth s - 1)) (\<lambda>n.
          if v_has_child n then err InvalidArgs
          else rbind (take_u32 struct offset) (\<lambda>(len, offset).
          rbind (take_u32 struct offset) (\<lambda>(name_offset, offset).
          rbind (take_aligned struct offset (unat len)) (\<lambda>(v, offset).
          rbind (string_at strs (unat name_offset)) (\<lambda>name.
          rbind (validate_property s name v) (\<lambda>s. ok (Continue (s\<lparr>v_offset := offset\<rparr>))))))))
        else if token = END_NODE then
          if v_depth s = 0 then err InvalidArgs
          else ok (Continue (s\<lparr>v_depth := v_depth s - 1, v_offset := offset\<rparr>))
        else if token = NOP then ok (Continue (s\<lparr>v_offset := offset\<rparr>))
        else if token = END then
          if \<not> root_seen s \<or> v_depth s \<noteq> 0 then err InvalidArgs
          else rbind (slice struct offset (length struct)) (\<lambda>trailing.
            if trailing_bad trailing then err InvalidArgs else ok (Return ()))
        else err InvalidArgs))"

section \<open>Planning\<close>

definition plan_body ::
  "bytes \<Rightarrow> bytes \<Rightarrow> bytes list \<Rightarrow> bytes option \<Rightarrow> nat \<times> EditPlanner \<Rightarrow> (nat \<times> EditPlanner, EditPlan) flow fdt"
where
  "plan_body struct strs hidden_node_paths reservation_name s = (case s of (token_offset, pl) \<Rightarrow>
     if \<not> token_offset < length struct then err InvalidArgs
     else rbind (take_u32 struct token_offset) (\<lambda>(token, offset).
       if token = BEGIN_NODE then
         rbind (take_c_string struct offset) (\<lambda>(name, offset).
         rbind (begin_node pl token_offset name hidden_node_paths reservation_name) (\<lambda>pl.
         ok (Continue (offset, pl))))
       else if token = PROPERTY then
         rbind (take_u32 struct offset) (\<lambda>(len, offset).
         rbind (take_u32 struct offset) (\<lambda>(name_offset, offset).
         rbind (take_aligned struct offset (unat len)) (\<lambda>(v, offset).
         rbind (string_at strs (unat name_offset)) (\<lambda>property_name.
         rbind (planner_record_property pl property_name v) (\<lambda>pl. ok (Continue (offset, pl)))))))
       else if token = END_NODE then
         rbind (end_node pl token_offset offset) (\<lambda>pl. ok (Continue (offset, pl)))
       else if token = NOP then ok (Continue (offset, pl))
       else if token = END then
         rbind (slice struct offset (length struct)) (\<lambda>trailing.
         if trailing_bad trailing then err InvalidArgs
         else rbind (planner_finish pl) (\<lambda>edits. ok (Return edits)))
       else err InvalidArgs))"

definition validate_cell_widths :: "CellCounts \<Rightarrow> unit fdt" where
  "validate_cell_widths cells =
     (if \<not> (1 \<le> address_cells cells \<and> address_cells cells \<le> 2)
         \<or> \<not> (1 \<le> size_cells cells \<and> size_cells cells \<le> 2)
      then err InvalidArgs else ok ())"

section \<open>The loops\<close>

lemma take_u32_offset: "take_u32 bs i = ok (v, i') \<Longrightarrow> i' = i + 4 \<and> i' \<le> length bs"
  by (auto simp: take_u32_def read_u32_def us_add_def get_range_def rbind_ok_iff split: if_splits)

lemma take_c_string_offset: "take_c_string bs i = ok (v, i') \<Longrightarrow> i \<le> i' \<and> i' \<le> length bs"
  by (auto simp: take_c_string_def us_add_def get_range_def rbind_ok_iff split: if_splits)

lemma take_aligned_offset: "take_aligned bs i n = ok (v, i') \<Longrightarrow> i \<le> i' \<and> i' \<le> length bs"
  by (auto simp: take_aligned_def us_add_def get_range_def rbind_ok_iff split: if_splits)

lemmas reader_offsets = take_u32_offset take_c_string_offset take_aligned_offset

lemma validate_body_Continue:
  "validate_body struct strs s = ok (Continue s') \<Longrightarrow>
   v_offset s + 4 \<le> v_offset s' \<and> v_offset s' \<le> length struct"
  unfolding validate_body_def
  by (fastforce simp: rbind_ok_iff dest!: reader_offsets split: if_splits)

lemma plan_body_Continue:
  "plan_body struct strs hidden rname s = ok (Continue s') \<Longrightarrow>
   fst s + 4 \<le> fst s' \<and> fst s' \<le> length struct"
  unfolding plan_body_def
  by (fastforce simp: rbind_ok_iff dest!: reader_offsets split: if_splits prod.splits)

function validate_loop :: "bytes \<Rightarrow> bytes \<Rightarrow> validation \<Rightarrow> unit fdt" where
  "validate_loop struct strs s =
     rbind (validate_body struct strs s) (\<lambda>f.
       case f of Continue s' \<Rightarrow> validate_loop struct strs s' | Return r \<Rightarrow> ok r)"
  by pat_completeness auto
termination
  by (relation "measure (\<lambda>(struct, strs, s). length struct - v_offset s)")
    (auto dest!: validate_body_Continue)

function plan_loop ::
  "bytes \<Rightarrow> bytes \<Rightarrow> bytes list \<Rightarrow> bytes option \<Rightarrow> nat \<times> EditPlanner \<Rightarrow> EditPlan fdt" where
  "plan_loop struct strs hidden_node_paths reservation_name s =
     rbind (plan_body struct strs hidden_node_paths reservation_name s) (\<lambda>f.
       case f of Continue s' \<Rightarrow> plan_loop struct strs hidden_node_paths reservation_name s'
       | Return r \<Rightarrow> ok r)"
  by pat_completeness auto
termination
  by (relation "measure (\<lambda>(struct, strs, hidden, rname, s). length struct - fst s)")
    (auto dest!: plan_body_Continue)

declare validate_loop.simps [simp del] plan_loop.simps [simp del]

definition validate_init :: validation where
  "validate_init = \<lparr>v_offset = 0, v_depth = 0, root_seen = False,
     v_nodes = replicate MAX_FDT_DEPTH vnode_new\<rparr>"

definition validate_structure :: "bytes \<Rightarrow> bytes \<Rightarrow> unit fdt" where
  "validate_structure struct strs = validate_loop struct strs validate_init"

definition plan_edits :: "bytes \<Rightarrow> bytes \<Rightarrow> bytes list \<Rightarrow> bytes option \<Rightarrow> EditPlan fdt" where
  "plan_edits struct strs hidden_node_paths reservation_name =
     plan_loop struct strs hidden_node_paths reservation_name (0, planner_new)"

end
