(* ===== verification/Fdt_Writer.thy ===== *)
theory Fdt_Writer
  imports Fdt_Plan
begin

text \<open>
  Emission of tokens, strings and the header (\<open>device_tree/patch/writer.rs\<close>) and the two edits of
  \<open>device_tree/patch.rs\<close>: hiding nodes and adding the reservation of the firmware. A vector passed
  by \<open>&mut\<close> is an argument and the result. Memory allocation succeeds.
\<close>

section \<open>Tokens and strings\<close>

definition push_u32 :: "bytes \<Rightarrow> u32 \<Rightarrow> bytes" where
  "push_u32 out v = out @ to_be_bytes v"

text \<open>\<open>usize::next_multiple_of\<close>, which overflows at \<open>2 ^ 64\<close>.\<close>

definition next_multiple_of :: "nat \<Rightarrow> nat \<Rightarrow> nat fdt" where
  "next_multiple_of n a =
     (let m = (if n mod a = 0 then n else n + (a - n mod a)) in if m < 2 ^ 64 then ok m else Panic)"

definition pad_to :: "bytes \<Rightarrow> nat \<Rightarrow> bytes fdt" where
  "pad_to out a = rbind (next_multiple_of (length out) a) (\<lambda>n. ok (out @ replicate (n - length out) 0))"

text \<open>\<open>u32::try_from\<close> of a length.\<close>

definition u32_of_len :: "nat \<Rightarrow> u32 fdt" where
  "u32_of_len n = (if n < 2 ^ 32 then ok (word_of_nat n) else err Overflow)"

definition push_cells :: "bytes \<Rightarrow> u64 \<Rightarrow> u32 \<Rightarrow> bytes fdt" where
  "push_cells out v count =
     (if count = 1 then rbind (ok_or (u32_try_from v) Overflow) (\<lambda>v. ok (out @ to_be_bytes v))
      else if count = 2 then ok (out @ to_be_bytes (ucast (drop_bit 32 v)) @ to_be_bytes (ucast v))
      else err InvalidArgs)"

definition push_begin_node :: "bytes \<Rightarrow> bytes \<Rightarrow> bytes fdt" where
  "push_begin_node out name =
     (if 0 \<in> set name then err InvalidArgs
      else pad_to (push_u32 out BEGIN_NODE @ name @ [0]) 4)"

definition push_property :: "bytes \<Rightarrow> u32 \<Rightarrow> bytes \<Rightarrow> bytes fdt" where
  "push_property out name_offset v =
     rbind (u32_of_len (length v)) (\<lambda>n.
     pad_to (push_u32 (push_u32 (push_u32 out PROPERTY) n) name_offset @ v) 4)"

definition append_string :: "bytes \<Rightarrow> bytes \<Rightarrow> (bytes \<times> u32) fdt" where
  "append_string strs name =
     rbind (u32_of_len (length strs)) (\<lambda>offset. ok (strs @ name @ [0], offset))"

section \<open>The header\<close>

text \<open>\<open>copy_from_slice\<close> into a checked sub-slice: it panics when the lengths differ.\<close>

definition copy_into :: "bytes \<Rightarrow> nat \<Rightarrow> nat \<Rightarrow> bytes \<Rightarrow> bytes fdt" where
  "copy_into out a b src = rbind (ok_or (get_range out a b) InvalidArgs) (\<lambda>dst.
     if length dst = length src then ok (take a out @ src @ drop b out) else Panic)"

definition write_header_field :: "bytes \<Rightarrow> nat \<Rightarrow> nat \<Rightarrow> bytes fdt" where
  "write_header_field out offset v =
     rbind (u32_of_len v) (\<lambda>v. rbind (us_add offset 4) (\<lambda>e. copy_into out offset e (to_be_bytes v)))"

definition rebuild :: "Layout \<Rightarrow> bytes \<Rightarrow> bytes \<Rightarrow> bytes fdt" where
  "rebuild layout struct strs =
     rbind (align_up HEADER_SIZE 8) (\<lambda>reservations_off.
     rbind (us_add reservations_off (length (reservations layout))) (\<lambda>after_reservations.
     rbind (align_up after_reservations 4) (\<lambda>structure_off.
     rbind (us_add structure_off (length struct)) (\<lambda>strings_off.
     rbind (us_add strings_off (length strs)) (\<lambda>strings_end.
     rbind (align_up strings_end 4) (\<lambda>total.
     rbind (slice (l_source layout) 0 HEADER_SIZE) (\<lambda>out.
     rbind (pad_to out 8) (\<lambda>out.
     rbind (pad_to (out @ reservations layout) 4) (\<lambda>out.
     rbind (pad_to (out @ struct @ strs) 4) (\<lambda>out.
     if length out \<noteq> total then Panic else
     rbind (write_header_field out TOTAL_SIZE_OFFSET total) (\<lambda>out.
     rbind (write_header_field out STRUCTURE_OFFSET_OFFSET structure_off) (\<lambda>out.
     rbind (write_header_field out STRINGS_OFFSET_OFFSET strings_off) (\<lambda>out.
     rbind (write_header_field out RESERVATIONS_OFFSET_OFFSET reservations_off) (\<lambda>out.
     rbind (write_header_field out STRINGS_SIZE_OFFSET (length strs)) (\<lambda>out.
     write_header_field out STRUCTURE_SIZE_OFFSET (length struct))))))))))))))))"

section \<open>The edits\<close>

record Reservation =
  res_address :: u64
  res_size :: u64

definition reservation_new :: "u64 \<Rightarrow> u64 \<Rightarrow> Reservation option" where
  "reservation_new address sz =
     (if sz = 0 then None else Some \<lparr>res_address = address, res_size = sz\<rparr>)"

text \<open>\<open>chunks_exact_mut(4)\<close> over a span: whole words become no-operations, a remainder stays.\<close>

fun nop_words :: "bytes \<Rightarrow> bytes" where
  "nop_words (a # b # c # d # r) = to_be_bytes NOP @ nop_words r"
| "nop_words xs = xs"

fun nop_nodes :: "bytes \<Rightarrow> (nat \<times> nat) list \<Rightarrow> bytes fdt" where
  "nop_nodes struct [] = ok struct"
| "nop_nodes struct ((a, b) # spans) =
     rbind (ok_or (get_range struct a b) InvalidArgs) (\<lambda>words.
     nop_nodes (take a struct @ nop_words words @ drop b struct) spans)"

text \<open>The formatting directive \<open>{:x}\<close>.\<close>

definition hex_digit :: "nat \<Rightarrow> u8" where
  "hex_digit d = word_of_nat (if d < 10 then 48 + d else 87 + d)"

fun hex :: "nat \<Rightarrow> bytes" where
  "hex n = (if n < 16 then [hex_digit n] else hex (n div 16) @ [hex_digit (n mod 16)])"

declare hex.simps [simp del]

definition reservation_node_name :: "Reservation \<Rightarrow> bytes" where
  "reservation_node_name r = str ''mmode_resv1@'' @ hex (unat (res_address r))"

text \<open>The bytes of the new nodes, then their place in the structure block.\<close>

definition firmware_child :: "bytes \<Rightarrow> CellCounts \<Rightarrow> Reservation \<Rightarrow> u32 \<Rightarrow> u32 \<Rightarrow> bytes fdt" where
  "firmware_child child_name cells reservation reg_name no_map_name =
     rbind (push_begin_node [] child_name) (\<lambda>child.
     rbind (push_cells [] (res_address reservation) (address_cells cells)) (\<lambda>encoded_range.
     rbind (push_cells encoded_range (res_size reservation) (size_cells cells)) (\<lambda>encoded_range.
     rbind (push_property child reg_name encoded_range) (\<lambda>child.
     rbind (push_property child no_map_name []) (\<lambda>child.
     ok (push_u32 child END_NODE))))))"

definition firmware_parent :: "CellCounts \<Rightarrow> u32 \<Rightarrow> u32 \<Rightarrow> u32 \<Rightarrow> bytes \<Rightarrow> bytes fdt" where
  "firmware_parent cells address_cells_name size_cells_name ranges_name child =
     rbind (push_begin_node [] (str ''reserved-memory'')) (\<lambda>parent.
     rbind (push_property parent address_cells_name (to_be_bytes (address_cells cells))) (\<lambda>parent.
     rbind (push_property parent size_cells_name (to_be_bytes (size_cells cells))) (\<lambda>parent.
     rbind (push_property parent ranges_name []) (\<lambda>parent.
     ok (push_u32 (parent @ child) END_NODE)))))"

definition add_firmware_reservation ::
  "Layout \<Rightarrow> EditPlan \<Rightarrow> bytes \<Rightarrow> Reservation \<Rightarrow> bytes \<Rightarrow> bytes fdt" where
  "add_firmware_reservation layout edits struct reservation child_name =
     (if (case reserved_memory edits of None \<Rightarrow> False | Some reserved \<Rightarrow>
            \<not> accepts_firmware_child reserved \<or> rm_cells reserved \<noteq> root_cells edits
            \<or> reservation_exists edits) then err InvalidArgs
      else let cells = (case reserved_memory edits of Some node \<Rightarrow> rm_cells node
                        | None \<Rightarrow> root_cells edits) in
      rbind (validate_cell_widths cells) (\<lambda>_.
      rbind (append_string (strings_block layout) (str ''#address-cells'')) (\<lambda>(strs, address_cells_name).
      rbind (append_string strs (str ''#size-cells'')) (\<lambda>(strs, size_cells_name).
      rbind (append_string strs (str ''ranges'')) (\<lambda>(strs, ranges_name).
      rbind (append_string strs (str ''reg'')) (\<lambda>(strs, reg_name).
      rbind (append_string strs (str ''no-map'')) (\<lambda>(strs, no_map_name).
      rbind (firmware_child child_name cells reservation reg_name no_map_name) (\<lambda>child.
      rbind (case reserved_memory edits of Some reserved \<Rightarrow> ok (rm_end reserved, child)
             | None \<Rightarrow>
               rbind (firmware_parent cells address_cells_name size_cells_name ranges_name child)
                 (\<lambda>parent. ok (root_end edits, parent))) (\<lambda>(insertion_offset, insertion).
      rbind (us_add (length struct) (length insertion)) (\<lambda>structure_size.
      rbind (slice struct 0 insertion_offset) (\<lambda>before.
      rbind (slice struct insertion_offset (length struct)) (\<lambda>after.
      rebuild layout (before @ insertion @ after) strs))))))))))))"

definition bad_hidden_path :: "bytes \<Rightarrow> bool" where
  "bad_hidden_path p \<longleftrightarrow> p = [] \<or> hd p \<noteq> of_char (CHR ''/'') \<or> p = str ''/'' \<or> 0 \<in> set p"

definition prepare_next_stage :: "bytes \<Rightarrow> Reservation option \<Rightarrow> bytes list \<Rightarrow> bytes fdt" where
  "prepare_next_stage source firmware_reservation hidden_node_paths =
     (if list_ex bad_hidden_path hidden_node_paths then err InvalidArgs
      else rbind (layout_parse source) (\<lambda>layout.
      let reservation_name = map_option reservation_node_name firmware_reservation in
      rbind (plan_edits (structure_block layout) (strings_block layout) hidden_node_paths
               reservation_name) (\<lambda>edits.
      rbind (nop_nodes (structure_block layout) (hidden_nodes edits)) (\<lambda>struct.
      case (firmware_reservation, reservation_name) of
        (Some reservation, Some name) \<Rightarrow>
          add_firmware_reservation layout edits struct reservation name
      | _ \<Rightarrow>
          rbind (slice source 0 (total_size layout)) (\<lambda>out.
          rbind (us_add (structure_offset layout) (length struct)) (\<lambda>e.
          copy_into out (structure_offset layout) e struct))))))"

definition validate :: "bytes \<Rightarrow> unit fdt" where
  "validate source = rbind (layout_parse source) (\<lambda>layout.
     validate_structure (structure_block layout) (strings_block layout))"

end
