(* ===== verification/Fdt_Tokens.thy ===== *)
theory Fdt_Tokens
  imports Fdt_Writer
begin

text \<open>
  The token grammar of the structure block (Devicetree Specification v0.4, section 5.4) and the
  readers of \<open>Fdt_Format\<close> against it: reading a token at an offset succeeds exactly when the bytes
  there are an encoding of that token. The loops of \<open>Fdt_Plan\<close> are then runs over the tokens of a
  block, by one lemma of the locale \<open>token_loop\<close> that each of them interprets.
\<close>

section \<open>Byte order\<close>

lemma length_to_be_bytes [simp]: "length (to_be_bytes w) = 4"
  by (simp add: to_be_bytes_def)

lemma from_to_be_bytes [simp]: "from_be_bytes (to_be_bytes w) = w"
proof -
  have "bit w n \<Longrightarrow> 8 \<le> n \<Longrightarrow> \<not> bit w (16 + (n - 16)) \<Longrightarrow> n < 16" for n
    by (metis le_add_diff_inverse linorder_not_less)
  moreover have "bit w n \<Longrightarrow> 8 \<le> n \<Longrightarrow> \<not> bit w (24 + (n - 24)) \<Longrightarrow> n < 24" for n
    by (metis le_add_diff_inverse linorder_not_less)
  ultimately show ?thesis
    unfolding to_be_bytes_def from_be_bytes.simps
    by (intro bit_word_eqI) (force simp: bit_simps)
qed

lemma to_from_be_bytes: "length bs = 4 \<Longrightarrow> to_be_bytes (from_be_bytes bs) = bs"
proof -
  assume "length bs = 4"
  then obtain a b c d where "bs = [a, b, c, d]"
    by (auto simp: length_Suc_conv numeral_eq_Suc)
  moreover have "\<not> bit x (8 + n)" "\<not> bit x (16 + n)" "\<not> bit x (24 + n)" for x :: u8 and n
    using bit_imp_le_length [of x] by fastforce+
  ultimately show ?thesis
    by (auto simp: to_be_bytes_def bit_simps intro!: bit_word_eqI)
qed

lemma to_be_bytes_inj: "to_be_bytes v = to_be_bytes w \<longleftrightarrow> v = w"
  by (metis from_to_be_bytes)

section \<open>The readers\<close>

lemma usize_length: "LENGTH(64) = 64"
  by simp

lemma align_up_power:
  assumes "v + (2 ^ k - 1) < 2 ^ 64" and "a = 2 ^ k" and "k < 64"
  shows "align_up v a = ok (a * ((v + (a - 1)) div a))"
proof -
  let ?w = "word_of_nat (v + (a - 1)) :: usize"
  have "(word_of_nat (a - 1) :: usize) = mask k"
    using assms(2) by (simp add: mask_eq_exp_minus_1)
  then have "?w AND NOT (word_of_nat (a - 1)) = push_bit k (drop_bit k ?w)"
    by (intro bit_word_eqI) (auto simp: bit_simps)
  moreover have "unat (push_bit k (drop_bit k ?w)) = a * ((v + (a - 1)) div a)"
  proof -
    have w: "unat ?w = v + (a - 1)"
      using assms by (simp add: unat_of_nat)
    have "(v + (a - 1)) div a * a \<le> v + (a - 1)"
      by simp
    then have "(v + (a - 1)) div a * a < 2 ^ 64"
      using assms by linarith
    then have "take_bit 64 (push_bit k (drop_bit k (unat ?w))) = a * ((v + (a - 1)) div a)"
      unfolding w
      using assms(2) by (simp add: drop_bit_eq_div push_bit_eq_mult take_bit_nat_eq_self_iff mult.commute)
    moreover have "take_bit 64 (unat ?w) = unat ?w"
      using w assms by (simp add: take_bit_nat_eq_self_iff)
    ultimately show ?thesis
      by (metis (no_types, lifting) unsigned_push_bit_eq unsigned_drop_bit_eq usize_length)
  qed
  ultimately show ?thesis
    using assms by (simp add: align_up_def us_add_def)
qed

text \<open>A slice of the program is shorter than \<open>isize::MAX\<close>.\<close>

abbreviation small :: "bytes \<Rightarrow> bool" where "small bs \<equiv> length bs < 2 ^ 63"

lemma align_up_4: "v + 3 < 2 ^ 64 \<Longrightarrow> align_up v 4 = ok (4 * ((v + 3) div 4))"
proof -
  assume "v + 3 < 2 ^ 64"
  then have "v + (2 ^ 2 - 1) < 2 ^ 64"
    by simp
  from align_up_power [OF this, of 4] show ?thesis
    by simp
qed

lemma align_up_no_Panic [simp]: "align_up v a \<noteq> Panic"
  by (simp add: align_up_def us_add_def)

lemma us_add_no_Panic [simp]: "us_add a b \<noteq> Panic"
  by (simp add: us_add_def)

lemma us_add_ok_iff [simp]: "us_add a b = ok c \<longleftrightarrow> c = a + b \<and> a + b < 2 ^ 64"
  by (auto simp: us_add_def)

lemma get_range_Some_iff:
  "get_range xs a b = Some ys \<longleftrightarrow> a \<le> b \<and> (\<exists>rest. a \<le> length xs \<and> drop a xs = ys @ rest \<and> b = a + length ys)"
  (is "?l \<longleftrightarrow> ?r")
proof
  assume ?l
  then have "a \<le> b" "b \<le> length xs" "ys = take (b - a) (drop a xs)"
    by (auto simp: get_range_def split: if_splits)
  then show ?r
    using append_take_drop_id [of "b - a" "drop a xs"] by (metis (no_types, opaque_lifting)
        diff_le_mono le_add_diff_inverse length_drop length_take min.absorb2 le_trans)
next
  assume ?r
  then obtain rest where r: "drop a xs = ys @ rest" "b = a + length ys" "a \<le> length xs"
    by blast
  then have "length xs - a = length ys + length rest"
    by (metis length_append length_drop)
  with r show ?l
    by (auto simp: get_range_def)
qed

lemma slice_0_no_Panic [simp]: "n \<le> length xs \<Longrightarrow> slice xs 0 n = ok (take n xs)"
  by (simp add: slice_def get_range_def)

lemma slice_end [simp]: "n \<le> length xs \<Longrightarrow> slice xs n (length xs) = ok (drop n xs)"
  by (simp add: slice_def get_range_def)

lemma position_zero_Some_iff:
  "position_zero bs = Some n \<longleftrightarrow> (\<exists>rest. bs = take n bs @ 0 # rest \<and> n < length bs \<and> 0 \<notin> set (take n bs))"
proof (induction bs arbitrary: n)
  case (Cons b bs)
  show ?case
  proof (cases n)
    case 0
    then show ?thesis by auto
  next
    case (Suc m)
    then show ?thesis using Cons.IH [of m] by auto
  qed
qed simp

lemma position_zero_append: "0 \<notin> set xs \<Longrightarrow> position_zero (xs @ 0 # ys) = Some (length xs)"
  by (subst position_zero_Some_iff) auto

lemma position_zero_less: "position_zero bs = Some n \<Longrightarrow> n < length bs"
  by (simp add: position_zero_Some_iff)

lemma from_utf8_ok_iff [simp]: "from_utf8 bs = ok s \<longleftrightarrow> s = bs \<and> utf8_valid bs"
  by (auto simp: from_utf8_def)

lemma from_utf8_no_Panic [simp]: "from_utf8 bs \<noteq> Panic"
  by (simp add: from_utf8_def)

lemma read_u32_no_Panic [simp]: "read_u32 bs i \<noteq> Panic"
  by (auto simp: read_u32_def rbind_Panic_iff)

lemma take_u32_no_Panic [simp]: "take_u32 bs i \<noteq> Panic"
  by (auto simp: take_u32_def rbind_Panic_iff)

lemma take_c_string_no_Panic [simp]: "take_c_string bs i \<noteq> Panic"
  by (auto simp: take_c_string_def rbind_Panic_iff dest!: position_zero_less)

lemma take_aligned_no_Panic [simp]: "take_aligned bs i n \<noteq> Panic"
  by (auto simp: take_aligned_def rbind_Panic_iff)

lemma string_at_no_Panic [simp]: "string_at bs i \<noteq> Panic"
  by (auto simp: string_at_def rbind_Panic_iff dest!: position_zero_less)

lemma drop_prefix_le: "drop i bs = xs @ rest \<Longrightarrow> xs \<noteq> [] \<Longrightarrow> i + length xs \<le> length bs"
proof -
  assume d: "drop i bs = xs @ rest" and xs: "xs \<noteq> []"
  have "length bs - i = length xs + length rest"
    using arg_cong [OF d, of length] by simp
  moreover have "0 < length xs"
    using xs by simp
  ultimately show ?thesis
    by linarith
qed

lemma read_u32_ok_iff:
  assumes "small bs"
  shows "read_u32 bs i = ok v \<longleftrightarrow> (\<exists>rest. drop i bs = to_be_bytes v @ rest)"
proof
  assume "read_u32 bs i = ok v"
  then obtain e where "length e = 4" "v = from_be_bytes e" "get_range bs i (i + 4) = Some e"
    by (auto simp: read_u32_def rbind_ok_iff split: if_splits)
  then show "\<exists>rest. drop i bs = to_be_bytes v @ rest"
    by (auto simp: get_range_Some_iff to_from_be_bytes)
next
  assume "\<exists>rest. drop i bs = to_be_bytes v @ rest"
  then obtain rest where r: "drop i bs = to_be_bytes v @ rest" ..
  then have "i + 4 \<le> length bs"
    using drop_prefix_le [OF r] length_to_be_bytes [of v] by (metis length_0_conv zero_neq_numeral)
  then have "get_range bs i (i + 4) = Some (to_be_bytes v)" "i + 4 < 2 ^ 64"
    using r assms by (auto simp: get_range_Some_iff)
  then show "read_u32 bs i = ok v"
    by (simp add: read_u32_def us_add_def)
qed

lemma take_u32_ok_iff:
  assumes "small bs"
  shows "take_u32 bs i = ok (v, j) \<longleftrightarrow> (\<exists>rest. drop i bs = to_be_bytes v @ rest) \<and> j = i + 4"
proof -
  have "i + 4 < 2 ^ 64" if "read_u32 bs i = ok v"
    using that by (auto simp: read_u32_def rbind_ok_iff)
  then show ?thesis
    unfolding read_u32_ok_iff [OF assms, symmetric] by (auto simp: take_u32_def rbind_ok_iff)
qed

text \<open>The bytes that fill a word after \<open>n\<close> bytes.\<close>

definition padding :: "nat \<Rightarrow> nat" where
  "padding n = 4 * ((n + 3) div 4) - n"

lemma padding_add: "4 * ((n + 3) div 4) = n + padding n"
  by (auto simp: padding_def)

lemma padding_word: "4 dvd n + padding n"
  by (simp flip: padding_add)

lemma padding_less: "padding n < 4"
  unfolding padding_def by linarith

lemma padding_unique: "k < 4 \<Longrightarrow> 4 dvd n + k \<Longrightarrow> padding n = k"
proof -
  assume k: "k < 4" and "4 dvd n + k"
  then obtain q where q: "n + k = 4 * q"
    by auto
  with k have "(n + 3) div 4 = q"
    by linarith
  with q show ?thesis
    by (simp add: padding_def)
qed

lemma padding_aligned: "4 dvd n \<Longrightarrow> padding n = 0"
  using padding_unique [of 0 n] by simp

lemma padding_skip: "4 dvd k \<Longrightarrow> padding (k + n) = padding n"
  using padding_less [of n] padding_word [of n] by (intro padding_unique) (simp_all add: add.assoc)

lemma length_dropE: "drop i bs = xs \<Longrightarrow> i \<le> length bs \<Longrightarrow> length bs = i + length xs"
  by auto

lemma position_zeroE:
  assumes "position_zero bs = Some n"
  obtains s rest where "bs = s @ 0 # rest" "length s = n" "0 \<notin> set s" "slice bs 0 n = ok s"
proof -
  from assms obtain rest where "bs = take n bs @ 0 # rest" "n < length bs" "0 \<notin> set (take n bs)"
    by (auto simp: position_zero_Some_iff)
  then show thesis
    by (intro that [of "take n bs" rest]) auto
qed

lemma take_aligned_ok_iff:
  assumes "small bs"
  shows "take_aligned bs i n = ok (v, j) \<longleftrightarrow> i \<le> length bs \<and> (\<exists>pad rest. drop i bs = v @ pad @ rest
           \<and> length v = n \<and> length pad = padding n \<and> j = i + n + length pad)" (is "?l \<longleftrightarrow> ?r")
proof
  assume ?l
  then have v: "get_range bs i (i + n) = Some v" and j: "align_up n 4 = ok (j - i)" "i \<le> j" "j \<le> length bs"
    by (auto simp: take_aligned_def rbind_ok_iff split: if_splits)
  from v obtain rest where r: "drop i bs = v @ rest" "length v = n" "i \<le> length bs"
    by (auto simp: get_range_Some_iff)
  have "n + 3 < 2 ^ 64"
    using j(1) by (auto simp: align_up_def rbind_ok_iff)
  then have ji: "j = i + n + padding n"
    using j by (simp add: align_up_4 padding_add)
  then have "padding n \<le> length rest"
    using j(3) length_dropE [OF r(1,3)] r(2) by simp
  then obtain pad rest' where "rest = pad @ rest'" "length pad = padding n"
    by (metis append_take_drop_id length_take min.absorb2)
  with r ji show ?r
    by auto
next
  assume ?r
  then obtain pad rest where r: "drop i bs = v @ pad @ rest" "length v = n" "length pad = padding n"
    "j = i + n + padding n" "i \<le> length bs"
    by auto
  have le: "j \<le> length bs"
    using length_dropE [OF r(1,5)] r by simp
  have "get_range bs i (i + n) = Some v"
    using r by (auto simp: get_range_Some_iff)
  moreover have "align_up n 4 = ok (n + padding n)"
    using le assms r(4) by (subst align_up_4) (auto simp: padding_add)
  ultimately show ?l
    using le assms r(4) by (simp add: take_aligned_def us_add_def)
qed

lemma take_c_string_ok_iff:
  assumes "small bs"
  shows "take_c_string bs i = ok (s, j) \<longleftrightarrow> i \<le> length bs \<and> utf8_valid s \<and> 0 \<notin> set s \<and>
    (\<exists>pad rest. drop i bs = s @ 0 # pad @ rest \<and> length pad = padding (length s + 1)
       \<and> j = i + length s + 1 + length pad)" (is "?l \<longleftrightarrow> ?r")
proof
  assume ?l
  then obtain n where i: "i \<le> length bs" and n: "position_zero (drop i bs) = Some n"
    and s: "slice (drop i bs) 0 n = ok s" "utf8_valid s"
    and j: "align_up (n + 1) 4 = ok (j - i)" "i \<le> j" "j \<le> length bs"
    by (auto simp: take_c_string_def rbind_ok_iff get_from_def split: if_splits)
  from n s obtain rest where r: "drop i bs = s @ 0 # rest" "0 \<notin> set s" and sn: "length s = n"
    by (auto elim!: position_zeroE)
  have "n + 1 + 3 < 2 ^ 64"
    using j(1) by (auto simp: align_up_def rbind_ok_iff)
  then have ji: "j = i + (n + 1) + padding (n + 1)"
    using j align_up_4 [of "n + 1"] padding_add [of "n + 1"] by simp
  then have "padding (n + 1) \<le> length rest"
    using j(3) length_dropE [OF r(1) i] sn by simp
  then obtain pad rest' where "rest = pad @ rest'" "length pad = padding (n + 1)"
    by (metis append_take_drop_id length_take min.absorb2)
  with r ji sn s i show ?r
    by auto
next
  assume ?r
  then obtain pad rest where r: "drop i bs = s @ 0 # pad @ rest" "length pad = padding (length s + 1)"
    "j = i + length s + 1 + padding (length s + 1)" "i \<le> length bs" "utf8_valid s" "0 \<notin> set s"
    by auto
  have le: "j \<le> length bs"
    using length_dropE [OF r(1,4)] r by simp
  have "position_zero (drop i bs) = Some (length s)" "slice (drop i bs) 0 (length s) = ok s"
    using r by (simp_all add: position_zero_append)
  moreover have "align_up (length s + 1) 4 = ok (length s + 1 + padding (length s + 1))"
    using le assms r(3) padding_add [of "length s + 1"] by (subst align_up_4) auto
  ultimately show ?l
    using le assms r by (simp add: take_c_string_def us_add_def get_from_def from_utf8_def)
qed

lemma string_at_ok_iff:
  "string_at bs i = ok s \<longleftrightarrow> i \<le> length bs \<and> utf8_valid s \<and> 0 \<notin> set s \<and> (\<exists>rest. drop i bs = s @ 0 # rest)"
  (is "?l \<longleftrightarrow> ?r")
proof
  assume ?l
  then obtain n where i: "i \<le> length bs" and n: "position_zero (drop i bs) = Some n"
    and s: "slice (drop i bs) 0 n = ok s" "utf8_valid s"
    by (auto simp: string_at_def rbind_ok_iff get_from_def split: if_splits)
  from n s obtain rest where "drop i bs = s @ 0 # rest" "0 \<notin> set s"
    by (auto elim!: position_zeroE)
  with s i show ?r
    by auto
next
  assume ?r
  then show ?l
    by (auto simp: string_at_def get_from_def position_zero_append)
qed

section \<open>Tokens\<close>

datatype token = TBegin bytes | TProp bytes bytes | TEnd | TNop | TFinish

text \<open>The encodings of a token: names and values are followed by arbitrary padding.\<close>

fun token_bytes :: "bytes \<Rightarrow> token \<Rightarrow> bytes \<Rightarrow> bool" where
  "token_bytes strs (TBegin name) c \<longleftrightarrow> utf8_valid name \<and> 0 \<notin> set name \<and>
     (\<exists>pad. c = to_be_bytes BEGIN_NODE @ name @ 0 # pad \<and> length pad = padding (length name + 1))"
| "token_bytes strs (TProp name v) c \<longleftrightarrow>
     (\<exists>n name_offset pad. c = to_be_bytes PROPERTY @ to_be_bytes n @ to_be_bytes name_offset @ v @ pad
        \<and> length v = unat n \<and> length pad = padding (length v)
        \<and> string_at strs (unat name_offset) = ok name)"
| "token_bytes strs TEnd c \<longleftrightarrow> c = to_be_bytes END_NODE"
| "token_bytes strs TNop c \<longleftrightarrow> c = to_be_bytes NOP"
| "token_bytes strs TFinish c \<longleftrightarrow> c = to_be_bytes END"

definition read_token :: "bytes \<Rightarrow> bytes \<Rightarrow> nat \<Rightarrow> (token \<times> nat) fdt" where
  "read_token struct strs i = rbind (take_u32 struct i) (\<lambda>(w, i).
     if w = BEGIN_NODE then rbind (take_c_string struct i) (\<lambda>(name, i). ok (TBegin name, i))
     else if w = PROPERTY then
       rbind (take_u32 struct i) (\<lambda>(n, i). rbind (take_u32 struct i) (\<lambda>(name_offset, i).
       rbind (take_aligned struct i (unat n)) (\<lambda>(v, i).
       rbind (string_at strs (unat name_offset)) (\<lambda>name. ok (TProp name v, i)))))
     else if w = END_NODE then ok (TEnd, i)
     else if w = NOP then ok (TNop, i)
     else if w = END then ok (TFinish, i)
     else err InvalidArgs)"

lemma token_consts_distinct [simp]:
  "BEGIN_NODE \<noteq> PROPERTY" "BEGIN_NODE \<noteq> END_NODE" "BEGIN_NODE \<noteq> NOP" "BEGIN_NODE \<noteq> END"
  "PROPERTY \<noteq> BEGIN_NODE" "PROPERTY \<noteq> END_NODE" "PROPERTY \<noteq> NOP" "PROPERTY \<noteq> END"
  "END_NODE \<noteq> BEGIN_NODE" "END_NODE \<noteq> PROPERTY" "END_NODE \<noteq> NOP" "END_NODE \<noteq> END"
  "NOP \<noteq> BEGIN_NODE" "NOP \<noteq> PROPERTY" "NOP \<noteq> END_NODE" "NOP \<noteq> END"
  "END \<noteq> BEGIN_NODE" "END \<noteq> PROPERTY" "END \<noteq> END_NODE" "END \<noteq> NOP"
  by (simp_all add: token_consts)

lemma drop_add_append: "drop i bs = xs @ rest \<Longrightarrow> drop (i + length xs) bs = rest"
  by (metis add.commute append_eq_conv_conj drop_drop)

lemma token_bytes_word: "token_bytes strs t c \<Longrightarrow> 4 dvd length c \<and> 4 \<le> length c"
proof (cases t)
  case (TBegin name)
  assume "token_bytes strs t c"
  then have "length c = 4 + (length name + 1 + padding (length name + 1))"
    using TBegin by auto
  then show ?thesis
    using padding_word [of "length name + 1"] by (metis dvd_add dvd_refl le_add1)
next
  case (TProp name v)
  assume "token_bytes strs t c"
  then have "length c = 4 * 3 + (length v + padding (length v))"
    using TProp by auto
  moreover have "4 dvd (4 * 3 :: nat)"
    by simp
  ultimately show ?thesis
    using padding_word [of "length v"] by auto
qed auto

lemma read_token_sound:
  assumes "small struct" and l: "read_token struct strs i = ok (t, j)"
  shows "\<exists>c rest. drop i struct = c @ rest \<and> token_bytes strs t c \<and> j = i + length c"
proof -
  note assms = assms(1)
  from l obtain w k where w: "take_u32 struct i = ok (w, k)"
    by (auto simp: read_token_def rbind_ok_iff)
  then obtain rest where d: "drop i struct = to_be_bytes w @ rest" and k: "k = i + 4"
    using take_u32_ok_iff [OF assms] by blast
  then have d4: "drop (i + 4) struct = rest"
    using drop_add_append [OF d] by simp
  consider "w = BEGIN_NODE" | "w = PROPERTY" | "w = END_NODE" | "w = NOP" | "w = END"
    using l w by (auto simp: read_token_def split: if_splits)
  then show ?thesis
  proof cases
    case 1
    with l w k obtain name where "take_c_string struct (i + 4) = ok (name, j)" and t: "t = TBegin name"
      by (auto simp: read_token_def rbind_ok_iff)
    then obtain pad rest' where "rest = name @ 0 # pad @ rest'" "utf8_valid name" "0 \<notin> set name"
      "length pad = padding (length name + 1)" "j = i + 4 + length name + 1 + length pad"
      unfolding take_c_string_ok_iff [OF assms] d4 by blast
    then show ?thesis
      using d 1 t by (intro exI [of _ "to_be_bytes w @ name @ 0 # pad"] exI [of _ rest']) auto
  next
    case 2
    with l w k obtain n m off l name v where n: "take_u32 struct (i + 4) = ok (n, m)"
      and off: "take_u32 struct m = ok (off, l)"
      and v: "take_aligned struct l (unat n) = ok (v, j)" and s: "string_at strs (unat off) = ok name"
      and t: "t = TProp name v"
      by (auto simp: read_token_def rbind_ok_iff)
    from n obtain rest1 where r1: "rest = to_be_bytes n @ rest1" and m: "m = i + 4 + 4"
      using take_u32_ok_iff [OF assms] d4 by auto
    with d4 have d8: "drop (i + 4 + 4) struct = rest1"
      using drop_add_append [of "i + 4"] by fastforce
    from off obtain rest2 where r2: "rest1 = to_be_bytes off @ rest2" and l: "l = i + 4 + 4 + 4"
      using take_u32_ok_iff [OF assms] d8 m by auto
    with d8 have d12: "drop (i + 4 + 4 + 4) struct = rest2"
      using drop_add_append [of "i + 4 + 4"] by fastforce
    from v obtain pad rest3 where "rest2 = v @ pad @ rest3" "length v = unat n"
      "length pad = padding (unat n)" "j = l + unat n + length pad"
      using take_aligned_ok_iff [OF assms] d12 l by auto
    then show ?thesis
      using d 2 t r1 r2 l s
      by (intro exI [of _ "to_be_bytes w @ to_be_bytes n @ to_be_bytes off @ v @ pad"] exI [of _ rest3]) auto
  qed (use l w k d in \<open>auto simp: read_token_def\<close>)
qed

lemma read_token_complete:
  assumes "small struct" and d: "drop i struct = c @ rest" and c: "token_bytes strs t c"
    and j: "j = i + length c"
  shows "read_token struct strs i = ok (t, j)"
proof -
  note assms = assms(1)
  have le: "i + length c \<le> length struct"
    using drop_prefix_le [OF d] token_bytes_word [OF c] by fastforce
  have u: "take_u32 struct i' = ok (w, i' + 4)" if "drop i' struct = to_be_bytes w @ r" for i' w r
    using that take_u32_ok_iff [OF assms] by blast
  show ?thesis
  proof (cases t)
    case (TBegin name)
    with c obtain pad where p: "c = to_be_bytes BEGIN_NODE @ name @ 0 # pad" "utf8_valid name"
      "0 \<notin> set name" "length pad = padding (length name + 1)"
      by auto
    with d have "drop (i + 4) struct = name @ 0 # pad @ rest"
      using drop_add_append [of i struct "to_be_bytes BEGIN_NODE"] by simp
    then have "take_c_string struct (i + 4) = ok (name, j)"
      unfolding take_c_string_ok_iff [OF assms] using p j le by auto
    with u d p TBegin show ?thesis
      by (simp add: read_token_def)
  next
    case (TProp name v)
    with c obtain n off pad where p: "c = to_be_bytes PROPERTY @ to_be_bytes n @ to_be_bytes off @ v @ pad"
      "length v = unat n" "length pad = padding (length v)" "string_at strs (unat off) = ok name"
      by auto
    with d have d4: "drop (i + 4) struct = to_be_bytes n @ to_be_bytes off @ v @ pad @ rest"
      using drop_add_append [of i struct "to_be_bytes PROPERTY"] by simp
    then have d8: "drop (i + 4 + 4) struct = to_be_bytes off @ v @ pad @ rest"
      using drop_add_append [of "i + 4"] by fastforce
    then have "drop (i + 4 + 4 + 4) struct = v @ pad @ rest"
      using drop_add_append [of "i + 4 + 4"] by fastforce
    then have "take_aligned struct (i + 4 + 4 + 4) (unat n) = ok (v, j)"
      unfolding take_aligned_ok_iff [OF assms] using p j le by auto
    with u [of i] u [OF d4] u [OF d8] d p TProp show ?thesis
      by (simp add: read_token_def)
  qed (use u d c j in \<open>auto simp: read_token_def\<close>)
qed

lemma read_token_ok_iff:
  "small struct \<Longrightarrow> read_token struct strs i = ok (t, j) \<longleftrightarrow>
    (\<exists>c rest. drop i struct = c @ rest \<and> token_bytes strs t c \<and> j = i + length c)"
  using read_token_sound read_token_complete by blast

lemma read_token_no_Panic [simp]: "read_token struct strs i \<noteq> Panic"
  by (auto simp: read_token_def rbind_Panic_iff split: if_splits)

section \<open>Blocks of tokens\<close>

text \<open>
  A block of encoded tokens, and the end of a structure block: the end token and words that are
  no-operations.
\<close>

definition nops :: "nat \<Rightarrow> bytes" where
  "nops k = concat (replicate k (to_be_bytes NOP))"

definition block :: "bytes \<Rightarrow> (token \<times> bytes) list \<Rightarrow> bool" where
  "block strs tcs \<longleftrightarrow> (\<forall>(t, c) \<in> set tcs. t \<noteq> TFinish \<and> token_bytes strs t c)"

definition block_bytes :: "(token \<times> bytes) list \<Rightarrow> bytes" where
  "block_bytes tcs = concat (map snd tcs)"

lemma block_simps [simp]:
  "block strs []" "block strs ((t, c) # tcs) \<longleftrightarrow> t \<noteq> TFinish \<and> token_bytes strs t c \<and> block strs tcs"
  "block strs (xs @ ys) \<longleftrightarrow> block strs xs \<and> block strs ys"
  by (auto simp: block_def)

lemma block_bytes_simps [simp]:
  "block_bytes [] = []" "block_bytes ((t, c) # tcs) = c @ block_bytes tcs"
  "block_bytes (xs @ ys) = block_bytes xs @ block_bytes ys"
  by (auto simp: block_bytes_def)

lemma nops_simps [simp]: "nops 0 = []" "nops (Suc k) = to_be_bytes NOP @ nops k"
  by (simp_all add: nops_def)

lemma length_nops [simp]: "length (nops k) = 4 * k"
  by (induction k) auto

lemma trailing_ok_iff: "\<not> trailing_bad bs \<longleftrightarrow> (\<exists>k. bs = nops k)"
proof
  assume "\<not> trailing_bad bs"
  then show "\<exists>k. bs = nops k"
    unfolding trailing_bad_def
  proof (induction bs rule: chunks_exact.induct)
    case (1 a b c d r)
    then obtain k where "r = nops k"
      by auto
    moreover have "to_be_bytes NOP = [a, b, c, d]"
      using "1.prems" by simp
    ultimately have "a # b # c # d # r = nops (Suc k)"
      by simp
    then show ?case ..
  qed (auto intro: exI [of _ 0])
next
  assume "\<exists>k. bs = nops k"
  then obtain k where "bs = nops k" ..
  moreover have "\<not> trailing_bad (nops k)"
    by (induction k) (auto simp: trailing_bad_def to_be_bytes_def)
  ultimately show "\<not> trailing_bad bs"
    by simp
qed

text \<open>A run over the tokens of a block: the step of each token, then the final step.\<close>

fun token_run :: "('s \<Rightarrow> nat) \<Rightarrow> (token \<Rightarrow> nat \<Rightarrow> nat \<Rightarrow> 's \<Rightarrow> 's fdt) \<Rightarrow> ('s \<Rightarrow> 'r fdt)
    \<Rightarrow> 's \<Rightarrow> (token \<times> bytes) list \<Rightarrow> 'r fdt" where
  "token_run off step fin s [] = fin s"
| "token_run off step fin s ((t, c) # tcs) =
     rbind (step t (off s) (off s + length c) s) (\<lambda>s. token_run off step fin s tcs)"

locale token_loop =
  fixes struct strs :: bytes
    and off :: "'s \<Rightarrow> nat"
    and step :: "token \<Rightarrow> nat \<Rightarrow> nat \<Rightarrow> 's \<Rightarrow> 's fdt"
    and fin :: "'s \<Rightarrow> 'r fdt"
    and body :: "'s \<Rightarrow> ('s, 'r) flow fdt"
    and loop :: "'s \<Rightarrow> 'r fdt"
  assumes loop_unfold: "loop s = rbind (body s) (\<lambda>f. case f of Continue s' \<Rightarrow> loop s' | Return r \<Rightarrow> ok r)"
    and body_Continue: "body s = ok (Continue s') \<longleftrightarrow> (\<exists>t e. read_token struct strs (off s) = ok (t, e)
      \<and> t \<noteq> TFinish \<and> step t (off s) e s = ok s')"
    and body_Return: "body s = ok (Return r) \<longleftrightarrow> (\<exists>e. read_token struct strs (off s) = ok (TFinish, e)
      \<and> \<not> trailing_bad (drop e struct) \<and> fin s = ok r)"
    and step_off: "step t a e s = ok s' \<Longrightarrow> off s' = e"
begin

lemma loop_sound:
  assumes small_struct: "small struct"
  shows "loop s = ok r \<Longrightarrow> \<exists>tcs k. drop (off s) struct = block_bytes tcs @ to_be_bytes END @ nops k
     \<and> block strs tcs \<and> token_run off step fin s tcs = ok r"
proof (induction "length struct - off s" arbitrary: s rule: less_induct)
  case less
  then obtain f where f: "body s = ok f"
    and l: "(case f of Continue s' \<Rightarrow> loop s' | Return r \<Rightarrow> ok r) = ok r"
    by (metis loop_unfold rbind_ok_iff)
  show ?case
  proof (cases f)
    case (Continue s')
    with f obtain t e where t: "read_token struct strs (off s) = ok (t, e)" "t \<noteq> TFinish"
      and st: "step t (off s) e s = ok s'"
      by (auto simp: body_Continue)
    from t obtain c rest where c: "drop (off s) struct = c @ rest" "token_bytes strs t c"
      and e: "e = off s + length c"
      using read_token_sound [OF small_struct] by blast
    have s': "off s' = off s + length c"
      using step_off [OF st] e by simp
    moreover have "off s + length c \<le> length struct" "0 < length c"
      using drop_prefix_le [OF c(1)] token_bytes_word [OF c(2)] by fastforce+
    ultimately have "length struct - off s' < length struct - off s"
      by linarith
    with less.hyps l Continue obtain tcs k where k: "drop (off s') struct = block_bytes tcs @ to_be_bytes END @ nops k"
      "block strs tcs" "token_run off step fin s' tcs = ok r"
      by fastforce
    moreover have "rest = drop (off s') struct"
      using drop_add_append [OF c(1)] s' by simp
    ultimately show ?thesis
      using c t e st by (intro exI [of _ "(t, c) # tcs"] exI [of _ k]) simp
  next
    case (Return r')
    with f l obtain e where "read_token struct strs (off s) = ok (TFinish, e)"
      and tr: "\<not> trailing_bad (drop e struct)" and fin: "fin s = ok r"
      by (auto simp: body_Return)
    then obtain rest where c: "drop (off s) struct = to_be_bytes END @ rest" and e: "e = off s + 4"
      using read_token_sound [OF small_struct] by fastforce
    moreover obtain k where "drop e struct = nops k"
      using tr trailing_ok_iff by blast
    ultimately show ?thesis
      using drop_add_append [OF c] fin by (intro exI [of _ "[]"] exI [of _ k]) simp
  qed
qed

lemma loop_complete:
  assumes small_struct: "small struct"
  shows "drop (off s) struct = block_bytes tcs @ to_be_bytes END @ nops k \<Longrightarrow> block strs tcs \<Longrightarrow>
   token_run off step fin s tcs = ok r \<Longrightarrow> loop s = ok r"
proof (induction tcs arbitrary: s)
  case Nil
  then have "drop (off s) struct = to_be_bytes END @ nops k" "fin s = ok r"
    by auto
  moreover from this(1) have "read_token struct strs (off s) = ok (TFinish, off s + 4)"
    using read_token_complete [OF small_struct] by force
  moreover have "\<not> trailing_bad (drop (off s + 4) struct)"
    using drop_add_append [OF \<open>drop (off s) struct = to_be_bytes END @ nops k\<close>] trailing_ok_iff by auto
  ultimately have "body s = ok (Return r)"
    using body_Return by blast
  then show ?case
    by (subst loop_unfold) simp
next
  case (Cons tc tcs)
  obtain t c where tc: "tc = (t, c)"
    by fastforce
  with Cons.prems obtain s' where st: "step t (off s) (off s + length c) s = ok s'"
    and run: "token_run off step fin s' tcs = ok r"
    by (auto simp: rbind_ok_iff)
  have d: "drop (off s) struct = c @ block_bytes tcs @ to_be_bytes END @ nops k"
    using Cons.prems(1) tc by simp
  have "read_token struct strs (off s) = ok (t, off s + length c)"
    using read_token_complete [OF small_struct d] Cons.prems(2) tc by simp
  then have "body s = ok (Continue s')"
    using st Cons.prems(2) tc body_Continue by auto
  moreover have "loop s' = ok r"
    using Cons.IH [of s'] drop_add_append [OF d] step_off [OF st] Cons.prems(2) run tc by simp
  ultimately show ?case
    by (subst loop_unfold) simp
qed

end

text \<open>The three loops over tokens: planning, validation, and reading the tokens alone.\<close>

fun plan_step :: "bytes list \<Rightarrow> bytes option \<Rightarrow> token \<Rightarrow> nat \<Rightarrow> nat \<Rightarrow> nat \<times> EditPlanner
    \<Rightarrow> (nat \<times> EditPlanner) fdt" where
  "plan_step hidden rname (TBegin name) a e (i, pl) =
     rbind (begin_node pl a name hidden rname) (\<lambda>pl. ok (e, pl))"
| "plan_step hidden rname (TProp name v) a e (i, pl) =
     rbind (planner_record_property pl name v) (\<lambda>pl. ok (e, pl))"
| "plan_step hidden rname TEnd a e (i, pl) = rbind (end_node pl a e) (\<lambda>pl. ok (e, pl))"
| "plan_step hidden rname _ a e (i, pl) = ok (e, pl)"

fun validate_step :: "token \<Rightarrow> nat \<Rightarrow> nat \<Rightarrow> validation \<Rightarrow> validation fdt" where
  "validate_step (TBegin name) a e s = rbind (validate_begin s name) (\<lambda>s. ok (s\<lparr>v_offset := e\<rparr>))"
| "validate_step (TProp name v) a e s =
     (if v_depth s = 0 then err InvalidArgs
      else rbind (index (v_nodes s) (v_depth s - 1)) (\<lambda>n. if v_has_child n then err InvalidArgs
      else rbind (validate_property s name v) (\<lambda>s. ok (s\<lparr>v_offset := e\<rparr>))))"
| "validate_step TEnd a e s =
     (if v_depth s = 0 then err InvalidArgs
      else ok (s\<lparr>v_depth := v_depth s - 1, v_offset := e\<rparr>))"
| "validate_step _ a e s = ok (s\<lparr>v_offset := e\<rparr>)"

definition validate_fin :: "validation \<Rightarrow> unit fdt" where
  "validate_fin s = (if \<not> root_seen s \<or> v_depth s \<noteq> 0 then err InvalidArgs else ok ())"

definition lex_body :: "bytes \<Rightarrow> bytes \<Rightarrow> nat \<times> token list \<Rightarrow> (nat \<times> token list, token list) flow fdt" where
  "lex_body struct strs s = rbind (read_token struct strs (fst s)) (\<lambda>(t, e).
     if t = TFinish then if trailing_bad (drop e struct) then err InvalidArgs else ok (Return (snd s))
     else ok (Continue (e, snd s @ [t])))"

lemma read_token_offset: "read_token struct strs i = ok (t, j) \<Longrightarrow> i + 4 \<le> j \<and> j \<le> length struct"
  unfolding read_token_def
  by (fastforce simp: rbind_ok_iff dest!: reader_offsets split: if_splits)

lemma lex_body_Continue:
  "lex_body struct strs s = ok (Continue s') \<Longrightarrow> fst s + 4 \<le> fst s' \<and> fst s' \<le> length struct"
  unfolding lex_body_def
  by (auto simp: rbind_ok_iff dest!: read_token_offset split: if_splits)

function lex_loop :: "bytes \<Rightarrow> bytes \<Rightarrow> nat \<times> token list \<Rightarrow> token list fdt" where
  "lex_loop struct strs s = rbind (lex_body struct strs s) (\<lambda>f.
     case f of Continue s' \<Rightarrow> lex_loop struct strs s' | Return r \<Rightarrow> ok r)"
  by pat_completeness auto
termination
  by (relation "measure (\<lambda>(struct, strs, s). length struct - fst s)")
    (auto dest!: lex_body_Continue)

declare lex_loop.simps [simp del]

interpretation lex: token_loop struct strs fst "\<lambda>t a e s. ok (e, snd s @ [t])" "\<lambda>s. ok (snd s)"
  "lex_body struct strs" "lex_loop struct strs" for struct strs
proof
  show "lex_loop struct strs s = rbind (lex_body struct strs s)
      (\<lambda>f. case f of Continue s' \<Rightarrow> lex_loop struct strs s' | Return r \<Rightarrow> ok r)" for s
    by (rule lex_loop.simps)
qed (auto simp: lex_body_def rbind_ok_iff split: if_splits)

lemma rbind_if: "rbind (if b then m else m') f = (if b then rbind m f else rbind m' f)"
  by simp

lemma fdt_cases:
  obtains (Panic) "m = Panic" | (Err) e where "m = err e" | (Ok) x where "m = ok x"
  by (metis old.sum.exhaust outcome.exhaust)

lemma plan_body_token:
  "plan_body struct strs hidden rname s =
     (if \<not> fst s < length struct then err InvalidArgs
      else rbind (read_token struct strs (fst s)) (\<lambda>(t, e).
        if t = TFinish then
          rbind (slice struct e (length struct)) (\<lambda>trailing.
          if trailing_bad trailing then err InvalidArgs
          else rbind (planner_finish (snd s)) (\<lambda>edits. ok (Return edits)))
        else rbind (plan_step hidden rname t (fst s) e s) (\<lambda>s. ok (Continue s))))"
  by (cases s) (simp add: plan_body_def read_token_def rbind_assoc rbind_if case_prod_unfold cong: if_cong)

interpretation plan: token_loop struct strs fst "plan_step hidden rname" "\<lambda>s. planner_finish (snd s)"
  "plan_body struct strs hidden rname" "plan_loop struct strs hidden rname" for struct strs hidden rname
proof
  show "plan_loop struct strs hidden rname s = rbind (plan_body struct strs hidden rname s)
      (\<lambda>f. case f of Continue s' \<Rightarrow> plan_loop struct strs hidden rname s' | Return r \<Rightarrow> ok r)" for s
    by (rule plan_loop.simps)
  show "plan_body struct strs hidden rname s = ok (Continue s') \<longleftrightarrow>
    (\<exists>t e. read_token struct strs (fst s) = ok (t, e) \<and> t \<noteq> TFinish \<and> plan_step hidden rname t (fst s) e s = ok s')" for s s'
    unfolding plan_body_token
    by (fastforce simp: rbind_ok_iff dest: read_token_offset split: if_splits)
  show "plan_body struct strs hidden rname s = ok (Return r) \<longleftrightarrow>
    (\<exists>e. read_token struct strs (fst s) = ok (TFinish, e) \<and> \<not> trailing_bad (drop e struct) \<and> planner_finish (snd s) = ok r)" for s r
  proof (cases "read_token struct strs (fst s)" rule: fdt_cases)
    case (Ok x)
    then show ?thesis
      using read_token_offset [of struct strs "fst s" "fst x" "snd x"]
      by (auto simp: plan_body_token rbind_ok_iff split: if_splits prod.splits)
  qed (simp_all add: plan_body_token)
  show "plan_step hidden rname t a e s = ok s' \<Longrightarrow> fst s' = e" for t a e s s'
    by (cases t; cases s) (auto simp: rbind_ok_iff)
qed

interpretation validate: token_loop struct strs v_offset validate_step validate_fin
  "validate_body struct strs" "validate_loop struct strs" for struct strs
proof
  show "validate_loop struct strs s = rbind (validate_body struct strs s)
      (\<lambda>f. case f of Continue s' \<Rightarrow> validate_loop struct strs s' | Return r \<Rightarrow> ok r)" for s
    by (rule validate_loop.simps)
  show "validate_body struct strs s = ok (Continue s') \<longleftrightarrow>
    (\<exists>t e. read_token struct strs (v_offset s) = ok (t, e) \<and> t \<noteq> TFinish \<and> validate_step t (v_offset s) e s = ok s')"
    (is "?l \<longleftrightarrow> ?r") for s s'
  proof (cases "take_u32 struct (v_offset s)" rule: fdt_cases)
    case (Ok x)
    then obtain w i where w: "take_u32 struct (v_offset s) = ok (w, i)"
      by (cases x) auto
    then have lt: "v_offset s < length struct"
      using take_u32_offset by fastforce
    consider "w = BEGIN_NODE" | "w = PROPERTY" | "w \<noteq> BEGIN_NODE" "w \<noteq> PROPERTY"
      by blast
    then show ?thesis
    proof cases
      case 1
      with w lt show ?thesis
        by (auto simp: validate_body_def read_token_def rbind_ok_iff)
    next
      case 2
      show ?thesis
      proof (cases "v_depth s = 0 \<or> (\<exists>n. index (v_nodes s) (v_depth s - 1) = ok n \<and> v_has_child n)")
        case True
        with 2 w lt show ?thesis
          by (auto simp: validate_body_def read_token_def rbind_ok_iff)
      next
        case False
        with 2 w lt show ?thesis
          by (cases "index (v_nodes s) (v_depth s - 1)" rule: fdt_cases)
            (auto simp: validate_body_def read_token_def rbind_ok_iff)
      qed
    next
      case 3
      with w lt show ?thesis
        by (auto simp: validate_body_def read_token_def rbind_ok_iff)
    qed
  qed (simp_all add: validate_body_def read_token_def)
  show "validate_body struct strs s = ok (Return r) \<longleftrightarrow>
    (\<exists>e. read_token struct strs (v_offset s) = ok (TFinish, e) \<and> \<not> trailing_bad (drop e struct) \<and> validate_fin s = ok r)" for s r
  proof (cases "take_u32 struct (v_offset s)" rule: fdt_cases)
    case (Ok x)
    then obtain w i where w: "take_u32 struct (v_offset s) = ok (w, i)"
      by (cases x) auto
    then have "v_offset s < length struct" "i \<le> length struct"
      using take_u32_offset by fastforce+
    with w show ?thesis
      by (auto simp: validate_body_def read_token_def rbind_ok_iff validate_fin_def)
  qed (simp_all add: validate_body_def read_token_def)
  show "validate_step t a e s = ok s' \<Longrightarrow> v_offset s' = e" for t a e s s'
    by (cases t) (auto simp: rbind_ok_iff split: if_splits)
qed

lemma lex_ok_iff:
  assumes "small struct"
  shows "lex_loop struct strs (0, []) = ok ts \<longleftrightarrow>
    (\<exists>tcs k. struct = block_bytes tcs @ to_be_bytes END @ nops k \<and> block strs tcs \<and> ts = map fst tcs)"
proof -
  have run: "token_run fst (\<lambda>t a e s. ok (e, snd s @ [t])) (\<lambda>s. ok (snd s)) (i, acc) tcs = ok (acc @ map fst tcs)"
    for i acc and tcs :: "(token \<times> bytes) list"
    by (induction tcs arbitrary: i acc) auto
  show ?thesis
    using lex.loop_sound [OF assms, of strs "(0, [])" ts] lex.loop_complete [OF assms, of "(0, [])" _ _ strs ts]
    by (auto simp: run)
qed

lemma plan_ok_iff:
  assumes "small struct"
  shows "plan_edits struct strs hidden rname = ok ed \<longleftrightarrow>
    (\<exists>tcs k. struct = block_bytes tcs @ to_be_bytes END @ nops k \<and> block strs tcs
       \<and> token_run fst (plan_step hidden rname) (\<lambda>s. planner_finish (snd s)) (0, planner_new) tcs = ok ed)"
  using plan.loop_sound [OF assms, of strs hidden rname "(0, planner_new)" ed]
    plan.loop_complete [OF assms, of "(0, planner_new)" _ _ strs hidden rname ed]
  by (auto simp: plan_edits_def)

lemma validate_ok_iff:
  assumes "small struct"
  shows "validate_structure struct strs = ok () \<longleftrightarrow>
    (\<exists>tcs k. struct = block_bytes tcs @ to_be_bytes END @ nops k \<and> block strs tcs
       \<and> token_run v_offset validate_step validate_fin validate_init tcs = ok ())"
  using validate.loop_sound [OF assms, of strs validate_init "()"]
    validate.loop_complete [OF assms, of validate_init _ _ strs "()"]
  by (auto simp: validate_structure_def validate_init_def)

end
