(* ===== verification/Fdt_Safety.thy ===== *)
theory Fdt_Safety
  imports Fdt_Tokens
begin

text \<open>
  The loops that read a device tree end within a number of iterations linear in the block and never
  panic, whatever the bytes of the device tree. The two arguments are locales that the loops of
  the reservation map, of validation and of planning interpret: \<open>counted_loop\<close> for progress and
  \<open>safe_loop\<close> for an invariant that excludes the panics of one iteration.
\<close>

section \<open>Loops that make progress\<close>

text \<open>The state after \<open>n\<close> iterations that all continue, and the value an iteration leaves with.\<close>

fun iterate :: "('s \<Rightarrow> ('s, 'r) flow fdt) \<Rightarrow> nat \<Rightarrow> 's \<Rightarrow> 's option" where
  "iterate body 0 s = Some s"
| "iterate body (Suc n) s =
     (case body s of Ret (Inr (Continue s')) \<Rightarrow> iterate body n s' | _ \<Rightarrow> None)"

definition exits :: "('s, 'r) flow fdt \<Rightarrow> 'r result \<Rightarrow> bool" where
  "exits m r \<longleftrightarrow> (\<exists>e. m = err e \<and> r = Inl e) \<or> (\<exists>x. m = ok (Return x) \<and> r = Inr x)"

locale counted_loop =
  fixes body :: "'s \<Rightarrow> ('s, 'r) flow fdt"
    and loop :: "'s \<Rightarrow> 'r fdt"
    and todo :: "'s \<Rightarrow> nat"
    and consumed :: nat
  assumes unfold: "loop s = rbind (body s) (\<lambda>f. case f of Continue s' \<Rightarrow> loop s' | Return r \<Rightarrow> ok r)"
    and progress: "body s = ok (Continue s') \<Longrightarrow> todo s' + consumed \<le> todo s"
    and consumed_pos: "0 < consumed"
begin

lemma iterate_bound: "iterate body n s = Some s' \<Longrightarrow> consumed * n + todo s' \<le> todo s"
proof (induction n arbitrary: s)
  case (Suc n)
  then obtain s1 where "body s = ok (Continue s1)" "iterate body n s1 = Some s'"
    by (auto split: outcome.splits sum.splits flow.splits)
  with Suc.IH [of s1] progress show ?case
    by fastforce
qed simp

lemma loop_iterates:
  "\<exists>n s'. iterate body n s = Some s' \<and> loop s = loop s' \<and> (\<forall>s''. body s' \<noteq> ok (Continue s''))"
proof (induction "todo s" arbitrary: s rule: less_induct)
  case less
  show ?case
  proof (cases "\<exists>s1. body s = ok (Continue s1)")
    case True
    then obtain s1 where s1: "body s = ok (Continue s1)" ..
    have "todo s1 < todo s"
      using progress [OF s1] consumed_pos by linarith
    then obtain n s' where
      "iterate body n s1 = Some s'" "loop s1 = loop s'" "\<forall>s''. body s' \<noteq> ok (Continue s'')"
      using less by blast
    moreover have "loop s = loop s1"
      using unfold [of s] s1 by simp
    ultimately show ?thesis
      using s1 by (intro exI [of _ "Suc n"] exI [of _ s']) simp
  next
    case False
    then show ?thesis
      by (intro exI [of _ 0] exI [of _ s]) simp
  qed
qed

lemma loop_returns:
  assumes "loop s \<noteq> Panic"
  shows "\<exists>n s' r. consumed * n \<le> todo s \<and> iterate body n s = Some s' \<and> exits (body s') r \<and> loop s = Ret r"
proof -
  obtain n s' where n: "iterate body n s = Some s'" "loop s = loop s'" "\<forall>s''. body s' \<noteq> ok (Continue s'')"
    using loop_iterates by blast
  with assms have "loop s' \<noteq> Panic"
    by simp
  then obtain r where "exits (body s') r" "loop s' = Ret r"
    using n(3) unfold [of s'] by (cases "body s'" rule: fdt_cases) (auto simp: exits_def split: flow.splits)
  then show ?thesis
    using n iterate_bound [OF n(1)] by (metis add_leD1)
qed

end

locale safe_loop = counted_loop +
  fixes inv :: "'a \<Rightarrow> bool"
  assumes body_safe: "inv s \<Longrightarrow> body s \<noteq> Panic"
    and inv_step: "inv s \<Longrightarrow> body s = ok (Continue s') \<Longrightarrow> inv s'"
begin

lemma loop_safe: "inv s \<Longrightarrow> loop s \<noteq> Panic"
proof -
  obtain n s' where n: "iterate body n s = Some s'" "loop s = loop s'" "\<forall>s''. body s' \<noteq> ok (Continue s'')"
    using loop_iterates by blast
  assume "inv s"
  with n(1) have "inv s'"
    by (induction n arbitrary: s) (auto split: outcome.splits sum.splits flow.splits dest: inv_step)
  then show ?thesis
    using body_safe [of s'] n(2,3) unfold [of s']
    by (cases "body s'" rule: fdt_cases) (auto split: flow.splits)
qed

lemmas loop_total = loop_returns [OF loop_safe]

end

section \<open>The reservation map\<close>

lemma checked_slice_no_Panic [simp]: "checked_slice source a n tot \<noteq> Panic"
  by (auto simp: checked_slice_def rbind_Panic_iff)

interpretation reservation: safe_loop "reservation_body source tot" "reservation_loop source tot"
  "\<lambda>i. length source - i" 16 "\<lambda>_. True" for source tot
proof
  show "reservation_loop source tot s = rbind (reservation_body source tot s)
      (\<lambda>f. case f of Continue s' \<Rightarrow> reservation_loop source tot s' | Return r \<Rightarrow> ok r)" for s
    by (rule reservation_loop.simps)
  show "reservation_body source tot s = ok (Continue s') \<Longrightarrow> length source - s' + 16 \<le> length source - s"
    for s s'
    by (drule reservation_body_Continue) linarith
  show "reservation_body source tot s \<noteq> Panic" for s
    by (auto simp: reservation_body_def rbind_Panic_iff)
qed simp_all

section \<open>Validation\<close>

definition validation_inv :: "validation \<Rightarrow> bool" where
  "validation_inv s \<longleftrightarrow> length (v_nodes s) = MAX_FDT_DEPTH \<and> v_depth s \<le> MAX_FDT_DEPTH"

lemma index_ok_iff [simp]: "index xs i = ok x \<longleftrightarrow> i < length xs \<and> x = xs ! i"
  by (auto simp: index_def array_get_def)

lemma index_Panic_iff [simp]: "index xs i = Panic \<longleftrightarrow> \<not> i < length xs"
  by (auto simp: index_def array_get_def)

lemma index_set_ok_iff [simp]: "index_set xs i v = ok ys \<longleftrightarrow> i < length xs \<and> ys = xs[i := v]"
  by (auto simp: index_set_def array_set_def)

lemma index_set_Panic_iff [simp]: "index_set xs i v = Panic \<longleftrightarrow> \<not> i < length xs"
  by (auto simp: index_set_def array_set_def)

lemma single_cell_no_Panic [simp]: "single_cell v \<noteq> Panic"
  by (simp add: single_cell_def)

lemma validate_reg_length_no_Panic [simp]: "validate_reg_length v cells \<noteq> Panic"
  by (auto simp: validate_reg_length_def rbind_Panic_iff us_mul_def split: if_splits)

lemma validate_begin_safe: "validation_inv s \<Longrightarrow> validate_begin s name \<noteq> Panic"
  by (auto simp: validate_begin_def validation_inv_def rbind_Panic_iff rbind_ok_iff MAX_FDT_DEPTH_def split: if_splits)

lemma validate_begin_inv: "validation_inv s \<Longrightarrow> validate_begin s name = ok s' \<Longrightarrow> validation_inv s'"
  by (auto simp: validate_begin_def validation_inv_def rbind_ok_iff MAX_FDT_DEPTH_def split: if_splits)

lemma validate_property_safe:
  "validation_inv s \<Longrightarrow> v_depth s \<noteq> 0 \<Longrightarrow> validate_property s name v \<noteq> Panic"
  by (auto simp: validate_property_def validation_inv_def rbind_Panic_iff rbind_ok_iff MAX_FDT_DEPTH_def split: if_splits)

lemma validate_property_inv:
  "validation_inv s \<Longrightarrow> validate_property s name v = ok s' \<Longrightarrow> validation_inv s'"
  by (auto simp: validate_property_def validation_inv_def rbind_ok_iff)

lemma validate_body_safe: "validation_inv s \<Longrightarrow> validate_body struct strs s \<noteq> Panic"
proof -
  assume inv: "validation_inv s"
  have "v_depth s - 1 < length (v_nodes s)"
    using inv by (auto simp: validation_inv_def MAX_FDT_DEPTH_def)
  then show ?thesis
    using validate_begin_safe [OF inv] validate_property_safe [OF inv]
    by (auto simp: validate_body_def rbind_Panic_iff dest: reader_offsets split: if_splits)
qed

lemma validation_inv_offset [simp]: "validation_inv (s\<lparr>v_offset := i\<rparr>) = validation_inv s"
  by (simp add: validation_inv_def)

lemma validate_step_inv: "validation_inv s \<Longrightarrow> validate_step t a e s = ok s' \<Longrightarrow> validation_inv s'"
  by (cases t) (auto simp: rbind_ok_iff validation_inv_def [of "v_depth_update _ _"] split: if_splits
      dest: validate_begin_inv validate_property_inv, auto simp: validation_inv_def)

interpretation validate_safe: safe_loop "validate_body struct strs" "validate_loop struct strs"
  "\<lambda>s. length struct - v_offset s" 4 validation_inv for struct strs
proof
  show "validate_loop struct strs s = rbind (validate_body struct strs s)
      (\<lambda>f. case f of Continue s' \<Rightarrow> validate_loop struct strs s' | Return r \<Rightarrow> ok r)" for s
    by (rule validate_loop.simps)
  show "validate_body struct strs s = ok (Continue s') \<Longrightarrow>
    length struct - v_offset s' + 4 \<le> length struct - v_offset s" for s s'
    by (drule validate_body_Continue) linarith
  show "validation_inv s \<Longrightarrow> validate_body struct strs s \<noteq> Panic" for s
    by (rule validate_body_safe)
  show "validation_inv s \<Longrightarrow> validate_body struct strs s = ok (Continue s') \<Longrightarrow> validation_inv s'" for s s'
    unfolding validate.body_Continue by (auto intro: validate_step_inv)
qed simp

lemma validation_inv_init: "validation_inv validate_init"
  by (simp add: validation_inv_def validate_init_def)

section \<open>Planning\<close>

text \<open>
  The lengths to which the path is cut back are character boundaries of it, the innermost node
  has the longest.
\<close>

definition planner_inv :: "EditPlanner \<Rightarrow> bool" where
  "planner_inv pl \<longleftrightarrow> sorted_wrt (\<ge>) (length (path pl) # map previous_path_length (stack pl))
     \<and> (\<forall>n \<in> set (stack pl). is_char_boundary (path pl) (previous_path_length n))"

lemma utf8_valid_start: "utf8_valid (b # bs) \<Longrightarrow> \<not> is_cont b"
proof
  assume v: "utf8_valid (b # bs)" and "is_cont b"
  then have "\<not> b < 0x80" "\<not> 0xC2 \<le> b" "\<not> 0xE0 \<le> b" "\<not> 0xF0 \<le> b"
    by (auto simp: is_cont_def word_le_nat_alt word_less_nat_alt)
  with v show False
    by simp
qed

lemma boundary_append:
  assumes "is_char_boundary p n" "n \<le> length p" "utf8_valid name"
  shows "is_char_boundary (p @ name) n"
  using assms utf8_valid_start by (cases name) (auto simp: is_char_boundary_def nth_append)

lemma utf8_valid_ascii: "\<forall>b \<in> set bs. b < 0x80 \<Longrightarrow> utf8_valid bs"
  by (induction bs) auto

lemma utf8_slash: "utf8_valid name \<Longrightarrow> utf8_valid (str ''/'' @ name)"
  by (simp add: str_def)

lemma push_path_append:
  assumes "utf8_valid name"
  obtains x where "push_path root p name = p @ x" "utf8_valid x"
  using that [of "str ''/''"] that [of "str ''/'' @ name"] that [of name] assms utf8_slash [OF assms]
    utf8_slash [of "[]"] by (cases root; cases "1 < length p") (simp_all add: push_path_def)

lemma begin_node_inv:
  assumes "planner_inv pl" "begin_node pl a name hidden rname = ok pl'" "utf8_valid name"
  shows "planner_inv pl'"
proof -
  obtain x where x: "push_path (stack pl = []) (path pl) name = path pl @ x" "utf8_valid x"
    using push_path_append [OF assms(3)] by blast
  from assms(2) have p: "path pl' = path pl @ x" "\<exists>n. stack pl' = n # stack pl \<and> previous_path_length n = length (path pl)"
    using x by (auto simp: begin_node_def Let_def split: if_splits)
  have len: "is_char_boundary (path pl @ x) (length (path pl))"
    using boundary_append [OF _ _ x(2), of "path pl" "length (path pl)"] by (simp add: is_char_boundary_def)
  from assms(1) have b: "previous_path_length n \<le> length (path pl)" "is_char_boundary (path pl) (previous_path_length n)"
    if "n \<in> set (stack pl)" for n
    using that by (auto simp: planner_inv_def)
  then show ?thesis
    using p assms(1) len boundary_append [OF b(2) b(1) x(2)] by (fastforce simp: planner_inv_def)
qed

lemma planner_record_property_inv:
  "planner_inv pl \<Longrightarrow> planner_record_property pl name v = ok pl' \<Longrightarrow> planner_inv pl'"
  by (auto simp: planner_record_property_def planner_inv_def node_record_property_def rbind_ok_iff
      split: list.splits if_splits)

lemma planner_record_property_safe [simp]: "planner_record_property pl name v \<noteq> Panic"
  by (auto simp: planner_record_property_def node_record_property_def rbind_Panic_iff split: list.splits)

lemma begin_node_safe [simp]: "begin_node pl a name hidden rname \<noteq> Panic"
  by (simp add: begin_node_def Let_def)

lemma planner_finish_safe [simp]: "planner_finish pl \<noteq> Panic"
  by (auto simp: planner_finish_def rbind_Panic_iff)

lemma truncate_boundary:
  "is_char_boundary p n \<Longrightarrow> n \<le> length p \<Longrightarrow> path_truncate p n = ok (take n p)"
  by (simp add: path_truncate_def)

lemma planner_inv_top:
  assumes "planner_inv pl" "stack pl = n # ns"
  shows "path_truncate (path pl) (previous_path_length n) = ok (take (previous_path_length n) (path pl))"
  using assms by (intro truncate_boundary) (auto simp: planner_inv_def)

lemma end_node_safe: "planner_inv pl \<Longrightarrow> end_node pl a e \<noteq> Panic"
  by (auto simp: end_node_def Let_def planner_inv_top split: list.splits)

lemma boundary_take:
  "is_char_boundary p m \<Longrightarrow> m \<le> n \<Longrightarrow> n \<le> length p \<Longrightarrow> is_char_boundary (take n p) m"
  by (auto simp: is_char_boundary_def)

lemma end_node_inv:
  assumes inv: "planner_inv pl" and e: "end_node pl a e = ok pl'"
  shows "planner_inv pl'"
proof -
  from e obtain n ns where st: "stack pl = n # ns"
    by (auto simp: end_node_def split: list.splits)
  with e inv have "stack pl' = ns" "path pl' = take (previous_path_length n) (path pl)"
    by (auto simp: end_node_def Let_def planner_inv_top split: if_splits)
  then show ?thesis
    using inv st by (auto simp: planner_inv_def intro: boundary_take)
qed

lemma read_token_utf8: "read_token struct strs i = ok (TBegin name, j) \<Longrightarrow> utf8_valid name"
  by (auto simp: read_token_def take_c_string_def rbind_ok_iff split: if_splits)

interpretation plan_safe: safe_loop "plan_body struct strs hidden rname" "plan_loop struct strs hidden rname"
  "\<lambda>s. length struct - fst s" 4 "\<lambda>s. planner_inv (snd s)" for struct strs hidden rname
proof
  show "plan_loop struct strs hidden rname s = rbind (plan_body struct strs hidden rname s)
      (\<lambda>f. case f of Continue s' \<Rightarrow> plan_loop struct strs hidden rname s' | Return r \<Rightarrow> ok r)" for s
    by (rule plan_loop.simps)
  show "plan_body struct strs hidden rname s = ok (Continue s') \<Longrightarrow>
    length struct - fst s' + 4 \<le> length struct - fst s" for s s'
    by (drule plan_body_Continue) linarith
  show "plan_body struct strs hidden rname s \<noteq> Panic" if "planner_inv (snd s)" for s
  proof (cases s)
    case (Pair i pl)
    have "plan_step hidden rname t (fst s) e s \<noteq> Panic" for t e
      using that Pair by (cases t) (auto simp: rbind_Panic_iff end_node_safe)
    then show ?thesis
      by (auto simp: plan_body_token rbind_Panic_iff dest!: read_token_offset)
  qed
  show "planner_inv (snd s')" if "planner_inv (snd s)" "plan_body struct strs hidden rname s = ok (Continue s')" for s s'
  proof -
    from that(2) obtain t e where "read_token struct strs (fst s) = ok (t, e)"
      "plan_step hidden rname t (fst s) e s = ok s'"
      by (auto simp: plan.body_Continue)
    with that(1) show ?thesis
      by (cases t; cases s) (auto simp: rbind_ok_iff dest: read_token_utf8 begin_node_inv
          planner_record_property_inv end_node_inv)
  qed
qed simp

lemma planner_inv_new: "planner_inv planner_new"
  by (simp add: planner_inv_def planner_new_def)

text \<open>
  C20: reading a device tree takes a bounded number of steps: on every structure and string block,
  validation leaves its loop after at most one iteration per word, with the value it then returns,
  and never panics; so does planning, for every list of paths and reservation name, and the scan
  of the reservation map with one iteration per 16-byte entry.
\<close>

theorem device_tree_loops_terminate:
  "(\<exists>n s r. 4 * n \<le> length struct \<and> iterate (validate_body struct strs) n validate_init = Some s
      \<and> exits (validate_body struct strs s) r \<and> validate_structure struct strs = Ret r)
   \<and> (\<exists>n s r. 4 * n \<le> length struct
      \<and> iterate (plan_body struct strs hidden_node_paths reservation_name) n (0, planner_new) = Some s
      \<and> exits (plan_body struct strs hidden_node_paths reservation_name s) r
      \<and> plan_edits struct strs hidden_node_paths reservation_name = Ret r)
   \<and> (\<exists>n offset r. 16 * n \<le> length source - start
      \<and> iterate (reservation_body source total_length) n start = Some offset
      \<and> exits (reservation_body source total_length offset) r
      \<and> reservation_loop source total_length start = Ret r)"
  using validate_safe.loop_total [OF validation_inv_init, of struct strs]
    plan_safe.loop_total [of "(0, planner_new)" struct strs hidden_node_paths reservation_name]
    reservation.loop_total [OF TrueI, of source start total_length]
  by (intro conjI) (simp_all add: validate_structure_def plan_edits_def planner_inv_new, simp add: validate_init_def)

end
