(* ===== verification/Fdt_Layout.thy ===== *)
theory Fdt_Layout
  imports Fdt_Safety
begin

text \<open>
  The header parser against the header writer: what a parsed layout says of the bytes, what
  \<open>rebuild\<close> emits, and the round trip between them. \<open>rebuild\<close> never panics on a parsed layout, its
  debug assertion included.
\<close>

section \<open>The header parser\<close>

lemma layout_parse_total_size:
  "layout_parse source = ok l \<Longrightarrow> l_source l = source \<and> HEADER_SIZE \<le> total_size l \<and> total_size l \<le> length source"
  by (auto simp: layout_parse_def rbind_ok_iff split: if_splits)

lemma read_usize_no_Panic [simp]: "read_usize bs i \<noteq> Panic"
  by (auto simp: read_usize_def rbind_Panic_iff)

lemma reservation_loop_end:
  "reservation_loop source tot i = ok r \<Longrightarrow> i \<le> r \<and> r \<le> length source"
proof (induction source tot i rule: reservation_loop.induct)
  case (1 source tot i)
  from "1.prems" obtain f where f: "reservation_body source tot i = ok f"
    and r: "(case f of Continue i' \<Rightarrow> reservation_loop source tot i' | Return r \<Rightarrow> ok r) = ok r"
    by (subst (asm) reservation_loop.simps) (auto simp: rbind_ok_iff)
  show ?case
  proof (cases f)
    case (Continue i')
    with "1.IH" [OF f Continue] r reservation_body_Continue [of source tot i i'] f show ?thesis
      by simp
  next
    case (Return r')
    with f r show ?thesis
      by (auto simp: reservation_body_def checked_slice_def rbind_ok_iff get_range_def split: if_splits)
  qed
qed

lemma reservation_map_end_no_Panic [simp]: "reservation_map_end source i tot \<noteq> Panic"
  using reservation.loop_safe [OF TrueI] by (simp add: reservation_map_end_def)

lemma layout_parse_no_Panic [simp]: "layout_parse source \<noteq> Panic"
proof -
  have "slice source i r \<noteq> Panic" if "reservation_map_end source i tot = ok r" for i r tot
    using that reservation_loop_end [of source tot i r]
    by (auto simp: reservation_map_end_def slice_def get_range_def split: if_splits)
  then show ?thesis
    by (auto simp: layout_parse_def rbind_Panic_iff)
qed

lemma nop_nodes_no_Panic [simp]: "nop_nodes struct spans \<noteq> Panic"
  by (induction struct spans rule: nop_nodes.induct) (auto simp: rbind_Panic_iff)

lemma length_nop_words [simp]: "length (nop_words bs) = length bs"
  by (induction bs rule: nop_words.induct) auto

lemma nop_nodes_length: "nop_nodes struct spans = ok struct' \<Longrightarrow> length struct' = length struct"
proof (induction struct spans rule: nop_nodes.induct)
  case (2 struct a b spans)
  then obtain w where w: "get_range struct a b = Some w"
    and n: "nop_nodes (take a struct @ nop_words w @ drop b struct) spans = ok struct'"
    by (auto simp: rbind_ok_iff)
  with "2.IH" have "length struct' = length (take a struct @ nop_words w @ drop b struct)"
    by simp
  with w show ?case
    by (auto simp: get_range_def split: if_splits)
qed simp

lemma copy_into_safe: "b = a + length src \<Longrightarrow> copy_into out a b src \<noteq> Panic"
  by (auto simp: copy_into_def rbind_Panic_iff get_range_def split: if_splits)

lemma u32_of_len_no_Panic [simp]: "u32_of_len n \<noteq> Panic"
  by (simp add: u32_of_len_def)

lemma write_header_field_no_Panic [simp]: "write_header_field out i v \<noteq> Panic"
  by (auto simp: write_header_field_def rbind_Panic_iff copy_into_safe)

lemma next_multiple_4:
  assumes "n + 3 < 2 ^ 64"
  shows "next_multiple_of n 4 = ok (n + padding n)"
proof -
  have m: "(if n mod 4 = 0 then n else n + (4 - n mod 4)) = n + padding n"
  proof (cases "n mod 4 = 0")
    case True
    then show ?thesis
      by (simp add: padding_aligned mod_eq_0_iff_dvd)
  next
    case False
    have "n = 4 * q + r \<Longrightarrow> r < 4 \<Longrightarrow> n + (4 - r) = 4 * (q + 1)" for q r
      by arith
    from this [of "n div 4" "n mod 4"] have "n + (4 - n mod 4) = 4 * (n div 4 + 1)"
      using mult_div_mod_eq [of 4 n] mod_less_divisor [of 4 n] by (metis zero_less_numeral)
    then have "4 dvd n + (4 - n mod 4)"
      by simp
    then have "padding n = 4 - n mod 4"
      using False by (intro padding_unique) simp_all
    then show ?thesis
      using False by (simp only: if_False)
  qed
  moreover have "n + padding n < 2 ^ 64"
    using assms padding_less [of n] by linarith
  ultimately show ?thesis
    by (simp only: next_multiple_of_def Let_def if_True)
qed

lemma pad_to_4: "length out + 3 < 2 ^ 64 \<Longrightarrow> pad_to out 4 = ok (out @ replicate (padding (length out)) 0)"
  by (simp add: pad_to_def next_multiple_4)

lemma align_up_8_header: "align_up HEADER_SIZE 8 = ok 40"
proof -
  have "(40::nat) + (2 ^ 3 - 1) < 2 ^ 64" "(8::nat) = 2 ^ 3" "(3::nat) < 64"
    by simp_all
  from align_up_power [OF this] show ?thesis
    by (simp add: HEADER_SIZE_def)
qed

lemma pad_to_8_header: "length out = HEADER_SIZE \<Longrightarrow> pad_to out 8 = ok out"
  by (simp add: pad_to_def next_multiple_of_def HEADER_SIZE_def)

lemma align_up_ok_4: "align_up v 4 = ok x \<longleftrightarrow> v + 3 < 2 ^ 64 \<and> x = v + padding v"
proof -
  have "align_up v 4 \<noteq> ok x" if "\<not> v + 3 < 2 ^ 64"
    using that by (auto simp: align_up_def rbind_ok_iff)
  then show ?thesis
    using align_up_4 [of v] padding_add [of v] by (metis outcome.inject sum.inject(2))
qed

text \<open>The rebuilt tree before its header is written.\<close>

definition rebuilt :: "Layout \<Rightarrow> bytes \<Rightarrow> bytes \<Rightarrow> bytes" where
  "rebuilt layout struct strs =
     (let body = reservations layout @ replicate (padding (length (reservations layout))) 0 @ struct @ strs
      in take HEADER_SIZE (l_source layout) @ body @ replicate (padding (40 + length body)) 0)"

lemma padding_40 [simp]: "padding (40 + n) = padding n"
  by (rule padding_skip) simp

lemma rebuild_eq:
  assumes "HEADER_SIZE \<le> length (l_source layout)"
    and "40 + length (reservations layout) + 3 + length struct + length strs + 3 < 2 ^ 64"
  defines "structure_off \<equiv> 40 + length (reservations layout) + padding (length (reservations layout))"
  shows "rebuild layout struct strs =
    rbind (write_header_field (rebuilt layout struct strs) TOTAL_SIZE_OFFSET (length (rebuilt layout struct strs))) (\<lambda>out.
    rbind (write_header_field out STRUCTURE_OFFSET_OFFSET structure_off) (\<lambda>out.
    rbind (write_header_field out STRINGS_OFFSET_OFFSET (structure_off + length struct)) (\<lambda>out.
    rbind (write_header_field out RESERVATIONS_OFFSET_OFFSET 40) (\<lambda>out.
    rbind (write_header_field out STRINGS_SIZE_OFFSET (length strs)) (\<lambda>out.
    write_header_field out STRUCTURE_SIZE_OFFSET (length struct))))))"
proof -
  let ?r = "length (reservations layout)"
  let ?h = "take HEADER_SIZE (l_source layout)"
  have h: "length ?h = HEADER_SIZE"
    using assms(1) by simp
  have p: "padding ?r < 4"
    by (rule padding_less)
  have a1: "align_up (40 + ?r) 4 = ok structure_off"
    using assms(2) by (simp add: align_up_ok_4 structure_off_def)
  have a2: "align_up (structure_off + length struct + length strs) 4
      = ok (structure_off + length struct + length strs + padding (structure_off + length struct + length strs))"
    using assms(2) p by (simp add: align_up_ok_4 structure_off_def)
  have b1: "pad_to (?h @ reservations layout) 4 = ok (?h @ reservations layout @ replicate (padding ?r) 0)"
    using assms(2) h by (subst pad_to_4) (auto simp: HEADER_SIZE_def)
  let ?o = "?h @ reservations layout @ replicate (padding ?r) 0"
  have lo: "length (?o @ struct @ strs) = structure_off + length struct + length strs"
    using h by (simp add: structure_off_def HEADER_SIZE_def)
  have b2: "pad_to (?o @ struct @ strs) 4 = ok (rebuilt layout struct strs)"
    using assms(2) p lo h
    by (subst pad_to_4) (auto simp: structure_off_def rebuilt_def Let_def HEADER_SIZE_def)
  have l: "length (rebuilt layout struct strs) = structure_off + length struct + length strs
      + padding (structure_off + length struct + length strs)"
    using h by (simp add: rebuilt_def Let_def structure_off_def HEADER_SIZE_def add.assoc)
  have "structure_off + length struct + length strs < 2 ^ 64"
    using assms(2) p by (simp add: structure_off_def)
  then show ?thesis
    using assms(1,2) p h
    by (simp add: rebuild_def align_up_8_header us_add_def a1 a2 pad_to_8_header b1 b2 [simplified]
        flip: l)
qed

section \<open>The reservation map\<close>

text \<open>Entries of 16 bytes up to the first that is zero.\<close>

function res_map :: "bytes \<Rightarrow> bool" where
  "res_map bs =
     (if length bs < 16 then False
      else if list_all (\<lambda>b. b = 0) (take 16 bs) then length bs = 16 else res_map (drop 16 bs))"
  by pat_completeness auto
termination
  by (relation "measure length") auto

declare res_map.simps [simp del]

lemma reservation_loop_unfold:
  assumes "small source"
  shows "reservation_loop source tot i = ok r \<longleftrightarrow> i + 16 \<le> tot \<and> i + 16 \<le> length source \<and>
    (if list_all (\<lambda>b. b = 0) (take 16 (drop i source)) then r = i + 16
     else reservation_loop source tot (i + 16) = ok r)"
  using assms
  by (subst reservation_loop.simps) (auto simp: reservation_body_def checked_slice_def rbind_ok_iff get_range_def
      RESERVATION_ENTRY_SIZE_def split: if_splits)

lemma reservation_loop_iff:
  assumes "small source"
  shows "reservation_loop source tot i = ok r \<longleftrightarrow>
    i \<le> r \<and> r \<le> tot \<and> r \<le> length source \<and> res_map (take (r - i) (drop i source))"
proof (induction "length source - i" arbitrary: i rule: less_induct)
  case less
  show ?case
  proof (cases "i + 16 \<le> tot \<and> i + 16 \<le> length source")
    case True
    let ?X = "take (r - i) (drop i source)"
    have IH: "reservation_loop source tot (i + 16) = ok r \<longleftrightarrow> i + 16 \<le> r \<and> r \<le> tot
        \<and> r \<le> length source \<and> res_map (take (r - (i + 16)) (drop (i + 16) source))"
      using True by (intro less) linarith
    have "take 16 ?X = take 16 (drop i source)" "length ?X = r - i"
      "drop 16 ?X = take (r - (i + 16)) (drop (i + 16) source)" if "i + 16 \<le> r" "r \<le> length source"
      using that by (simp_all add: drop_take add.commute)
    then show ?thesis
      by (subst reservation_loop_unfold [OF assms], subst IH, subst (2) res_map.simps) (use True in auto)
  next
    case False
    then show ?thesis
      by (subst reservation_loop_unfold [OF assms], subst res_map.simps) auto
  qed
qed

section \<open>Parsed layouts\<close>

lemmas header_offsets = HEADER_SIZE_def MAGIC_OFFSET_def TOTAL_SIZE_OFFSET_def STRUCTURE_OFFSET_OFFSET_def
  STRINGS_OFFSET_OFFSET_def RESERVATIONS_OFFSET_OFFSET_def VERSION_OFFSET_def
  LAST_COMPATIBLE_VERSION_OFFSET_def STRINGS_SIZE_OFFSET_def STRUCTURE_SIZE_OFFSET_def SUPPORTED_VERSION_def

text \<open>The header fields of a tree that parses, and the blocks they select.\<close>

lemma layout_parse_ok_iff:
  assumes "small source"
  shows "layout_parse source = ok l \<longleftrightarrow> (\<exists>tot last_compatible so sto ro ss sts re.
    read_u32 source 0 = ok MAGIC \<and> read_u32 source 20 = ok 17 \<and> read_u32 source 24 = ok last_compatible
    \<and> last_compatible \<le> 17 \<and> read_usize source 4 = ok tot \<and> tot \<le> length source
    \<and> read_usize source 8 = ok so \<and> read_usize source 12 = ok sto \<and> read_usize source 16 = ok ro
    \<and> read_usize source 36 = ok ss \<and> read_usize source 32 = ok sts
    \<and> 4 dvd so \<and> 4 dvd sto \<and> 8 dvd ro \<and> 40 \<le> ro \<and> re \<le> so \<and> so + ss \<le> sto \<and> sto + sts \<le> tot
    \<and> ro \<le> re \<and> res_map (take (re - ro) (drop ro source))
    \<and> l = \<lparr>l_source = source, total_size = tot, reservations = take (re - ro) (drop ro source),
           structure_offset = so, structure_block = take ss (drop so source),
           strings_block = take sts (drop sto source)\<rparr>)" (is "?l \<longleftrightarrow> ?r")
proof
  assume ?l
  then obtain tot lc so sto ro ss sts re struct strs res where f:
    "read_u32 source 0 = ok MAGIC" "read_u32 source 20 = ok 17" "read_u32 source 24 = ok lc" "\<not> 17 < lc"
    "read_usize source 4 = ok tot" "tot \<le> length source" "read_usize source 8 = ok so"
    "read_usize source 12 = ok sto" "read_usize source 16 = ok ro" "read_usize source 36 = ok ss"
    "read_usize source 32 = ok sts" "4 dvd so" "4 dvd sto" "8 dvd ro"
    and c: "checked_slice source so ss tot = ok struct" "checked_slice source sto sts tot = ok strs"
    "reservation_map_end source ro tot = ok re" "slice source ro re = ok res"
    and b: "re \<le> so" "so + ss \<le> sto" "sto + sts \<le> tot" "40 \<le> ro"
    and l: "l = \<lparr>l_source = source, total_size = tot, reservations = res, structure_offset = so,
      structure_block = struct, strings_block = strs\<rparr>"
    unfolding layout_parse_def header_offsets
    by (auto simp: rbind_ok_iff split: if_splits)
  have "struct = take ss (drop so source)" "strs = take sts (drop sto source)"
    "res = take (re - ro) (drop ro source)" "ro \<le> re"
    using c by (auto simp: checked_slice_def rbind_ok_iff get_range_def slice_def split: if_splits)
  moreover have "res_map (take (re - ro) (drop ro source))"
    using c(3) by (auto simp: reservation_map_end_def reservation_loop_iff [OF assms] split: if_splits)
  ultimately show ?r
    using f b l by (auto simp: not_less)
next
  assume ?r
  then obtain tot lc so sto ro ss sts re where f:
    "read_u32 source 0 = ok MAGIC" "read_u32 source 20 = ok 17" "read_u32 source 24 = ok lc" "lc \<le> 17"
    "read_usize source 4 = ok tot" "tot \<le> length source" "read_usize source 8 = ok so"
    "read_usize source 12 = ok sto" "read_usize source 16 = ok ro" "read_usize source 36 = ok ss"
    "read_usize source 32 = ok sts" "4 dvd so" "4 dvd sto" "8 dvd ro"
    and b: "re \<le> so" "so + ss \<le> sto" "sto + sts \<le> tot" "40 \<le> ro" "ro \<le> re"
      "res_map (take (re - ro) (drop ro source))"
    and l: "l = \<lparr>l_source = source, total_size = tot, reservations = take (re - ro) (drop ro source),
      structure_offset = so, structure_block = take ss (drop so source), strings_block = take sts (drop sto source)\<rparr>"
    by blast
  have le: "40 \<le> tot" "so + ss < 2 ^ 64" "sto + sts < 2 ^ 64" "so + ss \<le> length source"
    "sto + sts \<le> length source" "re \<le> length source" "re \<le> tot" "40 \<le> length source" "so + ss \<le> tot"
    using b f(6) assms by auto
  have "reservation_map_end source ro tot = ok re"
    using b f(14) le by (simp add: reservation_map_end_def HEADER_SIZE_def reservation_loop_iff [OF assms])
  then show ?l
    using f b(1-5) le l
    by (simp add: layout_parse_def header_offsets checked_slice_def us_add_def get_range_def slice_def)
qed

section \<open>Header words\<close>

definition word_at :: "bytes \<Rightarrow> nat \<Rightarrow> bytes" where
  "word_at bs i = take 4 (drop i bs)"

definition put_u32 :: "bytes \<Rightarrow> nat \<Rightarrow> u32 \<Rightarrow> bytes" where
  "put_u32 out i w = take i out @ to_be_bytes w @ drop (i + 4) out"

lemma word_at_append: "i + 4 \<le> length xs \<Longrightarrow> word_at (xs @ ys) i = word_at xs i"
  by (simp add: word_at_def)

lemma word_at_take: "i + 4 \<le> n \<Longrightarrow> word_at (take n xs) i = word_at xs i"
proof -
  assume "i + 4 \<le> n"
  then have "min 4 (n - i) = 4"
    by simp
  then show ?thesis
    by (simp add: word_at_def drop_take)
qed

lemma read_u32_word: "small bs \<Longrightarrow> read_u32 bs i = ok v \<longleftrightarrow> word_at bs i = to_be_bytes v"
  unfolding read_u32_ok_iff word_at_def
  by (metis append_eq_conv_conj append_take_drop_id length_to_be_bytes)

lemma read_usize_word:
  "small bs \<Longrightarrow> read_usize bs i = ok n \<longleftrightarrow> n < 2 ^ 32 \<and> word_at bs i = to_be_bytes (word_of_nat n)"
proof -
  assume "small bs"
  then have "read_usize bs i = ok n \<longleftrightarrow> (\<exists>v. word_at bs i = to_be_bytes v \<and> n = unat v)"
    by (auto simp: read_usize_def rbind_ok_iff read_u32_word)
  also have "\<dots> \<longleftrightarrow> n < 2 ^ 32 \<and> word_at bs i = to_be_bytes (word_of_nat n)"
  proof
    assume "\<exists>v. word_at bs i = to_be_bytes v \<and> n = unat v"
    then show "n < 2 ^ 32 \<and> word_at bs i = to_be_bytes (word_of_nat n)"
      using unat_bound [where 'a = 32] by fastforce
  next
    assume n: "n < 2 ^ 32 \<and> word_at bs i = to_be_bytes (word_of_nat n)"
    then have "unat (word_of_nat n :: u32) = n"
      by (simp add: unat_of_nat)
    with n show "\<exists>v. word_at bs i = to_be_bytes v \<and> n = unat v"
      by metis
  qed
  finally show ?thesis .
qed

lemma write_header_field_eq:
  "i + 4 \<le> length out \<Longrightarrow> i + 4 < 2 ^ 64 \<Longrightarrow> write_header_field out i v =
     (if v < 2 ^ 32 then ok (put_u32 out i (word_of_nat v)) else err Overflow)"
  by (auto simp: write_header_field_def u32_of_len_def us_add_def copy_into_def get_range_def put_u32_def)

lemma length_put_u32 [simp]: "i + 4 \<le> length out \<Longrightarrow> length (put_u32 out i w) = length out"
  by (simp add: put_u32_def)

lemma word_put_same: "i + 4 \<le> length out \<Longrightarrow> word_at (put_u32 out i w) i = to_be_bytes w"
  by (simp add: word_at_def put_u32_def)

lemma word_put_other:
  "i + 4 \<le> length out \<Longrightarrow> j + 4 \<le> i \<or> i + 4 \<le> j \<Longrightarrow> word_at (put_u32 out i w) j = word_at out j"
  by (elim disjE) (simp_all add: put_u32_def word_at_append word_at_take, simp add: word_at_def)

lemma drop_put_u32: "i + 4 \<le> n \<Longrightarrow> n \<le> length out \<Longrightarrow> drop n (put_u32 out i w) = drop n out"
  by (simp add: put_u32_def)

lemmas put_u32_simps = word_put_same word_put_other drop_put_u32

text \<open>The words of the header and the blocks of a rebuilt tree.\<close>

lemma rebuild_ok:
  assumes "layout_parse source = ok l" "small source"
    and fits: "length (rebuilt l struct strs) < 2 ^ 32"
  obtains out where "rebuild l struct strs = ok out" "length out = length (rebuilt l struct strs)"
    "drop 40 out = drop 40 (rebuilt l struct strs)"
    "word_at out 0 = word_at source 0" "word_at out 20 = word_at source 20" "word_at out 24 = word_at source 24"
    "word_at out 4 = to_be_bytes (word_of_nat (length out))"
    "word_at out 8 = to_be_bytes (word_of_nat (40 + length (reservations l) + padding (length (reservations l))))"
    "word_at out 12 = to_be_bytes (word_of_nat (40 + length (reservations l) + padding (length (reservations l)) + length struct))"
    "word_at out 16 = to_be_bytes 40"
    "word_at out 32 = to_be_bytes (word_of_nat (length strs))"
    "word_at out 36 = to_be_bytes (word_of_nat (length struct))"
proof -
  let ?r = "rebuilt l struct strs"
  let ?so = "40 + length (reservations l) + padding (length (reservations l))"
  have src: "l_source l = source" "40 \<le> length source"
    using layout_parse_total_size [OF assms(1)] by (auto simp: HEADER_SIZE_def)
  have len: "length ?r \<ge> ?so + length struct + length strs"
    using src by (simp add: rebuilt_def Let_def HEADER_SIZE_def)
  have w: "word_at ?r i = word_at source i" if "i + 4 \<le> 40" for i
    using that src by (simp add: rebuilt_def Let_def HEADER_SIZE_def word_at_append word_at_take)
  let ?out = "put_u32 (put_u32 (put_u32 (put_u32 (put_u32 (put_u32 ?r 4 (word_of_nat (length ?r)))
     8 (word_of_nat ?so)) 12 (word_of_nat (?so + length struct))) 16 40) 32 (word_of_nat (length strs)))
     36 (word_of_nat (length struct))"
  have "rebuild l struct strs = ok ?out"
    using src len fits
    by (subst rebuild_eq) (simp_all add: HEADER_SIZE_def write_header_field_eq TOTAL_SIZE_OFFSET_def
        STRUCTURE_OFFSET_OFFSET_def STRINGS_OFFSET_OFFSET_def RESERVATIONS_OFFSET_OFFSET_def
        STRINGS_SIZE_OFFSET_def STRUCTURE_SIZE_OFFSET_def)
  then show thesis
    by (rule that) (use len w in \<open>simp_all add: put_u32_simps\<close>)
qed

lemma res_map_length: "res_map bs \<Longrightarrow> 16 dvd length bs \<and> 16 \<le> length bs"
proof (induction bs rule: res_map.induct)
  case (1 bs)
  from iffD1 [OF res_map.simps "1.prems"] have r: "16 \<le> length bs"
    "if list_all (\<lambda>b. b = 0) (take 16 bs) then length bs = 16 else res_map (drop 16 bs)"
    by (meson linorder_not_less)+
  have "16 dvd length bs - 16"
  proof (cases "list_all (\<lambda>b. b = 0) (take 16 bs)")
    case False
    with r "1.IH" [OF _ False] show ?thesis
      by simp
  next
    case True
    then have "length bs = 16"
      using r(2) by argo
    then show ?thesis
      by simp
  qed
  with r(1) show ?case
    by presburger
qed

lemma parsed_reservations:
  assumes "layout_parse source = ok l" "small source"
  shows "res_map (reservations l)" "4 dvd length (reservations l)" "length (reservations l) < 2 ^ 32"
proof -
  show rm: "res_map (reservations l)" and "length (reservations l) < 2 ^ 32"
    using assms by (auto simp: layout_parse_ok_iff read_usize_word)
  show "4 dvd length (reservations l)"
    using res_map_length [OF rm] by presburger
qed

lemma rebuilt_body:
  assumes "layout_parse source = ok l" "small source" "4 dvd length struct"
  shows "drop 40 (rebuilt l struct strs) = reservations l @ struct @ strs @ replicate (padding (length strs)) 0"
    and "length (rebuilt l struct strs)
      = 40 + length (reservations l) + length struct + length strs + padding (length strs)"
proof -
  let ?n = "length (reservations l)"
  have src: "l_source l = source" "40 \<le> length source"
    using layout_parse_total_size [OF assms(1)] by (auto simp: HEADER_SIZE_def)
  have p0: "padding ?n = 0"
    using parsed_reservations(2) [OF assms(1,2)] by (rule padding_aligned)
  have "padding (?n + length struct + length strs) = padding (length strs)"
    using parsed_reservations(2) [OF assms(1,2)] assms(3) by (simp add: padding_skip)
  then show "drop 40 (rebuilt l struct strs) = reservations l @ struct @ strs @ replicate (padding (length strs)) 0"
    and "length (rebuilt l struct strs) = 40 + ?n + length struct + length strs + padding (length strs)"
    using src p0 by (simp_all add: rebuilt_def Let_def HEADER_SIZE_def add.assoc)
qed

lemma rebuild_parse_ok:
  assumes parse: "layout_parse source = ok l" and src: "small source" and w: "4 dvd length struct"
    and fits: "length (rebuilt l struct strs) < 2 ^ 32"
  shows "\<exists>out. rebuild l struct strs = ok out \<and> length out = length (rebuilt l struct strs)
    \<and> layout_parse out = ok \<lparr>l_source = out,
      total_size = length (rebuilt l struct strs), reservations = reservations l,
      structure_offset = 40 + length (reservations l), structure_block = struct, strings_block = strs\<rparr>"
proof -
  let ?n = "length (reservations l)"
  note res = parsed_reservations [OF parse src]
  note body = rebuilt_body [OF parse src w, of strs]
  obtain out where out: "rebuild l struct strs = ok out" "length out = length (rebuilt l struct strs)"
    "drop 40 out = reservations l @ struct @ strs @ replicate (padding (length strs)) 0"
    "word_at out 0 = word_at source 0" "word_at out 20 = word_at source 20" "word_at out 24 = word_at source 24"
    "word_at out 4 = to_be_bytes (word_of_nat (length out))"
    "word_at out 8 = to_be_bytes (word_of_nat (40 + ?n))"
    "word_at out 12 = to_be_bytes (word_of_nat (40 + ?n + length struct))"
    "word_at out 16 = to_be_bytes (word_of_nat 40)"
    "word_at out 32 = to_be_bytes (word_of_nat (length strs))"
    "word_at out 36 = to_be_bytes (word_of_nat (length struct))"
    using rebuild_ok [OF parse src fits] body(1) padding_aligned [OF res(2)] by (auto simp del: of_nat_add)
  have small_out: "small out"
    using fits out(2) by simp
  have d: "drop (40 + ?n) out = struct @ strs @ replicate (padding (length strs)) 0"
    "drop (40 + ?n + length struct) out = strs @ replicate (padding (length strs)) 0"
    using out(3) drop_add_append [of 40 out "reservations l"] drop_add_append [of "40 + ?n" out struct] by auto
  obtain lc where "read_u32 source 0 = ok MAGIC" "read_u32 source 20 = ok 17" "read_u32 source 24 = ok lc" "lc \<le> 17"
    using parse src by (auto simp: layout_parse_ok_iff)
  then have hdr: "read_u32 out 0 = ok MAGIC" "read_u32 out 20 = ok 17" "read_u32 out 24 = ok lc" "lc \<le> 17"
    using src small_out out(4-6) by (simp_all add: read_u32_word)
  have fields: "read_usize out 4 = ok (length out)" "read_usize out 8 = ok (40 + ?n)"
    "read_usize out 12 = ok (40 + ?n + length struct)" "read_usize out 16 = ok 40"
    "read_usize out 36 = ok (length struct)" "read_usize out 32 = ok (length strs)"
    using fits out body(2) small_out by (simp_all only: read_usize_word) auto
  have al: "4 dvd 40 + ?n" "4 dvd 40 + ?n + length struct" "8 dvd (40 :: nat)"
    using res(2) w by (simp_all add: dvd_add)
  have rm: "res_map (take (40 + ?n - 40) (drop 40 out))"
    using out(3) res(1) by simp
  have le: "40 + ?n + length struct + length strs \<le> length out"
    using body(2) out(2) by simp
  have "layout_parse out = ok \<lparr>l_source = out, total_size = length out,
      reservations = take (40 + ?n - 40) (drop 40 out), structure_offset = 40 + ?n,
      structure_block = take (length struct) (drop (40 + ?n) out),
      strings_block = take (length strs) (drop (40 + ?n + length struct) out)\<rparr>"
    unfolding layout_parse_ok_iff [OF small_out]
    by (intro exI [of _ "length out"] exI [of _ lc] exI [of _ "40 + ?n"] exI [of _ "40 + ?n + length struct"]
        exI [of _ 40] exI [of _ "length struct"] exI [of _ "length strs"] exI [of _ "40 + ?n"] conjI
        hdr fields al rm le refl le_refl le_add1)
  then show ?thesis
    using out(1,2,3) d by simp
qed

lemma rebuild_err:
  assumes "layout_parse source = ok l" "small source" "length struct < 2 ^ 62" "length strs < 2 ^ 62"
    and "\<not> length (rebuilt l struct strs) < 2 ^ 32"
  shows "rebuild l struct strs = err Overflow"
  using assms(3-5) parsed_reservations(3) [OF assms(1,2)] layout_parse_total_size [OF assms(1)]
  by (subst rebuild_eq) (auto simp: write_header_field_eq TOTAL_SIZE_OFFSET_def)

lemma rebuild_ok_parse:
  assumes "layout_parse source = ok l" "small source" "4 dvd length struct"
    "length struct < 2 ^ 62" "length strs < 2 ^ 62" "rebuild l struct strs = ok out"
  obtains l' where "layout_parse out = ok l'" "reservations l' = reservations l"
    "structure_block l' = struct" "strings_block l' = strs" "small out"
proof -
  have fits: "length (rebuilt l struct strs) < 2 ^ 32"
    using rebuild_err [OF assms(1,2,4,5)] assms(6) by fastforce
  from rebuild_parse_ok [OF assms(1-3) this] assms(6) have "length out = length (rebuilt l struct strs)"
    "layout_parse out = ok \<lparr>l_source = out, total_size = length (rebuilt l struct strs), reservations = reservations l,
      structure_offset = 40 + length (reservations l), structure_block = struct, strings_block = strs\<rparr>"
    by auto
  then show thesis
    using fits by (intro that [OF \<open>layout_parse out = _\<close>]) simp_all
qed

definition rebuilt_size :: "Layout \<Rightarrow> bytes \<Rightarrow> bytes \<Rightarrow> nat" where
  "rebuilt_size l struct strs =
     40 + length (reservations l) + length struct + length strs + padding (length strs)"

text \<open>
  C19: writing and reading the header are inverse: from a tree that parses, \<open>rebuild\<close> with any
  structure block of whole words and any string block gives, as long as the result fits the 32-bit
  sizes of the format, a tree that parses to the old reservation map, the new structure block
  and the new string block; otherwise it gives an error. It never panics.
\<close>

theorem rebuild_parse:
  assumes "layout_parse source = ok l" and "length source < 2 ^ 63" and "4 dvd length struct"
    and "length struct < 2 ^ 62" and "length strs < 2 ^ 62"
  shows "if rebuilt_size l struct strs < 2 ^ 32
    then \<exists>out. rebuild l struct strs = ok out \<and> layout_parse out = ok \<lparr>l_source = out,
      total_size = rebuilt_size l struct strs, reservations = reservations l,
      structure_offset = 40 + length (reservations l), structure_block = struct, strings_block = strs\<rparr>
    else rebuild l struct strs = err Overflow"
proof -
  have "rebuilt_size l struct strs = length (rebuilt l struct strs)"
    using rebuilt_body(2) [OF assms(1-3)] by (simp add: rebuilt_size_def)
  then show ?thesis
    using rebuild_parse_ok [OF assms(1-3)] rebuild_err [OF assms(1,2,4,5)] by auto
qed

end
