(* ===== verification/Fdt_View.thy ===== *)
theory Fdt_View
  imports Fdt_Layout
begin

text \<open>
  What a reader of a device tree sees: its tokens without the no-operations, each with the names of
  the nodes it is in. The plan of the edits is correct for this view: the spans it hides are the
  tokens of the nodes at the given paths, and the offsets it records are the ends of the root and
  of the reserved-memory node.
\<close>

section \<open>Tokens in context\<close>

text \<open>The names of the nodes around each token, innermost first; a node contains its own tokens.\<close>

fun contexts :: "bytes list \<Rightarrow> token list \<Rightarrow> bytes list list" where
  "contexts ctx [] = []"
| "contexts ctx (t # ts) = (case t of
     TBegin name \<Rightarrow> (name # ctx) # contexts (name # ctx) ts
   | TEnd \<Rightarrow> ctx # contexts (tl ctx) ts
   | _ \<Rightarrow> ctx # contexts ctx ts)"

text \<open>The path of a node, and the nodes hidden with it.\<close>

fun node_path :: "bytes list \<Rightarrow> bytes" where
  "node_path [] = []"
| "node_path (name # ctx) = push_path (ctx = []) (node_path ctx) name"

fun hidden_ctx :: "bytes list \<Rightarrow> bytes list \<Rightarrow> bool" where
  "hidden_ctx hidden [] = False"
| "hidden_ctx hidden (name # ctx) = (node_path (name # ctx) \<in> set hidden \<or> hidden_ctx hidden ctx)"

lemma length_contexts [simp]: "length (contexts ctx ts) = length ts"
  by (induction ts arbitrary: ctx) (auto split: token.splits)

lemma take_node_path: "take (length (node_path ctx)) (node_path (name # ctx)) = node_path ctx"
  by (simp add: push_path_def)

section \<open>The planner in context\<close>

fun stack_in :: "bytes list \<Rightarrow> nat \<Rightarrow> OpenNode list \<Rightarrow> bytes list \<Rightarrow> bool" where
  "stack_in hidden i [] [] = True"
| "stack_in hidden i (n # ns) (c # cs) \<longleftrightarrow>
     (n_hide n \<longleftrightarrow> node_path (c # cs) \<in> set hidden) \<and> n_start n \<le> i \<and> 4 dvd n_start n
     \<and> previous_path_length n = length (node_path cs) \<and> (is_root n \<longleftrightarrow> cs = [])
     \<and> (is_reserved_memory n \<longleftrightarrow> length cs = 1 \<and> base_name c = str ''reserved-memory'')
     \<and> stack_in hidden i ns cs"
| "stack_in hidden i _ _ = False"

definition planner_in :: "bytes list \<Rightarrow> nat \<Rightarrow> EditPlanner \<Rightarrow> bytes list \<Rightarrow> bool" where
  "planner_in hidden i pl ctx \<longleftrightarrow> stack_in hidden i (stack pl) ctx \<and> path pl = node_path ctx \<and> 4 dvd i
     \<and> (\<forall>(a, b) \<in> set (p_hidden_nodes pl). a \<le> b \<and> b \<le> i \<and> 4 dvd a \<and> 4 dvd b)"

definition in_spans :: "(nat \<times> nat) list \<Rightarrow> nat \<Rightarrow> bool" where
  "in_spans spans j \<longleftrightarrow> (\<exists>(a, b) \<in> set spans. a \<le> j \<and> j < b)"

definition covered :: "EditPlanner \<Rightarrow> nat \<Rightarrow> bool" where
  "covered pl j \<longleftrightarrow> in_spans (p_hidden_nodes pl) j \<or> (\<exists>n \<in> set (stack pl). n_hide n \<and> n_start n \<le> j)"

lemma stack_in_mono: "stack_in hidden i ns ctx \<Longrightarrow> i \<le> i' \<Longrightarrow> stack_in hidden i' ns ctx"
  by (induction hidden i ns ctx rule: stack_in.induct) auto

lemma stack_in_length: "stack_in hidden i ns ctx \<Longrightarrow> length ns = length ctx"
  by (induction hidden i ns ctx rule: stack_in.induct) auto

lemma stack_in_hidden: "stack_in hidden i ns ctx \<Longrightarrow> hidden_ctx hidden ctx \<longleftrightarrow> (\<exists>n \<in> set ns. n_hide n)"
  by (induction hidden i ns ctx rule: stack_in.induct) auto

lemma stack_in_start: "stack_in hidden i ns ctx \<Longrightarrow> n \<in> set ns \<Longrightarrow> n_start n \<le> i"
  by (induction hidden i ns ctx rule: stack_in.induct) auto

text \<open>Positions that are not read yet are covered exactly when an open node is hidden.\<close>

lemma covered_ahead:
  assumes "planner_in hidden i pl ctx" "i \<le> j"
  shows "covered pl j \<longleftrightarrow> hidden_ctx hidden ctx"
proof -
  have "\<not> in_spans (p_hidden_nodes pl) j"
    using assms by (fastforce simp: planner_in_def in_spans_def)
  moreover have "(\<exists>n \<in> set (stack pl). n_hide n \<and> n_start n \<le> j) \<longleftrightarrow> hidden_ctx hidden ctx"
    using assms stack_in_hidden [of hidden i "stack pl" ctx] stack_in_start [of hidden i "stack pl" ctx]
    by (fastforce simp: planner_in_def)
  ultimately show ?thesis
    by (simp add: covered_def)
qed

section \<open>One token\<close>

text \<open>The context after a token, and what a step keeps: the coverage of the bytes before it.\<close>

fun next_ctx :: "token \<Rightarrow> bytes list \<Rightarrow> bytes list" where
  "next_ctx (TBegin name) ctx = name # ctx"
| "next_ctx TEnd ctx = tl ctx"
| "next_ctx _ ctx = ctx"

definition own_ctx :: "token \<Rightarrow> bytes list \<Rightarrow> bytes list" where
  "own_ctx t ctx = (case t of TBegin name \<Rightarrow> name # ctx | _ \<Rightarrow> ctx)"

lemma contexts_Cons: "contexts ctx (t # ts) = own_ctx t ctx # contexts (next_ctx t ctx) ts"
  by (cases t) (simp_all add: own_ctx_def)

lemma contexts_append: "contexts ctx (xs @ ys) = contexts ctx xs @ contexts (fold next_ctx xs ctx) ys"
  by (induction xs arbitrary: ctx) (simp_all add: contexts_Cons del: contexts.simps(2))

lemma begin_node_in:
  assumes "planner_in hidden i pl ctx" "begin_node pl i name hidden rname = ok pl'" "i \<le> e" "4 dvd e"
  shows "planner_in hidden e pl' (name # ctx)" "j < i \<Longrightarrow> covered pl' j = covered pl j"
    "i \<le> j \<Longrightarrow> covered pl' j = hidden_ctx hidden (name # ctx)"
    "p_reserved_memory pl' = p_reserved_memory pl" "p_root_end pl' = p_root_end pl"
    "p_root_cells pl' = p_root_cells pl" "p_root_end pl = None"
proof -
  have st: "stack pl = [] \<longleftrightarrow> ctx = []" "length (stack pl) = length ctx"
    using assms(1) stack_in_length by (fastforce simp: planner_in_def)+
  from assms(2) obtain n where pl': "pl' = pl\<lparr>stack := n # stack pl, path := push_path (ctx = []) (path pl) name\<rparr>"
    and n: "n_start n = i" "previous_path_length n = length (path pl)" "is_root n \<longleftrightarrow> ctx = []"
      "n_hide n \<longleftrightarrow> push_path (ctx = []) (path pl) name \<in> set hidden"
      "is_reserved_memory n \<longleftrightarrow> length ctx = 1 \<and> base_name name = str ''reserved-memory''"
    and "p_root_end pl = None"
    using st by (auto simp: begin_node_def Let_def split: if_splits)
  then show "p_reserved_memory pl' = p_reserved_memory pl" "p_root_end pl' = p_root_end pl"
    "p_root_cells pl' = p_root_cells pl" "p_root_end pl = None"
    by simp_all
  show "planner_in hidden e pl' (name # ctx)"
    using assms pl' n by (auto simp: planner_in_def intro: stack_in_mono)
  show "j < i \<Longrightarrow> covered pl' j = covered pl j"
    using pl' n by (auto simp: covered_def)
  show "i \<le> j \<Longrightarrow> covered pl' j = hidden_ctx hidden (name # ctx)"
    using covered_ahead [OF assms(1), of j] assms(1) pl' n by (auto simp: covered_def planner_in_def)
qed

lemma record_property_in:
  assumes "planner_in hidden i pl ctx" "planner_record_property pl name v = ok pl'" "i \<le> e" "4 dvd e"
  shows "planner_in hidden e pl' ctx" "covered pl' j = covered pl j"
    "p_reserved_memory pl' = p_reserved_memory pl" "p_root_end pl' = p_root_end pl"
    "p_root_cells pl' = p_root_cells pl" "ctx \<noteq> []"
proof -
  from assms(2) obtain n ns n' where st: "stack pl = n # ns" and n': "node_record_property n name v = ok n'"
    and pl': "pl' = pl\<lparr>stack := n' # ns\<rparr>"
    by (auto simp: planner_record_property_def rbind_ok_iff split: list.splits)
  obtain c cs where ctx: "ctx = c # cs"
    using assms(1) st by (cases ctx) (auto simp: planner_in_def)
  then show "ctx \<noteq> []"
    by simp
  have eq: "n_hide n' = n_hide n" "n_start n' = n_start n" "previous_path_length n' = previous_path_length n"
    "is_root n' = is_root n" "is_reserved_memory n' = is_reserved_memory n"
    using n' by (auto simp: node_record_property_def rbind_ok_iff split: if_splits)
  show "planner_in hidden e pl' ctx"
    using assms pl' st eq ctx by (auto simp: planner_in_def intro: stack_in_mono)
  show "covered pl' j = covered pl j" "p_reserved_memory pl' = p_reserved_memory pl"
    "p_root_end pl' = p_root_end pl" "p_root_cells pl' = p_root_cells pl"
    using pl' st eq by (auto simp: covered_def)
qed

lemma end_node_in:
  assumes inv: "planner_in hidden i pl ctx" and e: "end_node pl i e = ok pl'" "i \<le> e" "4 dvd e"
  shows "planner_in hidden e pl' (tl ctx)" "j < e \<Longrightarrow> covered pl' j = covered pl j" "ctx \<noteq> []"
    "if length ctx = 2 \<and> base_name (hd ctx) = str ''reserved-memory''
     then p_reserved_memory pl = None \<and> (\<exists>rm. p_reserved_memory pl' = Some rm \<and> rm_end rm = i)
     else p_reserved_memory pl' = p_reserved_memory pl"
    "if length ctx = 1 then p_root_end pl' = Some i \<and> p_root_cells pl' = Some (node_cells (hd (stack pl)))
     else p_root_end pl' = p_root_end pl \<and> p_root_cells pl' = p_root_cells pl"
proof -
  from e obtain n ns where st: "stack pl = n # ns"
    by (auto simp: end_node_def split: list.splits)
  with inv obtain c cs where ctx: "ctx = c # cs"
    by (cases ctx) (auto simp: planner_in_def)
  have n: "n_start n \<le> i" "4 dvd n_start n" "previous_path_length n = length (node_path cs)"
    "is_root n \<longleftrightarrow> cs = []" "is_reserved_memory n \<longleftrightarrow> length cs = 1 \<and> base_name c = str ''reserved-memory''"
    "stack_in hidden i ns cs" "path pl = node_path (c # cs)"
    using inv st ctx by (auto simp: planner_in_def)
  have "path_truncate (path pl) (previous_path_length n) \<noteq> Panic"
    using e st by (auto simp: end_node_def Let_def split: if_splits)
  moreover have "take (previous_path_length n) (path pl) = node_path cs" "previous_path_length n \<le> length (path pl)"
    using take_node_path n by (auto simp: push_path_def)
  ultimately have tr: "path_truncate (path pl) (previous_path_length n) = ok (node_path cs)"
    by (auto simp: path_truncate_def split: if_splits)
  from e(1) have pl': "stack pl' = ns" "path pl' = node_path cs"
    "p_hidden_nodes pl' = p_hidden_nodes pl @ (if n_hide n then [(n_start n, e)] else [])"
    "if is_reserved_memory n then p_reserved_memory pl = None \<and> (\<exists>rm. p_reserved_memory pl' = Some rm \<and> rm_end rm = i)
     else p_reserved_memory pl' = p_reserved_memory pl"
    "if is_root n then p_root_end pl' = Some i \<and> p_root_cells pl' = Some (node_cells n)
     else p_root_end pl' = p_root_end pl \<and> p_root_cells pl' = p_root_cells pl"
    by (auto simp: end_node_def st tr Let_def split: if_splits)
  show "ctx \<noteq> []"
    using ctx by simp
  show "planner_in hidden e pl' (tl ctx)"
    using inv pl' n e ctx by (fastforce simp: planner_in_def intro: stack_in_mono)
  show "j < e \<Longrightarrow> covered pl' j = covered pl j"
    using pl' st by (auto simp: covered_def in_spans_def)
  show "if length ctx = 2 \<and> base_name (hd ctx) = str ''reserved-memory''
     then p_reserved_memory pl = None \<and> (\<exists>rm. p_reserved_memory pl' = Some rm \<and> rm_end rm = i)
     else p_reserved_memory pl' = p_reserved_memory pl"
    "if length ctx = 1 then p_root_end pl' = Some i \<and> p_root_cells pl' = Some (node_cells (hd (stack pl)))
     else p_root_end pl' = p_root_end pl \<and> p_root_cells pl' = p_root_cells pl"
    using pl'(4,5) n(4,5) ctx st by (auto split: if_splits)
qed

section \<open>The whole block\<close>

lemma plan_step_in:
  assumes inv: "planner_in hidden i pl ctx" and st: "plan_step hidden rname t i e (i, pl) = ok (e', pl')"
    and e: "i \<le> e" "4 dvd e"
  shows "e' = e" "planner_in hidden e pl' (next_ctx t ctx)"
    "j < i \<Longrightarrow> covered pl' j = covered pl j"
    "i \<le> j \<Longrightarrow> j < e \<Longrightarrow> covered pl' j = hidden_ctx hidden (own_ctx t ctx)"
proof -
  have ahead: "i \<le> j \<Longrightarrow> covered pl j = hidden_ctx hidden ctx"
    by (rule covered_ahead [OF inv])
  have skip: "planner_in hidden e pl ctx"
    using inv e by (auto simp: planner_in_def intro: stack_in_mono)
  show "e' = e"
    using st by (cases t) (auto simp: rbind_ok_iff)
  show "planner_in hidden e pl' (next_ctx t ctx)"
    using st skip begin_node_in(1) [OF inv _ e] record_property_in(1) [OF inv _ e] end_node_in(1) [OF inv _ e]
    by (cases t) (auto simp: rbind_ok_iff)
  show "j < i \<Longrightarrow> covered pl' j = covered pl j"
    using st begin_node_in(2) [OF inv _ e] record_property_in(2) [OF inv _ e] end_node_in(2) [OF inv _ e] e
    by (cases t) (auto simp: rbind_ok_iff)
  show "i \<le> j \<Longrightarrow> j < e \<Longrightarrow> covered pl' j = hidden_ctx hidden (own_ctx t ctx)"
    using st ahead begin_node_in(3) [OF inv _ e] record_property_in(2) [OF inv _ e] end_node_in(2) [OF inv _ e] e
    by (cases t) (auto simp: rbind_ok_iff own_ctx_def)
qed

fun cover_ok :: "bytes list \<Rightarrow> (nat \<Rightarrow> bool) \<Rightarrow> nat \<Rightarrow> bytes list \<Rightarrow> (token \<times> bytes) list \<Rightarrow> bool" where
  "cover_ok hidden P i ctx [] = True"
| "cover_ok hidden P i ctx ((t, c) # tcs) \<longleftrightarrow>
     (\<forall>j. i \<le> j \<and> j < i + length c \<longrightarrow> P j = hidden_ctx hidden (own_ctx t ctx))
     \<and> cover_ok hidden P (i + length c) (next_ctx t ctx) tcs"

abbreviation plan_run where
  "plan_run hidden rname \<equiv> token_run fst (plan_step hidden rname) (\<lambda>s. planner_finish (snd s))"

lemma plan_run_ConsE:
  assumes "plan_run hidden rname (i, pl) ((t, c) # tcs) = ok ed"
  obtains pl' where "plan_step hidden rname t i (i + length c) (i, pl) = ok (i + length c, pl')"
    "plan_run hidden rname (i + length c, pl') tcs = ok ed"
proof -
  from assms obtain s where s: "plan_step hidden rname t i (i + length c) (i, pl) = ok s"
    "plan_run hidden rname s tcs = ok ed"
    by (auto simp: rbind_ok_iff)
  moreover have "fst s = i + length c"
    using s(1) by (rule plan.step_off)
  ultimately show thesis
    using that by (cases s) auto
qed

lemma plan_run_induct [consumes 3, case_names Nil Cons]:
  assumes "planner_in hidden i pl ctx" and "block strs tcs" and "plan_run hidden rname (i, pl) tcs = ok ed"
    and Nil: "\<And>i pl ctx. planner_in hidden i pl ctx \<Longrightarrow> planner_finish pl = ok ed \<Longrightarrow> Q i pl ctx []"
    and Cons: "\<And>i pl ctx t c tcs pl'. planner_in hidden i pl ctx \<Longrightarrow>
      plan_step hidden rname t i (i + length c) (i, pl) = ok (i + length c, pl') \<Longrightarrow>
      i \<le> i + length c \<Longrightarrow> 4 dvd i + length c \<Longrightarrow> planner_in hidden (i + length c) pl' (next_ctx t ctx) \<Longrightarrow>
      Q (i + length c) pl' (next_ctx t ctx) tcs \<Longrightarrow> block strs tcs \<Longrightarrow>
      plan_run hidden rname (i + length c, pl') tcs = ok ed \<Longrightarrow> Q i pl ctx ((t, c) # tcs)"
  shows "Q i pl ctx tcs"
  using assms(1-3)
proof (induction tcs arbitrary: i pl ctx)
  case (Cons tc tcs)
  obtain t c where tc: "tc = (t, c)"
    by fastforce
  from Cons.prems(3) obtain pl' where st: "plan_step hidden rname t i (i + length c) (i, pl) = ok (i + length c, pl')"
    and run: "plan_run hidden rname (i + length c, pl') tcs = ok ed"
    unfolding tc by (rule plan_run_ConsE)
  have b: "4 dvd length c" "4 dvd i" "block strs tcs"
    using Cons.prems tc token_bytes_word by (auto simp: planner_in_def)
  then have e: "i \<le> i + length c" "4 dvd i + length c"
    by simp_all
  note step = plan_step_in(2) [OF Cons.prems(1) st e]
  show ?case
    unfolding tc by (rule assms(5) [OF Cons.prems(1) st e step Cons.IH [OF step b(3) run] b(3) run])
qed (simp add: Nil)

lemma plan_run_covers:
  "planner_in hidden i pl ctx \<Longrightarrow> block strs tcs \<Longrightarrow> plan_run hidden rname (i, pl) tcs = ok ed \<Longrightarrow>
   cover_ok hidden (in_spans (hidden_nodes ed)) i ctx tcs
   \<and> (\<forall>j < i. in_spans (hidden_nodes ed) j = covered pl j)
   \<and> (\<forall>(a, b) \<in> set (hidden_nodes ed). a \<le> b \<and> b \<le> i + length (block_bytes tcs) \<and> 4 dvd a \<and> 4 dvd b)"
proof (induction rule: plan_run_induct)
  case (Nil i pl ctx)
  then have "stack pl = []" "hidden_nodes ed = p_hidden_nodes pl"
    by (auto simp: planner_finish_def rbind_ok_iff split: if_splits)
  with Nil show ?case
    by (auto simp: covered_def planner_in_def)
next
  case (Cons i pl ctx t c tcs pl')
  with plan_step_in(3,4) [OF Cons(1-4)] show ?case
    by (auto simp: add.assoc)
qed

text \<open>The offset of the first end of a node in a context of interest.\<close>

fun find_end :: "(bytes list \<Rightarrow> bool) \<Rightarrow> nat \<Rightarrow> bytes list \<Rightarrow> (token \<times> bytes) list \<Rightarrow> nat option" where
  "find_end P i ctx [] = None"
| "find_end P i ctx ((t, c) # tcs) =
     (if t = TEnd \<and> P ctx then Some i else find_end P (i + length c) (next_ctx t ctx) tcs)"

definition is_reserved_ctx :: "bytes list \<Rightarrow> bool" where
  "is_reserved_ctx ctx \<longleftrightarrow> length ctx = 2 \<and> base_name (hd ctx) = str ''reserved-memory''"

definition is_root_ctx :: "bytes list \<Rightarrow> bool" where
  "is_root_ctx ctx \<longleftrightarrow> length ctx = 1"

lemma plan_run_reserved:
  "planner_in hidden i pl ctx \<Longrightarrow> block strs tcs \<Longrightarrow> plan_run hidden rname (i, pl) tcs = ok ed \<Longrightarrow>
   map_option rm_end (reserved_memory ed) = (case p_reserved_memory pl of Some rm \<Rightarrow> Some (rm_end rm)
     | None \<Rightarrow> find_end is_reserved_ctx i ctx tcs)"
proof (induction rule: plan_run_induct)
  case (Nil i pl ctx)
  then show ?case
    by (auto simp: planner_finish_def rbind_ok_iff split: if_splits option.splits)
next
  case (Cons i pl ctx t c tcs pl')
  show ?case
  proof (cases "t = TEnd")
    case True
    then have "end_node pl i (i + length c) = ok pl'"
      using Cons by (auto simp: rbind_ok_iff)
    from end_node_in(4) [OF Cons(1) this Cons(3,4), folded is_reserved_ctx_def] show ?thesis
      using Cons.IH True by (auto split: option.splits if_splits)
  next
    case False
    have "p_reserved_memory pl' = p_reserved_memory pl"
      using Cons(2) False begin_node_in(4) [OF Cons(1) _ Cons(3,4)] record_property_in(3) [OF Cons(1) _ Cons(3,4)]
      by (cases t) (auto simp: rbind_ok_iff)
    then show ?thesis
      using Cons.IH False by (simp split: option.split)
  qed
qed

text \<open>The cells of the root: the last value of a property in the root's own context.\<close>

definition cell_step :: "bytes \<Rightarrow> bytes list \<Rightarrow> token \<Rightarrow> u32 option \<Rightarrow> u32 option" where
  "cell_step name ctx t acc =
     (case t of TProp n v \<Rightarrow> if is_root_ctx ctx \<and> n = name then Some (from_be_bytes v) else acc | _ \<Rightarrow> acc)"

fun root_cell :: "bytes \<Rightarrow> u32 option \<Rightarrow> bytes list \<Rightarrow> token list \<Rightarrow> u32 option" where
  "root_cell name acc ctx [] = acc"
| "root_cell name acc ctx (t # ts) = root_cell name (cell_step name ctx t acc) (next_ctx t ctx) ts"

definition cells_of :: "u32 option \<Rightarrow> u32 option \<Rightarrow> CellCounts" where
  "cells_of a s = \<lparr>address_cells = unwrap_or a DEFAULT_ADDRESS_CELLS, size_cells = unwrap_or s DEFAULT_SIZE_CELLS\<rparr>"

definition root_state :: "EditPlanner \<Rightarrow> bytes list \<Rightarrow> u32 option \<Rightarrow> u32 option \<Rightarrow> bool" where
  "root_state pl ctx a s \<longleftrightarrow>
     (if p_root_end pl \<noteq> None then ctx = [] \<and> p_root_cells pl = Some (cells_of a s)
      else if ctx = [] then a = None \<and> s = None
      else a = n_address_cells (last (stack pl)) \<and> s = n_size_cells (last (stack pl)))"

lemma single_cell_ok: "single_cell v = ok c \<Longrightarrow> c = from_be_bytes v"
  by (auto simp: single_cell_def read_u32_def get_range_def rbind_ok_iff split: if_splits)

lemma str_cells_distinct [simp]: "str ''#address-cells'' \<noteq> str ''#size-cells''" "str ''#size-cells'' \<noteq> str ''#address-cells''"
  by (simp_all add: str_def)

lemma planner_in_ctx:
  assumes "planner_in hidden i pl ctx"
  shows "length (stack pl) = length ctx"
  using assms stack_in_length by (auto simp: planner_in_def)

lemma record_property_root:
  assumes inv: "planner_in hidden i pl ctx" and p: "planner_record_property pl name v = ok pl'"
    and r: "root_state pl ctx a s"
  shows "root_state pl' ctx (cell_step (str ''#address-cells'') ctx (TProp name v) a)
    (cell_step (str ''#size-cells'') ctx (TProp name v) s)"
proof -
  from p obtain n ns n' where st: "stack pl = n # ns" and n': "node_record_property n name v = ok n'"
    and pl': "pl' = pl\<lparr>stack := n' # ns\<rparr>"
    by (auto simp: planner_record_property_def rbind_ok_iff split: list.splits)
  have len: "length ctx = Suc (length ns)"
    using planner_in_ctx [OF inv] st by simp
  then have ne: "ctx \<noteq> []" "is_root_ctx ctx \<longleftrightarrow> ns = []"
    by (auto simp: is_root_ctx_def)
  have "n_address_cells n' = (if name = str ''#address-cells'' then Some (from_be_bytes v) else n_address_cells n)"
    "n_size_cells n' = (if name = str ''#size-cells'' then Some (from_be_bytes v) else n_size_cells n)"
    using n' by (auto simp: node_record_property_def rbind_ok_iff dest!: single_cell_ok split: if_splits)
  then show ?thesis
    using r ne pl' st by (auto simp: root_state_def cell_step_def)
qed

lemma plan_step_root:
  assumes inv: "planner_in hidden i pl ctx" and st: "plan_step hidden rname t i e (i, pl) = ok (e', pl')"
    and e: "i \<le> e" "4 dvd e" and r: "root_state pl ctx a s"
  shows "root_state pl' (next_ctx t ctx) (cell_step (str ''#address-cells'') ctx t a) (cell_step (str ''#size-cells'') ctx t s)"
    "p_root_end pl' = (if t = TEnd \<and> is_root_ctx ctx then Some i else p_root_end pl)"
    "t = TEnd \<Longrightarrow> is_root_ctx ctx \<Longrightarrow> p_root_end pl = None"
proof -
  have len: "length (stack pl) = length ctx"
    by (rule planner_in_ctx [OF inv])
  show "root_state pl' (next_ctx t ctx) (cell_step (str ''#address-cells'') ctx t a) (cell_step (str ''#size-cells'') ctx t s)"
  proof (cases t)
    case (TBegin name)
    then have b: "begin_node pl i name hidden rname = ok pl'"
      using st by (auto simp: rbind_ok_iff)
    then obtain n where "stack pl' = n # stack pl" "n_address_cells n = None" "n_size_cells n = None"
      by (auto simp: begin_node_def Let_def split: if_splits)
    then show ?thesis
      using r TBegin begin_node_in(5,7) [OF inv b e] len by (auto simp: root_state_def cell_step_def split: if_splits)
  next
    case (TProp name v)
    then show ?thesis
      using st record_property_root [OF inv _ r] by (auto simp: rbind_ok_iff)
  next
    case TEnd
    then have b: "end_node pl i e = ok pl'"
      using st by (auto simp: rbind_ok_iff)
    obtain n ns where s: "stack pl = n # ns" "stack pl' = ns"
      using b by (auto simp: end_node_def Let_def rbind_ok_iff split: list.splits if_splits)
    obtain cn cs where ctx: "ctx = cn # cs" "cs = [] \<longleftrightarrow> ns = []"
      using s(1) len by (cases ctx) (auto, metis length_0_conv)
    show ?thesis
      using r TEnd end_node_in(5) [OF inv b e] s ctx
      by (cases "ns = []") (auto simp: root_state_def cell_step_def cells_of_def node_cells_def split: if_splits)
  qed (use st r in \<open>auto simp: cell_step_def\<close>)
  show "p_root_end pl' = (if t = TEnd \<and> is_root_ctx ctx then Some i else p_root_end pl)"
    using st begin_node_in(5) [OF inv _ e] record_property_in(4) [OF inv _ e] end_node_in(5) [OF inv _ e]
    by (cases t) (auto simp: rbind_ok_iff is_root_ctx_def split: if_splits)
  show "t = TEnd \<Longrightarrow> is_root_ctx ctx \<Longrightarrow> p_root_end pl = None"
    using r by (auto simp: root_state_def is_root_ctx_def split: if_splits)
qed

lemma plan_run_root:
  "planner_in hidden i pl ctx \<Longrightarrow> block strs tcs \<Longrightarrow> plan_run hidden rname (i, pl) tcs = ok ed \<Longrightarrow>
   \<forall>a s. root_state pl ctx a s \<longrightarrow>
   Some (root_end ed) = (case p_root_end pl of Some r \<Rightarrow> Some r | None \<Rightarrow> find_end is_root_ctx i ctx tcs)
   \<and> root_cells ed = cells_of (root_cell (str ''#address-cells'') a ctx (map fst tcs))
       (root_cell (str ''#size-cells'') s ctx (map fst tcs))"
proof (induction rule: plan_run_induct)
  case (Nil i pl ctx)
  then show ?case
    by (auto simp: planner_finish_def rbind_ok_iff root_state_def split: if_splits)
next
  case (Cons i pl ctx t c tcs pl')
  show ?case
  proof (intro allI impI)
    fix a s
    assume r: "root_state pl ctx a s"
    note step = plan_step_root [OF Cons(1-4) r]
    from Cons.IH step(1) have
      "Some (root_end ed) = (case p_root_end pl' of Some r \<Rightarrow> Some r
         | None \<Rightarrow> find_end is_root_ctx (i + length c) (next_ctx t ctx) tcs)"
      "root_cells ed = cells_of (root_cell (str ''#address-cells'') a ctx (map fst ((t, c) # tcs)))
         (root_cell (str ''#size-cells'') s ctx (map fst ((t, c) # tcs)))"
      by auto
    then show "Some (root_end ed) = (case p_root_end pl of Some r \<Rightarrow> Some r | None \<Rightarrow> find_end is_root_ctx i ctx ((t, c) # tcs))
      \<and> root_cells ed = cells_of (root_cell (str ''#address-cells'') a ctx (map fst ((t, c) # tcs)))
       (root_cell (str ''#size-cells'') s ctx (map fst ((t, c) # tcs)))"
      using step(2,3) by (auto split: option.splits if_splits)
  qed
qed

lemma planner_in_new: "planner_in hidden 0 planner_new []" "root_state planner_new [] None None"
  by (simp_all add: planner_in_def planner_new_def root_state_def)

end
