(* ===== verification/Fdt_Patch.thy ===== *)
theory Fdt_Patch
  imports Fdt_View
begin

text \<open>
  The two edits against the view of the tree: hiding nodes removes their tokens, adding the
  reservation of the firmware inserts its node, and nothing else changes.
\<close>

section \<open>Hiding\<close>

definition nop_byte :: "nat \<Rightarrow> u8" where
  "nop_byte k = to_be_bytes NOP ! k"

definition nopped :: "(nat \<times> nat) list \<Rightarrow> bytes \<Rightarrow> bytes" where
  "nopped spans bs = map (\<lambda>j. if in_spans spans j then nop_byte (j mod 4) else bs ! j) [0..<length bs]"

lemma to_be_NOP: "to_be_bytes NOP = [nop_byte 0, nop_byte 1, nop_byte 2, nop_byte 3]"
  by (simp add: nop_byte_def to_be_bytes_def)

lemma nops_map: "4 dvd a \<Longrightarrow> map (\<lambda>j. nop_byte (j mod 4)) [a..<a + 4 * k] = nops k"
proof (induction k arbitrary: a)
  case (Suc k)
  have "[a..<a + 4 * Suc k] = [a, a + 1, a + 2, a + 3] @ [a + 4..<a + 4 + 4 * k]"
    by (simp add: upt_rec numeral_eq_Suc)
  moreover have "a mod 4 = 0" "(a + 1) mod 4 = 1" "(a + 2) mod 4 = 2" "(a + 3) mod 4 = 3"
    using Suc.prems by presburger+
  ultimately show ?case
    using Suc.IH [of "a + 4"] Suc.prems by (simp add: to_be_NOP)
qed simp

lemma nop_words_nops: "4 dvd length bs \<Longrightarrow> nop_words bs = nops (length bs div 4)"
proof (induction bs rule: nop_words.induct)
  case (1 a b c d r)
  have len: "length (a # b # c # d # r) = 4 + length r"
    by simp
  with "1.prems" have "4 dvd length r"
    by (metis dvd_add_right_iff dvd_refl)
  with 1 show ?case
    unfolding len by simp
qed (auto dest!: dvd_imp_le)

lemma nop_words_map:
  assumes "4 dvd a" "4 dvd length bs"
  shows "nop_words bs = map (\<lambda>j. nop_byte (j mod 4)) [a..<a + length bs]"
  using nops_map [OF assms(1), of "length bs div 4"] nop_words_nops [OF assms(2)] assms(2) by simp

lemma nop_nodes_eq:
  "\<forall>(a, b) \<in> set spans. a \<le> b \<and> b \<le> length bs \<and> 4 dvd a \<and> 4 dvd b \<Longrightarrow> nop_nodes bs spans = ok (nopped spans bs)"
proof (induction spans arbitrary: bs)
  case Nil
  show ?case
    by (simp add: nopped_def in_spans_def map_nth)
next
  case (Cons sp spans)
  obtain a b where sp: "sp = (a, b)"
    by fastforce
  with Cons.prems have ab: "a \<le> b" "b \<le> length bs" "4 dvd a" "4 dvd b"
    by auto
  let ?w = "take (b - a) (drop a bs)"
  let ?bs = "take a bs @ nop_words ?w @ drop b bs"
  have w: "nop_words ?w = map (\<lambda>j. nop_byte (j mod 4)) [a..<b]"
    using nop_words_map [OF ab(3), of ?w] ab by simp
  have len: "length ?bs = length bs"
    using ab by simp
  have nth: "?bs ! j = (if a \<le> j \<and> j < b then nop_byte (j mod 4) else bs ! j)" if "j < length bs" for j
    using that ab unfolding w by (auto simp: nth_append min_def)
  have "nop_nodes ?bs spans = ok (nopped spans ?bs)"
    using Cons.prems len by (intro Cons.IH) auto
  moreover have "nopped spans ?bs = nopped (sp # spans) bs"
    unfolding nopped_def len by (rule map_cong) (auto simp: nth sp in_spans_def)
  ultimately show ?case
    using ab sp by (simp add: get_range_def)
qed

text \<open>The tokens after hiding: every word of a hidden token is a no-operation.\<close>

fun hide_tokens :: "bytes list \<Rightarrow> bytes list \<Rightarrow> (token \<times> bytes) list \<Rightarrow> (token \<times> bytes) list" where
  "hide_tokens hidden ctx [] = []"
| "hide_tokens hidden ctx ((t, c) # tcs) =
     (if hidden_ctx hidden (own_ctx t ctx) then replicate (length c div 4) (TNop, to_be_bytes NOP) else [(t, c)])
     @ hide_tokens hidden (next_ctx t ctx) tcs"

fun visible :: "bytes list \<Rightarrow> bytes list \<Rightarrow> token list \<Rightarrow> token list" where
  "visible hidden ctx [] = []"
| "visible hidden ctx (t # ts) =
     (if hidden_ctx hidden (own_ctx t ctx) then [] else [t]) @ visible hidden (next_ctx t ctx) ts"

abbreviation no_nops :: "token list \<Rightarrow> token list" where
  "no_nops \<equiv> filter (\<lambda>t. t \<noteq> TNop)"

lemma block_bytes_nops: "block_bytes (replicate k (TNop, to_be_bytes NOP)) = nops k"
  by (induction k) auto

lemma block_nops [simp]: "block strs (replicate k (TNop, to_be_bytes NOP))"
  by (induction k) auto

lemma hide_tokens_block: "block strs tcs \<Longrightarrow> block strs (hide_tokens hidden ctx tcs)"
  by (induction hidden ctx tcs rule: hide_tokens.induct) auto

lemma hide_tokens_length:
  "block strs tcs \<Longrightarrow> length (block_bytes (hide_tokens hidden ctx tcs)) = length (block_bytes tcs)"
  by (induction hidden ctx tcs rule: hide_tokens.induct) (auto simp: block_bytes_nops dest: token_bytes_word)

lemma hide_tokens_append:
  "hide_tokens hidden ctx (xs @ ys) = hide_tokens hidden ctx xs @ hide_tokens hidden (fold next_ctx (map fst xs) ctx) ys"
  by (induction hidden ctx xs rule: hide_tokens.induct) auto

lemma hide_tokens_view: "no_nops (map fst (hide_tokens hidden ctx tcs)) = visible hidden ctx (no_nops (map fst tcs))"
  by (induction hidden ctx tcs rule: hide_tokens.induct) (auto simp: own_ctx_def)

lemma hide_bytes:
  "cover_ok hidden (in_spans spans) i ctx tcs \<Longrightarrow> 4 dvd i \<Longrightarrow> block strs tcs \<Longrightarrow>
   (\<And>k. k < length (block_bytes tcs) \<Longrightarrow> bs ! (i + k) = block_bytes tcs ! k) \<Longrightarrow>
   map (\<lambda>j. if in_spans spans j then nop_byte (j mod 4) else bs ! j) [i..<i + length (block_bytes tcs)]
   = block_bytes (hide_tokens hidden ctx tcs)"
proof (induction tcs arbitrary: i ctx)
  case (Cons tc tcs)
  obtain t c where tc: "tc = (t, c)"
    by fastforce
  let ?f = "\<lambda>j. if in_spans spans j then nop_byte (j mod 4) else bs ! j"
  let ?h = "hidden_ctx hidden (own_ctx t ctx)"
  have c: "4 dvd length c"
    using Cons.prems tc token_bytes_word by auto
  have nth: "bs ! (i + length c + k) = block_bytes tcs ! k" if "k < length (block_bytes tcs)" for k
    using Cons.prems(4) [of "length c + k"] that tc by (simp add: nth_append add.assoc)
  have IH: "map ?f [i + length c..<i + length c + length (block_bytes tcs)]
      = block_bytes (hide_tokens hidden (next_ctx t ctx) tcs)"
    using Cons.prems tc c nth by (intro Cons.IH) auto
  have "map ?f [i..<i + length c] = map (\<lambda>j. if ?h then nop_byte (j mod 4) else bs ! j) [i..<i + length c]"
    using Cons.prems(1) tc by (intro map_cong) auto
  also have "\<dots> = (if ?h then nops (length c div 4) else c)"
  proof (cases ?h)
    case True
    then show ?thesis
      using nops_map [OF Cons.prems(2), of "length c div 4"] c by simp
  next
    case False
    have "map ((!) bs) [i..<i + length c] = c"
      using Cons.prems(4) tc by (intro nth_equalityI) (auto simp: nth_append)
    with False show ?thesis
      by simp
  qed
  finally have hd: "map ?f [i..<i + length c] = (if ?h then nops (length c div 4) else c)" .
  have "[i..<i + length (block_bytes (tc # tcs))]
      = [i..<i + length c] @ [i + length c..<i + length c + length (block_bytes tcs)]"
    using upt_add_eq_append [of i "i + length c" "length (block_bytes tcs)"] tc by (simp add: add.assoc)
  then show ?case
    using hd IH tc by (auto simp: block_bytes_nops)
qed simp

lemma nopped_block:
  assumes "bs = block_bytes tcs @ rest" "block strs tcs" "cover_ok hidden (in_spans spans) 0 [] tcs"
    and "\<forall>(a, b) \<in> set spans. b \<le> length (block_bytes tcs)"
  shows "nopped spans bs = block_bytes (hide_tokens hidden [] tcs) @ rest"
proof -
  let ?f = "\<lambda>j. if in_spans spans j then nop_byte (j mod 4) else bs ! j"
  let ?n = "length (block_bytes tcs)"
  have "map ?f [0..<0 + ?n] = block_bytes (hide_tokens hidden [] tcs)"
    using assms by (intro hide_bytes) (auto simp: nth_append)
  moreover have "map ?f [?n..<?n + length rest] = rest"
    using assms(1,4) by (intro nth_equalityI) (fastforce simp: in_spans_def nth_append)+
  moreover have "[0..<length bs] = [0..<?n] @ [?n..<?n + length rest]"
    using assms(1) upt_add_eq_append [of 0 ?n "length rest"] by simp
  ultimately show ?thesis
    by (simp add: nopped_def)
qed

lemma plan_hides:
  assumes "small bs" "plan_edits bs strs hidden rname = ok ed"
  obtains tcs k where "bs = block_bytes tcs @ to_be_bytes END @ nops k" "block strs tcs"
    "plan_run hidden rname (0, planner_new) tcs = ok ed"
    "nop_nodes bs (hidden_nodes ed) = ok (block_bytes (hide_tokens hidden [] tcs) @ to_be_bytes END @ nops k)"
proof -
  obtain tcs k where t: "bs = block_bytes tcs @ to_be_bytes END @ nops k" "block strs tcs"
    "plan_run hidden rname (0, planner_new) tcs = ok ed"
    using assms(2) unfolding plan_ok_iff [OF assms(1)] by blast
  note c = plan_run_covers [OF planner_in_new(1) t(2,3)]
  have "nop_nodes bs (hidden_nodes ed) = ok (nopped (hidden_nodes ed) bs)"
    using c t(1) by (intro nop_nodes_eq) auto
  moreover have "nopped (hidden_nodes ed) bs = block_bytes (hide_tokens hidden [] tcs) @ to_be_bytes END @ nops k"
    using c by (intro nopped_block [OF t(1,2)]) auto
  ultimately show thesis
    using t that by simp
qed

section \<open>Emitted tokens\<close>

definition enc_begin :: "bytes \<Rightarrow> bytes" where
  "enc_begin name = to_be_bytes BEGIN_NODE @ name @ 0 # replicate (padding (length name + 1)) 0"

definition enc_property :: "u32 \<Rightarrow> bytes \<Rightarrow> bytes" where
  "enc_property name_offset v = to_be_bytes PROPERTY @ to_be_bytes (word_of_nat (length v))
     @ to_be_bytes name_offset @ v @ replicate (padding (length v)) 0"

lemma enc_begin_token: "utf8_valid name \<Longrightarrow> 0 \<notin> set name \<Longrightarrow> token_bytes strs (TBegin name) (enc_begin name)"
  by (simp add: enc_begin_def)

lemma enc_property_token:
  assumes "string_at strs (unat name_offset) = ok name" "length v < 2 ^ 32"
  shows "token_bytes strs (TProp name v) (enc_property name_offset v)"
proof -
  have "unat (word_of_nat (length v) :: u32) = length v"
    using assms(2) by (simp add: unat_of_nat)
  then show ?thesis
    using assms(1) unfolding token_bytes.simps enc_property_def
    by (intro exI [of _ "word_of_nat (length v)"] exI [of _ name_offset]
        exI [of _ "replicate (padding (length v)) 0"]) simp
qed

lemma push_begin_node_eq:
  "4 dvd length out \<Longrightarrow> length out + length name + 8 < 2 ^ 64 \<Longrightarrow>
   push_begin_node out name = (if 0 \<in> set name then err InvalidArgs else ok (out @ enc_begin name))"
  using padding_skip [of "length out + 4" "length name + 1"]
  by (simp add: push_begin_node_def push_u32_def enc_begin_def pad_to_4 add.assoc add.left_commute)

lemma push_property_eq:
  "4 dvd length out \<Longrightarrow> length v < 2 ^ 32 \<Longrightarrow> length out < 2 ^ 63 \<Longrightarrow>
   push_property out name_offset v = ok (out @ enc_property name_offset v)"
  using padding_skip [of "length out + 12" "length v"]
  by (simp add: push_property_def push_u32_def enc_property_def pad_to_4 u32_of_len_def add.assoc)

lemma length_enc [simp]: "4 dvd length (enc_begin name)" "4 dvd length (enc_property off v)"
proof -
  have "length (enc_begin name) = 4 + (length name + 1 + padding (length name + 1))"
    "length (enc_property off v) = 12 + (length v + padding (length v))"
    by (simp_all add: enc_begin_def enc_property_def)
  then show "4 dvd length (enc_begin name)" "4 dvd length (enc_property off v)"
    using dvd_add [OF _ padding_word [of "length name + 1"], of 4] dvd_add [OF _ padding_word [of "length v"], of 12]
    by simp_all
qed

text \<open>A value in one or two cells, and the tokens of the new nodes.\<close>

definition cell_bytes :: "u32 \<Rightarrow> u64 \<Rightarrow> bytes" where
  "cell_bytes count v =
     (if count = 1 then to_be_bytes (ucast v) else to_be_bytes (ucast (drop_bit 32 v)) @ to_be_bytes (ucast v))"

definition reservation_tokens :: "CellCounts \<Rightarrow> Reservation \<Rightarrow> token list" where
  "reservation_tokens cells r =
     [TBegin (reservation_node_name r),
      TProp (str ''reg'') (cell_bytes (address_cells cells) (res_address r) @ cell_bytes (size_cells cells) (res_size r)),
      TProp (str ''no-map'') [], TEnd]"

definition reserved_memory_tokens :: "CellCounts \<Rightarrow> Reservation \<Rightarrow> token list" where
  "reserved_memory_tokens cells r =
     [TBegin (str ''reserved-memory''), TProp (str ''#address-cells'') (to_be_bytes (address_cells cells)),
      TProp (str ''#size-cells'') (to_be_bytes (size_cells cells)), TProp (str ''ranges'') []]
     @ reservation_tokens cells r @ [TEnd]"

lemma length_hex: "n < 16 ^ k \<Longrightarrow> 0 < k \<Longrightarrow> length (hex n) \<le> k"
proof (induction n arbitrary: k rule: hex.induct)
  case (1 n)
  show ?case
  proof (cases "n < 16")
    case False
    then have "k \<noteq> 1"
      using "1.prems" by auto
    then obtain m where m: "k = Suc m" "0 < m"
      using "1.prems"(2) by (cases k) auto
    then have "n div 16 < 16 ^ m"
      using "1.prems"(1) by (simp add: less_mult_imp_div_less mult.commute)
    with 1 False m have "length (hex (n div 16)) \<le> m"
      by blast
    then show ?thesis
      using False m by (subst hex.simps) simp
  qed (use "1.prems" in \<open>simp add: hex.simps\<close>)
qed

lemma hex_ascii: "b \<in> set (hex n) \<Longrightarrow> 0 < b \<and> b < 0x80"
proof (induction n rule: hex.induct)
  case (1 n)
  have "0 < hex_digit d \<and> hex_digit d < 0x80" if "d < 16" for d
    using that by (simp add: hex_digit_def word_less_nat_alt unat_of_nat)
  with 1 show ?case
    by (subst (asm) (2) hex.simps) (auto split: if_splits)
qed

lemma reservation_name_ok:
  "utf8_valid (reservation_node_name r)" "0 \<notin> set (reservation_node_name r)"
  "length (reservation_node_name r) \<le> 28"
proof -
  have "\<forall>b \<in> set (reservation_node_name r). 0 < b \<and> b < 0x80"
    using hex_ascii by (auto simp: reservation_node_name_def str_def)
  then show "utf8_valid (reservation_node_name r)" "0 \<notin> set (reservation_node_name r)"
    by (auto intro: utf8_valid_ascii)
  have "unat (res_address r) < 16 ^ 16"
    using unat_usize [of "res_address r"] by simp
  then have "length (hex (unat (res_address r))) \<le> 16"
    by (rule length_hex) simp
  then show "length (reservation_node_name r) \<le> 28"
    by (simp add: reservation_node_name_def str_def)
qed

section \<open>The string block\<close>

lemma string_at_append: "string_at strs i = ok s \<Longrightarrow> string_at (strs @ xtra) i = ok s"
  by (auto simp: string_at_ok_iff)

lemma token_bytes_append: "token_bytes strs t c \<Longrightarrow> token_bytes (strs @ xtra) t c"
  by (cases t) (auto dest: string_at_append [of strs _ _ xtra])

lemma block_append: "block strs tcs \<Longrightarrow> block (strs @ xtra) tcs"
  by (auto simp: block_def intro: token_bytes_append)

lemma string_at_new:
  "utf8_valid s \<Longrightarrow> 0 \<notin> set s \<Longrightarrow> string_at (strs @ s @ 0 # xtra) (length strs) = ok s"
  by (auto simp: string_at_ok_iff)

lemma append_string_ok_iff:
  "append_string strs s = ok (strs', off) \<longleftrightarrow>
   length strs < 2 ^ 32 \<and> off = word_of_nat (length strs) \<and> strs' = strs @ s @ [0]"
  by (auto simp: append_string_def u32_of_len_def)

lemma append_string_no_Panic [simp]: "append_string strs s \<noteq> Panic"
  by (simp add: append_string_def u32_of_len_def)

lemma append_string_at:
  assumes "append_string strs s = ok (strs', off)" "utf8_valid s" "0 \<notin> set s"
  shows "string_at (strs' @ xtra) (unat off) = ok s"
proof -
  have "unat off = length strs" "strs' = strs @ s @ [0]"
    using assms(1) by (auto simp: append_string_ok_iff unat_of_nat)
  then show ?thesis
    using string_at_new [OF assms(2,3), of strs xtra] by simp
qed

lemma str_names_ok:
  "utf8_valid (str ''#address-cells'')" "utf8_valid (str ''#size-cells'')" "utf8_valid (str ''ranges'')"
  "utf8_valid (str ''reg'')" "utf8_valid (str ''no-map'')" "utf8_valid (str ''reserved-memory'')"
  "0 \<notin> set (str ''#address-cells'')" "0 \<notin> set (str ''#size-cells'')" "0 \<notin> set (str ''ranges'')"
  "0 \<notin> set (str ''reg'')" "0 \<notin> set (str ''no-map'')" "0 \<notin> set (str ''reserved-memory'')"
  by (simp_all add: str_def)

section \<open>The inserted bytes\<close>

lemma push_cells_ok:
  "push_cells out v count = ok out' \<Longrightarrow> out' = out @ cell_bytes count v"
  by (auto simp: push_cells_def cell_bytes_def rbind_ok_iff u32_try_from_def split: if_splits)

lemma push_cells_no_Panic [simp]: "push_cells out v count \<noteq> Panic"
  by (auto simp: push_cells_def rbind_Panic_iff)

lemma length_cell_bytes: "length (cell_bytes count v) \<le> 8"
  by (simp add: cell_bytes_def)

definition child_block :: "CellCounts \<Rightarrow> Reservation \<Rightarrow> u32 \<Rightarrow> u32 \<Rightarrow> (token \<times> bytes) list" where
  "child_block cells r reg_name no_map_name = zip (reservation_tokens cells r)
     [enc_begin (reservation_node_name r),
      enc_property reg_name (cell_bytes (address_cells cells) (res_address r) @ cell_bytes (size_cells cells) (res_size r)),
      enc_property no_map_name [], to_be_bytes END_NODE]"

definition parent_block :: "CellCounts \<Rightarrow> Reservation \<Rightarrow> u32 \<Rightarrow> u32 \<Rightarrow> u32 \<Rightarrow> u32 \<Rightarrow> u32 \<Rightarrow> (token \<times> bytes) list" where
  "parent_block cells r address_name size_name ranges_name reg_name no_map_name =
     zip (take 4 (reserved_memory_tokens cells r))
      [enc_begin (str ''reserved-memory''), enc_property address_name (to_be_bytes (address_cells cells)),
       enc_property size_name (to_be_bytes (size_cells cells)), enc_property ranges_name []]
     @ child_block cells r reg_name no_map_name @ [(TEnd, to_be_bytes END_NODE)]"

lemma child_block_tokens: "map fst (child_block cells r reg_name no_map_name) = reservation_tokens cells r"
  by (simp add: child_block_def reservation_tokens_def)

lemma parent_block_tokens:
  "map fst (parent_block cells r address_name size_name ranges_name reg_name no_map_name) = reserved_memory_tokens cells r"
  by (simp add: parent_block_def reserved_memory_tokens_def child_block_tokens numeral_eq_Suc)

lemma enc_lengths:
  "length (enc_begin name) \<le> length name + 8" "length (enc_property off v) \<le> length v + 15"
  using padding_less [of "length name + 1"] padding_less [of "length v"]
  by (simp_all add: enc_begin_def enc_property_def)

lemma firmware_child_eq:
  "firmware_child (reservation_node_name r) cells r reg_name no_map_name =
     rbind (push_cells [] (res_address r) (address_cells cells)) (\<lambda>v.
     rbind (push_cells v (res_size r) (size_cells cells)) (\<lambda>_.
     ok (block_bytes (child_block cells r reg_name no_map_name))))"
proof -
  let ?v = "cell_bytes (address_cells cells) (res_address r) @ cell_bytes (size_cells cells) (res_size r)"
  let ?b = "enc_begin (reservation_node_name r)"
  have v: "length ?v \<le> 16"
    using length_cell_bytes [of "address_cells cells" "res_address r"]
      length_cell_bytes [of "size_cells cells" "res_size r"] by simp
  have b: "length ?b \<le> 36"
    using enc_lengths(1) [of "reservation_node_name r"] reservation_name_ok(3) [of r] by simp
  have p: "length (enc_property reg_name ?v) \<le> 31"
    using enc_lengths(2) [of reg_name ?v] v by linarith
  have "push_begin_node [] (reservation_node_name r) = ok ?b"
    using reservation_name_ok [of r] by (subst push_begin_node_eq) auto
  moreover have "push_property ?b reg_name ?v = ok (?b @ enc_property reg_name ?v)"
    using b v by (intro push_property_eq) auto
  moreover have "push_property (?b @ enc_property reg_name ?v) no_map_name []
      = ok ((?b @ enc_property reg_name ?v) @ enc_property no_map_name [])"
    using b p by (intro push_property_eq) auto
  ultimately show ?thesis
    unfolding firmware_child_def
    by (auto simp: child_block_def reservation_tokens_def push_u32_def dest!: push_cells_ok intro!: rbind_cong)
qed

lemma firmware_parent_eq:
  "child = block_bytes (child_block cells r reg_name no_map_name) \<Longrightarrow>
   firmware_parent cells address_name size_name ranges_name child
   = ok (block_bytes (parent_block cells r address_name size_name ranges_name reg_name no_map_name))"
proof -
  let ?a = "enc_begin (str ''reserved-memory'')"
  let ?b = "enc_property address_name (to_be_bytes (address_cells cells))"
  let ?c = "enc_property size_name (to_be_bytes (size_cells cells))"
  assume child: "child = block_bytes (child_block cells r reg_name no_map_name)"
  have "length (str ''reserved-memory'') = 15"
    by (simp add: str_def)
  then have a: "length ?a \<le> 23" and b: "length ?b \<le> 19" and c: "length ?c \<le> 19"
    using enc_lengths(1) [of "str ''reserved-memory''"] enc_lengths(2) [of address_name "to_be_bytes (address_cells cells)"]
      enc_lengths(2) [of size_name "to_be_bytes (size_cells cells)"] by simp_all
  have "push_begin_node [] (str ''reserved-memory'') = ok ?a"
    using str_names_ok by (subst push_begin_node_eq) (auto simp: str_def)
  moreover have "push_property ?a address_name (to_be_bytes (address_cells cells)) = ok (?a @ ?b)"
    using a by (intro push_property_eq) auto
  moreover have "push_property (?a @ ?b) size_name (to_be_bytes (size_cells cells)) = ok ((?a @ ?b) @ ?c)"
    using a b by (intro push_property_eq) auto
  moreover have "push_property ((?a @ ?b) @ ?c) ranges_name [] = ok (((?a @ ?b) @ ?c) @ enc_property ranges_name [])"
    using a b c by (intro push_property_eq) auto
  ultimately show ?thesis
    by (simp add: firmware_parent_def child parent_block_def reserved_memory_tokens_def push_u32_def numeral_eq_Suc)
qed

end
