(* ===== verification/Fdt_Correct.thy ===== *)
theory Fdt_Correct
  imports Fdt_Patch
begin

text \<open>
  \<open>prepare_next_stage\<close> never panics, and the tree it returns shows the reader the old tree without
  the hidden nodes and with the reservation of the firmware.
\<close>

section \<open>Inserting\<close>

fun splice_tokens :: "bytes list \<Rightarrow> (bytes list \<Rightarrow> bool) \<Rightarrow> token list \<Rightarrow> bytes list \<Rightarrow> token list \<Rightarrow> token list" where
  "splice_tokens hidden P new ctx [] = []"
| "splice_tokens hidden P new ctx (t # ts) =
     (if t = TEnd \<and> P ctx then new @ visible hidden ctx (t # ts)
      else (if hidden_ctx hidden (own_ctx t ctx) then [] else [t]) @ splice_tokens hidden P new (next_ctx t ctx) ts)"

fun has_end :: "(bytes list \<Rightarrow> bool) \<Rightarrow> bytes list \<Rightarrow> token list \<Rightarrow> bool" where
  "has_end P ctx [] = False"
| "has_end P ctx (t # ts) \<longleftrightarrow> t = TEnd \<and> P ctx \<or> has_end P (next_ctx t ctx) ts"

lemma find_end_split:
  "find_end P i ctx tcs = Some off \<Longrightarrow> \<exists>pre c post. tcs = pre @ (TEnd, c) # post
     \<and> off = i + length (block_bytes pre)
     \<and> (\<forall>new. no_nops new = new \<longrightarrow> splice_tokens hidden P new ctx (no_nops (map fst tcs)) =
          visible hidden ctx (no_nops (map fst pre)) @ new
          @ visible hidden (fold next_ctx (map fst pre) ctx) (no_nops (map fst ((TEnd, c) # post))))"
proof (induction P i ctx tcs rule: find_end.induct)
  case (2 P i ctx t c tcs)
  show ?case
  proof (cases "t = TEnd \<and> P ctx")
    case True
    then show ?thesis
      using 2(2) by (intro exI [of _ "[]"] exI [of _ c] exI [of _ tcs]) auto
  next
    case False
    with 2 obtain pre c' post where h: "tcs = pre @ (TEnd, c') # post" "off = i + length c + length (block_bytes pre)"
      "\<forall>new. no_nops new = new \<longrightarrow> splice_tokens hidden P new (next_ctx t ctx) (no_nops (map fst tcs)) =
          visible hidden (next_ctx t ctx) (no_nops (map fst pre)) @ new
          @ visible hidden (fold next_ctx (map fst pre) (next_ctx t ctx)) (no_nops (map fst ((TEnd, c') # post)))"
      by auto
    have F: "(t = TEnd \<and> P ctx) = False"
      using False by simp
    show ?thesis
    proof (cases "t = TNop")
      case True
      then have "splice_tokens hidden P new ctx (no_nops (map fst ((t, c) # tcs)))
          = splice_tokens hidden P new (next_ctx t ctx) (no_nops (map fst tcs))" for new
        by simp
      with h True show ?thesis
        by (intro exI [of _ "(t, c) # pre"] exI [of _ c'] exI [of _ post]) simp
    next
      case False
      then have "splice_tokens hidden P new ctx (no_nops (map fst ((t, c) # tcs)))
          = (if hidden_ctx hidden (own_ctx t ctx) then [] else [t])
            @ splice_tokens hidden P new (next_ctx t ctx) (no_nops (map fst tcs))" for new
        using F by auto
      with h False show ?thesis
        by (intro exI [of _ "(t, c) # pre"] exI [of _ c'] exI [of _ post]) simp
    qed
  qed
qed simp

lemma find_end_has_end: "find_end P i ctx tcs \<noteq> None \<longleftrightarrow> has_end P ctx (no_nops (map fst tcs))"
  by (induction P i ctx tcs rule: find_end.induct) auto

lemma find_end_le: "find_end P i ctx tcs = Some off \<Longrightarrow> off \<le> i + length (block_bytes tcs)"
  using find_end_split [of P i ctx tcs off "[]"] by auto

lemma root_cell_no_nops: "root_cell name acc ctx (no_nops ts) = root_cell name acc ctx ts"
  by (induction ts arbitrary: acc ctx) (auto simp: cell_step_def)

text \<open>What the reader of the next stage is meant to see.\<close>

definition next_stage_view :: "Reservation option \<Rightarrow> bytes list \<Rightarrow> token list \<Rightarrow> token list" where
  "next_stage_view reservation hidden ts =
     (case reservation of None \<Rightarrow> visible hidden [] ts
      | Some r \<Rightarrow>
        let cells = cells_of (root_cell (str ''#address-cells'') None [] ts) (root_cell (str ''#size-cells'') None [] ts)
        in if has_end is_reserved_ctx [] ts
           then splice_tokens hidden is_reserved_ctx (reservation_tokens cells r) [] ts
           else splice_tokens hidden is_root_ctx (reserved_memory_tokens cells r) [] ts)"

definition dt_view :: "bytes \<Rightarrow> token list fdt" where
  "dt_view source = rbind (layout_parse source) (\<lambda>l.
     rbind (lex_loop (structure_block l) (strings_block l) (0, [])) (\<lambda>ts. ok (no_nops ts)))"

section \<open>The reservation\<close>

lemma child_block_block:
  assumes "string_at strs (unat reg_name) = ok (str ''reg'')" "string_at strs (unat no_map_name) = ok (str ''no-map'')"
  shows "block strs (child_block cells r reg_name no_map_name)"
proof -
  let ?v = "cell_bytes (address_cells cells) (res_address r) @ cell_bytes (size_cells cells) (res_size r)"
  have "length ?v < 2 ^ 32"
    using length_cell_bytes [of "address_cells cells" "res_address r"]
      length_cell_bytes [of "size_cells cells" "res_size r"] by simp
  then have "token_bytes strs (TProp (str ''reg'') ?v) (enc_property reg_name ?v)"
    "token_bytes strs (TProp (str ''no-map'') []) (enc_property no_map_name [])"
    "token_bytes strs (TBegin (reservation_node_name r)) (enc_begin (reservation_node_name r))"
    using assms reservation_name_ok [of r] by (auto intro!: enc_property_token enc_begin_token simp del: token_bytes.simps)
  then show ?thesis
    by (simp add: child_block_def reservation_tokens_def del: token_bytes.simps) simp
qed

lemma parent_block_block:
  assumes "string_at strs (unat address_name) = ok (str ''#address-cells'')"
    "string_at strs (unat size_name) = ok (str ''#size-cells'')"
    "string_at strs (unat ranges_name) = ok (str ''ranges'')"
    "string_at strs (unat reg_name) = ok (str ''reg'')" "string_at strs (unat no_map_name) = ok (str ''no-map'')"
  shows "block strs (parent_block cells r address_name size_name ranges_name reg_name no_map_name)"
proof -
  have "token_bytes strs (TBegin (str ''reserved-memory'')) (enc_begin (str ''reserved-memory''))"
    "token_bytes strs (TProp (str ''#address-cells'') (to_be_bytes (address_cells cells)))
      (enc_property address_name (to_be_bytes (address_cells cells)))"
    "token_bytes strs (TProp (str ''#size-cells'') (to_be_bytes (size_cells cells)))
      (enc_property size_name (to_be_bytes (size_cells cells)))"
    "token_bytes strs (TProp (str ''ranges'') []) (enc_property ranges_name [])"
    "token_bytes strs TEnd (to_be_bytes END_NODE)"
    using assms(1-3) str_names_ok by (simp_all add: enc_property_token enc_begin_token del: token_bytes.simps(1,2))
  then show ?thesis
    using child_block_block [OF assms(4,5), of cells r]
    by (simp add: parent_block_def reserved_memory_tokens_def numeral_eq_Suc del: token_bytes.simps)
qed

lemma length_child_block: "length (block_bytes (child_block cells r reg_name no_map_name)) \<le> 86"
proof -
  let ?v = "cell_bytes (address_cells cells) (res_address r) @ cell_bytes (size_cells cells) (res_size r)"
  have "length ?v \<le> 16"
    using length_cell_bytes [of "address_cells cells" "res_address r"]
      length_cell_bytes [of "size_cells cells" "res_size r"] by simp
  then show ?thesis
    using enc_lengths(1) [of "reservation_node_name r"] reservation_name_ok(3) [of r]
      enc_lengths(2) [of reg_name ?v] enc_lengths(2) [of no_map_name "[]"]
    by (simp add: child_block_def reservation_tokens_def)
qed

lemma length_parent_block:
  "length (block_bytes (parent_block cells r address_name size_name ranges_name reg_name no_map_name)) \<le> 200"
proof -
  have "length (str ''reserved-memory'') = 15"
    by (simp add: str_def)
  then show ?thesis
    using length_child_block [of cells r reg_name no_map_name] enc_lengths(1) [of "str ''reserved-memory''"]
      enc_lengths(2) [of address_name "to_be_bytes (address_cells cells)"] enc_lengths(2) [of ranges_name "[]"]
      enc_lengths(2) [of size_name "to_be_bytes (size_cells cells)"]
    by (simp add: parent_block_def reserved_memory_tokens_def numeral_eq_Suc)
qed

text \<open>The insertion of a successful call: where, what, and the strings it refers to.\<close>

lemma add_firmware_reservation_ok:
  assumes "add_firmware_reservation l ed struct r (reservation_node_name r) = ok out"
  obtains xtra ins off where "block (strings_block l @ xtra) ins"
    "rebuild l (take off struct @ block_bytes ins @ drop off struct) (strings_block l @ xtra) = ok out"
    "if reserved_memory ed = None
     then off = root_end ed \<and> map fst ins = reserved_memory_tokens (root_cells ed) r
     else off = rm_end (the (reserved_memory ed)) \<and> map fst ins = reservation_tokens (root_cells ed) r"
    "off \<le> length struct" "length (block_bytes ins) < 2 ^ 32" "length xtra < 2 ^ 32"
proof -
  define cells where "cells = root_cells ed"
  have cells: "(case reserved_memory ed of Some node \<Rightarrow> rm_cells node | None \<Rightarrow> root_cells ed) = cells"
    using assms by (auto simp: add_firmware_reservation_def cells_def split: option.splits if_splits)
  from assms obtain s1 n1 s2 n2 s3 n3 s4 n4 s5 n5 child off insertion before after where
    a: "append_string (strings_block l) (str ''#address-cells'') = ok (s1, n1)"
    "append_string s1 (str ''#size-cells'') = ok (s2, n2)" "append_string s2 (str ''ranges'') = ok (s3, n3)"
    "append_string s3 (str ''reg'') = ok (s4, n4)" "append_string s4 (str ''no-map'') = ok (s5, n5)"
    and child: "firmware_child (reservation_node_name r) cells r n4 n5 = ok child"
    and ins: "(case reserved_memory ed of Some reserved \<Rightarrow> ok (rm_end reserved, child)
             | None \<Rightarrow> rbind (firmware_parent cells n1 n2 n3 child) (\<lambda>parent. ok (root_end ed, parent))) = ok (off, insertion)"
    and sl: "slice struct 0 off = ok before" "slice struct off (length struct) = ok after"
    and out: "rebuild l (before @ insertion @ after) s5 = ok out"
    unfolding add_firmware_reservation_def cells by (auto simp: rbind_ok_iff Let_def split: if_splits)
  note at = append_string_at [OF a(1)] append_string_at [OF a(2)] append_string_at [OF a(3)]
    append_string_at [OF a(4)] append_string_at [OF a(5)]
  note ext = a [unfolded append_string_ok_iff]
  obtain x where x: "s5 = strings_block l @ x" "\<exists>y. s5 = s1 @ y" "\<exists>y. s5 = s2 @ y" "\<exists>y. s5 = s3 @ y" "\<exists>y. s5 = s4 @ y"
    "\<exists>y. s5 = s5 @ y"
    using ext by auto
  then have names: "string_at s5 (unat n1) = ok (str ''#address-cells'')" "string_at s5 (unat n2) = ok (str ''#size-cells'')"
    "string_at s5 (unat n3) = ok (str ''ranges'')" "string_at s5 (unat n4) = ok (str ''reg'')"
    "string_at s5 (unat n5) = ok (str ''no-map'')"
    using at str_names_ok by metis+
  have c: "child = block_bytes (child_block cells r n4 n5)"
    using child unfolding firmware_child_eq by (auto simp: rbind_ok_iff)
  define tins where "tins = (if reserved_memory ed = None then parent_block cells r n1 n2 n3 n4 n5 else child_block cells r n4 n5)"
  have i: "insertion = block_bytes tins"
    "off = (if reserved_memory ed = None then root_end ed else rm_end (the (reserved_memory ed)))"
    using ins firmware_parent_eq [OF c, of n1 n2 n3] c by (auto simp: tins_def split: option.splits)
  have b: "block s5 tins"
    using parent_block_block [OF names] child_block_block [OF names(4,5)] by (simp add: tins_def)
  have le: "off \<le> length struct" "before = take off struct" "after = drop off struct"
    using sl by (auto simp: slice_def get_range_def split: if_splits)
  have "length (block_bytes tins) \<le> 200"
    using length_parent_block [of cells r n1 n2 n3 n4 n5] length_child_block [of cells r n4 n5]
    by (simp add: tins_def)
  moreover have "length x = 45"
    using ext x(1) by (auto simp: str_def)
  ultimately show thesis
    using that [of x tins off] b out i le x(1)
    by (simp add: tins_def cells_def child_block_tokens parent_block_tokens)
qed

section \<open>The patched tree\<close>

lemma parse_replace:
  assumes parse: "layout_parse source = ok l" and src: "small source"
    and len: "length struct = length (structure_block l)"
  defines "out \<equiv> take (structure_offset l) source @ struct
      @ drop (structure_offset l + length struct) (take (total_size l) source)"
  shows "copy_into (take (total_size l) source) (structure_offset l) (structure_offset l + length struct) struct = ok out"
    "layout_parse out = ok (l\<lparr>l_source := out, structure_block := struct\<rparr>)"
proof -
  obtain tot lc so sto ro ss sts re where f:
    "read_u32 source 0 = ok MAGIC" "read_u32 source 20 = ok 17" "read_u32 source 24 = ok lc" "lc \<le> 17"
    "read_usize source 4 = ok tot" "read_usize source 8 = ok so"
    "read_usize source 12 = ok sto" "read_usize source 16 = ok ro" "read_usize source 36 = ok ss"
    "read_usize source 32 = ok sts" "4 dvd so" "4 dvd sto" "8 dvd ro"
    and b: "40 \<le> ro" "re \<le> so" "so + ss \<le> sto" "sto + sts \<le> tot" "ro \<le> re" "tot \<le> length source"
    and rm: "res_map (take (re - ro) (drop ro source))"
    and l: "l = \<lparr>l_source = source, total_size = tot, reservations = take (re - ro) (drop ro source),
      structure_offset = so, structure_block = take ss (drop so source), strings_block = take sts (drop sto source)\<rparr>"
    using parse unfolding layout_parse_ok_iff [OF src] by blast
  have ss: "length struct = ss"
    using len l b by simp
  have out: "out = take so source @ struct @ drop (so + ss) (take tot source)"
    using ss l by (simp add: out_def)
  show "copy_into (take (total_size l) source) (structure_offset l) (structure_offset l + length struct) struct = ok out"
  proof -
    have "ss \<le> tot - so" "so \<le> tot"
      using b by linarith+
    then show ?thesis
      using b ss l out by (simp add: copy_into_def get_range_def min_def)
  qed
  have len_out: "length out = tot"
    using b ss out by simp
  have small_out: "small out"
    using len_out b src by linarith
  have w: "word_at out i = word_at source i" if "i + 4 \<le> 40" for i
    using that b out by (simp add: word_at_append word_at_take)
  have hdr: "read_u32 out 0 = ok MAGIC" "read_u32 out 20 = ok 17" "read_u32 out 24 = ok lc"
    "read_usize out 4 = ok tot" "read_usize out 8 = ok so"
    "read_usize out 12 = ok sto" "read_usize out 16 = ok ro" "read_usize out 36 = ok ss" "read_usize out 32 = ok sts"
    using f src small_out w by (simp_all add: read_u32_word read_usize_word)
  have so: "length (take so source) = so"
    using b by simp
  have d: "take (re - ro) (drop ro out) = take (re - ro) (drop ro source)"
    "take sts (drop sto out) = take sts (drop sto source)" "take ss (drop so out) = struct"
    using b ss so unfolding out by (simp_all add: drop_take min_def)
  have "layout_parse out = ok \<lparr>l_source = out, total_size = tot, reservations = take (re - ro) (drop ro out),
      structure_offset = so, structure_block = take ss (drop so out), strings_block = take sts (drop sto out)\<rparr>"
    unfolding layout_parse_ok_iff [OF small_out]
    by (intro exI [of _ tot] exI [of _ lc] exI [of _ so] exI [of _ sto] exI [of _ ro] exI [of _ ss] exI [of _ sts]
        exI [of _ re] conjI hdr f b eq_refl [OF len_out [symmetric]] rm [folded d(1)] refl)
  then show "layout_parse out = ok (l\<lparr>l_source := out, structure_block := struct\<rparr>)"
    using d l by simp
qed

lemma view_block:
  assumes "layout_parse source = ok l" "small (structure_block l)"
    "structure_block l = block_bytes tcs @ to_be_bytes END @ nops k" "block (strings_block l) tcs"
  shows "dt_view source = ok (no_nops (map fst tcs))"
proof -
  have "lex_loop (structure_block l) (strings_block l) (0, []) = ok (map fst tcs)"
    unfolding lex_ok_iff [OF assms(2)] using assms(3,4) by blast
  then show ?thesis
    using assms(1) by (simp add: dt_view_def)
qed

lemma parsed_small:
  assumes "layout_parse source = ok l" "small source"
  shows "length (structure_block l) < 2 ^ 32" "length (strings_block l) < 2 ^ 32"
  using assms by (auto simp: layout_parse_ok_iff read_usize_word min_def)

lemma planned_offsets:
  assumes "block strs tcs" "plan_run hidden rname (0, planner_new) tcs = ok ed"
  shows "map_option rm_end (reserved_memory ed) = find_end is_reserved_ctx 0 [] tcs"
    "Some (root_end ed) = find_end is_root_ctx 0 [] tcs"
    "root_cells ed = cells_of (root_cell (str ''#address-cells'') None [] (map fst tcs))
       (root_cell (str ''#size-cells'') None [] (map fst tcs))"
  using plan_run_reserved [OF planner_in_new(1) assms] plan_run_root [OF planner_in_new(1) assms] planner_in_new(2)
  by (auto simp: planner_new_def)

lemma insert_view:
  assumes parse: "layout_parse source = ok l" and src: "small source"
    and t: "structure_block l = block_bytes tcs @ to_be_bytes END @ nops k" "block (strings_block l) tcs"
    and struct: "struct = block_bytes (hide_tokens hidden [] tcs) @ to_be_bytes END @ nops k"
    and ins: "block (strings_block l @ xtra) ins" "length (block_bytes ins) < 2 ^ 32" "length xtra < 2 ^ 32"
      "no_nops (map fst ins) = map fst ins"
    and off: "find_end P 0 [] tcs = Some off"
    and out: "rebuild l (take off struct @ block_bytes ins @ drop off struct) (strings_block l @ xtra) = ok out"
  shows "dt_view out = ok (splice_tokens hidden P (map fst ins) [] (no_nops (map fst tcs)))
    \<and> (\<exists>l'. layout_parse out = ok l' \<and> reservations l' = reservations l) \<and> small out"
proof -
  obtain pre c post where split: "tcs = pre @ (TEnd, c) # post" and o: "off = length (block_bytes pre)"
    and view: "splice_tokens hidden P (map fst ins) [] (no_nops (map fst tcs)) =
      visible hidden [] (no_nops (map fst pre)) @ map fst ins
      @ visible hidden (fold next_ctx (map fst pre) []) (no_nops (map fst ((TEnd, c) # post)))"
    using find_end_split [OF off, of hidden] ins(4) by fastforce
  let ?pre = "hide_tokens hidden [] pre"
  let ?post = "hide_tokens hidden (fold next_ctx (map fst pre) []) ((TEnd, c) # post)"
  let ?new = "?pre @ ins @ ?post"
  have bl: "block (strings_block l) pre" "block (strings_block l) ((TEnd, c) # post)"
    using t(2) split by simp_all
  have hide: "hide_tokens hidden [] tcs = ?pre @ ?post"
    unfolding split by (rule hide_tokens_append)
  have len: "length (block_bytes ?pre) = off"
    using hide_tokens_length [OF bl(1)] o by simp
  have bytes: "take off struct @ block_bytes ins @ drop off struct = block_bytes ?new @ to_be_bytes END @ nops k"
    unfolding struct hide block_bytes_simps(3) append_assoc using len by simp
  have "block (strings_block l @ xtra) ?new"
    using hide_tokens_block [OF bl(1)] hide_tokens_block [OF bl(2)] ins(1)
    by (simp only: block_simps(3) block_append)
  moreover have w: "4 dvd length (block_bytes tcs)" if "block strs tcs" for strs tcs
    using that by (induction tcs) (auto dest!: token_bytes_word intro: dvd_add)
  ultimately have dvd: "4 dvd length (block_bytes ?new @ to_be_bytes END @ nops k)"
    by (simp only: length_append length_to_be_bytes length_nops dvd_add dvd_refl dvd_triv_left)
  have "length struct = length (structure_block l)"
    using hide_tokens_length [OF t(2)] struct t(1) by simp
  then have small_new: "length (block_bytes ?new @ to_be_bytes END @ nops k) < 2 ^ 34"
    using parsed_small [OF parse src] ins(2) unfolding bytes [symmetric] by simp
  have "length (strings_block l @ xtra) < 2 ^ 62"
    using parsed_small [OF parse src] ins(3) by simp
  then obtain l' where l': "layout_parse out = ok l'" "structure_block l' = block_bytes ?new @ to_be_bytes END @ nops k"
    "strings_block l' = strings_block l @ xtra" "reservations l' = reservations l" "small out"
    using small_new out unfolding bytes by (rule_tac rebuild_ok_parse [OF parse src dvd]) auto
  have "dt_view out = ok (no_nops (map fst ?new))"
    using small_new l' \<open>block (strings_block l @ xtra) ?new\<close> by (intro view_block [OF l'(1)]) auto
  also have "no_nops (map fst ?new) = splice_tokens hidden P (map fst ins) [] (no_nops (map fst tcs))"
    unfolding view map_append filter_append hide_tokens_view ins(4) ..
  finally show ?thesis
    using l' by blast
qed

lemma parsed_end:
  assumes "layout_parse source = ok l" "small source"
  shows "structure_offset l + length (structure_block l) \<le> total_size l" "total_size l \<le> length source"
  using assms by (auto simp: layout_parse_ok_iff min_def)

lemma prepare_ok:
  assumes src: "small source" and p: "prepare_next_stage source reservation hidden = ok out"
  obtains l ed tcs k where "layout_parse source = ok l"
    "structure_block l = block_bytes tcs @ to_be_bytes END @ nops k" "block (strings_block l) tcs"
    "plan_run hidden (map_option reservation_node_name reservation) (0, planner_new) tcs = ok ed"
    "case reservation of
       None \<Rightarrow> out = take (structure_offset l) source @ (block_bytes (hide_tokens hidden [] tcs) @ to_be_bytes END @ nops k)
         @ drop (structure_offset l + length (structure_block l)) (take (total_size l) source)
     | Some r \<Rightarrow> add_firmware_reservation l ed (block_bytes (hide_tokens hidden [] tcs) @ to_be_bytes END @ nops k)
         r (reservation_node_name r) = ok out"
proof -
  from p obtain l ed struct where l: "layout_parse source = ok l"
    and ed: "plan_edits (structure_block l) (strings_block l) hidden (map_option reservation_node_name reservation) = ok ed"
    and nop: "nop_nodes (structure_block l) (hidden_nodes ed) = ok struct"
    and rest: "case reservation of
       None \<Rightarrow> rbind (slice source 0 (total_size l)) (\<lambda>out.
          rbind (us_add (structure_offset l) (length struct)) (\<lambda>e.
          copy_into out (structure_offset l) e struct)) = ok out
     | Some r \<Rightarrow> add_firmware_reservation l ed struct r (reservation_node_name r) = ok out"
    by (cases reservation) (auto simp: prepare_next_stage_def rbind_ok_iff Let_def split: if_splits)
  have "small (structure_block l)"
    using parsed_small [OF l src] by simp
  from plan_hides [OF this ed] nop obtain tcs k where
    t: "structure_block l = block_bytes tcs @ to_be_bytes END @ nops k" "block (strings_block l) tcs"
      "plan_run hidden (map_option reservation_node_name reservation) (0, planner_new) tcs = ok ed"
    and s: "struct = block_bytes (hide_tokens hidden [] tcs) @ to_be_bytes END @ nops k"
    by (metis outcome.inject sum.inject(2))
  have len: "length struct = length (structure_block l)"
    using nop by (rule nop_nodes_length)
  show thesis
    using rest layout_parse_total_size [OF l] parse_replace(1) [OF l src len] len s t
    by (intro that [OF l t]) (auto simp: rbind_ok_iff split: option.splits)
qed

lemma prepare_view:
  assumes "small source" and "prepare_next_stage source reservation hidden = ok out"
  shows "\<exists>ts l l'. dt_view source = ok ts \<and> dt_view out = ok (next_stage_view reservation hidden ts)
    \<and> layout_parse source = ok l \<and> layout_parse out = ok l' \<and> reservations l' = reservations l \<and> small out"
proof -
  obtain l ed tcs k where l: "layout_parse source = ok l"
    and t: "structure_block l = block_bytes tcs @ to_be_bytes END @ nops k" "block (strings_block l) tcs"
      "plan_run hidden (map_option reservation_node_name reservation) (0, planner_new) tcs = ok ed"
    and res: "case reservation of
       None \<Rightarrow> out = take (structure_offset l) source @ (block_bytes (hide_tokens hidden [] tcs) @ to_be_bytes END @ nops k)
         @ drop (structure_offset l + length (structure_block l)) (take (total_size l) source)
     | Some r \<Rightarrow> add_firmware_reservation l ed (block_bytes (hide_tokens hidden [] tcs) @ to_be_bytes END @ nops k)
         r (reservation_node_name r) = ok out"
    by (rule prepare_ok [OF assms])
  let ?ts = "no_nops (map fst tcs)"
  let ?struct = "block_bytes (hide_tokens hidden [] tcs) @ to_be_bytes END @ nops k"
  have small: "small (structure_block l)"
    using parsed_small [OF l assms(1)] by simp
  have len: "length ?struct = length (structure_block l)"
    using hide_tokens_length [OF t(2)] t(1) by simp
  have view: "dt_view source = ok ?ts"
    using view_block [OF l small t(1,2)] .
  note offs = planned_offsets [OF t(2,3)]
  have "dt_view out = ok (next_stage_view reservation hidden ?ts)
    \<and> (\<exists>l'. layout_parse out = ok l' \<and> reservations l' = reservations l) \<and> small out"
  proof (cases reservation)
    case None
    with res parse_replace(2) [OF l assms(1) len] len
    have l': "layout_parse out = ok (l\<lparr>l_source := out, structure_block := ?struct\<rparr>)"
      by simp
    have "dt_view out = ok (no_nops (map fst (hide_tokens hidden [] tcs)))"
      using hide_tokens_block [OF t(2)] small len by (intro view_block [OF l']) auto
    moreover have "length out \<le> length source"
      using None res parsed_end [OF l assms(1)] len by simp
    ultimately show ?thesis
      using None l' assms(1) by (simp add: next_stage_view_def hide_tokens_view)
  next
    case (Some r)
    with res have "add_firmware_reservation l ed ?struct r (reservation_node_name r) = ok out"
      by simp
    then obtain xtra ins off where ins: "block (strings_block l @ xtra) ins"
      "rebuild l (take off ?struct @ block_bytes ins @ drop off ?struct) (strings_block l @ xtra) = ok out"
      "length (block_bytes ins) < 2 ^ 32" "length xtra < 2 ^ 32"
      and o: "if reserved_memory ed = None
        then off = root_end ed \<and> map fst ins = reserved_memory_tokens (root_cells ed) r
        else off = rm_end (the (reserved_memory ed)) \<and> map fst ins = reservation_tokens (root_cells ed) r"
      by (rule add_firmware_reservation_ok)
    have off: "find_end (if reserved_memory ed = None then is_root_ctx else is_reserved_ctx) 0 [] tcs = Some off"
      using offs(1,2) o by (cases "reserved_memory ed") auto
    have new: "map fst ins = (if reserved_memory ed = None then reserved_memory_tokens (root_cells ed) r
        else reservation_tokens (root_cells ed) r)"
      using o by (simp split: if_splits)
    then have nn: "no_nops (map fst ins) = map fst ins"
      by (simp add: reserved_memory_tokens_def reservation_tokens_def)
    have "reserved_memory ed = None \<longleftrightarrow> \<not> has_end is_reserved_ctx [] ?ts"
      using offs(1) find_end_has_end [of is_reserved_ctx 0 "[]" tcs] by auto
    with insert_view [OF l assms(1) t(1,2) refl ins(1,3,4) nn off ins(2)] show ?thesis
      unfolding Some next_stage_view_def new offs(3) by (simp add: root_cell_no_nops Let_def)
  qed
  then show ?thesis
    using view l by blast
qed

text \<open>
  C12: the tree handed to the next stage is the tree of the firmware with the requested edits. When
  \<open>prepare_next_stage\<close> returns a tree, a reader of it sees the tokens of the source without the nodes
  at the hidden paths and what they contain; with a reservation, also the node of the firmware
  with its name, its range in the cells of the root and \<open>no-map\<close>, before the end of the reserved
  memory (where that would be, when it is hidden itself), or inside a new \<open>reserved-memory\<close> node at
  the end of the root. The reservation map is kept.
\<close>

theorem next_stage_tree:
  assumes "length source < 2 ^ 63" and "prepare_next_stage source reservation hidden = ok out"
  shows "\<exists>ts l l'. dt_view source = ok ts \<and> dt_view out = ok (next_stage_view reservation hidden ts)
    \<and> layout_parse source = ok l \<and> layout_parse out = ok l' \<and> reservations l' = reservations l"
  using prepare_view [OF assms] by blast

section \<open>No panic\<close>

lemma rebuild_no_Panic:
  assumes "layout_parse source = ok l" "small source" "length struct < 2 ^ 62" "length strs < 2 ^ 62"
  shows "rebuild l struct strs \<noteq> Panic"
  using assms(3,4) parsed_reservations(3) [OF assms(1,2)] layout_parse_total_size [OF assms(1)]
  by (subst rebuild_eq) (auto simp: rbind_Panic_iff)

lemma firmware_child_no_Panic [simp]:
  "firmware_child (reservation_node_name r) cells r reg_name no_map_name \<noteq> Panic"
  by (auto simp: firmware_child_eq rbind_Panic_iff)

lemma firmware_child_ok:
  "firmware_child (reservation_node_name r) cells r reg_name no_map_name = ok child \<Longrightarrow>
   child = block_bytes (child_block cells r reg_name no_map_name)"
  by (auto simp: firmware_child_eq rbind_ok_iff)

lemma add_firmware_reservation_no_Panic:
  assumes parse: "layout_parse source = ok l" "small source" and len: "length struct < 2 ^ 32"
    and offs: "root_end ed \<le> length struct" "\<And>rm. reserved_memory ed = Some rm \<Longrightarrow> rm_end rm \<le> length struct"
  shows "add_firmware_reservation l ed struct r (reservation_node_name r) \<noteq> Panic"
proof -
  let ?cells = "case reserved_memory ed of Some node \<Rightarrow> rm_cells node | None \<Rightarrow> root_cells ed"
  have widths: "validate_cell_widths cells \<noteq> Panic" for cells
    by (simp add: validate_cell_widths_def)
  have place: "(case reserved_memory ed of Some reserved \<Rightarrow> ok (rm_end reserved, child)
       | None \<Rightarrow> rbind (firmware_parent ?cells n1 n2 n3 child) (\<lambda>parent. ok (root_end ed, parent))) = m \<Longrightarrow>
     \<exists>off ins. m = ok (off, ins) \<and> off \<le> length struct \<and> length ins \<le> 200"
    if "firmware_child (reservation_node_name r) ?cells r n4 n5 = ok child" for child n1 n2 n3 n4 n5 m
    using firmware_parent_eq [OF firmware_child_ok [OF that], of n1 n2 n3] firmware_child_ok [OF that] offs
      length_parent_block [of ?cells r n1 n2 n3 n4 n5] length_child_block [of ?cells r n4 n5]
    by (cases "reserved_memory ed") auto
  have strs: "length s5 < 2 ^ 62" if "append_string (strings_block l) (str ''#address-cells'') = ok (s1, n1)"
    "append_string s1 (str ''#size-cells'') = ok (s2, n2)" "append_string s2 (str ''ranges'') = ok (s3, n3)"
    "append_string s3 (str ''reg'') = ok (s4, n4)" "append_string s4 (str ''no-map'') = ok (s5, n5)"
    for s1 n1 s2 n2 s3 n3 s4 n4 s5 n5
    using that parsed_small(2) [OF parse] by (auto simp: append_string_ok_iff str_def)
  have tail: "rbind (us_add (length struct) (length ins)) (\<lambda>_. rbind (slice struct 0 off) (\<lambda>before.
      rbind (slice struct off (length struct)) (\<lambda>after. rebuild l (before @ ins @ after) s5))) \<noteq> Panic"
    if "off \<le> length struct" "length ins \<le> 200" "length s5 < 2 ^ 62" for off ins s5
    using that len rebuild_no_Panic [OF parse, of "take off struct @ ins @ drop off struct" s5]
    by (auto simp: rbind_Panic_iff)
  show ?thesis
  proof
    assume "add_firmware_reservation l ed struct r (reservation_node_name r) = Panic"
    then obtain s1 n1 s2 n2 s3 n3 s4 n4 s5 n5 child where
      a: "append_string (strings_block l) (str ''#address-cells'') = ok (s1, n1)"
      "append_string s1 (str ''#size-cells'') = ok (s2, n2)" "append_string s2 (str ''ranges'') = ok (s3, n3)"
      "append_string s3 (str ''reg'') = ok (s4, n4)" "append_string s4 (str ''no-map'') = ok (s5, n5)"
      and child: "firmware_child (reservation_node_name r) ?cells r n4 n5 = ok child"
      and rest: "rbind (case reserved_memory ed of Some reserved \<Rightarrow> ok (rm_end reserved, child)
         | None \<Rightarrow> rbind (firmware_parent ?cells n1 n2 n3 child) (\<lambda>parent. ok (root_end ed, parent)))
         (\<lambda>(off, ins). rbind (us_add (length struct) (length ins)) (\<lambda>_. rbind (slice struct 0 off) (\<lambda>before.
         rbind (slice struct off (length struct)) (\<lambda>after. rebuild l (before @ ins @ after) s5)))) = Panic"
      unfolding add_firmware_reservation_def Let_def
      by (auto simp: rbind_Panic_iff [of "append_string _ _"] rbind_Panic_iff [of "firmware_child _ _ _ _ _"]
          rbind_Panic_iff [of "validate_cell_widths _"] widths split: if_splits)
    from place [OF child refl, of n1 n2 n3] obtain off ins where
      "(case reserved_memory ed of Some reserved \<Rightarrow> ok (rm_end reserved, child)
         | None \<Rightarrow> rbind (firmware_parent ?cells n1 n2 n3 child) (\<lambda>parent. ok (root_end ed, parent))) = ok (off, ins)"
      "off \<le> length struct" "length ins \<le> 200"
      by blast
    with rest tail [OF this(2,3) strs [OF a]] show False
      by simp
  qed
qed

text \<open>
  C14: no device tree makes the firmware panic: for every sequence of bytes, validation returns a
  result, and so does \<open>prepare_next_stage\<close>, for every list of paths and every reservation. No slice,
  index, string truncation, copy or debug assertion in them fails.
\<close>

theorem device_tree_no_panic:
  assumes "length source < 2 ^ 63"
  shows "validate source \<noteq> Panic \<and> prepare_next_stage source reservation hidden \<noteq> Panic"
proof
  show "validate source \<noteq> Panic"
    unfolding validate_def validate_structure_def
    by (intro rbind_no_Panic layout_parse_no_Panic validate_safe.loop_safe validation_inv_init)
  show "prepare_next_stage source reservation hidden \<noteq> Panic"
  proof
    assume P: "prepare_next_stage source reservation hidden = Panic"
    let ?name = "map_option reservation_node_name reservation"
    have plan: "plan_edits struct strs hidden rname \<noteq> Panic" for struct strs rname
      unfolding plan_edits_def by (rule plan_safe.loop_safe) (simp add: planner_inv_new)
    obtain l ed struct where l: "layout_parse source = ok l"
      and ed: "plan_edits (structure_block l) (strings_block l) hidden ?name = ok ed"
      and nop: "nop_nodes (structure_block l) (hidden_nodes ed) = ok struct"
      and rest: "case reservation of
         None \<Rightarrow> rbind (slice source 0 (total_size l)) (\<lambda>out.
            rbind (us_add (structure_offset l) (length struct)) (\<lambda>e.
            copy_into out (structure_offset l) e struct)) = Panic
       | Some r \<Rightarrow> add_firmware_reservation l ed struct r (reservation_node_name r) = Panic"
      using P plan
      by (cases reservation) (auto simp: prepare_next_stage_def rbind_Panic_iff [of "layout_parse _"] Let_def
          rbind_Panic_iff [of "plan_edits _ _ _ _"] rbind_Panic_iff [of "nop_nodes _ _"] split: if_splits)
    have small: "small (structure_block l)" "length struct < 2 ^ 32"
      using parsed_small [OF l assms] nop_nodes_length [OF nop] by simp_all
    obtain tcs k where t: "structure_block l = block_bytes tcs @ to_be_bytes END @ nops k"
      "block (strings_block l) tcs" "plan_run hidden ?name (0, planner_new) tcs = ok ed"
      by (rule plan_hides [OF small(1) ed])
    have offs: "root_end ed \<le> length struct" "\<And>rm. reserved_memory ed = Some rm \<Longrightarrow> rm_end rm \<le> length struct"
      using planned_offsets(1,2) [OF t(2,3)] find_end_le [of is_root_ctx 0 "[]" tcs "root_end ed"]
        find_end_le [of is_reserved_ctx 0 "[]" tcs] nop_nodes_length [OF nop] t(1)
      by (auto intro!: trans_le_add1)
    show False
    proof (cases reservation)
      case None
      with rest layout_parse_total_size [OF l] show False
        by (auto simp: rbind_Panic_iff copy_into_safe)
    next
      case (Some r)
      with rest add_firmware_reservation_no_Panic [OF l assms small(2) offs] show False
        by simp
    qed
  qed
qed

end
