(* ===== verification/Fdt_Valid.thy ===== *)
theory Fdt_Valid
  imports Fdt_Correct
begin

text \<open>
  The well-formed trees as a predicate on tokens, independent of offsets and of the fixed array of
  the validator: one root with an empty name, balanced nodes at most 63 deep, properties before
  children, cell counts declared once and \<open>reg\<close> values of whole tuples. Validation decides it, and
  patching keeps it.
\<close>

section \<open>Well-formed token streams\<close>

type_synonym vstate = "bool \<times> ValidationNode list"

definition reg_ok :: "CellCounts \<Rightarrow> bytes \<Rightarrow> bool" where
  "reg_ok cells v \<longleftrightarrow> (let n = unat (address_cells cells) + unat (size_cells cells) in
     n < 2 ^ 32 \<and> 0 < n \<and> n * 4 dvd length v)"

definition wf_property :: "CellCounts \<Rightarrow> ValidationNode \<Rightarrow> bytes \<Rightarrow> bytes \<Rightarrow> ValidationNode option" where
  "wf_property parent n name v =
     (if name = str ''#address-cells'' then
        if length v = 4 \<and> v_address_cells n = None then Some (n\<lparr>v_address_cells := Some (from_be_bytes v)\<rparr>) else None
      else if name = str ''#size-cells'' then
        if length v = 4 \<and> v_size_cells n = None then Some (n\<lparr>v_size_cells := Some (from_be_bytes v)\<rparr>) else None
      else if name = str ''reg'' then if reg_ok parent v then Some n else None
      else Some n)"

definition parent_cells :: "ValidationNode list \<Rightarrow> CellCounts" where
  "parent_cells ns = (case ns of [] \<Rightarrow> default_cells | p # _ \<Rightarrow> vnode_cells p)"

fun wf_step :: "token \<Rightarrow> vstate \<Rightarrow> vstate option" where
  "wf_step (TBegin name) (seen, st) =
     (case st of [] \<Rightarrow> if seen \<or> name \<noteq> [] then None else Some (True, [vnode_new])
      | n # ns \<Rightarrow> if MAX_FDT_DEPTH \<le> length st then None
                 else Some (seen, vnode_new # n\<lparr>v_has_child := True\<rparr> # ns))"
| "wf_step (TProp name v) (seen, st) =
     (case st of [] \<Rightarrow> None
      | n # ns \<Rightarrow> if v_has_child n then None
                 else map_option (\<lambda>n. (seen, n # ns)) (wf_property (parent_cells ns) n name v))"
| "wf_step TEnd (seen, st) = (case st of [] \<Rightarrow> None | n # ns \<Rightarrow> Some (seen, ns))"
| "wf_step TNop s = Some s"
| "wf_step TFinish s = None"

fun wf_run :: "vstate \<Rightarrow> token list \<Rightarrow> bool" where
  "wf_run (seen, st) [] \<longleftrightarrow> seen \<and> st = []"
| "wf_run s (t # ts) = (case wf_step t s of None \<Rightarrow> False | Some s' \<Rightarrow> wf_run s' ts)"

definition well_formed :: "token list \<Rightarrow> bool" where
  "well_formed ts = wf_run (False, []) ts"

section \<open>The validator decides it\<close>

definition abs_state :: "validation \<Rightarrow> vstate" where
  "abs_state s = (root_seen s, rev (take (v_depth s) (v_nodes s)))"

lemma rev_take_Suc: "n < length xs \<Longrightarrow> rev (take (Suc n) xs) = xs ! n # rev (take n xs)"
  by (simp add: take_Suc_conv_app_nth)

lemma single_cell_iff: "single_cell v = ok c \<longleftrightarrow> length v = 4 \<and> c = from_be_bytes v"
  by (auto simp: single_cell_def read_u32_def us_add_def get_range_def)

lemma reg_length_iff: "validate_reg_length v cells = ok () \<longleftrightarrow> reg_ok cells v"
proof -
  have "n < 2 ^ 32 \<Longrightarrow> n * 4 < 2 ^ 64" for n :: nat
    by simp
  moreover have "unat c < 2 ^ 32" for c :: u32
    using unat_bound [of c] by simp
  ultimately show ?thesis
    by (auto simp: validate_reg_length_def reg_ok_def checked_add_def us_mul_def Let_def unat_add_no_ovf)
qed

lemma validate_begin_iff:
  assumes "validation_inv s"
  shows "validate_begin s name = ok s' \<longleftrightarrow>
    (if v_depth s = 0 then \<not> root_seen s \<and> name = [] \<and> s' = s\<lparr>root_seen := True, v_nodes := (v_nodes s)[0 := vnode_new], v_depth := 1\<rparr>
     else v_depth s < MAX_FDT_DEPTH \<and> s' = s\<lparr>v_nodes := (v_nodes s)[v_depth s - 1 := (v_nodes s ! (v_depth s - 1))\<lparr>v_has_child := True\<rparr>,
       v_depth s := vnode_new], v_depth := v_depth s + 1\<rparr>)"
  using assms by (auto simp: validate_begin_def rbind_ok_iff validation_inv_def MAX_FDT_DEPTH_def)

lemma abs_Begin:
  assumes inv: "validation_inv s" and b: "validate_begin s name = ok s'"
  shows "wf_step (TBegin name) (abs_state s) = Some (abs_state s')"
proof (cases "v_depth s")
  case 0
  have "v_nodes s \<noteq> []"
    using inv by (auto simp: validation_inv_def MAX_FDT_DEPTH_def)
  then show ?thesis
    using b 0 validate_begin_iff [OF inv] by (auto simp: abs_state_def take_Suc hd_conv_nth)
next
  case (Suc d)
  have d: "Suc d < length (v_nodes s)" and s': "s' = s\<lparr>v_nodes := (v_nodes s)[d := (v_nodes s ! d)\<lparr>v_has_child := True\<rparr>,
       Suc d := vnode_new], v_depth := Suc (Suc d)\<rparr>"
    using b Suc validate_begin_iff [OF inv] inv by (auto simp: validation_inv_def)
  have "rev (take (Suc (Suc d)) (v_nodes s')) = vnode_new # (v_nodes s ! d)\<lparr>v_has_child := True\<rparr> # rev (take d (v_nodes s))"
    using d s' by (simp add: rev_take_Suc)
  moreover have "rev (take (Suc d) (v_nodes s)) = v_nodes s ! d # rev (take d (v_nodes s))"
    using d by (simp add: rev_take_Suc)
  ultimately show ?thesis
    using d s' Suc inv by (simp add: abs_state_def validation_inv_def)
qed

lemma abs_Begin_None:
  assumes inv: "validation_inv s" and w: "wf_step (TBegin name) (abs_state s) \<noteq> None"
  shows "\<exists>s'. validate_begin s name = ok s'"
proof (cases "v_depth s")
  case 0
  with w show ?thesis
    unfolding validate_begin_iff [OF inv] by (auto simp: abs_state_def split: if_splits)
next
  case (Suc d)
  have "length (v_nodes s) = MAX_FDT_DEPTH" "v_depth s \<le> MAX_FDT_DEPTH"
    using inv by (simp_all add: validation_inv_def)
  then have "v_depth s < MAX_FDT_DEPTH"
    using w Suc by (auto simp: abs_state_def rev_take_Suc split: if_splits)
  then show ?thesis
    unfolding validate_begin_iff [OF inv] using Suc by auto
qed

lemma abs_Property:
  assumes inv: "validation_inv s" and d: "v_depth s = Suc d"
  shows "validate_property s name v = ok s' \<longleftrightarrow>
    (\<exists>n. wf_property (parent_cells (rev (take d (v_nodes s)))) (v_nodes s ! d) name v = Some n
       \<and> s' = s\<lparr>v_nodes := (v_nodes s)[d := n]\<rparr>)"
proof -
  have len: "d < length (v_nodes s)"
    using inv d by (simp add: validation_inv_def)
  have parent: "(if v_depth s = 1 then ok default_cells
      else rbind (index (v_nodes s) (v_depth s - 2)) (\<lambda>n. ok (vnode_cells n)))
      = ok (parent_cells (rev (take d (v_nodes s))))"
  proof (cases d)
    case (Suc k)
    then have "index (v_nodes s) k = ok (v_nodes s ! k)"
      using len by (simp add: index_def array_get_def)
    then have "rbind (index (v_nodes s) k) (\<lambda>n. ok (vnode_cells n)) = ok (vnode_cells (v_nodes s ! k))"
      by (simp only: fdt_bind_simps)
    then show ?thesis
      using Suc d len by (simp add: parent_cells_def rev_take_Suc)
  qed (simp add: d parent_cells_def)
  show ?thesis
    unfolding validate_property_def parent fdt_bind_simps
    using d len single_cell_iff [of v] reg_length_iff [of v]
    by (auto simp: rbind_ok_iff wf_property_def)
qed

lemma abs_offset [simp]: "abs_state (s\<lparr>v_offset := i\<rparr>) = abs_state s"
  by (simp add: abs_state_def)

lemma abs_stack:
  assumes "validation_inv s" "v_depth s = Suc d"
  shows "abs_state s = (root_seen s, v_nodes s ! d # rev (take d (v_nodes s)))"
  using assms by (simp add: abs_state_def rev_take_Suc validation_inv_def)

lemma abs_step:
  assumes inv: "validation_inv s" and t: "t \<noteq> TFinish"
  shows "(\<exists>s'. validate_step t a e s = ok s' \<and> abs_state s' = \<sigma>) \<longleftrightarrow> wf_step t (abs_state s) = Some \<sigma>"
proof (cases t)
  case (TBegin name)
  show ?thesis
  proof
    assume "\<exists>s'. validate_step t a e s = ok s' \<and> abs_state s' = \<sigma>"
    then show "wf_step t (abs_state s) = Some \<sigma>"
      using TBegin abs_Begin [OF inv] by (auto simp: rbind_ok_iff)
  next
    assume w: "wf_step t (abs_state s) = Some \<sigma>"
    then obtain s' where "validate_begin s name = ok s'"
      using TBegin abs_Begin_None [OF inv] by (metis option.distinct(1))
    then show "\<exists>s'. validate_step t a e s = ok s' \<and> abs_state s' = \<sigma>"
      using w TBegin abs_Begin [OF inv] by (auto simp: rbind_ok_iff)
  qed
next
  case (TProp name v)
  show ?thesis
  proof (cases "v_depth s")
    case (Suc d)
    have d: "d < length (v_nodes s)"
      using inv Suc by (simp add: validation_inv_def)
    have "abs_state (s\<lparr>v_nodes := (v_nodes s)[d := n]\<rparr>) = (root_seen s, n # rev (take d (v_nodes s)))" for n
      using Suc d by (simp add: abs_state_def rev_take_Suc)
    then show ?thesis
      unfolding TProp validate_step.simps abs_stack [OF inv Suc]
      using Suc d by (auto simp: rbind_ok_iff abs_Property [OF inv Suc])
  qed (simp add: TProp abs_state_def)
next
  case TEnd
  show ?thesis
  proof (cases "v_depth s")
    case (Suc d)
    then show ?thesis
      unfolding TEnd validate_step.simps abs_stack [OF inv Suc] by (auto simp: abs_state_def)
  qed (simp add: TEnd abs_state_def)
qed (use t in auto)

lemma validate_run_iff:
  "validation_inv s \<Longrightarrow> block strs tcs \<Longrightarrow>
   token_run v_offset validate_step validate_fin s tcs = ok () \<longleftrightarrow> wf_run (abs_state s) (map fst tcs)"
proof (induction tcs arbitrary: s)
  case Nil
  then show ?case
    by (auto simp: validate_fin_def abs_state_def validation_inv_def MAX_FDT_DEPTH_def)
next
  case (Cons tc tcs)
  obtain t c where tc: "tc = (t, c)" "t \<noteq> TFinish" "block strs tcs"
    using Cons.prems by (cases tc) auto
  note step = abs_step [OF Cons.prems(1) tc(2), of "v_offset s" "v_offset s + length c"]
  show ?case
  proof (cases "wf_step t (abs_state s)")
    case None
    then have "validate_step t (v_offset s) (v_offset s + length c) s \<noteq> ok s'" for s'
      using step by (metis option.distinct(1))
    then show ?thesis
      using None tc by (auto simp: rbind_ok_iff)
  next
    case (Some \<sigma>)
    then obtain s' where s': "validate_step t (v_offset s) (v_offset s + length c) s = ok s'" "abs_state s' = \<sigma>"
      using step by blast
    then show ?thesis
      using Some Cons.IH [OF validate_step_inv [OF Cons.prems(1) s'(1)] tc(3)] tc by simp
  qed
qed

lemma wf_run_no_nops: "wf_run s (no_nops ts) = wf_run s ts"
  by (induction ts arbitrary: s) (auto split: option.splits)

lemma validate_view:
  assumes "layout_parse source = ok l" "small source"
  shows "validate source = ok () \<longleftrightarrow> (\<exists>ts. dt_view source = ok ts \<and> well_formed ts)"
proof -
  have small: "small (structure_block l)"
    using parsed_small [OF assms] by simp
  have init: "abs_state validate_init = (False, [])"
    by (simp add: abs_state_def validate_init_def)
  have "validate source = ok () \<longleftrightarrow> (\<exists>tcs k. structure_block l = block_bytes tcs @ to_be_bytes END @ nops k
      \<and> block (strings_block l) tcs \<and> well_formed (map fst tcs))"
    using assms(1) validate_ok_iff [OF small] validate_run_iff [OF validation_inv_init] init
    by (auto simp: validate_def well_formed_def)
  also have "\<dots> \<longleftrightarrow> (\<exists>ts. lex_loop (structure_block l) (strings_block l) (0, []) = ok ts \<and> well_formed ts)"
    unfolding lex_ok_iff [OF small] by blast
  also have "\<dots> \<longleftrightarrow> (\<exists>ts. dt_view source = ok ts \<and> well_formed ts)"
    using assms(1) by (auto simp: dt_view_def rbind_ok_iff well_formed_def wf_run_no_nops)
  finally show ?thesis .
qed

section \<open>Hiding keeps it\<close>

text \<open>The state of the patched stream: the open nodes that are not hidden, with fewer children.\<close>

definition node_le :: "ValidationNode \<Rightarrow> ValidationNode \<Rightarrow> bool" where
  "node_le n' n \<longleftrightarrow> v_address_cells n' = v_address_cells n \<and> v_size_cells n' = v_size_cells n
     \<and> (v_has_child n' \<longrightarrow> v_has_child n)"

fun vis_rel :: "bytes list \<Rightarrow> bytes list \<Rightarrow> ValidationNode list \<Rightarrow> ValidationNode list \<Rightarrow> bool" where
  "vis_rel hidden [] [] st' \<longleftrightarrow> st' = []"
| "vis_rel hidden (c # ctx) (n # st) st' \<longleftrightarrow>
     (if hidden_ctx hidden (c # ctx) then vis_rel hidden ctx st st'
      else case st' of [] \<Rightarrow> False | n' # st'' \<Rightarrow> node_le n' n \<and> vis_rel hidden ctx st st'')"
| "vis_rel hidden _ _ _ = False"

lemma vis_rel_length: "vis_rel hidden ctx st st' \<Longrightarrow> length st = length ctx \<and> length st' \<le> length st"
  by (induction hidden ctx st st' rule: vis_rel.induct) (auto split: if_splits list.splits)

lemma vis_rel_parent:
  "vis_rel hidden (c # ctx) (n # st) st' \<Longrightarrow> vis_rel hidden (c # ctx) (n\<lparr>v_has_child := True\<rparr> # st) st'"
  by (auto simp: node_le_def split: if_splits list.splits)

lemma vis_rel_visible:
  "vis_rel hidden ctx st st' \<Longrightarrow> \<not> hidden_ctx hidden ctx \<Longrightarrow> list_all2 node_le st' st"
  by (induction hidden ctx st st' rule: vis_rel.induct) (auto split: if_splits list.splits)

lemma parent_cells_le: "list_all2 node_le ns' ns \<Longrightarrow> parent_cells ns' = parent_cells ns"
  by (cases ns; cases ns') (auto simp: parent_cells_def node_le_def vnode_cells_def)

lemma wf_property_le:
  assumes w: "wf_property p n name v = Some n1" and le: "node_le n' n"
  shows "\<exists>n1'. wf_property p n' name v = Some n1' \<and> node_le n1' n1"
proof -
  consider "name = str ''#address-cells''" | "name = str ''#size-cells''" | "name = str ''reg''"
    | "name \<notin> {str ''#address-cells'', str ''#size-cells'', str ''reg''}"
    by blast
  then show ?thesis
    by cases (use w le in \<open>auto simp: wf_property_def node_le_def split: if_splits\<close>)
qed

lemma hidden_step:
  assumes w: "wf_step t (seen, st) = Some (seen1, st1)" and r: "vis_rel hidden ctx st st'"
    and h: "hidden_ctx hidden (own_ctx t ctx)" and root: "str ''/'' \<notin> set hidden"
  shows "vis_rel hidden (next_ctx t ctx) st1 st' \<and> seen1 = seen"
proof (cases t)
  case (TBegin name)
  show ?thesis
  proof (cases st)
    case Nil
    with r have "ctx = []"
      by (cases ctx) auto
    with h root w Nil TBegin show ?thesis
      by (auto simp: own_ctx_def push_path_def split: if_splits)
  next
    case (Cons n ns)
    with r obtain c cs where ctx: "ctx = c # cs"
      by (cases ctx) auto
    have "st1 = vnode_new # n\<lparr>v_has_child := True\<rparr> # ns" "seen1 = seen"
      using w TBegin Cons by (auto split: if_splits)
    moreover have "vis_rel hidden ctx (n\<lparr>v_has_child := True\<rparr> # ns) st'"
      using vis_rel_parent r Cons ctx by blast
    moreover have "hidden_ctx hidden (name # ctx)"
      using h TBegin by (simp add: own_ctx_def)
    ultimately show ?thesis
      using TBegin by (simp only: next_ctx.simps vis_rel.simps if_True)
  qed
next
  case (TProp name v)
  then obtain n ns n1 where "st = n # ns" "st1 = n1 # ns" "seen1 = seen"
    using w by (auto split: list.splits if_splits)
  then show ?thesis
    using r h TProp by (cases ctx) (auto simp: own_ctx_def)
next
  case TEnd
  then obtain n where "st = n # st1" "seen1 = seen"
    using w by (auto split: list.splits)
  then show ?thesis
    using r h TEnd by (cases ctx) (auto simp: own_ctx_def)
qed (use w r in auto)

lemma visible_step:
  assumes w: "wf_step t (seen, st) = Some (seen1, st1)" and r: "vis_rel hidden ctx st st'"
    and h: "\<not> hidden_ctx hidden (own_ctx t ctx)"
  shows "\<exists>st1'. wf_step t (seen, st') = Some (seen1, st1') \<and> vis_rel hidden (next_ctx t ctx) st1 st1'"
proof (cases t)
  case (TBegin name)
  show ?thesis
  proof (cases st)
    case Nil
    with r have "ctx = []" "st' = []"
      by (cases ctx; auto)+
    with h w Nil TBegin show ?thesis
      by (auto simp: own_ctx_def node_le_def split: if_splits)
  next
    case (Cons n ns)
    with r obtain c cs where ctx: "ctx = c # cs"
      by (cases ctx) auto
    have nh: "\<not> hidden_ctx hidden (c # cs)"
      using h TBegin ctx by (simp add: own_ctx_def)
    then obtain n' ns' where st': "st' = n' # ns'" "node_le n' n" "vis_rel hidden cs ns ns'"
      using r Cons ctx by (auto split: list.splits)
    have "st1 = vnode_new # n\<lparr>v_has_child := True\<rparr> # ns" "seen1 = seen" "length st < MAX_FDT_DEPTH"
      using w TBegin Cons by (auto split: if_splits)
    then show ?thesis
      using st' nh h TBegin ctx vis_rel_length [OF r] Cons by (auto simp: own_ctx_def node_le_def)
  qed
next
  case (TProp name v)
  then obtain n ns n1 where st: "st = n # ns" "st1 = n1 # ns" "seen1 = seen" "\<not> v_has_child n"
    "wf_property (parent_cells ns) n name v = Some n1"
    using w by (auto split: list.splits if_splits)
  obtain c cs where ctx: "ctx = c # cs"
    using r st by (cases ctx) auto
  have nh: "\<not> hidden_ctx hidden (c # cs)"
    using h TProp ctx by (simp add: own_ctx_def)
  then obtain n' ns' where st': "st' = n' # ns'" "node_le n' n" "vis_rel hidden cs ns ns'"
    using r st ctx by (auto split: list.splits)
  have "\<not> hidden_ctx hidden cs"
    using nh by simp
  then have "parent_cells ns' = parent_cells ns"
    using parent_cells_le vis_rel_visible [OF st'(3)] by blast
  moreover obtain n1' where "wf_property (parent_cells ns) n' name v = Some n1'" "node_le n1' n1"
    using wf_property_le [OF st(5) st'(2)] by blast
  moreover have "\<not> v_has_child n'"
    using st(4) st'(2) by (simp add: node_le_def)
  ultimately show ?thesis
    using TProp st st' nh ctx by auto
next
  case TEnd
  then obtain n where st: "st = n # st1" "seen1 = seen"
    using w by (auto split: list.splits)
  obtain c cs where ctx: "ctx = c # cs"
    using r st by (cases ctx) auto
  have "\<not> hidden_ctx hidden (c # cs)"
    using h TEnd ctx by (simp add: own_ctx_def)
  then show ?thesis
    using r st ctx TEnd by (auto split: list.splits)
qed (use w r in auto)

lemma wf_visible:
  assumes "str ''/'' \<notin> set hidden"
  shows "wf_run (seen, st) ts \<Longrightarrow> vis_rel hidden ctx st st' \<Longrightarrow> wf_run (seen, st') (visible hidden ctx ts)"
proof (induction ts arbitrary: seen st st' ctx)
  case Nil
  then show ?case
    by (cases ctx) auto
next
  case (Cons t ts)
  then obtain seen1 st1 where w: "wf_step t (seen, st) = Some (seen1, st1)" and run: "wf_run (seen1, st1) ts"
    by (auto split: option.splits)
  show ?case
  proof (cases "hidden_ctx hidden (own_ctx t ctx)")
    case True
    with hidden_step [OF w Cons.prems(2) True assms] Cons.IH run show ?thesis
      by auto
  next
    case False
    with visible_step [OF w Cons.prems(2) False] Cons.IH run show ?thesis
      by fastforce
  qed
qed

end
