(* ===== verification/Fdt_Keeps.thy ===== *)
theory Fdt_Keeps
  imports Fdt_Valid
begin

text \<open>
  Adding the reservation keeps a tree well-formed: the new node declares its range in the cells of
  its parent, which the plan and the validator count alike. With the hiding of \<open>Fdt_Valid\<close>, the tree
  for the next stage validates whenever the source does.
\<close>

section \<open>Running the new tokens\<close>

fun wf_steps :: "vstate \<Rightarrow> token list \<Rightarrow> vstate option" where
  "wf_steps s [] = Some s"
| "wf_steps s (t # ts) = Option.bind (wf_step t s) (\<lambda>s. wf_steps s ts)"

lemma wf_run_append:
  "wf_run s (xs @ ys) = (case wf_steps s xs of None \<Rightarrow> False | Some s' \<Rightarrow> wf_run s' ys)"
  by (induction xs arbitrary: s) (auto split: option.splits)

lemma wf_steps_append: "wf_steps s (xs @ ys) = Option.bind (wf_steps s xs) (\<lambda>s. wf_steps s ys)"
  by (induction xs arbitrary: s) (auto split: Option.bind_splits)

definition widths_ok :: "CellCounts \<Rightarrow> bool" where
  "widths_ok cells \<longleftrightarrow> address_cells cells \<in> {1, 2} \<and> size_cells cells \<in> {1, 2}"

lemma widths_ok_iff: "validate_cell_widths cells = ok () \<longleftrightarrow> widths_ok cells"
proof -
  have "1 \<le> c \<and> c \<le> 2 \<longleftrightarrow> c = 1 \<or> c = 2" for c :: u32
    by (auto simp: word_le_nat_alt word_unat_eq_iff)
  then show ?thesis
    by (auto simp: validate_cell_widths_def widths_ok_def)
qed

lemma length_cells: "count \<in> {1, 2} \<Longrightarrow> length (cell_bytes count v) = 4 * unat count"
  by (auto simp: cell_bytes_def)

lemma reg_ok_cells:
  "widths_ok cells \<Longrightarrow> reg_ok cells (cell_bytes (address_cells cells) a @ cell_bytes (size_cells cells) b)"
  by (auto simp: widths_ok_def reg_ok_def length_cells Let_def)

lemma str_reg_distinct [simp]:
  "str ''reg'' \<noteq> str ''#address-cells''" "str ''reg'' \<noteq> str ''#size-cells''"
  "str ''no-map'' \<noteq> str ''#address-cells''" "str ''no-map'' \<noteq> str ''#size-cells''" "str ''no-map'' \<noteq> str ''reg''"
  "str ''ranges'' \<noteq> str ''#address-cells''" "str ''ranges'' \<noteq> str ''#size-cells''" "str ''ranges'' \<noteq> str ''reg''"
  by (simp_all add: str_def)

lemma reservation_steps:
  assumes "widths_ok cells" "vnode_cells n = cells" "length ns < 60"
  shows "wf_steps (seen, n # ns) (reservation_tokens cells r) = Some (seen, n\<lparr>v_has_child := True\<rparr> # ns)"
proof -
  have "vnode_cells (n\<lparr>v_has_child := True\<rparr>) = cells"
    using assms(2) by (simp add: vnode_cells_def)
  then show ?thesis
    using assms(3) reg_ok_cells [OF assms(1), of "res_address r" "res_size r"]
    by (simp add: reservation_tokens_def MAX_FDT_DEPTH_def wf_property_def parent_cells_def vnode_new_def)
qed

lemma reserved_memory_steps:
  assumes "widths_ok cells" "length ns < 50"
  shows "wf_steps (seen, n # ns) (reserved_memory_tokens cells r) = Some (seen, n\<lparr>v_has_child := True\<rparr> # ns)"
proof -
  define m where "m = \<lparr>v_address_cells = Some (address_cells cells), v_size_cells = Some (size_cells cells), v_has_child = False\<rparr>"
  have "wf_steps (seen, n # ns) (take 4 (reserved_memory_tokens cells r)) = Some (seen, m # n\<lparr>v_has_child := True\<rparr> # ns)"
    using assms(2)
    by (simp add: reserved_memory_tokens_def numeral_eq_Suc MAX_FDT_DEPTH_def wf_property_def vnode_new_def m_def)
  moreover have "wf_steps (seen, m # n\<lparr>v_has_child := True\<rparr> # ns) (reservation_tokens cells r)
      = Some (seen, m\<lparr>v_has_child := True\<rparr> # n\<lparr>v_has_child := True\<rparr> # ns)"
    using assms by (intro reservation_steps) (simp_all add: m_def vnode_cells_def unwrap_or_def)
  moreover have "reserved_memory_tokens cells r = take 4 (reserved_memory_tokens cells r) @ reservation_tokens cells r @ [TEnd]"
    by (simp add: reserved_memory_tokens_def numeral_eq_Suc)
  ultimately show ?thesis
    by (metis (no_types, lifting) bind.bind_lunit wf_steps_append append_assoc wf_steps.simps wf_step.simps(3) list.simps(5))
qed

section \<open>At the end of the root\<close>

lemma splice_step:
  assumes "\<not> (t = TEnd \<and> P ctx)" and s: "wf_step t (seen, st) = Some (seen1, st1)"
    and r: "vis_rel hidden ctx st st'" and root: "str ''/'' \<notin> set hidden"
    and cont: "\<And>st''. vis_rel hidden (next_ctx t ctx) st1 st'' \<Longrightarrow>
      wf_run (seen1, st'') (splice_tokens hidden P new (next_ctx t ctx) ts)"
  shows "wf_run (seen, st') (splice_tokens hidden P new ctx (t # ts))"
proof (cases "hidden_ctx hidden (own_ctx t ctx)")
  case True
  with assms(1) hidden_step [OF s r True root] cont show ?thesis
    by auto
next
  case False
  obtain st1' where "wf_step t (seen, st') = Some (seen1, st1')" "vis_rel hidden (next_ctx t ctx) st1 st1'"
    using visible_step [OF s r False] by blast
  with assms(1) False cont show ?thesis
    by auto
qed

lemma wf_splice_root:
  assumes root: "str ''/'' \<notin> set hidden" and w: "widths_ok cells"
  shows "wf_run (seen, st) ts \<Longrightarrow> vis_rel hidden ctx st st' \<Longrightarrow>
    wf_run (seen, st') (splice_tokens hidden is_root_ctx (reserved_memory_tokens cells r) ctx ts)"
proof (induction ts arbitrary: seen st st' ctx)
  case Nil
  then show ?case
    by (cases ctx) auto
next
  case (Cons t ts)
  then obtain seen1 st1 where s: "wf_step t (seen, st) = Some (seen1, st1)" and run: "wf_run (seen1, st1) ts"
    by (auto split: option.splits)
  show ?case
  proof (cases "t = TEnd \<and> is_root_ctx ctx")
    case True
    then obtain c where ctx: "ctx = [c]"
      by (auto simp: is_root_ctx_def length_Suc_conv)
    have nh: "\<not> hidden_ctx hidden [c]"
      using root by (simp add: push_path_def)
    then obtain n n' where st: "st = [n]" "st' = [n']"
      using Cons.prems(2) ctx by (cases st; cases st') (auto split: if_splits elim: vis_rel.elims)
    have "wf_run (seen, []) (visible hidden [] ts)"
      using wf_visible [OF root, of seen "[]" ts "[]" "[]"] run s True st by simp
    then show ?thesis
      using True ctx nh st reserved_memory_steps [OF w, of "[]" seen n' r]
      by (simp add: wf_run_append own_ctx_def del: hidden_ctx.simps)
  next
    case False
    show ?thesis
      using Cons.IH [OF run] by (rule splice_step [where P = is_root_ctx, OF False s Cons.prems(2) root])
  qed
qed

section \<open>At the end of the reserved memory\<close>

text \<open>The plan and the validator see the same cells.\<close>

definition same_cells :: "OpenNode list \<Rightarrow> ValidationNode list \<Rightarrow> bool" where
  "same_cells ns st \<longleftrightarrow>
     list_all2 (\<lambda>n v. n_address_cells n = v_address_cells v \<and> n_size_cells n = v_size_cells v) ns st"

lemma same_cells_step:
  assumes p: "plan_step hidden rname t i e (i, pl) = ok (e, pl')" and w: "wf_step t (seen, st) = Some (seen1, st1)"
    and s: "same_cells (stack pl) st"
  shows "same_cells (stack pl') st1"
proof (cases t)
  case (TBegin name)
  then obtain n where n: "stack pl' = n # stack pl" "n_address_cells n = None" "n_size_cells n = None"
    using p by (auto simp: rbind_ok_iff begin_node_def Let_def split: if_splits)
  show ?thesis
    using w s n TBegin by (cases st) (auto simp: same_cells_def vnode_new_def list_all2_Cons2 split: if_splits)
next
  case (TProp name v)
  then obtain n ns n' where n: "stack pl = n # ns" "node_record_property n name v = ok n'" "stack pl' = n' # ns"
    using p by (auto simp: rbind_ok_iff planner_record_property_def split: list.splits)
  obtain m ms m' where m: "st = m # ms" "wf_property (parent_cells ms) m name v = Some m'" "st1 = m' # ms"
    using w TProp by (auto split: list.splits if_splits)
  have "n_address_cells n' = (if name = str ''#address-cells'' then Some (from_be_bytes v) else n_address_cells n)"
    "n_size_cells n' = (if name = str ''#size-cells'' then Some (from_be_bytes v) else n_size_cells n)"
    using n(2) by (auto simp: node_record_property_def rbind_ok_iff dest!: single_cell_ok split: if_splits)
  moreover have "v_address_cells m' = (if name = str ''#address-cells'' then Some (from_be_bytes v) else v_address_cells m)"
    "v_size_cells m' = (if name = str ''#size-cells'' then Some (from_be_bytes v) else v_size_cells m)"
    using m(2) by (auto simp: wf_property_def split: if_splits)
  ultimately show ?thesis
    using s n m by (simp add: same_cells_def)
next
  case TEnd
  then have "end_node pl i e = ok pl'"
    using p by (auto simp: rbind_ok_iff)
  then have "\<exists>n. stack pl = n # stack pl'"
    by (auto simp: end_node_def Let_def rbind_ok_iff split: list.splits if_splits)
  then show ?thesis
    using w s TEnd by (auto simp: same_cells_def split: list.splits)
qed (use p w s in auto)

lemma same_cells_eq: "same_cells (n # ns) (v # vs) \<Longrightarrow> node_cells n = vnode_cells v"
  by (simp add: same_cells_def node_cells_def vnode_cells_def)

lemma plan_run_closed:
  "planner_in hidden i pl ctx \<Longrightarrow> block strs tcs \<Longrightarrow> plan_run hidden rname (i, pl) tcs = ok ed \<Longrightarrow>
   p_root_end pl \<noteq> None \<and> ctx = [] \<longrightarrow> Some (root_cells ed) = p_root_cells pl"
proof (induction rule: plan_run_induct)
  case (Nil i pl ctx)
  then show ?case
    by (auto simp: planner_finish_def rbind_ok_iff split: if_splits)
next
  case (Cons i pl ctx t c tcs pl')
  show ?case
  proof (intro impI)
    assume a: "p_root_end pl \<noteq> None \<and> ctx = []"
    have "t \<noteq> TBegin name" "t \<noteq> TProp name v" "t \<noteq> TEnd" for name v
      using Cons.hyps(2) a begin_node_in(7) [OF Cons.hyps(1) _ Cons.hyps(3,4)]
        record_property_in(6) [OF Cons.hyps(1) _ Cons.hyps(3,4)] end_node_in(3) [OF Cons.hyps(1) _ Cons.hyps(3,4)]
      by (auto simp: rbind_ok_iff)
    then have "pl' = pl" "next_ctx t ctx = ctx"
      using Cons.hyps(2) by (cases t; simp)+
    with Cons.IH a show "Some (root_cells ed) = p_root_cells pl"
      by simp
  qed
qed

lemma plan_run_kept:
  "planner_in hidden i pl ctx \<Longrightarrow> block strs tcs \<Longrightarrow> plan_run hidden rname (i, pl) tcs = ok ed \<Longrightarrow>
   p_reserved_memory pl = Some rm \<longrightarrow> reserved_memory ed = Some rm"
proof (induction rule: plan_run_induct)
  case (Nil i pl ctx)
  then show ?case
    by (auto simp: planner_finish_def rbind_ok_iff split: if_splits)
next
  case (Cons i pl ctx t c tcs pl')
  show ?case
  proof
    assume a: "p_reserved_memory pl = Some rm"
    have "p_reserved_memory pl' = p_reserved_memory pl"
      using Cons.hyps(2) a begin_node_in(4) [OF Cons.hyps(1) _ Cons.hyps(3,4)]
        record_property_in(3) [OF Cons.hyps(1) _ Cons.hyps(3,4)] end_node_in(4) [OF Cons.hyps(1) _ Cons.hyps(3,4)]
      by (cases t) (auto simp: rbind_ok_iff split: if_splits)
    with Cons.IH a show "reserved_memory ed = Some rm"
      by simp
  qed
qed

text \<open>Once the root has a child, its cells are the ones the plan reports.\<close>

lemma plan_run_root_cells:
  "planner_in hidden i pl ctx \<Longrightarrow> block strs tcs \<Longrightarrow> plan_run hidden rname (i, pl) tcs = ok ed \<Longrightarrow>
   \<forall>seen st n. wf_run (seen, st @ [n]) (map fst tcs) \<and> same_cells (stack pl) (st @ [n]) \<and> v_has_child n
     \<longrightarrow> root_cells ed = vnode_cells n"
proof (induction rule: plan_run_induct)
  case (Nil i pl ctx)
  then show ?case
    by auto
next
  case (Cons i pl ctx t c tcs pl')
  show ?case
  proof (intro allI impI)
    fix seen st n
    assume a: "wf_run (seen, st @ [n]) (map fst ((t, c) # tcs)) \<and> same_cells (stack pl) (st @ [n]) \<and> v_has_child n"
    then obtain seen1 st1 where s: "wf_step t (seen, st @ [n]) = Some (seen1, st1)"
      and run: "wf_run (seen1, st1) (map fst tcs)"
      by (auto split: option.splits)
    have same: "same_cells (stack pl') st1"
      using same_cells_step [OF Cons.hyps(2) s] a by blast
    show "root_cells ed = vnode_cells n"
    proof (cases "t = TEnd \<and> st = []")
      case True
      then have e: "end_node pl i (i + length c) = ok pl'"
        using Cons.hyps(2) by (auto simp: rbind_ok_iff)
      obtain m where m: "stack pl = [m]"
        using a True by (auto simp: same_cells_def list_all2_Cons2)
      then have "length ctx = 1"
        using planner_in_ctx [OF Cons.hyps(1)] by simp
      then have "p_root_end pl' = Some i" "p_root_cells pl' = Some (node_cells m)" "next_ctx t ctx = []"
        using end_node_in(5) [OF Cons.hyps(1) e Cons.hyps(3,4)] m True by (auto simp: length_Suc_conv)
      then have "root_cells ed = node_cells m"
        using plan_run_closed [OF Cons.hyps(5,6,7)] by simp
      also have "\<dots> = vnode_cells n"
        using a m True same_cells_eq by auto
      finally show ?thesis .
    next
      case False
      then have "\<exists>st2 n2. st1 = st2 @ [n2] \<and> vnode_cells n2 = vnode_cells n \<and> v_has_child n2"
        using s a
        by (cases t; cases st) (auto simp: vnode_cells_def split: if_splits intro: exI [of _ "[vnode_new]"])
      with Cons.IH run same show ?thesis
        by metis
    qed
  qed
qed

lemma end_node_reserved_cells:
  "end_node pl i e = ok pl' \<Longrightarrow> p_reserved_memory pl = None \<Longrightarrow> p_reserved_memory pl' = Some rm \<Longrightarrow>
   rm_cells rm = node_cells (hd (stack pl))"
  by (auto simp: end_node_def Let_def rbind_ok_iff split: list.splits if_splits)

lemma inner_children_step:
  assumes "wf_step t (seen, st) = Some (seen1, st1)" "\<forall>n \<in> set (tl st). v_has_child n"
  shows "\<forall>n \<in> set (tl st1). v_has_child n"
  using assms by (cases t; cases st) (auto split: if_splits, (metis list.set_sel(2) tl_Nil empty_iff list.set(1))+)

lemma splice_reserved_here:
  assumes root: "str ''/'' \<notin> set hidden" and w: "widths_ok cells" and ctx: "is_reserved_ctx ctx"
    and r: "vis_rel hidden ctx st st'" and run: "wf_run (seen, tl st) ts"
    and cells: "vnode_cells (hd st) = cells" "vnode_cells (st ! 1) = cells" and child: "v_has_child (st ! 1)"
  shows "wf_run (seen, st') (reservation_tokens cells res @ visible hidden ctx (TEnd # ts))"
proof -
  have "length ctx = 2"
    using ctx by (simp add: is_reserved_ctx_def)
  then obtain c c0 where c: "ctx = [c, c0]"
    by (auto simp: length_Suc_conv numeral_eq_Suc)
  have len: "length st = 2"
    using vis_rel_length [OF r] c by simp
  then obtain n n0 where st: "st = [n, n0]"
    by (auto simp: length_Suc_conv numeral_eq_Suc)
  have nh: "\<not> hidden_ctx hidden [c0]"
    using root by (simp add: push_path_def)
  have le_cells: "vnode_cells m' = vnode_cells m" if "node_le m' m" for m' m
    using that by (simp add: node_le_def vnode_cells_def)
  show ?thesis
  proof (cases "hidden_ctx hidden ctx")
    case True
    then obtain n0' where st': "st' = [n0']" "node_le n0' n0"
      using r c st nh by (auto simp del: hidden_ctx.simps split: list.splits)
    have "vis_rel hidden [c0] [n0] [n0'\<lparr>v_has_child := True\<rparr>]"
      using nh st' child st by (simp add: node_le_def del: hidden_ctx.simps)
    then have "wf_run (seen, [n0'\<lparr>v_has_child := True\<rparr>]) (visible hidden [c0] ts)"
      using wf_visible [OF root, of seen "[n0]" ts "[c0]"] run st by simp
    moreover have "wf_steps (seen, [n0']) (reservation_tokens cells res) = Some (seen, [n0'\<lparr>v_has_child := True\<rparr>])"
      using w cells le_cells [OF st'(2)] st by (intro reservation_steps) simp_all
    ultimately show ?thesis
      using True c st'(1) by (simp add: wf_run_append own_ctx_def del: hidden_ctx.simps)
  next
    case False
    then obtain n' n0' where st': "st' = [n', n0']" "node_le n' n" "node_le n0' n0"
      using r c st nh by (auto simp del: hidden_ctx.simps split: list.splits)
    have "vis_rel hidden [c0] [n0] [n0']"
      using nh st' by (simp del: hidden_ctx.simps)
    then have "wf_run (seen, [n0']) (visible hidden [c0] ts)"
      using wf_visible [OF root, of seen "[n0]" ts "[c0]"] run st by simp
    moreover have "wf_steps (seen, [n', n0']) (reservation_tokens cells res) = Some (seen, [n'\<lparr>v_has_child := True\<rparr>, n0'])"
      using w cells le_cells [OF st'(2)] st by (intro reservation_steps) simp_all
    ultimately show ?thesis
      using False c st'(1) by (simp add: wf_run_append own_ctx_def del: hidden_ctx.simps)
  qed
qed

lemma wf_splice_reserved:
  assumes "planner_in hidden i pl ctx" "block strs tcs" "plan_run hidden rname (i, pl) tcs = ok ed"
    and rm: "reserved_memory ed = Some rm" "rm_cells rm = root_cells ed" "widths_ok (root_cells ed)"
    and root: "str ''/'' \<notin> set hidden"
  shows "\<forall>seen st st'. wf_run (seen, st) (map fst tcs) \<and> vis_rel hidden ctx st st' \<and> same_cells (stack pl) st
      \<and> (\<forall>n \<in> set (tl st). v_has_child n) \<and> p_reserved_memory pl = None \<longrightarrow>
    wf_run (seen, st') (splice_tokens hidden is_reserved_ctx (reservation_tokens (root_cells ed) res) ctx (map fst tcs))"
  using assms(1-3)
proof (induction rule: plan_run_induct)
  case (Nil i pl ctx)
  then show ?case
    by (auto, (case_tac ctx; auto)+)
next
  case (Cons i pl ctx t c tcs pl')
  show ?case
  proof (intro allI impI)
    fix seen st st'
    assume a: "wf_run (seen, st) (map fst ((t, c) # tcs)) \<and> vis_rel hidden ctx st st' \<and> same_cells (stack pl) st
      \<and> (\<forall>n \<in> set (tl st). v_has_child n) \<and> p_reserved_memory pl = None"
    then obtain seen1 st1 where s: "wf_step t (seen, st) = Some (seen1, st1)"
      and run: "wf_run (seen1, st1) (map fst tcs)" and r: "vis_rel hidden ctx st st'"
      by (auto split: option.splits)
    have same: "same_cells (stack pl') st1"
      using same_cells_step [OF Cons.hyps(2) s] a by blast
    show "wf_run (seen, st') (splice_tokens hidden is_reserved_ctx (reservation_tokens (root_cells ed) res) ctx
      (map fst ((t, c) # tcs)))"
    proof (cases "t = TEnd \<and> is_reserved_ctx ctx")
      case True
      then have e: "end_node pl i (i + length c) = ok pl'"
        using Cons.hyps(2) by (auto simp: rbind_ok_iff)
      have "length st = 2"
        using vis_rel_length [OF r] True by (simp add: is_reserved_ctx_def)
      then obtain n n0 where st: "st = [n, n0]"
        by (auto simp: length_Suc_conv numeral_eq_Suc)
      then have st1: "st1 = [n0]" "seen1 = seen" "v_has_child n0"
        using s a True by auto
      obtain rm' where "p_reserved_memory pl' = Some rm'"
        using end_node_in(4) [OF Cons.hyps(1) e Cons.hyps(3,4)] True by (auto simp: is_reserved_ctx_def)
      then have "rm_cells rm = node_cells (hd (stack pl))"
        using end_node_reserved_cells [OF e] a plan_run_kept [OF Cons.hyps(5,6,7), of rm'] rm(1) by auto
      also have "\<dots> = vnode_cells n"
        using a st by (auto simp: same_cells_def list_all2_Cons2 node_cells_def vnode_cells_def)
      finally have "vnode_cells n = root_cells ed"
        using rm(2) by simp
      moreover have "vnode_cells n0 = root_cells ed"
        using plan_run_root_cells [OF Cons.hyps(5,6,7)] run same st1 by (metis append_Nil)
      ultimately have "wf_run (seen, st') (reservation_tokens (root_cells ed) res @ visible hidden ctx (TEnd # map fst tcs))"
        using True st st1 run by (intro splice_reserved_here [OF root rm(3) _ r]) auto
      then show ?thesis
        using True by simp
    next
      case False
      have none: "p_reserved_memory pl' = None"
        using Cons.hyps(2) a False begin_node_in(4) [OF Cons.hyps(1) _ Cons.hyps(3,4)]
          record_property_in(3) [OF Cons.hyps(1) _ Cons.hyps(3,4)] end_node_in(4) [OF Cons.hyps(1) _ Cons.hyps(3,4)]
        by (cases t) (auto simp: rbind_ok_iff is_reserved_ctx_def split: if_splits)
      have "wf_run (seen, st') (splice_tokens hidden is_reserved_ctx (reservation_tokens (root_cells ed) res) ctx (t # map fst tcs))"
        by (rule splice_step [where P = is_reserved_ctx, OF False s r root])
          (use Cons.IH run same none inner_children_step [OF s] a in blast)
      then show ?thesis
        by simp
    qed
  qed
qed

section \<open>The tree for the next stage validates\<close>

lemma add_firmware_reservation_widths:
  "add_firmware_reservation l ed struct r name = ok out \<Longrightarrow> widths_ok (root_cells ed)
   \<and> (\<forall>rm. reserved_memory ed = Some rm \<longrightarrow> rm_cells rm = root_cells ed)"
  unfolding add_firmware_reservation_def widths_ok_iff [symmetric]
  by (auto simp: rbind_ok_iff Let_def split: if_splits option.splits)

lemma visible_no_nops: "visible hidden ctx (no_nops ts) = no_nops (visible hidden ctx ts)"
  by (induction ts arbitrary: ctx) auto

lemma splice_no_nops:
  "no_nops new = new \<Longrightarrow> splice_tokens hidden P new ctx (no_nops ts) = no_nops (splice_tokens hidden P new ctx ts)"
  by (induction ts arbitrary: ctx) (auto simp: visible_no_nops)

lemma next_stage_wf:
  assumes src: "small source" and p: "prepare_next_stage source reservation hidden = ok out"
    and ts: "dt_view source = ok ts" "well_formed ts"
  shows "well_formed (next_stage_view reservation hidden ts)"
proof -
  obtain l ed tcs k where l: "layout_parse source = ok l"
    and t: "structure_block l = block_bytes tcs @ to_be_bytes END @ nops k" "block (strings_block l) tcs"
      "plan_run hidden (map_option reservation_node_name reservation) (0, planner_new) tcs = ok ed"
    and res: "case reservation of
       None \<Rightarrow> out = take (structure_offset l) source @ (block_bytes (hide_tokens hidden [] tcs) @ to_be_bytes END @ nops k)
         @ drop (structure_offset l + length (structure_block l)) (take (total_size l) source)
     | Some r \<Rightarrow> add_firmware_reservation l ed (block_bytes (hide_tokens hidden [] tcs) @ to_be_bytes END @ nops k)
         r (reservation_node_name r) = ok out"
    by (rule prepare_ok [OF src p])
  have root: "str ''/'' \<notin> set hidden"
    using p by (auto simp: prepare_next_stage_def bad_hidden_path_def list_ex_iff split: if_splits)
  have "small (structure_block l)"
    using parsed_small [OF l src] by simp
  then have ts_eq: "ts = no_nops (map fst tcs)"
    using ts(1) view_block [OF l _ t(1,2)] by simp
  then have run: "wf_run (False, []) (map fst tcs)"
    using ts(2) by (simp add: well_formed_def wf_run_no_nops)
  note offs = planned_offsets [OF t(2,3)]
  have cells: "root_cells ed = cells_of (root_cell (str ''#address-cells'') None [] ts)
      (root_cell (str ''#size-cells'') None [] ts)"
    unfolding ts_eq root_cell_no_nops by (rule offs(3))
  have has: "has_end is_reserved_ctx [] ts \<longleftrightarrow> reserved_memory ed \<noteq> None"
    using offs(1) find_end_has_end [of is_reserved_ctx 0 "[]" tcs] ts_eq by auto
  show ?thesis
  proof (cases reservation)
    case None
    then show ?thesis
      using wf_visible [OF root, of False "[]" ts "[]" "[]"] ts(2) by (simp add: next_stage_view_def well_formed_def)
  next
    case (Some r)
    with res have w: "widths_ok (root_cells ed)" "\<And>rm. reserved_memory ed = Some rm \<Longrightarrow> rm_cells rm = root_cells ed"
      using add_firmware_reservation_widths by auto
    show ?thesis
    proof (cases "reserved_memory ed")
      case None
      have "wf_run (False, []) (splice_tokens hidden is_root_ctx (reserved_memory_tokens (root_cells ed) r) [] ts)"
        using wf_splice_root [OF root w(1), of False "[]" ts "[]" "[]"] ts(2) by (simp add: well_formed_def)
      then show ?thesis
        using Some None has cells by (simp add: next_stage_view_def well_formed_def)
    next
      case rm: (Some rm)
      have "wf_run (False, []) (splice_tokens hidden is_reserved_ctx (reservation_tokens (root_cells ed) r) [] (map fst tcs))"
        using wf_splice_reserved [OF planner_in_new(1) t(2,3) rm w(2) [OF rm] w(1) root] run
        by (simp add: planner_new_def same_cells_def)
      moreover have "splice_tokens hidden is_reserved_ctx (reservation_tokens (root_cells ed) r) [] ts
          = no_nops (splice_tokens hidden is_reserved_ctx (reservation_tokens (root_cells ed) r) [] (map fst tcs))"
        unfolding ts_eq by (rule splice_no_nops) (simp add: reservation_tokens_def)
      ultimately show ?thesis
        using Some rm has cells by (simp add: next_stage_view_def well_formed_def wf_run_no_nops)
    qed
  qed
qed

text \<open>
  C18: validation decides well-formedness: on every sequence of bytes, \<open>validate\<close> accepts exactly the
  trees whose header parses and whose tokens form one unnamed root with balanced nodes at most
  63 deep, properties before children, cell counts declared once and \<open>reg\<close> values of whole tuples.
\<close>

theorem validate_decides:
  assumes "length source < 2 ^ 63"
  shows "validate source = ok () \<longleftrightarrow> (\<exists>ts. dt_view source = ok ts \<and> well_formed ts)"
proof (cases "layout_parse source" rule: fdt_cases)
  case (Ok l)
  then show ?thesis
    using validate_view assms by blast
qed (simp_all add: validate_def dt_view_def)

text \<open>
  C13: well-formedness is preserved: when the source tree validates and \<open>prepare_next_stage\<close> returns a
  tree for any reservation and any paths, that tree validates too.
\<close>

theorem next_stage_validates:
  assumes "length source < 2 ^ 63" and "validate source = ok ()"
    and "prepare_next_stage source reservation hidden = ok out"
  shows "validate out = ok ()"
proof -
  obtain ts l' where "dt_view source = ok ts" "dt_view out = ok (next_stage_view reservation hidden ts)"
    and l': "layout_parse out = ok l'" "small out"
    using prepare_view [OF assms(1,3)] by blast
  moreover obtain ts' where "dt_view source = ok ts'" "well_formed ts'"
    using assms(1,2) validate_view by (cases "layout_parse source" rule: fdt_cases) (auto simp: validate_def)
  ultimately show ?thesis
    using next_stage_wf [OF assms(1,3)] validate_view [OF l'] by auto
qed

end
