(* ===== verification/Fdt_Example.thy ===== *)
theory Fdt_Example
  imports Fdt_Keeps
begin

text \<open>
  A concrete device tree, a root with \<open>#address-cells = <2>\<close> and one empty node \<open>a\<close>, on which the
  theorems of the device tree are applied: it validates, and it is patched by hiding \<open>/a\<close> and by
  reserving 256 KiB for the firmware at \<open>0x80000000\<close>.
\<close>

section \<open>The tree\<close>

definition example_tree :: bytes where
  "example_tree = concat (map to_be_bytes [0xd00dfeed, 116, 56, 100, 40, 17, 16, 0, 15, 44, 0, 0, 0, 0,
     1, 0, 3, 4, 0, 2, 1, 0x61000000, 2, 2, 9, 0x23616464, 0x72657373, 0x2d63656c, 0x6c730000])"

lemma example_tree_bytes:
  "example_tree = [208, 13, 254, 237, 0, 0, 0, 116, 0, 0, 0, 56, 0, 0, 0, 100, 0, 0, 0, 40,
     0, 0, 0, 17, 0, 0, 0, 16, 0, 0, 0, 0, 0, 0, 0, 15, 0, 0, 0, 44,
     0, 0, 0, 0, 0, 0, 0, 0, 0, 0, 0, 0, 0, 0, 0, 0,
     0, 0, 0, 1, 0, 0, 0, 0, 0, 0, 0, 3, 0, 0, 0, 4, 0, 0, 0, 0, 0, 0, 0, 2,
     0, 0, 0, 1, 97, 0, 0, 0, 0, 0, 0, 2, 0, 0, 0, 2, 0, 0, 0, 9,
     35, 97, 100, 100, 114, 101, 115, 115, 45, 99, 101, 108, 108, 115, 0, 0]"
  by (simp add: example_tree_def to_be_bytes_def)

definition example_strings :: bytes where
  "example_strings = str ''#address-cells'' @ [0]"

definition example_block :: "(token \<times> bytes) list" where
  "example_block =
     [(TBegin [], enc_begin []), (TProp (str ''#address-cells'') (to_be_bytes 2), enc_property 0 (to_be_bytes 2)),
      (TBegin (str ''a''), enc_begin (str ''a'')), (TEnd, to_be_bytes END_NODE), (TEnd, to_be_bytes END_NODE)]"

definition example_layout :: Layout where
  "example_layout = \<lparr>l_source = example_tree, total_size = 116, reservations = [0, 0, 0, 0, 0, 0, 0, 0, 0, 0, 0, 0, 0, 0, 0, 0],
     structure_offset = 56, structure_block = block_bytes example_block @ to_be_bytes END @ nops 0,
     strings_block = example_strings\<rparr>"

lemma example_reservations: "reservation_loop example_tree 116 40 = ok 56"
  by (subst reservation_loop.simps)
    (simp add: reservation_body_def example_tree_bytes checked_slice_def us_add_def get_range_def RESERVATION_ENTRY_SIZE_def)

lemma example_header:
  "read_u32 example_tree 0 = ok MAGIC" "read_u32 example_tree 20 = ok 17" "read_u32 example_tree 24 = ok 16"
  "read_usize example_tree 4 = ok 116" "read_usize example_tree 8 = ok 56" "read_usize example_tree 12 = ok 100"
  "read_usize example_tree 16 = ok 40" "read_usize example_tree 36 = ok 44" "read_usize example_tree 32 = ok 15"
  by (simp_all add: read_usize_def read_u32_def us_add_def get_range_def example_tree_bytes MAGIC_def)

lemma example_length [simp]: "length example_tree = 116"
  by (simp add: example_tree_bytes)

lemma replicate_small: "replicate 2 x = [x, x]" "replicate 3 x = [x, x, x]"
  by (simp_all add: numeral_eq_Suc)

lemma example_blocks:
  "take 44 (drop 56 example_tree) = structure_block example_layout"
  "take 15 (drop 100 example_tree) = example_strings" "take 16 (drop 40 example_tree) = reservations example_layout"
  by (simp_all add: example_tree_bytes example_layout_def example_block_def example_strings_def str_def
      to_be_bytes_def token_consts enc_begin_def enc_property_def padding_def replicate_small)

lemma example_parse: "layout_parse example_tree = ok example_layout"
  by (simp add: layout_parse_def header_offsets example_header us_add_def get_range_def example_blocks
      example_reservations reservation_map_end_def checked_slice_def slice_def)
    (simp add: example_layout_def)

lemma example_block_ok: "block example_strings example_block"
proof -
  have "string_at example_strings 0 = ok (str ''#address-cells'')"
    using string_at_new [of "str ''#address-cells''" "[]" "[]"] str_names_ok by (simp add: example_strings_def)
  then have "token_bytes example_strings (TProp (str ''#address-cells'') (to_be_bytes 2)) (enc_property 0 (to_be_bytes 2))"
    by (intro enc_property_token) simp_all
  moreover have "token_bytes example_strings (TBegin []) (enc_begin [])"
    "token_bytes example_strings (TBegin (str ''a'')) (enc_begin (str ''a''))"
    by (intro enc_begin_token; simp add: str_def)+
  ultimately show ?thesis
    by (simp add: example_block_def del: token_bytes.simps(1,2))
qed

definition example_edits :: EditPlan where
  "example_edits = \<lparr>root_end = 36, root_cells = \<lparr>address_cells = 2, size_cells = 1\<rparr>, reserved_memory = None,
     reservation_exists = False, hidden_nodes = [(24, 36)]\<rparr>"

lemma example_lengths:
  "length (enc_begin []) = 8" "length (enc_property 0 (to_be_bytes 2)) = 16" "length (enc_begin (str ''a'')) = 8"
  by (simp_all add: enc_begin_def enc_property_def padding_def str_def)

lemma example_plan: "plan_run [str ''/a''] rname (0, planner_new) example_block = ok example_edits"
proof -
  have c: "single_cell (to_be_bytes 2) = ok 2"
    by (simp add: single_cell_iff)
  have b: "base_name (str ''a'') \<noteq> str ''reserved-memory''"
    by (simp add: base_name_def str_def)
  have t: "path_truncate (str ''/a'') (Suc 0) = ok (str ''/'')" "path_truncate (str ''/'') 0 = ok []"
    by (simp_all add: path_truncate_def is_char_boundary_def str_def is_cont_def)
  have p: "str ''/'' @ str ''a'' = str ''/a''" "str ''/'' \<noteq> str ''/a''" "length (str ''/'') = 1"
    by (simp_all add: str_def)
  show ?thesis
    by (simp add: example_block_def example_lengths planner_new_def begin_node_def Let_def push_path_def
        planner_record_property_def node_record_property_def end_node_def planner_finish_def c b t p example_edits_def
        node_cells_def unwrap_or_def DEFAULT_SIZE_CELLS_def)
qed

section \<open>The edits succeed\<close>

lemma example_plan_edits:
  "plan_edits (structure_block example_layout) example_strings [str ''/a''] rname = ok example_edits"
proof -
  have "small (structure_block example_layout)"
    using parsed_small [OF example_parse] by simp
  moreover have "structure_block example_layout = block_bytes example_block @ to_be_bytes END @ nops 0"
    by (simp add: example_layout_def)
  ultimately show ?thesis
    using plan_ok_iff example_block_ok example_plan by blast
qed

lemma example_path_ok: "\<not> list_ex bad_hidden_path [str ''/a'']"
  by (simp add: bad_hidden_path_def str_def)

lemma example_structure_length: "length (structure_block example_layout) = 44"
  by (simp add: example_layout_def example_block_def example_lengths)

definition example_hidden :: bytes where
  "example_hidden = nopped [(24, 36)] (structure_block example_layout)"

lemma example_nops:
  "nop_nodes (structure_block example_layout) (hidden_nodes example_edits) = ok example_hidden"
  using nop_nodes_eq [of "hidden_nodes example_edits" "structure_block example_layout"] example_structure_length
  by (simp add: example_hidden_def example_edits_def)

lemma example_hidden_length: "length example_hidden = 44"
  using nop_nodes_length [OF example_nops] example_structure_length by simp

lemma example_fields: "l_source example_layout = example_tree" "total_size example_layout = 116"
  "structure_offset example_layout = 56" "strings_block example_layout = example_strings"
  "length (reservations example_layout) = 16"
  by (simp_all add: example_layout_def)

lemma example_hide: "\<exists>out. prepare_next_stage example_tree None [str ''/a''] = ok out"
proof -
  have len: "length example_hidden = length (structure_block example_layout)"
    using example_hidden_length example_structure_length by simp
  show ?thesis
    using parse_replace(1) [OF example_parse _ len] example_path_ok
    by (simp add: prepare_next_stage_def example_parse Let_def us_add_def example_plan_edits example_nops
        example_fields example_hidden_length)
qed

definition example_reservation :: Reservation where
  "example_reservation = \<lparr>res_address = 0x80000000, res_size = 0x40000\<rparr>"

lemma example_reserve: "\<exists>out. prepare_next_stage example_tree (Some example_reservation) [str ''/a''] = ok out"
proof -
  let ?r = "example_reservation" and ?c = "root_cells example_edits"
  let ?s = "example_strings @ str ''#address-cells'' @ [0]"
  let ?s5 = "((((?s @ str ''#size-cells'' @ [0]) @ str ''ranges'' @ [0]) @ str ''reg'' @ [0]) @ str ''no-map'' @ [0])"
  have strs: "length example_strings = 15" "length ?s5 = 60"
    by (simp_all add: example_strings_def str_def)
  have child: "firmware_child (reservation_node_name ?r) ?c ?r n4 n5 = ok (block_bytes (child_block ?c ?r n4 n5))" for n4 n5
    unfolding firmware_child_eq by (simp add: push_cells_def example_edits_def example_reservation_def u32_try_from_def)
  have parent: "firmware_parent ?c n1 n2 n3 (block_bytes (child_block ?c ?r n4 n5))
      = ok (block_bytes (parent_block ?c ?r n1 n2 n3 n4 n5))" for n1 n2 n3 n4 n5
    by (rule firmware_parent_eq [OF refl])
  have w: "validate_cell_widths ?c = ok ()"
    by (simp add: widths_ok_iff widths_ok_def example_edits_def)
  have re: "\<exists>out. rebuild example_layout (take 36 example_hidden @ block_bytes (parent_block ?c ?r n1 n2 n3 n4 n5)
      @ drop 36 example_hidden) ?s5 = ok out" for n1 n2 n3 n4 n5
  proof -
    let ?st = "take 36 example_hidden @ block_bytes (parent_block ?c ?r n1 n2 n3 n4 n5) @ drop 36 example_hidden"
    have l: "length ?st \<le> 244"
      using length_parent_block [of ?c ?r n1 n2 n3 n4 n5] example_hidden_length by simp
    have "length (rebuilt example_layout ?st ?s5) \<le> 400"
      using l strs padding_less [of "length (reservations example_layout)"] padding_less [of "40 + (16 + padding 16 + length ?st + 60)"]
      by (simp add: rebuilt_def Let_def example_fields HEADER_SIZE_def padding_def)
    then show ?thesis
      using rebuild_ok [OF example_parse, of ?st ?s5] by fastforce
  qed
  have ap: "append_string x y = ok (x @ y @ [0], word_of_nat (length x))" if "length x < 2 ^ 32" for x y
    using that by (simp add: append_string_def u32_of_len_def)
  have "\<exists>out. add_firmware_reservation example_layout example_edits example_hidden ?r (reservation_node_name ?r) = ok out"
  proof -
    have rm: "reserved_memory example_edits = None" "root_end example_edits = 36"
      by (simp_all add: example_edits_def)
    have l1: "length ?s < 2 ^ 32" "length (?s @ str ''#size-cells'' @ [0]) < 2 ^ 32"
      "length ((?s @ str ''#size-cells'' @ [0]) @ str ''ranges'' @ [0]) < 2 ^ 32"
      "length (((?s @ str ''#size-cells'' @ [0]) @ str ''ranges'' @ [0]) @ str ''reg'' @ [0]) < 2 ^ 32"
      "length example_strings < 2 ^ 32"
      by (simp_all add: example_strings_def str_def)
    have us: "us_add (length example_hidden) (length (block_bytes (parent_block ?c ?r n1 n2 n3 n4 n5)))
        = ok (44 + length (block_bytes (parent_block ?c ?r n1 n2 n3 n4 n5)))" for n1 n2 n3 n4 n5
      using length_parent_block [of ?c ?r n1 n2 n3 n4 n5] by (simp add: us_add_def example_hidden_length)
    have sl: "slice example_hidden 0 36 = ok (take 36 example_hidden)"
      "slice example_hidden 36 (length example_hidden) = ok (drop 36 example_hidden)"
      by (simp_all add: example_hidden_length del: slice_end) (simp add: slice_def get_range_def example_hidden_length)
    show ?thesis
      unfolding add_firmware_reservation_def Let_def rm option.case if_False w fdt_bind_simps example_fields
        ap [OF l1(5)] ap [OF l1(1)] ap [OF l1(2)] ap [OF l1(3)] ap [OF l1(4)] case_prod_conv child parent us sl
      by (rule re)
  qed
  then show ?thesis
    using example_path_ok
    by (simp add: prepare_next_stage_def example_parse Let_def example_plan_edits example_nops example_fields)
qed

section \<open>The theorems on the example\<close>

definition example_tokens :: "token list" where
  "example_tokens = [TBegin [], TProp (str ''#address-cells'') (to_be_bytes 2), TBegin (str ''a''), TEnd, TEnd]"

lemma example_view: "dt_view example_tree = ok example_tokens"
proof -
  have "dt_view example_tree = ok (no_nops (map fst example_block))"
    using parsed_small [OF example_parse] example_block_ok
    by (intro view_block [OF example_parse, of _ 0]) (simp_all add: example_fields, simp add: example_layout_def)
  then show ?thesis
    by (simp add: example_block_def example_tokens_def)
qed

lemma example_well_formed: "well_formed example_tokens"
  by (simp add: well_formed_def example_tokens_def wf_property_def MAX_FDT_DEPTH_def vnode_new_def)

theorem device_tree_no_panic_witness:
  "length example_tree < 2 ^ 63 \<and> validate example_tree \<noteq> Panic
   \<and> prepare_next_stage example_tree (Some example_reservation) [str ''/a''] \<noteq> Panic"
  using device_tree_no_panic [of example_tree "Some example_reservation" "[str ''/a'']"] by simp

theorem validate_decides_witness:
  "validate example_tree = ok () \<and> (\<exists>ts. dt_view example_tree = ok ts \<and> well_formed ts)"
  using validate_decides [of example_tree] example_view example_well_formed by simp

theorem next_stage_tree_witness:
  "\<exists>out ts l l'. prepare_next_stage example_tree (Some example_reservation) [str ''/a''] = ok out
     \<and> dt_view example_tree = ok ts
     \<and> dt_view out = ok (next_stage_view (Some example_reservation) [str ''/a''] ts)
     \<and> layout_parse example_tree = ok l \<and> layout_parse out = ok l' \<and> reservations l' = reservations l"
proof -
  obtain out where out: "prepare_next_stage example_tree (Some example_reservation) [str ''/a''] = ok out"
    using example_reserve ..
  from next_stage_tree [OF _ out] out show ?thesis
    by simp
qed

theorem next_stage_validates_witness:
  "\<exists>out. prepare_next_stage example_tree (Some example_reservation) [str ''/a''] = ok out
     \<and> validate example_tree = ok () \<and> validate out = ok ()"
proof -
  obtain out where out: "prepare_next_stage example_tree (Some example_reservation) [str ''/a''] = ok out"
    using example_reserve ..
  have v: "validate example_tree = ok ()"
    using validate_view [OF example_parse] example_view example_well_formed by simp
  from next_stage_validates [OF _ v out] out v show ?thesis
    by simp
qed

theorem rebuild_parse_witness:
  "\<exists>out. rebuild example_layout (to_be_bytes END) [] = ok out
     \<and> layout_parse out = ok \<lparr>l_source = out, total_size = 60, reservations = reservations example_layout,
         structure_offset = 56, structure_block = to_be_bytes END, strings_block = []\<rparr>"
proof -
  have "rebuilt_size example_layout (to_be_bytes END) [] = 60"
    by (simp add: rebuilt_size_def example_fields padding_def)
  then show ?thesis
    using rebuild_parse [OF example_parse, of "to_be_bytes END" "[]"] by (simp add: example_fields)
qed

text \<open>
  With the reserved memory among the hidden paths, the reservation of the firmware is left outside
  of every \<open>reserved-memory\<close> node, as a plain child of the root.
\<close>

lemma hidden_reserved_memory_exposes:
  "next_stage_view (Some r) [str ''/reserved-memory''] [TBegin [], TBegin (str ''reserved-memory''), TEnd, TEnd]
   = [TBegin []] @ reservation_tokens (cells_of None None) r @ [TEnd]"
proof -
  have p: "str ''/'' @ str ''reserved-memory'' = str ''/reserved-memory''" "str ''/'' \<noteq> str ''/reserved-memory''"
    "length (str ''/'') = 1" "base_name (str ''reserved-memory'') = str ''reserved-memory''"
    by (simp_all add: str_def base_name_def)
  show ?thesis
    by (simp add: next_stage_view_def is_reserved_ctx_def is_root_ctx_def own_ctx_def push_path_def p cell_step_def
        reservation_tokens_def Let_def)
qed

end
