(* ===== verification/Trap_Machine.thy ===== *)
theory Trap_Machine
  imports Hart_Lifecycle
begin

text \<open>
  The machine that the trap code of \<open>firmware/runtime/src/trap\<close> runs on, its private trap frame
  (\<open>frame.rs\<close>) and the guarded operations (\<open>recovery.rs\<close> with the vector \<open>recovery_entry\<close> of
  \<open>entry.rs\<close>).

  A hart is a record of the control and status registers that the code touches, the frame of
  the trap being handled, the memory that guarded accesses reach, the hart's lifecycle cell and
  the state \<open>world\<close> of the services behind the traits of the runtime. The environment
  \<open>trap_env\<close> holds what is not part of the sources: which accesses fault, the instruction decoder of
  the \<open>riscv_decode\<close> crate, and the installed services.

  A computation may end in the fail-stop vector, in a panic, or wait for another hart; these are
  values of \<open>'a run\<close>.
\<close>

section \<open>Computations\<close>

datatype 'a run = Fail_stop | Panicked | Waiting | Done 'a

definition rbind :: "'a run \<Rightarrow> ('a \<Rightarrow> 'b run) \<Rightarrow> 'b run" where
  "rbind r f = (case r of Fail_stop \<Rightarrow> Fail_stop | Panicked \<Rightarrow> Panicked | Waiting \<Rightarrow> Waiting | Done x \<Rightarrow> f x)"

definition of_outcome :: "'a outcome \<Rightarrow> 'a run" where
  "of_outcome r = (case r of Panic \<Rightarrow> Panicked | Ret x \<Rightarrow> Done x)"

lemma rbind_simps [simp]:
  "rbind Fail_stop f = Fail_stop" "rbind Panicked f = Panicked" "rbind Waiting f = Waiting"
  "rbind (Done x) f = f x"
  by (simp_all add: rbind_def)

lemma of_outcome_simps [simp]: "of_outcome Panic = Panicked" "of_outcome (Ret x) = Done x"
  by (simp_all add: of_outcome_def)

lemma rbind_eq_Done: "rbind r f = Done y \<longleftrightarrow> (\<exists>x. r = Done x \<and> f x = Done y)"
  by (cases r) auto

section \<open>Data\<close>

text \<open>\<open>Error\<close> of \<open>trap/mod.rs\<close>.\<close>

datatype TrapError =
    UnsupportedInstruction
  | MemoryFault (mf_cause: usize) (mf_tval: usize)
  | MachineOrigin

record TrapFrame =
  f_x :: "usize list"
  f_mepc :: usize
  f_mstatus :: usize
  f_mcause :: usize
  f_mtval :: usize

record RecoveryRecord =
  expected_mepc :: usize
  cause_mask :: usize
  trapped :: usize
  info_mepc :: usize
  info_mcause :: usize
  info_mtval :: usize

record 'w machine =
  mepc :: usize
  mcause :: usize
  mtval :: usize
  mstatus :: usize
  mtvec :: usize
  mscratch :: usize
  medeleg :: usize
  mie :: usize
  mip :: usize
  sepc :: usize
  scause :: usize
  stval :: usize
  stvec :: usize
  satp :: usize
  sie :: usize
  frame :: TrapFrame
  records :: "usize \<Rightarrow> RecoveryRecord"
  mem :: "usize \<Rightarrow> u8"
  cell :: HartStateCell
  world :: 'w

text \<open>
  The instructions of the decoder that the trap code distinguishes, with the fields that it reads
  from them.
\<close>

datatype Instruction =
    Lb u32 | Lbu u32 | Lh u32 | Lhu u32 | Lw u32 | Lwu u32 | Ld u32
  | Sb u32 | Sh u32 | Sw u32 | Sd u32
  | Csrrs u32 u32
  | Other

text \<open>How the value of an emulated access is interpreted (\<open>decode.rs\<close>).\<close>

datatype ValueKind = Signed8 | Unsigned8 | Signed16 | Unsigned16 | Signed32 | Unsigned32 | Signed64

fun width :: "ValueKind \<Rightarrow> nat" where
  "width Signed8 = 1"
| "width Unsigned8 = 1"
| "width Signed16 = 2"
| "width Unsigned16 = 2"
| "width Signed32 = 4"
| "width Unsigned32 = 4"
| "width Signed64 = 8"

text \<open>
  The services of the runtime's traits; an operation may change the world, and one that records an
  event may panic, as the counters of the SBI PMU do when they overflow.
\<close>

record 'w AccessDispatcher =
  ad_load :: "usize \<Rightarrow> ValueKind \<Rightarrow> 'w \<Rightarrow> usize option \<times> 'w"
  ad_store :: "usize \<Rightarrow> ValueKind \<Rightarrow> usize \<Rightarrow> 'w \<Rightarrow> bool \<times> 'w"

record 'w TimerDevice =
  read_time :: "'w \<Rightarrow> u64 option"
  read_time_low :: "'w \<Rightarrow> usize option"
  acknowledge_current :: "'w \<Rightarrow> 'w"

record 'w TrapCounters =
  record_illegal_instruction :: "'w \<Rightarrow> 'w outcome"
  record_misaligned_load :: "'w \<Rightarrow> 'w outcome"
  record_misaligned_store :: "'w \<Rightarrow> 'w outcome"
  record_access_load :: "'w \<Rightarrow> 'w outcome"
  record_access_store :: "'w \<Rightarrow> 'w outcome"

record 'w trap_env =
  load_fault :: "nat \<Rightarrow> usize \<Rightarrow> usize \<Rightarrow> (usize \<times> usize) option"
  store_fault :: "nat \<Rightarrow> usize \<Rightarrow> usize \<Rightarrow> (usize \<times> usize) option"
  csr_read :: "u16 \<Rightarrow> 'w \<Rightarrow> usize option"
  csr_write :: "u16 \<Rightarrow> usize \<Rightarrow> 'w \<Rightarrow> 'w option"
  record_addr :: usize
  guard_pc :: usize
  recovery_vector :: usize
  sstatus_mask :: usize
  decode :: "u32 \<Rightarrow> Instruction option"
  instruction_length :: "u16 \<Rightarrow> nat"
  access_dispatcher :: "'w AccessDispatcher option"
  timer :: "'w TimerDevice option"
  counters :: "'w TrapCounters option"
  policy :: "usize \<Rightarrow> usize \<Rightarrow> usize list \<Rightarrow> 'w machine \<Rightarrow> (sbi_ret \<times> 'w machine) run"
  ipi_device_clear :: "('w \<Rightarrow> bool \<times> 'w) option"
  ipi_handler :: "('w machine \<Rightarrow> 'w machine run) option"
  claim_ipi :: "('w \<Rightarrow> bool \<times> 'w) option"
  has_sstc :: bool
  this_hart :: usize

type_synonym ('w, 'a) trap_op = "'w machine \<Rightarrow> ((TrapError + 'a) \<times> 'w machine) run"

text \<open>The operator \<open>?\<close>: an error ends the function, keeping the state reached so far.\<close>

definition try_bind :: "('w, 'a) trap_op \<Rightarrow> ('a \<Rightarrow> ('w, 'b) trap_op) \<Rightarrow> ('w, 'b) trap_op" where
  "try_bind op f m =
     rbind (op m) (\<lambda>(r, m'). case r of Inl e \<Rightarrow> Done (Inl e, m') | Inr x \<Rightarrow> f x m')"

definition ret :: "'a \<Rightarrow> ('w, 'a) trap_op" where "ret x m = Done (Inr x, m)"

definition err :: "TrapError \<Rightarrow> ('w, 'a) trap_op" where "err e m = Done (Inl e, m)"

definition of_result :: "TrapError + 'a \<Rightarrow> ('w, 'a) trap_op" where "of_result r m = Done (r, m)"

definition lift_outcome :: "'a outcome \<Rightarrow> ('w, 'a) trap_op" where
  "lift_outcome r m = rbind (of_outcome r) (\<lambda>x. Done (Inr x, m))"

section \<open>The trap frame (\<open>frame.rs\<close>)\<close>

definition read_x :: "TrapFrame \<Rightarrow> nat \<Rightarrow> usize outcome" where
  "read_x f i = (if i = 0 then Ret 0 else array_get (f_x f) (i - 1))"

definition write_x :: "TrapFrame \<Rightarrow> nat \<Rightarrow> usize \<Rightarrow> TrapFrame outcome" where
  "write_x f i v =
     (if i \<noteq> 0 then omap (\<lambda>xs. f\<lparr>f_x := xs\<rparr>) (array_set (f_x f) (i - 1) v) else Ret f)"

definition MPP_MASK :: usize where "MPP_MASK = push_bit 11 3"
definition MPP_MACHINE :: usize where "MPP_MACHINE = push_bit 11 3"
definition MPP_SUPERVISOR :: usize where "MPP_SUPERVISOR = push_bit 11 1"

definition trapped_from_machine :: "TrapFrame \<Rightarrow> bool" where
  "trapped_from_machine f \<longleftrightarrow> f_mstatus f AND MPP_MASK = MPP_MACHINE"

definition is_trapped_from_supervisor :: "TrapFrame \<Rightarrow> bool" where
  "is_trapped_from_supervisor f \<longleftrightarrow> f_mstatus f AND MPP_MASK = MPP_SUPERVISOR"

definition frame_write :: "nat \<Rightarrow> usize \<Rightarrow> ('w, unit) trap_op" where
  "frame_write i v m =
     rbind (of_outcome (write_x (frame m) i v)) (\<lambda>f. Done (Inr (), m\<lparr>frame := f\<rparr>))"

section \<open>Guarded operations (\<open>recovery.rs\<close>)\<close>

definition record_new :: "usize \<Rightarrow> RecoveryRecord" where
  "record_new cm = \<lparr>expected_mepc = 0, cause_mask = cm, trapped = 0, info_mepc = 0,
     info_mcause = 0, info_mtval = 0\<rparr>"

definition MPRV_BIT :: usize where "MPRV_BIT = push_bit 17 1"
definition MXR_BIT :: usize where "MXR_BIT = push_bit 19 1"

definition CAUSE_ILLEGAL :: usize where "CAUSE_ILLEGAL = push_bit 2 1"
definition CAUSE_LOAD_ACCESS :: usize where "CAUSE_LOAD_ACCESS = push_bit 5 1"
definition CAUSE_STORE_ACCESS :: usize where "CAUSE_STORE_ACCESS = push_bit 7 1"
definition CAUSE_LOAD_PAGE :: usize where "CAUSE_LOAD_PAGE = push_bit 13 1"
definition CAUSE_STORE_PAGE :: usize where "CAUSE_STORE_PAGE = push_bit 15 1"

text \<open>
  What the architecture does on a trap taken from machine mode to machine mode, and on \<open>mret\<close>:
  \<open>MIE\<close> (bit 3) and \<open>MPIE\<close> (bit 7) exchange, \<open>MPP\<close> (bits 12:11) holds the previous mode.
\<close>

definition put_bit :: "nat \<Rightarrow> bool \<Rightarrow> usize \<Rightarrow> usize" where
  "put_bit n b w = (if b then w OR one_bit n else w AND NOT (one_bit n))"

definition put_mpp :: "usize \<Rightarrow> usize \<Rightarrow> usize" where
  "put_mpp p w = (w AND NOT MPP_MASK) OR push_bit 11 (p AND 3)"

definition get_mpp :: "usize \<Rightarrow> usize" where "get_mpp w = drop_bit 11 w AND 3"

definition mode_bits :: "MPP \<Rightarrow> usize" where
  "mode_bits p = (case p of Machine \<Rightarrow> 3 | Supervisor \<Rightarrow> 1 | User \<Rightarrow> 0)"

definition machine_trap :: "usize \<Rightarrow> usize \<Rightarrow> usize \<Rightarrow> 'w machine \<Rightarrow> 'w machine" where
  "machine_trap pc c tval m =
     m\<lparr>mepc := pc, mcause := c, mtval := tval,
       mstatus := put_mpp 3 (put_bit 3 False (put_bit 7 (bit (mstatus m) 3) (mstatus m)))\<rparr>"

text \<open>The status register after \<open>mret\<close>; \<open>MPRV\<close> is cleared when the mode returned to is not machine mode.\<close>

definition mret_status :: "usize \<Rightarrow> usize" where
  "mret_status s =
     (let s' = put_mpp 0 (put_bit 7 True (put_bit 3 (bit s 7) s))
      in if get_mpp s = 3 then s' else put_bit 17 False s')"

text \<open>The vector \<open>recovery_entry\<close>, up to and including its \<open>mret\<close>.\<close>

definition recovery_entry :: "'w machine \<Rightarrow> 'w machine run" where
  "recovery_entry m =
     (if mscratch m = 0 then Fail_stop
      else if drop_bit 11 (mstatus m) AND 3 \<noteq> 3 then Fail_stop
      else let r = records m (mscratch m)
        in if mepc m \<noteq> expected_mepc r then Fail_stop
        else if bit (mcause m) 63 then Fail_stop
        else if 32 \<le> mcause m then Fail_stop
        else if push_bit (unat (mcause m)) 1 AND cause_mask r = 0 then Fail_stop
        else Done (m\<lparr>records := (records m)(mscratch m := r\<lparr>info_mepc := mepc m,
                 info_mcause := mcause m, info_mtval := mtval m, trapped := 1\<rparr>),
               mepc := mepc m + 4, mstatus := mret_status (mstatus m)\<rparr>))"

text \<open>
  The window that \<open>guarded_access!\<close> and the guarded register accesses share: publish the
  record, install the recovery vector, execute one instruction with \<open>MPRV\<close> and \<open>MXR\<close> set, and
  restore. The instruction either completes with a value or raises a fault \<open>(cause, tval)\<close>. The
  answer tells the value and the record.
\<close>

definition guard_open :: "'w trap_env \<Rightarrow> usize \<Rightarrow> 'w machine \<Rightarrow> 'w machine" where
  "guard_open E cm m =
     m\<lparr>mtvec := recovery_vector E, mscratch := record_addr E,
       records := (records m)(record_addr E := (record_new cm)\<lparr>expected_mepc := guard_pc E\<rparr>),
       mstatus := mstatus m OR (MPRV_BIT OR MXR_BIT)\<rparr>"

definition guard_close :: "'w machine \<Rightarrow> 'w machine \<Rightarrow> 'w machine" where
  "guard_close m m' = m'\<lparr>mstatus := mstatus m, mscratch := 0, mtvec := mtvec m\<rparr>"

definition guarded ::
    "'w trap_env \<Rightarrow> usize \<Rightarrow> ('w machine \<Rightarrow> (usize \<times> usize) + usize \<times> 'w machine) \<Rightarrow> 'w machine
     \<Rightarrow> (usize \<times> RecoveryRecord \<times> 'w machine) run" where
  "guarded E cm insn m =
     (let m1 = guard_open E cm m
      in case insn m1 of
           Inr (v, m2) \<Rightarrow>
             Done (v, records m2 (record_addr E), guard_close m m2)
         | Inl (c, tval) \<Rightarrow>
             rbind (recovery_entry (machine_trap (guard_pc E) c tval m1))
               (\<lambda>m2. Done (0, records m2 (record_addr E), guard_close m m2)))"

definition fault_of :: "RecoveryRecord \<Rightarrow> TrapError" where
  "fault_of r = MemoryFault (info_mcause r) (info_mtval r)"

definition guarded_access ::
    "'w trap_env \<Rightarrow> usize \<Rightarrow> ('w machine \<Rightarrow> (usize \<times> usize) + usize \<times> 'w machine) \<Rightarrow> ('w, usize) trap_op" where
  "guarded_access E cm insn m =
     rbind (guarded E cm insn m)
       (\<lambda>(data, r, m'). if trapped r \<noteq> 0 then Done (Inl (fault_of r), m') else Done (Inr data, m'))"

text \<open>The memory instructions: \<open>lbu\<close>, \<open>lhu\<close> and \<open>sb\<close>.\<close>

definition lbu :: "'w trap_env \<Rightarrow> usize \<Rightarrow> 'w machine \<Rightarrow> (usize \<times> usize) + usize \<times> 'w machine" where
  "lbu E addr m =
     (case load_fault E 1 (mstatus m) addr of
        Some f \<Rightarrow> Inl f
      | None \<Rightarrow> Inr (ucast (mem m addr), m))"

definition lhu :: "'w trap_env \<Rightarrow> usize \<Rightarrow> 'w machine \<Rightarrow> (usize \<times> usize) + usize \<times> 'w machine" where
  "lhu E addr m =
     (case load_fault E 2 (mstatus m) addr of
        Some f \<Rightarrow> Inl f
      | None \<Rightarrow> Inr (ucast (mem m addr) OR push_bit 8 (ucast (mem m (addr + 1))), m))"

definition sb :: "'w trap_env \<Rightarrow> usize \<Rightarrow> usize \<Rightarrow> 'w machine \<Rightarrow> (usize \<times> usize) + usize \<times> 'w machine" where
  "sb E addr data m =
     (case store_fault E 1 (mstatus m) addr of
        Some f \<Rightarrow> Inl f
      | None \<Rightarrow> Inr (data, m\<lparr>mem := (mem m)(addr := ucast data)\<rparr>))"

definition read_u8 :: "'w trap_env \<Rightarrow> usize \<Rightarrow> ('w, usize) trap_op" where
  "read_u8 E addr = guarded_access E (CAUSE_LOAD_ACCESS OR CAUSE_LOAD_PAGE) (lbu E addr)"

definition read_u16 :: "'w trap_env \<Rightarrow> usize \<Rightarrow> ('w, usize) trap_op" where
  "read_u16 E addr = guarded_access E (CAUSE_LOAD_ACCESS OR CAUSE_LOAD_PAGE) (lhu E addr)"

definition write_u8 :: "'w trap_env \<Rightarrow> usize \<Rightarrow> usize \<Rightarrow> ('w, usize) trap_op" where
  "write_u8 E addr data = guarded_access E (CAUSE_STORE_ACCESS OR CAUSE_STORE_PAGE) (sb E addr data)"

text \<open>
  Guarded accesses to a register given by number. An absent register raises an illegal
  instruction exception; the fault value is the hardware's and is not used.
\<close>

definition csr_answer :: "(usize \<times> RecoveryRecord \<times> 'w machine) run \<Rightarrow> ((TrapError + usize) \<times> 'w machine) run" where
  "csr_answer g =
     rbind g (\<lambda>(data, r, m'). if trapped r \<noteq> 0 then Done (Inl UnsupportedInstruction, m') else Done (Inr data, m'))"

definition read_csr_guarded :: "'w trap_env \<Rightarrow> u16 \<Rightarrow> ('w, usize) trap_op" where
  "read_csr_guarded E csr m =
     csr_answer (guarded E CAUSE_ILLEGAL
       (\<lambda>m. case csr_read E csr (world m) of None \<Rightarrow> Inl (2, 0) | Some v \<Rightarrow> Inr (v, m)) m)"

definition write_csr_guarded :: "'w trap_env \<Rightarrow> u16 \<Rightarrow> usize \<Rightarrow> ('w, unit) trap_op" where
  "write_csr_guarded E csr v m =
     rbind (csr_answer (guarded E CAUSE_ILLEGAL
       (\<lambda>m. case csr_write E csr v (world m) of None \<Rightarrow> Inl (2, 0) | Some w \<Rightarrow> Inr (v, m\<lparr>world := w\<rparr>)) m))
       (\<lambda>(r, m'). Done (map_sum id (\<lambda>_. ()) r, m'))"

definition swap_csr_guarded :: "'w trap_env \<Rightarrow> u16 \<Rightarrow> usize \<Rightarrow> ('w, usize) trap_op" where
  "swap_csr_guarded E csr v m =
     csr_answer (guarded E CAUSE_ILLEGAL
       (\<lambda>m. case csr_read E csr (world m) of
          None \<Rightarrow> Inl (2, 0)
        | Some old \<Rightarrow>
            (case csr_write E csr v (world m) of
               None \<Rightarrow> Inl (2, 0)
             | Some w \<Rightarrow> Inr (old, m\<lparr>world := w\<rparr>))) m)"

definition fetch :: "'w trap_env \<Rightarrow> usize \<Rightarrow> ('w, u32 \<times> nat) trap_op" where
  "fetch E pc =
     try_bind (read_u16 E pc) (\<lambda>low.
       if instruction_length E (ucast low) = 2 then ret (ucast low, 2)
       else try_bind (lift_outcome (add_ovf pc 2)) (\<lambda>a.
         try_bind (read_u16 E a) (\<lambda>high. ret (ucast low OR push_bit 16 (ucast high), 4))))"

fun read_loop :: "'w trap_env \<Rightarrow> usize \<Rightarrow> nat list \<Rightarrow> usize \<Rightarrow> ('w, usize) trap_op" where
  "read_loop E addr [] data = ret data"
| "read_loop E addr (i # is) data =
     try_bind (lift_outcome (add_ovf addr (word_of_nat i))) (\<lambda>a.
       try_bind (read_u8 E a) (\<lambda>b. read_loop E addr is (push_bit 8 data OR b)))"

definition read_value :: "'w trap_env \<Rightarrow> usize \<Rightarrow> ValueKind \<Rightarrow> ('w, usize) trap_op" where
  "read_value E addr kind = read_loop E addr (rev [0..<width kind]) 0"

fun write_loop :: "'w trap_env \<Rightarrow> usize \<Rightarrow> usize \<Rightarrow> nat list \<Rightarrow> ('w, unit) trap_op" where
  "write_loop E addr v [] = ret ()"
| "write_loop E addr v (i # is) =
     try_bind (lift_outcome (add_ovf addr (word_of_nat i))) (\<lambda>a.
       try_bind (write_u8 E a (drop_bit (8 * i) v AND 0xff)) (\<lambda>_. write_loop E addr v is))"

definition write_value :: "'w trap_env \<Rightarrow> usize \<Rightarrow> usize \<Rightarrow> ValueKind \<Rightarrow> ('w, unit) trap_op" where
  "write_value E addr v kind = write_loop E addr v [0..<width kind]"

end
