(* ===== verification/Trap_Dispatch.thy ===== *)
theory Trap_Dispatch
  imports Trap_Machine
begin

text \<open>
  Trap handling of the runtime: instruction decoding (\<open>decode.rs\<close>), the complete emulated operations
  (\<open>emulate.rs\<close>), redirection to the supervisor (\<open>redirect.rs\<close>), the dispatcher (\<open>dispatch.rs\<close>) and
  the vector \<open>trap_entry\<close> (\<open>entry.rs\<close>).
\<close>

section \<open>Decoding\<close>

fun extend_value :: "ValueKind \<Rightarrow> usize \<Rightarrow> usize" where
  "extend_value Signed8 raw = scast (ucast raw :: u8)"
| "extend_value Unsigned8 raw = ucast (ucast raw :: u8)"
| "extend_value Signed16 raw = scast (ucast raw :: u16)"
| "extend_value Unsigned16 raw = ucast (ucast raw :: u16)"
| "extend_value Signed32 raw = scast (ucast raw :: u32)"
| "extend_value Unsigned32 raw = ucast (ucast raw :: u32)"
| "extend_value Signed64 raw = raw"

record LoadOp =
  l_rd :: u8
  l_kind :: ValueKind

record StoreOp =
  s_rs2 :: u8
  s_kind :: ValueKind

record CsrReadOp =
  c_csr :: u16
  c_rd :: u8

definition decode_load :: "'w trap_env \<Rightarrow> u32 \<Rightarrow> TrapError + LoadOp" where
  "decode_load E raw =
     (case decode E raw of
        Some (Lb rd) \<Rightarrow> Inr \<lparr>l_rd = ucast rd, l_kind = Signed8\<rparr>
      | Some (Lbu rd) \<Rightarrow> Inr \<lparr>l_rd = ucast rd, l_kind = Unsigned8\<rparr>
      | Some (Lh rd) \<Rightarrow> Inr \<lparr>l_rd = ucast rd, l_kind = Signed16\<rparr>
      | Some (Lhu rd) \<Rightarrow> Inr \<lparr>l_rd = ucast rd, l_kind = Unsigned16\<rparr>
      | Some (Lw rd) \<Rightarrow> Inr \<lparr>l_rd = ucast rd, l_kind = Signed32\<rparr>
      | Some (Lwu rd) \<Rightarrow> Inr \<lparr>l_rd = ucast rd, l_kind = Unsigned32\<rparr>
      | Some (Ld rd) \<Rightarrow> Inr \<lparr>l_rd = ucast rd, l_kind = Signed64\<rparr>
      | _ \<Rightarrow> Inl UnsupportedInstruction)"

definition decode_store :: "'w trap_env \<Rightarrow> u32 \<Rightarrow> TrapError + StoreOp" where
  "decode_store E raw =
     (case decode E raw of
        Some (Sb rs2) \<Rightarrow> Inr \<lparr>s_rs2 = ucast rs2, s_kind = Unsigned8\<rparr>
      | Some (Sh rs2) \<Rightarrow> Inr \<lparr>s_rs2 = ucast rs2, s_kind = Unsigned16\<rparr>
      | Some (Sw rs2) \<Rightarrow> Inr \<lparr>s_rs2 = ucast rs2, s_kind = Unsigned32\<rparr>
      | Some (Sd rs2) \<Rightarrow> Inr \<lparr>s_rs2 = ucast rs2, s_kind = Signed64\<rparr>
      | _ \<Rightarrow> Inl UnsupportedInstruction)"

text \<open>The test \<open>raw & 0x000f_f07f == 0x2073\<close> for \<open>csrrs rd, csr, x0\<close>.\<close>

definition pure_csr_read :: "u32 \<Rightarrow> bool" where
  "pure_csr_read raw \<longleftrightarrow> raw AND 0x000ff07f = 0x2073"

definition decode_csr_read :: "'w trap_env \<Rightarrow> u32 \<Rightarrow> TrapError + CsrReadOp" where
  "decode_csr_read E raw =
     (if \<not> pure_csr_read raw then Inl UnsupportedInstruction
      else case decode E raw of
          Some (Csrrs csr rd) \<Rightarrow> Inr \<lparr>c_csr = ucast csr, c_rd = ucast rd\<rparr>
        | _ \<Rightarrow> Inl UnsupportedInstruction)"

section \<open>Emulation\<close>

definition INSTRUCTION_ACCESS :: usize where "INSTRUCTION_ACCESS = 1"
definition LOAD_ACCESS :: usize where "LOAD_ACCESS = 5"
definition INSTRUCTION_PAGE :: usize where "INSTRUCTION_PAGE = 12"
definition LOAD_PAGE :: usize where "LOAD_PAGE = 13"

fun map_fetch_fault :: "TrapError \<Rightarrow> TrapError" where
  "map_fetch_fault (MemoryFault c t) =
     MemoryFault (if c = LOAD_ACCESS then INSTRUCTION_ACCESS
                  else if c = LOAD_PAGE then INSTRUCTION_PAGE else c) t"
| "map_fetch_fault e = e"

definition fetch_mapped :: "'w trap_env \<Rightarrow> usize \<Rightarrow> ('w, u32 \<times> nat) trap_op" where
  "fetch_mapped E pc m = rbind (fetch E pc m) (\<lambda>(r, m'). Done (map_sum map_fetch_fault id r, m'))"

definition CSR_TIME :: u16 where "CSR_TIME = 0xC01"

record TrapFacts =
  t_mepc :: usize
  t_mcause :: usize
  t_mtval :: usize
  t_mstatus :: usize

definition capture :: "'w machine \<Rightarrow> TrapFacts" where
  "capture m = \<lparr>t_mepc = mepc m, t_mcause = mcause m, t_mtval = mtval m, t_mstatus = mstatus m\<rparr>"

definition restore :: "TrapFacts \<Rightarrow> 'w machine \<Rightarrow> 'w machine" where
  "restore t m = m\<lparr>mcause := t_mcause t, mtval := t_mtval t, mstatus := t_mstatus t\<rparr>"

definition restore_and_advance :: "TrapFacts \<Rightarrow> nat \<Rightarrow> 'w machine \<Rightarrow> 'w machine run" where
  "restore_and_advance t len m =
     rbind (of_outcome (add_ovf (t_mepc t) (word_of_nat len))) (\<lambda>pc. Done ((restore t m)\<lparr>mepc := pc\<rparr>))"

definition restore_all :: "TrapFacts \<Rightarrow> 'w machine \<Rightarrow> 'w machine" where
  "restore_all t m = (restore t m)\<lparr>mepc := t_mepc t\<rparr>"

definition reject_machine_origin :: "('w, unit) trap_op" where
  "reject_machine_origin m =
     (if trapped_from_machine (frame m) then err MachineOrigin m else ret () m)"

definition with_trap_facts :: "(TrapFacts \<Rightarrow> ('w, nat) trap_op) \<Rightarrow> ('w, unit) trap_op" where
  "with_trap_facts body m =
     (let facts = capture m
      in rbind (body facts m) (\<lambda>(r, m').
           case r of
             Inr len \<Rightarrow> rbind (restore_and_advance facts len m') (\<lambda>m''. Done (Inr (), m''))
           | Inl e \<Rightarrow> Done (Inl e, restore_all facts m')))"

definition emulate_load :: "'w trap_env \<Rightarrow> ('w, unit) trap_op" where
  "emulate_load E =
     try_bind reject_machine_origin (\<lambda>_. with_trap_facts (\<lambda>facts.
       try_bind (fetch_mapped E (t_mepc facts)) (\<lambda>(raw, len).
         try_bind (of_result (decode_load E raw)) (\<lambda>op.
           try_bind (read_value E (t_mtval facts) (l_kind op)) (\<lambda>raw_value.
             try_bind (frame_write (unat (l_rd op)) (extend_value (l_kind op) raw_value)) (\<lambda>_. ret len))))))"

definition frame_read :: "nat \<Rightarrow> ('w, usize) trap_op" where
  "frame_read i m = lift_outcome (read_x (frame m) i) m"

definition emulate_store :: "'w trap_env \<Rightarrow> ('w, unit) trap_op" where
  "emulate_store E =
     try_bind reject_machine_origin (\<lambda>_. with_trap_facts (\<lambda>facts.
       try_bind (fetch_mapped E (t_mepc facts)) (\<lambda>(raw, len).
         try_bind (of_result (decode_store E raw)) (\<lambda>op.
           try_bind (frame_read (unat (s_rs2 op))) (\<lambda>v.
             try_bind (write_value E (t_mtval facts) v (s_kind op)) (\<lambda>_. ret len))))))"

text \<open>A declined access is \<open>AccessError\<close>, which converts to \<open>UnsupportedInstruction\<close>.\<close>

definition dispatcher_load :: "'w AccessDispatcher \<Rightarrow> usize \<Rightarrow> ValueKind \<Rightarrow> ('w, usize) trap_op" where
  "dispatcher_load d addr kind m =
     (case ad_load d addr kind (world m) of
        (r, w) \<Rightarrow> Done (case r of None \<Rightarrow> Inl UnsupportedInstruction | Some v \<Rightarrow> Inr v, m\<lparr>world := w\<rparr>))"

definition dispatcher_store :: "'w AccessDispatcher \<Rightarrow> usize \<Rightarrow> ValueKind \<Rightarrow> usize \<Rightarrow> ('w, unit) trap_op" where
  "dispatcher_store d addr kind v m =
     (case ad_store d addr kind v (world m) of
        (ok, w) \<Rightarrow> Done (if ok then Inr () else Inl UnsupportedInstruction, m\<lparr>world := w\<rparr>))"

definition get_dispatcher :: "'w trap_env \<Rightarrow> ('w, 'w AccessDispatcher) trap_op" where
  "get_dispatcher E =
     (case access_dispatcher E of None \<Rightarrow> err UnsupportedInstruction | Some d \<Rightarrow> ret d)"

definition dispatch_load_fault :: "'w trap_env \<Rightarrow> ('w, unit) trap_op" where
  "dispatch_load_fault E =
     try_bind reject_machine_origin (\<lambda>_. try_bind (get_dispatcher E) (\<lambda>d. with_trap_facts (\<lambda>facts.
       try_bind (fetch_mapped E (t_mepc facts)) (\<lambda>(raw, len).
         try_bind (of_result (decode_load E raw)) (\<lambda>op.
           try_bind (dispatcher_load d (t_mtval facts) (l_kind op)) (\<lambda>raw_value.
             try_bind (frame_write (unat (l_rd op)) (extend_value (l_kind op) raw_value)) (\<lambda>_. ret len)))))))"

definition dispatch_store_fault :: "'w trap_env \<Rightarrow> ('w, unit) trap_op" where
  "dispatch_store_fault E =
     try_bind reject_machine_origin (\<lambda>_. try_bind (get_dispatcher E) (\<lambda>d. with_trap_facts (\<lambda>facts.
       try_bind (fetch_mapped E (t_mepc facts)) (\<lambda>(raw, len).
         try_bind (of_result (decode_store E raw)) (\<lambda>op.
           try_bind (frame_read (unat (s_rs2 op))) (\<lambda>v.
             try_bind (dispatcher_store d (t_mtval facts) (s_kind op) v) (\<lambda>_. ret len)))))))"

definition device_counter_word :: "'w trap_env \<Rightarrow> u16 \<Rightarrow> 'w machine \<Rightarrow> usize option" where
  "device_counter_word E csr m =
     (case timer E of
        None \<Rightarrow> None
      | Some t \<Rightarrow> if csr = CSR_TIME then read_time_low t (world m) else None)"

definition machine_time :: "'w trap_env \<Rightarrow> 'w machine \<Rightarrow> u64 option" where
  "machine_time E m = (case timer E of None \<Rightarrow> None | Some t \<Rightarrow> read_time t (world m))"

definition counter_word :: "'w trap_env \<Rightarrow> u16 \<Rightarrow> ('w, usize) trap_op" where
  "counter_word E csr m =
     (case device_counter_word E csr m of
        Some v \<Rightarrow> ret v m
      | None \<Rightarrow>
          if csr = CSR_TIME
          then rbind (read_csr_guarded E CSR_TIME m) (\<lambda>(r, m').
                 case r of
                   Inr v \<Rightarrow> ret v m'
                 | Inl _ \<Rightarrow>
                     (case machine_time E m' of
                        Some t \<Rightarrow> ret (ucast t) m'
                      | None \<Rightarrow> err UnsupportedInstruction m'))
          else err UnsupportedInstruction m)"

definition emulate_csr_read :: "'w trap_env \<Rightarrow> ('w, unit) trap_op" where
  "emulate_csr_read E =
     try_bind reject_machine_origin (\<lambda>_ m.
       let raw = ucast (f_mtval (frame m)) :: u32
       in case (if pure_csr_read raw then device_counter_word E (ucast (drop_bit 20 raw)) m else None) of
            Some v \<Rightarrow>
              try_bind (frame_write (unat (drop_bit 7 raw AND 31)) v)
                (\<lambda>_ m. Done (Inr (), m\<lparr>mepc := f_mepc (frame m) + 4\<rparr>)) m
          | None \<Rightarrow>
              with_trap_facts (\<lambda>facts.
                try_bind (if raw AND 3 = 3 then ret (raw, 4) else fetch_mapped E (t_mepc facts)) (\<lambda>(raw, len).
                  try_bind (of_result (decode_csr_read E raw)) (\<lambda>op.
                    try_bind (counter_word E (c_csr op)) (\<lambda>v.
                      try_bind (frame_write (unat (c_rd op)) v) (\<lambda>_. ret len))))) m)"

section \<open>Redirection\<close>

text \<open>
  \<open>sstatus\<close> is the view of \<open>mstatus\<close> through the bits of \<open>sstatus_mask\<close>. Reading the field \<open>mpp\<close>
  panics on the reserved encoding.
\<close>

definition SSTATUS_SIE :: usize where "SSTATUS_SIE = push_bit 1 1"
definition SSTATUS_SPIE :: usize where "SSTATUS_SPIE = push_bit 5 1"
definition SSTATUS_SPP :: usize where "SSTATUS_SPP = push_bit 8 1"

definition sstatus :: "'w trap_env \<Rightarrow> usize \<Rightarrow> usize" where
  "sstatus E s = s AND sstatus_mask E"

definition sstatus_write :: "'w trap_env \<Rightarrow> usize \<Rightarrow> usize \<Rightarrow> usize" where
  "sstatus_write E v s = (s AND NOT (sstatus_mask E)) OR (v AND sstatus_mask E)"

definition mpp_of :: "usize \<Rightarrow> MPP outcome" where
  "mpp_of s = (if get_mpp s = 3 then Ret Machine else if get_mpp s = 1 then Ret Supervisor
               else if get_mpp s = 0 then Ret User else Panic)"

definition vector_address :: "usize \<Rightarrow> usize" where "vector_address v = v AND NOT 3"

definition redirect_trap :: "'w trap_env \<Rightarrow> (usize \<times> usize) option \<Rightarrow> ('w, unit) trap_op" where
  "redirect_trap E secondary m =
     rbind (of_outcome (mpp_of (mstatus m))) (\<lambda>p.
       if p = Machine then err MachineOrigin m
       else
         let (c, tval) = (case secondary of Some s \<Rightarrow> s | None \<Rightarrow> (mcause m, mtval m));
             m1 = m\<lparr>sepc := mepc m, scause := c, stval := tval\<rparr>;
             bits = sstatus E (mstatus m1);
             bits' = (bits AND NOT (SSTATUS_SIE OR SSTATUS_SPIE)) OR push_bit 4 (bits AND SSTATUS_SIE);
             m2 = m1\<lparr>mstatus := sstatus_write E bits' (mstatus m1)\<rparr>
         in rbind (of_outcome (mpp_of (mstatus m2))) (\<lambda>p.
              let s = sstatus E (mstatus m2);
                  s' = (if p = Supervisor then s OR SSTATUS_SPP else s AND NOT SSTATUS_SPP);
                  m3 = m2\<lparr>mstatus := put_mpp (mode_bits Supervisor) (sstatus_write E s' (mstatus m2))\<rparr>
              in ret () (m3\<lparr>mepc := vector_address (stvec m3)\<rparr>)))"

section \<open>Dispatch\<close>

definition ECALL_FROM_S :: usize where "ECALL_FROM_S = 9"
definition ILLEGAL_INSTRUCTION :: usize where "ILLEGAL_INSTRUCTION = 2"
definition LOAD_MISALIGNED :: usize where "LOAD_MISALIGNED = 4"
definition STORE_MISALIGNED :: usize where "STORE_MISALIGNED = 6"
definition LOAD_FAULT :: usize where "LOAD_FAULT = 5"
definition STORE_FAULT :: usize where "STORE_FAULT = 7"
definition MSOFT :: usize where "MSOFT = 3"
definition MTIMER :: usize where "MTIMER = 7"
definition MEXT :: usize where "MEXT = 11"

datatype Access = Load | Store

definition redirect_or_fatal :: "'w trap_env \<Rightarrow> TrapError option \<Rightarrow> 'w machine \<Rightarrow> 'w machine run" where
  "redirect_or_fatal E e m =
     (let secondary = (case e of Some (MemoryFault c t) \<Rightarrow> Some (c, t) | _ \<Rightarrow> None)
      in rbind (redirect_trap E secondary m) (\<lambda>(r, m'). case r of Inl _ \<Rightarrow> Fail_stop | Inr _ \<Rightarrow> Done m'))"

text \<open>Run an operation and redirect the trap when it fails.\<close>

definition or_redirect :: "'w trap_env \<Rightarrow> ('w, unit) trap_op \<Rightarrow> 'w machine \<Rightarrow> 'w machine run" where
  "or_redirect E op m =
     rbind (op m) (\<lambda>(r, m'). case r of Inl e \<Rightarrow> redirect_or_fatal E (Some e) m' | Inr _ \<Rightarrow> Done m')"

text \<open>Record an event with the published counters, if any.\<close>

definition count ::
    "'w trap_env \<Rightarrow> ('w TrapCounters \<Rightarrow> 'w \<Rightarrow> 'w outcome) \<Rightarrow> 'w machine \<Rightarrow> 'w machine run" where
  "count E ev m =
     (case counters E of
        None \<Rightarrow> Done m
      | Some c \<Rightarrow> rbind (of_outcome (ev c (world m))) (\<lambda>w. Done (m\<lparr>world := w\<rparr>)))"

definition illegal_instruction :: "'w trap_env \<Rightarrow> 'w machine \<Rightarrow> 'w machine run" where
  "illegal_instruction E m =
     rbind (count E record_illegal_instruction m) (or_redirect E (emulate_csr_read E))"

definition misaligned :: "'w trap_env \<Rightarrow> Access \<Rightarrow> 'w machine \<Rightarrow> 'w machine run" where
  "misaligned E a m =
     (case a of
        Load \<Rightarrow> rbind (count E record_misaligned_load m) (or_redirect E (emulate_load E))
      | Store \<Rightarrow> rbind (count E record_misaligned_store m) (or_redirect E (emulate_store E)))"

definition access_fault :: "'w trap_env \<Rightarrow> Access \<Rightarrow> 'w machine \<Rightarrow> 'w machine run" where
  "access_fault E a m =
     rbind (count E (case a of Load \<Rightarrow> record_access_load | Store \<Rightarrow> record_access_store) m) (\<lambda>m.
       if \<not> is_trapped_from_supervisor (frame m) then redirect_or_fatal E None m
      else or_redirect E (case a of Load \<Rightarrow> dispatch_load_fault E | Store \<Rightarrow> dispatch_store_fault E) m)"

definition stage_smode_trap_state :: "'w trap_env \<Rightarrow> 'w machine \<Rightarrow> 'w machine" where
  "stage_smode_trap_state E m =
     m\<lparr>sie := 0, mstatus := sstatus_write E (sstatus E (mstatus m) AND NOT SSTATUS_SIE) (mstatus m), satp := 0\<rparr>"

definition stage_next_mode :: "'w trap_env \<Rightarrow> usize \<Rightarrow> MPP \<Rightarrow> 'w machine \<Rightarrow> 'w machine" where
  "stage_next_mode E addr mode m =
     (let m = stage_smode_trap_state E m;
          m = m\<lparr>mstatus := put_mpp (mode_bits mode) (put_bit 7 True (mstatus m))\<rparr>;
          m = m\<lparr>mie := put_bit 3 True (mie m)\<rparr>;
          m = (if claim_ipi E \<noteq> None then m\<lparr>mie := put_bit 11 True (mie m)\<rparr> else m);
          m = (if \<not> has_sstc E then m\<lparr>mie := put_bit 7 True (mie m)\<rparr> else m)
      in m\<lparr>mepc := addr\<rparr>)"

text \<open>Clear every register of the frame and pass the hart number and the opaque word.\<close>

definition handoff_registers :: "'w trap_env \<Rightarrow> usize \<Rightarrow> 'w machine \<Rightarrow> 'w machine run" where
  "handoff_registers E opq m =
     (let m = m\<lparr>frame := (frame m)\<lparr>f_x := map (\<lambda>_. 0) (f_x (frame m))\<rparr>\<rparr>
      in rbind (of_outcome (write_x (frame m) 10 (this_hart E))) (\<lambda>f.
         rbind (of_outcome (write_x f 11 opq)) (\<lambda>f. Done (m\<lparr>frame := f\<rparr>))))"

definition enter_next_stage :: "'w trap_env \<Rightarrow> NextStage \<Rightarrow> 'w machine \<Rightarrow> 'w machine run" where
  "enter_next_stage E next_st m =
     handoff_registers E (opaque next_st) (stage_next_mode E (start_addr next_st) (next_mode next_st) m)"

fun read_params :: "TrapFrame \<Rightarrow> nat list \<Rightarrow> usize list outcome" where
  "read_params f [] = Ret []"
| "read_params f (i # is) = obind (read_x f i) (\<lambda>v. omap (\<lambda>vs. v # vs) (read_params f is))"

definition sbi_ecall :: "'w trap_env \<Rightarrow> 'w machine \<Rightarrow> 'w machine run" where
  "sbi_ecall E m =
     rbind (of_outcome (read_x (frame m) 17)) (\<lambda>extension.
     rbind (of_outcome (read_x (frame m) 16)) (\<lambda>function_id.
     rbind (of_outcome (read_params (frame m) [10, 11, 12, 13, 14, 15])) (\<lambda>param.
     rbind (policy E extension function_id param m) (\<lambda>(r, m).
     rbind (of_outcome (write_x (frame m) 10 (sbi_error r))) (\<lambda>f.
     rbind (of_outcome (write_x f 11 (sbi_value r))) (\<lambda>f.
     rbind (of_outcome (add_ovf (mepc m) 4)) (\<lambda>pc.
       let m = m\<lparr>frame := f, mepc := pc\<rparr>
       in case take_control_transfer (cell m) of
            (None, c) \<Rightarrow> Done (m\<lparr>cell := c\<rparr>)
          | (Some next_st, c) \<Rightarrow>
              let m = stage_smode_trap_state E (m\<lparr>cell := c\<rparr>);
                  m = m\<lparr>mstatus := put_mpp (mode_bits Supervisor) (mstatus m), mepc := start_addr next_st\<rparr>
              in handoff_registers E (opaque next_st) m)))))))"

definition local_event :: "'w machine \<Rightarrow> (HartEvent \<times> 'w machine) run" where
  "local_event m =
     (case take_local_event (cell m) of
        None \<Rightarrow> Waiting
      | Some r \<Rightarrow> rbind (of_outcome r) (\<lambda>(ev, c). Done (ev, m\<lparr>cell := c\<rparr>)))"

definition machine_soft :: "'w trap_env \<Rightarrow> 'w machine \<Rightarrow> 'w machine run" where
  "machine_soft E m =
     (case ipi_device_clear E of
        None \<Rightarrow> Panicked
      | Some clear \<Rightarrow>
          (case clear (world m) of
             (False, w) \<Rightarrow> Panicked
           | (True, w) \<Rightarrow>
               rbind (local_event (m\<lparr>world := w\<rparr>)) (\<lambda>(ev, m).
                 case ipi_handler E of
                   None \<Rightarrow> Panicked
                 | Some deliver \<Rightarrow>
                     rbind (deliver m) (\<lambda>m.
                       case ev of
                          EvStart next_st \<Rightarrow> enter_next_stage E next_st m
                        | EvPark \<Rightarrow> Done (m\<lparr>mie := put_bit 3 True (mie m)\<rparr>)
                        | EvNone \<Rightarrow> Done m))))"

definition machine_timer :: "'w trap_env \<Rightarrow> 'w machine \<Rightarrow> 'w machine" where
  "machine_timer E m =
     (let m = m\<lparr>mie := put_bit 7 False (mie m)\<rparr>
      in if has_sstc E then m
         else let m = (case timer E of None \<Rightarrow> m | Some t \<Rightarrow> m\<lparr>world := acknowledge_current t (world m)\<rparr>)
              in m\<lparr>mip := put_bit 5 True (mip m)\<rparr>)"

definition machine_external :: "'w trap_env \<Rightarrow> 'w machine \<Rightarrow> 'w machine run" where
  "machine_external E m =
     (case claim_ipi E of
        None \<Rightarrow> Done m
      | Some claim \<Rightarrow>
          (case claim (world m) of
             (False, w) \<Rightarrow> Done (m\<lparr>world := w\<rparr>)
           | (True, w) \<Rightarrow>
               rbind (local_event (m\<lparr>world := w\<rparr>)) (\<lambda>(ev, m).
                 case ipi_handler E of
                   None \<Rightarrow> Panicked
                 | Some deliver \<Rightarrow>
                     rbind (deliver m) (\<lambda>m.
                       case ev of
                          EvStart next_st \<Rightarrow> enter_next_stage E next_st m
                        | EvPark \<Rightarrow> Done (m\<lparr>mie := put_bit 11 True (put_bit 3 True (mie m))\<rparr>)
                        | EvNone \<Rightarrow> Done m))))"

definition trap_dispatch :: "'w trap_env \<Rightarrow> 'w machine \<Rightarrow> 'w machine run" where
  "trap_dispatch E m =
     (let code = f_mcause (frame m)
      in if bit code 63
         then let interrupt = code AND NOT (push_bit 63 1)
              in if interrupt = MSOFT then machine_soft E m
                 else if interrupt = MTIMER then Done (machine_timer E m)
                 else if interrupt = MEXT then machine_external E m
                 else Fail_stop
         else if trapped_from_machine (frame m) then Fail_stop
         else if code = ECALL_FROM_S then sbi_ecall E m
         else if code = ILLEGAL_INSTRUCTION then illegal_instruction E m
         else if code = LOAD_MISALIGNED then misaligned E Load m
         else if code = STORE_MISALIGNED then misaligned E Store m
         else if code = LOAD_FAULT then access_fault E Load m
         else if code = STORE_FAULT then access_fault E Store m
         else redirect_or_fatal E None m)"

text \<open>\<open>matches!(rd, 0 | 1 | 5..=7 | 10..=17 | 28..=31)\<close>\<close>

definition fast_rd :: "nat \<Rightarrow> bool" where
  "fast_rd rd \<longleftrightarrow> rd \<in> {0, 1, 5, 6, 7} \<or> 10 \<le> rd \<and> rd \<le> 17 \<or> 28 \<le> rd \<and> rd \<le> 31"

text \<open>The write to slot \<open>rd - 1\<close> goes through a raw pointer without an index check.\<close>

definition try_fast_emulate_time :: "'w trap_env \<Rightarrow> 'w machine \<Rightarrow> (bool \<times> 'w machine) run" where
  "try_fast_emulate_time E m =
     (let status = f_mstatus (frame m);
          inst = ucast (f_mtval (frame m)) :: u32;
          rd = unat (drop_bit 7 inst AND 31)
      in if f_mcause (frame m) \<noteq> ILLEGAL_INSTRUCTION \<or> status AND 0x1800 = 0x1800
            \<or> \<not> pure_csr_read inst \<or> \<not> fast_rd rd
         then Done (False, m)
         else case device_counter_word E (ucast (drop_bit 20 inst)) m of
             None \<Rightarrow> Done (False, m)
           | Some v \<Rightarrow> rbind (count E record_illegal_instruction m) (\<lambda>m.
               let pc = f_mepc (frame m);
                   m = (if rd \<noteq> 0 then m\<lparr>frame := (frame m)\<lparr>f_x := (f_x (frame m))[rd - 1 := v]\<rparr>\<rparr> else m)
               in Done (True, m\<lparr>mepc := pc + 4\<rparr>)))"

section \<open>The trap vector\<close>

text \<open>
  Slots of the callee-saved registers \<open>s0\<close> to \<open>s11\<close>, which the vector saves only after the fast path
  has declined. Until then they hold whatever the stack held, the list \<open>garbage\<close>.
\<close>

definition callee_slot :: "nat \<Rightarrow> bool" where
  "callee_slot i \<longleftrightarrow> i \<in> {7, 8} \<or> 17 \<le> i \<and> i \<le> 26"

definition save_caller :: "usize list \<Rightarrow> usize list \<Rightarrow> usize list" where
  "save_caller garbage regs = map (\<lambda>i. if callee_slot i then garbage ! i else regs ! i) [0..<31]"

definition save_callee :: "usize list \<Rightarrow> usize list \<Rightarrow> usize list" where
  "save_callee regs slots = map (\<lambda>i. if callee_slot i then regs ! i else slots ! i) [0..<31]"

text \<open>
  What the interrupted software continues with: its registers \<open>x1\<close> to \<open>x31\<close>, the mode and the program
  counter that \<open>mret\<close> installs, and the machine with the frame given back to the stack.
\<close>

record 'w resumed =
  r_regs :: "usize list"
  r_pc :: usize
  r_mode :: usize
  r_machine :: "'w machine"

definition no_frame :: TrapFrame where
  "no_frame = \<lparr>f_x = [], f_mepc = 0, f_mstatus = 0, f_mcause = 0, f_mtval = 0\<rparr>"

definition do_mret :: "usize list \<Rightarrow> 'w machine \<Rightarrow> 'w resumed" where
  "do_mret regs m =
     \<lparr>r_regs = regs, r_pc = mepc m, r_mode = get_mpp (mstatus m),
      r_machine = m\<lparr>frame := no_frame, mstatus := mret_status (mstatus m)\<rparr>\<rparr>"

definition trap_entry :: "'w trap_env \<Rightarrow> usize list \<Rightarrow> usize list \<Rightarrow> 'w machine \<Rightarrow> 'w resumed run" where
  "trap_entry E garbage regs m =
     (let stk = mscratch m
      in if stk = 0 then Fail_stop
      else
        let m = m\<lparr>frame := \<lparr>f_x = save_caller garbage regs, f_mepc = mepc m, f_mstatus = mstatus m,
                    f_mcause = mcause m, f_mtval = mtval m\<rparr>, mscratch := 0\<rparr>
        in rbind (if mcause m = 2 then try_fast_emulate_time E m else Done (False, m)) (\<lambda>(fast, m).
           if fast then Done (do_mret (save_callee regs (f_x (frame m))) (m\<lparr>mscratch := stk\<rparr>))
           else rbind (trap_dispatch E (m\<lparr>frame := (frame m)\<lparr>f_x := save_callee regs (f_x (frame m))\<rparr>\<rparr>))
                  (\<lambda>m. Done (do_mret (f_x (frame m)) (m\<lparr>mscratch := stk\<rparr>)))))"

end
