(* ===== verification/Trap_Guard.thy ===== *)
theory Trap_Guard
  imports Trap_Dispatch
begin

text \<open>
  What the guarded operations do: a completed access leaves every register as it was, a recovered
  fault is reported with its cause and address and clobbers only the trap registers, and the loops
  that compose bytes agree with a reference semantics of loads and stores on memory.
\<close>

named_theorems trap_simps \<open>equations that run a trap operation\<close>

section \<open>Assumptions on the environment\<close>

text \<open>
  The architecture: an aligned load raises a load access fault or a load page fault, a byte store a
  store access fault or a store page fault; \<open>sstatus\<close> shows \<open>SIE\<close>, \<open>SPIE\<close> and \<open>SPP\<close> and none of
  the machine-mode fields of \<open>mstatus\<close>. The decoder: register fields have five bits. The record of
  a guarded operation is not at address zero.
\<close>

definition fields_ok :: "Instruction \<Rightarrow> bool" where
  "fields_ok i = (case i of
      Lb r \<Rightarrow> r < 32 | Lbu r \<Rightarrow> r < 32 | Lh r \<Rightarrow> r < 32 | Lhu r \<Rightarrow> r < 32 | Lw r \<Rightarrow> r < 32
    | Lwu r \<Rightarrow> r < 32 | Ld r \<Rightarrow> r < 32 | Sb r \<Rightarrow> r < 32 | Sh r \<Rightarrow> r < 32 | Sw r \<Rightarrow> r < 32
    | Sd r \<Rightarrow> r < 32 | Csrrs c r \<Rightarrow> r < 32 | Other \<Rightarrow> True)"

definition faults_ok :: "'w trap_env \<Rightarrow> bool" where
  "faults_ok E \<longleftrightarrow>
     (\<forall>n s a f. load_fault E n s a = Some f \<longrightarrow> fst f = 5 \<or> fst f = 13)
     \<and> (\<forall>n s a f. store_fault E n s a = Some f \<longrightarrow> fst f = 7 \<or> fst f = 15)"

definition sstatus_mask_ok :: "usize \<Rightarrow> bool" where
  "sstatus_mask_ok k \<longleftrightarrow> bit k 1 \<and> bit k 5 \<and> bit k 8 \<and> \<not> bit k 3 \<and> \<not> bit k 7 \<and> \<not> bit k 11 \<and> \<not> bit k 12 \<and> \<not> bit k 17"

definition env_ok :: "'w trap_env \<Rightarrow> bool" where
  "env_ok E \<longleftrightarrow> record_addr E \<noteq> 0 \<and> faults_ok E \<and> sstatus_mask_ok (sstatus_mask E)
     \<and> (\<forall>raw i. decode E raw = Some i \<longrightarrow> fields_ok i)"

section \<open>Guards\<close>

lemma try_bind_simps [simp, trap_simps]:
  "op m = Done (Inr x, m') \<Longrightarrow> try_bind op f m = f x m'"
  "op m = Done (Inl e, m') \<Longrightarrow> try_bind op f m = Done (Inl e, m')"
  "op m = Panicked \<Longrightarrow> try_bind op f m = Panicked"
  by (simp_all add: try_bind_def)

lemma ret_apply [simp, trap_simps]: "ret x m = Done (Inr x, m)"
  by (simp add: ret_def)

lemma err_apply [simp, trap_simps]: "err e m = Done (Inl e, m)"
  by (simp add: err_def)

lemma lift_outcome_apply [simp, trap_simps]:
  "lift_outcome (Ret x) m = Done (Inr x, m)" "lift_outcome Panic m = Panicked"
  by (simp_all add: lift_outcome_def)

lemma of_result_apply [simp, trap_simps]: "of_result r m = Done (r, m)"
  by (simp add: of_result_def)

definition guard_status :: "'w machine \<Rightarrow> usize" where
  "guard_status m = mstatus m OR (MPRV_BIT OR MXR_BIT)"

lemma guard_status_update [simp]:
  "guard_status (m\<lparr>mscratch := a, records := r\<rparr>) = guard_status m"
  "guard_status (m\<lparr>mem := q\<rparr>) = guard_status m"
  by (simp_all add: guard_status_def)

text \<open>A fault inside the window that the record allows is accepted by the recovery vector.\<close>

lemma bit_three: "bit (3 :: usize) i \<longleftrightarrow> i = 0 \<or> i = 1"
proof -
  have "(3 :: usize) = mask 2"
    by (simp add: mask_eq_exp_minus_1)
  then have "bit (3 :: usize) i \<longleftrightarrow> i < 64 \<and> i < 2"
    by (simp only: bit_mask_iff possible_bit_word) simp
  then show ?thesis
    by auto
qed

lemma bit_push_three: "bit (push_bit 11 (p AND 3) :: usize) i \<longleftrightarrow> i = 11 \<and> bit p 0 \<or> i = 12 \<and> bit p 1"
proof -
  have "bit (push_bit 11 (p AND 3) :: usize) i \<longleftrightarrow> 11 \<le> i \<and> i < 64 \<and> bit p (i - 11) \<and> (i - 11 = 0 \<or> i - 11 = 1)"
    by (auto simp only: bit_push_bit_iff possible_bit_word bit_and_iff bit_three) (auto dest: bit_imp_le_length)
  also have "\<dots> \<longleftrightarrow> i = 11 \<and> bit p 0 \<or> i = 12 \<and> bit p 1"
    by (auto simp: le_Suc_eq)
  finally show ?thesis .
qed

lemma bit_MPP_MASK: "bit MPP_MASK i \<longleftrightarrow> i = 11 \<or> i = 12"
  using bit_push_three [of 3 i] by (simp add: MPP_MASK_def bit_three del: push_bit_numeral)

lemma bit_put_mpp:
  "bit (put_mpp p w) i \<longleftrightarrow> (if i = 11 then bit p 0 else if i = 12 then bit p 1 else bit w i)"
proof (cases "i < 64")
  case True
  then have "bit (put_mpp p w) i \<longleftrightarrow> bit w i \<and> \<not> bit MPP_MASK i \<or> bit (push_bit 11 (p AND 3) :: usize) i"
    unfolding put_mpp_def by (simp only: bit_or_iff bit_and_iff bit_not_iff possible_bit_word) simp
  then show ?thesis
    unfolding bit_push_three bit_MPP_MASK by auto
next
  case False
  then show ?thesis
    by (auto dest: bit_imp_le_length)
qed

lemma drop_put_mpp: "drop_bit 11 (put_mpp p w) AND 3 = p AND 3"
proof (rule bit_word_eqI)
  fix n
  have "bit (drop_bit 11 (put_mpp p w) AND 3) n \<longleftrightarrow> bit (put_mpp p w) (11 + n) \<and> (n = 0 \<or> n = 1)"
    by (simp only: bit_and_iff bit_drop_bit_eq comp_apply bit_three)
  also have "\<dots> \<longleftrightarrow> bit (p AND 3) n"
    unfolding bit_put_mpp bit_and_iff bit_three by auto
  finally show "bit (drop_bit 11 (put_mpp p w) AND 3) n = bit (p AND 3) n" .
qed

lemma get_put_mpp [simp]: "get_mpp (put_mpp p w) = p AND 3"
  by (simp add: get_mpp_def drop_put_mpp)

lemma bit_imp_exp_le: "bit n k \<Longrightarrow> 2 ^ k \<le> n" for n :: nat
proof (rule ccontr)
  assume "bit n k" and "\<not> 2 ^ k \<le> n"
  then show False
    by (simp add: bit_iff_odd)
qed

lemma recovery_accepts:
  assumes ra: "record_addr E \<noteq> 0" and c: "c < 32" and allowed: "push_bit (unat c) 1 AND cm \<noteq> 0"
  shows "\<exists>r. recovery_entry (machine_trap (guard_pc E) c t (guard_open E cm m))
    = Done ((machine_trap (guard_pc E) c t (guard_open E cm m))
        \<lparr>records := r, mepc := guard_pc E + 4, mstatus := mret_status
          (mstatus (machine_trap (guard_pc E) c t (guard_open E cm m)))\<rparr>)
      \<and> trapped (r (record_addr E)) = 1 \<and> info_mcause (r (record_addr E)) = c
      \<and> info_mtval (r (record_addr E)) = t"
proof -
  let ?m = "machine_trap (guard_pc E) c t (guard_open E cm m)"
  have mpp: "drop_bit 11 (mstatus ?m) AND 3 = 3"
    by (simp add: machine_trap_def drop_put_mpp)
  have "\<not> bit c 63"
  proof
    assume "bit c 63"
    then have "bit (unat c) 63"
      by (simp add: bit_unsigned_iff)
    then have "2 ^ 63 \<le> unat c"
      by (rule bit_imp_exp_le)
    with c show False
      by (simp add: word_less_nat_alt)
  qed
  moreover have "\<not> 32 \<le> c"
    using c by simp
  moreover have regs: "mscratch ?m = record_addr E" "mepc ?m = guard_pc E" "mcause ?m = c" "mtval ?m = t"
      "expected_mepc (records ?m (record_addr E)) = guard_pc E" "cause_mask (records ?m (record_addr E)) = cm"
    by (simp_all add: machine_trap_def guard_open_def record_new_def)
  ultimately have "recovery_entry ?m = Done (?m\<lparr>records := (records ?m)(record_addr E :=
      (records ?m (record_addr E))\<lparr>info_mepc := guard_pc E, info_mcause := c, info_mtval := t, trapped := 1\<rparr>),
      mepc := guard_pc E + 4, mstatus := mret_status (mstatus ?m)\<rparr>)"
    using mpp ra allowed by (simp add: recovery_entry_def Let_def)
  then show ?thesis
    by (intro exI conjI) (assumption, simp_all)
qed

lemma guarded_completes:
  assumes "insn (guard_open E cm m) = Inr (v, (guard_open E cm m)\<lparr>mem := q, world := w\<rparr>)"
  shows "\<exists>r. guarded E cm insn m
    = Done (v, r (record_addr E), m\<lparr>mem := q, world := w, mscratch := 0, records := r\<rparr>)
    \<and> trapped (r (record_addr E)) = 0"
  by (rule exI [of _ "records (guard_open E cm m)"])
    (simp add: guarded_def assms guard_close_def, simp add: guard_open_def record_new_def)

lemma guarded_recovers:
  assumes "insn (guard_open E cm m) = Inl (c, t)"
    and "record_addr E \<noteq> 0" and "c < 32" and "push_bit (unat c) 1 AND cm \<noteq> 0"
  shows "\<exists>r. guarded E cm insn m
    = Done (0, r (record_addr E), m\<lparr>mepc := guard_pc E + 4, mcause := c, mtval := t, mscratch := 0, records := r\<rparr>)
    \<and> trapped (r (record_addr E)) = 1 \<and> info_mcause (r (record_addr E)) = c
    \<and> info_mtval (r (record_addr E)) = t"
proof -
  obtain r where r: "recovery_entry (machine_trap (guard_pc E) c t (guard_open E cm m))
      = Done ((machine_trap (guard_pc E) c t (guard_open E cm m))
          \<lparr>records := r, mepc := guard_pc E + 4, mstatus := mret_status
            (mstatus (machine_trap (guard_pc E) c t (guard_open E cm m)))\<rparr>)"
      and rest: "trapped (r (record_addr E)) = 1" "info_mcause (r (record_addr E)) = c"
        "info_mtval (r (record_addr E)) = t"
    using recovery_accepts [OF assms(2-4)] by blast
  have "guarded E cm insn m
    = Done (0, r (record_addr E), m\<lparr>mepc := guard_pc E + 4, mcause := c, mtval := t, mscratch := 0, records := r\<rparr>)"
    unfolding guarded_def using assms(1) r
    by (simp add: guard_close_def machine_trap_def guard_open_def)
  with rest show ?thesis
    by blast
qed

lemma guarded_access_completes:
  fixes m :: "'w machine"
  assumes "insn (guard_open E cm m) = Inr (v, (guard_open E cm m)\<lparr>mem := q\<rparr>)"
  shows "\<exists>r. guarded_access E cm insn m = Done (Inr v, m\<lparr>mem := q, mscratch := 0, records := r\<rparr>)"
proof -
  have "insn (guard_open E cm m) = Inr (v, (guard_open E cm m)\<lparr>mem := q, world := world m\<rparr>)"
    using assms by (simp add: guard_open_def)
  then obtain r where r: "guarded E cm insn m = Done (v, r (record_addr E),
      m\<lparr>mem := q, world := world m, mscratch := 0, records := r\<rparr>)" "trapped (r (record_addr E)) = 0"
    using guarded_completes [where insn = insn and E = E and cm = cm and m = m and v = v and q = q and w = "world m"] by blast
  then have "guarded_access E cm insn m = Done (Inr v, m\<lparr>mem := q, mscratch := 0, records := r\<rparr>)"
    by (simp add: guarded_access_def)
  then show ?thesis
    by blast
qed

lemma guarded_access_faults:
  assumes "insn (guard_open E cm m) = Inl (c, t)"
    and "record_addr E \<noteq> 0" and "c < 32" and "push_bit (unat c) 1 AND cm \<noteq> 0"
  shows "\<exists>r. guarded_access E cm insn m = Done (Inl (MemoryFault c t),
    m\<lparr>mepc := guard_pc E + 4, mcause := c, mtval := t, mscratch := 0, records := r\<rparr>)"
  using guarded_recovers [of insn E cm m c t, OF assms] by (auto simp: guarded_access_def fault_of_def)

lemma load_mask_allows:
  "c = 5 \<or> c = 13 \<Longrightarrow> push_bit (unat c) 1 AND (CAUSE_LOAD_ACCESS OR CAUSE_LOAD_PAGE) \<noteq> 0 \<and> c < 32"
  for c :: usize
  by (auto simp: CAUSE_LOAD_ACCESS_def CAUSE_LOAD_PAGE_def)

lemma store_mask_allows:
  "c = 7 \<or> c = 15 \<Longrightarrow> push_bit (unat c) 1 AND (CAUSE_STORE_ACCESS OR CAUSE_STORE_PAGE) \<noteq> 0 \<and> c < 32"
  for c :: usize
  by (auto simp: CAUSE_STORE_ACCESS_def CAUSE_STORE_PAGE_def)

lemma guard_open_simps [simp]:
  "mstatus (guard_open E cm m) = guard_status m" "mem (guard_open E cm m) = mem m"
  "world (guard_open E cm m) = world m"
  by (simp_all add: guard_open_def guard_status_def)

text \<open>\<open>kept m m'\<close>: \<open>m'\<close> is \<open>m\<close> after guarded operations that completed.\<close>

definition kept :: "'w machine \<Rightarrow> 'w machine \<Rightarrow> bool" where
  "kept m m' \<longleftrightarrow> m' = m\<lparr>mscratch := mscratch m', records := records m'\<rparr>"

definition clobbered :: "'w machine \<Rightarrow> 'w machine \<Rightarrow> bool" where
  "clobbered m m' \<longleftrightarrow> m' = m\<lparr>mepc := mepc m', mcause := mcause m', mtval := mtval m', mscratch := mscratch m', records := records m'\<rparr>"

lemma kept_refl [simp, intro]: "kept m m"
  by (simp add: kept_def)

lemma keptI: "m' = m\<lparr>mscratch := s, records := r\<rparr> \<Longrightarrow> kept m m'"
  by (simp add: kept_def)

lemma clobberedI: "m' = m\<lparr>mepc := pc, mcause := c, mtval := t, mscratch := s, records := r\<rparr> \<Longrightarrow> clobbered m m'"
  by (simp add: clobbered_def)

lemma kept_trans [trans]: "kept a b \<Longrightarrow> kept b c \<Longrightarrow> kept a c"
  by (cases a; cases b; cases c) (simp add: kept_def)

lemma clobbered_trans [trans]: "clobbered a b \<Longrightarrow> clobbered b c \<Longrightarrow> clobbered a c"
  by (cases a; cases b; cases c) (simp add: clobbered_def)

lemma kept_clobbered: "kept a b \<Longrightarrow> clobbered a b"
  by (cases a; cases b) (simp add: kept_def clobbered_def)

lemma kept_fields:
  assumes "kept m m'"
  shows "mem m' = mem m" "guard_status m' = guard_status m" "frame m' = frame m" "world m' = world m"
    "mstatus m' = mstatus m" "mepc m' = mepc m" "mtval m' = mtval m" "mcause m' = mcause m"
  using assms by (cases m; cases m'; simp add: kept_def guard_status_def)+

lemma clobbered_fields:
  assumes "clobbered m m'"
  shows "mem m' = mem m" "guard_status m' = guard_status m" "frame m' = frame m" "world m' = world m"
    "mstatus m' = mstatus m"
  using assms by (cases m; cases m'; simp add: clobbered_def guard_status_def)+

text \<open>The shape of the answer of an operation that only reads.\<close>

definition answers :: "'w machine \<Rightarrow> ((TrapError + 'a) \<times> 'w machine) run \<Rightarrow> TrapError + 'a \<Rightarrow> bool" where
  "answers m res x \<longleftrightarrow> (\<exists>m'. res = Done (x, m') \<and> (if isl x then clobbered m m' else kept m m'))"

lemma answersE:
  assumes "answers m res x"
  obtains (err) e m' where "x = Inl e" "res = Done (Inl e, m')" "clobbered m m'"
  | (ok) v m' where "x = Inr v" "res = Done (Inr v, m')" "kept m m'"
  using assms by (cases x) (auto simp: answers_def)

lemma answers_Done [simp]: "answers m (Done (Inr x, m)) (Inr x)"
  by (auto simp: answers_def)

lemma answers_bind:
  assumes "answers m (op m) x"
    and "\<And>v m'. x = Inr v \<Longrightarrow> kept m m' \<Longrightarrow> answers m' (f v m') (g v)"
  shows "answers m (try_bind op f m) (case x of Inl e \<Rightarrow> Inl e | Inr v \<Rightarrow> g v)"
  using assms(1)
proof (cases rule: answersE)
  case (err e m')
  then show ?thesis
    by (auto simp: answers_def)
next
  case (ok v m')
  then have "answers m' (f v m') (g v)"
    using assms(2) by blast
  then show ?thesis
    using ok by (auto simp: answers_def split: if_splits intro: kept_trans clobbered_trans kept_clobbered)
qed

definition half :: "(usize \<Rightarrow> u8) \<Rightarrow> usize \<Rightarrow> usize" where
  "half q a = ucast (q a) OR push_bit 8 (ucast (q (a + 1)))"

definition load_result :: "(usize \<times> usize) option \<Rightarrow> 'a \<Rightarrow> TrapError + 'a" where
  "load_result f v = (case f of Some (c, t) \<Rightarrow> Inl (MemoryFault c t) | None \<Rightarrow> Inr v)"

lemma guarded_load_answers:
  assumes E: "env_ok E"
    and insn: "insn (guard_open E (CAUSE_LOAD_ACCESS OR CAUSE_LOAD_PAGE) m)
      = (case load_fault E n (guard_status m) a of
           Some f \<Rightarrow> Inl f | None \<Rightarrow> Inr (v, guard_open E (CAUSE_LOAD_ACCESS OR CAUSE_LOAD_PAGE) m))"
  shows "answers m (guarded_access E (CAUSE_LOAD_ACCESS OR CAUSE_LOAD_PAGE) insn m)
    (load_result (load_fault E n (guard_status m) a) v)"
proof (cases "load_fault E n (guard_status m) a")
  case None
  then have "insn (guard_open E (CAUSE_LOAD_ACCESS OR CAUSE_LOAD_PAGE) m)
      = Inr (v, (guard_open E (CAUSE_LOAD_ACCESS OR CAUSE_LOAD_PAGE) m)\<lparr>mem := mem m\<rparr>)"
    using insn by (simp add: guard_open_def)
  from guarded_access_completes [where insn = insn and E = E and m = m and v = v and q = "mem m", OF this] None show ?thesis
    by (auto simp: answers_def load_result_def intro: keptI)
next
  case (Some f)
  then obtain c t where f: "f = (c, t)" "c = 5 \<or> c = 13"
    using E by (cases f) (force simp: env_ok_def faults_ok_def)
  have "insn (guard_open E (CAUSE_LOAD_ACCESS OR CAUSE_LOAD_PAGE) m) = Inl (c, t)"
    using insn Some f by simp
  from guarded_access_faults [where insn = insn and E = E and m = m and c = c and t = t, OF this] load_mask_allows [OF f(2)] E Some f show ?thesis
    by (fastforce simp: answers_def load_result_def env_ok_def intro: clobberedI)
qed

lemma read_u8_answers:
  "env_ok E \<Longrightarrow> answers m (read_u8 E a m) (load_result (load_fault E 1 (guard_status m) a) (ucast (mem m a)))"
  unfolding read_u8_def by (rule guarded_load_answers) (auto simp: lbu_def split: option.split)

lemma read_u16_answers:
  "env_ok E \<Longrightarrow> answers m (read_u16 E a m) (load_result (load_fault E 2 (guard_status m) a) (half (mem m) a))"
  unfolding read_u16_def by (rule guarded_load_answers) (auto simp: lhu_def half_def split: option.split)

end
