(* ===== verification/Trap_Memory.thy ===== *)
theory Trap_Memory
  imports Trap_Guard
begin

text \<open>
  The byte loops of the guarded accesses against a reference semantics of memory: a load is the
  little-endian integer of its bytes, read as signed or unsigned; a store changes the bytes it
  covers up to the first one that faults; an instruction is fetched as one or two halfwords.
\<close>

section \<open>Loads\<close>

primrec le_int :: "(usize \<Rightarrow> u8) \<Rightarrow> usize \<Rightarrow> nat \<Rightarrow> int" where
  "le_int q a 0 = 0"
| "le_int q a (Suc n) = le_int q a n + 2 ^ (8 * n) * uint (q (a + word_of_nat n))"

definition first_fault :: "(usize \<Rightarrow> (usize \<times> usize) option) \<Rightarrow> nat list \<Rightarrow> usize \<Rightarrow> (usize \<times> usize) option" where
  "first_fault f is a =
     (case find (\<lambda>i. f (a + word_of_nat i) \<noteq> None) is of None \<Rightarrow> None | Some i \<Rightarrow> f (a + word_of_nat i))"

text \<open>The bytes of a load are visited from the highest to the lowest address.\<close>

definition load_ref :: "'w trap_env \<Rightarrow> usize \<Rightarrow> (usize \<Rightarrow> u8) \<Rightarrow> usize \<Rightarrow> nat \<Rightarrow> TrapError + int" where
  "load_ref E s q a n = load_result (first_fault (load_fault E 1 s) (rev [0..<n]) a) (le_int q a n)"

lemma add_ovf_no_wrap:
  "unat a + i < 2 ^ 64 \<Longrightarrow> add_ovf a (word_of_nat i) = Ret (a + word_of_nat i)" for a :: usize
proof -
  assume "unat a + i < 2 ^ 64"
  moreover from this have "unat (word_of_nat i :: usize) = i"
    by (simp add: unat_of_nat)
  ultimately show ?thesis
    by (simp add: add_ovf_def checked_add_def)
qed

lemma push_or_byte: "push_bit 8 d OR ucast b = d * 256 + ucast b" for d :: usize and b :: u8
proof -
  have "push_bit 8 d + (ucast b :: usize) = push_bit 8 d OR ucast b"
    by (rule disjunctive_add) (auto simp: bit_push_bit_iff bit_ucast_iff dest: bit_imp_le_length)
  then show ?thesis
    by (simp add: push_bit_eq_mult)
qed

lemma word_of_int_uint_ucast: "word_of_int (uint b) = (ucast b :: usize)" for b :: u8
  by simp

lemma read_loop_answers:
  assumes "env_ok E" and "unat a + n \<le> 2 ^ 64"
  shows "answers m (read_loop E a (rev [0..<n]) d m)
    (load_result (first_fault (load_fault E 1 (guard_status m)) (rev [0..<n]) a)
       (d * 2 ^ (8 * n) + word_of_int (le_int (mem m) a n)))"
  using assms(2)
proof (induction n arbitrary: d m)
  case 0
  then show ?case
    by (simp add: answers_Done first_fault_def load_result_def)
next
  case (Suc n)
  let ?a = "a + word_of_nat n" and ?f = "load_fault E 1 (guard_status m)"
  have ovf: "add_ovf a (word_of_nat n) = Ret ?a"
    using Suc.prems by (intro add_ovf_no_wrap) simp
  let ?rest = "\<lambda>b. read_loop E a (rev [0..<n]) (push_bit 8 d OR b)"
  let ?x = "load_result (?f ?a) (ucast (mem m ?a))"
  let ?g = "\<lambda>b. load_result (first_fault ?f (rev [0..<n]) a)
       ((push_bit 8 d OR b) * 2 ^ (8 * n) + word_of_int (le_int (mem m) a n))"
  have step: "answers m (try_bind (read_u8 E ?a) ?rest m) (case ?x of Inl e \<Rightarrow> Inl e | Inr b \<Rightarrow> ?g b)"
  proof (rule answers_bind)
    show "answers m (read_u8 E ?a m) ?x"
      using assms(1) by (rule read_u8_answers)
    fix b m' assume "kept m m'"
    then show "answers m' (?rest b m') (?g b)"
      using Suc.IH [of m' "push_bit 8 d OR b"] Suc.prems by (simp add: kept_fields)
  qed
  have "(push_bit 8 d OR ucast (mem m ?a)) * 2 ^ (8 * n) + word_of_int (le_int (mem m) a n)
      = d * 2 ^ (8 * Suc n) + word_of_int (le_int (mem m) a (Suc n))"
    by (simp add: push_or_byte algebra_simps power_add)
  then have "(case ?x of Inl e \<Rightarrow> Inl e | Inr b \<Rightarrow> ?g b)
      = load_result (first_fault ?f (rev [0..<Suc n]) a)
          (d * 2 ^ (8 * Suc n) + word_of_int (le_int (mem m) a (Suc n)))"
    by (simp add: load_result_def first_fault_def split: option.split prod.split)
  moreover have "read_loop E a (rev [0..<Suc n]) d m = try_bind (read_u8 E ?a) ?rest m"
    using ovf by simp
  ultimately show ?case
    using step by (simp only:)
qed

lemma read_value_answers:
  assumes "env_ok E" and "unat a + width k \<le> 2 ^ 64"
  shows "answers m (read_value E a k m)
    (map_sum id word_of_int (load_ref E (guard_status m) (mem m) a (width k)))"
  using read_loop_answers [OF assms, of m 0]
  by (auto simp: read_value_def load_ref_def load_result_def split: option.splits prod.splits)

text \<open>How a load interprets the integer of its bytes.\<close>

fun is_signed :: "ValueKind \<Rightarrow> bool" where
  "is_signed Signed8 = True"
| "is_signed Signed16 = True"
| "is_signed Signed32 = True"
| "is_signed Signed64 = True"
| "is_signed _ = False"

definition kind_int :: "ValueKind \<Rightarrow> int \<Rightarrow> int" where
  "kind_int k x = (if is_signed k \<and> 2 ^ (8 * width k - 1) \<le> x then x - 2 ^ (8 * width k) else x)"

lemma le_int_bounds: "0 \<le> le_int q a n \<and> le_int q a n < 2 ^ (8 * n)"
proof (induction n)
  case (Suc n)
  have "uint (q (a + word_of_nat n)) < 256"
    using uint_bounded [of "q (a + word_of_nat n)"] by simp
  then have "2 ^ (8 * n) * uint (q (a + word_of_nat n)) \<le> 2 ^ (8 * n) * (255 :: int)"
    by (intro mult_left_mono) auto
  moreover have "(2 :: int) ^ (8 * Suc n) = 256 * 2 ^ (8 * n)"
    by (simp add: power_add)
  moreover have "0 \<le> 2 ^ (8 * n) * uint (q (a + word_of_nat n))"
    by simp
  ultimately show ?case
    using Suc unfolding le_int.simps by linarith
qed simp

lemma ucast_word_of_int:
  "LENGTH('a) \<le> 64 \<Longrightarrow> ucast (word_of_int x :: usize) = (word_of_int x :: 'a::len word)"
  by (intro bit_word_eqI) (auto simp: bit_simps)

lemma ucast_ucast_word_of_int:
  assumes "0 \<le> x" and "x < 2 ^ LENGTH('a)" and "LENGTH('a) \<le> 64"
  shows "ucast (ucast (word_of_int x :: usize) :: 'a::len word) = (word_of_int x :: usize)"
proof -
  have "uint (word_of_int x :: 'a word) = x"
    using assms(1,2) by (simp add: uint_word_of_int take_bit_int_eq_self)
  then show ?thesis
    unfolding ucast_word_of_int [OF assms(3)] by (simp only: ucast_eq)
qed

lemma signed_take_bit_range:
  "0 \<le> x \<Longrightarrow> x < 2 ^ Suc n \<Longrightarrow> signed_take_bit n x = (if 2 ^ n \<le> x then x - 2 ^ Suc n else x)"
  for x :: int
proof -
  assume x: "0 \<le> x" "x < 2 ^ Suc n"
  have "bit x n \<longleftrightarrow> 2 ^ n \<le> x"
  proof (cases "2 ^ n \<le> x")
    case True
    have "x div 2 ^ n = 1 + (x - 2 ^ n) div 2 ^ n"
      using True by (metis add.commute diff_add_cancel div_add_self2 power_not_zero zero_neq_numeral)
    also have "(x - 2 ^ n) div 2 ^ n = 0"
      using True x by (intro div_pos_pos_trivial) auto
    finally show ?thesis
      using True by (simp add: bit_iff_odd)
  next
    case False
    then show ?thesis
      using x by (simp add: bit_iff_odd div_pos_pos_trivial)
  qed
  then show ?thesis
    using x by (simp add: signed_take_bit_eq_take_bit_minus take_bit_int_eq_self)
qed

lemma scast_ucast_word_of_int:
  fixes x :: int
  assumes "0 \<le> x" and "x < 2 ^ LENGTH('a)" and "LENGTH('a) \<le> 64"
  shows "scast (ucast (word_of_int x :: usize) :: 'a::len word)
    = (word_of_int (if 2 ^ (LENGTH('a) - 1) \<le> x then x - 2 ^ LENGTH('a) else x) :: usize)"
proof -
  have L: "Suc (LENGTH('a) - 1) = LENGTH('a)"
    by simp
  have "sint (word_of_int x :: 'a word) = signed_take_bit (LENGTH('a) - 1) x"
    by (simp add: sint_sbintrunc')
  then have "sint (word_of_int x :: 'a word) = (if 2 ^ (LENGTH('a) - 1) \<le> x then x - 2 ^ LENGTH('a) else x)"
    using signed_take_bit_range [of x "LENGTH('a) - 1"] assms(1,2) by (simp only: L)
  then show ?thesis
    by (simp only: ucast_word_of_int [OF assms(3)] scast_eq)
qed

lemma extend_value_ref:
  assumes "0 \<le> x" and "x < 2 ^ (8 * width k)"
  shows "extend_value k (word_of_int x) = word_of_int (kind_int k x)"
proof (cases k)
  case Signed64
  have "(word_of_int (x - 2 ^ 64) :: usize) = word_of_int x"
    by (simp add: word_of_int_eq_iff take_bit_eq_mod)
  with Signed64 show ?thesis
    by (simp add: kind_int_def)
qed (use assms scast_ucast_word_of_int [where 'a = 8, of x] scast_ucast_word_of_int [where 'a = 16, of x]
    scast_ucast_word_of_int [where 'a = 32, of x] ucast_ucast_word_of_int [where 'a = 8, of x]
    ucast_ucast_word_of_int [where 'a = 16, of x] ucast_ucast_word_of_int [where 'a = 32, of x]
    in \<open>simp_all add: kind_int_def\<close>)

section \<open>Stores\<close>

text \<open>The bytes \<open>i\<close> to \<open>j - 1\<close> of the value stored at \<open>a\<close>.\<close>

definition store_bytes :: "(usize \<Rightarrow> u8) \<Rightarrow> usize \<Rightarrow> usize \<Rightarrow> nat \<Rightarrow> nat \<Rightarrow> usize \<Rightarrow> u8" where
  "store_bytes q a v i j x =
     (let d = unat (x - a) in if i \<le> d \<and> d < j then ucast (drop_bit (8 * d) v) else q x)"

definition store_limit :: "'w trap_env \<Rightarrow> usize \<Rightarrow> usize \<Rightarrow> nat \<Rightarrow> nat \<Rightarrow> nat" where
  "store_limit E s a i n =
     (case find (\<lambda>j. store_fault E 1 s (a + word_of_nat j) \<noteq> None) [i..<n] of None \<Rightarrow> n | Some j \<Rightarrow> j)"

definition store_ref :: "'w trap_env \<Rightarrow> usize \<Rightarrow> usize \<Rightarrow> nat \<Rightarrow> nat \<Rightarrow> TrapError + unit" where
  "store_ref E s a i n = load_result (first_fault (store_fault E 1 s) [i..<n] a) ()"

lemma store_bytes_empty: "store_bytes q a v i i = q"
  by (rule ext) (auto simp: store_bytes_def Let_def)

lemma store_bytes_step:
  assumes "i < j" and "i < 2 ^ 64"
  shows "store_bytes (q(a + word_of_nat i := ucast (drop_bit (8 * i) v))) a v (Suc i) j = store_bytes q a v i j"
proof
  fix x
  have "x = a + word_of_nat i \<longleftrightarrow> unat (x - a) = i"
  proof
    assume "x = a + word_of_nat i"
    then show "unat (x - a) = i"
      using assms(2) by (simp add: unat_of_nat)
  next
    assume "unat (x - a) = i"
    then have "x - a = word_of_nat i"
      by (metis word_of_nat_unat)
    then show "x = a + word_of_nat i"
      by (metis add_diff_cancel_left' diff_add_cancel add.commute)
  qed
  then show "store_bytes (q(a + word_of_nat i := ucast (drop_bit (8 * i) v))) a v (Suc i) j x = store_bytes q a v i j x"
    using assms(1) by (auto simp: store_bytes_def Let_def)
qed

lemma write_u8_answers:
  assumes E: "env_ok E"
  shows "\<exists>m'. write_u8 E a v m = Done (load_result (store_fault E 1 (guard_status m) a) v, m')
    \<and> (case store_fault E 1 (guard_status m) a of
         None \<Rightarrow> kept (m\<lparr>mem := (mem m)(a := ucast v)\<rparr>) m' | Some _ \<Rightarrow> clobbered m m')"
proof (cases "store_fault E 1 (guard_status m) a")
  case None
  let ?o = "guard_open E (CAUSE_STORE_ACCESS OR CAUSE_STORE_PAGE) m"
  have "sb E a v ?o = Inr (v, ?o\<lparr>mem := (mem m)(a := ucast v)\<rparr>)"
    using None by (simp add: sb_def)
  then obtain r where "write_u8 E a v m = Done (Inr v, m\<lparr>mem := (mem m)(a := ucast v), mscratch := 0, records := r\<rparr>)"
    using guarded_access_completes [where insn = "sb E a v" and E = E and m = m and v = v
        and q = "(mem m)(a := ucast v)" and cm = "CAUSE_STORE_ACCESS OR CAUSE_STORE_PAGE"]
    unfolding write_u8_def by blast
  then show ?thesis
    using None by (auto simp: load_result_def intro!: keptI)
next
  case (Some f)
  then obtain c t where f: "f = (c, t)" "c = 7 \<or> c = 15"
    using E by (cases f) (force simp: env_ok_def faults_ok_def)
  have "sb E a v (guard_open E (CAUSE_STORE_ACCESS OR CAUSE_STORE_PAGE) m) = Inl (c, t)"
    using Some f by (simp add: sb_def)
  then obtain r where "write_u8 E a v m = Done (Inl (MemoryFault c t),
      m\<lparr>mepc := guard_pc E + 4, mcause := c, mtval := t, mscratch := 0, records := r\<rparr>)"
    using guarded_access_faults [where insn = "sb E a v" and E = E and m = m and c = c and t = t
        and cm = "CAUSE_STORE_ACCESS OR CAUSE_STORE_PAGE"] store_mask_allows [OF f(2)] E
    unfolding write_u8_def env_ok_def by blast
  then show ?thesis
    using Some f(1) by (auto simp: load_result_def intro!: clobberedI)
qed

lemma ucast_byte: "ucast (drop_bit k v AND 0xff) = (ucast (drop_bit k v) :: u8)" for v :: usize
proof -
  have "(0xff :: usize) = mask 8"
    by (simp add: mask_eq_exp_minus_1)
  then have "bit (0xff :: usize) n" if "n < 8" for n
    using that by (simp only: bit_mask_iff possible_bit_word) simp
  then show ?thesis
    by (intro bit_word_eqI) (auto simp: bit_ucast_iff bit_and_iff)
qed

lemma write_loop_result:
  assumes "env_ok E" and "unat a + n \<le> 2 ^ 64" and "i \<le> n"
  shows "\<exists>m'. write_loop E a v [i..<n] m = Done (store_ref E (guard_status m) a i n, m')
    \<and> (let m0 = m\<lparr>mem := store_bytes (mem m) a v i (store_limit E (guard_status m) a i n)\<rparr>
       in if isl (store_ref E (guard_status m) a i n) then clobbered m0 m' else kept m0 m')"
  using assms(3)
proof (induction "n - i" arbitrary: i m)
  case 0
  then show ?case
    by (simp add: store_ref_def first_fault_def load_result_def store_limit_def store_bytes_empty)
next
  case (Suc k)
  let ?s = "guard_status m" and ?a = "a + word_of_nat i" and ?b = "drop_bit (8 * i) v AND 0xff"
  have ni: "i < n" and up: "[i..<n] = i # [Suc i..<n]"
    using Suc.hyps(2) by (simp_all add: upt_conv_Cons)
  have ovf: "add_ovf a (word_of_nat i) = Ret ?a"
    using assms(2) ni by (intro add_ovf_no_wrap) simp
  have loop: "write_loop E a v [i..<n] m = try_bind (write_u8 E ?a ?b) (\<lambda>_. write_loop E a v [Suc i..<n]) m"
    using ovf by (simp add: up)
  obtain m1 where w: "write_u8 E ?a ?b m = Done (load_result (store_fault E 1 ?s ?a) ?b, m1)"
    and m1: "case store_fault E 1 ?s ?a of None \<Rightarrow> kept (m\<lparr>mem := (mem m)(?a := ucast ?b)\<rparr>) m1 | Some _ \<Rightarrow> clobbered m m1"
    using write_u8_answers [OF assms(1), of ?a ?b m] by blast
  show ?case
  proof (cases "store_fault E 1 ?s ?a")
    case (Some f)
    obtain c t where f: "f = (c, t)"
      by (cases f) auto
    have "store_ref E ?s a i n = Inl (MemoryFault c t)" "store_limit E ?s a i n = i"
      using Some f by (simp_all add: store_ref_def store_limit_def first_fault_def load_result_def up)
    moreover have "write_loop E a v [i..<n] m = Done (Inl (MemoryFault c t), m1)"
      using w Some f by (simp add: loop load_result_def)
    ultimately show ?thesis
      using m1 Some by (simp add: store_bytes_empty)
  next
    case None
    let ?m0 = "m\<lparr>mem := (mem m)(?a := ucast (drop_bit (8 * i) v))\<rparr>"
    have k: "kept ?m0 m1"
      using m1 None by (simp add: ucast_byte)
    have ref: "store_ref E ?s a (Suc i) n = store_ref E ?s a i n" "store_limit E ?s a (Suc i) n = store_limit E ?s a i n"
      using None by (simp_all add: store_ref_def store_limit_def first_fault_def up)
    have lim: "i < store_limit E ?s a i n"
      using ni unfolding ref(2) [symmetric]
      by (auto simp: store_limit_def find_Some_iff split: option.split)
    have fields: "guard_status m1 = ?s" "mem m1 = (mem m)(?a := ucast (drop_bit (8 * i) v))"
      using kept_fields(1,2) [OF k] by simp_all
    have small: "i < 2 ^ 64"
      using assms(2) ni by simp
    have bytes: "store_bytes (mem m1) a v (Suc i) (store_limit E ?s a (Suc i) n)
        = store_bytes (mem m) a v i (store_limit E ?s a i n)"
      unfolding fields(2) ref(2) by (rule store_bytes_step [OF lim small])
    obtain m2 where m2: "write_loop E a v [Suc i..<n] m1 = Done (store_ref E ?s a i n, m2)"
      and rel: "let m0 = m1\<lparr>mem := store_bytes (mem m) a v i (store_limit E ?s a i n)\<rparr>
         in if isl (store_ref E ?s a i n) then clobbered m0 m2 else kept m0 m2"
      using Suc.hyps(1) [of "Suc i" m1] Suc.hyps(2) ni bytes unfolding fields(1) ref by fastforce
    have "kept (m\<lparr>mem := q\<rparr>) (m1\<lparr>mem := q\<rparr>)" for q
      using k by (cases m; cases m1) (simp add: kept_def)
    then have "let m0 = m\<lparr>mem := store_bytes (mem m) a v i (store_limit E ?s a i n)\<rparr>
         in if isl (store_ref E ?s a i n) then clobbered m0 m2 else kept m0 m2"
      using rel by (auto simp: Let_def split: if_splits intro: kept_trans clobbered_trans kept_clobbered)
    moreover have "write_loop E a v [i..<n] m = Done (store_ref E ?s a i n, m2)"
      using w None m2 by (simp add: loop load_result_def)
    ultimately show ?thesis
      by blast
  qed
qed

section \<open>Fetching\<close>

definition fetch_ref :: "'w trap_env \<Rightarrow> usize \<Rightarrow> (usize \<Rightarrow> u8) \<Rightarrow> usize \<Rightarrow> TrapError + u32 \<times> nat" where
  "fetch_ref E s q pc =
     (case load_result (load_fault E 2 s pc) (half q pc) of
        Inl e \<Rightarrow> Inl e
      | Inr low \<Rightarrow>
          if instruction_length E (ucast low) = 2 then Inr (ucast low, 2)
          else (case load_result (load_fault E 2 s (pc + 2)) (half q (pc + 2)) of
                  Inl e \<Rightarrow> Inl e
                | Inr high \<Rightarrow> Inr (ucast low OR push_bit 16 (ucast high), 4)))"

lemma fetch_answers:
  assumes E: "env_ok E" and pc: "unat pc + 2 < 2 ^ 64"
  shows "answers m (fetch E pc m) (fetch_ref E (guard_status m) (mem m) pc)"
proof -
  have ovf: "add_ovf pc 2 = Ret (pc + 2)"
    using add_ovf_no_wrap [of pc 2] pc by simp
  show ?thesis
    unfolding fetch_def fetch_ref_def
  proof (rule answers_bind, rule read_u16_answers [OF E])
    fix low m' assume k: "kept m m'"
    let ?x = "load_result (load_fault E 2 (guard_status m) (pc + 2)) (half (mem m) (pc + 2))"
    have "answers m' (try_bind (read_u16 E (pc + 2)) (\<lambda>high. ret (ucast low OR push_bit 16 (ucast high) :: u32, 4 :: nat)) m')
        (case ?x of Inl e \<Rightarrow> Inl e | Inr high \<Rightarrow> Inr (ucast low OR push_bit 16 (ucast high), 4))"
      using read_u16_answers [OF E, of m' "pc + 2"] kept_fields [OF k]
      by (intro answers_bind) simp_all
    then show "answers m' ((if instruction_length E (ucast low) = 2 then ret (ucast low :: u32, 2 :: nat)
        else try_bind (lift_outcome (add_ovf pc 2)) (\<lambda>a. try_bind (read_u16 E a)
          (\<lambda>high. ret (ucast low OR push_bit 16 (ucast high), 4)))) m')
        (if instruction_length E (ucast low) = 2 then Inr (ucast low, 2)
         else (case ?x of Inl e \<Rightarrow> Inl e | Inr high \<Rightarrow> Inr (ucast low OR push_bit 16 (ucast high), 4)))"
      using ovf by simp
  qed
qed

end
