(* ===== verification/Trap_Correct.thy ===== *)
theory Trap_Correct
  imports Trap_Memory
begin

text \<open>
  Trap handling as the interrupted software sees it. The context of that software (its
  registers, program counter, mode and the supervisor's registers, and memory) before the trap and
  after the \<open>mret\<close> are related by an abstract machine that either executes the instruction or takes an
  exception in supervisor mode, as the hardware does for a delegated exception.
\<close>

section \<open>The abstract machine\<close>

record 'w swctx =
  u_regs :: "usize list"
  u_pc :: usize
  u_mode :: usize
  u_status :: usize
  u_epc :: usize
  u_cause :: usize
  u_tval :: usize
  u_tvec :: usize
  u_satp :: usize
  u_sie :: usize
  u_mem :: "usize \<Rightarrow> u8"
  u_world :: 'w
  u_firmware :: "usize list"
  u_cell :: HartStateCell

text \<open>
  \<open>u_firmware\<close>: the registers that the firmware must find again at the next trap, the stack stk in
  \<open>mscratch\<close>, the vector, the delegation and the machine interrupt registers.
\<close>

definition ctx_of :: "'w trap_env \<Rightarrow> usize list \<Rightarrow> usize \<Rightarrow> usize \<Rightarrow> 'w machine \<Rightarrow> 'w swctx" where
  "ctx_of E regs pc mode m =
     \<lparr>u_regs = regs, u_pc = pc, u_mode = mode, u_status = sstatus E (mstatus m), u_epc = sepc m,
      u_cause = scause m, u_tval = stval m, u_tvec = stvec m, u_satp = satp m, u_sie = sie m,
      u_mem = mem m, u_world = world m,
      u_firmware = [mscratch m, mtvec m, medeleg m, mie m, mip m], u_cell = cell m\<rparr>"

definition trapped_ctx :: "'w trap_env \<Rightarrow> usize list \<Rightarrow> 'w machine \<Rightarrow> 'w swctx" where
  "trapped_ctx E regs m = ctx_of E regs (mepc m) (get_mpp (mstatus m)) m"

definition resumed_ctx :: "'w trap_env \<Rightarrow> 'w resumed \<Rightarrow> 'w swctx" where
  "resumed_ctx E r = ctx_of E (r_regs r) (r_pc r) (r_mode r) (r_machine r)"

text \<open>
  An exception taken in supervisor mode: \<open>SPIE\<close> (bit 5) receives \<open>SIE\<close> (bit 1), which is cleared,
  \<open>SPP\<close> (bit 8) tells whether the mode was supervisor mode.
\<close>

definition take_exception :: "usize \<Rightarrow> usize \<Rightarrow> 'w swctx \<Rightarrow> 'w swctx" where
  "take_exception c t v =
     v\<lparr>u_epc := u_pc v, u_cause := c, u_tval := t,
       u_status := put_bit 8 (u_mode v = 1) (put_bit 1 False (put_bit 5 (bit (u_status v) 1) (u_status v))),
       u_pc := vector_address (u_tvec v), u_mode := 1\<rparr>"

text \<open>An exception, with the facts of the original trap unless an access faulted.\<close>

definition raise_error :: "TrapError \<Rightarrow> usize \<Rightarrow> usize \<Rightarrow> 'w swctx \<Rightarrow> 'w swctx" where
  "raise_error e c t v =
     (case e of MemoryFault c' t' \<Rightarrow> take_exception c' t' v | _ \<Rightarrow> take_exception c t v)"

definition set_reg :: "usize list \<Rightarrow> nat \<Rightarrow> usize \<Rightarrow> usize list" where
  "set_reg regs rd x = (if rd = 0 then regs else regs[rd - 1 := x])"

definition get_reg :: "usize list \<Rightarrow> nat \<Rightarrow> usize" where
  "get_reg regs r = (if r = 0 then 0 else regs ! (r - 1))"

section \<open>Status bits\<close>

lemma bit_put_bit: "bit (put_bit n b w) i \<longleftrightarrow> (if i = n then b \<and> n < 64 else bit w i)"
  by (auto simp: put_bit_def bit_or_iff bit_and_iff bit_not_iff bit_one_bit dest: bit_imp_le_length)

lemma bit_sstatus: "bit (sstatus E s) i \<longleftrightarrow> bit s i \<and> bit (sstatus_mask E) i"
  by (simp add: sstatus_def bit_and_iff)

lemma bit_sstatus_write:
  "bit (sstatus_write E v s) i \<longleftrightarrow> (if bit (sstatus_mask E) i then bit v i else bit s i)"
  by (auto simp: sstatus_write_def bit_or_iff bit_and_iff bit_not_iff dest: bit_imp_le_length)

lemma bit_mret_status:
  "i \<notin> {3, 7, 11, 12, 17} \<Longrightarrow> bit (mret_status s) i = bit s i"
  by (simp add: mret_status_def Let_def bit_put_bit bit_put_mpp)

lemma env_ok_mask: "env_ok E \<Longrightarrow> sstatus_mask_ok (sstatus_mask E)"
  by (simp add: env_ok_def)

lemma sstatus_put_mpp: "env_ok E \<Longrightarrow> sstatus E (put_mpp p s) = sstatus E s"
  by (rule bit_word_eqI) (auto dest!: env_ok_mask simp: sstatus_mask_ok_def bit_sstatus bit_put_mpp)

lemma sstatus_mret: "env_ok E \<Longrightarrow> sstatus E (mret_status s) = sstatus E s"
proof (rule bit_word_eqI)
  fix i assume "env_ok E"
  then have "i \<notin> {3, 7, 11, 12, 17}" if "bit (sstatus_mask E) i"
    using that by (auto dest!: env_ok_mask simp: sstatus_mask_ok_def)
  then show "bit (sstatus E (mret_status s)) i = bit (sstatus E s) i"
    by (auto simp: bit_sstatus bit_mret_status)
qed

lemma get_mpp_eqI: "bit a 11 = bit b 11 \<Longrightarrow> bit a 12 = bit b 12 \<Longrightarrow> get_mpp a = get_mpp b"
proof (rule bit_word_eqI)
  fix n assume "bit a 11 = bit b 11" "bit a 12 = bit b 12"
  then have "(bit a (11 + n) \<and> (n = 0 \<or> n = 1)) = (bit b (11 + n) \<and> (n = 0 \<or> n = 1))"
    by auto
  then show "bit (get_mpp a) n = bit (get_mpp b) n"
    unfolding get_mpp_def by (simp only: bit_and_iff bit_drop_bit_eq comp_apply bit_three)
qed

lemma get_mpp_sstatus_write: "env_ok E \<Longrightarrow> get_mpp (sstatus_write E v s) = get_mpp s"
  by (rule get_mpp_eqI) (auto dest!: env_ok_mask simp: sstatus_mask_ok_def bit_sstatus_write)

text \<open>The status that \<open>redirect_trap\<close> computes is the one of a delegated exception.\<close>

definition redirect_bits :: "'w trap_env \<Rightarrow> usize \<Rightarrow> usize" where
  "redirect_bits E s = sstatus_write E ((sstatus E s AND NOT (SSTATUS_SIE OR SSTATUS_SPIE))
     OR push_bit 4 (sstatus E s AND SSTATUS_SIE)) s"

definition redirect_status :: "'w trap_env \<Rightarrow> usize \<Rightarrow> usize" where
  "redirect_status E s =
     (let s2 = redirect_bits E s; b = sstatus E s2
      in put_mpp 1 (sstatus_write E (if get_mpp s = 1 then b OR SSTATUS_SPP else b AND NOT SSTATUS_SPP) s2))"

lemma sie_bits:
  "bit SSTATUS_SIE i \<longleftrightarrow> i = 1" "bit SSTATUS_SPIE i \<longleftrightarrow> i = 5" "bit SSTATUS_SPP i \<longleftrightarrow> i = 8"
  using bit_one_bit [of 1 i, where 'a = 64] bit_one_bit [of 5 i, where 'a = 64] bit_one_bit [of 8 i, where 'a = 64]
  by (auto simp: SSTATUS_SIE_def SSTATUS_SPIE_def SSTATUS_SPP_def one_bit_def)

lemma bit_redirect_bits:
  assumes "env_ok E"
  shows "bit (redirect_bits E s) i
    \<longleftrightarrow> (if i = 1 then False else if i = 5 then bit s 1 else bit s i)"
proof (cases "bit (sstatus_mask E) i")
  case False
  then have "i \<noteq> 1" "i \<noteq> 5"
    using env_ok_mask [OF assms] by (auto simp: sstatus_mask_ok_def)
  with False show ?thesis
    by (simp add: redirect_bits_def bit_sstatus_write)
next
  case True
  then have len: "i < 64"
    using bit_imp_le_length by fastforce
  have k1: "bit (sstatus_mask E) 1"
    using env_ok_mask [OF assms] by (simp add: sstatus_mask_ok_def)
  have "bit (push_bit 4 (sstatus E s AND SSTATUS_SIE)) i \<longleftrightarrow> i = 5 \<and> bit s 1"
    using len k1 by (auto simp: bit_push_bit_iff bit_and_iff sie_bits bit_sstatus)
  then show ?thesis
    using True len by (auto simp: redirect_bits_def bit_sstatus_write bit_or_iff bit_and_iff bit_not_iff
        sie_bits bit_sstatus)
qed

lemma redirect_status_correct:
  assumes "env_ok E"
  shows "sstatus E (redirect_status E s)
    = put_bit 8 (get_mpp s = 1) (put_bit 1 False (put_bit 5 (bit (sstatus E s) 1) (sstatus E s)))"
proof (rule bit_word_eqI)
  fix i
  note k = env_ok_mask [OF assms, unfolded sstatus_mask_ok_def]
  show "bit (sstatus E (redirect_status E s)) i = bit (put_bit 8 (get_mpp s = 1)
      (put_bit 1 False (put_bit 5 (bit (sstatus E s) 1) (sstatus E s)))) i"
    using k assms
    by (auto simp: redirect_status_def Let_def sstatus_put_mpp bit_sstatus bit_sstatus_write bit_put_bit
        bit_or_iff bit_and_iff bit_not_iff sie_bits bit_redirect_bits dest: bit_imp_le_length)
qed

lemma get_mpp_redirect: "get_mpp (redirect_status E s) = 1"
  by (simp add: redirect_status_def Let_def)

section \<open>Redirection\<close>

lemma mpp_of_legal:
  "get_mpp s = 0 \<or> get_mpp s = 1 \<Longrightarrow> mpp_of s = Ret (if get_mpp s = 1 then Supervisor else User)"
  by (auto simp: mpp_of_def)

lemma redirect_trap_result:
  assumes E: "env_ok E" and mpp: "get_mpp (mstatus m) = 0 \<or> get_mpp (mstatus m) = 1"
  shows "redirect_trap E sec m = Done (Inr (),
    m\<lparr>sepc := mepc m, scause := fst (case sec of Some s \<Rightarrow> s | None \<Rightarrow> (mcause m, mtval m)),
      stval := snd (case sec of Some s \<Rightarrow> s | None \<Rightarrow> (mcause m, mtval m)),
      mstatus := redirect_status E (mstatus m), mepc := vector_address (stvec m)\<rparr>)"
proof -
  let ?s2 = "redirect_bits E (mstatus m)"
  have first: "mpp_of (mstatus m) = Ret (if get_mpp (mstatus m) = 1 then Supervisor else User)"
    using mpp by (rule mpp_of_legal)
  have "get_mpp ?s2 = get_mpp (mstatus m)"
    using E by (simp add: redirect_bits_def get_mpp_sstatus_write)
  then have second: "mpp_of ?s2 = Ret (if get_mpp (mstatus m) = 1 then Supervisor else User)"
    using mpp_of_legal [of ?s2] mpp by simp
  show ?thesis
    using first second [unfolded redirect_bits_def] mpp
    by (auto simp: redirect_trap_def Let_def redirect_bits_def redirect_status_def mode_bits_def
        split: prod.split)
qed

text \<open>Facts of the trap and, when an access faulted, of that fault.\<close>

definition reported :: "TrapError option \<Rightarrow> 'w machine \<Rightarrow> usize \<times> usize" where
  "reported e m = (case e of Some (MemoryFault c t) \<Rightarrow> (c, t) | _ \<Rightarrow> (mcause m, mtval m))"

lemma ctx_of_mret:
  "env_ok E \<Longrightarrow> resumed_ctx E (do_mret regs m) = ctx_of E regs (mepc m) (get_mpp (mstatus m)) m"
  by (simp add: resumed_ctx_def do_mret_def ctx_of_def sstatus_mret)

text \<open>A redirected trap is an exception taken in supervisor mode.\<close>

lemma redirect_or_fatal_delivers:
  assumes E: "env_ok E" and mpp: "get_mpp (mstatus m) = 0 \<or> get_mpp (mstatus m) = 1"
  shows "\<exists>m'. redirect_or_fatal E e m = Done m' \<and> frame m' = frame m
    \<and> resumed_ctx E (do_mret (f_x (frame m)) (m'\<lparr>mscratch := stk\<rparr>))
      = take_exception (fst (reported e m)) (snd (reported e m))
          (trapped_ctx E (f_x (frame m)) (m\<lparr>mscratch := stk\<rparr>))"
proof -
  define sec where "sec = (case e of Some (MemoryFault c t) \<Rightarrow> Some (c, t) | _ \<Rightarrow> None)"
  define m' where "m' = m\<lparr>sepc := mepc m, scause := fst (reported e m), stval := snd (reported e m),
      mstatus := redirect_status E (mstatus m), mepc := vector_address (stvec m)\<rparr>"
  have "(case sec of Some s \<Rightarrow> s | None \<Rightarrow> (mcause m, mtval m)) = reported e m"
    by (simp add: sec_def reported_def split: option.split TrapError.split)
  then have "redirect_trap E sec m = Done (Inr (), m')"
    using redirect_trap_result [OF E mpp, of sec] by (simp add: m'_def)
  then have run: "redirect_or_fatal E e m = Done m'"
    by (simp add: redirect_or_fatal_def sec_def [symmetric])
  have "resumed_ctx E (do_mret (f_x (frame m)) (m'\<lparr>mscratch := stk\<rparr>))
      = take_exception (fst (reported e m)) (snd (reported e m))
          (trapped_ctx E (f_x (frame m)) (m\<lparr>mscratch := stk\<rparr>))"
    using E by (simp add: ctx_of_mret m'_def ctx_of_def trapped_ctx_def take_exception_def
        get_mpp_redirect redirect_status_correct)
  then show ?thesis
    using run by (auto simp: m'_def)
qed

section \<open>Emulation\<close>

text \<open>\<open>with_trap_facts\<close> undoes what recovered faults did to the trap registers.\<close>

lemma with_trap_facts_ok:
  assumes "body (capture m) m = Done (Inr len, m1)"
    and "clobbered (m\<lparr>frame := f, mem := q, world := w\<rparr>) m1"
    and "unat (mepc m) + len < 2 ^ 64"
  shows "\<exists>m2. with_trap_facts body m = Done (Inr (), m2)
    \<and> kept (m\<lparr>frame := f, mem := q, world := w, mepc := mepc m + word_of_nat len\<rparr>) m2"
proof -
  have "add_ovf (mepc m) (word_of_nat len) = Ret (mepc m + word_of_nat len)"
    using assms(3) by (rule add_ovf_no_wrap)
  then have "with_trap_facts body m = Done (Inr (), (restore (capture m) m1)\<lparr>mepc := mepc m + word_of_nat len\<rparr>)"
    using assms(1) by (simp add: with_trap_facts_def Let_def restore_and_advance_def capture_def)
  moreover have "kept (m\<lparr>frame := f, mem := q, world := w, mepc := mepc m + word_of_nat len\<rparr>)
      ((restore (capture m) m1)\<lparr>mepc := mepc m + word_of_nat len\<rparr>)"
    using assms(2) by (cases m; cases m1) (simp add: clobbered_def kept_def restore_def capture_def)
  ultimately show ?thesis
    by blast
qed

lemma with_trap_facts_err:
  assumes "body (capture m) m = Done (Inl e, m1)"
    and "clobbered (m\<lparr>frame := f, mem := q, world := w\<rparr>) m1"
  shows "\<exists>m2. with_trap_facts body m = Done (Inl e, m2) \<and> kept (m\<lparr>frame := f, mem := q, world := w\<rparr>) m2"
proof -
  have "with_trap_facts body m = Done (Inl e, restore_all (capture m) m1)"
    using assms(1) by (simp add: with_trap_facts_def Let_def)
  moreover have "kept (m\<lparr>frame := f, mem := q, world := w\<rparr>) (restore_all (capture m) m1)"
    using assms(2) by (cases m; cases m1) (simp add: clobbered_def kept_def restore_all_def restore_def capture_def)
  ultimately show ?thesis
    by blast
qed

lemma frame_write_ok:
  "length (f_x (frame m)) = 31 \<Longrightarrow> rd < 32
   \<Longrightarrow> frame_write rd v m = Done (Inr (), m\<lparr>frame := (frame m)\<lparr>f_x := set_reg (f_x (frame m)) rd v\<rparr>\<rparr>)"
  by (auto simp: frame_write_def write_x_def set_reg_def array_set_def)

lemma frame_read_ok:
  "length (f_x (frame m)) = 31 \<Longrightarrow> r < 32 \<Longrightarrow> frame_read r m = Done (Inr (get_reg (f_x (frame m)) r), m)"
  by (auto simp: frame_read_def read_x_def get_reg_def array_get_def)

lemma ucast_u8_field: "r < 32 \<Longrightarrow> unat (ucast r :: u8) < 32" for r :: u32
proof -
  assume "r < 32"
  then have "unat r < 32"
    by (simp add: word_less_nat_alt)
  moreover have "unat (ucast r :: u8) \<le> unat r"
    by (simp add: unsigned_ucast_eq)
  ultimately show ?thesis
    by simp
qed

lemma decode_load_rd: "env_ok E \<Longrightarrow> decode_load E raw = Inr op \<Longrightarrow> unat (l_rd op) < 32"
  by (auto simp: decode_load_def env_ok_def fields_ok_def split: option.splits Instruction.splits
      intro!: ucast_u8_field)

lemma decode_store_rs2: "env_ok E \<Longrightarrow> decode_store E raw = Inr op \<Longrightarrow> unat (s_rs2 op) < 32"
  by (auto simp: decode_store_def env_ok_def fields_ok_def split: option.splits Instruction.splits
      intro!: ucast_u8_field)

lemma fetch_mapped_answers:
  assumes "env_ok E" and "unat pc + 2 < 2 ^ 64"
  shows "answers m (fetch_mapped E pc m) (map_sum map_fetch_fault id (fetch_ref E (guard_status m) (mem m) pc))"
  using fetch_answers [OF assms, of m]
  by (cases rule: answersE) (auto simp: fetch_mapped_def answers_def)

lemma fetch_ref_length: "fetch_ref E s q pc = Inr (raw, len) \<Longrightarrow> len = 2 \<or> len = 4"
  by (auto simp: fetch_ref_def split: sum.splits if_splits)

text \<open>
  What a misaligned load means on memory \<open>q\<close> with the effective privilege in \<open>s\<close>: the instruction at
  \<open>pc\<close> is fetched, and the integer of the bytes at \<open>a\<close> goes to its destination.
\<close>

definition instr_ref :: "'w trap_env \<Rightarrow> usize \<Rightarrow> (usize \<Rightarrow> u8) \<Rightarrow> usize \<Rightarrow> TrapError + u32 \<times> nat" where
  "instr_ref E s q pc = map_sum map_fetch_fault id (fetch_ref E s q pc)"

definition load_outcome ::
    "'w trap_env \<Rightarrow> usize \<Rightarrow> (usize \<Rightarrow> u8) \<Rightarrow> usize \<Rightarrow> usize \<Rightarrow> TrapError + nat \<times> usize \<times> nat" where
  "load_outcome E s q pc a =
     (case instr_ref E s q pc of
        Inl e \<Rightarrow> Inl e
      | Inr (raw, len) \<Rightarrow>
          (case decode_load E raw of
             Inl e \<Rightarrow> Inl e
           | Inr op \<Rightarrow>
               map_sum id (\<lambda>x. (unat (l_rd op), word_of_int (kind_int (l_kind op) x), len))
                 (load_ref E s q a (width (l_kind op)))))"

definition store_outcome ::
    "'w trap_env \<Rightarrow> usize \<Rightarrow> (usize \<Rightarrow> u8) \<Rightarrow> usize \<Rightarrow> usize \<Rightarrow> usize list \<Rightarrow> (TrapError + nat) \<times> (usize \<Rightarrow> u8)" where
  "store_outcome E s q pc a regs =
     (case instr_ref E s q pc of
        Inl e \<Rightarrow> (Inl e, q)
      | Inr (raw, len) \<Rightarrow>
          (case decode_store E raw of
             Inl e \<Rightarrow> (Inl e, q)
           | Inr op \<Rightarrow>
               (map_sum id (\<lambda>_. len) (store_ref E s a 0 (width (s_kind op))),
                store_bytes q a (get_reg regs (unat (s_rs2 op))) 0 (store_limit E s a 0 (width (s_kind op))))))"

lemma instr_ref_length: "instr_ref E s q pc = Inr (raw, len) \<Longrightarrow> len = 2 \<or> len = 4"
  by (cases "fetch_ref E s q pc") (auto simp: instr_ref_def dest: fetch_ref_length)

lemma width_le_8: "width k \<le> 8"
  by (cases k) simp_all

text \<open>When emulation may start: a trap from below, away from the end of the address space.\<close>

definition trap_ready :: "'w trap_env \<Rightarrow> 'w machine \<Rightarrow> bool" where
  "trap_ready E m \<longleftrightarrow> env_ok E \<and> length (f_x (frame m)) = 31 \<and> \<not> trapped_from_machine (frame m)
     \<and> unat (mepc m) + 4 < 2 ^ 64 \<and> unat (mtval m) + 8 \<le> 2 ^ 64"

lemma trap_readyD:
  assumes "trap_ready E m"
  shows "env_ok E" "length (f_x (frame m)) = 31" "\<not> trapped_from_machine (frame m)"
    "unat (mepc m) + 2 < 2 ^ 64" "len = 2 \<or> len = 4 \<Longrightarrow> unat (mepc m) + len < 2 ^ 64"
    "unat (mtval m) + width k \<le> 2 ^ 64"
  using assms width_le_8 [of k] by (auto simp: trap_ready_def)

lemma trap_ready_fetch:
  "trap_ready E m \<Longrightarrow> answers m (fetch_mapped E (mepc m) m) (instr_ref E (guard_status m) (mem m) (mepc m))"
  unfolding instr_ref_def by (intro fetch_mapped_answers trap_readyD)

lemma reject_lower: "\<not> trapped_from_machine (frame m) \<Longrightarrow> try_bind reject_machine_origin f m = f () m"
  by (simp add: reject_machine_origin_def try_bind_def)

lemma reject_passes: "trap_ready E m \<Longrightarrow> try_bind reject_machine_origin f m = f () m"
  by (simp add: reject_lower trap_readyD)

lemma capture_fields [simp]: "t_mepc (capture m) = mepc m" "t_mtval (capture m) = mtval m"
  by (simp_all add: capture_def)

lemmas clobber_self = kept_clobbered [OF kept_refl]

definition load_body :: "'w trap_env \<Rightarrow> TrapFacts \<Rightarrow> ('w, nat) trap_op" where
  "load_body E facts =
     try_bind (fetch_mapped E (t_mepc facts)) (\<lambda>(raw, len).
       try_bind (of_result (decode_load E raw)) (\<lambda>op.
         try_bind (read_value E (t_mtval facts) (l_kind op)) (\<lambda>raw_value.
           try_bind (frame_write (unat (l_rd op)) (extend_value (l_kind op) raw_value)) (\<lambda>_. ret len))))"

lemma load_body_result:
  assumes r: "trap_ready E m"
  shows "case load_outcome E (guard_status m) (mem m) (mepc m) (mtval m) of
      Inl e \<Rightarrow> \<exists>m1. load_body E (capture m) m = Done (Inl e, m1) \<and> clobbered m m1
    | Inr (rd, v, len) \<Rightarrow> (len = 2 \<or> len = 4) \<and> (\<exists>m1. load_body E (capture m) m = Done (Inr len, m1)
        \<and> clobbered (m\<lparr>frame := (frame m)\<lparr>f_x := set_reg (f_x (frame m)) rd v\<rparr>\<rparr>) m1)"
  using trap_ready_fetch [OF r]
proof (cases rule: answersE)
  case (err e m1)
  then show ?thesis
    by (auto simp: load_outcome_def load_body_def)
next
  case (ok x m1)
  obtain raw len where x: "x = (raw, len)"
    by (cases x)
  have len: "len = 2 \<or> len = 4"
    using ok(1) unfolding x by (rule instr_ref_length)
  show ?thesis
  proof (cases "decode_load E raw")
    case (Inl e)
    then show ?thesis
      using ok x by (auto simp: load_outcome_def load_body_def intro: kept_clobbered)
  next
    case (Inr op)
    let ?n = "width (l_kind op)"
    let ?l = "load_ref E (guard_status m) (mem m) (mtval m) ?n"
    have "answers m1 (read_value E (mtval m) (l_kind op) m1) (map_sum id word_of_int ?l)"
      using read_value_answers [OF trap_readyD(1,6) [OF r], where m = m1] kept_fields(1,2) [OF ok(3)] by simp
    then show ?thesis
    proof (cases rule: answersE)
      case (err e m2)
      then have "?l = Inl e"
        by (cases ?l) auto
      moreover have "clobbered m m2"
        using ok(3) err(3) by (blast intro: kept_clobbered clobbered_trans)
      ultimately show ?thesis
        using ok(1,2) x Inr err(2) by (auto simp: load_outcome_def load_body_def)
    next
      case (ok v m2)
      then obtain z where z: "?l = Inr z" "v = word_of_int z"
        by (cases ?l) auto
      have "0 \<le> z \<and> z < 2 ^ (8 * ?n)"
        using z(1) le_int_bounds by (auto simp: load_ref_def load_result_def split: option.splits prod.splits)
      then have ext: "extend_value (l_kind op) v = word_of_int (kind_int (l_kind op) z)"
        unfolding z(2) by (intro extend_value_ref) auto
      have k: "kept m m2"
        using \<open>kept m m1\<close> ok(3) by (rule kept_trans)
      let ?f = "(frame m)\<lparr>f_x := set_reg (f_x (frame m)) (unat (l_rd op)) (extend_value (l_kind op) v)\<rparr>"
      have "frame_write (unat (l_rd op)) (extend_value (l_kind op) v) m2 = Done (Inr (), m2\<lparr>frame := ?f\<rparr>)"
        using frame_write_ok [of m2 "unat (l_rd op)"] kept_fields(3) [OF k] trap_readyD(2) [OF r]
          decode_load_rd [OF trap_readyD(1) [OF r] Inr] by simp
      moreover have "clobbered (m\<lparr>frame := ?f\<rparr>) (m2\<lparr>frame := ?f\<rparr>)"
        using k by (cases m; cases m2) (simp add: kept_def clobbered_def)
      ultimately show ?thesis
        using \<open>instr_ref E (guard_status m) (mem m) (mepc m) = Inr x\<close>
          \<open>fetch_mapped E (mepc m) m = Done (Inr x, m1)\<close> x Inr z(1) ok(2) ext len
        by (auto simp: load_outcome_def load_body_def)
    qed
  qed
qed


definition store_body :: "'w trap_env \<Rightarrow> TrapFacts \<Rightarrow> ('w, nat) trap_op" where
  "store_body E facts =
     try_bind (fetch_mapped E (t_mepc facts)) (\<lambda>(raw, len).
       try_bind (of_result (decode_store E raw)) (\<lambda>op.
         try_bind (frame_read (unat (s_rs2 op))) (\<lambda>v.
           try_bind (write_value E (t_mtval facts) v (s_kind op)) (\<lambda>_. ret len))))"

lemma store_body_result:
  assumes r: "trap_ready E m"
  shows "case store_outcome E (guard_status m) (mem m) (mepc m) (mtval m) (f_x (frame m)) of (x, q) \<Rightarrow>
      (\<exists>m1. store_body E (capture m) m = Done (x, m1) \<and> clobbered (m\<lparr>mem := q\<rparr>) m1)
      \<and> (case x of Inl _ \<Rightarrow> True | Inr len \<Rightarrow> len = 2 \<or> len = 4)"
  using trap_ready_fetch [OF r]
proof (cases rule: answersE)
  case (err e m1)
  then show ?thesis
    by (auto simp: store_outcome_def store_body_def)
next
  case (ok x m1)
  obtain raw len where x: "x = (raw, len)"
    by (cases x)
  have len: "len = 2 \<or> len = 4"
    using ok(1) unfolding x by (rule instr_ref_length)
  show ?thesis
  proof (cases "decode_store E raw")
    case (Inl e)
    then show ?thesis
      using ok x by (auto simp: store_outcome_def store_body_def intro: kept_clobbered)
  next
    case (Inr op)
    let ?n = "width (s_kind op)" and ?v = "get_reg (f_x (frame m)) (unat (s_rs2 op))" and ?s = "guard_status m"
    note fields = kept_fields [OF ok(3)]
    let ?q = "store_bytes (mem m) (mtval m) ?v 0 (store_limit E ?s (mtval m) 0 ?n)"
    have rd: "frame_read (unat (s_rs2 op)) m1 = Done (Inr ?v, m1)"
      using frame_read_ok [of m1 "unat (s_rs2 op)"] fields(3) trap_readyD(2) [OF r]
        decode_store_rs2 [OF trap_readyD(1) [OF r] Inr] by simp
    obtain m2 where w: "write_value E (mtval m) ?v (s_kind op) m1 = Done (store_ref E ?s (mtval m) 0 ?n, m2)"
      and rel: "clobbered (m1\<lparr>mem := ?q\<rparr>) m2"
      using write_loop_result [OF trap_readyD(1,6) [OF r], of 0 "s_kind op" ?v m1] fields(1,2)
      unfolding write_value_def by (auto simp: Let_def split: if_splits intro: kept_clobbered)
    have "clobbered (m\<lparr>mem := ?q\<rparr>) (m1\<lparr>mem := ?q\<rparr>)"
      using ok(3) by (cases m; cases m1) (simp add: kept_def clobbered_def)
    then have "clobbered (m\<lparr>mem := ?q\<rparr>) m2"
      using rel by (rule clobbered_trans)
    then show ?thesis
      using ok(1,2) x Inr rd w len
      by (cases "store_ref E ?s (mtval m) 0 ?n") (auto simp: store_outcome_def store_body_def)
  qed
qed

text \<open>
  The complete operations. An error leaves everything as it was at the trap (a store may have
  written the bytes below the one that faulted); otherwise the instruction has completed.
\<close>

lemma emulate_load_result:
  assumes r: "trap_ready E m"
  shows "case load_outcome E (guard_status m) (mem m) (mepc m) (mtval m) of
      Inl e \<Rightarrow> \<exists>m2. emulate_load E m = Done (Inl e, m2) \<and> kept m m2
    | Inr (rd, v, len) \<Rightarrow> \<exists>m2. emulate_load E m = Done (Inr (), m2)
        \<and> kept (m\<lparr>frame := (frame m)\<lparr>f_x := set_reg (f_x (frame m)) rd v\<rparr>, mepc := mepc m + word_of_nat len\<rparr>) m2"
proof -
  have eq: "emulate_load E m = with_trap_facts (load_body E) m"
    using r by (simp add: emulate_load_def reject_passes load_body_def [abs_def])
  show ?thesis
  proof (cases "load_outcome E (guard_status m) (mem m) (mepc m) (mtval m)")
    case (Inl e)
    then obtain m1 where "load_body E (capture m) m = Done (Inl e, m1)" "clobbered m m1"
      using load_body_result [OF r] by auto
    then show ?thesis
      using with_trap_facts_err [where body = "load_body E" and m = m and e = e and ?m1.0 = m1 and f = "frame m" and q = "mem m" and w = "world m"] Inl eq
      by simp
  next
    case (Inr z)
    obtain rd v len where z: "z = (rd, v, len)"
      by (cases z) auto
    let ?f = "(frame m)\<lparr>f_x := set_reg (f_x (frame m)) rd v\<rparr>"
    obtain m1 where len: "len = 2 \<or> len = 4" and "load_body E (capture m) m = Done (Inr len, m1)"
        "clobbered (m\<lparr>frame := ?f\<rparr>) m1"
      using load_body_result [OF r] Inr z by auto
    then show ?thesis
      using with_trap_facts_ok [where body = "load_body E" and m = m and len = len and ?m1.0 = m1 and f = ?f and q = "mem m" and w = "world m"] trap_readyD(5) [OF r len] Inr z eq
      by simp
  qed
qed

lemma emulate_store_result:
  assumes r: "trap_ready E m"
  shows "case store_outcome E (guard_status m) (mem m) (mepc m) (mtval m) (f_x (frame m)) of
      (Inl e, q) \<Rightarrow> \<exists>m2. emulate_store E m = Done (Inl e, m2) \<and> kept (m\<lparr>mem := q\<rparr>) m2
    | (Inr len, q) \<Rightarrow> \<exists>m2. emulate_store E m = Done (Inr (), m2)
        \<and> kept (m\<lparr>mem := q, mepc := mepc m + word_of_nat len\<rparr>) m2"
proof -
  have eq: "emulate_store E m = with_trap_facts (store_body E) m"
    using r by (simp add: emulate_store_def reject_passes store_body_def [abs_def])
  obtain x q where o: "store_outcome E (guard_status m) (mem m) (mepc m) (mtval m) (f_x (frame m)) = (x, q)"
    by (cases "store_outcome E (guard_status m) (mem m) (mepc m) (mtval m) (f_x (frame m))")
  then obtain m1 where b: "store_body E (capture m) m = Done (x, m1)" "clobbered (m\<lparr>mem := q\<rparr>) m1"
    and len: "case x of Inl _ \<Rightarrow> True | Inr len \<Rightarrow> len = 2 \<or> len = 4"
    using store_body_result [OF r] by auto
  show ?thesis
  proof (cases x)
    case (Inl e)
    then show ?thesis
      using with_trap_facts_err [where body = "store_body E" and m = m and e = e and ?m1.0 = m1 and f = "frame m" and q = q and w = "world m"] b o eq
      by simp
  next
    case (Inr n)
    then show ?thesis
      using with_trap_facts_ok [where body = "store_body E" and m = m and len = n and ?m1.0 = m1 and f = "frame m" and q = q and w = "world m"] b o eq len
        trap_readyD(5) [OF r, of n] by simp
  qed
qed

section \<open>From the trap to the return\<close>

definition finish :: "usize \<Rightarrow> 'w machine \<Rightarrow> 'w resumed" where
  "finish stk m = do_mret (f_x (frame m)) (m\<lparr>mscratch := stk\<rparr>)"

lemma kept_ctx:
  assumes "kept m0 m2"
  shows "trapped_ctx E regs (m2\<lparr>mscratch := stk\<rparr>) = trapped_ctx E regs (m0\<lparr>mscratch := stk\<rparr>)"
  using assms by (cases m0; cases m2) (simp add: kept_def trapped_ctx_def ctx_of_def)

lemma or_redirect_completes:
  assumes "env_ok E" and "op m = Done (Inr (), m2)" and "kept m0 m2"
  shows "\<exists>m'. or_redirect E op m = Done m'
    \<and> resumed_ctx E (finish stk m') = trapped_ctx E (f_x (frame m0)) (m0\<lparr>mscratch := stk\<rparr>)"
  using assms(1,2) kept_ctx [OF assms(3), of E "f_x (frame m0)" stk] kept_fields(3) [OF assms(3)]
  by (simp add: or_redirect_def finish_def ctx_of_mret trapped_ctx_def)

lemma or_redirect_raises:
  assumes "env_ok E" and "op m = Done (Inl e, m2)" and k: "kept m0 m2"
    and "get_mpp (mstatus m0) = 0 \<or> get_mpp (mstatus m0) = 1"
  shows "\<exists>m'. or_redirect E op m = Done m'
    \<and> resumed_ctx E (finish stk m')
      = raise_error e (mcause m0) (mtval m0) (trapped_ctx E (f_x (frame m0)) (m0\<lparr>mscratch := stk\<rparr>))"
proof -
  note f = kept_fields [OF k]
  obtain m' where m': "redirect_or_fatal E (Some e) m2 = Done m'" "frame m' = frame m2"
    and ctx: "resumed_ctx E (do_mret (f_x (frame m2)) (m'\<lparr>mscratch := stk\<rparr>))
      = take_exception (fst (reported (Some e) m2)) (snd (reported (Some e) m2))
          (trapped_ctx E (f_x (frame m2)) (m2\<lparr>mscratch := stk\<rparr>))"
    using redirect_or_fatal_delivers [OF assms(1), of m2 "Some e" stk] assms(4) f(5) by auto
  have "take_exception (fst (reported (Some e) m2)) (snd (reported (Some e) m2)) v
      = raise_error e (mcause m0) (mtval m0) v" for v :: "'a swctx"
    using f(7,8) by (simp add: reported_def raise_error_def split: TrapError.split)
  then have "resumed_ctx E (finish stk m')
      = raise_error e (mcause m0) (mtval m0) (trapped_ctx E (f_x (frame m0)) (m0\<lparr>mscratch := stk\<rparr>))"
    using ctx m'(2) f(3) kept_ctx [OF k, of E "f_x (frame m0)" stk] by (simp add: finish_def)
  then show ?thesis
    using assms(2) m'(1) by (simp add: or_redirect_def)
qed

text \<open>The frame that the vector builds, and when the vector reaches the dispatcher with it.\<close>

definition framed :: "usize list \<Rightarrow> 'w machine \<Rightarrow> 'w machine" where
  "framed regs m =
     m\<lparr>mscratch := 0,
       frame := \<lparr>f_x = regs, f_mepc = mepc m, f_mstatus = mstatus m, f_mcause = mcause m, f_mtval = mtval m\<rparr>\<rparr>"

lemma save_callee_caller:
  assumes "length regs = 31"
  shows "save_callee regs (save_caller garbage regs) = regs"
proof (rule nth_equalityI)
  show "length (save_callee regs (save_caller garbage regs)) = length regs"
    using assms by (simp add: save_callee_def)
  fix i assume "i < length (save_callee regs (save_caller garbage regs))"
  then have "i < 31"
    by (simp add: save_callee_def)
  then show "save_callee regs (save_caller garbage regs) ! i = regs ! i"
    by (simp add: save_callee_def save_caller_def del: upt_Suc upt_rec_numeral)
qed

lemma trap_entry_dispatches:
  assumes "length regs = 31" and "mscratch m \<noteq> 0" and "mcause m \<noteq> 2"
  shows "trap_entry E garbage regs m
    = rbind (trap_dispatch E (framed regs m)) (\<lambda>m'. Done (finish (mscratch m) m'))"
  using assms by (simp add: trap_entry_def Let_def framed_def save_callee_caller finish_def)

lemma mpp_masked:
  "w AND MPP_MASK = MPP_MACHINE \<longleftrightarrow> get_mpp w = 3" "w AND MPP_MASK = MPP_SUPERVISOR \<longleftrightarrow> get_mpp w = 1"
proof -
  have pb: "w AND MPP_MASK = push_bit 11 (get_mpp w)"
  proof (rule bit_word_eqI)
    fix i
    have "bit (push_bit 11 (get_mpp w)) i \<longleftrightarrow> i = 11 \<and> bit w 11 \<or> i = 12 \<and> bit w 12"
      unfolding get_mpp_def bit_push_three by (simp add: bit_drop_bit_eq)
    then show "bit (w AND MPP_MASK) i = bit (push_bit 11 (get_mpp w)) i"
      by (auto simp: bit_and_iff bit_MPP_MASK)
  qed
  have "drop_bit 11 (push_bit 11 (p AND 3)) = p AND 3" for p :: usize
  proof (rule bit_word_eqI)
    fix i
    have "bit (drop_bit 11 (push_bit 11 (p AND 3))) i \<longleftrightarrow> bit (push_bit 11 (p AND 3)) (11 + i)"
      by (simp only: bit_drop_bit_eq comp_apply)
    also have "\<dots> \<longleftrightarrow> bit (p AND 3) i"
      unfolding bit_push_three bit_and_iff bit_three by auto
    finally show "bit (drop_bit 11 (push_bit 11 (p AND 3))) i = bit (p AND 3) i" .
  qed
  then have inj: "push_bit 11 (p AND 3) = push_bit 11 (p' AND 3) \<longleftrightarrow> p AND 3 = p' AND 3" for p p' :: usize
    by metis
  show "w AND MPP_MASK = MPP_MACHINE \<longleftrightarrow> get_mpp w = 3" "w AND MPP_MASK = MPP_SUPERVISOR \<longleftrightarrow> get_mpp w = 1"
    unfolding pb MPP_MACHINE_def MPP_SUPERVISOR_def get_mpp_def
    using inj [of "drop_bit 11 w" 3] inj [of "drop_bit 11 w" 1] by simp_all
qed

end
