(* ===== verification/Trap_Example.thy ===== *)
theory Trap_Example
  imports Trap_Correct Pmu
begin

text \<open>
  A concrete hart that satisfies the assumptions of the trap theorems: a small memory with a load
  and a store instruction, a memory-mapped timer, and a policy that answers every call. Its event
  counters are those of the firmware, and its world is the PMU state of the hart.
\<close>

section \<open>The counters of the firmware\<close>

text \<open>\<open>RuntimeTrapCounters\<close> of \<open>prototyper/src/sbi/pmu.rs\<close>.\<close>

definition runtime_counters :: "bool \<Rightarrow> PmuState TrapCounters" where
  "runtime_counters has_pmu =
     \<lparr>record_illegal_instruction = (\<lambda>st. pmu_firmware_counter_increment has_pmu st ILLEGAL_INSN),
      record_misaligned_load = (\<lambda>st. pmu_firmware_counter_increment has_pmu st MISALIGNED_LOAD),
      record_misaligned_store = (\<lambda>st. pmu_firmware_counter_increment has_pmu st MISALIGNED_STORE),
      record_access_load = (\<lambda>st. pmu_firmware_counter_increment has_pmu st ACCESS_LOAD),
      record_access_store = (\<lambda>st. pmu_firmware_counter_increment has_pmu st ACCESS_STORE)\<rparr>"

lemma increment_new: "pmu_firmware_counter_increment has_pmu (pmu_state_new n) event = Ret (pmu_state_new n)"
  by (simp add: pmu_firmware_counter_increment_def pmu_state_new_def)

section \<open>The hart\<close>

definition demo_mem :: "usize \<Rightarrow> u8" where
  "demo_mem a = (if a = 0x1000 then 0x03 else if a = 0x1001 then 0x25 else if a = 0x1002 then 0x05
     else if a = 0x1004 then 0x23 else if a = 0x1005 then 0x10 else if a = 0x1006 then 0xb5
     else if a = 0x2001 then 0x78 else if a = 0x2002 then 0x56 else if a = 0x2003 then 0x34
     else if a = 0x2004 then 0x92 else 0)"

definition demo_decode :: "u32 \<Rightarrow> Instruction option" where
  "demo_decode raw = (if raw = 0x00052503 then Some (Lw 10) else if raw = 0x00b51023 then Some (Sh 11) else None)"

definition demo_policy :: "usize \<Rightarrow> usize \<Rightarrow> usize list \<Rightarrow> PmuState machine \<Rightarrow> (sbi_ret \<times> PmuState machine) run" where
  "demo_policy ext fid param m = Done (sbi_success (ext + fid + param ! 0), m)"

text \<open>Addresses from \<open>0x3000\<close> to \<open>0x3fff\<close> cannot be accessed.\<close>

definition demo_env :: "PmuState trap_env" where
  "demo_env = \<lparr>load_fault = (\<lambda>n s a. if 0x3000 \<le> a \<and> a < 0x4000 then Some (5, a) else None),
     store_fault = (\<lambda>n s a. if 0x3000 \<le> a \<and> a < 0x4000 then Some (7, a) else None),
     csr_read = (\<lambda>_ _. None), csr_write = (\<lambda>_ _ _. None), record_addr = 0x80100000, guard_pc = 0x80000100,
     recovery_vector = 0x80000200, sstatus_mask = 0x122, decode = demo_decode,
     instruction_length = (\<lambda>h. if h AND 3 = 3 then 4 else 2), access_dispatcher = None,
     timer = Some \<lparr>read_time = (\<lambda>_. Some 77), read_time_low = (\<lambda>_. Some 77), acknowledge_current = id\<rparr>,
     counters = Some (runtime_counters True), policy = demo_policy, ipi_device_clear = None, ipi_handler = None, claim_ipi = None,
     has_sstc = True, this_hart = 0\<rparr>"

definition demo_regs :: "usize list" where "demo_regs = map word_of_nat [1..<32]"

definition demo_machine :: "usize \<Rightarrow> usize \<Rightarrow> usize \<Rightarrow> PmuState machine" where
  "demo_machine pc c t =
     \<lparr>mepc = pc, mcause = c, mtval = t, mstatus = 0x802, mtvec = 0x80000000, mscratch = 0x80200000,
      medeleg = 0, mie = 0, mip = 0, sepc = 0, scause = 0, stval = 0, stvec = 0x5000, satp = 0, sie = 0,
      frame = no_frame, records = (\<lambda>_. record_new 0), mem = demo_mem, cell = cell_new, world = pmu_state_new 0\<rparr>"

lemma demo_env_ok: "env_ok demo_env"
proof -
  have "fields_ok i" if "demo_decode raw = Some i" for raw i
    using that by (auto simp: demo_decode_def fields_ok_def split: if_splits)
  moreover have "faults_ok demo_env"
    by (auto simp: faults_ok_def demo_env_def split: if_splits)
  moreover have "sstatus_mask_ok (0x122 :: usize)"
    by (simp add: sstatus_mask_ok_def)
  ultimately show ?thesis
    by (simp add: env_ok_def demo_env_def)
qed

lemma demo_fields:
  "mepc (demo_machine pc c t) = pc" "mcause (demo_machine pc c t) = c" "mtval (demo_machine pc c t) = t"
  "mem (demo_machine pc c t) = demo_mem" "mscratch (demo_machine pc c t) = 0x80200000"
  "get_mpp (mstatus (demo_machine pc c t)) = 1" "length demo_regs = 31"
  "world (demo_machine pc c t) = pmu_state_new 0"
  by (simp_all add: demo_machine_def demo_regs_def get_mpp_def)

lemma demo_env_fields:
  "load_fault demo_env n s a = (if 0x3000 \<le> a \<and> a < 0x4000 then Some (5, a) else None)"
  "store_fault demo_env n s a = (if 0x3000 \<le> a \<and> a < 0x4000 then Some (7, a) else None)"
  "decode demo_env = demo_decode" "instruction_length demo_env h = (if h AND 3 = 3 then 4 else 2)"
  "counters demo_env = Some (runtime_counters True)"
  by (simp_all add: demo_env_def)

lemma demo_fetch:
  "instr_ref demo_env s demo_mem 0x1000 = Inr (0x00052503, 4)" "instr_ref demo_env s demo_mem 0x1004 = Inr (0x00b51023, 4)"
  by (simp_all add: instr_ref_def fetch_ref_def load_result_def demo_env_fields half_def demo_mem_def)

lemma le_int_4: "le_int q a 4 = uint (q a) + 2 ^ 8 * uint (q (a + 1)) + 2 ^ 16 * uint (q (a + 2)) + 2 ^ 24 * uint (q (a + 3))"
  by (simp add: eval_nat_numeral)

lemma demo_load: "load_outcome demo_env s demo_mem 0x1000 0x2001 = Inr (10, 0xffffffff92345678, 4)"
proof -
  have "[0..<4] = [0, 1, 2, 3 :: nat]"
    by (simp add: upt_rec)
  then have "load_ref demo_env s demo_mem 0x2001 4 = Inr 0x92345678"
    by (simp add: load_ref_def load_result_def first_fault_def demo_env_fields le_int_4 demo_mem_def)
  moreover have "decode_load demo_env 0x00052503 = Inr \<lparr>l_rd = 10, l_kind = Signed32\<rparr>"
    by (simp add: decode_load_def demo_env_fields demo_decode_def)
  ultimately show ?thesis
    by (simp add: load_outcome_def demo_fetch kind_int_def)
qed

lemma demo_store:
  "store_outcome demo_env s demo_mem 0x1004 0x2fff demo_regs = (Inl (MemoryFault 7 0x3000), demo_mem(0x2fff := 11))"
proof -
  have up: "[0..<2] = [0, 1 :: nat]"
    by (simp add: upt_rec)
  have "store_ref demo_env s 0x2fff 0 2 = Inl (MemoryFault 7 0x3000)" "store_limit demo_env s 0x2fff 0 2 = 1"
    by (simp_all add: store_ref_def store_limit_def load_result_def first_fault_def demo_env_fields up)
  moreover have "decode_store demo_env 0x00b51023 = Inr \<lparr>s_rs2 = 11, s_kind = Unsigned16\<rparr>"
    by (simp add: decode_store_def demo_env_fields demo_decode_def)
  moreover have "get_reg demo_regs 11 = 11"
    by (simp add: get_reg_def demo_regs_def)
  moreover have "store_bytes demo_mem 0x2fff 11 0 1 = demo_mem(0x2fff := 11)"
    using store_bytes_step [of 0 1 demo_mem "0x2fff" 11] store_bytes_empty [of "demo_mem(0x2fff := 11)" "0x2fff" 11 1] by simp
  ultimately show ?thesis
    by (simp add: store_outcome_def demo_fetch)
qed

end
