(* ===== verification/Trap_Refines.thy ===== *)
theory Trap_Refines
  imports Trap_Example
begin

text \<open>
  The properties of trap handling, from the vector \<open>trap_entry\<close> to its \<open>mret\<close>: misaligned accesses
  and exceptions that the hardware did not delegate refine the abstract machine of \<open>Trap_Correct\<close>,
  the fast path for \<open>rdtime\<close> cannot be told from the full path, and supervisor calls.
\<close>

section \<open>Abstract steps\<close>

text \<open>The world after an event has been recorded, or \<open>Panic\<close> when recording it panics.\<close>

definition tick :: "'w trap_env \<Rightarrow> ('w TrapCounters \<Rightarrow> 'w \<Rightarrow> 'w outcome) \<Rightarrow> 'w \<Rightarrow> 'w outcome" where
  "tick E ev w = (case counters E of None \<Rightarrow> Ret w | Some c \<Rightarrow> ev c w)"

definition counted :: "'w trap_env \<Rightarrow> ('w TrapCounters \<Rightarrow> 'w \<Rightarrow> 'w outcome) \<Rightarrow> 'w swctx \<Rightarrow> 'w swctx outcome" where
  "counted E ev v = omap (\<lambda>w. v\<lparr>u_world := w\<rparr>) (tick E ev (u_world v))"

lemma count_tick: "count E ev m = rbind (of_outcome (tick E ev (world m))) (\<lambda>w. Done (m\<lparr>world := w\<rparr>))"
  by (simp add: count_def tick_def split: option.split)

definition load_step :: "'w trap_env \<Rightarrow> usize \<Rightarrow> usize \<Rightarrow> usize \<Rightarrow> 'w swctx \<Rightarrow> 'w swctx" where
  "load_step E s c a v =
     (case load_outcome E s (u_mem v) (u_pc v) a of
        Inl e \<Rightarrow> raise_error e c a v
      | Inr (rd, x, len) \<Rightarrow> v\<lparr>u_regs := set_reg (u_regs v) rd x, u_pc := u_pc v + word_of_nat len\<rparr>)"

definition store_step :: "'w trap_env \<Rightarrow> usize \<Rightarrow> usize \<Rightarrow> usize \<Rightarrow> 'w swctx \<Rightarrow> 'w swctx" where
  "store_step E s c a v =
     (case store_outcome E s (u_mem v) (u_pc v) a (u_regs v) of
        (Inl e, q) \<Rightarrow> raise_error e c a (v\<lparr>u_mem := q\<rparr>)
      | (Inr len, q) \<Rightarrow> v\<lparr>u_mem := q, u_pc := u_pc v + word_of_nat len\<rparr>)"

text \<open>A trap from user or supervisor mode.\<close>

definition lower_trap :: "'w trap_env \<Rightarrow> usize list \<Rightarrow> 'w machine \<Rightarrow> bool" where
  "lower_trap E regs m \<longleftrightarrow> env_ok E \<and> length regs = 31 \<and> mscratch m \<noteq> 0
     \<and> (get_mpp (mstatus m) = 0 \<or> get_mpp (mstatus m) = 1)"

lemma lower_trapD:
  assumes "lower_trap E regs m"
  shows "env_ok E" "length regs = 31" "mscratch m \<noteq> 0" "get_mpp (mstatus m) = 0 \<or> get_mpp (mstatus m) = 1"
    "get_mpp (mstatus m) \<noteq> 3"
  using assms by (auto simp: lower_trap_def)

lemma framed_fields [simp]:
  "f_x (frame (framed regs m)) = regs" "f_mcause (frame (framed regs m)) = mcause m"
  "f_mstatus (frame (framed regs m)) = mstatus m" "f_mtval (frame (framed regs m)) = mtval m"
  "f_mepc (frame (framed regs m)) = mepc m"
  "mstatus (framed regs m) = mstatus m" "mepc (framed regs m) = mepc m" "mcause (framed regs m) = mcause m"
  "mtval (framed regs m) = mtval m" "mem (framed regs m) = mem m" "world (framed regs m) = world m"
  "cell (framed regs m) = cell m"
  by (simp_all add: framed_def)

lemma trapped_from_machine_framed [simp]:
  "trapped_from_machine (frame (framed regs m)) \<longleftrightarrow> get_mpp (mstatus m) = 3"
  "is_trapped_from_supervisor (frame (framed regs m)) \<longleftrightarrow> get_mpp (mstatus m) = 1"
  by (simp_all add: trapped_from_machine_def is_trapped_from_supervisor_def mpp_masked)

lemma guard_status_framed [simp]: "guard_status (framed regs m) = guard_status m"
  by (simp add: guard_status_def)

lemma guard_status_world [simp]: "guard_status (m\<lparr>world := w\<rparr>) = guard_status m"
  by (simp add: guard_status_def)

lemma ctx_framed:
  "trapped_ctx E regs ((framed regs m)\<lparr>world := w, mscratch := mscratch m\<rparr>) = (trapped_ctx E regs m)\<lparr>u_world := w\<rparr>"
  by (simp add: trapped_ctx_def ctx_of_def framed_def)

lemma ctx_fields [simp]:
  "u_mem (trapped_ctx E regs m) = mem m" "u_pc (trapped_ctx E regs m) = mepc m"
  "u_regs (trapped_ctx E regs m) = regs" "u_world (trapped_ctx E regs m) = world m"
  by (simp_all add: trapped_ctx_def ctx_of_def)

lemma trap_ready_framed:
  "lower_trap E regs m \<Longrightarrow> unat (mepc m) + 4 < 2 ^ 64 \<Longrightarrow> unat (mtval m) + 8 \<le> 2 ^ 64
   \<Longrightarrow> trap_ready E ((framed regs m)\<lparr>world := w\<rparr>)"
  by (auto simp: lower_trap_def trap_ready_def)

lemma low_cause: "c < 16 \<Longrightarrow> \<not> bit c 63" for c :: usize
proof
  assume "c < 16" and "bit c 63"
  then have "bit (unat c) 63"
    by (simp add: bit_unsigned_iff)
  then have "2 ^ 63 \<le> unat c"
    by (rule bit_imp_exp_le)
  with \<open>c < 16\<close> show False
    by (simp add: word_less_nat_alt)
qed

lemmas cause_defs = ECALL_FROM_S_def ILLEGAL_INSTRUCTION_def LOAD_MISALIGNED_def STORE_MISALIGNED_def
  LOAD_FAULT_def STORE_FAULT_def

lemma demo_lower: "lower_trap demo_env demo_regs (demo_machine pc c t)"
  by (simp add: lower_trap_def demo_env_ok demo_fields)

lemma demo_counted:
  "counted demo_env ev (trapped_ctx demo_env demo_regs (demo_machine pc c t))
    = Ret (trapped_ctx demo_env demo_regs (demo_machine pc c t))"
  if "ev \<in> {record_illegal_instruction, record_misaligned_load, record_misaligned_store, record_access_load,
      record_access_store, \<lambda>_. Ret}"
  using that by (auto simp: counted_def tick_def demo_env_fields demo_fields runtime_counters_def increment_new)

lemma count_then:
  "rbind (rbind (count E ev (framed regs m)) f) g =
     (case counted E ev (trapped_ctx E regs m) of
        Panic \<Rightarrow> Panicked
      | Ret v \<Rightarrow> rbind (f ((framed regs m)\<lparr>world := u_world v\<rparr>)) g)"
  by (cases "tick E ev (world m)") (simp_all add: count_tick counted_def)

lemma counted_Ret: "counted E ev v = Ret v' \<Longrightarrow> v' = v\<lparr>u_world := u_world v'\<rparr>"
  by (cases "tick E ev (u_world v)") (auto simp: counted_def)

section \<open>Misaligned accesses\<close>

lemma misaligned_load_dispatch:
  assumes "lower_trap E regs m" and "mcause m = 4"
  shows "trap_entry E garbage regs m
    = rbind (rbind (count E record_misaligned_load (framed regs m)) (or_redirect E (emulate_load E)))
        (\<lambda>m'. Done (finish (mscratch m) m'))"
  using assms lower_trapD [OF assms(1)] low_cause [of 4]
  by (simp add: trap_entry_dispatches trap_dispatch_def Let_def cause_defs misaligned_def)

lemma misaligned_store_dispatch:
  assumes "lower_trap E regs m" and "mcause m = 6"
  shows "trap_entry E garbage regs m
    = rbind (rbind (count E record_misaligned_store (framed regs m)) (or_redirect E (emulate_store E)))
        (\<lambda>m'. Done (finish (mscratch m) m'))"
  using assms lower_trapD [OF assms(1)] low_cause [of 6]
  by (simp add: trap_entry_dispatches trap_dispatch_def Let_def cause_defs misaligned_def)

lemma misaligned_load_completes:
  assumes low: "lower_trap E regs m" and "mcause m = 4"
    and ready: "trap_ready E ((framed regs m)\<lparr>world := w\<rparr>)"
  shows "\<exists>m'. or_redirect E (emulate_load E) ((framed regs m)\<lparr>world := w\<rparr>) = Done m'
    \<and> resumed_ctx E (finish (mscratch m) m') = load_step E (guard_status m) 4 (mtval m)
        ((trapped_ctx E regs m)\<lparr>u_world := w\<rparr>)"
proof -
  let ?m = "(framed regs m)\<lparr>world := w\<rparr>" and ?v = "(trapped_ctx E regs m)\<lparr>u_world := w\<rparr>"
  note low = lower_trapD [OF low] and res = emulate_load_result [OF ready]
  show ?thesis
  proof (cases "load_outcome E (guard_status m) (mem m) (mepc m) (mtval m)")
    case (Inl e)
    then obtain m2 where "emulate_load E ?m = Done (Inl e, m2)" "kept ?m m2"
      using res by auto
    then show ?thesis
      using or_redirect_raises [OF low(1), of "emulate_load E" ?m e m2 ?m "mscratch m"] low(4) Inl assms(2)
      by (auto simp: ctx_framed load_step_def)
  next
    case (Inr z)
    obtain rd x len where z: "z = (rd, x, len)"
      by (cases z) auto
    let ?after = "?m\<lparr>frame := (frame ?m)\<lparr>f_x := set_reg regs rd x\<rparr>, mepc := mepc m + word_of_nat len\<rparr>"
    obtain m2 where "emulate_load E ?m = Done (Inr (), m2)" "kept ?after m2"
      using res Inr z by auto
    then obtain m' where "or_redirect E (emulate_load E) ?m = Done m'"
        "resumed_ctx E (finish (mscratch m) m') = trapped_ctx E (set_reg regs rd x) (?after\<lparr>mscratch := mscratch m\<rparr>)"
      using or_redirect_completes [OF low(1), of "emulate_load E" ?m m2 ?after "mscratch m"] by auto
    moreover have "trapped_ctx E (set_reg regs rd x) (?after\<lparr>mscratch := mscratch m\<rparr>)
        = ?v\<lparr>u_regs := set_reg regs rd x, u_pc := mepc m + word_of_nat len\<rparr>"
      by (simp add: trapped_ctx_def ctx_of_def framed_def)
    ultimately show ?thesis
      using Inr z by (simp add: load_step_def)
  qed
qed

text \<open>
  C7: a misaligned load from user or supervisor mode, with \<open>mepc\<close> + 4 below and \<open>mtval\<close> + 8 not beyond the end
  of the address space (there the address arithmetic of the code can overflow and panic), is handled
  completely, unless recording it in
  the firmware's event counters panics, which is then what the trap does. From the trap to the
  return, the interrupted software sees one of two things. Either the load has been executed: the
  destination register holds the little-endian integer of the bytes at the faulting address, sign-
  or zero-extended as the instruction says, and the program counter is behind the instruction. Or
  an exception has been taken in supervisor mode as if the hardware had delegated it: with
  the cause and address of the byte or instruction halfword that could not be accessed, or the
  original misaligned exception if the instruction is not an integer load. Nothing else changes,
  and the firmware's own trap registers are as before.
\<close>

theorem misaligned_load_refines:
  assumes "lower_trap E regs m" and "mcause m = 4"
    and "unat (mepc m) + 4 < 2 ^ 64" and "unat (mtval m) + 8 \<le> 2 ^ 64"
  shows "case counted E record_misaligned_load (trapped_ctx E regs m) of
      Panic \<Rightarrow> trap_entry E garbage regs m = Panicked
    | Ret v \<Rightarrow> \<exists>r. trap_entry E garbage regs m = Done r
        \<and> resumed_ctx E r = load_step E (guard_status m) 4 (mtval m) v"
proof (cases "counted E record_misaligned_load (trapped_ctx E regs m)")
  case Panic
  then show ?thesis
    by (simp add: misaligned_load_dispatch [OF assms(1,2)] count_then)
next
  case (Ret v)
  show ?thesis
    using misaligned_load_completes [OF assms(1,2) trap_ready_framed [OF assms(1,3,4)], of "u_world v"]
    unfolding counted_Ret [OF Ret, symmetric]
    by (auto simp: misaligned_load_dispatch [OF assms(1,2)] count_then Ret)
qed

theorem misaligned_load_refines_witness:
  "\<exists>r. trap_entry demo_env [] demo_regs (demo_machine 0x1000 4 0x2001) = Done r
    \<and> u_pc (resumed_ctx demo_env r) = 0x1004 \<and> u_regs (resumed_ctx demo_env r) ! 9 = 0xffffffff92345678"
proof -
  have "unat (mepc (demo_machine 0x1000 4 0x2001)) + 4 < 2 ^ 64" "unat (mtval (demo_machine 0x1000 4 0x2001)) + 8 \<le> 2 ^ 64"
    by (simp_all add: demo_fields)
  from misaligned_load_refines [OF demo_lower _ this, of "[]"] obtain r
    where "trap_entry demo_env [] demo_regs (demo_machine 0x1000 4 0x2001) = Done r"
      and "resumed_ctx demo_env r = load_step demo_env (guard_status (demo_machine 0x1000 4 0x2001)) 4 0x2001
        (trapped_ctx demo_env demo_regs (demo_machine 0x1000 4 0x2001))"
    by (auto simp: demo_fields demo_counted)
  then show ?thesis
    by (intro exI [of _ r]) (simp add: load_step_def demo_fields demo_load set_reg_def)
qed

lemma misaligned_store_completes:
  assumes low: "lower_trap E regs m" and "mcause m = 6"
    and ready: "trap_ready E ((framed regs m)\<lparr>world := w\<rparr>)"
  shows "\<exists>m'. or_redirect E (emulate_store E) ((framed regs m)\<lparr>world := w\<rparr>) = Done m'
    \<and> resumed_ctx E (finish (mscratch m) m') = store_step E (guard_status m) 6 (mtval m)
        ((trapped_ctx E regs m)\<lparr>u_world := w\<rparr>)"
proof -
  let ?m = "(framed regs m)\<lparr>world := w\<rparr>" and ?v = "(trapped_ctx E regs m)\<lparr>u_world := w\<rparr>"
  note low = lower_trapD [OF low] and res = emulate_store_result [OF ready]
  obtain y q where o: "store_outcome E (guard_status m) (mem m) (mepc m) (mtval m) regs = (y, q)"
    by (cases "store_outcome E (guard_status m) (mem m) (mepc m) (mtval m) regs")
  show ?thesis
  proof (cases y)
    case (Inl e)
    let ?after = "?m\<lparr>mem := q\<rparr>"
    obtain m2 where "emulate_store E ?m = Done (Inl e, m2)" "kept ?after m2"
      using res o Inl by auto
    then obtain m' where "or_redirect E (emulate_store E) ?m = Done m'"
        "resumed_ctx E (finish (mscratch m) m')
          = raise_error e (mcause m) (mtval m) (trapped_ctx E regs (?after\<lparr>mscratch := mscratch m\<rparr>))"
      using or_redirect_raises [OF low(1), of "emulate_store E" ?m e m2 ?after "mscratch m"] low(4) by auto
    moreover have "trapped_ctx E regs (?after\<lparr>mscratch := mscratch m\<rparr>) = ?v\<lparr>u_mem := q\<rparr>"
      by (simp add: trapped_ctx_def ctx_of_def framed_def)
    ultimately show ?thesis
      using assms(2) Inl o by (simp add: store_step_def)
  next
    case (Inr len)
    let ?after = "?m\<lparr>mem := q, mepc := mepc m + word_of_nat len\<rparr>"
    obtain m2 where "emulate_store E ?m = Done (Inr (), m2)" "kept ?after m2"
      using res o Inr by auto
    then obtain m' where "or_redirect E (emulate_store E) ?m = Done m'"
        "resumed_ctx E (finish (mscratch m) m') = trapped_ctx E regs (?after\<lparr>mscratch := mscratch m\<rparr>)"
      using or_redirect_completes [OF low(1), of "emulate_store E" ?m m2 ?after "mscratch m"] by auto
    moreover have "trapped_ctx E regs (?after\<lparr>mscratch := mscratch m\<rparr>)
        = ?v\<lparr>u_mem := q, u_pc := mepc m + word_of_nat len\<rparr>"
      by (simp add: trapped_ctx_def ctx_of_def framed_def)
    ultimately show ?thesis
      using Inr o by (simp add: store_step_def)
  qed
qed

text \<open>
  C8: a misaligned store from user or supervisor mode, with \<open>mepc\<close> + 4 below and \<open>mtval\<close> + 8 not beyond the end
  of the address space (there the address arithmetic of the code can overflow and panic), is handled
  completely, unless recording it in the firmware's event counters panics, which is then what the trap does. The interrupted
  software sees either that the store has been executed, with exactly the addressed bytes changed
  to the low bytes of the source register and the program counter behind the instruction, or an
  exception taken in supervisor mode as if the hardware had delegated it. When a byte of the
  store faults, the exception tells its cause and address, and the bytes below it have been written.
\<close>

theorem misaligned_store_refines:
  assumes "lower_trap E regs m" and "mcause m = 6"
    and "unat (mepc m) + 4 < 2 ^ 64" and "unat (mtval m) + 8 \<le> 2 ^ 64"
  shows "case counted E record_misaligned_store (trapped_ctx E regs m) of
      Panic \<Rightarrow> trap_entry E garbage regs m = Panicked
    | Ret v \<Rightarrow> \<exists>r. trap_entry E garbage regs m = Done r
        \<and> resumed_ctx E r = store_step E (guard_status m) 6 (mtval m) v"
proof (cases "counted E record_misaligned_store (trapped_ctx E regs m)")
  case Panic
  then show ?thesis
    by (simp add: misaligned_store_dispatch [OF assms(1,2)] count_then)
next
  case (Ret v)
  show ?thesis
    using misaligned_store_completes [OF assms(1,2) trap_ready_framed [OF assms(1,3,4)], of "u_world v"]
    unfolding counted_Ret [OF Ret, symmetric]
    by (auto simp: misaligned_store_dispatch [OF assms(1,2)] count_then Ret)
qed

theorem misaligned_store_refines_witness:
  "\<exists>r. trap_entry demo_env [] demo_regs (demo_machine 0x1004 6 0x2fff) = Done r
    \<and> u_pc (resumed_ctx demo_env r) = 0x5000 \<and> u_cause (resumed_ctx demo_env r) = 7
    \<and> u_tval (resumed_ctx demo_env r) = 0x3000 \<and> u_mem (resumed_ctx demo_env r) = demo_mem(0x2fff := 11)"
proof -
  have "unat (mepc (demo_machine 0x1004 6 0x2fff)) + 4 < 2 ^ 64" "unat (mtval (demo_machine 0x1004 6 0x2fff)) + 8 \<le> 2 ^ 64"
    by (simp_all add: demo_fields)
  from misaligned_store_refines [OF demo_lower _ this, of "[]"] obtain r
    where "trap_entry demo_env [] demo_regs (demo_machine 0x1004 6 0x2fff) = Done r"
      and "resumed_ctx demo_env r = store_step demo_env (guard_status (demo_machine 0x1004 6 0x2fff)) 6 0x2fff
        (trapped_ctx demo_env demo_regs (demo_machine 0x1004 6 0x2fff))"
    by (auto simp: demo_fields demo_counted)
  moreover have "u_tvec (trapped_ctx demo_env demo_regs (demo_machine 0x1004 6 0x2fff)) = 0x5000"
    by (simp add: trapped_ctx_def ctx_of_def demo_machine_def)
  ultimately show ?thesis
    by (intro exI [of _ r]) (simp add: store_step_def demo_fields demo_store raise_error_def take_exception_def vector_address_def)
qed

section \<open>Exceptions that the hardware keeps\<close>

definition access_event :: "usize \<Rightarrow> 'w TrapCounters \<Rightarrow> 'w \<Rightarrow> 'w outcome" where
  "access_event c ev = (if c = 5 then record_access_load ev else if c = 7 then record_access_store ev else Ret)"

lemma access_event_at:
  "access_event 5 = record_access_load" "access_event 7 = record_access_store"
  "c \<noteq> 5 \<Longrightarrow> c \<noteq> 7 \<Longrightarrow> access_event c = (\<lambda>_. Ret)"
  by (simp_all add: access_event_def fun_eq_iff)

lemma count_nothing: "count E (\<lambda>_. Ret) m = Done m"
  by (simp add: count_def split: option.split)

lemma redirect_finishes:
  assumes "lower_trap E regs m" and "e = None \<or> e = Some UnsupportedInstruction"
  shows "\<exists>m'. redirect_or_fatal E e ((framed regs m)\<lparr>world := w\<rparr>) = Done m'
    \<and> resumed_ctx E (finish (mscratch m) m')
      = take_exception (mcause m) (mtval m) ((trapped_ctx E regs m)\<lparr>u_world := w\<rparr>)"
proof -
  note low = lower_trapD [OF assms(1)]
  let ?m = "(framed regs m)\<lparr>world := w\<rparr>"
  have "reported e ?m = (mcause m, mtval m)"
    using assms(2) by (auto simp: reported_def)
  then obtain m' where "redirect_or_fatal E e ?m = Done m'" "frame m' = frame ?m"
      "resumed_ctx E (do_mret (f_x (frame ?m)) (m'\<lparr>mscratch := mscratch m\<rparr>))
        = take_exception (mcause m) (mtval m) ((trapped_ctx E regs m)\<lparr>u_world := w\<rparr>)"
    using redirect_or_fatal_delivers [OF low(1), of ?m e "mscratch m"] low(4) by (auto simp: ctx_framed)
  then show ?thesis
    by (auto simp: finish_def)
qed

lemma no_dispatcher_redirects:
  assumes "lower_trap E regs m" and "access_dispatcher E = None"
  shows "or_redirect E (dispatch_load_fault E) ((framed regs m)\<lparr>world := w\<rparr>)
      = redirect_or_fatal E (Some UnsupportedInstruction) ((framed regs m)\<lparr>world := w\<rparr>)"
    and "or_redirect E (dispatch_store_fault E) ((framed regs m)\<lparr>world := w\<rparr>)
      = redirect_or_fatal E (Some UnsupportedInstruction) ((framed regs m)\<lparr>world := w\<rparr>)"
proof -
  have "\<not> trapped_from_machine (frame ((framed regs m)\<lparr>world := w\<rparr>))"
    using lower_trapD(5) [OF assms(1)] by simp
  note reject = reject_lower [OF this]
  show "or_redirect E (dispatch_load_fault E) ((framed regs m)\<lparr>world := w\<rparr>)
      = redirect_or_fatal E (Some UnsupportedInstruction) ((framed regs m)\<lparr>world := w\<rparr>)"
    using assms(2) by (simp add: or_redirect_def dispatch_load_fault_def get_dispatcher_def reject)
  show "or_redirect E (dispatch_store_fault E) ((framed regs m)\<lparr>world := w\<rparr>)
      = redirect_or_fatal E (Some UnsupportedInstruction) ((framed regs m)\<lparr>world := w\<rparr>)"
    using assms(2) by (simp add: or_redirect_def dispatch_store_fault_def get_dispatcher_def reject)
qed

text \<open>A handler that records an access event, then redirects.\<close>

definition count_redirect :: "'w trap_env \<Rightarrow> usize \<Rightarrow> TrapError option \<Rightarrow> 'w machine \<Rightarrow> 'w machine run" where
  "count_redirect E c e m = rbind (count E (access_event c) m) (redirect_or_fatal E e)"

lemma access_fault_redirects:
  assumes "lower_trap E regs m" and "get_mpp (mstatus m) = 0 \<or> access_dispatcher E = None"
  shows "\<exists>e. (e = None \<or> e = Some UnsupportedInstruction)
    \<and> access_fault E Load (framed regs m) = count_redirect E 5 e (framed regs m)
    \<and> access_fault E Store (framed regs m) = count_redirect E 7 e (framed regs m)"
proof -
  let ?e = "if get_mpp (mstatus m) = 1 then Some UnsupportedInstruction else None"
  have eq: "rbind (count E ev (framed regs m)) f = rbind (count E ev (framed regs m)) g"
    if "\<And>w. f ((framed regs m)\<lparr>world := w\<rparr>) = g ((framed regs m)\<lparr>world := w\<rparr>)"
    for ev and f g :: "'a machine \<Rightarrow> 'a machine run"
    using that by (cases "tick E ev (world (framed regs m))") (simp_all add: count_tick)
  have "access_fault E Load (framed regs m) = count_redirect E 5 ?e (framed regs m)"
    "access_fault E Store (framed regs m) = count_redirect E 7 ?e (framed regs m)"
    unfolding access_fault_def count_redirect_def access_event_at Access.case
    using assms(2) no_dispatcher_redirects [OF assms(1)] by (auto intro!: eq)
  then show ?thesis
    by (intro exI [of _ ?e]) simp
qed

text \<open>
  C9: an exception from user or supervisor mode that the firmware neither emulates nor serves (any
  cause other than an illegal instruction, a misaligned access or a supervisor call; for access
  faults, when they come from user mode or no dispatcher is installed) reaches the supervisor
  exactly as if the hardware had delegated it: \<open>sepc\<close>, \<open>scause\<close> and \<open>stval\<close> name the original trap,
  interrupts are disabled with their previous state saved, \<open>SPP\<close> tells the mode, and execution
  continues in supervisor mode at the base of \<open>stvec\<close>. Nothing else changes, but the firmware's
  event counter of an access fault; if recording that event panics, the trap does.
\<close>

theorem exception_delegated:
  fixes E :: "'w trap_env"
  assumes low: "lower_trap E regs m" and "\<not> bit (mcause m) 63" and "mcause m \<notin> {2, 4, 6, 9}"
    and "mcause m \<in> {5, 7} \<Longrightarrow> get_mpp (mstatus m) = 0 \<or> access_dispatcher E = None"
  shows "case counted E (access_event (mcause m)) (trapped_ctx E regs m) of
      Panic \<Rightarrow> trap_entry E garbage regs m = Panicked
    | Ret v \<Rightarrow> \<exists>r. trap_entry E garbage regs m = Done r
        \<and> resumed_ctx E r = take_exception (mcause m) (mtval m) v"
proof -
  note l = lower_trapD [OF low]
  have dispatched: "trap_entry E garbage regs m
      = rbind (if mcause m = 5 then access_fault E Load (framed regs m)
               else if mcause m = 7 then access_fault E Store (framed regs m)
               else redirect_or_fatal E None (framed regs m)) (\<lambda>m'. Done (finish (mscratch m) m'))"
    using l assms(2,3) by (simp add: trap_entry_dispatches trap_dispatch_def Let_def cause_defs)
  have none: "redirect_or_fatal E None (framed regs m) = count_redirect E (mcause m) None (framed regs m)"
    if "mcause m \<noteq> 5" "mcause m \<noteq> 7"
    by (simp add: count_redirect_def access_event_at(3) [OF that] count_nothing)
  have "\<exists>e. (e = None \<or> e = Some UnsupportedInstruction) \<and> trap_entry E garbage regs m
      = rbind (count_redirect E (mcause m) e (framed regs m)) (\<lambda>m'. Done (finish (mscratch m) m'))"
  proof (cases "mcause m \<in> {5, 7}")
    case True
    then obtain e where e: "e = None \<or> e = Some UnsupportedInstruction"
      and af: "access_fault E Load (framed regs m) = count_redirect E 5 e (framed regs m)"
        "access_fault E Store (framed regs m) = count_redirect E 7 e (framed regs m)"
      using access_fault_redirects [OF low assms(4)] by auto
    have "trap_entry E garbage regs m
        = rbind (count_redirect E (mcause m) e (framed regs m)) (\<lambda>m'. Done (finish (mscratch m) m'))"
      using True unfolding dispatched af by auto
    with e show ?thesis
      by blast
  next
    case False
    then show ?thesis
      by (intro exI [of _ None]) (auto simp: dispatched none)
  qed
  then obtain e where e: "e = None \<or> e = Some UnsupportedInstruction"
    and run: "trap_entry E garbage regs m
      = rbind (count_redirect E (mcause m) e (framed regs m)) (\<lambda>m'. Done (finish (mscratch m) m'))"
    by blast
  show ?thesis
  proof (cases "counted E (access_event (mcause m)) (trapped_ctx E regs m)")
    case Panic
    then show ?thesis
      by (simp add: run count_redirect_def count_then)
  next
    case (Ret v)
    show ?thesis
      using redirect_finishes [OF low e, of "u_world v"] unfolding counted_Ret [OF Ret, symmetric]
      by (auto simp: run count_redirect_def count_then Ret)
  qed
qed

theorem exception_delegated_witness:
  "\<exists>r. trap_entry demo_env [] demo_regs (demo_machine 0x1000 13 0x3000) = Done r
    \<and> resumed_ctx demo_env r = take_exception 13 0x3000 (trapped_ctx demo_env demo_regs (demo_machine 0x1000 13 0x3000))"
proof -
  have low: "lower_trap demo_env demo_regs (demo_machine 0x1000 13 0x3000)"
    by (rule demo_lower)
  from exception_delegated [OF low, of "[]"] show ?thesis
    by (simp add: demo_fields access_event_at demo_counted)
qed

section \<open>The fast path\<close>

text \<open>The vector without the fast path.\<close>

definition trap_entry_slow :: "'w trap_env \<Rightarrow> usize list \<Rightarrow> 'w machine \<Rightarrow> 'w resumed run" where
  "trap_entry_slow E regs m =
     (if mscratch m = 0 then Fail_stop
      else rbind (trap_dispatch E (framed regs m)) (\<lambda>m'. Done (finish (mscratch m) m')))"

text \<open>Counting an event does not change what the timer reads.\<close>

definition timer_independent :: "'w trap_env \<Rightarrow> bool" where
  "timer_independent E \<longleftrightarrow> (\<forall>c t w w'. counters E = Some c \<longrightarrow> timer E = Some t
     \<longrightarrow> record_illegal_instruction c w = Ret w' \<longrightarrow> read_time_low t w' = read_time_low t w)"

lemma device_counter_tick:
  "timer_independent E \<Longrightarrow> tick E record_illegal_instruction (world m) = Ret w \<Longrightarrow>
   device_counter_word E csr (m\<lparr>world := w\<rparr>) = device_counter_word E csr m"
  by (auto simp: device_counter_word_def tick_def timer_independent_def split: option.splits)

lemma field_lt_32: "unat (drop_bit 7 raw AND 31 :: u32) < 32"
proof -
  have "(31 :: u32) = mask 5"
    by (simp add: mask_eq_exp_minus_1)
  then have "unat (drop_bit 7 raw AND 31) = take_bit 5 (unat (drop_bit 7 raw))"
    by (simp only: flip: take_bit_eq_mask) (simp add: unsigned_take_bit_eq)
  then show ?thesis
    using take_bit_nat_less_exp [of 5 "unat (drop_bit 7 raw)"] by simp
qed

lemma save_callee_update:
  assumes "length regs = 31" and "fast_rd rd" and "rd \<noteq> 0"
  shows "save_callee regs ((save_caller garbage regs)[rd - 1 := v]) = regs[rd - 1 := v]"
proof (rule nth_equalityI)
  show "length (save_callee regs ((save_caller garbage regs)[rd - 1 := v])) = length (regs[rd - 1 := v])"
    using assms by (simp add: save_callee_def)
  fix i assume "i < length (save_callee regs ((save_caller garbage regs)[rd - 1 := v]))"
  then have i: "i < 31"
    by (simp add: save_callee_def)
  have "\<not> callee_slot (rd - 1)" "rd - 1 < 31"
    using assms(2,3) by (auto simp: fast_rd_def callee_slot_def)
  then show "save_callee regs ((save_caller garbage regs)[rd - 1 := v]) ! i = regs[rd - 1 := v] ! i"
    using i assms(1) by (auto simp: save_callee_def save_caller_def nth_list_update simp del: upt_Suc upt_rec_numeral)
qed

definition fast_inst :: "'w machine \<Rightarrow> u32" where "fast_inst m = ucast (f_mtval (frame m))"
definition fast_dest :: "'w machine \<Rightarrow> nat" where "fast_dest m = unat (drop_bit 7 (fast_inst m) AND 31)"

definition fast_value :: "'w trap_env \<Rightarrow> 'w machine \<Rightarrow> usize option" where
  "fast_value E m =
     (if f_mcause (frame m) \<noteq> ILLEGAL_INSTRUCTION \<or> f_mstatus (frame m) AND 0x1800 = 0x1800
        \<or> \<not> pure_csr_read (fast_inst m) \<or> \<not> fast_rd (fast_dest m) then None
      else device_counter_word E (ucast (drop_bit 20 (fast_inst m))) m)"

lemma try_fast_eq:
  "try_fast_emulate_time E m =
     (case fast_value E m of
        None \<Rightarrow> Done (False, m)
      | Some v \<Rightarrow> rbind (count E record_illegal_instruction m) (\<lambda>m'. Done (True,
          m'\<lparr>frame := (frame m)\<lparr>f_x := set_reg (f_x (frame m)) (fast_dest m) v\<rparr>, mepc := f_mepc (frame m) + 4\<rparr>)))"
proof (cases "fast_value E m")
  case None
  then show ?thesis
    unfolding try_fast_emulate_time_def Let_def fast_value_def fast_inst_def [symmetric] fast_dest_def [symmetric]
    by (auto split: if_splits)
next
  case (Some v)
  have "m\<lparr>world := w, frame := frame m\<rparr> = m\<lparr>world := w\<rparr>" for w
    by simp
  with Some show ?thesis
    unfolding count_tick try_fast_emulate_time_def Let_def fast_value_def fast_inst_def [symmetric] fast_dest_def [symmetric]
    by (cases "tick E record_illegal_instruction (world m)") (auto simp: set_reg_def split: if_splits)
qed

lemma mpp_bits_machine: "s AND 0x1800 = 0x1800 \<longleftrightarrow> get_mpp s = 3"
  using mpp_masked(1) [of s] by (simp add: MPP_MASK_def MPP_MACHINE_def)

lemma fast_value_slow:
  assumes "fast_value E (framed regs m) = Some v" and "length regs = 31" and ti: "timer_independent E"
  shows "trap_dispatch E (framed regs m) =
    (case tick E record_illegal_instruction (world m) of
       Panic \<Rightarrow> Panicked
     | Ret w \<Rightarrow> Done ((framed regs m)\<lparr>world := w,
         frame := (frame (framed regs m))\<lparr>f_x := set_reg regs (fast_dest (framed regs m)) v\<rparr>, mepc := mepc m + 4\<rparr>))"
proof (cases "tick E record_illegal_instruction (world m)")
  case Panic
  have "mcause m = 2" and "get_mpp (mstatus m) \<noteq> 3"
    using assms(1) by (auto simp: fast_value_def ILLEGAL_INSTRUCTION_def mpp_bits_machine split: if_splits)
  then show ?thesis
    using Panic low_cause [of 2]
    by (simp add: trap_dispatch_def Let_def cause_defs illegal_instruction_def count_tick)
next
  case (Ret w)
  let ?m = "(framed regs m)\<lparr>world := w\<rparr>" and ?i = "fast_inst (framed regs m)"
  have cause: "mcause m = 2" and mode: "get_mpp (mstatus m) \<noteq> 3" and pure_read: "pure_csr_read ?i"
    and dc: "device_counter_word E (ucast (drop_bit 20 ?i)) (framed regs m) = Some v"
    using assms(1) by (auto simp: fast_value_def ILLEGAL_INSTRUCTION_def mpp_bits_machine split: if_splits)
  have inst: "?i = ucast (mtval m)"
    by (simp add: fast_inst_def)
  have wr: "frame_write (unat (drop_bit 7 ?i AND 31)) v ?m
      = Done (Inr (), ?m\<lparr>frame := (frame ?m)\<lparr>f_x := set_reg regs (fast_dest (framed regs m)) v\<rparr>\<rparr>)"
    using frame_write_ok [of ?m "unat (drop_bit 7 ?i AND 31)" v] field_lt_32 [of ?i] assms(2)
    by (simp add: fast_dest_def)
  have "reject_machine_origin ?m = Done (Inr (), ?m)"
    using mode by (simp add: reject_machine_origin_def)
  then have "emulate_csr_read E ?m = Done (Inr (), ?m
      \<lparr>frame := (frame ?m)\<lparr>f_x := set_reg regs (fast_dest (framed regs m)) v\<rparr>, mepc := mepc m + 4\<rparr>)"
    using pure_read dc wr by (simp add: emulate_csr_read_def inst Let_def
        device_counter_tick [OF ti, of "framed regs m" w] Ret)
  then have "illegal_instruction E (framed regs m) = Done (?m
      \<lparr>frame := (frame ?m)\<lparr>f_x := set_reg regs (fast_dest (framed regs m)) v\<rparr>, mepc := mepc m + 4\<rparr>)"
    by (simp add: illegal_instruction_def or_redirect_def count_tick Ret)
  then show ?thesis
    using cause mode low_cause [of 2] by (simp add: trap_dispatch_def Let_def cause_defs Ret)
qed

lemma fast_value_framed:
  "fast_value E (framed slots m) = fast_value E (framed regs m)" "fast_dest (framed slots m) = fast_dest (framed regs m)"
  by (simp_all add: fast_value_def fast_inst_def fast_dest_def device_counter_word_def split: option.split)

text \<open>
  C11: the fast path for reading the time cannot be observed. Whatever the registers, the trap and
  the leftover contents of the stack, the vector with the fast path does exactly what
  the vector would do that saves every register and calls the dispatcher: the same registers,
  program counter, mode and machine state, and the same failures. (Counting an illegal instruction
  must not change what the timer reads.)
\<close>

theorem fast_path_transparent:
  assumes "length regs = 31" and "timer_independent E"
  shows "trap_entry E garbage regs m = trap_entry_slow E regs m"
proof (cases "mscratch m = 0 \<or> mcause m \<noteq> 2")
  case True
  then show ?thesis
    using trap_entry_dispatches [OF assms(1), of m E garbage]
    by (auto simp: trap_entry_slow_def trap_entry_def Let_def)
next
  case False
  let ?s = "save_caller garbage regs"
  have slots: "f_x (frame (framed ?s m)) = ?s" "(framed ?s m)\<lparr>frame := (frame (framed ?s m))\<lparr>f_x := regs\<rparr>\<rparr> = framed regs m"
    by (simp_all add: framed_def)
  have built: "m\<lparr>frame := \<lparr>f_x = ?s, f_mepc = mepc m, f_mstatus = mstatus m, f_mcause = mcause m, f_mtval = mtval m\<rparr>,
      mscratch := 0\<rparr> = framed ?s m"
    by (simp add: framed_def)
  have entry: "trap_entry E garbage regs m =
      rbind (try_fast_emulate_time E (framed ?s m)) (\<lambda>(fast, m').
         if fast then Done (do_mret (save_callee regs (f_x (frame m'))) (m'\<lparr>mscratch := mscratch m\<rparr>))
         else rbind (trap_dispatch E (m'\<lparr>frame := (frame m')\<lparr>f_x := save_callee regs (f_x (frame m'))\<rparr>\<rparr>))
           (\<lambda>m'. Done (do_mret (f_x (frame m')) (m'\<lparr>mscratch := mscratch m\<rparr>))))"
    using False unfolding trap_entry_def Let_def built by simp
  show ?thesis
  proof (cases "fast_value E (framed regs m)")
    case None
    then have "try_fast_emulate_time E (framed ?s m) = Done (False, framed ?s m)"
      by (simp add: try_fast_eq fast_value_framed(1) [of E ?s m regs])
    then show ?thesis
      using False slots by (simp add: entry trap_entry_slow_def finish_def save_callee_caller [OF assms(1)])
  next
    case (Some v)
    let ?rd = "fast_dest (framed regs m)"
    have rd: "fast_rd ?rd"
      using Some by (simp add: fast_value_def split: if_splits)
    have fast: "try_fast_emulate_time E (framed ?s m) = (case tick E record_illegal_instruction (world m) of
          Panic \<Rightarrow> Panicked
        | Ret w \<Rightarrow> Done (True, (framed ?s m)\<lparr>world := w, frame := (frame (framed ?s m))\<lparr>f_x := set_reg ?s ?rd v\<rparr>,
            mepc := mepc m + 4\<rparr>))"
      using Some by (cases "tick E record_illegal_instruction (world m)") (simp_all add: count_tick try_fast_eq fast_value_framed(1) [of E ?s m regs] fast_value_framed(2) [of ?s m regs])
    have regs: "save_callee regs (set_reg ?s ?rd v) = set_reg regs ?rd v"
      using save_callee_caller [OF assms(1)] save_callee_update [OF assms(1) rd] by (simp add: set_reg_def)
    have same: "do_mret xs ((framed ?s m)\<lparr>world := w, frame := f, mepc := pc, mscratch := k\<rparr>)
        = do_mret xs ((framed regs m)\<lparr>world := w, frame := g, mepc := pc, mscratch := k\<rparr>)" for xs f g pc k w
      by (simp add: do_mret_def framed_def)
    show ?thesis
      using False fast_value_slow [OF Some assms] regs
      by (cases "tick E record_illegal_instruction (world m)")
        (simp_all add: entry fast trap_entry_slow_def finish_def
          same [of _ _ _ _ _ "(frame (framed regs m))\<lparr>f_x := set_reg regs ?rd v\<rparr>"])
  qed
qed

theorem fast_path_transparent_witness:
  "trap_entry demo_env [] demo_regs (demo_machine 0x1000 2 0xc0102573)
    = trap_entry_slow demo_env demo_regs (demo_machine 0x1000 2 0xc0102573)
   \<and> fast_value demo_env (framed demo_regs (demo_machine 0x1000 2 0xc0102573)) = Some 77"
proof
  have "timer_independent demo_env"
    by (simp add: timer_independent_def demo_env_def)
  then show "trap_entry demo_env [] demo_regs (demo_machine 0x1000 2 0xc0102573)
    = trap_entry_slow demo_env demo_regs (demo_machine 0x1000 2 0xc0102573)"
    using fast_path_transparent [of demo_regs demo_env] by (simp add: demo_fields)
  show "fast_value demo_env (framed demo_regs (demo_machine 0x1000 2 0xc0102573)) = Some 77"
    by (simp add: fast_value_def fast_inst_def fast_dest_def demo_fields ILLEGAL_INSTRUCTION_def pure_csr_read_def
        fast_rd_def device_counter_word_def demo_env_def CSR_TIME_def demo_machine_def)
qed

end
