(* ===== verification/Trap_Ecall.thy ===== *)
theory Trap_Ecall
  imports Trap_Refines
begin

text \<open>
  Supervisor calls through the trap vector: the registers that the policy receives, the registers
  and the program counter that the supervisor gets back, and the handoff of a non-retentive resume.
\<close>

definition call_params :: "usize list \<Rightarrow> usize list" where
  "call_params regs = map (get_reg regs) [10, 11, 12, 13, 14, 15]"

lemma read_x_framed: "length regs = 31 \<Longrightarrow> i < 32 \<Longrightarrow> f_x f = regs \<Longrightarrow> read_x f i = Ret (get_reg regs i)"
  by (auto simp: read_x_def get_reg_def array_get_def)

lemma write_x_set: "length (f_x f) = 31 \<Longrightarrow> i < 32 \<Longrightarrow> write_x f i v = Ret (f\<lparr>f_x := set_reg (f_x f) i v\<rparr>)"
  by (auto simp: write_x_def set_reg_def array_set_def)

lemma length_set_reg [simp]: "length (set_reg regs i v) = length regs"
  by (simp add: set_reg_def)

lemma read_params_framed:
  "length regs = 31 \<Longrightarrow> f_x f = regs \<Longrightarrow> list_all (\<lambda>i. i < 32) is
   \<Longrightarrow> read_params f is = Ret (map (get_reg regs) is)"
  by (induction "is") (simp_all add: read_x_framed)

text \<open>The registers of a hart that enters the next stage.\<close>

definition handoff_regs :: "'w trap_env \<Rightarrow> usize \<Rightarrow> usize list" where
  "handoff_regs E opq = set_reg (set_reg (replicate 31 0) 10 (this_hart E)) 11 opq"

lemma handoff_registers_result:
  "length (f_x (frame m)) = 31
   \<Longrightarrow> handoff_registers E opq m = Done (m\<lparr>frame := (frame m)\<lparr>f_x := handoff_regs E opq\<rparr>\<rparr>)"
  by (simp add: handoff_registers_def Let_def write_x_set handoff_regs_def map_replicate_const)

text \<open>
  What the supervisor sees after a call, given the answer, the address of the call, the mode it
  returns to and the machine of the policy.
\<close>

definition call_return ::
    "'w trap_env \<Rightarrow> usize list \<Rightarrow> sbi_ret \<Rightarrow> usize \<Rightarrow> usize \<Rightarrow> 'w machine \<Rightarrow> 'w swctx" where
  "call_return E regs rt pc mode m1 =
     (let v = ctx_of E (set_reg (set_reg regs 10 (sbi_error rt)) 11 (sbi_value rt)) (pc + 4) mode m1
      in case transfer (cell m1) of
           None \<Rightarrow> v
         | Some n \<Rightarrow>
             v\<lparr>u_regs := handoff_regs E (opaque n), u_pc := start_addr n, u_mode := 1,
               u_status := put_bit 1 False (u_status v), u_satp := 0, u_sie := 0,
               u_cell := (u_cell v)\<lparr>transfer := None\<rparr>\<rparr>)"

lemma ecall_dispatch:
  assumes "lower_trap E regs m" and "mcause m = 9"
  shows "trap_entry E garbage regs m = rbind (sbi_ecall E (framed regs m)) (\<lambda>m'. Done (finish (mscratch m) m'))"
  using assms lower_trapD [OF assms(1)] low_cause [of 9]
  by (simp add: trap_entry_dispatches trap_dispatch_def Let_def cause_defs)

lemma sstatus_clear_sie:
  "env_ok E \<Longrightarrow> sstatus E (sstatus_write E (sstatus E s AND NOT SSTATUS_SIE) s) = put_bit 1 False (sstatus E s)"
  by (rule bit_word_eqI)
    (auto simp: bit_sstatus bit_sstatus_write bit_and_iff bit_not_iff sie_bits bit_put_bit dest: bit_imp_le_length)

lemma sbi_ecall_result:
  assumes low: "lower_trap E regs m"
    and pol: "policy E (get_reg regs 17) (get_reg regs 16) (call_params regs) (framed regs m) = Done (rt, m1)"
    and fr: "frame m1 = frame (framed regs m)" and pc: "unat (mepc m1) + 4 < 2 ^ 64"
  shows "\<exists>m'. sbi_ecall E (framed regs m) = Done m'
    \<and> resumed_ctx E (finish stk m') = call_return E regs rt (mepc m1) (get_mpp (mstatus m1)) (m1\<lparr>mscratch := stk\<rparr>)"
proof -
  note l = lower_trapD [OF low]
  let ?r = "set_reg (set_reg regs 10 (sbi_error rt)) 11 (sbi_value rt)"
  have fx: "f_x (frame m1) = regs"
    using fr by simp
  have ovf: "add_ovf (mepc m1) 4 = Ret (mepc m1 + 4)"
    using add_ovf_no_wrap [of "mepc m1" 4] pc by simp
  let ?m2 = "m1\<lparr>frame := (frame m1)\<lparr>f_x := ?r\<rparr>, mepc := mepc m1 + 4\<rparr>"
  have run: "sbi_ecall E (framed regs m) =
      (case take_control_transfer (cell ?m2) of
         (None, c) \<Rightarrow> Done (?m2\<lparr>cell := c\<rparr>)
       | (Some n, c) \<Rightarrow>
           let m = stage_smode_trap_state E (?m2\<lparr>cell := c\<rparr>);
               m = m\<lparr>mstatus := put_mpp (mode_bits Supervisor) (mstatus m), mepc := start_addr n\<rparr>
           in handoff_registers E (opaque n) m)"
    using l(2) pol ovf unfolding sbi_ecall_def call_params_def
    by (simp add: read_x_framed [where regs = regs] read_params_framed [where regs = regs] write_x_set fx Let_def
        split: option.split)
  show ?thesis
  proof (cases "transfer (cell m1)")
    case None
    then have "sbi_ecall E (framed regs m) = Done ?m2"
      unfolding run by (simp add: take_control_transfer_def)
    moreover have "resumed_ctx E (finish stk ?m2) = call_return E regs rt (mepc m1) (get_mpp (mstatus m1)) (m1\<lparr>mscratch := stk\<rparr>)"
      using None l(1) by (simp add: finish_def ctx_of_mret call_return_def ctx_of_def)
    ultimately show ?thesis
      by blast
  next
    case (Some n)
    let ?m3 = "(stage_smode_trap_state E (?m2\<lparr>cell := (cell m1)\<lparr>transfer := None\<rparr>\<rparr>))"
    let ?m4 = "?m3\<lparr>mstatus := put_mpp 1 (mstatus ?m3), mepc := start_addr n\<rparr>"
    have "length (f_x (frame ?m4)) = 31"
      using l(2) by (simp add: stage_smode_trap_state_def)
    then have "sbi_ecall E (framed regs m) = Done (?m4\<lparr>frame := (frame ?m4)\<lparr>f_x := handoff_regs E (opaque n)\<rparr>\<rparr>)"
      unfolding run using Some by (simp add: take_control_transfer_def Let_def mode_bits_def handoff_registers_result)
    moreover have "resumed_ctx E (finish stk (?m4\<lparr>frame := (frame ?m4)\<lparr>f_x := handoff_regs E (opaque n)\<rparr>\<rparr>))
        = call_return E regs rt (mepc m1) (get_mpp (mstatus m1)) (m1\<lparr>mscratch := stk\<rparr>)"
      using Some l(1) by (simp add: finish_def ctx_of_mret call_return_def ctx_of_def stage_smode_trap_state_def
          sstatus_put_mpp sstatus_clear_sie)
    ultimately show ?thesis
      by blast
  qed
qed

text \<open>
  C10: a supervisor call (\<open>mepc\<close> + 4 must not overflow, where the code panics). The policy receives the extension number from \<open>a7\<close>, the function number
  from \<open>a6\<close> and the parameters from \<open>a0\<close> to \<open>a5\<close>. If it leaves the frame, \<open>mepc\<close> and the
  previous mode in \<open>mstatus\<close> alone, the supervisor continues behind its \<open>ecall\<close>, in the mode it was in, with the error in \<open>a0\<close>, the value in
  \<open>a1\<close>, every other register unchanged and the rest as the policy left it; unless the policy
  staged a non-retentive resume, which is then consumed: execution continues in supervisor mode
  at the resume address with address translation and supervisor interrupts off and every
  register zero except the hart number and the opaque word in \<open>a0\<close> and \<open>a1\<close>.
\<close>

theorem supervisor_call_returns:
  assumes "lower_trap E regs m" and "mcause m = 9"
    and "policy E (get_reg regs 17) (get_reg regs 16) (call_params regs) (framed regs m) = Done (rt, m1)"
    and "frame m1 = frame (framed regs m)" and "mepc m1 = mepc m"
    and "get_mpp (mstatus m1) = get_mpp (mstatus m)" and "unat (mepc m) + 4 < 2 ^ 64"
  shows "\<exists>r. trap_entry E garbage regs m = Done r
    \<and> resumed_ctx E r = call_return E regs rt (mepc m) (get_mpp (mstatus m)) (m1\<lparr>mscratch := mscratch m\<rparr>)"
  using sbi_ecall_result [OF assms(1,3,4), of "mscratch m"] assms(5-7)
    ecall_dispatch [OF assms(1,2), of garbage]
  by auto

theorem supervisor_call_returns_witness:
  "\<exists>r. trap_entry demo_env [] demo_regs (demo_machine 0x1000 9 0) = Done r
    \<and> u_pc (resumed_ctx demo_env r) = 0x1004 \<and> u_mode (resumed_ctx demo_env r) = 1
    \<and> u_regs (resumed_ctx demo_env r) = set_reg (set_reg demo_regs 10 0) 11 43"
proof -
  let ?m = "demo_machine 0x1000 9 0"
  have low: "lower_trap demo_env demo_regs ?m"
    by (rule demo_lower)
  have "policy demo_env (get_reg demo_regs 17) (get_reg demo_regs 16) (call_params demo_regs) (framed demo_regs ?m)
      = Done (sbi_success 43, framed demo_regs ?m)"
    by (simp add: demo_env_def demo_policy_def call_params_def get_reg_def demo_regs_def)
  from supervisor_call_returns [OF low _ this, of "[]"] obtain r
    where "trap_entry demo_env [] demo_regs ?m = Done r"
      and "resumed_ctx demo_env r = call_return demo_env demo_regs (sbi_success 43) 0x1000 1
        ((framed demo_regs ?m)\<lparr>mscratch := mscratch ?m\<rparr>)"
    by (auto simp: demo_fields)
  moreover have "transfer (cell ?m) = None"
    by (simp add: demo_machine_def cell_new_def)
  ultimately show ?thesis
    by (intro exI [of _ r]) (simp add: call_return_def ctx_of_def sbi_success_def RET_SUCCESS_def demo_fields)
qed

end
