(* ===== verification/Fwft.thy ===== *)
theory Fwft
  imports Trap_Ecall
begin

text \<open>
  The firmware features extension (\<open>prototyper/src/sbi/fwft.rs\<close>) over the guarded register accesses
  of the runtime, its dispatch in \<open>rustsbi/src/traits.rs\<close>, and its composition with the trap
  vector. The delegation operations are those of \<open>runtime/src/trap/init.rs\<close>.
\<close>

section \<open>Operations\<close>

definition EID_FWFT :: usize where "EID_FWFT = 0x46574654"
definition FWFT_SET :: usize where "FWFT_SET = 0"
definition FWFT_GET :: usize where "FWFT_GET = 1"

definition MISALIGNED_EXC_DELEG :: usize where "MISALIGNED_EXC_DELEG = 0"
definition LANDING_PAD :: usize where "LANDING_PAD = 1"
definition SHADOW_STACK :: usize where "SHADOW_STACK = 2"
definition DOUBLE_TRAP :: usize where "DOUBLE_TRAP = 3"
definition PTE_AD_HW_UPDATING :: usize where "PTE_AD_HW_UPDATING = 4"
definition POINTER_MASKING_PMLEN :: usize where "POINTER_MASKING_PMLEN = 5"

lemmas feature_defs = MISALIGNED_EXC_DELEG_def LANDING_PAD_def SHADOW_STACK_def DOUBLE_TRAP_def
  PTE_AD_HW_UPDATING_def POINTER_MASKING_PMLEN_def

definition CSR_MENVCFG :: u16 where "CSR_MENVCFG = 0x30a"
definition ENVCFG_LPE :: usize where "ENVCFG_LPE = push_bit 0 1"
definition ENVCFG_DTE :: usize where "ENVCFG_DTE = push_bit 1 1"
definition ENVCFG_ADUE :: usize where "ENVCFG_ADUE = push_bit 5 1"
definition ENVCFG_SSE :: usize where "ENVCFG_SSE = push_bit 8 1"
definition ENVCFG_PMM_SHIFT :: nat where "ENVCFG_PMM_SHIFT = 9"
definition ENVCFG_PMM :: usize where "ENVCFG_PMM = push_bit ENVCFG_PMM_SHIFT 3"

text \<open>Delegation of misaligned accesses.\<close>

definition MIS_DELEG :: usize where "MIS_DELEG = push_bit 4 1 OR push_bit 6 1"

definition misaligned_delegated :: "'w machine \<Rightarrow> bool" where
  "misaligned_delegated m \<longleftrightarrow> medeleg m AND MIS_DELEG \<noteq> 0"

definition set_misaligned_delegation :: "bool \<Rightarrow> 'w machine \<Rightarrow> 'w machine" where
  "set_misaligned_delegation enabled m =
     m\<lparr>medeleg := (if enabled then medeleg m OR MIS_DELEG else medeleg m AND NOT MIS_DELEG)\<rparr>"

type_synonym ('w, 'a) fw_op = "'w machine \<Rightarrow> ('a \<times> 'w machine) run"

definition menvcfg_read :: "'w trap_env \<Rightarrow> ('w, usize option) fw_op" where
  "menvcfg_read E m =
     rbind (read_csr_guarded E CSR_MENVCFG m)
       (\<lambda>(r, m'). Done (case r of Inl _ \<Rightarrow> None | Inr v \<Rightarrow> Some v, m'))"

definition menvcfg_write :: "'w trap_env \<Rightarrow> usize \<Rightarrow> ('w, bool) fw_op" where
  "menvcfg_write E v m =
     rbind (write_csr_guarded E CSR_MENVCFG v m) (\<lambda>(r, m'). Done (\<not> isl r, m'))"

definition menvcfg_bit :: "usize \<Rightarrow> usize option" where
  "menvcfg_bit feature =
     (if feature = LANDING_PAD then Some ENVCFG_LPE
      else if feature = SHADOW_STACK then Some ENVCFG_SSE
      else if feature = DOUBLE_TRAP then Some ENVCFG_DTE
      else if feature = PTE_AD_HW_UPDATING then Some ENVCFG_ADUE
      else None)"

text \<open>Write \<open>menvcfg\<close> and check that the field reads back as written.\<close>

definition write_checked :: "'w trap_env \<Rightarrow> usize \<Rightarrow> usize \<Rightarrow> ('w, sbi_ret) fw_op" where
  "write_checked E nxt field m =
     rbind (menvcfg_write E nxt m) (\<lambda>(ok, m).
       if \<not> ok then Done (sbi_not_supported, m)
       else rbind (menvcfg_read E m) (\<lambda>(read_back, m).
         case read_back of
           None \<Rightarrow> Done (sbi_not_supported, m)
         | Some rb \<Rightarrow>
             if rb AND field \<noteq> nxt AND field then Done (sbi_not_supported, m) else Done (sbi_success 0, m)))"

definition set_menvcfg_bit :: "'w trap_env \<Rightarrow> usize \<Rightarrow> usize \<Rightarrow> ('w, sbi_ret) fw_op" where
  "set_menvcfg_bit E b v m =
     (if v > 1 then Done (sbi_invalid_param, m)
      else rbind (menvcfg_read E m) (\<lambda>(cur, m).
        case cur of
          None \<Rightarrow> Done (sbi_not_supported, m)
        | Some current \<Rightarrow>
            write_checked E (if v = 1 then current OR b else current AND NOT b) b m))"

definition set_pmm :: "'w trap_env \<Rightarrow> usize \<Rightarrow> ('w, sbi_ret) fw_op" where
  "set_pmm E v m =
     (if v > 3 then Done (sbi_invalid_param, m)
      else rbind (menvcfg_read E m) (\<lambda>(cur, m).
        case cur of
          None \<Rightarrow> Done (sbi_not_supported, m)
        | Some current \<Rightarrow>
            write_checked E ((current AND NOT ENVCFG_PMM) OR push_bit ENVCFG_PMM_SHIFT v) ENVCFG_PMM m))"

definition menvcfg_bits_supported :: "'w trap_env \<Rightarrow> usize \<Rightarrow> ('w, bool) fw_op" where
  "menvcfg_bits_supported E k m =
     rbind (menvcfg_read E m) (\<lambda>(cur, m).
       case cur of
         None \<Rightarrow> Done (False, m)
       | Some current \<Rightarrow>
           rbind (menvcfg_write E (current OR k) m) (\<lambda>(ok, m).
             if \<not> ok then Done (False, m)
             else rbind (menvcfg_read E m) (\<lambda>(p, m).
               rbind (menvcfg_write E current m) (\<lambda>(_, m).
                 case p of None \<Rightarrow> Done (False, m) | Some probed \<Rightarrow> Done (probed AND k \<noteq> 0, m)))))"

text \<open>\<open>s_mode\<close>: whether \<open>misa\<close> reports supervisor mode.\<close>

definition fwft_set :: "'w trap_env \<Rightarrow> bool \<Rightarrow> u32 \<Rightarrow> usize \<Rightarrow> usize \<Rightarrow> ('w, sbi_ret) fw_op" where
  "fwft_set E s_mode feature v flags m =
     (if flags \<noteq> 0 then Done (sbi_invalid_param, m)
      else let f = ucast feature :: usize
        in if f = MISALIGNED_EXC_DELEG
           then (if \<not> s_mode then Done (sbi_not_supported, m)
                 else if v > 1 then Done (sbi_invalid_param, m)
                 else Done (sbi_success 0, set_misaligned_delegation (v = 1) m))
           else if f = POINTER_MASKING_PMLEN then set_pmm E v m
           else (case menvcfg_bit f of
                   Some b \<Rightarrow> set_menvcfg_bit E b v m
                 | None \<Rightarrow> Done (sbi_not_supported, m)))"

text \<open>Read a field after probing that it is writable.\<close>

definition get_field :: "'w trap_env \<Rightarrow> usize \<Rightarrow> (usize \<Rightarrow> usize) \<Rightarrow> ('w, sbi_ret) fw_op" where
  "get_field E k f m =
     rbind (menvcfg_bits_supported E k m) (\<lambda>(ok, m).
       if \<not> ok then Done (sbi_not_supported, m)
       else rbind (menvcfg_read E m) (\<lambda>(cur, m).
         case cur of Some v \<Rightarrow> Done (sbi_success (f v), m) | None \<Rightarrow> Done (sbi_not_supported, m)))"

definition fwft_get :: "'w trap_env \<Rightarrow> bool \<Rightarrow> u32 \<Rightarrow> ('w, sbi_ret) fw_op" where
  "fwft_get E s_mode feature m =
     (let f = ucast feature :: usize
      in if f = MISALIGNED_EXC_DELEG
         then (if \<not> s_mode then Done (sbi_not_supported, m)
               else Done (sbi_success (of_bool (misaligned_delegated m)), m))
         else if f = POINTER_MASKING_PMLEN
         then get_field E ENVCFG_PMM (\<lambda>v. drop_bit ENVCFG_PMM_SHIFT (v AND ENVCFG_PMM)) m
         else (case menvcfg_bit f of
                 Some b \<Rightarrow> get_field E b (\<lambda>v. of_bool (v AND b \<noteq> 0)) m
               | None \<Rightarrow> Done (sbi_not_supported, m)))"

text \<open>\<open>_rustsbi_fwft\<close>, the dispatch of a call by its function number.\<close>

definition rustsbi_fwft :: "'w trap_env \<Rightarrow> bool \<Rightarrow> usize list \<Rightarrow> usize \<Rightarrow> ('w, sbi_ret) fw_op" where
  "rustsbi_fwft E s_mode param fid m =
     (if fid = FWFT_SET then
        (case u32_try_from (param ! 0) of
           Some f \<Rightarrow> fwft_set E s_mode f (param ! 1) (param ! 2) m
         | None \<Rightarrow> Done (sbi_invalid_param, m))
      else if fid = FWFT_GET then
        (case u32_try_from (param ! 0) of
           Some f \<Rightarrow> fwft_get E s_mode f m
         | None \<Rightarrow> Done (sbi_invalid_param, m))
      else Done (sbi_not_supported, m))"

section \<open>A hart with the register\<close>

text \<open>
  \<open>menvcfg\<close> exists and is a WARL register: it reads back what \<open>warl\<close> makes of the value written,
  and what it holds is legal.
\<close>

definition has_menvcfg :: "'w trap_env \<Rightarrow> (usize \<Rightarrow> usize) \<Rightarrow> bool" where
  "has_menvcfg E warl \<longleftrightarrow>
     (\<forall>w. \<exists>v. csr_read E CSR_MENVCFG w = Some v \<and> warl v = v)
     \<and> (\<forall>v w. \<exists>w'. csr_write E CSR_MENVCFG v w = Some w' \<and> csr_read E CSR_MENVCFG w' = Some (warl v))"

lemma menvcfg_read_present:
  assumes "csr_read E CSR_MENVCFG (world m) = Some v"
  shows "\<exists>m'. menvcfg_read E m = Done (Some v, m') \<and> kept m m'"
proof -
  let ?insn = "\<lambda>m. case csr_read E CSR_MENVCFG (world m) of None \<Rightarrow> Inl (2, 0) | Some v \<Rightarrow> Inr (v, m)"
  have "?insn (guard_open E CAUSE_ILLEGAL m) = Inr (v, (guard_open E CAUSE_ILLEGAL m)\<lparr>mem := mem m, world := world m\<rparr>)"
    using assms by (simp add: guard_open_def)
  from guarded_completes [where insn = ?insn and E = E and cm = CAUSE_ILLEGAL and m = m and v = v
      and q = "mem m" and w = "world m", OF this]
  show ?thesis
    by (auto simp: menvcfg_read_def read_csr_guarded_def csr_answer_def intro!: keptI)
qed

lemma menvcfg_write_present:
  assumes "csr_write E CSR_MENVCFG v (world m) = Some w"
  shows "\<exists>m'. menvcfg_write E v m = Done (True, m') \<and> kept (m\<lparr>world := w\<rparr>) m'"
proof -
  let ?insn = "\<lambda>m. case csr_write E CSR_MENVCFG v (world m) of None \<Rightarrow> Inl (2, 0) | Some w \<Rightarrow> Inr (v, m\<lparr>world := w\<rparr>)"
  have "?insn (guard_open E CAUSE_ILLEGAL m) = Inr (v, (guard_open E CAUSE_ILLEGAL m)\<lparr>mem := mem m, world := w\<rparr>)"
    using assms by (simp add: guard_open_def)
  from guarded_completes [where insn = ?insn and E = E and cm = CAUSE_ILLEGAL and m = m and v = v
      and q = "mem m" and w = w, OF this]
  show ?thesis
    by (auto simp: menvcfg_write_def write_csr_guarded_def csr_answer_def intro!: keptI)
qed

text \<open>\<open>holds_menvcfg v m\<close>: the register holds \<open>v\<close>. The rules below run the two accesses.\<close>

definition same_but_world :: "'w machine \<Rightarrow> 'w machine \<Rightarrow> bool" where
  "same_but_world m m' \<longleftrightarrow> kept (m\<lparr>world := world m'\<rparr>) m'"

lemma same_but_world_refl: "same_but_world m m"
  by (simp add: same_but_world_def)

lemma same_but_world_trans: "same_but_world a b \<Longrightarrow> same_but_world b c \<Longrightarrow> same_but_world a c"
  by (cases a; cases b; cases c) (simp add: same_but_world_def kept_def)

lemma same_but_world_fields:
  "same_but_world m m' \<Longrightarrow> mepc m' = mepc m \<and> frame m' = frame m \<and> mstatus m' = mstatus m"
  by (cases m; cases m') (simp add: same_but_world_def kept_def)

lemma read_step:
  assumes "csr_read E CSR_MENVCFG (world m) = Some v"
  obtains m' where "menvcfg_read E m = Done (Some v, m')" "same_but_world m m'" "csr_read E CSR_MENVCFG (world m') = Some v"
proof -
  obtain m' where m': "menvcfg_read E m = Done (Some v, m')" "kept m m'"
    using menvcfg_read_present [OF assms] by blast
  have "world m' = world m" "same_but_world m m'"
    using m'(2) by (cases m; cases m'; simp add: kept_def same_but_world_def)+
  with m'(1) assms that show ?thesis
    by simp
qed

lemma write_step:
  assumes "has_menvcfg E warl"
  obtains m' where "menvcfg_write E v m = Done (True, m')" "same_but_world m m'"
    "csr_read E CSR_MENVCFG (world m') = Some (warl v)"
proof -
  obtain w where w: "csr_write E CSR_MENVCFG v (world m) = Some w" "csr_read E CSR_MENVCFG w = Some (warl v)"
    using assms unfolding has_menvcfg_def by blast
  obtain m' where m': "menvcfg_write E v m = Done (True, m')" "kept (m\<lparr>world := w\<rparr>) m'"
    using menvcfg_write_present [OF w(1)] by blast
  have "world m' = w" "same_but_world m m'"
    using m'(2) by (cases m; cases m'; simp add: kept_def same_but_world_def)+
  with m'(1) w(2) that show ?thesis
    by simp
qed

lemma bits_supported_run:
  assumes E: "has_menvcfg E warl" and v: "csr_read E CSR_MENVCFG (world m) = Some v"
  obtains m' where "menvcfg_bits_supported E k m = Done (warl (v OR k) AND k \<noteq> 0, m')" "same_but_world m m'"
    "csr_read E CSR_MENVCFG (world m') = Some v"
proof -
  have legal: "warl v = v"
    using E v by (auto simp: has_menvcfg_def) (metis option.inject)
  obtain m1 where m1: "menvcfg_read E m = Done (Some v, m1)" "same_but_world m m1"
    using v by (rule read_step)
  obtain m2 where m2: "menvcfg_write E (v OR k) m1 = Done (True, m2)" "same_but_world m1 m2"
    "csr_read E CSR_MENVCFG (world m2) = Some (warl (v OR k))"
    using E by (rule write_step)
  obtain m3 where m3: "menvcfg_read E m2 = Done (Some (warl (v OR k)), m3)" "same_but_world m2 m3"
    using m2(3) by (rule read_step)
  obtain m4 where m4: "menvcfg_write E v m3 = Done (True, m4)" "same_but_world m3 m4"
    "csr_read E CSR_MENVCFG (world m4) = Some (warl v)"
    using E by (rule write_step)
  have "menvcfg_bits_supported E k m = Done (warl (v OR k) AND k \<noteq> 0, m4)"
    using m1 m2 m3 m4 by (simp add: menvcfg_bits_supported_def)
  moreover have "same_but_world m m4"
    using m1(2) m2(2) m3(2) m4(2) by (blast intro: same_but_world_trans)
  ultimately show ?thesis
    using that m4(3) legal by simp
qed

lemma get_field_run:
  assumes E: "has_menvcfg E warl" and v: "csr_read E CSR_MENVCFG (world m) = Some v"
  shows "\<exists>m'. get_field E k f m = Done (if warl (v OR k) AND k \<noteq> 0 then sbi_success (f v) else sbi_not_supported, m')
    \<and> same_but_world m m'"
proof -
  obtain m1 where m1: "menvcfg_bits_supported E k m = Done (warl (v OR k) AND k \<noteq> 0, m1)" "same_but_world m m1"
    "csr_read E CSR_MENVCFG (world m1) = Some v"
    using E v by (rule bits_supported_run)
  obtain m2 where m2: "menvcfg_read E m1 = Done (Some v, m2)" "same_but_world m1 m2"
    using m1(3) by (rule read_step)
  show ?thesis
    using m1 m2 by (auto simp: get_field_def intro: same_but_world_trans)
qed

lemma set_bit_run:
  assumes E: "has_menvcfg E warl" and "v \<le> 1"
  shows "\<exists>cur nxt m'. csr_read E CSR_MENVCFG (world m) = Some cur
    \<and> nxt = (if v = 1 then cur OR b else cur AND NOT b)
    \<and> set_menvcfg_bit E b v m
       = Done (if warl nxt AND b \<noteq> nxt AND b then sbi_not_supported else sbi_success 0, m')
    \<and> same_but_world m m' \<and> csr_read E CSR_MENVCFG (world m') = Some (warl nxt)"
proof -
  obtain cur where cur: "csr_read E CSR_MENVCFG (world m) = Some cur"
    using E unfolding has_menvcfg_def by blast
  define nxt where "nxt = (if v = 1 then cur OR b else cur AND NOT b)"
  obtain m1 where m1: "menvcfg_read E m = Done (Some cur, m1)" "same_but_world m m1"
    using cur by (rule read_step)
  obtain m2 where m2: "menvcfg_write E nxt m1 = Done (True, m2)" "same_but_world m1 m2"
    "csr_read E CSR_MENVCFG (world m2) = Some (warl nxt)"
    using E by (rule write_step)
  obtain m3 where m3: "menvcfg_read E m2 = Done (Some (warl nxt), m3)" "same_but_world m2 m3"
    "csr_read E CSR_MENVCFG (world m3) = Some (warl nxt)"
    using m2(3) by (rule read_step)
  have "set_menvcfg_bit E b v m = Done (if warl nxt AND b \<noteq> nxt AND b then sbi_not_supported else sbi_success 0, m3)"
    using assms(2) m1 m2 m3 by (simp add: set_menvcfg_bit_def write_checked_def nxt_def [symmetric])
  moreover have "same_but_world m m3"
    using m1(2) m2(2) m3(2) by (blast intro: same_but_world_trans)
  ultimately show ?thesis
    using cur nxt_def m3(3) by blast
qed

lemma menvcfg_bit_nonzero: "menvcfg_bit f = Some b \<Longrightarrow> b \<noteq> 0"
  by (auto simp: menvcfg_bit_def ENVCFG_LPE_def ENVCFG_SSE_def ENVCFG_DTE_def ENVCFG_ADUE_def split: if_splits)

lemma menvcfg_bit_feature:
  "menvcfg_bit f = Some b \<Longrightarrow> f \<noteq> MISALIGNED_EXC_DELEG \<and> f \<noteq> POINTER_MASKING_PMLEN"
  by (auto simp: menvcfg_bit_def feature_defs split: if_splits)


lemma held_legal: "has_menvcfg E warl \<Longrightarrow> csr_read E CSR_MENVCFG w = Some v \<Longrightarrow> warl v = v"
  unfolding has_menvcfg_def by (metis option.inject)

lemma word_cover: "v AND b = b \<Longrightarrow> v OR b = (v :: usize)"
  by (auto simp: bit_eq_iff bit_and_iff bit_or_iff)

lemma mask_field: "(cur OR b) AND b = b" "(cur AND NOT b) AND b = (0 :: usize)"
  by (auto simp: bit_eq_iff bit_and_iff bit_or_iff bit_not_iff)

lemma sbi_ret_differ: "sbi_success 0 \<noteq> (sbi_invalid_param :: sbi_ret)" "sbi_success 0 \<noteq> (sbi_not_supported :: sbi_ret)"
  by (simp_all add: sbi_ret_defs ret_code_defs)

section \<open>Setting and reading a feature\<close>

text \<open>
  C38: round trip of a feature that is one bit of \<open>menvcfg\<close> (features 1 to 4; the pointer masking
  length is a field of two bits and is not covered). On a hart that has the register, whatever values the
  register legalises, a successful \<open>set\<close> is what the next \<open>get\<close> reports; \<open>get\<close> may instead report
  the feature as not supported only if the value set was 0. Neither call changes anything but the
  register, although \<open>get\<close> probes by writing it.
\<close>

theorem fwft_set_get:
  assumes E: "has_menvcfg E warl" and bt: "menvcfg_bit (ucast f) = Some b"
    and set: "fwft_set E s_mode f v flags m = Done (sbi_success 0, m1)"
  shows "v \<le> 1 \<and> flags = 0 \<and> same_but_world m m1
    \<and> (\<exists>m2. same_but_world m1 m2
         \<and> (fwft_get E s_mode f m1 = Done (sbi_success v, m2)
            \<or> v = 0 \<and> fwft_get E s_mode f m1 = Done (sbi_not_supported, m2)))"
proof -
  note nf = menvcfg_bit_feature [OF bt] and nz = menvcfg_bit_nonzero [OF bt]
  have flags: "flags = 0" and v: "v \<le> 1"
    using set nf bt by (auto simp: fwft_set_def set_menvcfg_bit_def sbi_ret_differ sbi_ret_differ [symmetric] split: if_splits)
  obtain cur nxt m' where run: "nxt = (if v = 1 then cur OR b else cur AND NOT b)"
      "set_menvcfg_bit E b v m = Done (if warl nxt AND b \<noteq> nxt AND b then sbi_not_supported else sbi_success 0, m')"
      "same_but_world m m'" "csr_read E CSR_MENVCFG (world m') = Some (warl nxt)"
    using set_bit_run [OF E v] by blast
  have m': "m' = m1" "warl nxt AND b = nxt AND b"
    using set run(2) nf bt flags by (auto simp: fwft_set_def sbi_ret_differ sbi_ret_differ [symmetric] split: if_splits)
  have field: "warl nxt AND b = (if v = 1 then b else 0)"
    using m'(2) run(1) mask_field by simp
  have legal: "warl (warl nxt) = warl nxt"
    using held_legal [OF E run(4)] .
  obtain m2 where m2: "get_field E b (\<lambda>v. of_bool (v AND b \<noteq> 0)) m1
      = Done (if warl (warl nxt OR b) AND b \<noteq> 0 then sbi_success (of_bool (warl nxt AND b \<noteq> 0)) else sbi_not_supported, m2)"
      "same_but_world m1 m2"
    using get_field_run [OF E run(4) [unfolded m'(1)]] by blast
  have get: "fwft_get E s_mode f m1 = Done (if warl (warl nxt OR b) AND b \<noteq> 0 then sbi_success (of_bool (warl nxt AND b \<noteq> 0)) else sbi_not_supported, m2)"
    using m2(1) nf bt by (simp add: fwft_get_def)
  have "v = 0 \<or> v = 1"
    using v by (auto simp: word_le_nat_alt word_unat_eq_iff)
  then show ?thesis
  proof
    assume "v = 1"
    then have "warl nxt AND b = b"
      using field by simp
    then show ?thesis
      using get nz legal word_cover [of "warl nxt" b] v flags run(3) m'(1) m2(2) \<open>v = 1\<close> by auto
  next
    assume "v = 0"
    then show ?thesis
      using get field v flags run(3) m'(1) m2(2) by (auto split: if_splits)
  qed
qed


text \<open>A hart whose \<open>menvcfg\<close> implements the bits of \<open>impl\<close>; the world is the content of the register.\<close>

definition menvcfg_env :: "usize \<Rightarrow> usize trap_env" where
  "menvcfg_env impl = \<lparr>load_fault = (\<lambda>_ _ _. None), store_fault = (\<lambda>_ _ _. None),
     csr_read = (\<lambda>n w. if n = CSR_MENVCFG then Some (w AND impl) else None),
     csr_write = (\<lambda>n v w. if n = CSR_MENVCFG then Some (v AND impl) else None), record_addr = 0x80100000,
     guard_pc = 0x80000100, recovery_vector = 0x80000200, sstatus_mask = 0x122, decode = (\<lambda>_. None),
     instruction_length = (\<lambda>h. if h AND 3 = 3 then 4 else 2), access_dispatcher = None,
     timer = None, counters = None, policy = (\<lambda>_ _ _ m. Done (sbi_not_supported, m)),
     ipi_device_clear = None, ipi_handler = None, claim_ipi = None, has_sstc = True, this_hart = 0\<rparr>"

lemma menvcfg_env_has: "has_menvcfg (menvcfg_env impl) (\<lambda>v. v AND impl)"
  by (simp add: has_menvcfg_def menvcfg_env_def and.assoc)

definition menvcfg_machine :: "usize \<Rightarrow> usize machine" where
  "menvcfg_machine v =
     \<lparr>mepc = 0x1000, mcause = 9, mtval = 0, mstatus = 0x802, mtvec = 0x80000000, mscratch = 0,
      medeleg = 0, mie = 0, mip = 0, sepc = 0, scause = 0, stval = 0, stvec = 0x5000, satp = 0, sie = 0,
      frame = no_frame, records = (\<lambda>_. record_new 0), mem = (\<lambda>_. 0), cell = cell_new, world = v\<rparr>"

theorem fwft_set_get_witness:
  "\<exists>m1 m2. fwft_set (menvcfg_env 0x121) True 4 1 0 (menvcfg_machine 0x100) = Done (sbi_success 0, m1)
    \<and> fwft_get (menvcfg_env 0x121) True 4 m1 = Done (sbi_success 1, m2) \<and> mepc m2 = 0x1000"
proof -
  let ?E = "menvcfg_env 0x121" and ?m = "menvcfg_machine 0x100"
  have bt: "menvcfg_bit (ucast (4 :: u32)) = Some ENVCFG_ADUE"
    by (simp add: menvcfg_bit_def feature_defs)
  obtain cur nxt m1 where "csr_read ?E CSR_MENVCFG (world ?m) = Some cur" "nxt = cur OR ENVCFG_ADUE"
      "set_menvcfg_bit ?E ENVCFG_ADUE 1 ?m
        = Done (if (nxt AND 0x121) AND ENVCFG_ADUE \<noteq> nxt AND ENVCFG_ADUE then sbi_not_supported else sbi_success 0, m1)"
    using set_bit_run [OF menvcfg_env_has, where v = 1] by fastforce
  then have "set_menvcfg_bit ?E ENVCFG_ADUE 1 ?m = Done (sbi_success 0, m1)"
    by (simp add: menvcfg_env_def menvcfg_machine_def ENVCFG_ADUE_def)
  then have set: "fwft_set ?E True 4 1 0 ?m = Done (sbi_success 0, m1)"
    using bt by (simp add: fwft_set_def feature_defs)
  obtain m2 where "fwft_get ?E True 4 m1 = Done (sbi_success 1, m2)" "same_but_world m1 m2" "same_but_world ?m m1"
    using fwft_set_get [OF menvcfg_env_has bt set] by auto
  then show ?thesis
    using set same_but_world_fields [of ?m m1] same_but_world_fields [of m1 m2] by (auto simp: menvcfg_machine_def)
qed

section \<open>A hart without the register\<close>

lemma menvcfg_read_absent:
  assumes "csr_read E CSR_MENVCFG (world m) = None" and "record_addr E \<noteq> 0"
  shows "\<exists>m'. menvcfg_read E m = Done (None, m') \<and> clobbered m m' \<and> mepc m' = guard_pc E + 4"
proof -
  let ?insn = "\<lambda>m. case csr_read E CSR_MENVCFG (world m) of None \<Rightarrow> Inl (2, 0) | Some v \<Rightarrow> Inr (v, m)"
  have "?insn (guard_open E CAUSE_ILLEGAL m) = Inl (2, 0)"
    using assms by (simp add: guard_open_def)
  from guarded_recovers [where insn = ?insn and E = E and cm = CAUSE_ILLEGAL and m = m and c = 2 and t = 0, OF this assms(2)]
  show ?thesis
    by (auto simp: menvcfg_read_def read_csr_guarded_def csr_answer_def CAUSE_ILLEGAL_def intro!: clobberedI)
qed

lemma fwft_get_absent:
  assumes "csr_read E CSR_MENVCFG (world m) = None" and "record_addr E \<noteq> 0" and "1 \<le> f" and "f \<le> 5"
  shows "\<exists>m'. fwft_get E s_mode f m = Done (sbi_not_supported, m') \<and> clobbered m m' \<and> mepc m' = guard_pc E + 4"
proof -
  obtain m' where m': "menvcfg_read E m = Done (None, m')" "clobbered m m'" "mepc m' = guard_pc E + 4"
    using menvcfg_read_absent [OF assms(1,2)] by blast
  then have field: "get_field E k g m = Done (sbi_not_supported, m')" for k g
    by (simp add: get_field_def menvcfg_bits_supported_def)
  have "unat f \<in> {1, 2, 3, 4, 5}"
    using assms(3,4) by (auto simp: word_le_nat_alt)
  then have "f \<in> {1, 2, 3, 4, 5}"
    by (auto simp: word_unat_eq_iff)
  then have "fwft_get E s_mode f m = Done (sbi_not_supported, m')"
    by (auto simp: fwft_get_def feature_defs menvcfg_bit_def field)
  with m' show ?thesis
    by blast
qed

text \<open>
  C39: a probe in a call loses the return address. On a hart without \<open>menvcfg\<close>, the guarded read of
  the register faults and is recovered, which leaves \<open>mepc\<close> at the instruction behind the guarded one;
  the call path then advances \<open>mepc\<close> instead of the address saved in the frame. A supervisor that asks
  for one of the features 1 to 5 is therefore resumed, in its own mode, 8 bytes behind the guarded
  instruction of the firmware and not behind its \<open>ecall\<close>.
\<close>

theorem csr_probe_loses_return_address:
  assumes "lower_trap E regs m" and "mcause m = 9" and "transfer (cell m) = None"
    and "csr_read E CSR_MENVCFG (world m) = None" and "unat (guard_pc E) + 8 < 2 ^ 64"
    and "\<And>param m. policy E EID_FWFT FWFT_GET param m = rustsbi_fwft E s_mode param FWFT_GET m"
    and "get_reg regs 17 = EID_FWFT" and "get_reg regs 16 = FWFT_GET"
    and "1 \<le> get_reg regs 10" and "get_reg regs 10 \<le> 5"
  shows "\<exists>r. trap_entry E garbage regs m = Done r \<and> u_pc (resumed_ctx E r) = guard_pc E + 8
    \<and> u_mode (resumed_ctx E r) = get_mpp (mstatus m) \<and> get_reg (u_regs (resumed_ctx E r)) 10 = RET_ERR_NOT_SUPPORTED"
proof -
  let ?f = "ucast (get_reg regs 10) :: u32"
  note l = lower_trapD [OF assms(1)]
  have small: "unat (get_reg regs 10) \<le> 5" "1 \<le> unat (get_reg regs 10)"
    using assms(9,10) by (simp_all add: word_le_nat_alt)
  then have uf: "unat ?f = unat (get_reg regs 10)"
    by (simp add: unsigned_ucast_eq take_bit_nat_eq_self)
  then have f: "1 \<le> ?f" "?f \<le> 5"
    using small by (simp_all add: word_le_nat_alt)
  have ra: "record_addr E \<noteq> 0"
    using l(1) by (simp add: env_ok_def)
  have "csr_read E CSR_MENVCFG (world (framed regs m)) = None"
    using assms(4) by simp
  from fwft_get_absent [OF this ra f] obtain m1
    where m1: "fwft_get E s_mode ?f (framed regs m) = Done (sbi_not_supported, m1)"
      "clobbered (framed regs m) m1" "mepc m1 = guard_pc E + 4"
    by blast
  have same: "frame m1 = frame (framed regs m)" "cell m1 = cell m" "mstatus m1 = mstatus m"
    using m1(2) by (cases m1; simp add: clobbered_def framed_def)+
  have up: "unat (guard_pc E + 4) = unat (guard_pc E) + 4"
    using assms(5) by (simp add: unat_word_ariths)
  have "policy E (get_reg regs 17) (get_reg regs 16) (call_params regs) (framed regs m) = Done (sbi_not_supported, m1)"
    using m1(1) assms(6-8) small by (simp add: rustsbi_fwft_def FWFT_GET_def FWFT_SET_def u32_try_from_def call_params_def)
  from sbi_ecall_result [OF assms(1) this same(1), of "mscratch m"] up m1(3) assms(5)
  obtain m' where m': "sbi_ecall E (framed regs m) = Done m'"
      "resumed_ctx E (finish (mscratch m) m') = call_return E regs sbi_not_supported (guard_pc E + 4)
        (get_mpp (mstatus m1)) (m1\<lparr>mscratch := mscratch m\<rparr>)"
    by auto
  have "trap_entry E garbage regs m = Done (finish (mscratch m) m')"
    using ecall_dispatch [OF assms(1,2)] m'(1) by simp
  moreover have "get_reg (set_reg (set_reg regs 10 e) 11 v) 10 = e" for e v
    using l(2) by (simp add: get_reg_def set_reg_def)
  ultimately show ?thesis
    using m'(2) same assms(3) by (simp add: call_return_def ctx_of_def sbi_not_supported_def)
qed


text \<open>A hart without the register, whose policy is the extension itself.\<close>

definition plain_env :: "usize trap_env" where
  "plain_env = (menvcfg_env 0)\<lparr>csr_read := \<lambda>_ _. None, csr_write := \<lambda>_ _ _. None\<rparr>"

definition fwft_env :: "usize trap_env" where
  "fwft_env = plain_env\<lparr>policy := \<lambda>ext fid param m. rustsbi_fwft plain_env True param fid m\<rparr>"

lemma guarded_policy [simp]: "guarded (E\<lparr>policy := p\<rparr>) = guarded E"
  by (intro ext) (simp add: guarded_def guard_open_def Let_def split: sum.split)

lemma fwft_policy: "rustsbi_fwft (E\<lparr>policy := p\<rparr>) = rustsbi_fwft E"
proof -
  have acc: "menvcfg_read (E\<lparr>policy := p\<rparr>) = menvcfg_read E" "menvcfg_write (E\<lparr>policy := p\<rparr>) = menvcfg_write E"
    by (intro ext, simp add: menvcfg_read_def menvcfg_write_def read_csr_guarded_def write_csr_guarded_def)+
  have ops: "get_field (E\<lparr>policy := p\<rparr>) = get_field E" "set_pmm (E\<lparr>policy := p\<rparr>) = set_pmm E"
      "set_menvcfg_bit (E\<lparr>policy := p\<rparr>) = set_menvcfg_bit E"
    unfolding get_field_def [abs_def] menvcfg_bits_supported_def [abs_def]
      set_pmm_def [abs_def] set_menvcfg_bit_def [abs_def] write_checked_def [abs_def] acc by (rule refl)+
  have "fwft_get (E\<lparr>policy := p\<rparr>) = fwft_get E" "fwft_set (E\<lparr>policy := p\<rparr>) = fwft_set E"
    unfolding fwft_get_def [abs_def] fwft_set_def [abs_def] ops by (rule refl)+
  then show ?thesis
    by (intro ext) (simp add: rustsbi_fwft_def split: option.split)
qed

theorem csr_probe_loses_return_address_witness:
  "\<exists>r. trap_entry fwft_env [] ((replicate 31 0)[16 := EID_FWFT, 15 := 1, 9 := 1]) ((menvcfg_machine 0)\<lparr>mscratch := 0x80200000\<rparr>) = Done r
    \<and> u_pc (resumed_ctx fwft_env r) = 0x80000108"
proof -
  let ?regs = "(replicate 31 0)[16 := EID_FWFT, 15 := 1, 9 := 1] :: usize list"
    and ?m = "(menvcfg_machine 0)\<lparr>mscratch := 0x80200000\<rparr>"
  have "env_ok fwft_env"
    by (simp add: env_ok_def fwft_env_def plain_env_def menvcfg_env_def faults_ok_def sstatus_mask_ok_def)
  then have low: "lower_trap fwft_env ?regs ?m"
    by (simp add: lower_trap_def menvcfg_machine_def get_mpp_def)
  have pol: "policy fwft_env EID_FWFT FWFT_GET param m = rustsbi_fwft fwft_env True param FWFT_GET m" for param m
    by (simp add: fwft_env_def fwft_policy)
  have "get_reg ?regs 17 = EID_FWFT" "get_reg ?regs 16 = FWFT_GET" "get_reg ?regs 10 = 1"
    by (simp_all add: get_reg_def FWFT_GET_def)
  then show ?thesis
    using csr_probe_loses_return_address [OF low _ _ _ _ pol, of "[]"]
    by (simp add: menvcfg_machine_def cell_new_def fwft_env_def plain_env_def menvcfg_env_def) blast
qed

end
