(* ===== verification/Sbi_Traits.thy ===== *)
theory Sbi_Traits
  imports Hart_Mask Sbi_Ret "HOL-Library.State_Monad"
begin

text \<open>
  The extension traits of \<open>rustsbi\<close>, one record of methods per trait, with the instances for
  \<open>Option\<close> and for references. A method is a computation of the state monad: it may change the state
  \<open>'s\<close> of the firmware and answers with a result. \<open>_rustsbi_probe\<close> is the field \<open>..._rustsbi_probe\<close>.
\<close>

section \<open>Data\<close>

definition UNAVAILABLE_EXTENSION :: usize where "UNAVAILABLE_EXTENSION = 0"

record Physical =
  num_bytes :: usize
  phys_addr_lo :: usize
  phys_addr_hi :: usize

definition physical_new :: "usize \<Rightarrow> usize \<Rightarrow> usize \<Rightarrow> Physical" where
  "physical_new n lo hi = \<lparr>num_bytes = n, phys_addr_lo = lo, phys_addr_hi = hi\<rparr>"

record SharedPtr =
  shared_addr_lo :: usize
  shared_addr_hi :: usize

definition shared_new :: "usize \<Rightarrow> usize \<Rightarrow> SharedPtr" where
  "shared_new lo hi = \<lparr>shared_addr_lo = lo, shared_addr_hi = hi\<rparr>"

text \<open>The default \<open>_rustsbi_probe\<close> of every trait and the one of \<open>Option\<close>.\<close>

definition default_probe :: usize where "default_probe = UNAVAILABLE_EXTENSION + 1"

definition option_probe :: "'t option \<Rightarrow> usize" where
  "option_probe self = (case self of Some _ \<Rightarrow> UNAVAILABLE_EXTENSION + 1 | None \<Rightarrow> UNAVAILABLE_EXTENSION)"

text \<open>\<open>self.as_ref().map_or(d, f)\<close>\<close>

definition map_or :: "'b \<Rightarrow> ('a \<Rightarrow> 'b) \<Rightarrow> 'a option \<Rightarrow> 'b" where
  "map_or d f self = (case self of Some inner \<Rightarrow> f inner | None \<Rightarrow> d)"

definition ns :: "('s, sbi_ret) state" where "ns = State_Monad.return sbi_not_supported"

section \<open>Traits\<close>

record 's Timer =
  Timer_set_timer :: "u64 \<Rightarrow> ('s, unit) state"
  Timer_rustsbi_probe :: usize

record 's Ipi =
  Ipi_send_ipi :: "HartMask \<Rightarrow> ('s, sbi_ret) state"
  Ipi_rustsbi_probe :: usize

record 's Fence =
  Fence_remote_fence_i :: "HartMask \<Rightarrow> ('s, sbi_ret) state"
  Fence_remote_sfence_vma :: "HartMask \<Rightarrow> usize \<Rightarrow> usize \<Rightarrow> ('s, sbi_ret) state"
  Fence_remote_sfence_vma_asid :: "HartMask \<Rightarrow> usize \<Rightarrow> usize \<Rightarrow> usize \<Rightarrow> ('s, sbi_ret) state"
  Fence_remote_hfence_gvma_vmid :: "HartMask \<Rightarrow> usize \<Rightarrow> usize \<Rightarrow> usize \<Rightarrow> ('s, sbi_ret) state"
  Fence_remote_hfence_gvma :: "HartMask \<Rightarrow> usize \<Rightarrow> usize \<Rightarrow> ('s, sbi_ret) state"
  Fence_remote_hfence_vvma_asid :: "HartMask \<Rightarrow> usize \<Rightarrow> usize \<Rightarrow> usize \<Rightarrow> ('s, sbi_ret) state"
  Fence_remote_hfence_vvma :: "HartMask \<Rightarrow> usize \<Rightarrow> usize \<Rightarrow> ('s, sbi_ret) state"
  Fence_rustsbi_probe :: usize

record 's Hsm =
  Hsm_hart_start :: "usize \<Rightarrow> usize \<Rightarrow> usize \<Rightarrow> ('s, sbi_ret) state"
  Hsm_hart_stop :: "('s, sbi_ret) state"
  Hsm_hart_get_status :: "usize \<Rightarrow> ('s, sbi_ret) state"
  Hsm_hart_suspend :: "u32 \<Rightarrow> usize \<Rightarrow> usize \<Rightarrow> ('s, sbi_ret) state"
  Hsm_rustsbi_probe :: usize

record 's Reset =
  Reset_system_reset :: "u32 \<Rightarrow> u32 \<Rightarrow> ('s, sbi_ret) state"
  Reset_rustsbi_probe :: usize

record 's Pmu =
  Pmu_num_counters :: "('s, usize) state"
  Pmu_counter_get_info :: "usize \<Rightarrow> ('s, sbi_ret) state"
  Pmu_counter_config_matching :: "usize \<Rightarrow> usize \<Rightarrow> usize \<Rightarrow> usize \<Rightarrow> u64 \<Rightarrow> ('s, sbi_ret) state"
  Pmu_counter_start :: "usize \<Rightarrow> usize \<Rightarrow> usize \<Rightarrow> u64 \<Rightarrow> ('s, sbi_ret) state"
  Pmu_counter_stop :: "usize \<Rightarrow> usize \<Rightarrow> usize \<Rightarrow> ('s, sbi_ret) state"
  Pmu_counter_fw_read :: "usize \<Rightarrow> ('s, sbi_ret) state"
  Pmu_counter_fw_read_hi :: "usize \<Rightarrow> ('s, sbi_ret) state"
  Pmu_snapshot_set_shmem :: "SharedPtr \<Rightarrow> usize \<Rightarrow> ('s, sbi_ret) state"
  Pmu_rustsbi_probe :: usize

record 's Console =
  Console_write :: "Physical \<Rightarrow> ('s, sbi_ret) state"
  Console_read :: "Physical \<Rightarrow> ('s, sbi_ret) state"
  Console_write_byte :: "u8 \<Rightarrow> ('s, sbi_ret) state"
  Console_rustsbi_probe :: usize

record 's Susp =
  Susp_system_suspend :: "u32 \<Rightarrow> usize \<Rightarrow> usize \<Rightarrow> ('s, sbi_ret) state"
  Susp_rustsbi_probe :: usize

record 's Cppc =
  Cppc_probe :: "u32 \<Rightarrow> ('s, sbi_ret) state"
  Cppc_read :: "u32 \<Rightarrow> ('s, sbi_ret) state"
  Cppc_read_hi :: "u32 \<Rightarrow> ('s, sbi_ret) state"
  Cppc_write :: "u32 \<Rightarrow> u64 \<Rightarrow> ('s, sbi_ret) state"
  Cppc_rustsbi_probe :: usize

record 's Nacl =
  Nacl_probe_feature :: "u32 \<Rightarrow> ('s, sbi_ret) state"
  Nacl_set_shmem :: "SharedPtr \<Rightarrow> usize \<Rightarrow> ('s, sbi_ret) state"
  Nacl_sync_csr :: "usize \<Rightarrow> ('s, sbi_ret) state"
  Nacl_sync_hfence :: "usize \<Rightarrow> ('s, sbi_ret) state"
  Nacl_sync_sret :: "('s, sbi_ret) state"
  Nacl_rustsbi_probe :: usize

record 's Sta =
  Sta_set_shmem :: "SharedPtr \<Rightarrow> usize \<Rightarrow> ('s, sbi_ret) state"
  Sta_rustsbi_probe :: usize

record 's Sse =
  Sse_read_attrs :: "u32 \<Rightarrow> u32 \<Rightarrow> u32 \<Rightarrow> SharedPtr \<Rightarrow> ('s, sbi_ret) state"
  Sse_write_attrs :: "u32 \<Rightarrow> u32 \<Rightarrow> u32 \<Rightarrow> SharedPtr \<Rightarrow> ('s, sbi_ret) state"
  Sse_register :: "u32 \<Rightarrow> usize \<Rightarrow> usize \<Rightarrow> ('s, sbi_ret) state"
  Sse_unregister :: "u32 \<Rightarrow> ('s, sbi_ret) state"
  Sse_enable :: "u32 \<Rightarrow> ('s, sbi_ret) state"
  Sse_disable :: "u32 \<Rightarrow> ('s, sbi_ret) state"
  Sse_complete :: "('s, sbi_ret) state"
  Sse_inject :: "u32 \<Rightarrow> usize \<Rightarrow> ('s, sbi_ret) state"
  Sse_hart_unmask :: "('s, sbi_ret) state"
  Sse_hart_mask :: "('s, sbi_ret) state"
  Sse_rustsbi_probe :: usize

record 's Fwft =
  Fwft_set :: "u32 \<Rightarrow> usize \<Rightarrow> usize \<Rightarrow> ('s, sbi_ret) state"
  Fwft_get :: "u32 \<Rightarrow> ('s, sbi_ret) state"
  Fwft_rustsbi_probe :: usize

record 's Dbtr =
  Dbtr_num_triggers :: "usize \<Rightarrow> ('s, usize) state"
  Dbtr_set_shmem :: "SharedPtr \<Rightarrow> usize \<Rightarrow> ('s, sbi_ret) state"
  Dbtr_read_triggers :: "usize \<Rightarrow> usize \<Rightarrow> ('s, sbi_ret) state"
  Dbtr_install_triggers :: "usize \<Rightarrow> ('s, sbi_ret) state"
  Dbtr_update_triggers :: "usize \<Rightarrow> ('s, sbi_ret) state"
  Dbtr_uninstall_triggers :: "TriggerMask \<Rightarrow> ('s, sbi_ret) state"
  Dbtr_enable_triggers :: "TriggerMask \<Rightarrow> ('s, sbi_ret) state"
  Dbtr_disable_triggers :: "TriggerMask \<Rightarrow> ('s, sbi_ret) state"
  Dbtr_rustsbi_probe :: usize

record 's Mpxy =
  Mpxy_get_shmem_size :: "('s, usize) state"
  Mpxy_set_shmem :: "SharedPtr \<Rightarrow> usize \<Rightarrow> ('s, sbi_ret) state"
  Mpxy_get_channel_ids :: "u32 \<Rightarrow> ('s, sbi_ret) state"
  Mpxy_read_attributes :: "u32 \<Rightarrow> u32 \<Rightarrow> u32 \<Rightarrow> SharedPtr \<Rightarrow> ('s, sbi_ret) state"
  Mpxy_write_attributes :: "u32 \<Rightarrow> u32 \<Rightarrow> u32 \<Rightarrow> SharedPtr \<Rightarrow> ('s, sbi_ret) state"
  Mpxy_send_message_with_response :: "u32 \<Rightarrow> u32 \<Rightarrow> usize \<Rightarrow> ('s, sbi_ret) state"
  Mpxy_send_message_without_response :: "u32 \<Rightarrow> u32 \<Rightarrow> usize \<Rightarrow> ('s, sbi_ret) state"
  Mpxy_get_notification_events :: "u32 \<Rightarrow> ('s, sbi_ret) state"
  Mpxy_rustsbi_probe :: usize

section \<open>Optional extensions\<close>

definition option_Timer :: "'s Timer option \<Rightarrow> 's Timer" where
  "option_Timer self =
     \<lparr>Timer_set_timer = (\<lambda>stime_value. map_or (State_Monad.return ()) (\<lambda>inner. Timer_set_timer inner stime_value) self),
      Timer_rustsbi_probe = option_probe self\<rparr>"

definition option_Ipi :: "'s Ipi option \<Rightarrow> 's Ipi" where
  "option_Ipi self =
     \<lparr>Ipi_send_ipi = (\<lambda>hart_mask. map_or ns (\<lambda>inner. Ipi_send_ipi inner hart_mask) self),
      Ipi_rustsbi_probe = option_probe self\<rparr>"

definition option_Fence :: "'s Fence option \<Rightarrow> 's Fence" where
  "option_Fence self =
     \<lparr>Fence_remote_fence_i = (\<lambda>hm. map_or ns (\<lambda>inner. Fence_remote_fence_i inner hm) self),
      Fence_remote_sfence_vma = (\<lambda>hm addr sz. map_or ns (\<lambda>inner. Fence_remote_sfence_vma inner hm addr sz) self),
      Fence_remote_sfence_vma_asid = (\<lambda>hm addr sz asid. map_or ns (\<lambda>inner. Fence_remote_sfence_vma_asid inner hm addr sz asid) self),
      Fence_remote_hfence_gvma_vmid = (\<lambda>hm addr sz vmid. map_or ns (\<lambda>inner. Fence_remote_hfence_gvma_vmid inner hm addr sz vmid) self),
      Fence_remote_hfence_gvma = (\<lambda>hm addr sz. map_or ns (\<lambda>inner. Fence_remote_hfence_gvma inner hm addr sz) self),
      Fence_remote_hfence_vvma_asid = (\<lambda>hm addr sz asid. map_or ns (\<lambda>inner. Fence_remote_hfence_vvma_asid inner hm addr sz asid) self),
      Fence_remote_hfence_vvma = (\<lambda>hm addr sz. map_or ns (\<lambda>inner. Fence_remote_hfence_vvma inner hm addr sz) self),
      Fence_rustsbi_probe = option_probe self\<rparr>"

definition option_Hsm :: "'s Hsm option \<Rightarrow> 's Hsm" where
  "option_Hsm self =
     \<lparr>Hsm_hart_start = (\<lambda>hartid addr opq. map_or ns (\<lambda>inner. Hsm_hart_start inner hartid addr opq) self),
      Hsm_hart_stop = map_or ns (\<lambda>inner. Hsm_hart_stop inner) self,
      Hsm_hart_get_status = (\<lambda>hartid. map_or ns (\<lambda>inner. Hsm_hart_get_status inner hartid) self),
      Hsm_hart_suspend = (\<lambda>ty addr opq. map_or ns (\<lambda>inner. Hsm_hart_suspend inner ty addr opq) self),
      Hsm_rustsbi_probe = option_probe self\<rparr>"

definition option_Reset :: "'s Reset option \<Rightarrow> 's Reset" where
  "option_Reset self =
     \<lparr>Reset_system_reset = (\<lambda>ty reason. map_or ns (\<lambda>inner. Reset_system_reset inner ty reason) self),
      Reset_rustsbi_probe = option_probe self\<rparr>"

definition option_Pmu :: "'s Pmu option \<Rightarrow> 's Pmu" where
  "option_Pmu self =
     \<lparr>Pmu_num_counters = map_or (State_Monad.return 0) (\<lambda>inner. Pmu_num_counters inner) self,
      Pmu_counter_get_info = (\<lambda>idx. map_or ns (\<lambda>inner. Pmu_counter_get_info inner idx) self),
      Pmu_counter_config_matching = (\<lambda>base msk flags event data. map_or ns (\<lambda>inner. Pmu_counter_config_matching inner base msk flags event data) self),
      Pmu_counter_start = (\<lambda>base msk flags initial. map_or ns (\<lambda>inner. Pmu_counter_start inner base msk flags initial) self),
      Pmu_counter_stop = (\<lambda>base msk flags. map_or ns (\<lambda>inner. Pmu_counter_stop inner base msk flags) self),
      Pmu_counter_fw_read = (\<lambda>idx. map_or ns (\<lambda>inner. Pmu_counter_fw_read inner idx) self),
      Pmu_counter_fw_read_hi = (\<lambda>idx. map_or ns (\<lambda>inner. Pmu_counter_fw_read_hi inner idx) self),
      Pmu_snapshot_set_shmem = (\<lambda>shmem flags. map_or ns (\<lambda>inner. Pmu_snapshot_set_shmem inner shmem flags) self),
      Pmu_rustsbi_probe = option_probe self\<rparr>"

definition option_Console :: "'s Console option \<Rightarrow> 's Console" where
  "option_Console self =
     \<lparr>Console_write = (\<lambda>bytes. map_or ns (\<lambda>inner. Console_write inner bytes) self),
      Console_read = (\<lambda>bytes. map_or ns (\<lambda>inner. Console_read inner bytes) self),
      Console_write_byte = (\<lambda>byte. map_or ns (\<lambda>inner. Console_write_byte inner byte) self),
      Console_rustsbi_probe = option_probe self\<rparr>"

definition option_Susp :: "'s Susp option \<Rightarrow> 's Susp" where
  "option_Susp self =
     \<lparr>Susp_system_suspend = (\<lambda>ty addr opq. map_or ns (\<lambda>inner. Susp_system_suspend inner ty addr opq) self),
      Susp_rustsbi_probe = option_probe self\<rparr>"

definition option_Cppc :: "'s Cppc option \<Rightarrow> 's Cppc" where
  "option_Cppc self =
     \<lparr>Cppc_probe = (\<lambda>reg. map_or ns (\<lambda>inner. Cppc_probe inner reg) self),
      Cppc_read = (\<lambda>reg. map_or ns (\<lambda>inner. Cppc_read inner reg) self),
      Cppc_read_hi = (\<lambda>reg. map_or ns (\<lambda>inner. Cppc_read_hi inner reg) self),
      Cppc_write = (\<lambda>reg v. map_or ns (\<lambda>inner. Cppc_write inner reg v) self),
      Cppc_rustsbi_probe = option_probe self\<rparr>"

definition option_Nacl :: "'s Nacl option \<Rightarrow> 's Nacl" where
  "option_Nacl self =
     \<lparr>Nacl_probe_feature = (\<lambda>feature. map_or ns (\<lambda>inner. Nacl_probe_feature inner feature) self),
      Nacl_set_shmem = (\<lambda>shmem flags. map_or ns (\<lambda>inner. Nacl_set_shmem inner shmem flags) self),
      Nacl_sync_csr = (\<lambda>csr. map_or ns (\<lambda>inner. Nacl_sync_csr inner csr) self),
      Nacl_sync_hfence = (\<lambda>idx. map_or ns (\<lambda>inner. Nacl_sync_hfence inner idx) self),
      Nacl_sync_sret = map_or ns (\<lambda>inner. Nacl_sync_sret inner) self,
      Nacl_rustsbi_probe = option_probe self\<rparr>"

definition option_Sta :: "'s Sta option \<Rightarrow> 's Sta" where
  "option_Sta self =
     \<lparr>Sta_set_shmem = (\<lambda>shmem flags. map_or ns (\<lambda>inner. Sta_set_shmem inner shmem flags) self),
      Sta_rustsbi_probe = option_probe self\<rparr>"

definition option_Sse :: "'s Sse option \<Rightarrow> 's Sse" where
  "option_Sse self =
     \<lparr>Sse_read_attrs = (\<lambda>event base cnt out. map_or ns (\<lambda>inner. Sse_read_attrs inner event base cnt out) self),
      Sse_write_attrs = (\<lambda>event base cnt inp. map_or ns (\<lambda>inner. Sse_write_attrs inner event base cnt inp) self),
      Sse_register = (\<lambda>event pc arg. map_or ns (\<lambda>inner. Sse_register inner event pc arg) self),
      Sse_unregister = (\<lambda>event. map_or ns (\<lambda>inner. Sse_unregister inner event) self),
      Sse_enable = (\<lambda>event. map_or ns (\<lambda>inner. Sse_enable inner event) self),
      Sse_disable = (\<lambda>event. map_or ns (\<lambda>inner. Sse_disable inner event) self),
      Sse_complete = map_or ns (\<lambda>inner. Sse_complete inner) self,
      Sse_inject = (\<lambda>event hart. map_or ns (\<lambda>inner. Sse_inject inner event hart) self),
      Sse_hart_unmask = map_or ns (\<lambda>inner. Sse_hart_unmask inner) self,
      Sse_hart_mask = map_or ns (\<lambda>inner. Sse_hart_mask inner) self,
      Sse_rustsbi_probe = option_probe self\<rparr>"

definition option_Fwft :: "'s Fwft option \<Rightarrow> 's Fwft" where
  "option_Fwft self =
     \<lparr>Fwft_set = (\<lambda>feature v flags. map_or ns (\<lambda>inner. Fwft_set inner feature v flags) self),
      Fwft_get = (\<lambda>feature. map_or ns (\<lambda>inner. Fwft_get inner feature) self),
      Fwft_rustsbi_probe = option_probe self\<rparr>"

definition option_Dbtr :: "'s Dbtr option \<Rightarrow> 's Dbtr" where
  "option_Dbtr self =
     \<lparr>Dbtr_num_triggers = (\<lambda>tdata1. map_or (State_Monad.return 0) (\<lambda>inner. Dbtr_num_triggers inner tdata1) self),
      Dbtr_set_shmem = (\<lambda>shmem flags. map_or ns (\<lambda>inner. Dbtr_set_shmem inner shmem flags) self),
      Dbtr_read_triggers = (\<lambda>base cnt. map_or ns (\<lambda>inner. Dbtr_read_triggers inner base cnt) self),
      Dbtr_install_triggers = (\<lambda>cnt. map_or ns (\<lambda>inner. Dbtr_install_triggers inner cnt) self),
      Dbtr_update_triggers = (\<lambda>cnt. map_or ns (\<lambda>inner. Dbtr_update_triggers inner cnt) self),
      Dbtr_uninstall_triggers = (\<lambda>trigs. map_or ns (\<lambda>inner. Dbtr_uninstall_triggers inner trigs) self),
      Dbtr_enable_triggers = (\<lambda>trigs. map_or ns (\<lambda>inner. Dbtr_enable_triggers inner trigs) self),
      Dbtr_disable_triggers = (\<lambda>trigs. map_or ns (\<lambda>inner. Dbtr_disable_triggers inner trigs) self),
      Dbtr_rustsbi_probe = option_probe self\<rparr>"

definition option_Mpxy :: "'s Mpxy option \<Rightarrow> 's Mpxy" where
  "option_Mpxy self =
     \<lparr>Mpxy_get_shmem_size = map_or (State_Monad.return 0) (\<lambda>inner. Mpxy_get_shmem_size inner) self,
      Mpxy_set_shmem = (\<lambda>shmem flags. map_or ns (\<lambda>inner. Mpxy_set_shmem inner shmem flags) self),
      Mpxy_get_channel_ids = (\<lambda>idx. map_or ns (\<lambda>inner. Mpxy_get_channel_ids inner idx) self),
      Mpxy_read_attributes = (\<lambda>ch base cnt out. map_or ns (\<lambda>inner. Mpxy_read_attributes inner ch base cnt out) self),
      Mpxy_write_attributes = (\<lambda>ch base cnt inp. map_or ns (\<lambda>inner. Mpxy_write_attributes inner ch base cnt inp) self),
      Mpxy_send_message_with_response = (\<lambda>ch msg len. map_or ns (\<lambda>inner. Mpxy_send_message_with_response inner ch msg len) self),
      Mpxy_send_message_without_response = (\<lambda>ch msg len. map_or ns (\<lambda>inner. Mpxy_send_message_without_response inner ch msg len) self),
      Mpxy_get_notification_events = (\<lambda>ch. map_or ns (\<lambda>inner. Mpxy_get_notification_events inner ch) self),
      Mpxy_rustsbi_probe = option_probe self\<rparr>"

section \<open>References to an extension\<close>

text \<open>These instances pass every method on but keep the default probe.\<close>

definition ref_Timer :: "'s Timer \<Rightarrow> 's Timer" where
  "ref_Timer self =
     \<lparr>Timer_set_timer = (\<lambda>stime_value. Timer_set_timer self stime_value),
      Timer_rustsbi_probe = default_probe\<rparr>"

definition ref_Ipi :: "'s Ipi \<Rightarrow> 's Ipi" where
  "ref_Ipi self =
     \<lparr>Ipi_send_ipi = (\<lambda>hart_mask. Ipi_send_ipi self hart_mask),
      Ipi_rustsbi_probe = default_probe\<rparr>"

definition ref_Fence :: "'s Fence \<Rightarrow> 's Fence" where
  "ref_Fence self =
     \<lparr>Fence_remote_fence_i = (\<lambda>hm. Fence_remote_fence_i self hm),
      Fence_remote_sfence_vma = (\<lambda>hm addr sz. Fence_remote_sfence_vma self hm addr sz),
      Fence_remote_sfence_vma_asid = (\<lambda>hm addr sz asid. Fence_remote_sfence_vma_asid self hm addr sz asid),
      Fence_remote_hfence_gvma_vmid = (\<lambda>hm addr sz vmid. Fence_remote_hfence_gvma_vmid self hm addr sz vmid),
      Fence_remote_hfence_gvma = (\<lambda>hm addr sz. Fence_remote_hfence_gvma self hm addr sz),
      Fence_remote_hfence_vvma_asid = (\<lambda>hm addr sz asid. Fence_remote_hfence_vvma_asid self hm addr sz asid),
      Fence_remote_hfence_vvma = (\<lambda>hm addr sz. Fence_remote_hfence_vvma self hm addr sz),
      Fence_rustsbi_probe = default_probe\<rparr>"

definition ref_Hsm :: "'s Hsm \<Rightarrow> 's Hsm" where
  "ref_Hsm self =
     \<lparr>Hsm_hart_start = (\<lambda>hartid addr opq. Hsm_hart_start self hartid addr opq),
      Hsm_hart_stop = Hsm_hart_stop self,
      Hsm_hart_get_status = (\<lambda>hartid. Hsm_hart_get_status self hartid),
      Hsm_hart_suspend = (\<lambda>ty addr opq. Hsm_hart_suspend self ty addr opq),
      Hsm_rustsbi_probe = default_probe\<rparr>"

definition ref_Reset :: "'s Reset \<Rightarrow> 's Reset" where
  "ref_Reset self =
     \<lparr>Reset_system_reset = (\<lambda>ty reason. Reset_system_reset self ty reason),
      Reset_rustsbi_probe = default_probe\<rparr>"

definition ref_Pmu :: "'s Pmu \<Rightarrow> 's Pmu" where
  "ref_Pmu self =
     \<lparr>Pmu_num_counters = Pmu_num_counters self,
      Pmu_counter_get_info = (\<lambda>idx. Pmu_counter_get_info self idx),
      Pmu_counter_config_matching = (\<lambda>base msk flags event data. Pmu_counter_config_matching self base msk flags event data),
      Pmu_counter_start = (\<lambda>base msk flags initial. Pmu_counter_start self base msk flags initial),
      Pmu_counter_stop = (\<lambda>base msk flags. Pmu_counter_stop self base msk flags),
      Pmu_counter_fw_read = (\<lambda>idx. Pmu_counter_fw_read self idx),
      Pmu_counter_fw_read_hi = (\<lambda>idx. Pmu_counter_fw_read_hi self idx),
      Pmu_snapshot_set_shmem = (\<lambda>shmem flags. Pmu_snapshot_set_shmem self shmem flags),
      Pmu_rustsbi_probe = default_probe\<rparr>"

definition ref_Console :: "'s Console \<Rightarrow> 's Console" where
  "ref_Console self =
     \<lparr>Console_write = (\<lambda>bytes. Console_write self bytes),
      Console_read = (\<lambda>bytes. Console_read self bytes),
      Console_write_byte = (\<lambda>byte. Console_write_byte self byte),
      Console_rustsbi_probe = default_probe\<rparr>"

definition ref_Susp :: "'s Susp \<Rightarrow> 's Susp" where
  "ref_Susp self =
     \<lparr>Susp_system_suspend = (\<lambda>ty addr opq. Susp_system_suspend self ty addr opq),
      Susp_rustsbi_probe = default_probe\<rparr>"

definition ref_Cppc :: "'s Cppc \<Rightarrow> 's Cppc" where
  "ref_Cppc self =
     \<lparr>Cppc_probe = (\<lambda>reg. Cppc_probe self reg),
      Cppc_read = (\<lambda>reg. Cppc_read self reg),
      Cppc_read_hi = (\<lambda>reg. Cppc_read_hi self reg),
      Cppc_write = (\<lambda>reg v. Cppc_write self reg v),
      Cppc_rustsbi_probe = default_probe\<rparr>"

definition ref_Nacl :: "'s Nacl \<Rightarrow> 's Nacl" where
  "ref_Nacl self =
     \<lparr>Nacl_probe_feature = (\<lambda>feature. Nacl_probe_feature self feature),
      Nacl_set_shmem = (\<lambda>shmem flags. Nacl_set_shmem self shmem flags),
      Nacl_sync_csr = (\<lambda>csr. Nacl_sync_csr self csr),
      Nacl_sync_hfence = (\<lambda>idx. Nacl_sync_hfence self idx),
      Nacl_sync_sret = Nacl_sync_sret self,
      Nacl_rustsbi_probe = default_probe\<rparr>"

definition ref_Sta :: "'s Sta \<Rightarrow> 's Sta" where
  "ref_Sta self =
     \<lparr>Sta_set_shmem = (\<lambda>shmem flags. Sta_set_shmem self shmem flags),
      Sta_rustsbi_probe = default_probe\<rparr>"

definition ref_Sse :: "'s Sse \<Rightarrow> 's Sse" where
  "ref_Sse self =
     \<lparr>Sse_read_attrs = (\<lambda>event base cnt out. Sse_read_attrs self event base cnt out),
      Sse_write_attrs = (\<lambda>event base cnt inp. Sse_write_attrs self event base cnt inp),
      Sse_register = (\<lambda>event pc arg. Sse_register self event pc arg),
      Sse_unregister = (\<lambda>event. Sse_unregister self event),
      Sse_enable = (\<lambda>event. Sse_enable self event),
      Sse_disable = (\<lambda>event. Sse_disable self event),
      Sse_complete = Sse_complete self,
      Sse_inject = (\<lambda>event hart. Sse_inject self event hart),
      Sse_hart_unmask = Sse_hart_unmask self,
      Sse_hart_mask = Sse_hart_mask self,
      Sse_rustsbi_probe = default_probe\<rparr>"

definition ref_Fwft :: "'s Fwft \<Rightarrow> 's Fwft" where
  "ref_Fwft self =
     \<lparr>Fwft_set = (\<lambda>feature v flags. Fwft_set self feature v flags),
      Fwft_get = (\<lambda>feature. Fwft_get self feature),
      Fwft_rustsbi_probe = default_probe\<rparr>"

definition ref_Dbtr :: "'s Dbtr \<Rightarrow> 's Dbtr" where
  "ref_Dbtr self =
     \<lparr>Dbtr_num_triggers = (\<lambda>tdata1. Dbtr_num_triggers self tdata1),
      Dbtr_set_shmem = (\<lambda>shmem flags. Dbtr_set_shmem self shmem flags),
      Dbtr_read_triggers = (\<lambda>base cnt. Dbtr_read_triggers self base cnt),
      Dbtr_install_triggers = (\<lambda>cnt. Dbtr_install_triggers self cnt),
      Dbtr_update_triggers = (\<lambda>cnt. Dbtr_update_triggers self cnt),
      Dbtr_uninstall_triggers = (\<lambda>trigs. Dbtr_uninstall_triggers self trigs),
      Dbtr_enable_triggers = (\<lambda>trigs. Dbtr_enable_triggers self trigs),
      Dbtr_disable_triggers = (\<lambda>trigs. Dbtr_disable_triggers self trigs),
      Dbtr_rustsbi_probe = default_probe\<rparr>"

definition ref_Mpxy :: "'s Mpxy \<Rightarrow> 's Mpxy" where
  "ref_Mpxy self =
     \<lparr>Mpxy_get_shmem_size = Mpxy_get_shmem_size self,
      Mpxy_set_shmem = (\<lambda>shmem flags. Mpxy_set_shmem self shmem flags),
      Mpxy_get_channel_ids = (\<lambda>idx. Mpxy_get_channel_ids self idx),
      Mpxy_read_attributes = (\<lambda>ch base cnt out. Mpxy_read_attributes self ch base cnt out),
      Mpxy_write_attributes = (\<lambda>ch base cnt inp. Mpxy_write_attributes self ch base cnt inp),
      Mpxy_send_message_with_response = (\<lambda>ch msg len. Mpxy_send_message_with_response self ch msg len),
      Mpxy_send_message_without_response = (\<lambda>ch msg len. Mpxy_send_message_without_response self ch msg len),
      Mpxy_get_notification_events = (\<lambda>ch. Mpxy_get_notification_events self ch),
      Mpxy_rustsbi_probe = default_probe\<rparr>"

section \<open>Facts\<close>

lemma map_or_simps [simp]: "map_or d f None = d" "map_or d f (Some x) = f x"
  by (simp_all add: map_or_def)

lemma option_probe_simps [simp]: "option_probe None = 0" "option_probe (Some x) = 1"
  by (simp_all add: option_probe_def UNAVAILABLE_EXTENSION_def)

lemma default_probe_one [simp]: "default_probe = 1"
  by (simp add: default_probe_def UNAVAILABLE_EXTENSION_def)

end
