(* ===== verification/Sbi_Dispatch.thy ===== *)
theory Sbi_Dispatch
  imports Sbi_Traits
begin

text \<open>
  Dispatch of a supervisor call to the extensions (\<open>rustsbi/src/traits.rs\<close>) and the two dispatchers
  that \<open>derive(RustSBI)\<close> of the crate \<open>macros\<close> generates: a static one, whose extensions are fixed, and a
  dynamic one, which asks every field of an extension whether it is available. The parameters
  \<open>[usize; 6]\<close> are a list of length 6. The numbers are those of \<open>sbi-spec\<close>.
\<close>

section \<open>Numbers\<close>

text \<open>\<open>eid_from_str\<close>: the bytes of the name, the first one highest; other lengths do not compile. The result is
  an \<open>i32\<close>, whose conversion to a register extends the sign.\<close>

fun eid_from_bytes :: "u32 list \<Rightarrow> u32" where
  "eid_from_bytes [a] = a"
| "eid_from_bytes [a, b] = push_bit 8 a OR b"
| "eid_from_bytes [a, b, c] = push_bit 16 a OR push_bit 8 b OR c"
| "eid_from_bytes [a, b, c, d] = push_bit 24 a OR push_bit 16 b OR push_bit 8 c OR d"
| "eid_from_bytes _ = 0"

definition eid_from_str :: "string \<Rightarrow> u32" where
  "eid_from_str name = eid_from_bytes (map of_char name)"

definition EID_BASE :: usize where "EID_BASE = 0x10"
definition EID_TIME :: usize where "EID_TIME = scast (eid_from_str ''TIME'')"
definition EID_SPI :: usize where "EID_SPI = scast (eid_from_str ''sPI'')"
definition EID_RFNC :: usize where "EID_RFNC = scast (eid_from_str ''RFNC'')"
definition EID_HSM :: usize where "EID_HSM = scast (eid_from_str ''HSM'')"
definition EID_SRST :: usize where "EID_SRST = scast (eid_from_str ''SRST'')"
definition EID_PMU :: usize where "EID_PMU = scast (eid_from_str ''PMU'')"
definition EID_DBCN :: usize where "EID_DBCN = scast (eid_from_str ''DBCN'')"
definition EID_SUSP :: usize where "EID_SUSP = scast (eid_from_str ''SUSP'')"
definition EID_CPPC :: usize where "EID_CPPC = scast (eid_from_str ''CPPC'')"
definition EID_NACL :: usize where "EID_NACL = scast (eid_from_str ''NACL'')"
definition EID_STA :: usize where "EID_STA = scast (eid_from_str ''STA'')"
definition EID_SSE :: usize where "EID_SSE = scast (eid_from_str ''SSE'')"
definition EID_FWFT :: usize where "EID_FWFT = scast (eid_from_str ''FWFT'')"
definition EID_DBTR :: usize where "EID_DBTR = scast (eid_from_str ''DBTR'')"
definition EID_MPXY :: usize where "EID_MPXY = scast (eid_from_str ''MPXY'')"

definition BASE_GET_SBI_SPEC_VERSION :: usize where "BASE_GET_SBI_SPEC_VERSION = 0"
definition BASE_GET_SBI_IMPL_ID :: usize where "BASE_GET_SBI_IMPL_ID = 1"
definition BASE_GET_SBI_IMPL_VERSION :: usize where "BASE_GET_SBI_IMPL_VERSION = 2"
definition BASE_PROBE_EXTENSION :: usize where "BASE_PROBE_EXTENSION = 3"
definition BASE_GET_MVENDORID :: usize where "BASE_GET_MVENDORID = 4"
definition BASE_GET_MARCHID :: usize where "BASE_GET_MARCHID = 5"
definition BASE_GET_MIMPID :: usize where "BASE_GET_MIMPID = 6"

definition TIME_SET_TIMER :: usize where "TIME_SET_TIMER = 0"

definition SPI_SEND_IPI :: usize where "SPI_SEND_IPI = 0"

definition RFNC_REMOTE_FENCE_I :: usize where "RFNC_REMOTE_FENCE_I = 0"
definition RFNC_REMOTE_SFENCE_VMA :: usize where "RFNC_REMOTE_SFENCE_VMA = 1"
definition RFNC_REMOTE_SFENCE_VMA_ASID :: usize where "RFNC_REMOTE_SFENCE_VMA_ASID = 2"
definition RFNC_REMOTE_HFENCE_GVMA_VMID :: usize where "RFNC_REMOTE_HFENCE_GVMA_VMID = 3"
definition RFNC_REMOTE_HFENCE_GVMA :: usize where "RFNC_REMOTE_HFENCE_GVMA = 4"
definition RFNC_REMOTE_HFENCE_VVMA_ASID :: usize where "RFNC_REMOTE_HFENCE_VVMA_ASID = 5"
definition RFNC_REMOTE_HFENCE_VVMA :: usize where "RFNC_REMOTE_HFENCE_VVMA = 6"

definition HSM_HART_START :: usize where "HSM_HART_START = 0"
definition HSM_HART_STOP :: usize where "HSM_HART_STOP = 1"
definition HSM_HART_GET_STATUS :: usize where "HSM_HART_GET_STATUS = 2"
definition HSM_HART_SUSPEND :: usize where "HSM_HART_SUSPEND = 3"

definition SRST_SYSTEM_RESET :: usize where "SRST_SYSTEM_RESET = 0"

definition PMU_NUM_COUNTERS :: usize where "PMU_NUM_COUNTERS = 0"
definition PMU_COUNTER_GET_INFO :: usize where "PMU_COUNTER_GET_INFO = 1"
definition PMU_COUNTER_CONFIG_MATCHING :: usize where "PMU_COUNTER_CONFIG_MATCHING = 2"
definition PMU_COUNTER_START :: usize where "PMU_COUNTER_START = 3"
definition PMU_COUNTER_STOP :: usize where "PMU_COUNTER_STOP = 4"
definition PMU_COUNTER_FW_READ :: usize where "PMU_COUNTER_FW_READ = 5"
definition PMU_COUNTER_FW_READ_HI :: usize where "PMU_COUNTER_FW_READ_HI = 6"
definition PMU_SNAPSHOT_SET_SHMEM :: usize where "PMU_SNAPSHOT_SET_SHMEM = 7"

definition DBCN_CONSOLE_WRITE :: usize where "DBCN_CONSOLE_WRITE = 0"
definition DBCN_CONSOLE_READ :: usize where "DBCN_CONSOLE_READ = 1"
definition DBCN_CONSOLE_WRITE_BYTE :: usize where "DBCN_CONSOLE_WRITE_BYTE = 2"

definition SUSP_SUSPEND :: usize where "SUSP_SUSPEND = 0"

definition CPPC_PROBE :: usize where "CPPC_PROBE = 0"
definition CPPC_READ :: usize where "CPPC_READ = 1"
definition CPPC_READ_HI :: usize where "CPPC_READ_HI = 2"
definition CPPC_WRITE :: usize where "CPPC_WRITE = 3"

definition NACL_PROBE_FEATURE :: usize where "NACL_PROBE_FEATURE = 0"
definition NACL_SET_SHMEM :: usize where "NACL_SET_SHMEM = 1"
definition NACL_SYNC_CSR :: usize where "NACL_SYNC_CSR = 2"
definition NACL_SYNC_HFENCE :: usize where "NACL_SYNC_HFENCE = 3"
definition NACL_SYNC_SRET :: usize where "NACL_SYNC_SRET = 4"

definition STA_SET_SHMEM :: usize where "STA_SET_SHMEM = 0"

definition SSE_READ_ATTRS :: usize where "SSE_READ_ATTRS = 0"
definition SSE_WRITE_ATTRS :: usize where "SSE_WRITE_ATTRS = 1"
definition SSE_REGISTER :: usize where "SSE_REGISTER = 2"
definition SSE_UNREGISTER :: usize where "SSE_UNREGISTER = 3"
definition SSE_ENABLE :: usize where "SSE_ENABLE = 4"
definition SSE_DISABLE :: usize where "SSE_DISABLE = 5"
definition SSE_COMPLETE :: usize where "SSE_COMPLETE = 6"
definition SSE_INJECT :: usize where "SSE_INJECT = 7"
definition SSE_HART_UNMASK :: usize where "SSE_HART_UNMASK = 8"
definition SSE_HART_MASK :: usize where "SSE_HART_MASK = 9"

definition FWFT_SET :: usize where "FWFT_SET = 0"
definition FWFT_GET :: usize where "FWFT_GET = 1"

definition DBTR_NUM_TRIGGERS :: usize where "DBTR_NUM_TRIGGERS = 0"
definition DBTR_SET_SHMEM :: usize where "DBTR_SET_SHMEM = 1"
definition DBTR_READ_TRIGGERS :: usize where "DBTR_READ_TRIGGERS = 2"
definition DBTR_INSTALL_TRIGGERS :: usize where "DBTR_INSTALL_TRIGGERS = 3"
definition DBTR_UPDATE_TRIGGERS :: usize where "DBTR_UPDATE_TRIGGERS = 4"
definition DBTR_UNINSTALL_TRIGGERS :: usize where "DBTR_UNINSTALL_TRIGGERS = 5"
definition DBTR_ENABLE_TRIGGERS :: usize where "DBTR_ENABLE_TRIGGERS = 6"
definition DBTR_DISABLE_TRIGGERS :: usize where "DBTR_DISABLE_TRIGGERS = 7"

definition MPXY_GET_SHMEM_SIZE :: usize where "MPXY_GET_SHMEM_SIZE = 0"
definition MPXY_SET_SHMEM :: usize where "MPXY_SET_SHMEM = 1"
definition MPXY_GET_CHANNEL_IDS :: usize where "MPXY_GET_CHANNEL_IDS = 2"
definition MPXY_READ_ATTRIBUTE :: usize where "MPXY_READ_ATTRIBUTE = 3"
definition MPXY_WRITE_ATTRIBUTE :: usize where "MPXY_WRITE_ATTRIBUTE = 4"
definition MPXY_SEND_MESSAGE_WITH_RESPONSE :: usize where "MPXY_SEND_MESSAGE_WITH_RESPONSE = 5"
definition MPXY_SEND_MESSAGE_WITHOUT_RESPONSE :: usize where "MPXY_SEND_MESSAGE_WITHOUT_RESPONSE = 6"
definition MPXY_GET_NOTIFICATION_EVENTS :: usize where "MPXY_GET_NOTIFICATION_EVENTS = 7"

lemma eid_values:
  "EID_BASE = 0x10"
  "EID_TIME = 0x54494d45"
  "EID_SPI = 0x735049"
  "EID_RFNC = 0x52464e43"
  "EID_HSM = 0x48534d"
  "EID_SRST = 0x53525354"
  "EID_PMU = 0x504d55"
  "EID_DBCN = 0x4442434e"
  "EID_SUSP = 0x53555350"
  "EID_CPPC = 0x43505043"
  "EID_NACL = 0x4e41434c"
  "EID_STA = 0x535441"
  "EID_SSE = 0x535345"
  "EID_FWFT = 0x46574654"
  "EID_DBTR = 0x44425452"
  "EID_MPXY = 0x4d505859"
  by (simp_all add: EID_BASE_def eid_from_str_def of_char_def
    EID_TIME_def EID_SPI_def EID_RFNC_def EID_HSM_def EID_SRST_def EID_PMU_def EID_DBCN_def EID_SUSP_def EID_CPPC_def EID_NACL_def EID_STA_def EID_SSE_def EID_FWFT_def EID_DBTR_def EID_MPXY_def)

lemmas fid_defs =
  BASE_GET_SBI_SPEC_VERSION_def BASE_GET_SBI_IMPL_ID_def BASE_GET_SBI_IMPL_VERSION_def BASE_PROBE_EXTENSION_def BASE_GET_MVENDORID_def BASE_GET_MARCHID_def BASE_GET_MIMPID_def
  TIME_SET_TIMER_def
  SPI_SEND_IPI_def
  RFNC_REMOTE_FENCE_I_def RFNC_REMOTE_SFENCE_VMA_def RFNC_REMOTE_SFENCE_VMA_ASID_def RFNC_REMOTE_HFENCE_GVMA_VMID_def RFNC_REMOTE_HFENCE_GVMA_def RFNC_REMOTE_HFENCE_VVMA_ASID_def RFNC_REMOTE_HFENCE_VVMA_def
  HSM_HART_START_def HSM_HART_STOP_def HSM_HART_GET_STATUS_def HSM_HART_SUSPEND_def
  SRST_SYSTEM_RESET_def
  PMU_NUM_COUNTERS_def PMU_COUNTER_GET_INFO_def PMU_COUNTER_CONFIG_MATCHING_def PMU_COUNTER_START_def PMU_COUNTER_STOP_def PMU_COUNTER_FW_READ_def PMU_COUNTER_FW_READ_HI_def PMU_SNAPSHOT_SET_SHMEM_def
  DBCN_CONSOLE_WRITE_def DBCN_CONSOLE_READ_def DBCN_CONSOLE_WRITE_BYTE_def
  SUSP_SUSPEND_def
  CPPC_PROBE_def CPPC_READ_def CPPC_READ_HI_def CPPC_WRITE_def
  NACL_PROBE_FEATURE_def NACL_SET_SHMEM_def NACL_SYNC_CSR_def NACL_SYNC_HFENCE_def NACL_SYNC_SRET_def
  STA_SET_SHMEM_def
  SSE_READ_ATTRS_def SSE_WRITE_ATTRS_def SSE_REGISTER_def SSE_UNREGISTER_def SSE_ENABLE_def SSE_DISABLE_def SSE_COMPLETE_def SSE_INJECT_def SSE_HART_UNMASK_def SSE_HART_MASK_def
  FWFT_SET_def FWFT_GET_def
  DBTR_NUM_TRIGGERS_def DBTR_SET_SHMEM_def DBTR_READ_TRIGGERS_def DBTR_INSTALL_TRIGGERS_def DBTR_UPDATE_TRIGGERS_def DBTR_UNINSTALL_TRIGGERS_def DBTR_ENABLE_TRIGGERS_def DBTR_DISABLE_TRIGGERS_def
  MPXY_GET_SHMEM_SIZE_def MPXY_SET_SHMEM_def MPXY_GET_CHANNEL_IDS_def MPXY_READ_ATTRIBUTE_def MPXY_WRITE_ATTRIBUTE_def MPXY_SEND_MESSAGE_WITH_RESPONSE_def MPXY_SEND_MESSAGE_WITHOUT_RESPONSE_def MPXY_GET_NOTIFICATION_EVENTS_def

section \<open>Extensions\<close>

text \<open>Arguments of type \<open>u32\<close> are converted by \<open>u32::try_from\<close>; a wider value is an invalid parameter.\<close>

definition ip :: "('s, sbi_ret) state" where "ip = State_Monad.return sbi_invalid_param"

definition with_u32 :: "usize \<Rightarrow> (u32 \<Rightarrow> ('s, sbi_ret) state) \<Rightarrow> ('s, sbi_ret) state" where
  "with_u32 x f = (case u32_try_from x of Some v \<Rightarrow> f v | None \<Rightarrow> ip)"

definition with_u32_2 :: "usize \<Rightarrow> usize \<Rightarrow> (u32 \<Rightarrow> u32 \<Rightarrow> ('s, sbi_ret) state) \<Rightarrow> ('s, sbi_ret) state" where
  "with_u32_2 x y f =
     (case (u32_try_from x, u32_try_from y) of (Some v, Some w) \<Rightarrow> f v w | _ \<Rightarrow> ip)"

definition with_u32_3 ::
    "usize \<Rightarrow> usize \<Rightarrow> usize \<Rightarrow> (u32 \<Rightarrow> u32 \<Rightarrow> u32 \<Rightarrow> ('s, sbi_ret) state) \<Rightarrow> ('s, sbi_ret) state" where
  "with_u32_3 x y z f =
     (case (u32_try_from x, u32_try_from y, u32_try_from z) of
        (Some u, Some v, Some w) \<Rightarrow> f u v w
      | _ \<Rightarrow> ip)"

definition success_of :: "('s, usize) state \<Rightarrow> ('s, sbi_ret) state" where
  "success_of a = do {v \<leftarrow> a; State_Monad.return (sbi_success v)}"

definition rustsbi_timer :: "'s Timer \<Rightarrow> usize list \<Rightarrow> usize \<Rightarrow> ('s, sbi_ret) state" where
  "rustsbi_timer timer p fid =
     (if fid = TIME_SET_TIMER then do {Timer_set_timer timer (p ! 0); State_Monad.return (sbi_success 0)}
      else ns)"

definition rustsbi_ipi :: "'s Ipi \<Rightarrow> usize list \<Rightarrow> usize \<Rightarrow> ('s, sbi_ret) state" where
  "rustsbi_ipi ipi p fid =
     (if fid = SPI_SEND_IPI then Ipi_send_ipi ipi (hart_mask_from_mask_base (p ! 0) (p ! 1))
      else ns)"

definition rustsbi_fence :: "'s Fence \<Rightarrow> usize list \<Rightarrow> usize \<Rightarrow> ('s, sbi_ret) state" where
  "rustsbi_fence fence p fid =
     (let hm = hart_mask_from_mask_base (p ! 0) (p ! 1)
      in if fid = RFNC_REMOTE_FENCE_I then Fence_remote_fence_i fence hm
      else if fid = RFNC_REMOTE_SFENCE_VMA then Fence_remote_sfence_vma fence hm (p ! 2) (p ! 3)
      else if fid = RFNC_REMOTE_SFENCE_VMA_ASID then Fence_remote_sfence_vma_asid fence hm (p ! 2) (p ! 3) (p ! 4)
      else if fid = RFNC_REMOTE_HFENCE_GVMA_VMID then Fence_remote_hfence_gvma_vmid fence hm (p ! 2) (p ! 3) (p ! 4)
      else if fid = RFNC_REMOTE_HFENCE_GVMA then Fence_remote_hfence_gvma fence hm (p ! 2) (p ! 3)
      else if fid = RFNC_REMOTE_HFENCE_VVMA_ASID then Fence_remote_hfence_vvma_asid fence hm (p ! 2) (p ! 3) (p ! 4)
      else if fid = RFNC_REMOTE_HFENCE_VVMA then Fence_remote_hfence_vvma fence hm (p ! 2) (p ! 3)
      else ns)"

definition rustsbi_hsm :: "'s Hsm \<Rightarrow> usize list \<Rightarrow> usize \<Rightarrow> ('s, sbi_ret) state" where
  "rustsbi_hsm hsm p fid =
     (if fid = HSM_HART_START then Hsm_hart_start hsm (p ! 0) (p ! 1) (p ! 2)
      else if fid = HSM_HART_STOP then Hsm_hart_stop hsm
      else if fid = HSM_HART_GET_STATUS then Hsm_hart_get_status hsm (p ! 0)
      else if fid = HSM_HART_SUSPEND then with_u32 (p ! 0) (\<lambda>ty. Hsm_hart_suspend hsm ty (p ! 1) (p ! 2))
      else ns)"

definition rustsbi_reset :: "'s Reset \<Rightarrow> usize list \<Rightarrow> usize \<Rightarrow> ('s, sbi_ret) state" where
  "rustsbi_reset reset p fid =
     (if fid = SRST_SYSTEM_RESET then with_u32_2 (p ! 0) (p ! 1) (\<lambda>ty reason. Reset_system_reset reset ty reason)
      else ns)"

definition rustsbi_pmu :: "'s Pmu \<Rightarrow> usize list \<Rightarrow> usize \<Rightarrow> ('s, sbi_ret) state" where
  "rustsbi_pmu pmu p fid =
     (if fid = PMU_NUM_COUNTERS then success_of (Pmu_num_counters pmu)
      else if fid = PMU_COUNTER_GET_INFO then Pmu_counter_get_info pmu (p ! 0)
      else if fid = PMU_COUNTER_CONFIG_MATCHING then Pmu_counter_config_matching pmu (p ! 0) (p ! 1) (p ! 2) (p ! 3) (p ! 4)
      else if fid = PMU_COUNTER_START then Pmu_counter_start pmu (p ! 0) (p ! 1) (p ! 2) (p ! 3)
      else if fid = PMU_COUNTER_STOP then Pmu_counter_stop pmu (p ! 0) (p ! 1) (p ! 2)
      else if fid = PMU_COUNTER_FW_READ then Pmu_counter_fw_read pmu (p ! 0)
      else if fid = PMU_COUNTER_FW_READ_HI then Pmu_counter_fw_read_hi pmu (p ! 0)
      else if fid = PMU_SNAPSHOT_SET_SHMEM then Pmu_snapshot_set_shmem pmu (shared_new (p ! 0) (p ! 1)) (p ! 2)
      else ns)"

definition rustsbi_console :: "'s Console \<Rightarrow> usize list \<Rightarrow> usize \<Rightarrow> ('s, sbi_ret) state" where
  "rustsbi_console console p fid =
     (if fid = DBCN_CONSOLE_WRITE then Console_write console (physical_new (p ! 0) (p ! 1) (p ! 2))
      else if fid = DBCN_CONSOLE_READ then Console_read console (physical_new (p ! 0) (p ! 1) (p ! 2))
      else if fid = DBCN_CONSOLE_WRITE_BYTE then Console_write_byte console (ucast (p ! 0 AND 0xff))
      else ns)"

definition rustsbi_susp :: "'s Susp \<Rightarrow> usize list \<Rightarrow> usize \<Rightarrow> ('s, sbi_ret) state" where
  "rustsbi_susp susp p fid =
     (if fid = SUSP_SUSPEND then with_u32 (p ! 0) (\<lambda>ty. Susp_system_suspend susp ty (p ! 1) (p ! 2))
      else ns)"

definition rustsbi_cppc :: "'s Cppc \<Rightarrow> usize list \<Rightarrow> usize \<Rightarrow> ('s, sbi_ret) state" where
  "rustsbi_cppc cppc p fid =
     (if fid = CPPC_PROBE then with_u32 (p ! 0) (Cppc_probe cppc)
      else if fid = CPPC_READ then with_u32 (p ! 0) (Cppc_read cppc)
      else if fid = CPPC_READ_HI then with_u32 (p ! 0) (Cppc_read_hi cppc)
      else if fid = CPPC_WRITE then with_u32 (p ! 0) (\<lambda>reg. Cppc_write cppc reg (p ! 1))
      else ns)"

definition rustsbi_nacl :: "'s Nacl \<Rightarrow> usize list \<Rightarrow> usize \<Rightarrow> ('s, sbi_ret) state" where
  "rustsbi_nacl nacl p fid =
     (if fid = NACL_PROBE_FEATURE then with_u32 (p ! 0) (Nacl_probe_feature nacl)
      else if fid = NACL_SET_SHMEM then Nacl_set_shmem nacl (shared_new (p ! 0) (p ! 1)) (p ! 2)
      else if fid = NACL_SYNC_CSR then Nacl_sync_csr nacl (p ! 0)
      else if fid = NACL_SYNC_HFENCE then Nacl_sync_hfence nacl (p ! 0)
      else if fid = NACL_SYNC_SRET then Nacl_sync_sret nacl
      else ns)"

definition rustsbi_sta :: "'s Sta \<Rightarrow> usize list \<Rightarrow> usize \<Rightarrow> ('s, sbi_ret) state" where
  "rustsbi_sta sta p fid =
     (if fid = STA_SET_SHMEM then Sta_set_shmem sta (shared_new (p ! 0) (p ! 1)) (p ! 2)
      else ns)"

definition rustsbi_fwft :: "'s Fwft \<Rightarrow> usize list \<Rightarrow> usize \<Rightarrow> ('s, sbi_ret) state" where
  "rustsbi_fwft fwft p fid =
     (if fid = FWFT_SET then with_u32 (p ! 0) (\<lambda>f. Fwft_set fwft f (p ! 1) (p ! 2))
      else if fid = FWFT_GET then with_u32 (p ! 0) (Fwft_get fwft)
      else ns)"

definition rustsbi_dbtr :: "'s Dbtr \<Rightarrow> usize list \<Rightarrow> usize \<Rightarrow> ('s, sbi_ret) state" where
  "rustsbi_dbtr dbtr p fid =
     (if fid = DBTR_NUM_TRIGGERS then success_of (Dbtr_num_triggers dbtr (p ! 0))
      else if fid = DBTR_SET_SHMEM then Dbtr_set_shmem dbtr (shared_new (p ! 0) (p ! 1)) (p ! 2)
      else if fid = DBTR_READ_TRIGGERS then Dbtr_read_triggers dbtr (p ! 0) (p ! 1)
      else if fid = DBTR_INSTALL_TRIGGERS then Dbtr_install_triggers dbtr (p ! 0)
      else if fid = DBTR_UPDATE_TRIGGERS then Dbtr_update_triggers dbtr (p ! 0)
      else if fid = DBTR_UNINSTALL_TRIGGERS then Dbtr_uninstall_triggers dbtr (trigger_mask_from_mask_base (p ! 0) (p ! 1))
      else if fid = DBTR_ENABLE_TRIGGERS then Dbtr_enable_triggers dbtr (trigger_mask_from_mask_base (p ! 0) (p ! 1))
      else if fid = DBTR_DISABLE_TRIGGERS then Dbtr_disable_triggers dbtr (trigger_mask_from_mask_base (p ! 0) (p ! 1))
      else ns)"

definition rustsbi_mpxy :: "'s Mpxy \<Rightarrow> usize list \<Rightarrow> usize \<Rightarrow> ('s, sbi_ret) state" where
  "rustsbi_mpxy mpxy p fid =
     (if fid = MPXY_GET_SHMEM_SIZE then success_of (Mpxy_get_shmem_size mpxy)
      else if fid = MPXY_SET_SHMEM then Mpxy_set_shmem mpxy (shared_new (p ! 0) (p ! 1)) (p ! 2)
      else if fid = MPXY_GET_CHANNEL_IDS then with_u32 (p ! 0) (Mpxy_get_channel_ids mpxy)
      else if fid = MPXY_READ_ATTRIBUTE then with_u32_3 (p ! 0) (p ! 1) (p ! 2)
        (\<lambda>ch base cnt. Mpxy_read_attributes mpxy ch base cnt (shared_new (p ! 3) (p ! 4)))
      else if fid = MPXY_WRITE_ATTRIBUTE then with_u32_3 (p ! 0) (p ! 1) (p ! 2)
        (\<lambda>ch base cnt. Mpxy_write_attributes mpxy ch base cnt (shared_new (p ! 3) (p ! 4)))
      else if fid = MPXY_SEND_MESSAGE_WITH_RESPONSE then with_u32_2 (p ! 0) (p ! 1)
        (\<lambda>ch msg. Mpxy_send_message_with_response mpxy ch msg (p ! 2))
      else if fid = MPXY_SEND_MESSAGE_WITHOUT_RESPONSE then with_u32_2 (p ! 0) (p ! 1)
        (\<lambda>ch msg. Mpxy_send_message_without_response mpxy ch msg (p ! 2))
      else if fid = MPXY_GET_NOTIFICATION_EVENTS then with_u32 (p ! 0) (Mpxy_get_notification_events mpxy)
      else ns)"

definition rustsbi_sse :: "'s Sse \<Rightarrow> usize list \<Rightarrow> usize \<Rightarrow> ('s, sbi_ret) state" where
  "rustsbi_sse sse p fid =
     (if fid = SSE_READ_ATTRS then with_u32_3 (p ! 0) (p ! 1) (p ! 2)
        (\<lambda>ev base cnt. Sse_read_attrs sse ev base cnt (shared_new (p ! 3) (p ! 4)))
      else if fid = SSE_WRITE_ATTRS then with_u32_3 (p ! 0) (p ! 1) (p ! 2)
        (\<lambda>ev base cnt. Sse_write_attrs sse ev base cnt (shared_new (p ! 3) (p ! 4)))
      else if fid = SSE_REGISTER then with_u32 (p ! 0) (\<lambda>ev. Sse_register sse ev (p ! 1) (p ! 2))
      else if fid = SSE_UNREGISTER then with_u32 (p ! 0) (Sse_unregister sse)
      else if fid = SSE_ENABLE then with_u32 (p ! 0) (Sse_enable sse)
      else if fid = SSE_DISABLE then with_u32 (p ! 0) (Sse_disable sse)
      else if fid = SSE_COMPLETE then Sse_complete sse
      else if fid = SSE_INJECT then with_u32 (p ! 0) (\<lambda>ev. Sse_inject sse ev (p ! 1))
      else if fid = SSE_HART_UNMASK then Sse_hart_unmask sse
      else if fid = SSE_HART_MASK then Sse_hart_mask sse
      else ns)"

section \<open>The base extension\<close>

definition SBI_SPEC_MAJOR :: usize where "SBI_SPEC_MAJOR = 2"
definition SBI_SPEC_MINOR :: usize where "SBI_SPEC_MINOR = 0"
definition IMPL_ID_RUSTSBI :: usize where "IMPL_ID_RUSTSBI = 4"

text \<open>The package version 0.4.1.\<close>

definition RUSTSBI_VERSION :: usize where "RUSTSBI_VERSION = push_bit 16 0 + push_bit 8 4 + 1"

record 's EnvInfo =
  EnvInfo_mvendorid :: "('s, usize) state"
  EnvInfo_marchid :: "('s, usize) state"
  EnvInfo_mimpid :: "('s, usize) state"

definition rustsbi_base_env_info ::
    "usize list \<Rightarrow> usize \<Rightarrow> 's EnvInfo \<Rightarrow> (usize \<Rightarrow> usize) \<Rightarrow> ('s, sbi_ret) state" where
  "rustsbi_base_env_info p fid env_info probe =
     (if fid = BASE_GET_SBI_SPEC_VERSION
      then success_of (State_Monad.return (push_bit 24 SBI_SPEC_MAJOR OR SBI_SPEC_MINOR))
      else if fid = BASE_GET_SBI_IMPL_ID then success_of (State_Monad.return IMPL_ID_RUSTSBI)
      else if fid = BASE_GET_SBI_IMPL_VERSION then success_of (State_Monad.return RUSTSBI_VERSION)
      else if fid = BASE_PROBE_EXTENSION then success_of (State_Monad.return (probe (p ! 0)))
      else if fid = BASE_GET_MVENDORID then success_of (EnvInfo_mvendorid env_info)
      else if fid = BASE_GET_MARCHID then success_of (EnvInfo_marchid env_info)
      else if fid = BASE_GET_MIMPID then success_of (EnvInfo_mimpid env_info)
      else ns)"

text \<open>In machine mode the registers themselves answer; \<open>ids\<close> are their values.\<close>

definition rustsbi_base_bare ::
    "usize \<times> usize \<times> usize \<Rightarrow> usize list \<Rightarrow> usize \<Rightarrow> (usize \<Rightarrow> usize) \<Rightarrow> ('s, sbi_ret) state" where
  "rustsbi_base_bare ids p fid probe =
     (if fid = BASE_GET_SBI_SPEC_VERSION
      then success_of (State_Monad.return (push_bit 24 SBI_SPEC_MAJOR OR SBI_SPEC_MINOR))
      else if fid = BASE_GET_SBI_IMPL_ID then success_of (State_Monad.return IMPL_ID_RUSTSBI)
      else if fid = BASE_GET_SBI_IMPL_VERSION then success_of (State_Monad.return RUSTSBI_VERSION)
      else if fid = BASE_PROBE_EXTENSION then success_of (State_Monad.return (probe (p ! 0)))
      else if fid = BASE_GET_MVENDORID then success_of (State_Monad.return (fst ids))
      else if fid = BASE_GET_MARCHID then success_of (State_Monad.return (fst (snd ids)))
      else if fid = BASE_GET_MIMPID then success_of (State_Monad.return (snd (snd ids)))
      else ns)"

section \<open>Vendor extensions (\<open>extension.rs\<close>)\<close>

record 's VendorSBI =
  VendorSBI_probe_extension :: "usize \<Rightarrow> usize"
  VendorSBI_handle_ecall :: "usize \<Rightarrow> usize \<Rightarrow> usize list \<Rightarrow> ('s, sbi_ret) state"

definition option_VendorSBI :: "'s VendorSBI option \<Rightarrow> 's VendorSBI" where
  "option_VendorSBI self =
     \<lparr>VendorSBI_probe_extension = (\<lambda>ext. map_or 0 (\<lambda>inner. VendorSBI_probe_extension inner ext) self),
      VendorSBI_handle_ecall = (\<lambda>ext fid args. map_or ns (\<lambda>inner. VendorSBI_handle_ecall inner ext fid args) self)\<rparr>"

section \<open>The static dispatcher\<close>

record 's StaticImpl =
  si_fence :: "'s Fence option"
  si_timer :: "'s Timer option"
  si_ipi :: "'s Ipi option"
  si_hsm :: "'s Hsm option"
  si_reset :: "'s Reset option"
  si_pmu :: "'s Pmu option"
  si_console :: "'s Console option"
  si_susp :: "'s Susp option"
  si_cppc :: "'s Cppc option"
  si_nacl :: "'s Nacl option"
  si_sta :: "'s Sta option"
  si_mpxy :: "'s Mpxy option"
  si_dbtr :: "'s Dbtr option"
  si_fwft :: "'s Fwft option"
  si_sse :: "'s Sse option"
  si_env_info :: "'s EnvInfo option"
  si_vendor :: "'s VendorSBI option"

record StandardExtensionProbe =
  sp_base :: usize
  sp_fence :: usize
  sp_timer :: usize
  sp_ipi :: usize
  sp_hsm :: usize
  sp_reset :: usize
  sp_pmu :: usize
  sp_console :: usize
  sp_susp :: usize
  sp_cppc :: usize
  sp_nacl :: usize
  sp_sta :: usize
  sp_mpxy :: usize
  sp_dbtr :: usize
  sp_fwft :: usize
  sp_sse :: usize

definition probe_standard :: "StandardExtensionProbe \<Rightarrow> usize \<Rightarrow> usize" where
  "probe_standard s ext =
     (if ext = EID_BASE then sp_base s
      else if ext = EID_TIME then sp_timer s
      else if ext = EID_SPI then sp_ipi s
      else if ext = EID_RFNC then sp_fence s
      else if ext = EID_SRST then sp_reset s
      else if ext = EID_HSM then sp_hsm s
      else if ext = EID_PMU then sp_pmu s
      else if ext = EID_DBCN then sp_console s
      else if ext = EID_SUSP then sp_susp s
      else if ext = EID_CPPC then sp_cppc s
      else if ext = EID_NACL then sp_nacl s
      else if ext = EID_STA then sp_sta s
      else if ext = EID_MPXY then sp_mpxy s
      else if ext = EID_DBTR then sp_dbtr s
      else if ext = EID_FWFT then sp_fwft s
      else if ext = EID_SSE then sp_sse s
      else UNAVAILABLE_EXTENSION)"

text \<open>\<open>if imp.fence.is_some() { 1 } else { 0 }\<close> and so on.\<close>

definition some_probe :: "'t option \<Rightarrow> usize" where
  "some_probe fld = (if fld \<noteq> None then 1 else 0)"

definition static_probe :: "'s StaticImpl \<Rightarrow> usize \<Rightarrow> usize" where
  "static_probe imp ext =
     (let standard = probe_standard
        \<lparr>sp_base = 1,
         sp_fence = some_probe (si_fence imp),
         sp_timer = some_probe (si_timer imp),
         sp_ipi = some_probe (si_ipi imp),
         sp_hsm = some_probe (si_hsm imp),
         sp_reset = some_probe (si_reset imp),
         sp_pmu = some_probe (si_pmu imp),
         sp_console = some_probe (si_console imp),
         sp_susp = some_probe (si_susp imp),
         sp_cppc = some_probe (si_cppc imp),
         sp_nacl = some_probe (si_nacl imp),
         sp_sta = some_probe (si_sta imp),
         sp_mpxy = some_probe (si_mpxy imp),
         sp_dbtr = some_probe (si_dbtr imp),
         sp_fwft = some_probe (si_fwft imp),
         sp_sse = some_probe (si_sse imp)\<rparr> ext
      in case si_vendor imp of
           Some vendor \<Rightarrow> if standard \<noteq> 0 then standard else VendorSBI_probe_extension vendor ext
         | None \<Rightarrow> standard)"

text \<open>An extension without a field has no arm in the \<open>match\<close>, so its calls reach the last arm.\<close>

definition arm :: "'t option \<Rightarrow> usize \<Rightarrow> usize \<Rightarrow> ('t \<Rightarrow> 'r) \<Rightarrow> 'r \<Rightarrow> 'r" where
  "arm fld eid ext call other = (case fld of Some x \<Rightarrow> if ext = eid then call x else other | None \<Rightarrow> other)"

definition handle_ecall_static ::
    "usize \<times> usize \<times> usize \<Rightarrow> 's StaticImpl \<Rightarrow> usize \<Rightarrow> usize \<Rightarrow> usize list \<Rightarrow> ('s, sbi_ret) state" where
  "handle_ecall_static ids imp ext fid p =
     (if ext = EID_BASE
      then (case si_env_info imp of
              Some env_info \<Rightarrow> rustsbi_base_env_info p fid env_info (static_probe imp)
            | None \<Rightarrow> rustsbi_base_bare ids p fid (static_probe imp))
      else
        arm (si_fence imp) EID_RFNC ext (\<lambda>fence. rustsbi_fence fence p fid) (
        arm (si_timer imp) EID_TIME ext (\<lambda>timer. rustsbi_timer timer p fid) (
        arm (si_ipi imp) EID_SPI ext (\<lambda>ipi. rustsbi_ipi ipi p fid) (
        arm (si_hsm imp) EID_HSM ext (\<lambda>hsm. rustsbi_hsm hsm p fid) (
        arm (si_reset imp) EID_SRST ext (\<lambda>reset. rustsbi_reset reset p fid) (
        arm (si_pmu imp) EID_PMU ext (\<lambda>pmu. rustsbi_pmu pmu p fid) (
        arm (si_console imp) EID_DBCN ext (\<lambda>console. rustsbi_console console p fid) (
        arm (si_susp imp) EID_SUSP ext (\<lambda>susp. rustsbi_susp susp p fid) (
        arm (si_cppc imp) EID_CPPC ext (\<lambda>cppc. rustsbi_cppc cppc p fid) (
        arm (si_nacl imp) EID_NACL ext (\<lambda>nacl. rustsbi_nacl nacl p fid) (
        arm (si_sta imp) EID_STA ext (\<lambda>sta. rustsbi_sta sta p fid) (
        arm (si_mpxy imp) EID_MPXY ext (\<lambda>mpxy. rustsbi_mpxy mpxy p fid) (
        arm (si_dbtr imp) EID_DBTR ext (\<lambda>dbtr. rustsbi_dbtr dbtr p fid) (
        arm (si_fwft imp) EID_FWFT ext (\<lambda>fwft. rustsbi_fwft fwft p fid) (
        arm (si_sse imp) EID_SSE ext (\<lambda>sse. rustsbi_sse sse p fid) (
        case si_vendor imp of
          Some vendor \<Rightarrow> VendorSBI_handle_ecall vendor ext fid p
        | None \<Rightarrow> ns))))))))))))))))"

section \<open>The dynamic dispatcher\<close>

record 's DynamicImpl =
  di_fence :: "'s Fence list"
  di_timer :: "'s Timer list"
  di_ipi :: "'s Ipi list"
  di_hsm :: "'s Hsm list"
  di_reset :: "'s Reset list"
  di_pmu :: "'s Pmu list"
  di_console :: "'s Console list"
  di_susp :: "'s Susp list"
  di_cppc :: "'s Cppc list"
  di_nacl :: "'s Nacl list"
  di_sta :: "'s Sta list"
  di_mpxy :: "'s Mpxy list"
  di_dbtr :: "'s Dbtr list"
  di_fwft :: "'s Fwft list"
  di_sse :: "'s Sse list"
  di_env_info :: "'s EnvInfo option"
  di_vendor :: "'s VendorSBI option"

text \<open>The fields of one extension, in order: the first one that is available.\<close>

fun try_fields :: "('t \<Rightarrow> usize) \<Rightarrow> ('t \<Rightarrow> 'r) \<Rightarrow> 'r \<Rightarrow> 't list \<Rightarrow> 'r" where
  "try_fields probe call other [] = other"
| "try_fields probe call other (x # xs) =
     (if probe x \<noteq> UNAVAILABLE_EXTENSION then call x else try_fields probe call other xs)"

definition probe_fields :: "('t \<Rightarrow> usize) \<Rightarrow> 't list \<Rightarrow> usize" where
  "probe_fields probe xs = try_fields probe probe UNAVAILABLE_EXTENSION xs"

definition prober :: "'s DynamicImpl \<Rightarrow> usize \<Rightarrow> usize" where
  "prober imp ext =
     (if ext = EID_BASE then 1
      else if ext = EID_TIME then probe_fields Timer_rustsbi_probe (di_timer imp)
      else if ext = EID_SPI then probe_fields Ipi_rustsbi_probe (di_ipi imp)
      else if ext = EID_RFNC then probe_fields Fence_rustsbi_probe (di_fence imp)
      else if ext = EID_SRST then probe_fields Reset_rustsbi_probe (di_reset imp)
      else if ext = EID_HSM then probe_fields Hsm_rustsbi_probe (di_hsm imp)
      else if ext = EID_PMU then probe_fields Pmu_rustsbi_probe (di_pmu imp)
      else if ext = EID_DBCN then probe_fields Console_rustsbi_probe (di_console imp)
      else if ext = EID_SUSP then probe_fields Susp_rustsbi_probe (di_susp imp)
      else if ext = EID_CPPC then probe_fields Cppc_rustsbi_probe (di_cppc imp)
      else if ext = EID_NACL then probe_fields Nacl_rustsbi_probe (di_nacl imp)
      else if ext = EID_STA then probe_fields Sta_rustsbi_probe (di_sta imp)
      else if ext = EID_MPXY then probe_fields Mpxy_rustsbi_probe (di_mpxy imp)
      else if ext = EID_DBTR then probe_fields Dbtr_rustsbi_probe (di_dbtr imp)
      else if ext = EID_FWFT then probe_fields Fwft_rustsbi_probe (di_fwft imp)
      else if ext = EID_SSE then probe_fields Sse_rustsbi_probe (di_sse imp)
      else case di_vendor imp of
             Some vendor \<Rightarrow> VendorSBI_probe_extension vendor ext
           | None \<Rightarrow> UNAVAILABLE_EXTENSION)"

definition handle_ecall ::
    "usize \<times> usize \<times> usize \<Rightarrow> 's DynamicImpl \<Rightarrow> usize \<Rightarrow> usize \<Rightarrow> usize list \<Rightarrow> ('s, sbi_ret) state" where
  "handle_ecall ids imp ext fid p =
     (if ext = EID_RFNC then try_fields Fence_rustsbi_probe (\<lambda>fence. rustsbi_fence fence p fid) ns (di_fence imp)
      else if ext = EID_TIME then try_fields Timer_rustsbi_probe (\<lambda>timer. rustsbi_timer timer p fid) ns (di_timer imp)
      else if ext = EID_SPI then try_fields Ipi_rustsbi_probe (\<lambda>ipi. rustsbi_ipi ipi p fid) ns (di_ipi imp)
      else if ext = EID_HSM then try_fields Hsm_rustsbi_probe (\<lambda>hsm. rustsbi_hsm hsm p fid) ns (di_hsm imp)
      else if ext = EID_SRST then try_fields Reset_rustsbi_probe (\<lambda>reset. rustsbi_reset reset p fid) ns (di_reset imp)
      else if ext = EID_PMU then try_fields Pmu_rustsbi_probe (\<lambda>pmu. rustsbi_pmu pmu p fid) ns (di_pmu imp)
      else if ext = EID_DBCN then try_fields Console_rustsbi_probe (\<lambda>console. rustsbi_console console p fid) ns (di_console imp)
      else if ext = EID_SUSP then try_fields Susp_rustsbi_probe (\<lambda>susp. rustsbi_susp susp p fid) ns (di_susp imp)
      else if ext = EID_CPPC then try_fields Cppc_rustsbi_probe (\<lambda>cppc. rustsbi_cppc cppc p fid) ns (di_cppc imp)
      else if ext = EID_NACL then try_fields Nacl_rustsbi_probe (\<lambda>nacl. rustsbi_nacl nacl p fid) ns (di_nacl imp)
      else if ext = EID_STA then try_fields Sta_rustsbi_probe (\<lambda>sta. rustsbi_sta sta p fid) ns (di_sta imp)
      else if ext = EID_MPXY then try_fields Mpxy_rustsbi_probe (\<lambda>mpxy. rustsbi_mpxy mpxy p fid) ns (di_mpxy imp)
      else if ext = EID_DBTR then try_fields Dbtr_rustsbi_probe (\<lambda>dbtr. rustsbi_dbtr dbtr p fid) ns (di_dbtr imp)
      else if ext = EID_FWFT then try_fields Fwft_rustsbi_probe (\<lambda>fwft. rustsbi_fwft fwft p fid) ns (di_fwft imp)
      else if ext = EID_SSE then try_fields Sse_rustsbi_probe (\<lambda>sse. rustsbi_sse sse p fid) ns (di_sse imp)
      else if ext = EID_BASE
      then (case di_env_info imp of
              Some env_info \<Rightarrow> rustsbi_base_env_info p fid env_info (prober imp)
            | None \<Rightarrow> rustsbi_base_bare ids p fid (prober imp))
      else case di_vendor imp of
             Some vendor \<Rightarrow> VendorSBI_handle_ecall vendor ext fid p
           | None \<Rightarrow> ns)"

end
