(* ===== verification/Sbi_Rt.thy ===== *)
theory Sbi_Rt
  imports Sbi_Dispatch
begin

text \<open>
  The supervisor side: the call wrappers of \<open>sbi-rt\<close> on RV64. A supervisor is the effect \<open>ecall\<close> of the
  instruction, given the extension in \<open>a7\<close>, the function in \<open>a6\<close> and the contents of \<open>a0\<close> to \<open>a5\<close>, and the
  contents \<open>a_reg i\<close> of the argument registers that a call does not set.
\<close>

record 's supervisor =
  ecall :: "usize \<Rightarrow> usize \<Rightarrow> usize list \<Rightarrow> ('s, sbi_ret) state"
  a_reg :: "nat \<Rightarrow> usize"

section \<open>Calls (\<open>binary.rs\<close>)\<close>

definition sbi_call_0 :: "'s supervisor \<Rightarrow> usize \<Rightarrow> usize \<Rightarrow> ('s, sbi_ret) state" where
  "sbi_call_0 S eid fid = ecall S eid fid [a_reg S 0, a_reg S 1, a_reg S 2, a_reg S 3, a_reg S 4, a_reg S 5]"

definition sbi_call_1 :: "'s supervisor \<Rightarrow> usize \<Rightarrow> usize \<Rightarrow> usize \<Rightarrow> ('s, sbi_ret) state" where
  "sbi_call_1 S eid fid x0 = ecall S eid fid [x0, a_reg S 1, a_reg S 2, a_reg S 3, a_reg S 4, a_reg S 5]"

definition sbi_call_2 :: "'s supervisor \<Rightarrow> usize \<Rightarrow> usize \<Rightarrow> usize \<Rightarrow> usize \<Rightarrow> ('s, sbi_ret) state" where
  "sbi_call_2 S eid fid x0 x1 = ecall S eid fid [x0, x1, a_reg S 2, a_reg S 3, a_reg S 4, a_reg S 5]"

definition sbi_call_3 :: "'s supervisor \<Rightarrow> usize \<Rightarrow> usize \<Rightarrow> usize \<Rightarrow> usize \<Rightarrow> usize \<Rightarrow> ('s, sbi_ret) state" where
  "sbi_call_3 S eid fid x0 x1 x2 = ecall S eid fid [x0, x1, x2, a_reg S 3, a_reg S 4, a_reg S 5]"

definition sbi_call_4 :: "'s supervisor \<Rightarrow> usize \<Rightarrow> usize \<Rightarrow> usize \<Rightarrow> usize \<Rightarrow> usize \<Rightarrow> usize \<Rightarrow> ('s, sbi_ret) state" where
  "sbi_call_4 S eid fid x0 x1 x2 x3 = ecall S eid fid [x0, x1, x2, x3, a_reg S 4, a_reg S 5]"

definition sbi_call_5 :: "'s supervisor \<Rightarrow> usize \<Rightarrow> usize \<Rightarrow> usize \<Rightarrow> usize \<Rightarrow> usize \<Rightarrow> usize \<Rightarrow> usize \<Rightarrow> ('s, sbi_ret) state" where
  "sbi_call_5 S eid fid x0 x1 x2 x3 x4 = ecall S eid fid [x0, x1, x2, x3, x4, a_reg S 5]"

definition sbi_call_6 :: "'s supervisor \<Rightarrow> usize \<Rightarrow> usize \<Rightarrow> usize \<Rightarrow> usize \<Rightarrow> usize \<Rightarrow> usize \<Rightarrow> usize \<Rightarrow> usize \<Rightarrow> ('s, sbi_ret) state" where
  "sbi_call_6 S eid fid x0 x1 x2 x3 x4 x5 = ecall S eid fid [x0, x1, x2, x3, x4, x5]"

lemmas sbi_call_defs = sbi_call_0_def sbi_call_1_def sbi_call_2_def sbi_call_3_def sbi_call_4_def sbi_call_5_def sbi_call_6_def

definition value_of :: "('s, sbi_ret) state \<Rightarrow> ('s, usize) state" where
  "value_of a = do {r \<leftarrow> a; State_Monad.return (sbi_value r)}"

record Version = ver_raw :: usize

definition ver_from_raw :: "usize \<Rightarrow> Version" where "ver_from_raw x = \<lparr>ver_raw = x\<rparr>"

definition ver_major :: "Version \<Rightarrow> usize" where "ver_major v = drop_bit 24 (ver_raw v) AND (push_bit 7 1 - 1)"

definition ver_minor :: "Version \<Rightarrow> usize" where "ver_minor v = ver_raw v AND (push_bit 24 1 - 1)"

text \<open>The order of versions, \<open>cmp\<close>: major first, then minor.\<close>

datatype Ordering = Less | Equal | Greater

definition ord_cmp :: "usize \<Rightarrow> usize \<Rightarrow> Ordering" where
  "ord_cmp x y = (if x < y then Less else if x = y then Equal else Greater)"

definition ver_cmp :: "Version \<Rightarrow> Version \<Rightarrow> Ordering" where
  "ver_cmp a b =
     (case ord_cmp (ver_major a) (ver_major b) of
        Equal \<Rightarrow> ord_cmp (ver_minor a) (ver_minor b)
      | c \<Rightarrow> c)"

record ExtensionInfo = ext_raw :: usize

definition is_available :: "ExtensionInfo \<Rightarrow> bool" where "is_available e \<longleftrightarrow> ext_raw e \<noteq> 0"

definition is_unavailable :: "ExtensionInfo \<Rightarrow> bool" where "is_unavailable e \<longleftrightarrow> ext_raw e = 0"

section \<open>Wrappers\<close>

text \<open>\<open>base.rs\<close>\<close>

definition get_spec_version :: "'s supervisor \<Rightarrow> ('s, Version) state" where
  "get_spec_version S =
     do {r \<leftarrow> sbi_call_0 S EID_BASE BASE_GET_SBI_SPEC_VERSION; State_Monad.return (ver_from_raw (sbi_value r))}"

definition get_sbi_impl_id :: "'s supervisor \<Rightarrow> ('s, usize) state" where
  "get_sbi_impl_id S =
     value_of (sbi_call_0 S EID_BASE BASE_GET_SBI_IMPL_ID)"

definition get_sbi_impl_version :: "'s supervisor \<Rightarrow> ('s, usize) state" where
  "get_sbi_impl_version S =
     value_of (sbi_call_0 S EID_BASE BASE_GET_SBI_IMPL_VERSION)"

definition probe_extension :: "'s supervisor \<Rightarrow> usize \<Rightarrow> ('s, ExtensionInfo) state" where
  "probe_extension S ext =
     do {r \<leftarrow> sbi_call_1 S EID_BASE BASE_PROBE_EXTENSION ext; State_Monad.return \<lparr>ext_raw = sbi_value r\<rparr>}"

definition get_mvendorid :: "'s supervisor \<Rightarrow> ('s, usize) state" where
  "get_mvendorid S =
     value_of (sbi_call_0 S EID_BASE BASE_GET_MVENDORID)"

definition get_marchid :: "'s supervisor \<Rightarrow> ('s, usize) state" where
  "get_marchid S =
     value_of (sbi_call_0 S EID_BASE BASE_GET_MARCHID)"

definition get_mimpid :: "'s supervisor \<Rightarrow> ('s, usize) state" where
  "get_mimpid S =
     value_of (sbi_call_0 S EID_BASE BASE_GET_MIMPID)"

text \<open>\<open>time.rs\<close>\<close>

definition set_timer :: "'s supervisor \<Rightarrow> u64 \<Rightarrow> ('s, sbi_ret) state" where
  "set_timer S stime_value =
     sbi_call_1 S EID_TIME TIME_SET_TIMER stime_value"

text \<open>\<open>spi.rs\<close>\<close>

definition send_ipi :: "'s supervisor \<Rightarrow> HartMask \<Rightarrow> ('s, sbi_ret) state" where
  "send_ipi S hm =
     (let (msk, base) = hart_mask_into_inner hm in sbi_call_2 S EID_SPI SPI_SEND_IPI msk base)"

text \<open>\<open>rfnc.rs\<close>\<close>

definition remote_fence_i :: "'s supervisor \<Rightarrow> HartMask \<Rightarrow> ('s, sbi_ret) state" where
  "remote_fence_i S hm =
     (let (msk, base) = hart_mask_into_inner hm in sbi_call_2 S EID_RFNC RFNC_REMOTE_FENCE_I msk base)"

definition remote_sfence_vma :: "'s supervisor \<Rightarrow> HartMask \<Rightarrow> usize \<Rightarrow> usize \<Rightarrow> ('s, sbi_ret) state" where
  "remote_sfence_vma S hm addr sz =
     (let (msk, base) = hart_mask_into_inner hm in sbi_call_4 S EID_RFNC RFNC_REMOTE_SFENCE_VMA msk base addr sz)"

definition remote_sfence_vma_asid :: "'s supervisor \<Rightarrow> HartMask \<Rightarrow> usize \<Rightarrow> usize \<Rightarrow> usize \<Rightarrow> ('s, sbi_ret) state" where
  "remote_sfence_vma_asid S hm addr sz asid =
     (let (msk, base) = hart_mask_into_inner hm in sbi_call_5 S EID_RFNC RFNC_REMOTE_SFENCE_VMA_ASID msk base addr sz asid)"

definition remote_hfence_gvma_vmid :: "'s supervisor \<Rightarrow> HartMask \<Rightarrow> usize \<Rightarrow> usize \<Rightarrow> usize \<Rightarrow> ('s, sbi_ret) state" where
  "remote_hfence_gvma_vmid S hm addr sz vmid =
     (let (msk, base) = hart_mask_into_inner hm in sbi_call_5 S EID_RFNC RFNC_REMOTE_HFENCE_GVMA_VMID msk base addr sz vmid)"

definition remote_hfence_gvma :: "'s supervisor \<Rightarrow> HartMask \<Rightarrow> usize \<Rightarrow> usize \<Rightarrow> ('s, sbi_ret) state" where
  "remote_hfence_gvma S hm addr sz =
     (let (msk, base) = hart_mask_into_inner hm in sbi_call_4 S EID_RFNC RFNC_REMOTE_HFENCE_GVMA msk base addr sz)"

definition remote_hfence_vvma_asid :: "'s supervisor \<Rightarrow> HartMask \<Rightarrow> usize \<Rightarrow> usize \<Rightarrow> usize \<Rightarrow> ('s, sbi_ret) state" where
  "remote_hfence_vvma_asid S hm addr sz asid =
     (let (msk, base) = hart_mask_into_inner hm in sbi_call_5 S EID_RFNC RFNC_REMOTE_HFENCE_VVMA_ASID msk base addr sz asid)"

definition remote_hfence_vvma :: "'s supervisor \<Rightarrow> HartMask \<Rightarrow> usize \<Rightarrow> usize \<Rightarrow> ('s, sbi_ret) state" where
  "remote_hfence_vvma S hm addr sz =
     (let (msk, base) = hart_mask_into_inner hm in sbi_call_4 S EID_RFNC RFNC_REMOTE_HFENCE_VVMA msk base addr sz)"

text \<open>\<open>hsm.rs\<close>\<close>

definition hart_start :: "'s supervisor \<Rightarrow> usize \<Rightarrow> usize \<Rightarrow> usize \<Rightarrow> ('s, sbi_ret) state" where
  "hart_start S hartid addr opq =
     sbi_call_3 S EID_HSM HSM_HART_START hartid addr opq"

definition hart_stop :: "'s supervisor \<Rightarrow> ('s, sbi_ret) state" where
  "hart_stop S =
     sbi_call_0 S EID_HSM HSM_HART_STOP"

definition hart_get_status :: "'s supervisor \<Rightarrow> usize \<Rightarrow> ('s, sbi_ret) state" where
  "hart_get_status S hartid =
     sbi_call_1 S EID_HSM HSM_HART_GET_STATUS hartid"

definition hart_suspend :: "'s supervisor \<Rightarrow> u32 \<Rightarrow> usize \<Rightarrow> usize \<Rightarrow> ('s, sbi_ret) state" where
  "hart_suspend S ty addr opq =
     sbi_call_3 S EID_HSM HSM_HART_SUSPEND (ucast ty) addr opq"

text \<open>\<open>srst.rs\<close>\<close>

definition system_reset :: "'s supervisor \<Rightarrow> u32 \<Rightarrow> u32 \<Rightarrow> ('s, sbi_ret) state" where
  "system_reset S ty reason =
     sbi_call_2 S EID_SRST SRST_SYSTEM_RESET (ucast ty) (ucast reason)"

text \<open>\<open>pmu.rs\<close>\<close>

definition pmu_num_counters :: "'s supervisor \<Rightarrow> ('s, usize) state" where
  "pmu_num_counters S =
     value_of (sbi_call_0 S EID_PMU PMU_NUM_COUNTERS)"

definition pmu_counter_get_info :: "'s supervisor \<Rightarrow> usize \<Rightarrow> ('s, sbi_ret) state" where
  "pmu_counter_get_info S idx =
     sbi_call_1 S EID_PMU PMU_COUNTER_GET_INFO idx"

definition pmu_counter_config_matching :: "'s supervisor \<Rightarrow> CounterMask \<Rightarrow> usize \<Rightarrow> usize \<Rightarrow> u64 \<Rightarrow> ('s, sbi_ret) state" where
  "pmu_counter_config_matching S counters flags event data =
     (let (msk, base) = counter_mask_into_inner counters in sbi_call_5 S EID_PMU PMU_COUNTER_CONFIG_MATCHING base msk flags event data)"

definition pmu_counter_start :: "'s supervisor \<Rightarrow> CounterMask \<Rightarrow> usize \<Rightarrow> u64 \<Rightarrow> ('s, sbi_ret) state" where
  "pmu_counter_start S counters flags initial =
     (let (msk, base) = counter_mask_into_inner counters in sbi_call_4 S EID_PMU PMU_COUNTER_START base msk flags initial)"

definition pmu_counter_stop :: "'s supervisor \<Rightarrow> CounterMask \<Rightarrow> usize \<Rightarrow> ('s, sbi_ret) state" where
  "pmu_counter_stop S counters flags =
     (let (msk, base) = counter_mask_into_inner counters in sbi_call_3 S EID_PMU PMU_COUNTER_STOP base msk flags)"

definition pmu_counter_fw_read :: "'s supervisor \<Rightarrow> usize \<Rightarrow> ('s, sbi_ret) state" where
  "pmu_counter_fw_read S idx =
     sbi_call_1 S EID_PMU PMU_COUNTER_FW_READ idx"

definition pmu_counter_fw_read_hi :: "'s supervisor \<Rightarrow> usize \<Rightarrow> ('s, sbi_ret) state" where
  "pmu_counter_fw_read_hi S idx =
     sbi_call_1 S EID_PMU PMU_COUNTER_FW_READ_HI idx"

definition pmu_snapshot_set_shmem :: "'s supervisor \<Rightarrow> SharedPtr \<Rightarrow> usize \<Rightarrow> ('s, sbi_ret) state" where
  "pmu_snapshot_set_shmem S shmem flags =
     sbi_call_3 S EID_PMU PMU_SNAPSHOT_SET_SHMEM (shared_addr_lo shmem) (shared_addr_hi shmem) flags"

text \<open>\<open>dbcn.rs\<close>\<close>

definition console_write :: "'s supervisor \<Rightarrow> Physical \<Rightarrow> ('s, sbi_ret) state" where
  "console_write S bytes =
     sbi_call_3 S EID_DBCN DBCN_CONSOLE_WRITE (num_bytes bytes) (phys_addr_lo bytes) (phys_addr_hi bytes)"

definition console_read :: "'s supervisor \<Rightarrow> Physical \<Rightarrow> ('s, sbi_ret) state" where
  "console_read S bytes =
     sbi_call_3 S EID_DBCN DBCN_CONSOLE_READ (num_bytes bytes) (phys_addr_lo bytes) (phys_addr_hi bytes)"

definition console_write_byte :: "'s supervisor \<Rightarrow> u8 \<Rightarrow> ('s, sbi_ret) state" where
  "console_write_byte S byte =
     sbi_call_1 S EID_DBCN DBCN_CONSOLE_WRITE_BYTE (ucast byte)"

text \<open>\<open>susp.rs\<close>\<close>

definition system_suspend :: "'s supervisor \<Rightarrow> u32 \<Rightarrow> usize \<Rightarrow> usize \<Rightarrow> ('s, sbi_ret) state" where
  "system_suspend S ty addr opq =
     sbi_call_3 S EID_SUSP SUSP_SUSPEND (ucast ty) addr opq"

text \<open>\<open>cppc.rs\<close>\<close>

definition cppc_probe :: "'s supervisor \<Rightarrow> u32 \<Rightarrow> ('s, sbi_ret) state" where
  "cppc_probe S reg =
     sbi_call_1 S EID_CPPC CPPC_PROBE (ucast reg)"

definition cppc_read :: "'s supervisor \<Rightarrow> u32 \<Rightarrow> ('s, sbi_ret) state" where
  "cppc_read S reg =
     sbi_call_1 S EID_CPPC CPPC_READ (ucast reg)"

definition cppc_read_hi :: "'s supervisor \<Rightarrow> u32 \<Rightarrow> ('s, sbi_ret) state" where
  "cppc_read_hi S reg =
     sbi_call_1 S EID_CPPC CPPC_READ_HI (ucast reg)"

definition cppc_write :: "'s supervisor \<Rightarrow> u32 \<Rightarrow> u64 \<Rightarrow> ('s, sbi_ret) state" where
  "cppc_write S reg v =
     sbi_call_2 S EID_CPPC CPPC_WRITE (ucast reg) v"

text \<open>\<open>nacl.rs\<close>\<close>

definition nacl_probe_feature :: "'s supervisor \<Rightarrow> u32 \<Rightarrow> ('s, sbi_ret) state" where
  "nacl_probe_feature S feature =
     sbi_call_1 S EID_NACL NACL_PROBE_FEATURE (ucast feature)"

definition nacl_set_shmem :: "'s supervisor \<Rightarrow> SharedPtr \<Rightarrow> usize \<Rightarrow> ('s, sbi_ret) state" where
  "nacl_set_shmem S shmem flags =
     sbi_call_3 S EID_NACL NACL_SET_SHMEM (shared_addr_lo shmem) (shared_addr_hi shmem) flags"

definition nacl_sync_csr :: "'s supervisor \<Rightarrow> usize \<Rightarrow> ('s, sbi_ret) state" where
  "nacl_sync_csr S csr =
     sbi_call_1 S EID_NACL NACL_SYNC_CSR csr"

definition nacl_sync_hfence :: "'s supervisor \<Rightarrow> usize \<Rightarrow> ('s, sbi_ret) state" where
  "nacl_sync_hfence S idx =
     sbi_call_1 S EID_NACL NACL_SYNC_HFENCE idx"

definition nacl_sync_sret :: "'s supervisor \<Rightarrow> ('s, sbi_ret) state" where
  "nacl_sync_sret S =
     sbi_call_0 S EID_NACL NACL_SYNC_SRET"

text \<open>\<open>sta.rs\<close>\<close>

definition sta_set_shmem :: "'s supervisor \<Rightarrow> SharedPtr \<Rightarrow> usize \<Rightarrow> ('s, sbi_ret) state" where
  "sta_set_shmem S shmem flags =
     sbi_call_3 S EID_STA STA_SET_SHMEM (shared_addr_lo shmem) (shared_addr_hi shmem) flags"

text \<open>\<open>sse.rs\<close>\<close>

definition sse_read_attrs :: "'s supervisor \<Rightarrow> u32 \<Rightarrow> u32 \<Rightarrow> u32 \<Rightarrow> SharedPtr \<Rightarrow> ('s, sbi_ret) state" where
  "sse_read_attrs S event base cnt out =
     sbi_call_5 S EID_SSE SSE_READ_ATTRS (ucast event) (ucast base) (ucast cnt) (shared_addr_lo out) (shared_addr_hi out)"

definition sse_write_attrs :: "'s supervisor \<Rightarrow> u32 \<Rightarrow> u32 \<Rightarrow> u32 \<Rightarrow> SharedPtr \<Rightarrow> ('s, sbi_ret) state" where
  "sse_write_attrs S event base cnt inp =
     sbi_call_5 S EID_SSE SSE_WRITE_ATTRS (ucast event) (ucast base) (ucast cnt) (shared_addr_lo inp) (shared_addr_hi inp)"

definition sse_register :: "'s supervisor \<Rightarrow> u32 \<Rightarrow> usize \<Rightarrow> usize \<Rightarrow> ('s, sbi_ret) state" where
  "sse_register S event pc arg =
     sbi_call_3 S EID_SSE SSE_REGISTER (ucast event) pc arg"

definition sse_unregister :: "'s supervisor \<Rightarrow> u32 \<Rightarrow> ('s, sbi_ret) state" where
  "sse_unregister S event =
     sbi_call_1 S EID_SSE SSE_UNREGISTER (ucast event)"

definition sse_enable :: "'s supervisor \<Rightarrow> u32 \<Rightarrow> ('s, sbi_ret) state" where
  "sse_enable S event =
     sbi_call_1 S EID_SSE SSE_ENABLE (ucast event)"

definition sse_disable :: "'s supervisor \<Rightarrow> u32 \<Rightarrow> ('s, sbi_ret) state" where
  "sse_disable S event =
     sbi_call_1 S EID_SSE SSE_DISABLE (ucast event)"

definition sse_complete :: "'s supervisor \<Rightarrow> ('s, sbi_ret) state" where
  "sse_complete S =
     sbi_call_0 S EID_SSE SSE_COMPLETE"

definition sse_inject :: "'s supervisor \<Rightarrow> u32 \<Rightarrow> usize \<Rightarrow> ('s, sbi_ret) state" where
  "sse_inject S event hart =
     sbi_call_2 S EID_SSE SSE_INJECT (ucast event) hart"

definition sse_hart_unmask :: "'s supervisor \<Rightarrow> ('s, sbi_ret) state" where
  "sse_hart_unmask S =
     sbi_call_0 S EID_SSE SSE_HART_UNMASK"

definition sse_hart_mask :: "'s supervisor \<Rightarrow> ('s, sbi_ret) state" where
  "sse_hart_mask S =
     sbi_call_0 S EID_SSE SSE_HART_MASK"

text \<open>\<open>fwft.rs\<close>\<close>

definition fwft_set :: "'s supervisor \<Rightarrow> u32 \<Rightarrow> usize \<Rightarrow> usize \<Rightarrow> ('s, sbi_ret) state" where
  "fwft_set S feature v flags =
     sbi_call_3 S EID_FWFT FWFT_SET (ucast feature) v flags"

definition fwft_get :: "'s supervisor \<Rightarrow> u32 \<Rightarrow> ('s, sbi_ret) state" where
  "fwft_get S feature =
     sbi_call_1 S EID_FWFT FWFT_GET (ucast feature)"

text \<open>\<open>dbtr.rs\<close>\<close>

definition debug_num_triggers :: "'s supervisor \<Rightarrow> usize \<Rightarrow> ('s, usize) state" where
  "debug_num_triggers S tdata1 =
     value_of (sbi_call_1 S EID_DBTR DBTR_NUM_TRIGGERS tdata1)"

definition debug_set_shmem :: "'s supervisor \<Rightarrow> SharedPtr \<Rightarrow> usize \<Rightarrow> ('s, sbi_ret) state" where
  "debug_set_shmem S shmem flags =
     sbi_call_3 S EID_DBTR DBTR_SET_SHMEM (shared_addr_lo shmem) (shared_addr_hi shmem) flags"

definition debug_read_triggers :: "'s supervisor \<Rightarrow> usize \<Rightarrow> usize \<Rightarrow> ('s, sbi_ret) state" where
  "debug_read_triggers S base cnt =
     sbi_call_2 S EID_DBTR DBTR_READ_TRIGGERS base cnt"

definition debug_install_triggers :: "'s supervisor \<Rightarrow> usize \<Rightarrow> ('s, sbi_ret) state" where
  "debug_install_triggers S cnt =
     sbi_call_1 S EID_DBTR DBTR_INSTALL_TRIGGERS cnt"

definition debug_update_triggers :: "'s supervisor \<Rightarrow> usize \<Rightarrow> ('s, sbi_ret) state" where
  "debug_update_triggers S cnt =
     sbi_call_1 S EID_DBTR DBTR_UPDATE_TRIGGERS cnt"

definition debug_uninstall_triggers :: "'s supervisor \<Rightarrow> TriggerMask \<Rightarrow> ('s, sbi_ret) state" where
  "debug_uninstall_triggers S trigs =
     (let (msk, base) = trigger_mask_into_inner trigs in sbi_call_2 S EID_DBTR DBTR_UNINSTALL_TRIGGERS base msk)"

definition debug_enable_triggers :: "'s supervisor \<Rightarrow> TriggerMask \<Rightarrow> ('s, sbi_ret) state" where
  "debug_enable_triggers S trigs =
     (let (msk, base) = trigger_mask_into_inner trigs in sbi_call_2 S EID_DBTR DBTR_ENABLE_TRIGGERS base msk)"

definition debug_disable_triggers :: "'s supervisor \<Rightarrow> TriggerMask \<Rightarrow> ('s, sbi_ret) state" where
  "debug_disable_triggers S trigs =
     (let (msk, base) = trigger_mask_into_inner trigs in sbi_call_2 S EID_DBTR DBTR_DISABLE_TRIGGERS base msk)"

text \<open>\<open>mpxy.rs\<close>\<close>

definition mpxy_get_shmem_size :: "'s supervisor \<Rightarrow> ('s, usize) state" where
  "mpxy_get_shmem_size S =
     value_of (sbi_call_0 S EID_MPXY MPXY_GET_SHMEM_SIZE)"

definition mpxy_set_shmem :: "'s supervisor \<Rightarrow> SharedPtr \<Rightarrow> usize \<Rightarrow> ('s, sbi_ret) state" where
  "mpxy_set_shmem S shmem flags =
     sbi_call_3 S EID_MPXY MPXY_SET_SHMEM (shared_addr_lo shmem) (shared_addr_hi shmem) flags"

definition mpxy_get_channel_ids :: "'s supervisor \<Rightarrow> u32 \<Rightarrow> ('s, sbi_ret) state" where
  "mpxy_get_channel_ids S idx =
     sbi_call_1 S EID_MPXY MPXY_GET_CHANNEL_IDS (ucast idx)"

definition mpxy_read_attributes :: "'s supervisor \<Rightarrow> u32 \<Rightarrow> u32 \<Rightarrow> u32 \<Rightarrow> ('s, sbi_ret) state" where
  "mpxy_read_attributes S ch base cnt =
     sbi_call_3 S EID_MPXY MPXY_READ_ATTRIBUTE (ucast ch) (ucast base) (ucast cnt)"

definition mpxy_write_attributes :: "'s supervisor \<Rightarrow> u32 \<Rightarrow> u32 \<Rightarrow> u32 \<Rightarrow> ('s, sbi_ret) state" where
  "mpxy_write_attributes S ch base cnt =
     sbi_call_3 S EID_MPXY MPXY_WRITE_ATTRIBUTE (ucast ch) (ucast base) (ucast cnt)"

definition mpxy_send_message_with_response :: "'s supervisor \<Rightarrow> u32 \<Rightarrow> u32 \<Rightarrow> usize \<Rightarrow> ('s, sbi_ret) state" where
  "mpxy_send_message_with_response S ch msg len =
     sbi_call_3 S EID_MPXY MPXY_SEND_MESSAGE_WITH_RESPONSE (ucast ch) (ucast msg) len"

definition mpxy_send_message_without_response :: "'s supervisor \<Rightarrow> u32 \<Rightarrow> u32 \<Rightarrow> usize \<Rightarrow> ('s, sbi_ret) state" where
  "mpxy_send_message_without_response S ch msg len =
     sbi_call_3 S EID_MPXY MPXY_SEND_MESSAGE_WITHOUT_RESPONSE (ucast ch) (ucast msg) len"

definition mpxy_get_notification_events :: "'s supervisor \<Rightarrow> u32 \<Rightarrow> ('s, sbi_ret) state" where
  "mpxy_get_notification_events S ch =
     sbi_call_1 S EID_MPXY MPXY_GET_NOTIFICATION_EVENTS (ucast ch)"

end
