(* ===== verification/Sbi_Remote.thy ===== *)
theory Sbi_Remote
  imports Sbi_Rt
begin

text \<open>
  A supervisor call as a remote procedure call: what a wrapper of \<open>sbi-rt\<close> does when the environment is
  a dispatcher of \<open>rustsbi\<close>. A request names a wrapper and its arguments, \<open>issue\<close> runs the wrapper and
  \<open>serve\<close> is the method of the extension that the dispatcher selects.
\<close>

section \<open>Selection of an extension\<close>

definition provider :: "('t \<Rightarrow> usize) \<Rightarrow> 't list \<Rightarrow> 't option" where
  "provider probe xs = find (\<lambda>x. probe x \<noteq> UNAVAILABLE_EXTENSION) xs"

definition on :: "('t \<Rightarrow> usize) \<Rightarrow> 't list \<Rightarrow> ('t \<Rightarrow> ('s, sbi_ret) state) \<Rightarrow> ('s, sbi_ret) state" where
  "on probe xs f = (case provider probe xs of Some x \<Rightarrow> f x | None \<Rightarrow> ns)"

text \<open>A method that answers a plain number counts as 0 if nobody provides it.\<close>

definition on_value :: "('t \<Rightarrow> usize) \<Rightarrow> 't list \<Rightarrow> ('t \<Rightarrow> ('s, usize) state) \<Rightarrow> ('s, usize) state" where
  "on_value probe xs f = (case provider probe xs of Some x \<Rightarrow> f x | None \<Rightarrow> State_Monad.return 0)"

lemma try_fields_on: "try_fields probe f ns xs = on probe xs f"
  by (induction xs) (simp_all add: on_def provider_def)

lemma success_of_return [simp]: "success_of (State_Monad.return v) = State_Monad.return (sbi_success v)"
  by (simp add: success_of_def State_Monad.bind_left_identity)

lemma value_of_success [simp]: "value_of (success_of a) = a"
  by (simp add: value_of_def success_of_def State_Monad.bind_assoc State_Monad.bind_left_identity
      State_Monad.bind_right_identity sbi_success_def)

lemma value_of_ns [simp]: "value_of ns = State_Monad.return 0"
  by (simp add: value_of_def ns_def State_Monad.bind_left_identity sbi_not_supported_def)

lemma value_of_return [simp]: "value_of (State_Monad.return r) = State_Monad.return (sbi_value r)"
  by (simp add: value_of_def State_Monad.bind_left_identity)

lemma value_of_on [simp]: "value_of (on probe xs (\<lambda>x. success_of (f x))) = on_value probe xs f"
  by (simp add: on_def on_value_def split: option.split)

lemma with_u32_ucast [simp]:
  "with_u32 (ucast (x :: u32)) f = f x"
  "with_u32_2 (ucast (x :: u32)) (ucast (y :: u32)) g = g x y"
  "with_u32_3 (ucast (x :: u32)) (ucast (y :: u32)) (ucast (z :: u32)) h = h x y z"
  by (simp_all add: with_u32_def with_u32_2_def with_u32_3_def)

lemma byte_arg [simp]: "ucast (ucast (x :: u8) AND 0xff :: usize) = x"
proof -
  have "(y :: usize) AND 0xff = take_bit 8 y" for y
    by (simp add: take_bit_eq_mask mask_eq_exp_minus_1)
  then show ?thesis
    by (intro bit_word_eqI) (simp add: bit_ucast_iff bit_take_bit_iff)
qed

lemma hart_mask_eta [simp]: "hart_mask_from_mask_base (hart_mask m) (hart_mask_base m) = m"
  by (simp add: hart_mask_from_mask_base_def)

lemma shared_eta [simp]: "shared_new (shared_addr_lo p) (shared_addr_hi p) = p"
  by (simp add: shared_new_def)

lemma physical_eta [simp]: "physical_new (num_bytes p) (phys_addr_lo p) (phys_addr_hi p) = p"
  by (simp add: physical_new_def)

section \<open>The dispatcher by extension\<close>

lemma handle_rfnc: "handle_ecall ids D EID_RFNC fid p = on Fence_rustsbi_probe (di_fence D) (\<lambda>x. rustsbi_fence x p fid)"
  by (simp add: handle_ecall_def eid_values try_fields_on)

lemma handle_time: "handle_ecall ids D EID_TIME fid p = on Timer_rustsbi_probe (di_timer D) (\<lambda>x. rustsbi_timer x p fid)"
  by (simp add: handle_ecall_def eid_values try_fields_on)

lemma handle_spi: "handle_ecall ids D EID_SPI fid p = on Ipi_rustsbi_probe (di_ipi D) (\<lambda>x. rustsbi_ipi x p fid)"
  by (simp add: handle_ecall_def eid_values try_fields_on)

lemma handle_hsm: "handle_ecall ids D EID_HSM fid p = on Hsm_rustsbi_probe (di_hsm D) (\<lambda>x. rustsbi_hsm x p fid)"
  by (simp add: handle_ecall_def eid_values try_fields_on)

lemma handle_srst: "handle_ecall ids D EID_SRST fid p = on Reset_rustsbi_probe (di_reset D) (\<lambda>x. rustsbi_reset x p fid)"
  by (simp add: handle_ecall_def eid_values try_fields_on)

lemma handle_pmu: "handle_ecall ids D EID_PMU fid p = on Pmu_rustsbi_probe (di_pmu D) (\<lambda>x. rustsbi_pmu x p fid)"
  by (simp add: handle_ecall_def eid_values try_fields_on)

lemma handle_dbcn: "handle_ecall ids D EID_DBCN fid p = on Console_rustsbi_probe (di_console D) (\<lambda>x. rustsbi_console x p fid)"
  by (simp add: handle_ecall_def eid_values try_fields_on)

lemma handle_susp: "handle_ecall ids D EID_SUSP fid p = on Susp_rustsbi_probe (di_susp D) (\<lambda>x. rustsbi_susp x p fid)"
  by (simp add: handle_ecall_def eid_values try_fields_on)

lemma handle_cppc: "handle_ecall ids D EID_CPPC fid p = on Cppc_rustsbi_probe (di_cppc D) (\<lambda>x. rustsbi_cppc x p fid)"
  by (simp add: handle_ecall_def eid_values try_fields_on)

lemma handle_nacl: "handle_ecall ids D EID_NACL fid p = on Nacl_rustsbi_probe (di_nacl D) (\<lambda>x. rustsbi_nacl x p fid)"
  by (simp add: handle_ecall_def eid_values try_fields_on)

lemma handle_sta: "handle_ecall ids D EID_STA fid p = on Sta_rustsbi_probe (di_sta D) (\<lambda>x. rustsbi_sta x p fid)"
  by (simp add: handle_ecall_def eid_values try_fields_on)

lemma handle_mpxy: "handle_ecall ids D EID_MPXY fid p = on Mpxy_rustsbi_probe (di_mpxy D) (\<lambda>x. rustsbi_mpxy x p fid)"
  by (simp add: handle_ecall_def eid_values try_fields_on)

lemma handle_dbtr: "handle_ecall ids D EID_DBTR fid p = on Dbtr_rustsbi_probe (di_dbtr D) (\<lambda>x. rustsbi_dbtr x p fid)"
  by (simp add: handle_ecall_def eid_values try_fields_on)

lemma handle_fwft: "handle_ecall ids D EID_FWFT fid p = on Fwft_rustsbi_probe (di_fwft D) (\<lambda>x. rustsbi_fwft x p fid)"
  by (simp add: handle_ecall_def eid_values try_fields_on)

lemma handle_sse: "handle_ecall ids D EID_SSE fid p = on Sse_rustsbi_probe (di_sse D) (\<lambda>x. rustsbi_sse x p fid)"
  by (simp add: handle_ecall_def eid_values try_fields_on)

lemma handle_base:
  "handle_ecall ids D EID_BASE fid p =
     (case di_env_info D of
        Some env_info \<Rightarrow> rustsbi_base_env_info p fid env_info (prober D)
      | None \<Rightarrow> rustsbi_base_bare ids p fid (prober D))"
  by (simp add: handle_ecall_def eid_values)

section \<open>Requests\<close>

datatype base_request = GetSpecVersion | GetSbiImplId | GetSbiImplVersion | ProbeExtension usize | GetMvendorid | GetMarchid | GetMimpid

primrec issue_base :: "'s supervisor \<Rightarrow> base_request \<Rightarrow> ('s, sbi_ret) state" where
  "issue_base S GetSpecVersion = do {v \<leftarrow> get_spec_version S; State_Monad.return (sbi_success (ver_raw v))}"
| "issue_base S GetSbiImplId = success_of (get_sbi_impl_id S)"
| "issue_base S GetSbiImplVersion = success_of (get_sbi_impl_version S)"
| "issue_base S (ProbeExtension ext) = do {e \<leftarrow> probe_extension S ext; State_Monad.return (sbi_success (ext_raw e))}"
| "issue_base S GetMvendorid = success_of (get_mvendorid S)"
| "issue_base S GetMarchid = success_of (get_marchid S)"
| "issue_base S GetMimpid = success_of (get_mimpid S)"

primrec serve_base :: "usize \<times> usize \<times> usize \<Rightarrow> 's DynamicImpl \<Rightarrow> base_request \<Rightarrow> ('s, sbi_ret) state" where
  "serve_base ids D GetSpecVersion = State_Monad.return (sbi_success 0x2000000)"
| "serve_base ids D GetSbiImplId = State_Monad.return (sbi_success 4)"
| "serve_base ids D GetSbiImplVersion = State_Monad.return (sbi_success 0x401)"
| "serve_base ids D (ProbeExtension ext) = State_Monad.return (sbi_success (prober D ext))"
| "serve_base ids D GetMvendorid =
     (case di_env_info D of Some e \<Rightarrow> success_of (EnvInfo_mvendorid e) | None \<Rightarrow> State_Monad.return (sbi_success (fst ids)))"
| "serve_base ids D GetMarchid =
     (case di_env_info D of Some e \<Rightarrow> success_of (EnvInfo_marchid e) | None \<Rightarrow> State_Monad.return (sbi_success (fst (snd ids))))"
| "serve_base ids D GetMimpid =
     (case di_env_info D of Some e \<Rightarrow> success_of (EnvInfo_mimpid e) | None \<Rightarrow> State_Monad.return (sbi_success (snd (snd ids))))"

lemma base_roundtrip: "issue_base (S\<lparr>ecall := handle_ecall ids D\<rparr>) r = serve_base ids D r"
  by (cases r) (simp_all add: get_spec_version_def get_sbi_impl_id_def get_sbi_impl_version_def probe_extension_def
      get_mvendorid_def get_marchid_def get_mimpid_def sbi_call_defs handle_base rustsbi_base_env_info_def
      rustsbi_base_bare_def fid_defs ver_from_raw_def State_Monad.bind_left_identity sbi_success_def
      SBI_SPEC_MAJOR_def SBI_SPEC_MINOR_def IMPL_ID_RUSTSBI_def RUSTSBI_VERSION_def split: option.split)

datatype time_request = SetTimer u64

primrec issue_time :: "'s supervisor \<Rightarrow> time_request \<Rightarrow> ('s, sbi_ret) state" where
  "issue_time S (SetTimer stime_value) = set_timer S stime_value"

primrec serve_time :: "'s DynamicImpl \<Rightarrow> time_request \<Rightarrow> ('s, sbi_ret) state" where
  "serve_time D (SetTimer stime_value) = on Timer_rustsbi_probe (di_timer D) (\<lambda>x. do {Timer_set_timer x stime_value; State_Monad.return (sbi_success 0)})"

lemma time_roundtrip: "issue_time (S\<lparr>ecall := handle_ecall ids D\<rparr>) r = serve_time D r"
  by (cases r) (simp_all add: set_timer_def
      sbi_call_defs handle_time rustsbi_timer_def fid_defs)

datatype spi_request = SendIpi HartMask

primrec issue_spi :: "'s supervisor \<Rightarrow> spi_request \<Rightarrow> ('s, sbi_ret) state" where
  "issue_spi S (SendIpi hm) = send_ipi S hm"

primrec serve_spi :: "'s DynamicImpl \<Rightarrow> spi_request \<Rightarrow> ('s, sbi_ret) state" where
  "serve_spi D (SendIpi hm) = on Ipi_rustsbi_probe (di_ipi D) (\<lambda>x. Ipi_send_ipi x hm)"

lemma spi_roundtrip: "issue_spi (S\<lparr>ecall := handle_ecall ids D\<rparr>) r = serve_spi D r"
  by (cases r) (simp_all add: send_ipi_def
      sbi_call_defs handle_spi rustsbi_ipi_def fid_defs hart_mask_into_inner_def)

datatype rfnc_request = RemoteFenceI HartMask | RemoteSfenceVma HartMask usize usize | RemoteSfenceVmaAsid HartMask usize usize usize | RemoteHfenceGvmaVmid HartMask usize usize usize | RemoteHfenceGvma HartMask usize usize | RemoteHfenceVvmaAsid HartMask usize usize usize | RemoteHfenceVvma HartMask usize usize

primrec issue_rfnc :: "'s supervisor \<Rightarrow> rfnc_request \<Rightarrow> ('s, sbi_ret) state" where
  "issue_rfnc S (RemoteFenceI hm) = remote_fence_i S hm"
| "issue_rfnc S (RemoteSfenceVma hm addr sz) = remote_sfence_vma S hm addr sz"
| "issue_rfnc S (RemoteSfenceVmaAsid hm addr sz asid) = remote_sfence_vma_asid S hm addr sz asid"
| "issue_rfnc S (RemoteHfenceGvmaVmid hm addr sz vmid) = remote_hfence_gvma_vmid S hm addr sz vmid"
| "issue_rfnc S (RemoteHfenceGvma hm addr sz) = remote_hfence_gvma S hm addr sz"
| "issue_rfnc S (RemoteHfenceVvmaAsid hm addr sz asid) = remote_hfence_vvma_asid S hm addr sz asid"
| "issue_rfnc S (RemoteHfenceVvma hm addr sz) = remote_hfence_vvma S hm addr sz"

primrec serve_rfnc :: "'s DynamicImpl \<Rightarrow> rfnc_request \<Rightarrow> ('s, sbi_ret) state" where
  "serve_rfnc D (RemoteFenceI hm) = on Fence_rustsbi_probe (di_fence D) (\<lambda>x. Fence_remote_fence_i x hm)"
| "serve_rfnc D (RemoteSfenceVma hm addr sz) = on Fence_rustsbi_probe (di_fence D) (\<lambda>x. Fence_remote_sfence_vma x hm addr sz)"
| "serve_rfnc D (RemoteSfenceVmaAsid hm addr sz asid) = on Fence_rustsbi_probe (di_fence D) (\<lambda>x. Fence_remote_sfence_vma_asid x hm addr sz asid)"
| "serve_rfnc D (RemoteHfenceGvmaVmid hm addr sz vmid) = on Fence_rustsbi_probe (di_fence D) (\<lambda>x. Fence_remote_hfence_gvma_vmid x hm addr sz vmid)"
| "serve_rfnc D (RemoteHfenceGvma hm addr sz) = on Fence_rustsbi_probe (di_fence D) (\<lambda>x. Fence_remote_hfence_gvma x hm addr sz)"
| "serve_rfnc D (RemoteHfenceVvmaAsid hm addr sz asid) = on Fence_rustsbi_probe (di_fence D) (\<lambda>x. Fence_remote_hfence_vvma_asid x hm addr sz asid)"
| "serve_rfnc D (RemoteHfenceVvma hm addr sz) = on Fence_rustsbi_probe (di_fence D) (\<lambda>x. Fence_remote_hfence_vvma x hm addr sz)"

lemma rfnc_roundtrip: "issue_rfnc (S\<lparr>ecall := handle_ecall ids D\<rparr>) r = serve_rfnc D r"
  by (cases r) (simp_all add: remote_fence_i_def remote_sfence_vma_def remote_sfence_vma_asid_def remote_hfence_gvma_vmid_def remote_hfence_gvma_def remote_hfence_vvma_asid_def remote_hfence_vvma_def
      sbi_call_defs handle_rfnc rustsbi_fence_def fid_defs hart_mask_into_inner_def)

datatype hsm_request = HartStart usize usize usize | HartStop | HartGetStatus usize | HartSuspend u32 usize usize

primrec issue_hsm :: "'s supervisor \<Rightarrow> hsm_request \<Rightarrow> ('s, sbi_ret) state" where
  "issue_hsm S (HartStart hartid addr opq) = hart_start S hartid addr opq"
| "issue_hsm S HartStop = hart_stop S"
| "issue_hsm S (HartGetStatus hartid) = hart_get_status S hartid"
| "issue_hsm S (HartSuspend ty addr opq) = hart_suspend S ty addr opq"

primrec serve_hsm :: "'s DynamicImpl \<Rightarrow> hsm_request \<Rightarrow> ('s, sbi_ret) state" where
  "serve_hsm D (HartStart hartid addr opq) = on Hsm_rustsbi_probe (di_hsm D) (\<lambda>x. Hsm_hart_start x hartid addr opq)"
| "serve_hsm D HartStop = on Hsm_rustsbi_probe (di_hsm D) (\<lambda>x. Hsm_hart_stop x)"
| "serve_hsm D (HartGetStatus hartid) = on Hsm_rustsbi_probe (di_hsm D) (\<lambda>x. Hsm_hart_get_status x hartid)"
| "serve_hsm D (HartSuspend ty addr opq) = on Hsm_rustsbi_probe (di_hsm D) (\<lambda>x. Hsm_hart_suspend x ty addr opq)"

lemma hsm_roundtrip: "issue_hsm (S\<lparr>ecall := handle_ecall ids D\<rparr>) r = serve_hsm D r"
  by (cases r) (simp_all add: hart_start_def hart_stop_def hart_get_status_def hart_suspend_def
      sbi_call_defs handle_hsm rustsbi_hsm_def fid_defs)

datatype srst_request = SystemReset u32 u32

primrec issue_srst :: "'s supervisor \<Rightarrow> srst_request \<Rightarrow> ('s, sbi_ret) state" where
  "issue_srst S (SystemReset ty reason) = system_reset S ty reason"

primrec serve_srst :: "'s DynamicImpl \<Rightarrow> srst_request \<Rightarrow> ('s, sbi_ret) state" where
  "serve_srst D (SystemReset ty reason) = on Reset_rustsbi_probe (di_reset D) (\<lambda>x. Reset_system_reset x ty reason)"

lemma srst_roundtrip: "issue_srst (S\<lparr>ecall := handle_ecall ids D\<rparr>) r = serve_srst D r"
  by (cases r) (simp_all add: system_reset_def
      sbi_call_defs handle_srst rustsbi_reset_def fid_defs)

datatype pmu_request = PmuNumCounters | PmuCounterGetInfo usize | PmuCounterConfigMatching CounterMask usize usize u64 | PmuCounterStart CounterMask usize u64 | PmuCounterStop CounterMask usize | PmuCounterFwRead usize | PmuCounterFwReadHi usize | PmuSnapshotSetShmem SharedPtr usize

primrec issue_pmu :: "'s supervisor \<Rightarrow> pmu_request \<Rightarrow> ('s, sbi_ret) state" where
  "issue_pmu S PmuNumCounters = success_of (pmu_num_counters S)"
| "issue_pmu S (PmuCounterGetInfo idx) = pmu_counter_get_info S idx"
| "issue_pmu S (PmuCounterConfigMatching counters flags event data) = pmu_counter_config_matching S counters flags event data"
| "issue_pmu S (PmuCounterStart counters flags initial) = pmu_counter_start S counters flags initial"
| "issue_pmu S (PmuCounterStop counters flags) = pmu_counter_stop S counters flags"
| "issue_pmu S (PmuCounterFwRead idx) = pmu_counter_fw_read S idx"
| "issue_pmu S (PmuCounterFwReadHi idx) = pmu_counter_fw_read_hi S idx"
| "issue_pmu S (PmuSnapshotSetShmem shmem flags) = pmu_snapshot_set_shmem S shmem flags"

primrec serve_pmu :: "'s DynamicImpl \<Rightarrow> pmu_request \<Rightarrow> ('s, sbi_ret) state" where
  "serve_pmu D PmuNumCounters = success_of (on_value Pmu_rustsbi_probe (di_pmu D) (\<lambda>x. Pmu_num_counters x))"
| "serve_pmu D (PmuCounterGetInfo idx) = on Pmu_rustsbi_probe (di_pmu D) (\<lambda>x. Pmu_counter_get_info x idx)"
| "serve_pmu D (PmuCounterConfigMatching counters flags event data) = on Pmu_rustsbi_probe (di_pmu D) (\<lambda>x. Pmu_counter_config_matching x (counter_idx_base counters) (counter_idx_mask counters) flags event data)"
| "serve_pmu D (PmuCounterStart counters flags initial) = on Pmu_rustsbi_probe (di_pmu D) (\<lambda>x. Pmu_counter_start x (counter_idx_base counters) (counter_idx_mask counters) flags initial)"
| "serve_pmu D (PmuCounterStop counters flags) = on Pmu_rustsbi_probe (di_pmu D) (\<lambda>x. Pmu_counter_stop x (counter_idx_base counters) (counter_idx_mask counters) flags)"
| "serve_pmu D (PmuCounterFwRead idx) = on Pmu_rustsbi_probe (di_pmu D) (\<lambda>x. Pmu_counter_fw_read x idx)"
| "serve_pmu D (PmuCounterFwReadHi idx) = on Pmu_rustsbi_probe (di_pmu D) (\<lambda>x. Pmu_counter_fw_read_hi x idx)"
| "serve_pmu D (PmuSnapshotSetShmem shmem flags) = on Pmu_rustsbi_probe (di_pmu D) (\<lambda>x. Pmu_snapshot_set_shmem x shmem flags)"

lemma pmu_roundtrip: "issue_pmu (S\<lparr>ecall := handle_ecall ids D\<rparr>) r = serve_pmu D r"
  by (cases r) (simp_all add: pmu_num_counters_def pmu_counter_get_info_def pmu_counter_config_matching_def pmu_counter_start_def pmu_counter_stop_def pmu_counter_fw_read_def pmu_counter_fw_read_hi_def pmu_snapshot_set_shmem_def
      sbi_call_defs handle_pmu rustsbi_pmu_def fid_defs counter_mask_into_inner_def)

datatype dbcn_request = ConsoleWrite Physical | ConsoleRead Physical | ConsoleWriteByte u8

primrec issue_dbcn :: "'s supervisor \<Rightarrow> dbcn_request \<Rightarrow> ('s, sbi_ret) state" where
  "issue_dbcn S (ConsoleWrite bytes) = console_write S bytes"
| "issue_dbcn S (ConsoleRead bytes) = console_read S bytes"
| "issue_dbcn S (ConsoleWriteByte byte) = console_write_byte S byte"

primrec serve_dbcn :: "'s DynamicImpl \<Rightarrow> dbcn_request \<Rightarrow> ('s, sbi_ret) state" where
  "serve_dbcn D (ConsoleWrite bytes) = on Console_rustsbi_probe (di_console D) (\<lambda>x. Console_write x bytes)"
| "serve_dbcn D (ConsoleRead bytes) = on Console_rustsbi_probe (di_console D) (\<lambda>x. Console_read x bytes)"
| "serve_dbcn D (ConsoleWriteByte byte) = on Console_rustsbi_probe (di_console D) (\<lambda>x. Console_write_byte x byte)"

lemma dbcn_roundtrip: "issue_dbcn (S\<lparr>ecall := handle_ecall ids D\<rparr>) r = serve_dbcn D r"
  by (cases r) (simp_all add: console_write_def console_read_def console_write_byte_def
      sbi_call_defs handle_dbcn rustsbi_console_def fid_defs)

datatype susp_request = SystemSuspend u32 usize usize

primrec issue_susp :: "'s supervisor \<Rightarrow> susp_request \<Rightarrow> ('s, sbi_ret) state" where
  "issue_susp S (SystemSuspend ty addr opq) = system_suspend S ty addr opq"

primrec serve_susp :: "'s DynamicImpl \<Rightarrow> susp_request \<Rightarrow> ('s, sbi_ret) state" where
  "serve_susp D (SystemSuspend ty addr opq) = on Susp_rustsbi_probe (di_susp D) (\<lambda>x. Susp_system_suspend x ty addr opq)"

lemma susp_roundtrip: "issue_susp (S\<lparr>ecall := handle_ecall ids D\<rparr>) r = serve_susp D r"
  by (cases r) (simp_all add: system_suspend_def
      sbi_call_defs handle_susp rustsbi_susp_def fid_defs)

datatype cppc_request = CppcProbe u32 | CppcRead u32 | CppcReadHi u32 | CppcWrite u32 u64

primrec issue_cppc :: "'s supervisor \<Rightarrow> cppc_request \<Rightarrow> ('s, sbi_ret) state" where
  "issue_cppc S (CppcProbe reg) = cppc_probe S reg"
| "issue_cppc S (CppcRead reg) = cppc_read S reg"
| "issue_cppc S (CppcReadHi reg) = cppc_read_hi S reg"
| "issue_cppc S (CppcWrite reg v) = cppc_write S reg v"

primrec serve_cppc :: "'s DynamicImpl \<Rightarrow> cppc_request \<Rightarrow> ('s, sbi_ret) state" where
  "serve_cppc D (CppcProbe reg) = on Cppc_rustsbi_probe (di_cppc D) (\<lambda>x. Cppc_probe x reg)"
| "serve_cppc D (CppcRead reg) = on Cppc_rustsbi_probe (di_cppc D) (\<lambda>x. Cppc_read x reg)"
| "serve_cppc D (CppcReadHi reg) = on Cppc_rustsbi_probe (di_cppc D) (\<lambda>x. Cppc_read_hi x reg)"
| "serve_cppc D (CppcWrite reg v) = on Cppc_rustsbi_probe (di_cppc D) (\<lambda>x. Cppc_write x reg v)"

lemma cppc_roundtrip: "issue_cppc (S\<lparr>ecall := handle_ecall ids D\<rparr>) r = serve_cppc D r"
  by (cases r) (simp_all add: cppc_probe_def cppc_read_def cppc_read_hi_def cppc_write_def
      sbi_call_defs handle_cppc rustsbi_cppc_def fid_defs)

datatype nacl_request = NaclProbeFeature u32 | NaclSetShmem SharedPtr usize | NaclSyncCsr usize | NaclSyncHfence usize | NaclSyncSret

primrec issue_nacl :: "'s supervisor \<Rightarrow> nacl_request \<Rightarrow> ('s, sbi_ret) state" where
  "issue_nacl S (NaclProbeFeature feature) = nacl_probe_feature S feature"
| "issue_nacl S (NaclSetShmem shmem flags) = nacl_set_shmem S shmem flags"
| "issue_nacl S (NaclSyncCsr csr) = nacl_sync_csr S csr"
| "issue_nacl S (NaclSyncHfence idx) = nacl_sync_hfence S idx"
| "issue_nacl S NaclSyncSret = nacl_sync_sret S"

primrec serve_nacl :: "'s DynamicImpl \<Rightarrow> nacl_request \<Rightarrow> ('s, sbi_ret) state" where
  "serve_nacl D (NaclProbeFeature feature) = on Nacl_rustsbi_probe (di_nacl D) (\<lambda>x. Nacl_probe_feature x feature)"
| "serve_nacl D (NaclSetShmem shmem flags) = on Nacl_rustsbi_probe (di_nacl D) (\<lambda>x. Nacl_set_shmem x shmem flags)"
| "serve_nacl D (NaclSyncCsr csr) = on Nacl_rustsbi_probe (di_nacl D) (\<lambda>x. Nacl_sync_csr x csr)"
| "serve_nacl D (NaclSyncHfence idx) = on Nacl_rustsbi_probe (di_nacl D) (\<lambda>x. Nacl_sync_hfence x idx)"
| "serve_nacl D NaclSyncSret = on Nacl_rustsbi_probe (di_nacl D) (\<lambda>x. Nacl_sync_sret x)"

lemma nacl_roundtrip: "issue_nacl (S\<lparr>ecall := handle_ecall ids D\<rparr>) r = serve_nacl D r"
  by (cases r) (simp_all add: nacl_probe_feature_def nacl_set_shmem_def nacl_sync_csr_def nacl_sync_hfence_def nacl_sync_sret_def
      sbi_call_defs handle_nacl rustsbi_nacl_def fid_defs)

datatype sta_request = StaSetShmem SharedPtr usize

primrec issue_sta :: "'s supervisor \<Rightarrow> sta_request \<Rightarrow> ('s, sbi_ret) state" where
  "issue_sta S (StaSetShmem shmem flags) = sta_set_shmem S shmem flags"

primrec serve_sta :: "'s DynamicImpl \<Rightarrow> sta_request \<Rightarrow> ('s, sbi_ret) state" where
  "serve_sta D (StaSetShmem shmem flags) = on Sta_rustsbi_probe (di_sta D) (\<lambda>x. Sta_set_shmem x shmem flags)"

lemma sta_roundtrip: "issue_sta (S\<lparr>ecall := handle_ecall ids D\<rparr>) r = serve_sta D r"
  by (cases r) (simp_all add: sta_set_shmem_def
      sbi_call_defs handle_sta rustsbi_sta_def fid_defs)

datatype sse_request = SseReadAttrs u32 u32 u32 SharedPtr | SseWriteAttrs u32 u32 u32 SharedPtr | SseRegister u32 usize usize | SseUnregister u32 | SseEnable u32 | SseDisable u32 | SseComplete | SseInject u32 usize | SseHartUnmask | SseHartMask

primrec issue_sse :: "'s supervisor \<Rightarrow> sse_request \<Rightarrow> ('s, sbi_ret) state" where
  "issue_sse S (SseReadAttrs event base cnt out) = sse_read_attrs S event base cnt out"
| "issue_sse S (SseWriteAttrs event base cnt inp) = sse_write_attrs S event base cnt inp"
| "issue_sse S (SseRegister event pc arg) = sse_register S event pc arg"
| "issue_sse S (SseUnregister event) = sse_unregister S event"
| "issue_sse S (SseEnable event) = sse_enable S event"
| "issue_sse S (SseDisable event) = sse_disable S event"
| "issue_sse S SseComplete = sse_complete S"
| "issue_sse S (SseInject event hart) = sse_inject S event hart"
| "issue_sse S SseHartUnmask = sse_hart_unmask S"
| "issue_sse S SseHartMask = sse_hart_mask S"

primrec serve_sse :: "'s DynamicImpl \<Rightarrow> sse_request \<Rightarrow> ('s, sbi_ret) state" where
  "serve_sse D (SseReadAttrs event base cnt out) = on Sse_rustsbi_probe (di_sse D) (\<lambda>x. Sse_read_attrs x event base cnt out)"
| "serve_sse D (SseWriteAttrs event base cnt inp) = on Sse_rustsbi_probe (di_sse D) (\<lambda>x. Sse_write_attrs x event base cnt inp)"
| "serve_sse D (SseRegister event pc arg) = on Sse_rustsbi_probe (di_sse D) (\<lambda>x. Sse_register x event pc arg)"
| "serve_sse D (SseUnregister event) = on Sse_rustsbi_probe (di_sse D) (\<lambda>x. Sse_unregister x event)"
| "serve_sse D (SseEnable event) = on Sse_rustsbi_probe (di_sse D) (\<lambda>x. Sse_enable x event)"
| "serve_sse D (SseDisable event) = on Sse_rustsbi_probe (di_sse D) (\<lambda>x. Sse_disable x event)"
| "serve_sse D SseComplete = on Sse_rustsbi_probe (di_sse D) (\<lambda>x. Sse_complete x)"
| "serve_sse D (SseInject event hart) = on Sse_rustsbi_probe (di_sse D) (\<lambda>x. Sse_inject x event hart)"
| "serve_sse D SseHartUnmask = on Sse_rustsbi_probe (di_sse D) (\<lambda>x. Sse_hart_unmask x)"
| "serve_sse D SseHartMask = on Sse_rustsbi_probe (di_sse D) (\<lambda>x. Sse_hart_mask x)"

lemma sse_roundtrip: "issue_sse (S\<lparr>ecall := handle_ecall ids D\<rparr>) r = serve_sse D r"
  by (cases r) (simp_all add: sse_read_attrs_def sse_write_attrs_def sse_register_def sse_unregister_def sse_enable_def sse_disable_def sse_complete_def sse_inject_def sse_hart_unmask_def sse_hart_mask_def
      sbi_call_defs handle_sse rustsbi_sse_def fid_defs)

datatype fwft_request = FwftSet u32 usize usize | FwftGet u32

primrec issue_fwft :: "'s supervisor \<Rightarrow> fwft_request \<Rightarrow> ('s, sbi_ret) state" where
  "issue_fwft S (FwftSet feature v flags) = fwft_set S feature v flags"
| "issue_fwft S (FwftGet feature) = fwft_get S feature"

primrec serve_fwft :: "'s DynamicImpl \<Rightarrow> fwft_request \<Rightarrow> ('s, sbi_ret) state" where
  "serve_fwft D (FwftSet feature v flags) = on Fwft_rustsbi_probe (di_fwft D) (\<lambda>x. Fwft_set x feature v flags)"
| "serve_fwft D (FwftGet feature) = on Fwft_rustsbi_probe (di_fwft D) (\<lambda>x. Fwft_get x feature)"

lemma fwft_roundtrip: "issue_fwft (S\<lparr>ecall := handle_ecall ids D\<rparr>) r = serve_fwft D r"
  by (cases r) (simp_all add: fwft_set_def fwft_get_def
      sbi_call_defs handle_fwft rustsbi_fwft_def fid_defs)

datatype dbtr_request = DebugNumTriggers usize | DebugSetShmem SharedPtr usize | DebugReadTriggers usize usize | DebugInstallTriggers usize | DebugUpdateTriggers usize

primrec issue_dbtr :: "'s supervisor \<Rightarrow> dbtr_request \<Rightarrow> ('s, sbi_ret) state" where
  "issue_dbtr S (DebugNumTriggers tdata1) = success_of (debug_num_triggers S tdata1)"
| "issue_dbtr S (DebugSetShmem shmem flags) = debug_set_shmem S shmem flags"
| "issue_dbtr S (DebugReadTriggers base cnt) = debug_read_triggers S base cnt"
| "issue_dbtr S (DebugInstallTriggers cnt) = debug_install_triggers S cnt"
| "issue_dbtr S (DebugUpdateTriggers cnt) = debug_update_triggers S cnt"

primrec serve_dbtr :: "'s DynamicImpl \<Rightarrow> dbtr_request \<Rightarrow> ('s, sbi_ret) state" where
  "serve_dbtr D (DebugNumTriggers tdata1) = success_of (on_value Dbtr_rustsbi_probe (di_dbtr D) (\<lambda>x. Dbtr_num_triggers x tdata1))"
| "serve_dbtr D (DebugSetShmem shmem flags) = on Dbtr_rustsbi_probe (di_dbtr D) (\<lambda>x. Dbtr_set_shmem x shmem flags)"
| "serve_dbtr D (DebugReadTriggers base cnt) = on Dbtr_rustsbi_probe (di_dbtr D) (\<lambda>x. Dbtr_read_triggers x base cnt)"
| "serve_dbtr D (DebugInstallTriggers cnt) = on Dbtr_rustsbi_probe (di_dbtr D) (\<lambda>x. Dbtr_install_triggers x cnt)"
| "serve_dbtr D (DebugUpdateTriggers cnt) = on Dbtr_rustsbi_probe (di_dbtr D) (\<lambda>x. Dbtr_update_triggers x cnt)"

lemma dbtr_roundtrip: "issue_dbtr (S\<lparr>ecall := handle_ecall ids D\<rparr>) r = serve_dbtr D r"
  by (cases r) (simp_all add: debug_num_triggers_def debug_set_shmem_def debug_read_triggers_def debug_install_triggers_def debug_update_triggers_def
      sbi_call_defs handle_dbtr rustsbi_dbtr_def fid_defs)

datatype mpxy_request = MpxyGetShmemSize | MpxySetShmem SharedPtr usize | MpxyGetChannelIds u32 | MpxySendMessageWithResponse u32 u32 usize | MpxySendMessageWithoutResponse u32 u32 usize | MpxyGetNotificationEvents u32

primrec issue_mpxy :: "'s supervisor \<Rightarrow> mpxy_request \<Rightarrow> ('s, sbi_ret) state" where
  "issue_mpxy S MpxyGetShmemSize = success_of (mpxy_get_shmem_size S)"
| "issue_mpxy S (MpxySetShmem shmem flags) = mpxy_set_shmem S shmem flags"
| "issue_mpxy S (MpxyGetChannelIds idx) = mpxy_get_channel_ids S idx"
| "issue_mpxy S (MpxySendMessageWithResponse ch msg len) = mpxy_send_message_with_response S ch msg len"
| "issue_mpxy S (MpxySendMessageWithoutResponse ch msg len) = mpxy_send_message_without_response S ch msg len"
| "issue_mpxy S (MpxyGetNotificationEvents ch) = mpxy_get_notification_events S ch"

primrec serve_mpxy :: "'s DynamicImpl \<Rightarrow> mpxy_request \<Rightarrow> ('s, sbi_ret) state" where
  "serve_mpxy D MpxyGetShmemSize = success_of (on_value Mpxy_rustsbi_probe (di_mpxy D) (\<lambda>x. Mpxy_get_shmem_size x))"
| "serve_mpxy D (MpxySetShmem shmem flags) = on Mpxy_rustsbi_probe (di_mpxy D) (\<lambda>x. Mpxy_set_shmem x shmem flags)"
| "serve_mpxy D (MpxyGetChannelIds idx) = on Mpxy_rustsbi_probe (di_mpxy D) (\<lambda>x. Mpxy_get_channel_ids x idx)"
| "serve_mpxy D (MpxySendMessageWithResponse ch msg len) = on Mpxy_rustsbi_probe (di_mpxy D) (\<lambda>x. Mpxy_send_message_with_response x ch msg len)"
| "serve_mpxy D (MpxySendMessageWithoutResponse ch msg len) = on Mpxy_rustsbi_probe (di_mpxy D) (\<lambda>x. Mpxy_send_message_without_response x ch msg len)"
| "serve_mpxy D (MpxyGetNotificationEvents ch) = on Mpxy_rustsbi_probe (di_mpxy D) (\<lambda>x. Mpxy_get_notification_events x ch)"

lemma mpxy_roundtrip: "issue_mpxy (S\<lparr>ecall := handle_ecall ids D\<rparr>) r = serve_mpxy D r"
  by (cases r) (simp_all add: mpxy_get_shmem_size_def mpxy_set_shmem_def mpxy_get_channel_ids_def mpxy_send_message_with_response_def mpxy_send_message_without_response_def mpxy_get_notification_events_def
      sbi_call_defs handle_mpxy rustsbi_mpxy_def fid_defs)

datatype request =
    ExtBase base_request
  | ExtTime time_request
  | ExtSpi spi_request
  | ExtRfnc rfnc_request
  | ExtHsm hsm_request
  | ExtSrst srst_request
  | ExtPmu pmu_request
  | ExtDbcn dbcn_request
  | ExtSusp susp_request
  | ExtCppc cppc_request
  | ExtNacl nacl_request
  | ExtSta sta_request
  | ExtSse sse_request
  | ExtFwft fwft_request
  | ExtDbtr dbtr_request
  | ExtMpxy mpxy_request

primrec issue :: "'s supervisor \<Rightarrow> request \<Rightarrow> ('s, sbi_ret) state" where
  "issue S (ExtBase r) = issue_base S r"
| "issue S (ExtTime r) = issue_time S r"
| "issue S (ExtSpi r) = issue_spi S r"
| "issue S (ExtRfnc r) = issue_rfnc S r"
| "issue S (ExtHsm r) = issue_hsm S r"
| "issue S (ExtSrst r) = issue_srst S r"
| "issue S (ExtPmu r) = issue_pmu S r"
| "issue S (ExtDbcn r) = issue_dbcn S r"
| "issue S (ExtSusp r) = issue_susp S r"
| "issue S (ExtCppc r) = issue_cppc S r"
| "issue S (ExtNacl r) = issue_nacl S r"
| "issue S (ExtSta r) = issue_sta S r"
| "issue S (ExtSse r) = issue_sse S r"
| "issue S (ExtFwft r) = issue_fwft S r"
| "issue S (ExtDbtr r) = issue_dbtr S r"
| "issue S (ExtMpxy r) = issue_mpxy S r"

primrec serve :: "usize \<times> usize \<times> usize \<Rightarrow> 's DynamicImpl \<Rightarrow> request \<Rightarrow> ('s, sbi_ret) state" where
  "serve ids D (ExtBase r) = serve_base ids D r"
| "serve ids D (ExtTime r) = serve_time D r"
| "serve ids D (ExtSpi r) = serve_spi D r"
| "serve ids D (ExtRfnc r) = serve_rfnc D r"
| "serve ids D (ExtHsm r) = serve_hsm D r"
| "serve ids D (ExtSrst r) = serve_srst D r"
| "serve ids D (ExtPmu r) = serve_pmu D r"
| "serve ids D (ExtDbcn r) = serve_dbcn D r"
| "serve ids D (ExtSusp r) = serve_susp D r"
| "serve ids D (ExtCppc r) = serve_cppc D r"
| "serve ids D (ExtNacl r) = serve_nacl D r"
| "serve ids D (ExtSta r) = serve_sta D r"
| "serve ids D (ExtSse r) = serve_sse D r"
| "serve ids D (ExtFwft r) = serve_fwft D r"
| "serve ids D (ExtDbtr r) = serve_dbtr D r"
| "serve ids D (ExtMpxy r) = serve_mpxy D r"

text \<open>
  C15: a supervisor call is a call of the method. If the environment of a supervisor is the dynamic
  dispatcher of an implementation, each wrapper of the standard extensions in \<open>sbi-rt\<close> has the effect and the answer of the
  corresponding method of the first available field of its extension, called with the same
  arguments, whatever the argument registers hold that the wrapper does not set; if no field is
  available the answer is \<open>not_supported\<close>, or 0 for the three wrappers that return a plain value
  (\<open>pmu_num_counters\<close>, \<open>debug_num_triggers\<close>, \<open>mpxy_get_shmem_size\<close>). The base extension answers versions,
  identities and the probed availability. The wrappers with trigger masks, those of the message
  attributes and those of the legacy extensions are excluded.
\<close>

theorem sbi_call_roundtrip: "issue (S\<lparr>ecall := handle_ecall ids D\<rparr>) r = serve ids D r"
  by (cases r) (simp_all only: issue.simps serve.simps
      base_roundtrip time_roundtrip spi_roundtrip rfnc_roundtrip hsm_roundtrip srst_roundtrip pmu_roundtrip dbcn_roundtrip susp_roundtrip cppc_roundtrip nacl_roundtrip sta_roundtrip sse_roundtrip fwft_roundtrip dbtr_roundtrip mpxy_roundtrip)

end
