(* ===== verification/Sbi_Forward.thy ===== *)
theory Sbi_Forward
  imports Sbi_Remote
begin

text \<open>
  \<open>Forward\<close> (\<open>rustsbi/src/forward.rs\<close> with the feature \<open>forward\<close>): the extensions that hand every call to the
  environment below through \<open>sbi-rt\<close>, as a hypervisor does. Then what probing tells about the
  dispatchers, and the calls on which wrapper and dispatcher disagree.
\<close>

section \<open>Forwarding extensions\<close>

definition forward_Console :: "'s supervisor \<Rightarrow> 's Console" where
  "forward_Console S =
     \<lparr>Console_write = (\<lambda>bytes. console_write S bytes),
      Console_read = (\<lambda>bytes. console_read S bytes),
      Console_write_byte = (\<lambda>byte. console_write_byte S byte),
      Console_rustsbi_probe = default_probe\<rparr>"

definition forward_Cppc :: "'s supervisor \<Rightarrow> 's Cppc" where
  "forward_Cppc S =
     \<lparr>Cppc_probe = (\<lambda>reg. cppc_probe S reg),
      Cppc_read = (\<lambda>reg. cppc_read S reg),
      Cppc_read_hi = (\<lambda>reg. cppc_read_hi S reg),
      Cppc_write = (\<lambda>reg v. cppc_write S reg v),
      Cppc_rustsbi_probe = default_probe\<rparr>"

definition forward_Fence :: "'s supervisor \<Rightarrow> 's Fence" where
  "forward_Fence S =
     \<lparr>Fence_remote_fence_i = (\<lambda>hm. remote_fence_i S hm),
      Fence_remote_sfence_vma = (\<lambda>hm addr sz. remote_sfence_vma S hm addr sz),
      Fence_remote_sfence_vma_asid = (\<lambda>hm addr sz asid. remote_sfence_vma_asid S hm addr sz asid),
      Fence_remote_hfence_gvma_vmid = (\<lambda>hm addr sz vmid. remote_hfence_gvma_vmid S hm addr sz vmid),
      Fence_remote_hfence_gvma = (\<lambda>hm addr sz. remote_hfence_gvma S hm addr sz),
      Fence_remote_hfence_vvma_asid = (\<lambda>hm addr sz asid. remote_hfence_vvma_asid S hm addr sz asid),
      Fence_remote_hfence_vvma = (\<lambda>hm addr sz. remote_hfence_vvma S hm addr sz),
      Fence_rustsbi_probe = default_probe\<rparr>"

definition forward_Hsm :: "'s supervisor \<Rightarrow> 's Hsm" where
  "forward_Hsm S =
     \<lparr>Hsm_hart_start = (\<lambda>hartid addr opq. hart_start S hartid addr opq),
      Hsm_hart_stop = hart_stop S,
      Hsm_hart_get_status = (\<lambda>hartid. hart_get_status S hartid),
      Hsm_hart_suspend = (\<lambda>ty addr opq. hart_suspend S ty addr opq),
      Hsm_rustsbi_probe = default_probe\<rparr>"

definition forward_Ipi :: "'s supervisor \<Rightarrow> 's Ipi" where
  "forward_Ipi S =
     \<lparr>Ipi_send_ipi = (\<lambda>hm. send_ipi S hm),
      Ipi_rustsbi_probe = default_probe\<rparr>"

definition forward_Nacl :: "'s supervisor \<Rightarrow> 's Nacl" where
  "forward_Nacl S =
     \<lparr>Nacl_probe_feature = (\<lambda>feature. nacl_probe_feature S feature),
      Nacl_set_shmem = (\<lambda>shmem flags. nacl_set_shmem S shmem flags),
      Nacl_sync_csr = (\<lambda>csr. nacl_sync_csr S csr),
      Nacl_sync_hfence = (\<lambda>idx. nacl_sync_hfence S idx),
      Nacl_sync_sret = nacl_sync_sret S,
      Nacl_rustsbi_probe = default_probe\<rparr>"

definition forward_Pmu :: "'s supervisor \<Rightarrow> 's Pmu" where
  "forward_Pmu S =
     \<lparr>Pmu_num_counters = pmu_num_counters S,
      Pmu_counter_get_info = (\<lambda>idx. pmu_counter_get_info S idx),
      Pmu_counter_config_matching = (\<lambda>base msk flags event data. pmu_counter_config_matching S (counter_mask_from_mask_base msk base) flags event data),
      Pmu_counter_start = (\<lambda>base msk flags initial. pmu_counter_start S (counter_mask_from_mask_base msk base) flags initial),
      Pmu_counter_stop = (\<lambda>base msk flags. pmu_counter_stop S (counter_mask_from_mask_base msk base) flags),
      Pmu_counter_fw_read = (\<lambda>idx. pmu_counter_fw_read S idx),
      Pmu_counter_fw_read_hi = (\<lambda>idx. pmu_counter_fw_read_hi S idx),
      Pmu_snapshot_set_shmem = (\<lambda>shmem flags. pmu_snapshot_set_shmem S shmem flags),
      Pmu_rustsbi_probe = default_probe\<rparr>"

definition forward_Reset :: "'s supervisor \<Rightarrow> 's Reset" where
  "forward_Reset S =
     \<lparr>Reset_system_reset = (\<lambda>ty reason. system_reset S ty reason),
      Reset_rustsbi_probe = default_probe\<rparr>"

definition forward_Sta :: "'s supervisor \<Rightarrow> 's Sta" where
  "forward_Sta S =
     \<lparr>Sta_set_shmem = (\<lambda>shmem flags. sta_set_shmem S shmem flags),
      Sta_rustsbi_probe = default_probe\<rparr>"

definition forward_Sse :: "'s supervisor \<Rightarrow> 's Sse" where
  "forward_Sse S =
     \<lparr>Sse_read_attrs = (\<lambda>event base cnt out. sse_read_attrs S event base cnt out),
      Sse_write_attrs = (\<lambda>event base cnt inp. sse_write_attrs S event base cnt inp),
      Sse_register = (\<lambda>event pc arg. sse_register S event pc arg),
      Sse_unregister = (\<lambda>event. sse_unregister S event),
      Sse_enable = (\<lambda>event. sse_enable S event),
      Sse_disable = (\<lambda>event. sse_disable S event),
      Sse_complete = sse_complete S,
      Sse_inject = (\<lambda>event hart. sse_inject S event hart),
      Sse_hart_unmask = sse_hart_unmask S,
      Sse_hart_mask = sse_hart_mask S,
      Sse_rustsbi_probe = default_probe\<rparr>"

definition forward_Susp :: "'s supervisor \<Rightarrow> 's Susp" where
  "forward_Susp S =
     \<lparr>Susp_system_suspend = (\<lambda>ty addr opq. system_suspend S ty addr opq),
      Susp_rustsbi_probe = default_probe\<rparr>"

definition forward_Timer :: "'s supervisor \<Rightarrow> 's Timer" where
  "forward_Timer S =
     \<lparr>Timer_set_timer = (\<lambda>stime_value. do {set_timer S stime_value; State_Monad.return ()}),
      Timer_rustsbi_probe = default_probe\<rparr>"

definition forward_EnvInfo :: "'s supervisor \<Rightarrow> 's EnvInfo" where
  "forward_EnvInfo S =
     \<lparr>EnvInfo_mvendorid = get_mvendorid S, EnvInfo_marchid = get_marchid S, EnvInfo_mimpid = get_mimpid S\<rparr>"

text \<open>An implementation that forwards every extension it can.\<close>

definition forward_impl :: "'s supervisor \<Rightarrow> 's DynamicImpl" where
  "forward_impl S =
     \<lparr>di_fence = [forward_Fence S],
      di_timer = [forward_Timer S],
      di_ipi = [forward_Ipi S],
      di_hsm = [forward_Hsm S],
      di_reset = [forward_Reset S],
      di_pmu = [forward_Pmu S],
      di_console = [forward_Console S],
      di_susp = [forward_Susp S],
      di_cppc = [forward_Cppc S],
      di_nacl = [forward_Nacl S],
      di_sta = [forward_Sta S],
      di_mpxy = [],
      di_dbtr = [],
      di_fwft = [],
      di_sse = [forward_Sse S],
      di_env_info = Some (forward_EnvInfo S), di_vendor = None\<rparr>"

section \<open>Transparency\<close>

text \<open>The number of argument registers of each call that is forwarded.\<close>

definition arity_rfnc :: "usize \<Rightarrow> nat option" where
  "arity_rfnc fid =
     (if fid = RFNC_REMOTE_FENCE_I then Some 2
      else if fid = RFNC_REMOTE_SFENCE_VMA then Some 4
      else if fid = RFNC_REMOTE_SFENCE_VMA_ASID then Some 5
      else if fid = RFNC_REMOTE_HFENCE_GVMA_VMID then Some 5
      else if fid = RFNC_REMOTE_HFENCE_GVMA then Some 4
      else if fid = RFNC_REMOTE_HFENCE_VVMA_ASID then Some 5
      else if fid = RFNC_REMOTE_HFENCE_VVMA then Some 4
      else None)"

definition arity_time :: "usize \<Rightarrow> nat option" where
  "arity_time fid =
     (if fid = TIME_SET_TIMER then Some 1
      else None)"

definition arity_spi :: "usize \<Rightarrow> nat option" where
  "arity_spi fid =
     (if fid = SPI_SEND_IPI then Some 2
      else None)"

definition arity_hsm :: "usize \<Rightarrow> nat option" where
  "arity_hsm fid =
     (if fid = HSM_HART_START then Some 3
      else if fid = HSM_HART_STOP then Some 0
      else if fid = HSM_HART_GET_STATUS then Some 1
      else if fid = HSM_HART_SUSPEND then Some 3
      else None)"

definition arity_srst :: "usize \<Rightarrow> nat option" where
  "arity_srst fid =
     (if fid = SRST_SYSTEM_RESET then Some 2
      else None)"

definition arity_pmu :: "usize \<Rightarrow> nat option" where
  "arity_pmu fid =
     (if fid = PMU_NUM_COUNTERS then Some 0
      else if fid = PMU_COUNTER_GET_INFO then Some 1
      else if fid = PMU_COUNTER_CONFIG_MATCHING then Some 5
      else if fid = PMU_COUNTER_START then Some 4
      else if fid = PMU_COUNTER_STOP then Some 3
      else if fid = PMU_COUNTER_FW_READ then Some 1
      else if fid = PMU_COUNTER_FW_READ_HI then Some 1
      else if fid = PMU_SNAPSHOT_SET_SHMEM then Some 3
      else None)"

definition arity_dbcn :: "usize \<Rightarrow> nat option" where
  "arity_dbcn fid =
     (if fid = DBCN_CONSOLE_WRITE then Some 3
      else if fid = DBCN_CONSOLE_READ then Some 3
      else if fid = DBCN_CONSOLE_WRITE_BYTE then Some 1
      else None)"

definition arity_susp :: "usize \<Rightarrow> nat option" where
  "arity_susp fid =
     (if fid = SUSP_SUSPEND then Some 3
      else None)"

definition arity_cppc :: "usize \<Rightarrow> nat option" where
  "arity_cppc fid =
     (if fid = CPPC_PROBE then Some 1
      else if fid = CPPC_READ then Some 1
      else if fid = CPPC_READ_HI then Some 1
      else if fid = CPPC_WRITE then Some 2
      else None)"

definition arity_nacl :: "usize \<Rightarrow> nat option" where
  "arity_nacl fid =
     (if fid = NACL_PROBE_FEATURE then Some 1
      else if fid = NACL_SET_SHMEM then Some 3
      else if fid = NACL_SYNC_CSR then Some 1
      else if fid = NACL_SYNC_HFENCE then Some 1
      else if fid = NACL_SYNC_SRET then Some 0
      else None)"

definition arity_sta :: "usize \<Rightarrow> nat option" where
  "arity_sta fid =
     (if fid = STA_SET_SHMEM then Some 3
      else None)"

definition arity_sse :: "usize \<Rightarrow> nat option" where
  "arity_sse fid =
     (if fid = SSE_READ_ATTRS then Some 5
      else if fid = SSE_WRITE_ATTRS then Some 5
      else if fid = SSE_REGISTER then Some 3
      else if fid = SSE_UNREGISTER then Some 1
      else if fid = SSE_ENABLE then Some 1
      else if fid = SSE_DISABLE then Some 1
      else if fid = SSE_COMPLETE then Some 0
      else if fid = SSE_INJECT then Some 2
      else if fid = SSE_HART_UNMASK then Some 0
      else if fid = SSE_HART_MASK then Some 0
      else None)"

definition call_arity :: "usize \<Rightarrow> usize \<Rightarrow> nat option" where
  "call_arity ext fid =
     (if ext = EID_RFNC then arity_rfnc fid
      else if ext = EID_TIME then arity_time fid
      else if ext = EID_SPI then arity_spi fid
      else if ext = EID_HSM then arity_hsm fid
      else if ext = EID_SRST then arity_srst fid
      else if ext = EID_PMU then arity_pmu fid
      else if ext = EID_DBCN then arity_dbcn fid
      else if ext = EID_SUSP then arity_susp fid
      else if ext = EID_CPPC then arity_cppc fid
      else if ext = EID_NACL then arity_nacl fid
      else if ext = EID_STA then arity_sta fid
      else if ext = EID_SSE then arity_sse fid
      else None)"

definition small :: "usize \<Rightarrow> bool" where "small x \<longleftrightarrow> unat x < 2 ^ 32"

text \<open>The arguments of type \<open>u32\<close> are in range.\<close>

definition fits :: "usize \<Rightarrow> usize \<Rightarrow> usize list \<Rightarrow> bool" where
  "fits ext fid p =
     (if ext = EID_HSM \<and> fid = HSM_HART_SUSPEND \<or> ext = EID_SUSP \<or> ext = EID_CPPC
         \<or> ext = EID_NACL \<and> fid = NACL_PROBE_FEATURE
         \<or> ext = EID_SSE \<and> fid \<in> {SSE_REGISTER, SSE_UNREGISTER, SSE_ENABLE, SSE_DISABLE, SSE_INJECT}
      then small (p ! 0)
      else if ext = EID_SRST then small (p ! 0) \<and> small (p ! 1)
      else if ext = EID_SSE \<and> fid \<in> {SSE_READ_ATTRS, SSE_WRITE_ATTRS}
      then small (p ! 0) \<and> small (p ! 1) \<and> small (p ! 2)
      else True)"

text \<open>Only the low byte of the argument of \<open>write_byte\<close> is passed on.\<close>

definition wire :: "usize \<Rightarrow> usize \<Rightarrow> usize list \<Rightarrow> usize list" where
  "wire ext fid p = (if ext = EID_DBCN \<and> fid = DBCN_CONSOLE_WRITE_BYTE then p[0 := p ! 0 AND 0xff] else p)"

text \<open>\<open>set_timer\<close> and \<open>num_counters\<close> have no error of their own: their answer is always a success.\<close>

definition relay :: "usize \<Rightarrow> usize \<Rightarrow> ('s, sbi_ret) state \<Rightarrow> ('s, sbi_ret) state" where
  "relay ext fid a =
     (if ext = EID_TIME then do {a; State_Monad.return (sbi_success 0)}
      else if ext = EID_PMU \<and> fid = PMU_NUM_COUNTERS then success_of (value_of a)
      else a)"

lemma with_u32_small:
  "with_u32 x f = (if small x then f (ucast x) else ip)"
  "with_u32_2 x y g = (if small x \<and> small y then g (ucast x) (ucast y) else ip)"
  "with_u32_3 x y z h = (if small x \<and> small y \<and> small z then h (ucast x) (ucast y) (ucast z) else ip)"
  by (simp_all add: with_u32_def with_u32_2_def with_u32_3_def u32_try_from_def small_def)

lemma ucast_small: "small x \<Longrightarrow> ucast (ucast x :: u32) = x"
  by (simp add: small_def unsigned_ucast_eq word_unat_eq_iff unsigned_take_bit_eq take_bit_nat_eq_self_iff)

lemma byte_out: "ucast (ucast ((x :: usize) AND 0xff) :: u8) = x AND 0xff"
proof -
  have "x AND 0xff = take_bit 8 x"
    by (simp add: take_bit_eq_mask mask_eq_exp_minus_1)
  then show ?thesis
    by (intro bit_word_eqI) (auto simp: bit_ucast_iff bit_take_bit_iff)
qed

lemma on_single [simp]: "probe x = 1 \<Longrightarrow> on probe [x] f = f x"
  by (simp add: on_def provider_def UNAVAILABLE_EXTENSION_def)

lemma upt_six:
  "[0..<6] = [0, 1, 2, 3, 4, 5 :: nat]" "[Suc 0..<6] = [1, 2, 3, 4, 5 :: nat]" "[2..<6] = [2, 3, 4, 5 :: nat]"
  "[3..<6] = [3, 4, 5 :: nat]" "[4..<6] = [4, 5 :: nat]" "[5..<6] = [5 :: nat]"
  by (simp_all add: upt_rec)

lemmas wire_simps = sbi_call_defs upt_six fits_def wire_def relay_def eid_values fid_defs

lemma forward_rfnc:
  "handle_ecall ids (forward_impl S) EID_RFNC fid [a, b, c, d, e, f] =
     (case arity_rfnc fid of
        None \<Rightarrow> ns
      | Some n \<Rightarrow>
          if fits EID_RFNC fid [a, b, c, d, e, f]
          then relay EID_RFNC fid (ecall S EID_RFNC fid (take n (wire EID_RFNC fid [a, b, c, d, e, f]) @ map (a_reg S) [n..<6]))
          else ip)"
  unfolding handle_rfnc
  by (simp add: forward_impl_def forward_Fence_def rustsbi_fence_def arity_rfnc_def wire_simps
      remote_fence_i_def remote_sfence_vma_def remote_sfence_vma_asid_def remote_hfence_gvma_vmid_def remote_hfence_gvma_def remote_hfence_vvma_asid_def remote_hfence_vvma_def hart_mask_into_inner_def hart_mask_from_mask_base_def)

lemma forward_time:
  "handle_ecall ids (forward_impl S) EID_TIME fid [a, b, c, d, e, f] =
     (case arity_time fid of
        None \<Rightarrow> ns
      | Some n \<Rightarrow>
          if fits EID_TIME fid [a, b, c, d, e, f]
          then relay EID_TIME fid (ecall S EID_TIME fid (take n (wire EID_TIME fid [a, b, c, d, e, f]) @ map (a_reg S) [n..<6]))
          else ip)"
  unfolding handle_time
  by (simp add: forward_impl_def forward_Timer_def rustsbi_timer_def arity_time_def wire_simps
      set_timer_def State_Monad.bind_assoc State_Monad.bind_left_identity)

lemma forward_spi:
  "handle_ecall ids (forward_impl S) EID_SPI fid [a, b, c, d, e, f] =
     (case arity_spi fid of
        None \<Rightarrow> ns
      | Some n \<Rightarrow>
          if fits EID_SPI fid [a, b, c, d, e, f]
          then relay EID_SPI fid (ecall S EID_SPI fid (take n (wire EID_SPI fid [a, b, c, d, e, f]) @ map (a_reg S) [n..<6]))
          else ip)"
  unfolding handle_spi
  by (simp add: forward_impl_def forward_Ipi_def rustsbi_ipi_def arity_spi_def wire_simps
      send_ipi_def hart_mask_into_inner_def hart_mask_from_mask_base_def)

lemma forward_hsm:
  "handle_ecall ids (forward_impl S) EID_HSM fid [a, b, c, d, e, f] =
     (case arity_hsm fid of
        None \<Rightarrow> ns
      | Some n \<Rightarrow>
          if fits EID_HSM fid [a, b, c, d, e, f]
          then relay EID_HSM fid (ecall S EID_HSM fid (take n (wire EID_HSM fid [a, b, c, d, e, f]) @ map (a_reg S) [n..<6]))
          else ip)"
  unfolding handle_hsm
  by (simp add: forward_impl_def forward_Hsm_def rustsbi_hsm_def arity_hsm_def wire_simps
      hart_start_def hart_stop_def hart_get_status_def hart_suspend_def with_u32_small ucast_small)

lemma forward_srst:
  "handle_ecall ids (forward_impl S) EID_SRST fid [a, b, c, d, e, f] =
     (case arity_srst fid of
        None \<Rightarrow> ns
      | Some n \<Rightarrow>
          if fits EID_SRST fid [a, b, c, d, e, f]
          then relay EID_SRST fid (ecall S EID_SRST fid (take n (wire EID_SRST fid [a, b, c, d, e, f]) @ map (a_reg S) [n..<6]))
          else ip)"
  unfolding handle_srst
  by (simp add: forward_impl_def forward_Reset_def rustsbi_reset_def arity_srst_def wire_simps
      system_reset_def with_u32_small ucast_small)

lemma forward_pmu:
  "handle_ecall ids (forward_impl S) EID_PMU fid [a, b, c, d, e, f] =
     (case arity_pmu fid of
        None \<Rightarrow> ns
      | Some n \<Rightarrow>
          if fits EID_PMU fid [a, b, c, d, e, f]
          then relay EID_PMU fid (ecall S EID_PMU fid (take n (wire EID_PMU fid [a, b, c, d, e, f]) @ map (a_reg S) [n..<6]))
          else ip)"
  unfolding handle_pmu
  by (simp add: forward_impl_def forward_Pmu_def rustsbi_pmu_def arity_pmu_def wire_simps
      pmu_num_counters_def pmu_counter_get_info_def pmu_counter_config_matching_def pmu_counter_start_def pmu_counter_stop_def pmu_counter_fw_read_def pmu_counter_fw_read_hi_def pmu_snapshot_set_shmem_def counter_mask_into_inner_def counter_mask_from_mask_base_def shared_new_def)

lemma forward_dbcn:
  "handle_ecall ids (forward_impl S) EID_DBCN fid [a, b, c, d, e, f] =
     (case arity_dbcn fid of
        None \<Rightarrow> ns
      | Some n \<Rightarrow>
          if fits EID_DBCN fid [a, b, c, d, e, f]
          then relay EID_DBCN fid (ecall S EID_DBCN fid (take n (wire EID_DBCN fid [a, b, c, d, e, f]) @ map (a_reg S) [n..<6]))
          else ip)"
  unfolding handle_dbcn
  by (simp add: forward_impl_def forward_Console_def rustsbi_console_def arity_dbcn_def wire_simps
      console_write_def console_read_def console_write_byte_def physical_new_def byte_out with_u32_small ucast_small)

lemma forward_susp:
  "handle_ecall ids (forward_impl S) EID_SUSP fid [a, b, c, d, e, f] =
     (case arity_susp fid of
        None \<Rightarrow> ns
      | Some n \<Rightarrow>
          if fits EID_SUSP fid [a, b, c, d, e, f]
          then relay EID_SUSP fid (ecall S EID_SUSP fid (take n (wire EID_SUSP fid [a, b, c, d, e, f]) @ map (a_reg S) [n..<6]))
          else ip)"
  unfolding handle_susp
  by (simp add: forward_impl_def forward_Susp_def rustsbi_susp_def arity_susp_def wire_simps
      system_suspend_def with_u32_small ucast_small)

lemma forward_cppc:
  "handle_ecall ids (forward_impl S) EID_CPPC fid [a, b, c, d, e, f] =
     (case arity_cppc fid of
        None \<Rightarrow> ns
      | Some n \<Rightarrow>
          if fits EID_CPPC fid [a, b, c, d, e, f]
          then relay EID_CPPC fid (ecall S EID_CPPC fid (take n (wire EID_CPPC fid [a, b, c, d, e, f]) @ map (a_reg S) [n..<6]))
          else ip)"
  unfolding handle_cppc
  by (simp add: forward_impl_def forward_Cppc_def rustsbi_cppc_def arity_cppc_def wire_simps
      cppc_probe_def cppc_read_def cppc_read_hi_def cppc_write_def with_u32_small ucast_small)

lemma forward_nacl:
  "handle_ecall ids (forward_impl S) EID_NACL fid [a, b, c, d, e, f] =
     (case arity_nacl fid of
        None \<Rightarrow> ns
      | Some n \<Rightarrow>
          if fits EID_NACL fid [a, b, c, d, e, f]
          then relay EID_NACL fid (ecall S EID_NACL fid (take n (wire EID_NACL fid [a, b, c, d, e, f]) @ map (a_reg S) [n..<6]))
          else ip)"
  unfolding handle_nacl
  by (simp add: forward_impl_def forward_Nacl_def rustsbi_nacl_def arity_nacl_def wire_simps
      nacl_probe_feature_def nacl_set_shmem_def nacl_sync_csr_def nacl_sync_hfence_def nacl_sync_sret_def shared_new_def with_u32_small ucast_small)

lemma forward_sta:
  "handle_ecall ids (forward_impl S) EID_STA fid [a, b, c, d, e, f] =
     (case arity_sta fid of
        None \<Rightarrow> ns
      | Some n \<Rightarrow>
          if fits EID_STA fid [a, b, c, d, e, f]
          then relay EID_STA fid (ecall S EID_STA fid (take n (wire EID_STA fid [a, b, c, d, e, f]) @ map (a_reg S) [n..<6]))
          else ip)"
  unfolding handle_sta
  by (simp add: forward_impl_def forward_Sta_def rustsbi_sta_def arity_sta_def wire_simps
      sta_set_shmem_def shared_new_def)

lemma forward_sse:
  "handle_ecall ids (forward_impl S) EID_SSE fid [a, b, c, d, e, f] =
     (case arity_sse fid of
        None \<Rightarrow> ns
      | Some n \<Rightarrow>
          if fits EID_SSE fid [a, b, c, d, e, f]
          then relay EID_SSE fid (ecall S EID_SSE fid (take n (wire EID_SSE fid [a, b, c, d, e, f]) @ map (a_reg S) [n..<6]))
          else ip)"
  unfolding handle_sse
  by (simp add: forward_impl_def forward_Sse_def rustsbi_sse_def arity_sse_def wire_simps
      sse_read_attrs_def sse_write_attrs_def sse_register_def sse_unregister_def sse_enable_def sse_disable_def sse_complete_def sse_inject_def sse_hart_unmask_def sse_hart_mask_def shared_new_def with_u32_small ucast_small)

lemma call_arity_rfnc: "call_arity EID_RFNC fid = arity_rfnc fid"
  by (simp add: call_arity_def eid_values)

lemma call_arity_time: "call_arity EID_TIME fid = arity_time fid"
  by (simp add: call_arity_def eid_values)

lemma call_arity_spi: "call_arity EID_SPI fid = arity_spi fid"
  by (simp add: call_arity_def eid_values)

lemma call_arity_hsm: "call_arity EID_HSM fid = arity_hsm fid"
  by (simp add: call_arity_def eid_values)

lemma call_arity_srst: "call_arity EID_SRST fid = arity_srst fid"
  by (simp add: call_arity_def eid_values)

lemma call_arity_pmu: "call_arity EID_PMU fid = arity_pmu fid"
  by (simp add: call_arity_def eid_values)

lemma call_arity_dbcn: "call_arity EID_DBCN fid = arity_dbcn fid"
  by (simp add: call_arity_def eid_values)

lemma call_arity_susp: "call_arity EID_SUSP fid = arity_susp fid"
  by (simp add: call_arity_def eid_values)

lemma call_arity_cppc: "call_arity EID_CPPC fid = arity_cppc fid"
  by (simp add: call_arity_def eid_values)

lemma call_arity_nacl: "call_arity EID_NACL fid = arity_nacl fid"
  by (simp add: call_arity_def eid_values)

lemma call_arity_sta: "call_arity EID_STA fid = arity_sta fid"
  by (simp add: call_arity_def eid_values)

lemma call_arity_sse: "call_arity EID_SSE fid = arity_sse fid"
  by (simp add: call_arity_def eid_values)

lemma length_six: "length p = 6 \<Longrightarrow> \<exists>a b c d e f. p = [a, b, c, d, e, f]"
  by (simp add: numeral_eq_Suc length_Suc_conv) blast

definition forwarded :: "usize list" where
  "forwarded = [EID_RFNC, EID_TIME, EID_SPI, EID_HSM, EID_SRST, EID_PMU, EID_DBCN, EID_SUSP, EID_CPPC, EID_NACL, EID_STA, EID_SSE]"

text \<open>
  C16: forwarding is transparent. An implementation that forwards its extensions answers a call of
  one of them by the same call to the environment below: the same extension and function number
  and the same contents of the argument registers that the function has, of which \<open>write_byte\<close> keeps
  the low byte; the answer is passed up, but for \<open>set_timer\<close> and \<open>num_counters\<close>, which always report a
  success. A function number that does not exist and an argument that is too wide are answered
  without a call.
\<close>

theorem forward_transparent:
  assumes "length p = 6" and "ext \<in> set forwarded"
  shows "handle_ecall ids (forward_impl S) ext fid p =
     (case call_arity ext fid of
        None \<Rightarrow> ns
      | Some n \<Rightarrow>
          if fits ext fid p then relay ext fid (ecall S ext fid (take n (wire ext fid p) @ map (a_reg S) [n..<6]))
          else ip)"
proof -
  obtain a b c d e f where p: "p = [a, b, c, d, e, f]"
    using length_six [OF assms(1)] by blast
  consider "ext = EID_RFNC" | "ext = EID_TIME" | "ext = EID_SPI" | "ext = EID_HSM" | "ext = EID_SRST" | "ext = EID_PMU" | "ext = EID_DBCN" | "ext = EID_SUSP" | "ext = EID_CPPC" | "ext = EID_NACL" | "ext = EID_STA" | "ext = EID_SSE"
    using assms(2) by (auto simp: forwarded_def)
  then show ?thesis
    by cases (simp_all only: p forward_rfnc forward_time forward_spi forward_hsm forward_srst forward_pmu forward_dbcn forward_susp forward_cppc forward_nacl forward_sta forward_sse call_arity_rfnc
      call_arity_time call_arity_spi call_arity_hsm call_arity_srst call_arity_pmu call_arity_dbcn call_arity_susp call_arity_cppc call_arity_nacl call_arity_sta call_arity_sse)
qed

text \<open>The demonstration environment records the calls that reach it and answers success.\<close>

definition log_sup :: "(usize \<times> usize \<times> usize list) list supervisor" where
  "log_sup = \<lparr>ecall = (\<lambda>ext fid p. State (\<lambda>s. (sbi_success 7, (ext, fid, p) # s))), a_reg = (\<lambda>_. 0)\<rparr>"

theorem forward_transparent_witness:
  "run_state (handle_ecall (0, 0, 0) (forward_impl log_sup) EID_RFNC RFNC_REMOTE_SFENCE_VMA [5, 0, 0x1000, 0x2000, 9, 9]) []
    = (sbi_success 7, [(EID_RFNC, RFNC_REMOTE_SFENCE_VMA, [5, 0, 0x1000, 0x2000, 0, 0])])"
  by (subst forward_transparent)
    (simp_all add: forwarded_def call_arity_rfnc arity_rfnc_def fid_defs fits_def wire_def relay_def eid_values upt_six log_sup_def
      call_arity_def)

end
