(* ===== verification/Sbi_Reset.thy ===== *)
theory Sbi_Reset
  imports Sbi_Traits
begin

text \<open>
  System reset: \<open>firmware/prototyper/src/sbi/reset.rs\<close> over the selected reset device of
  \<open>firmware/prototyper/src/driver/reset/device.rs\<close>, with the requests of
  \<open>firmware/prototyper/src/driver/reset/mod.rs\<close>. The backend of the device is a parameter: what it
  answers to a request, when it answers; a successful reset does not return, and the mutex that
  serializes the calls of several harts is not modelled.
\<close>

section \<open>Requests\<close>

datatype ResetType = Shutdown | ColdReboot | WarmReboot | TypeVendorSpecific u32

datatype ResetReason = NoReason | SystemFailure | ReasonSbiSpecific u32 | ReasonVendorSpecific u32

record ResetRequest =
  reset_type :: ResetType
  reset_reason :: ResetReason

definition reset_request_new :: "ResetType \<Rightarrow> ResetReason \<Rightarrow> ResetRequest" where
  "reset_request_new ty reason = \<lparr>reset_type = ty, reset_reason = reason\<rparr>"

datatype ResetError = InvalidRequest | ResetFailed

definition RESET_TYPE_SHUTDOWN :: u32 where "RESET_TYPE_SHUTDOWN = 0"
definition RESET_TYPE_COLD_REBOOT :: u32 where "RESET_TYPE_COLD_REBOOT = 1"
definition RESET_TYPE_WARM_REBOOT :: u32 where "RESET_TYPE_WARM_REBOOT = 2"
definition RESET_REASON_NO_REASON :: u32 where "RESET_REASON_NO_REASON = 0"
definition RESET_REASON_SYSTEM_FAILURE :: u32 where "RESET_REASON_SYSTEM_FAILURE = 1"

lemmas reset_numbers = RESET_TYPE_SHUTDOWN_def RESET_TYPE_COLD_REBOOT_def RESET_TYPE_WARM_REBOOT_def
  RESET_REASON_NO_REASON_def RESET_REASON_SYSTEM_FAILURE_def

definition parse_reset_type :: "u32 \<Rightarrow> ResetType option" where
  "parse_reset_type ty =
     (if ty = RESET_TYPE_SHUTDOWN then Some Shutdown
      else if ty = RESET_TYPE_COLD_REBOOT then Some ColdReboot
      else if ty = RESET_TYPE_WARM_REBOOT then Some WarmReboot
      else if 0xf0000000 \<le> ty \<and> ty \<le> 0xffffffff then Some (TypeVendorSpecific ty)
      else None)"

definition parse_reset_reason :: "u32 \<Rightarrow> ResetReason option" where
  "parse_reset_reason reason =
     (if reason = RESET_REASON_NO_REASON then Some NoReason
      else if reason = RESET_REASON_SYSTEM_FAILURE then Some SystemFailure
      else if 0xe0000000 \<le> reason \<and> reason \<le> 0xefffffff then Some (ReasonSbiSpecific reason)
      else if 0xf0000000 \<le> reason \<and> reason \<le> 0xffffffff then Some (ReasonVendorSpecific reason)
      else None)"

definition parse_request :: "u32 \<Rightarrow> u32 \<Rightarrow> ResetRequest option" where
  "parse_request ty reason =
     Option.bind (parse_reset_type ty) (\<lambda>ty.
       Option.bind (parse_reset_reason reason) (\<lambda>reason. Some (reset_request_new ty reason)))"

section \<open>The device and the extension\<close>

record 's ResetDevice =
  rd_backend :: "(ResetRequest \<Rightarrow> ('s, ResetError) state) option"

definition is_available :: "'s ResetDevice \<Rightarrow> bool" where
  "is_available d \<longleftrightarrow> rd_backend d \<noteq> None"

definition device_reset :: "'s ResetDevice \<Rightarrow> ResetRequest \<Rightarrow> ('s, ResetError option) state" where
  "device_reset d request =
     (case rd_backend d of
        None \<Rightarrow> State_Monad.return None
      | Some reset \<Rightarrow> State_Monad.bind (reset request) (\<lambda>e. State_Monad.return (Some e)))"

record 's SbiReset =
  sr_device :: "'s ResetDevice"

definition sbi_reset_new :: "'s ResetDevice \<Rightarrow> 's SbiReset" where
  "sbi_reset_new d = \<lparr>sr_device = d\<rparr>"

definition sbi_reset_probe :: "'s SbiReset \<Rightarrow> usize" where
  "sbi_reset_probe r = of_bool (is_available (sr_device r))"

definition sbi_system_reset :: "'s SbiReset \<Rightarrow> u32 \<Rightarrow> u32 \<Rightarrow> ('s, sbi_ret) state" where
  "sbi_system_reset r ty reason =
     (case parse_request ty reason of
        None \<Rightarrow> State_Monad.return sbi_invalid_param
      | Some request \<Rightarrow>
          State_Monad.bind (device_reset (sr_device r) request) (\<lambda>e. State_Monad.return
            (case e of
               None \<Rightarrow> sbi_not_supported
             | Some InvalidRequest \<Rightarrow> sbi_invalid_param
             | Some ResetFailed \<Rightarrow> sbi_failed)))"

text \<open>The implementation of the trait \<open>Reset\<close>.\<close>

definition Reset_of :: "'s SbiReset \<Rightarrow> 's Reset" where
  "Reset_of r = \<lparr>Reset_system_reset = sbi_system_reset r, Reset_rustsbi_probe = sbi_reset_probe r\<rparr>"

text \<open>The reserved numbers are exactly those that no request represents.\<close>

lemma parse_request_None_iff:
  "parse_request ty reason = None \<longleftrightarrow>
     3 \<le> unat ty \<and> unat ty < 0xf0000000 \<or> 2 \<le> unat reason \<and> unat reason < 0xe0000000"
proof -
  have max: "unat x \<le> 0xffffffff" for x :: u32
  proof -
    have "unat x < 2 ^ LENGTH(32)"
      by (rule unsigned_less)
    then show ?thesis
      by simp
  qed
  have ty: "parse_reset_type ty = None \<longleftrightarrow> 3 \<le> unat ty \<and> unat ty < 0xf0000000"
    using max [of ty]
    by (auto simp: parse_reset_type_def reset_numbers word_le_nat_alt word_unat_eq_iff)
  have reason: "parse_reset_reason reason = None \<longleftrightarrow> 2 \<le> unat reason \<and> unat reason < 0xe0000000"
    using max [of reason]
    by (auto simp: parse_reset_reason_def reset_numbers word_le_nat_alt word_unat_eq_iff)
  show ?thesis
    unfolding ty [symmetric] reason [symmetric]
    by (auto simp: parse_request_def bind_eq_None_conv)
qed

lemma system_reset_refuses:
  "parse_request ty reason = None \<Longrightarrow> sbi_system_reset r ty reason = State_Monad.return sbi_invalid_param"
  "parse_request ty reason = Some q \<Longrightarrow> \<not> is_available (sr_device r) \<Longrightarrow>
     sbi_system_reset r ty reason = State_Monad.return sbi_not_supported"
  by (simp_all add: sbi_system_reset_def is_available_def device_reset_def)

end
