(* ===== verification/Sbi_Probe.thy ===== *)
theory Sbi_Probe
  imports Sbi_Forward Sbi_Reset
begin

text \<open>
  What probing tells about a dispatcher, the agreement of the static and the dynamic dispatcher, the
  dispatcher of the firmware (\<open>prototyper/src/sbi/mod.rs\<close>), and the calls on which the wrappers and the
  dispatch disagree.
\<close>

section \<open>Availability\<close>

definition standard_eids :: "usize list" where
  "standard_eids = [EID_BASE, EID_RFNC, EID_TIME, EID_SPI, EID_HSM, EID_SRST, EID_PMU, EID_DBCN, EID_SUSP, EID_CPPC, EID_NACL, EID_STA, EID_MPXY, EID_DBTR, EID_FWFT, EID_SSE]"

text \<open>
  A vendor handler answers for no standard extension: \<open>derive(VendorSBI)\<close> rejects their numbers at compile
  time. It answers \<open>not_supported\<close> for an extension it reports as unavailable.
\<close>

definition vendor_ok :: "'s VendorSBI \<Rightarrow> bool" where
  "vendor_ok v \<longleftrightarrow>
     (\<forall>ext \<in> set standard_eids. VendorSBI_probe_extension v ext = UNAVAILABLE_EXTENSION)
     \<and> (\<forall>ext fid p. VendorSBI_probe_extension v ext = UNAVAILABLE_EXTENSION \<longrightarrow> VendorSBI_handle_ecall v ext fid p = ns)"

lemma probe_fields_zero: "probe_fields probe xs = UNAVAILABLE_EXTENSION \<longleftrightarrow> provider probe xs = None"
proof (induction xs)
  case (Cons x xs)
  then show ?case
    by (auto simp: probe_fields_def provider_def)
qed (simp add: probe_fields_def provider_def)

lemma prober_rfnc: "prober D EID_RFNC = probe_fields Fence_rustsbi_probe (di_fence D)"
  by (simp add: prober_def eid_values)

lemma prober_time: "prober D EID_TIME = probe_fields Timer_rustsbi_probe (di_timer D)"
  by (simp add: prober_def eid_values)

lemma prober_spi: "prober D EID_SPI = probe_fields Ipi_rustsbi_probe (di_ipi D)"
  by (simp add: prober_def eid_values)

lemma prober_hsm: "prober D EID_HSM = probe_fields Hsm_rustsbi_probe (di_hsm D)"
  by (simp add: prober_def eid_values)

lemma prober_srst: "prober D EID_SRST = probe_fields Reset_rustsbi_probe (di_reset D)"
  by (simp add: prober_def eid_values)

lemma prober_pmu: "prober D EID_PMU = probe_fields Pmu_rustsbi_probe (di_pmu D)"
  by (simp add: prober_def eid_values)

lemma prober_dbcn: "prober D EID_DBCN = probe_fields Console_rustsbi_probe (di_console D)"
  by (simp add: prober_def eid_values)

lemma prober_susp: "prober D EID_SUSP = probe_fields Susp_rustsbi_probe (di_susp D)"
  by (simp add: prober_def eid_values)

lemma prober_cppc: "prober D EID_CPPC = probe_fields Cppc_rustsbi_probe (di_cppc D)"
  by (simp add: prober_def eid_values)

lemma prober_nacl: "prober D EID_NACL = probe_fields Nacl_rustsbi_probe (di_nacl D)"
  by (simp add: prober_def eid_values)

lemma prober_sta: "prober D EID_STA = probe_fields Sta_rustsbi_probe (di_sta D)"
  by (simp add: prober_def eid_values)

lemma prober_mpxy: "prober D EID_MPXY = probe_fields Mpxy_rustsbi_probe (di_mpxy D)"
  by (simp add: prober_def eid_values)

lemma prober_dbtr: "prober D EID_DBTR = probe_fields Dbtr_rustsbi_probe (di_dbtr D)"
  by (simp add: prober_def eid_values)

lemma prober_fwft: "prober D EID_FWFT = probe_fields Fwft_rustsbi_probe (di_fwft D)"
  by (simp add: prober_def eid_values)

lemma prober_sse: "prober D EID_SSE = probe_fields Sse_rustsbi_probe (di_sse D)"
  by (simp add: prober_def eid_values)

lemma prober_base: "prober D EID_BASE = 1"
  by (simp add: prober_def)

lemma standard_cases:
  assumes "ext \<in> set standard_eids"
  obtains "ext = EID_BASE" | "ext = EID_RFNC" | "ext = EID_TIME" | "ext = EID_SPI" | "ext = EID_HSM" | "ext = EID_SRST" | "ext = EID_PMU" | "ext = EID_DBCN" | "ext = EID_SUSP" | "ext = EID_CPPC" | "ext = EID_NACL" | "ext = EID_STA" | "ext = EID_MPXY" | "ext = EID_DBTR" | "ext = EID_FWFT" | "ext = EID_SSE"
  using assms unfolding standard_eids_def by auto

lemma prober_other:
  "ext \<notin> set standard_eids \<Longrightarrow> prober D ext = (case di_vendor D of Some v \<Rightarrow> VendorSBI_probe_extension v ext | None \<Rightarrow> UNAVAILABLE_EXTENSION)"
  by (simp add: standard_eids_def prober_def)

lemma handle_other:
  "ext \<notin> set standard_eids \<Longrightarrow> handle_ecall ids D ext fid p = (case di_vendor D of Some v \<Rightarrow> VendorSBI_handle_ecall v ext fid p | None \<Rightarrow> ns)"
  by (simp add: standard_eids_def handle_ecall_def)

lemma on_unavailable: "probe_fields probe xs = UNAVAILABLE_EXTENSION \<Longrightarrow> on probe xs f = ns"
  by (simp add: probe_fields_zero on_def)

lemma unavailable_not_supported:
  assumes "prober D ext = UNAVAILABLE_EXTENSION" and "\<And>v. di_vendor D = Some v \<Longrightarrow> vendor_ok v"
  shows "handle_ecall ids D ext fid p = ns"
proof (cases "ext \<in> set standard_eids")
  case True
  then show ?thesis
    by (rule standard_cases)
      (use assms(1) in \<open>simp_all only: prober_base prober_rfnc prober_time prober_spi prober_hsm prober_srst prober_pmu prober_dbcn prober_susp prober_cppc prober_nacl prober_sta prober_mpxy prober_dbtr prober_fwft prober_sse handle_rfnc handle_time handle_spi handle_hsm handle_srst handle_pmu handle_dbcn handle_susp handle_cppc handle_nacl handle_sta handle_mpxy handle_dbtr handle_fwft handle_sse
        on_unavailable UNAVAILABLE_EXTENSION_def one_neq_zero\<close>)
next
  case False
  then show ?thesis
    using assms by (auto simp: prober_other handle_other vendor_ok_def split: option.splits)
qed

section \<open>Static and dynamic dispatch\<close>

definition dynamic_of :: "'s StaticImpl \<Rightarrow> 's DynamicImpl" where
  "dynamic_of imp =
     \<lparr>di_fence = (case si_fence imp of Some x \<Rightarrow> [x] | None \<Rightarrow> []),
      di_timer = (case si_timer imp of Some x \<Rightarrow> [x] | None \<Rightarrow> []),
      di_ipi = (case si_ipi imp of Some x \<Rightarrow> [x] | None \<Rightarrow> []),
      di_hsm = (case si_hsm imp of Some x \<Rightarrow> [x] | None \<Rightarrow> []),
      di_reset = (case si_reset imp of Some x \<Rightarrow> [x] | None \<Rightarrow> []),
      di_pmu = (case si_pmu imp of Some x \<Rightarrow> [x] | None \<Rightarrow> []),
      di_console = (case si_console imp of Some x \<Rightarrow> [x] | None \<Rightarrow> []),
      di_susp = (case si_susp imp of Some x \<Rightarrow> [x] | None \<Rightarrow> []),
      di_cppc = (case si_cppc imp of Some x \<Rightarrow> [x] | None \<Rightarrow> []),
      di_nacl = (case si_nacl imp of Some x \<Rightarrow> [x] | None \<Rightarrow> []),
      di_sta = (case si_sta imp of Some x \<Rightarrow> [x] | None \<Rightarrow> []),
      di_mpxy = (case si_mpxy imp of Some x \<Rightarrow> [x] | None \<Rightarrow> []),
      di_dbtr = (case si_dbtr imp of Some x \<Rightarrow> [x] | None \<Rightarrow> []),
      di_fwft = (case si_fwft imp of Some x \<Rightarrow> [x] | None \<Rightarrow> []),
      di_sse = (case si_sse imp of Some x \<Rightarrow> [x] | None \<Rightarrow> []),
      di_env_info = si_env_info imp, di_vendor = si_vendor imp\<rparr>"

text \<open>Every field is of a type with the default probe.\<close>

definition default_fields :: "'s StaticImpl \<Rightarrow> bool" where
  "default_fields imp \<longleftrightarrow>
     pred_option (\<lambda>x. Fence_rustsbi_probe x = default_probe) (si_fence imp)
     \<and> pred_option (\<lambda>x. Timer_rustsbi_probe x = default_probe) (si_timer imp)
     \<and> pred_option (\<lambda>x. Ipi_rustsbi_probe x = default_probe) (si_ipi imp)
     \<and> pred_option (\<lambda>x. Hsm_rustsbi_probe x = default_probe) (si_hsm imp)
     \<and> pred_option (\<lambda>x. Reset_rustsbi_probe x = default_probe) (si_reset imp)
     \<and> pred_option (\<lambda>x. Pmu_rustsbi_probe x = default_probe) (si_pmu imp)
     \<and> pred_option (\<lambda>x. Console_rustsbi_probe x = default_probe) (si_console imp)
     \<and> pred_option (\<lambda>x. Susp_rustsbi_probe x = default_probe) (si_susp imp)
     \<and> pred_option (\<lambda>x. Cppc_rustsbi_probe x = default_probe) (si_cppc imp)
     \<and> pred_option (\<lambda>x. Nacl_rustsbi_probe x = default_probe) (si_nacl imp)
     \<and> pred_option (\<lambda>x. Sta_rustsbi_probe x = default_probe) (si_sta imp)
     \<and> pred_option (\<lambda>x. Mpxy_rustsbi_probe x = default_probe) (si_mpxy imp)
     \<and> pred_option (\<lambda>x. Dbtr_rustsbi_probe x = default_probe) (si_dbtr imp)
     \<and> pred_option (\<lambda>x. Fwft_rustsbi_probe x = default_probe) (si_fwft imp)
     \<and> pred_option (\<lambda>x. Sse_rustsbi_probe x = default_probe) (si_sse imp)"

lemma probe_fields_option:
  "pred_option (\<lambda>x. probe x = default_probe) o' \<Longrightarrow>
     probe_fields probe (case o' of Some x \<Rightarrow> [x] | None \<Rightarrow> []) = some_probe o'"
  by (cases o') (simp_all add: probe_fields_def some_probe_def UNAVAILABLE_EXTENSION_def)

lemma try_fields_option:
  "pred_option (\<lambda>x. probe x = default_probe) o' \<Longrightarrow>
     try_fields probe f other (case o' of Some x \<Rightarrow> [x] | None \<Rightarrow> []) = (case o' of Some x \<Rightarrow> f x | None \<Rightarrow> other)"
  by (cases o') (simp_all add: UNAVAILABLE_EXTENSION_def)

lemma arm_simps [simp]:
  "ext \<noteq> eid \<Longrightarrow> arm fld eid ext call other = other"
  "arm fld eid eid call other = (case fld of Some x \<Rightarrow> call x | None \<Rightarrow> other)"
  by (simp_all add: arm_def split: option.split)

definition static_ok :: "'s StaticImpl \<Rightarrow> bool" where
  "static_ok imp \<longleftrightarrow> default_fields imp \<and> pred_option vendor_ok (si_vendor imp)"

lemma default_field:
  assumes "static_ok imp"
  shows "pred_option (\<lambda>x. Fence_rustsbi_probe x = default_probe) (si_fence imp)"
    "pred_option (\<lambda>x. Timer_rustsbi_probe x = default_probe) (si_timer imp)"
    "pred_option (\<lambda>x. Ipi_rustsbi_probe x = default_probe) (si_ipi imp)"
    "pred_option (\<lambda>x. Hsm_rustsbi_probe x = default_probe) (si_hsm imp)"
    "pred_option (\<lambda>x. Reset_rustsbi_probe x = default_probe) (si_reset imp)"
    "pred_option (\<lambda>x. Pmu_rustsbi_probe x = default_probe) (si_pmu imp)"
    "pred_option (\<lambda>x. Console_rustsbi_probe x = default_probe) (si_console imp)"
    "pred_option (\<lambda>x. Susp_rustsbi_probe x = default_probe) (si_susp imp)"
    "pred_option (\<lambda>x. Cppc_rustsbi_probe x = default_probe) (si_cppc imp)"
    "pred_option (\<lambda>x. Nacl_rustsbi_probe x = default_probe) (si_nacl imp)"
    "pred_option (\<lambda>x. Sta_rustsbi_probe x = default_probe) (si_sta imp)"
    "pred_option (\<lambda>x. Mpxy_rustsbi_probe x = default_probe) (si_mpxy imp)"
    "pred_option (\<lambda>x. Dbtr_rustsbi_probe x = default_probe) (si_dbtr imp)"
    "pred_option (\<lambda>x. Fwft_rustsbi_probe x = default_probe) (si_fwft imp)"
    "pred_option (\<lambda>x. Sse_rustsbi_probe x = default_probe) (si_sse imp)"
  using assms by (simp_all add: static_ok_def default_fields_def)

lemma static_vendor:
  "static_ok imp \<Longrightarrow> ext \<in> set standard_eids \<Longrightarrow>
     (case si_vendor imp of Some v \<Rightarrow> VendorSBI_handle_ecall v ext fid p | None \<Rightarrow> ns) = ns"
  "static_ok imp \<Longrightarrow> ext \<in> set standard_eids \<Longrightarrow>
     (case si_vendor imp of Some v \<Rightarrow> if x \<noteq> 0 then x else VendorSBI_probe_extension v ext | None \<Rightarrow> x) = x"
  by (cases "si_vendor imp"; simp add: static_ok_def vendor_ok_def UNAVAILABLE_EXTENSION_def)+

lemma on_option:
  "pred_option (\<lambda>x. probe x = default_probe) o' \<Longrightarrow>
     on probe (case o' of Some x \<Rightarrow> [x] | None \<Rightarrow> []) f = (case o' of Some x \<Rightarrow> f x | None \<Rightarrow> ns)"
  unfolding try_fields_on [symmetric] by (rule try_fields_option)

lemma eid_distinct: "distinct standard_eids"
  by (simp add: standard_eids_def eid_values)

lemma eid_neq:
  "EID_BASE \<noteq> EID_RFNC" "EID_BASE \<noteq> EID_TIME" "EID_BASE \<noteq> EID_SPI" "EID_BASE \<noteq> EID_HSM" "EID_BASE \<noteq> EID_SRST" "EID_BASE \<noteq> EID_PMU" "EID_BASE \<noteq> EID_DBCN" "EID_BASE \<noteq> EID_SUSP" "EID_BASE \<noteq> EID_CPPC" "EID_BASE \<noteq> EID_NACL" "EID_BASE \<noteq> EID_STA" "EID_BASE \<noteq> EID_MPXY" "EID_BASE \<noteq> EID_DBTR" "EID_BASE \<noteq> EID_FWFT" "EID_BASE \<noteq> EID_SSE"
  "EID_RFNC \<noteq> EID_BASE" "EID_RFNC \<noteq> EID_TIME" "EID_RFNC \<noteq> EID_SPI" "EID_RFNC \<noteq> EID_HSM" "EID_RFNC \<noteq> EID_SRST" "EID_RFNC \<noteq> EID_PMU" "EID_RFNC \<noteq> EID_DBCN" "EID_RFNC \<noteq> EID_SUSP" "EID_RFNC \<noteq> EID_CPPC" "EID_RFNC \<noteq> EID_NACL" "EID_RFNC \<noteq> EID_STA" "EID_RFNC \<noteq> EID_MPXY" "EID_RFNC \<noteq> EID_DBTR" "EID_RFNC \<noteq> EID_FWFT" "EID_RFNC \<noteq> EID_SSE"
  "EID_TIME \<noteq> EID_BASE" "EID_TIME \<noteq> EID_RFNC" "EID_TIME \<noteq> EID_SPI" "EID_TIME \<noteq> EID_HSM" "EID_TIME \<noteq> EID_SRST" "EID_TIME \<noteq> EID_PMU" "EID_TIME \<noteq> EID_DBCN" "EID_TIME \<noteq> EID_SUSP" "EID_TIME \<noteq> EID_CPPC" "EID_TIME \<noteq> EID_NACL" "EID_TIME \<noteq> EID_STA" "EID_TIME \<noteq> EID_MPXY" "EID_TIME \<noteq> EID_DBTR" "EID_TIME \<noteq> EID_FWFT" "EID_TIME \<noteq> EID_SSE"
  "EID_SPI \<noteq> EID_BASE" "EID_SPI \<noteq> EID_RFNC" "EID_SPI \<noteq> EID_TIME" "EID_SPI \<noteq> EID_HSM" "EID_SPI \<noteq> EID_SRST" "EID_SPI \<noteq> EID_PMU" "EID_SPI \<noteq> EID_DBCN" "EID_SPI \<noteq> EID_SUSP" "EID_SPI \<noteq> EID_CPPC" "EID_SPI \<noteq> EID_NACL" "EID_SPI \<noteq> EID_STA" "EID_SPI \<noteq> EID_MPXY" "EID_SPI \<noteq> EID_DBTR" "EID_SPI \<noteq> EID_FWFT" "EID_SPI \<noteq> EID_SSE"
  "EID_HSM \<noteq> EID_BASE" "EID_HSM \<noteq> EID_RFNC" "EID_HSM \<noteq> EID_TIME" "EID_HSM \<noteq> EID_SPI" "EID_HSM \<noteq> EID_SRST" "EID_HSM \<noteq> EID_PMU" "EID_HSM \<noteq> EID_DBCN" "EID_HSM \<noteq> EID_SUSP" "EID_HSM \<noteq> EID_CPPC" "EID_HSM \<noteq> EID_NACL" "EID_HSM \<noteq> EID_STA" "EID_HSM \<noteq> EID_MPXY" "EID_HSM \<noteq> EID_DBTR" "EID_HSM \<noteq> EID_FWFT" "EID_HSM \<noteq> EID_SSE"
  "EID_SRST \<noteq> EID_BASE" "EID_SRST \<noteq> EID_RFNC" "EID_SRST \<noteq> EID_TIME" "EID_SRST \<noteq> EID_SPI" "EID_SRST \<noteq> EID_HSM" "EID_SRST \<noteq> EID_PMU" "EID_SRST \<noteq> EID_DBCN" "EID_SRST \<noteq> EID_SUSP" "EID_SRST \<noteq> EID_CPPC" "EID_SRST \<noteq> EID_NACL" "EID_SRST \<noteq> EID_STA" "EID_SRST \<noteq> EID_MPXY" "EID_SRST \<noteq> EID_DBTR" "EID_SRST \<noteq> EID_FWFT" "EID_SRST \<noteq> EID_SSE"
  "EID_PMU \<noteq> EID_BASE" "EID_PMU \<noteq> EID_RFNC" "EID_PMU \<noteq> EID_TIME" "EID_PMU \<noteq> EID_SPI" "EID_PMU \<noteq> EID_HSM" "EID_PMU \<noteq> EID_SRST" "EID_PMU \<noteq> EID_DBCN" "EID_PMU \<noteq> EID_SUSP" "EID_PMU \<noteq> EID_CPPC" "EID_PMU \<noteq> EID_NACL" "EID_PMU \<noteq> EID_STA" "EID_PMU \<noteq> EID_MPXY" "EID_PMU \<noteq> EID_DBTR" "EID_PMU \<noteq> EID_FWFT" "EID_PMU \<noteq> EID_SSE"
  "EID_DBCN \<noteq> EID_BASE" "EID_DBCN \<noteq> EID_RFNC" "EID_DBCN \<noteq> EID_TIME" "EID_DBCN \<noteq> EID_SPI" "EID_DBCN \<noteq> EID_HSM" "EID_DBCN \<noteq> EID_SRST" "EID_DBCN \<noteq> EID_PMU" "EID_DBCN \<noteq> EID_SUSP" "EID_DBCN \<noteq> EID_CPPC" "EID_DBCN \<noteq> EID_NACL" "EID_DBCN \<noteq> EID_STA" "EID_DBCN \<noteq> EID_MPXY" "EID_DBCN \<noteq> EID_DBTR" "EID_DBCN \<noteq> EID_FWFT" "EID_DBCN \<noteq> EID_SSE"
  "EID_SUSP \<noteq> EID_BASE" "EID_SUSP \<noteq> EID_RFNC" "EID_SUSP \<noteq> EID_TIME" "EID_SUSP \<noteq> EID_SPI" "EID_SUSP \<noteq> EID_HSM" "EID_SUSP \<noteq> EID_SRST" "EID_SUSP \<noteq> EID_PMU" "EID_SUSP \<noteq> EID_DBCN" "EID_SUSP \<noteq> EID_CPPC" "EID_SUSP \<noteq> EID_NACL" "EID_SUSP \<noteq> EID_STA" "EID_SUSP \<noteq> EID_MPXY" "EID_SUSP \<noteq> EID_DBTR" "EID_SUSP \<noteq> EID_FWFT" "EID_SUSP \<noteq> EID_SSE"
  "EID_CPPC \<noteq> EID_BASE" "EID_CPPC \<noteq> EID_RFNC" "EID_CPPC \<noteq> EID_TIME" "EID_CPPC \<noteq> EID_SPI" "EID_CPPC \<noteq> EID_HSM" "EID_CPPC \<noteq> EID_SRST" "EID_CPPC \<noteq> EID_PMU" "EID_CPPC \<noteq> EID_DBCN" "EID_CPPC \<noteq> EID_SUSP" "EID_CPPC \<noteq> EID_NACL" "EID_CPPC \<noteq> EID_STA" "EID_CPPC \<noteq> EID_MPXY" "EID_CPPC \<noteq> EID_DBTR" "EID_CPPC \<noteq> EID_FWFT" "EID_CPPC \<noteq> EID_SSE"
  "EID_NACL \<noteq> EID_BASE" "EID_NACL \<noteq> EID_RFNC" "EID_NACL \<noteq> EID_TIME" "EID_NACL \<noteq> EID_SPI" "EID_NACL \<noteq> EID_HSM" "EID_NACL \<noteq> EID_SRST" "EID_NACL \<noteq> EID_PMU" "EID_NACL \<noteq> EID_DBCN" "EID_NACL \<noteq> EID_SUSP" "EID_NACL \<noteq> EID_CPPC" "EID_NACL \<noteq> EID_STA" "EID_NACL \<noteq> EID_MPXY" "EID_NACL \<noteq> EID_DBTR" "EID_NACL \<noteq> EID_FWFT" "EID_NACL \<noteq> EID_SSE"
  "EID_STA \<noteq> EID_BASE" "EID_STA \<noteq> EID_RFNC" "EID_STA \<noteq> EID_TIME" "EID_STA \<noteq> EID_SPI" "EID_STA \<noteq> EID_HSM" "EID_STA \<noteq> EID_SRST" "EID_STA \<noteq> EID_PMU" "EID_STA \<noteq> EID_DBCN" "EID_STA \<noteq> EID_SUSP" "EID_STA \<noteq> EID_CPPC" "EID_STA \<noteq> EID_NACL" "EID_STA \<noteq> EID_MPXY" "EID_STA \<noteq> EID_DBTR" "EID_STA \<noteq> EID_FWFT" "EID_STA \<noteq> EID_SSE"
  "EID_MPXY \<noteq> EID_BASE" "EID_MPXY \<noteq> EID_RFNC" "EID_MPXY \<noteq> EID_TIME" "EID_MPXY \<noteq> EID_SPI" "EID_MPXY \<noteq> EID_HSM" "EID_MPXY \<noteq> EID_SRST" "EID_MPXY \<noteq> EID_PMU" "EID_MPXY \<noteq> EID_DBCN" "EID_MPXY \<noteq> EID_SUSP" "EID_MPXY \<noteq> EID_CPPC" "EID_MPXY \<noteq> EID_NACL" "EID_MPXY \<noteq> EID_STA" "EID_MPXY \<noteq> EID_DBTR" "EID_MPXY \<noteq> EID_FWFT" "EID_MPXY \<noteq> EID_SSE"
  "EID_DBTR \<noteq> EID_BASE" "EID_DBTR \<noteq> EID_RFNC" "EID_DBTR \<noteq> EID_TIME" "EID_DBTR \<noteq> EID_SPI" "EID_DBTR \<noteq> EID_HSM" "EID_DBTR \<noteq> EID_SRST" "EID_DBTR \<noteq> EID_PMU" "EID_DBTR \<noteq> EID_DBCN" "EID_DBTR \<noteq> EID_SUSP" "EID_DBTR \<noteq> EID_CPPC" "EID_DBTR \<noteq> EID_NACL" "EID_DBTR \<noteq> EID_STA" "EID_DBTR \<noteq> EID_MPXY" "EID_DBTR \<noteq> EID_FWFT" "EID_DBTR \<noteq> EID_SSE"
  "EID_FWFT \<noteq> EID_BASE" "EID_FWFT \<noteq> EID_RFNC" "EID_FWFT \<noteq> EID_TIME" "EID_FWFT \<noteq> EID_SPI" "EID_FWFT \<noteq> EID_HSM" "EID_FWFT \<noteq> EID_SRST" "EID_FWFT \<noteq> EID_PMU" "EID_FWFT \<noteq> EID_DBCN" "EID_FWFT \<noteq> EID_SUSP" "EID_FWFT \<noteq> EID_CPPC" "EID_FWFT \<noteq> EID_NACL" "EID_FWFT \<noteq> EID_STA" "EID_FWFT \<noteq> EID_MPXY" "EID_FWFT \<noteq> EID_DBTR" "EID_FWFT \<noteq> EID_SSE"
  "EID_SSE \<noteq> EID_BASE" "EID_SSE \<noteq> EID_RFNC" "EID_SSE \<noteq> EID_TIME" "EID_SSE \<noteq> EID_SPI" "EID_SSE \<noteq> EID_HSM" "EID_SSE \<noteq> EID_SRST" "EID_SSE \<noteq> EID_PMU" "EID_SSE \<noteq> EID_DBCN" "EID_SSE \<noteq> EID_SUSP" "EID_SSE \<noteq> EID_CPPC" "EID_SSE \<noteq> EID_NACL" "EID_SSE \<noteq> EID_STA" "EID_SSE \<noteq> EID_MPXY" "EID_SSE \<noteq> EID_DBTR" "EID_SSE \<noteq> EID_FWFT"
  by (simp_all add: eid_values)

lemma eid_standard: "EID_BASE \<in> set standard_eids" "EID_RFNC \<in> set standard_eids" "EID_TIME \<in> set standard_eids" "EID_SPI \<in> set standard_eids" "EID_HSM \<in> set standard_eids" "EID_SRST \<in> set standard_eids" "EID_PMU \<in> set standard_eids" "EID_DBCN \<in> set standard_eids" "EID_SUSP \<in> set standard_eids" "EID_CPPC \<in> set standard_eids" "EID_NACL \<in> set standard_eids" "EID_STA \<in> set standard_eids" "EID_MPXY \<in> set standard_eids" "EID_DBTR \<in> set standard_eids" "EID_FWFT \<in> set standard_eids" "EID_SSE \<in> set standard_eids"
  by (simp_all add: standard_eids_def)

lemma static_rfnc:
  assumes "static_ok imp"
  shows "static_probe imp EID_RFNC = prober (dynamic_of imp) EID_RFNC"
    "handle_ecall_static ids imp EID_RFNC fid p = handle_ecall ids (dynamic_of imp) EID_RFNC fid p"
  unfolding prober_rfnc handle_rfnc static_probe_def Let_def static_vendor(2) [OF assms eid_standard(2)]
  by (simp_all only: probe_standard_def StandardExtensionProbe.simps handle_ecall_static_def arm_simps eid_neq if_False if_True
      simp_thms static_vendor(1) [OF assms eid_standard(2)] dynamic_of_def DynamicImpl.simps
      probe_fields_option [OF default_field(1) [OF assms]] on_option [OF default_field(1) [OF assms]])

lemma static_time:
  assumes "static_ok imp"
  shows "static_probe imp EID_TIME = prober (dynamic_of imp) EID_TIME"
    "handle_ecall_static ids imp EID_TIME fid p = handle_ecall ids (dynamic_of imp) EID_TIME fid p"
  unfolding prober_time handle_time static_probe_def Let_def static_vendor(2) [OF assms eid_standard(3)]
  by (simp_all only: probe_standard_def StandardExtensionProbe.simps handle_ecall_static_def arm_simps eid_neq if_False if_True
      simp_thms static_vendor(1) [OF assms eid_standard(3)] dynamic_of_def DynamicImpl.simps
      probe_fields_option [OF default_field(2) [OF assms]] on_option [OF default_field(2) [OF assms]])

lemma static_spi:
  assumes "static_ok imp"
  shows "static_probe imp EID_SPI = prober (dynamic_of imp) EID_SPI"
    "handle_ecall_static ids imp EID_SPI fid p = handle_ecall ids (dynamic_of imp) EID_SPI fid p"
  unfolding prober_spi handle_spi static_probe_def Let_def static_vendor(2) [OF assms eid_standard(4)]
  by (simp_all only: probe_standard_def StandardExtensionProbe.simps handle_ecall_static_def arm_simps eid_neq if_False if_True
      simp_thms static_vendor(1) [OF assms eid_standard(4)] dynamic_of_def DynamicImpl.simps
      probe_fields_option [OF default_field(3) [OF assms]] on_option [OF default_field(3) [OF assms]])

lemma static_hsm:
  assumes "static_ok imp"
  shows "static_probe imp EID_HSM = prober (dynamic_of imp) EID_HSM"
    "handle_ecall_static ids imp EID_HSM fid p = handle_ecall ids (dynamic_of imp) EID_HSM fid p"
  unfolding prober_hsm handle_hsm static_probe_def Let_def static_vendor(2) [OF assms eid_standard(5)]
  by (simp_all only: probe_standard_def StandardExtensionProbe.simps handle_ecall_static_def arm_simps eid_neq if_False if_True
      simp_thms static_vendor(1) [OF assms eid_standard(5)] dynamic_of_def DynamicImpl.simps
      probe_fields_option [OF default_field(4) [OF assms]] on_option [OF default_field(4) [OF assms]])

lemma static_srst:
  assumes "static_ok imp"
  shows "static_probe imp EID_SRST = prober (dynamic_of imp) EID_SRST"
    "handle_ecall_static ids imp EID_SRST fid p = handle_ecall ids (dynamic_of imp) EID_SRST fid p"
  unfolding prober_srst handle_srst static_probe_def Let_def static_vendor(2) [OF assms eid_standard(6)]
  by (simp_all only: probe_standard_def StandardExtensionProbe.simps handle_ecall_static_def arm_simps eid_neq if_False if_True
      simp_thms static_vendor(1) [OF assms eid_standard(6)] dynamic_of_def DynamicImpl.simps
      probe_fields_option [OF default_field(5) [OF assms]] on_option [OF default_field(5) [OF assms]])

lemma static_pmu:
  assumes "static_ok imp"
  shows "static_probe imp EID_PMU = prober (dynamic_of imp) EID_PMU"
    "handle_ecall_static ids imp EID_PMU fid p = handle_ecall ids (dynamic_of imp) EID_PMU fid p"
  unfolding prober_pmu handle_pmu static_probe_def Let_def static_vendor(2) [OF assms eid_standard(7)]
  by (simp_all only: probe_standard_def StandardExtensionProbe.simps handle_ecall_static_def arm_simps eid_neq if_False if_True
      simp_thms static_vendor(1) [OF assms eid_standard(7)] dynamic_of_def DynamicImpl.simps
      probe_fields_option [OF default_field(6) [OF assms]] on_option [OF default_field(6) [OF assms]])

lemma static_dbcn:
  assumes "static_ok imp"
  shows "static_probe imp EID_DBCN = prober (dynamic_of imp) EID_DBCN"
    "handle_ecall_static ids imp EID_DBCN fid p = handle_ecall ids (dynamic_of imp) EID_DBCN fid p"
  unfolding prober_dbcn handle_dbcn static_probe_def Let_def static_vendor(2) [OF assms eid_standard(8)]
  by (simp_all only: probe_standard_def StandardExtensionProbe.simps handle_ecall_static_def arm_simps eid_neq if_False if_True
      simp_thms static_vendor(1) [OF assms eid_standard(8)] dynamic_of_def DynamicImpl.simps
      probe_fields_option [OF default_field(7) [OF assms]] on_option [OF default_field(7) [OF assms]])

lemma static_susp:
  assumes "static_ok imp"
  shows "static_probe imp EID_SUSP = prober (dynamic_of imp) EID_SUSP"
    "handle_ecall_static ids imp EID_SUSP fid p = handle_ecall ids (dynamic_of imp) EID_SUSP fid p"
  unfolding prober_susp handle_susp static_probe_def Let_def static_vendor(2) [OF assms eid_standard(9)]
  by (simp_all only: probe_standard_def StandardExtensionProbe.simps handle_ecall_static_def arm_simps eid_neq if_False if_True
      simp_thms static_vendor(1) [OF assms eid_standard(9)] dynamic_of_def DynamicImpl.simps
      probe_fields_option [OF default_field(8) [OF assms]] on_option [OF default_field(8) [OF assms]])

lemma static_cppc:
  assumes "static_ok imp"
  shows "static_probe imp EID_CPPC = prober (dynamic_of imp) EID_CPPC"
    "handle_ecall_static ids imp EID_CPPC fid p = handle_ecall ids (dynamic_of imp) EID_CPPC fid p"
  unfolding prober_cppc handle_cppc static_probe_def Let_def static_vendor(2) [OF assms eid_standard(10)]
  by (simp_all only: probe_standard_def StandardExtensionProbe.simps handle_ecall_static_def arm_simps eid_neq if_False if_True
      simp_thms static_vendor(1) [OF assms eid_standard(10)] dynamic_of_def DynamicImpl.simps
      probe_fields_option [OF default_field(9) [OF assms]] on_option [OF default_field(9) [OF assms]])

lemma static_nacl:
  assumes "static_ok imp"
  shows "static_probe imp EID_NACL = prober (dynamic_of imp) EID_NACL"
    "handle_ecall_static ids imp EID_NACL fid p = handle_ecall ids (dynamic_of imp) EID_NACL fid p"
  unfolding prober_nacl handle_nacl static_probe_def Let_def static_vendor(2) [OF assms eid_standard(11)]
  by (simp_all only: probe_standard_def StandardExtensionProbe.simps handle_ecall_static_def arm_simps eid_neq if_False if_True
      simp_thms static_vendor(1) [OF assms eid_standard(11)] dynamic_of_def DynamicImpl.simps
      probe_fields_option [OF default_field(10) [OF assms]] on_option [OF default_field(10) [OF assms]])

lemma static_sta:
  assumes "static_ok imp"
  shows "static_probe imp EID_STA = prober (dynamic_of imp) EID_STA"
    "handle_ecall_static ids imp EID_STA fid p = handle_ecall ids (dynamic_of imp) EID_STA fid p"
  unfolding prober_sta handle_sta static_probe_def Let_def static_vendor(2) [OF assms eid_standard(12)]
  by (simp_all only: probe_standard_def StandardExtensionProbe.simps handle_ecall_static_def arm_simps eid_neq if_False if_True
      simp_thms static_vendor(1) [OF assms eid_standard(12)] dynamic_of_def DynamicImpl.simps
      probe_fields_option [OF default_field(11) [OF assms]] on_option [OF default_field(11) [OF assms]])

lemma static_mpxy:
  assumes "static_ok imp"
  shows "static_probe imp EID_MPXY = prober (dynamic_of imp) EID_MPXY"
    "handle_ecall_static ids imp EID_MPXY fid p = handle_ecall ids (dynamic_of imp) EID_MPXY fid p"
  unfolding prober_mpxy handle_mpxy static_probe_def Let_def static_vendor(2) [OF assms eid_standard(13)]
  by (simp_all only: probe_standard_def StandardExtensionProbe.simps handle_ecall_static_def arm_simps eid_neq if_False if_True
      simp_thms static_vendor(1) [OF assms eid_standard(13)] dynamic_of_def DynamicImpl.simps
      probe_fields_option [OF default_field(12) [OF assms]] on_option [OF default_field(12) [OF assms]])

lemma static_dbtr:
  assumes "static_ok imp"
  shows "static_probe imp EID_DBTR = prober (dynamic_of imp) EID_DBTR"
    "handle_ecall_static ids imp EID_DBTR fid p = handle_ecall ids (dynamic_of imp) EID_DBTR fid p"
  unfolding prober_dbtr handle_dbtr static_probe_def Let_def static_vendor(2) [OF assms eid_standard(14)]
  by (simp_all only: probe_standard_def StandardExtensionProbe.simps handle_ecall_static_def arm_simps eid_neq if_False if_True
      simp_thms static_vendor(1) [OF assms eid_standard(14)] dynamic_of_def DynamicImpl.simps
      probe_fields_option [OF default_field(13) [OF assms]] on_option [OF default_field(13) [OF assms]])

lemma static_fwft:
  assumes "static_ok imp"
  shows "static_probe imp EID_FWFT = prober (dynamic_of imp) EID_FWFT"
    "handle_ecall_static ids imp EID_FWFT fid p = handle_ecall ids (dynamic_of imp) EID_FWFT fid p"
  unfolding prober_fwft handle_fwft static_probe_def Let_def static_vendor(2) [OF assms eid_standard(15)]
  by (simp_all only: probe_standard_def StandardExtensionProbe.simps handle_ecall_static_def arm_simps eid_neq if_False if_True
      simp_thms static_vendor(1) [OF assms eid_standard(15)] dynamic_of_def DynamicImpl.simps
      probe_fields_option [OF default_field(14) [OF assms]] on_option [OF default_field(14) [OF assms]])

lemma static_sse:
  assumes "static_ok imp"
  shows "static_probe imp EID_SSE = prober (dynamic_of imp) EID_SSE"
    "handle_ecall_static ids imp EID_SSE fid p = handle_ecall ids (dynamic_of imp) EID_SSE fid p"
  unfolding prober_sse handle_sse static_probe_def Let_def static_vendor(2) [OF assms eid_standard(16)]
  by (simp_all only: probe_standard_def StandardExtensionProbe.simps handle_ecall_static_def arm_simps eid_neq if_False if_True
      simp_thms static_vendor(1) [OF assms eid_standard(16)] dynamic_of_def DynamicImpl.simps
      probe_fields_option [OF default_field(15) [OF assms]] on_option [OF default_field(15) [OF assms]])

lemma static_probe_other:
  "ext \<notin> set standard_eids \<Longrightarrow> static_probe imp ext = prober (dynamic_of imp) ext"
  by (cases "si_vendor imp")
    (simp_all add: prober_other static_probe_def probe_standard_def standard_eids_def dynamic_of_def UNAVAILABLE_EXTENSION_def)

lemma static_probe_base: "static_ok imp \<Longrightarrow> static_probe imp EID_BASE = prober (dynamic_of imp) EID_BASE"
  by (simp add: prober_base static_probe_def Let_def static_vendor(2) eid_standard)
    (simp add: probe_standard_def)

lemma static_probe_dynamic: "static_ok imp \<Longrightarrow> static_probe imp = prober (dynamic_of imp)"
proof (rule ext)
  fix e
  assume "static_ok imp"
  then show "static_probe imp e = prober (dynamic_of imp) e"
    by (cases "e \<in> set standard_eids", elim standard_cases)
      (simp_all only: static_probe_base static_probe_other static_rfnc(1) static_time(1) static_spi(1) static_hsm(1) static_srst(1) static_pmu(1) static_dbcn(1) static_susp(1) static_cppc(1) static_nacl(1) static_sta(1) static_mpxy(1) static_dbtr(1) static_fwft(1) static_sse(1) simp_thms)
qed

text \<open>
  The static and the dynamic dispatcher agree. For an implementation whose fields have the
  default probe and whose vendor handler answers for no standard extension, the dispatcher that
  \<open>derive(RustSBI)\<close> generates by default answers every call as the one it generates with \<open>dynamic\<close>,
  probing included.
\<close>

theorem static_dynamic_agree:
  assumes "static_ok imp"
  shows "handle_ecall_static ids imp e fid p = handle_ecall ids (dynamic_of imp) e fid p"
proof (cases "e \<in> set standard_eids")
  case True
  then show ?thesis
  proof (rule standard_cases)
    assume "e = EID_BASE"
    then show ?thesis
      unfolding handle_ecall_static_def static_probe_dynamic [OF assms] by (simp add: handle_base) (simp add: dynamic_of_def)
  qed (simp_all only: static_rfnc(2) static_time(2) static_spi(2) static_hsm(2) static_srst(2) static_pmu(2) static_dbcn(2) static_susp(2) static_cppc(2) static_nacl(2) static_sta(2) static_mpxy(2) static_dbtr(2) static_fwft(2) static_sse(2) assms)
next
  case False
  then show ?thesis
    unfolding handle_other [OF False] by (simp add: handle_ecall_static_def standard_eids_def dynamic_of_def)
qed

definition demo_static :: "usize list StaticImpl" where
  "demo_static =
     \<lparr>si_fence = None,
      si_timer = Some \<lparr>Timer_set_timer = (\<lambda>v. State (\<lambda>s. ((), v # s))), Timer_rustsbi_probe = default_probe\<rparr>,
      si_ipi = None,
      si_hsm = None,
      si_reset = None,
      si_pmu = None,
      si_console = None,
      si_susp = None,
      si_cppc = None,
      si_nacl = None,
      si_sta = None,
      si_mpxy = None,
      si_dbtr = None,
      si_fwft = None,
      si_sse = None,
      si_env_info = None,
      si_vendor = Some \<lparr>VendorSBI_probe_extension = (\<lambda>e. if e = 0x9000000 then 1 else 0),
        VendorSBI_handle_ecall = (\<lambda>e fid p. if e = 0x9000000 then State (\<lambda>s. (sbi_success 1, fid # s)) else ns)\<rparr>\<rparr>"

lemma demo_static_ok: "static_ok demo_static"
proof -
  have "e \<noteq> 0x9000000" if "e \<in> set standard_eids" for e
    using that by (auto simp: standard_eids_def eid_values)
  then show ?thesis
    by (auto simp: static_ok_def default_fields_def demo_static_def vendor_ok_def UNAVAILABLE_EXTENSION_def)
qed

theorem static_dynamic_agree_witness:
  "run_state (handle_ecall_static (0, 0, 0) demo_static EID_BASE BASE_PROBE_EXTENSION [EID_TIME, 0, 0, 0, 0, 0]) [] = (sbi_success 1, [])
   \<and> run_state (handle_ecall (0, 0, 0) (dynamic_of demo_static) EID_TIME TIME_SET_TIMER [77, 0, 0, 0, 0, 0]) [] = (sbi_success 0, [77])"
proof -
  have "run_state (handle_ecall_static (0, 0, 0) demo_static EID_TIME TIME_SET_TIMER [77, 0, 0, 0, 0, 0]) [] = (sbi_success 0, [77])"
    by (simp add: handle_ecall_static_def eid_neq demo_static_def rustsbi_timer_def State_Monad.bind_def State_Monad.return_def)
  moreover have "run_state (handle_ecall_static (0, 0, 0) demo_static EID_BASE BASE_PROBE_EXTENSION [EID_TIME, 0, 0, 0, 0, 0]) [] = (sbi_success 1, [])"
    by (simp add: handle_ecall_static_def rustsbi_base_bare_def fid_defs demo_static_def static_probe_def probe_standard_def
        eid_neq some_probe_def success_of_def State_Monad.bind_def State_Monad.return_def)
  ultimately show ?thesis
    unfolding static_dynamic_agree [OF demo_static_ok] by simp
qed

section \<open>The dispatcher of the firmware\<close>

record 's SbiDispatcher =
  sd_console :: "'s Console option"
  sd_cppc :: "'s Cppc option"
  sd_dbtr :: "'s Dbtr option"
  sd_fwft :: "'s Fwft option"
  sd_ipi :: "'s Ipi option"
  sd_timer :: "'s Timer option"
  sd_hsm :: "'s Hsm option"
  sd_reset :: "'s SbiReset"
  sd_rfence :: "'s Fence option"
  sd_pmu :: "'s Pmu option"
  sd_sta :: "'s Sta option"
  sd_susp :: "'s Susp option"
  sd_mpxy :: "'s Mpxy option"
  sd_vendor :: "'s VendorSBI option"

definition dispatcher_impl :: "'s SbiDispatcher \<Rightarrow> 's DynamicImpl" where
  "dispatcher_impl d =
     \<lparr>di_fence = [option_Fence (sd_rfence d)], di_timer = [option_Timer (sd_timer d)],
      di_ipi = [option_Ipi (sd_ipi d)], di_hsm = [option_Hsm (sd_hsm d)], di_reset = [Reset_of (sd_reset d)],
      di_pmu = [option_Pmu (sd_pmu d)], di_console = [option_Console (sd_console d)],
      di_susp = [option_Susp (sd_susp d)], di_cppc = [option_Cppc (sd_cppc d)], di_nacl = [],
      di_sta = [option_Sta (sd_sta d)], di_mpxy = [option_Mpxy (sd_mpxy d)],
      di_dbtr = [option_Dbtr (sd_dbtr d)], di_fwft = [option_Fwft (sd_fwft d)], di_sse = [],
      di_env_info = None, di_vendor = Some (option_VendorSBI (sd_vendor d))\<rparr>"

definition dispatcher_handle_ecall ::
    "usize \<times> usize \<times> usize \<Rightarrow> 's SbiDispatcher \<Rightarrow> usize \<Rightarrow> usize \<Rightarrow> usize list \<Rightarrow> ('s, sbi_ret) state" where
  "dispatcher_handle_ecall ids d = handle_ecall ids (dispatcher_impl d)"

text \<open>
  The extensions that the platform has installed. Base always is; reset, whose field is no option,
  is when the selected reset device has a backend.
\<close>

definition installed :: "'s SbiDispatcher \<Rightarrow> usize \<Rightarrow> bool" where
  "installed d e \<longleftrightarrow> e = EID_BASE \<or> e = EID_SRST \<and> rd_backend (sr_device (sd_reset d)) \<noteq> None
     \<or> e = EID_RFNC \<and> sd_rfence d \<noteq> None \<or> e = EID_TIME \<and> sd_timer d \<noteq> None \<or> e = EID_SPI \<and> sd_ipi d \<noteq> None
     \<or> e = EID_HSM \<and> sd_hsm d \<noteq> None \<or> e = EID_PMU \<and> sd_pmu d \<noteq> None \<or> e = EID_DBCN \<and> sd_console d \<noteq> None
     \<or> e = EID_SUSP \<and> sd_susp d \<noteq> None \<or> e = EID_CPPC \<and> sd_cppc d \<noteq> None \<or> e = EID_STA \<and> sd_sta d \<noteq> None
     \<or> e = EID_MPXY \<and> sd_mpxy d \<noteq> None \<or> e = EID_DBTR \<and> sd_dbtr d \<noteq> None \<or> e = EID_FWFT \<and> sd_fwft d \<noteq> None"

lemma option_rustsbi_probe [simp]: "Fence_rustsbi_probe (option_Fence o'Fence) = option_probe o'Fence"
  "Timer_rustsbi_probe (option_Timer o'Timer) = option_probe o'Timer"
  "Ipi_rustsbi_probe (option_Ipi o'Ipi) = option_probe o'Ipi"
  "Hsm_rustsbi_probe (option_Hsm o'Hsm) = option_probe o'Hsm"
  "Pmu_rustsbi_probe (option_Pmu o'Pmu) = option_probe o'Pmu"
  "Console_rustsbi_probe (option_Console o'Console) = option_probe o'Console"
  "Susp_rustsbi_probe (option_Susp o'Susp) = option_probe o'Susp"
  "Cppc_rustsbi_probe (option_Cppc o'Cppc) = option_probe o'Cppc"
  "Nacl_rustsbi_probe (option_Nacl o'Nacl) = option_probe o'Nacl"
  "Sta_rustsbi_probe (option_Sta o'Sta) = option_probe o'Sta"
  "Mpxy_rustsbi_probe (option_Mpxy o'Mpxy) = option_probe o'Mpxy"
  "Dbtr_rustsbi_probe (option_Dbtr o'Dbtr) = option_probe o'Dbtr"
  "Fwft_rustsbi_probe (option_Fwft o'Fwft) = option_probe o'Fwft"
  "Sse_rustsbi_probe (option_Sse o'Sse) = option_probe o'Sse"
  "Reset_rustsbi_probe (option_Reset o'Reset) = option_probe o'Reset"
  by (simp_all add: option_Fence_def option_Timer_def option_Ipi_def option_Hsm_def option_Pmu_def option_Console_def option_Susp_def option_Cppc_def option_Nacl_def option_Sta_def option_Mpxy_def option_Dbtr_def option_Fwft_def option_Sse_def option_Reset_def)

lemma probe_single: "probe_fields probe [x] = probe x"
  by (simp add: probe_fields_def)

lemma option_probe_bool: "option_probe x = of_bool (x \<noteq> None)"
  by (cases x) simp_all

lemma dispatcher_env: "di_env_info (dispatcher_impl d) = None"
  by (simp add: dispatcher_impl_def)

lemma reset_probe: "Reset_rustsbi_probe (Reset_of r) = of_bool (rd_backend (sr_device r) \<noteq> None)"
  by (simp add: Reset_of_def sbi_reset_probe_def is_available_def)

lemma dispatcher_probe_standard:
  assumes "e \<in> set standard_eids"
  shows "prober (dispatcher_impl d) e = of_bool (installed d e)"
  using assms
  by (rule standard_cases)
    (simp_all only: prober_base prober_rfnc prober_time prober_spi prober_hsm prober_srst prober_pmu prober_dbcn prober_susp prober_cppc prober_nacl prober_sta prober_mpxy prober_dbtr prober_fwft prober_sse, simp_all add: dispatcher_impl_def installed_def eid_neq
      probe_single option_probe_bool reset_probe probe_fields_def UNAVAILABLE_EXTENSION_def)

text \<open>
  C17: probing the firmware is exact. For every standard extension, probing answers 1 if the
  platform has installed the extension and 0 if not (base is always installed, system reset when the
  reset device has a backend), and a call of an extension that is not
  installed changes nothing and answers \<open>not_supported\<close>.
\<close>

theorem dispatcher_probe_exact:
  assumes "e \<in> set standard_eids"
  shows "dispatcher_handle_ecall ids d EID_BASE BASE_PROBE_EXTENSION (e # p)
      = State_Monad.return (sbi_success (of_bool (installed d e)))
    \<and> (installed d e \<or> dispatcher_handle_ecall ids d e fid q = State_Monad.return sbi_not_supported)"
proof
  show "dispatcher_handle_ecall ids d EID_BASE BASE_PROBE_EXTENSION (e # p)
      = State_Monad.return (sbi_success (of_bool (installed d e)))"
    using dispatcher_probe_standard [OF assms, of d]
    by (simp add: dispatcher_handle_ecall_def handle_base dispatcher_env rustsbi_base_bare_def fid_defs)
  show "installed d e \<or> dispatcher_handle_ecall ids d e fid q = State_Monad.return sbi_not_supported"
    using assms
    by (rule standard_cases)
      (simp_all only: dispatcher_handle_ecall_def handle_base handle_rfnc handle_time handle_spi handle_hsm handle_srst handle_pmu handle_dbcn handle_susp handle_cppc handle_nacl handle_sta handle_mpxy handle_dbtr handle_fwft handle_sse,
       simp_all add: dispatcher_impl_def installed_def eid_neq on_def provider_def option_probe_bool reset_probe UNAVAILABLE_EXTENSION_def ns_def)
qed

definition demo_dispatcher :: "usize list SbiDispatcher" where
  "demo_dispatcher =
     \<lparr>sd_console = None, sd_cppc = None, sd_dbtr = None, sd_fwft = None, sd_ipi = None,
      sd_timer = Some \<lparr>Timer_set_timer = (\<lambda>v. State (\<lambda>s. ((), v # s))), Timer_rustsbi_probe = default_probe\<rparr>,
      sd_hsm = None,
      sd_reset = sbi_reset_new \<lparr>rd_backend = None\<rparr>,
      sd_rfence = None, sd_pmu = None, sd_sta = None, sd_susp = None, sd_mpxy = None, sd_vendor = None\<rparr>"

theorem dispatcher_probe_exact_witness:
  "dispatcher_handle_ecall (0, 0, 0) demo_dispatcher EID_BASE BASE_PROBE_EXTENSION [EID_TIME, 0, 0, 0, 0, 0]
     = State_Monad.return (sbi_success 1)
   \<and> dispatcher_handle_ecall (0, 0, 0) demo_dispatcher EID_BASE BASE_PROBE_EXTENSION [EID_SRST, 0, 0, 0, 0, 0]
     = State_Monad.return (sbi_success 0)
   \<and> dispatcher_handle_ecall (0, 0, 0) demo_dispatcher EID_HSM HSM_HART_STOP [0, 0, 0, 0, 0, 0]
     = State_Monad.return sbi_not_supported"
proof -
  have "installed demo_dispatcher EID_TIME" "\<not> installed demo_dispatcher EID_HSM"
    "\<not> installed demo_dispatcher EID_SRST"
    by (simp_all add: installed_def demo_dispatcher_def sbi_reset_new_def eid_neq)
  then show ?thesis
    using dispatcher_probe_exact [OF eid_standard(3), of "(0, 0, 0)" demo_dispatcher "[0, 0, 0, 0, 0]"]
      dispatcher_probe_exact [OF eid_standard(6), of "(0, 0, 0)" demo_dispatcher "[0, 0, 0, 0, 0]"]
      dispatcher_probe_exact [OF eid_standard(5), of "(0, 0, 0)" demo_dispatcher "[]" HSM_HART_STOP "[0, 0, 0, 0, 0, 0]"]
    by simp
qed

section \<open>Calls that do not arrive as they were made\<close>

text \<open>
  C40: trigger masks arrive with mask and base exchanged. The wrappers of \<open>sbi-rt\<close> pass the base in \<open>a0\<close>
  and the mask in \<open>a1\<close>, as the interface has it; the dispatch reads them the other way round. The
  wrappers for message attributes do not pass the pointer that the dispatch takes from \<open>a3\<close> and \<open>a4\<close>: it
  is what those registers happen to hold.
\<close>

theorem trigger_masks_swapped:
  "debug_enable_triggers (S\<lparr>ecall := handle_ecall ids D\<rparr>) t = on Dbtr_rustsbi_probe (di_dbtr D)
      (\<lambda>x. Dbtr_enable_triggers x (trigger_mask_from_mask_base (trig_idx_base t) (trig_idx_mask t)))
    \<and> debug_disable_triggers (S\<lparr>ecall := handle_ecall ids D\<rparr>) t = on Dbtr_rustsbi_probe (di_dbtr D)
      (\<lambda>x. Dbtr_disable_triggers x (trigger_mask_from_mask_base (trig_idx_base t) (trig_idx_mask t)))
    \<and> debug_uninstall_triggers (S\<lparr>ecall := handle_ecall ids D\<rparr>) t = on Dbtr_rustsbi_probe (di_dbtr D)
      (\<lambda>x. Dbtr_uninstall_triggers x (trigger_mask_from_mask_base (trig_idx_base t) (trig_idx_mask t)))
    \<and> mpxy_read_attributes (S\<lparr>ecall := handle_ecall ids D\<rparr>) ch base cnt = on Mpxy_rustsbi_probe (di_mpxy D)
      (\<lambda>x. Mpxy_read_attributes x ch base cnt (shared_new (a_reg S 3) (a_reg S 4)))
    \<and> mpxy_write_attributes (S\<lparr>ecall := handle_ecall ids D\<rparr>) ch base cnt = on Mpxy_rustsbi_probe (di_mpxy D)
      (\<lambda>x. Mpxy_write_attributes x ch base cnt (shared_new (a_reg S 3) (a_reg S 4)))"
  by (simp add: debug_enable_triggers_def debug_disable_triggers_def debug_uninstall_triggers_def
      mpxy_read_attributes_def mpxy_write_attributes_def sbi_call_defs handle_dbtr handle_mpxy
      rustsbi_dbtr_def rustsbi_mpxy_def fid_defs trigger_mask_into_inner_def)

text \<open>A reference to an absent extension probes as available, although every call of it is refused.\<close>

lemma reference_to_none_probes_available:
  "Fence_rustsbi_probe (ref_Fence (option_Fence None)) = 1"
  "Fence_remote_fence_i (ref_Fence (option_Fence None)) hm = ns"
  by (simp_all add: ref_Fence_def option_Fence_def)

end
