(* ===== verification/Spec2Isabelle.thy ===== *)
theory Spec2Isabelle
  imports Hart_Mask Sbi_Ret Firmware_Event Pmp_Slots Pmp_Entry Sec_Mem_Protector
    Sec_Mem_Alloc Sec_Mem_Manager Sec_Mem_Isolation Phys_Memory Hart_Lifecycle
    Hart_Interleaving Ipi_Targets Rfence Rfence_Protocol Pmu_Event Pmu Pmu_Correct
    Fdt_Correct Fdt_Example Fdt_Format Fdt_Keeps Fdt_Layout Fdt_Patch Fdt_Plan Fdt_Safety
    Fdt_Tokens Fdt_Valid Fdt_View Fdt_Writer Fwft Sbi_Dispatch Sbi_Forward Sbi_Probe
    Sbi_Remote Sbi_Reset Sbi_Rt Sbi_Traits Trap_Correct Trap_Dispatch Trap_Ecall
    Trap_Example Trap_Guard Trap_Machine Trap_Memory Trap_Refines
begin

text \<open>
  A verification library for RustSBI: the supervisor binary interface libraries under
  \<open>src/library\<close> and the firmware (\<open>prototyper\<close> and \<open>runtime\<close>) under \<open>src/firmware\<close>.

  \<^bold>\<open>The program.\<close> A supervisor running on several harts calls the firmware by \<open>ecall\<close>. The
  runtime keeps the lifecycle of each hart, owns physical memory and takes traps; the
  prototyper implements the SBI extensions over it: HSM (start, stop, suspend), IPI, remote
  fences, PMU and firmware features. The libraries give the data of the interface (hart masks, call results), the
  physical memory protection registers (\<open>pmpm\<close>) and a secure memory manager for enclaves (\<open>smm\<close>).

  \<^bold>\<open>Conventions\<close> (\<open>Rust_Prelude\<close>). The target is RV64: \<open>usize\<close> is a 64-bit word. A panic is the
  value \<open>Panic\<close> of \<open>'a outcome\<close>, so a theorem that a call returns shows that no assertion,
  \<open>unwrap\<close>, index or, with overflow checks on, arithmetic operation in it fails. \<open>Result\<close> is a
  sum type. State is passed explicitly; what harts share is changed by the steps of an
  inductive relation, one step per atomic access, under sequential consistency: the
  acquire and release orderings of the source are not weakened further in the model.
  Registers and devices are records of values; a device that may fail is a parameter or a free
  choice of the step. Every loop is a total function; no fuel is used.

  \<^bold>\<open>SBI data.\<close> \<open>Hart_Mask\<close> (\<open>sbi-spec/src/binary\<close>): hart, counter and trigger masks and the
  double-ended iterator, compared with membership. \<open>Sbi_Ret\<close>: call results and errors, with the
  round trip between their two views. \<open>Firmware_Event\<close>: event numbers.

  \<^bold>\<open>Physical memory protection and secure memory.\<close> \<open>Pmp_Slots\<close> (\<open>pmpm/src/bitmap.rs\<close>): the
  lock-free slot bitmap, with exclusive ownership under every interleaving of harts that free only
  slots they own. \<open>Pmp_Entry\<close>
  (\<open>pmpm/src/lib.rs\<close>): encoding of areas in \<open>pmpaddr\<close> and its round trip.
  \<open>Sec_Mem_Protector\<close> (\<open>smm/src/protector.rs\<close>): the two protectors, both interpretations of the
  locale \<open>slot_pool\<close>. \<open>Sec_Mem_Alloc\<close> (\<open>smm/src/allocators.rs\<close>): the allocators, interpretations
  of the locales \<open>exclusive_allocator\<close> and \<open>shared_allocator\<close>; the buddy heap of the application
  allocator is a third-party crate and is a parameter: \<open>heap_law\<close> says that it accepts areas of
  whole words away from both ends of the address space and hands out blocks of them.
  \<open>Sec_Mem_Manager\<close> and \<open>Sec_Mem_Isolation\<close> (\<open>smm/src/manager.rs\<close>): the manager and, in the
  locale \<open>sec_mem_clients\<close>, the isolation of regions after any calls, and of enclave blocks when
  only live blocks are freed.

  \<^bold>\<open>Runtime.\<close> \<open>Phys_Memory\<close> (\<open>runtime/src/memory\<close>): ranges, the registry, supervisor memory and
  device windows: what the firmware reads or writes for the supervisor stays in the
  supervisor's memory. \<open>Hart_Lifecycle\<close> (\<open>runtime/src/hart\<close>, \<open>prototyper/src/sbi/hsm.rs\<close>): the
  lifecycle operations and the HSM adapter. \<open>Hart_Interleaving\<close>: all harts together; handoffs are
  published and entered once and in order, reservations are exclusive, a pending start can be
  entered by its hart alone. What the platform published for IPIs (\<open>ipi.rs\<close>) is a parameter, and the
  panics of an incomplete platform are steps.

  \<^bold>\<open>Extensions.\<close> \<open>Ipi_Targets\<close> (\<open>prototyper/src/sbi/ipi.rs\<close>): target selection and \<open>send_ipi\<close>.
  Calls and traps count firmware events on the PMU state, and panic when a counter overflows.
  \<open>Rfence\<close> (\<open>rfence.rs\<close>, \<open>rfence/queue.rs\<close>): address checks, the fences a hart executes, the request
  queue. \<open>Rfence_Protocol\<close>: the protocol of all harts; a call that succeeds has fenced every target,
  none is lost. \<open>Pmu_Event\<close>, \<open>Pmu\<close>, \<open>Pmu_Correct\<close> (\<open>pmu.rs\<close>): events and event maps, the calls, and
  that they return, assign counters as asked and count exactly.

  \<^bold>\<open>Traps.\<close> \<open>Trap_Machine\<close> (\<open>runtime/src/trap\<close>: \<open>frame.rs\<close>, \<open>recovery.rs\<close>): the hart the trap code runs
  on, the frame and the guarded accesses, whose faults the recovery vector absorbs. \<open>Trap_Dispatch\<close>
  (\<open>decode.rs\<close>, \<open>emulate.rs\<close>, \<open>redirect.rs\<close>, \<open>dispatch.rs\<close>, \<open>entry.rs\<close>): the trap vector with its fast path,
  emulation of misaligned accesses and time reads, redirection to the supervisor, the interrupt
  transports and the supervisor call. \<open>Trap_Guard\<close> and \<open>Trap_Memory\<close> show that a guarded access leaves
  the hart as it was, \<open>Trap_Correct\<close> defines what software observes of a hart and the exceptions of
  the architecture, and \<open>Trap_Refines\<close> and \<open>Trap_Ecall\<close> prove that the vector implements them: an
  emulated access looks like one of the hardware, a fault like an exception delegated by the
  hardware, the fast path like the slow one. The counters a trap reports to may panic, and then the
  trap does. \<open>Trap_Example\<close> is the hart of the witnesses, with the counters of the firmware. \<open>Fwft\<close>
  (\<open>prototyper/src/sbi/fwft.rs\<close>): the firmware features extension over these accesses. The decoder
  crate and the services installed in the runtime are fields of \<open>trap_env\<close>; a computation that ends in
  the fail-stop vector, panics or waits is a value of \<open>'a run\<close>.

  \<^bold>\<open>Calls.\<close> \<open>Sbi_Traits\<close> (\<open>library/rustsbi/src\<close>): the extension traits as records of methods in the state
  monad. \<open>Sbi_Dispatch\<close> (\<open>traits.rs\<close>, \<open>macros/src/lib.rs\<close>): dispatch of a call and the two derived
  dispatchers. \<open>Sbi_Rt\<close> (\<open>library/sbi-rt/src\<close>): the wrappers of the supervisor. \<open>Sbi_Remote\<close>: a wrapper over a
  dispatcher is the method it names, for every request; \<open>Sbi_Forward\<close> (\<open>forward.rs\<close>): a forwarding
  implementation repeats each call below it. \<open>Sbi_Reset\<close> (\<open>prototyper/src/sbi/reset.rs\<close>,
  \<open>driver/reset\<close>): the system reset extension. \<open>Sbi_Probe\<close>: probing is exact, the static and the dynamic
  dispatcher agree, and the calls that arrive changed.

  \<^bold>\<open>Device tree.\<close> \<open>Fdt_Format\<close>, \<open>Fdt_Plan\<close>, \<open>Fdt_Writer\<close> (\<open>runtime/src/device_tree/patch.rs\<close>, \<open>patch/format.rs\<close>,
  \<open>plan.rs\<close>, \<open>writer.rs\<close>): the flattened device tree the firmware checks at boot and rewrites for the next
  stage. Bytes are words, offsets naturals whose additions are checked at 64 bits; slices, indices,
  string truncation and copies panic where Rust does. The loops are total because every token moves
  the offset: \<open>Fdt_Tokens\<close> has the locale \<open>token_loop\<close> of a reader of tokens, \<open>Fdt_Safety\<close> the locales
  \<open>counted_loop\<close> and \<open>safe_loop\<close>, which bound the iterations and exclude a panic. \<open>Fdt_Layout\<close>: what the writer
  builds parses again. \<open>Fdt_View\<close> defines a tree by its tokens, hidden nodes and inserted nodes as
  edits of the token list; \<open>Fdt_Patch\<close> and \<open>Fdt_Correct\<close> show that the bytes written are those of
  the edited tree, \<open>Fdt_Valid\<close> and \<open>Fdt_Keeps\<close> that validation decides well-formedness of the tokens and that
  the edits keep it. \<open>Fdt_Example\<close> is the tree of the witnesses.

  \<^bold>\<open>Not modelled.\<close> Device drivers and platform discovery, the boot assembly (their effect is outside the
  program); build tools; test programs; weak memory ordering; queries of the device tree
  (\<open>device_tree.rs\<close>), which go through a third-party crate; RPMI messages and the
  interrupt controllers of \<open>riscv-aia\<close>.
\<close>

end
